(* ===== verification/Prelude.thy ===== *)
theory Prelude
  imports Main "HOL-Library.Char_ord" "HOL-Library.List_Lexorder"
begin

text \<open>
  What every component of the operator's model shares: the parts of Go's
  \<^verbatim>\<open>strings\<close>, \<^verbatim>\<open>strconv\<close>, \<^verbatim>\<open>sort\<close> and \<^verbatim>\<open>fmt\<close> packages the modelled code
  calls, written over Isabelle's \<^typ>\<open>string\<close> (a list of 8-bit characters, which is
  what a Go string is), and the lemmas about them.

  Case folding and white space are the ASCII part of Go's Unicode-aware functions: the
  strings they are applied to (Neo4j states, database names, annotation values the
  operator wrote, image tags) are ASCII.
\<close>

named_theorems go_str \<open>rewriting of the string functions\<close>
named_theorems keeps \<open>fields an operation leaves as they are\<close>


section \<open>Strings\<close>

subsection \<open>Prefixes, indices, splitting\<close>

text \<open>\<^verbatim>\<open>strings.CutPrefix\<close>: what is left after the prefix, if it is one.\<close>

fun cut_prefix :: "string \<Rightarrow> string \<Rightarrow> string option" where
  "cut_prefix [] s = Some s"
| "cut_prefix (p # ps) [] = None"
| "cut_prefix (p # ps) (c # cs) = (if p = c then cut_prefix ps cs else None)"

definition has_prefix :: "string \<Rightarrow> string \<Rightarrow> bool" where
  "has_prefix s p = (cut_prefix p s \<noteq> None)"

definition trim_prefix :: "string \<Rightarrow> string \<Rightarrow> string" where
  "trim_prefix s p = (case cut_prefix p s of None \<Rightarrow> s | Some r \<Rightarrow> r)"

lemma cut_prefix_append [simp, go_str]: "cut_prefix p (p @ s) = Some s"
  by (induction p) auto

lemma cut_prefix_Some_iff [go_str]: "cut_prefix p s = Some r \<longleftrightarrow> s = p @ r"
  by (induction p s rule: cut_prefix.induct) auto

lemma has_prefix_iff [go_str]: "has_prefix s p \<longleftrightarrow> (\<exists>r. s = p @ r)"
  by (auto simp: has_prefix_def cut_prefix_Some_iff)

lemma trim_prefix_append [simp, go_str]: "trim_prefix (p @ s) p = s"
  by (simp add: trim_prefix_def)

lemma trim_prefix_other: "\<not> has_prefix s p \<Longrightarrow> trim_prefix s p = s"
  by (auto simp: trim_prefix_def has_prefix_def)

text \<open>\<^verbatim>\<open>strings.Index\<close> and \<^verbatim>\<open>strings.Contains\<close>; \<open>None\<close> is Go's \<open>-1\<close>.\<close>

fun str_index :: "string \<Rightarrow> string \<Rightarrow> nat option" where
  "str_index [] sub = (if sub = [] then Some 0 else None)"
| "str_index (c # s) sub =
     (if has_prefix (c # s) sub then Some 0 else map_option Suc (str_index s sub))"

definition str_contains :: "string \<Rightarrow> string \<Rightarrow> bool" where
  "str_contains s sub = (str_index s sub \<noteq> None)"

text \<open>\<^verbatim>\<open>strings.LastIndex\<close> of a one-character string.\<close>

fun last_index :: "string \<Rightarrow> char \<Rightarrow> nat option" where
  "last_index [] c = None"
| "last_index (x # s) c =
     (case last_index s c of Some i \<Rightarrow> Some (Suc i) | None \<Rightarrow> if x = c then Some 0 else None)"

text \<open>The idiom \<^verbatim>\<open>if idx := strings.Index(s, c); idx != -1 { s = s[:idx] }\<close>.\<close>

definition cut_at :: "char \<Rightarrow> string \<Rightarrow> string" where
  "cut_at c s = (case str_index s [c] of None \<Rightarrow> s | Some i \<Rightarrow> take i s)"

lemma str_index_char_None [go_str]: "str_index s [c] = None \<longleftrightarrow> c \<notin> set s"
  by (induction s) (auto simp: has_prefix_iff)

lemma str_index_char_Some [go_str]:
  "str_index s [c] = Some i \<Longrightarrow> i < length s \<and> s ! i = c \<and> c \<notin> set (take i s)"
proof (induction s arbitrary: i)
  case (Cons x s)
  then show ?case by (auto simp: has_prefix_iff split: if_splits)
qed simp

lemma cut_at_takeWhile [go_str]: "cut_at c s = takeWhile (\<lambda>x. x \<noteq> c) s"
proof (induction s)
  case (Cons x s)
  show ?case
  proof (cases "x = c")
    case True
    then show ?thesis by (simp add: cut_at_def has_prefix_iff)
  next
    case False
    with Cons.IH show ?thesis
      by (auto simp: cut_at_def has_prefix_iff split: option.splits)
  qed
qed (simp add: cut_at_def)

lemma cut_at_absent [simp]: "c \<notin> set s \<Longrightarrow> cut_at c s = s"
  by (auto simp: cut_at_def str_index_char_None[THEN iffD2])

lemma cut_at_append [simp]: "c \<notin> set s \<Longrightarrow> cut_at c (s @ t) = s @ cut_at c t"
  by (induction s) (auto simp: cut_at_takeWhile)

lemma cut_at_Cons [simp]: "cut_at c (c # t) = []"
  "x \<noteq> c \<Longrightarrow> cut_at c (x # t) = x # cut_at c t"
  by (simp_all add: cut_at_takeWhile)

lemma last_index_absent [simp]: "c \<notin> set s \<Longrightarrow> last_index s c = None"
  by (induction s) auto

lemma last_index_append [go_str]: "c \<notin> set t \<Longrightarrow> last_index (s @ c # t) c = Some (length s)"
  by (induction s) auto

lemma last_index_nth: "last_index s c = Some i \<Longrightarrow> i < length s \<and> s ! i = c"
  by (induction s arbitrary: i) (auto split: option.splits if_splits)

lemma str_contains_char [go_str]: "str_contains s [c] \<longleftrightarrow> c \<in> set s"
  by (simp add: str_contains_def str_index_char_None)

text \<open>\<^verbatim>\<open>strings.Split\<close> on a one-character separator; never empty.\<close>

fun split_on :: "char \<Rightarrow> string \<Rightarrow> string list" where
  "split_on c [] = [[]]"
| "split_on c (x # xs) =
     (if x = c then [] # split_on c xs
      else (case split_on c xs of [] \<Rightarrow> [[x]] | y # ys \<Rightarrow> (x # y) # ys))"

text \<open>\<^verbatim>\<open>strings.Join\<close>.\<close>

fun join :: "string \<Rightarrow> string list \<Rightarrow> string" where
  "join sep [] = []"
| "join sep [x] = x"
| "join sep (x # xs) = x @ sep @ join sep xs"

lemma split_on_not_Nil [simp]: "split_on c s \<noteq> []"
  by (cases s) (auto split: list.splits)

lemma split_on_absent [simp]: "c \<notin> set s \<Longrightarrow> split_on c s = [s]"
  by (induction s) auto

lemma split_on_append_sep [go_str]:
  "c \<notin> set x \<Longrightarrow> split_on c (x @ c # s) = x # split_on c s"
  by (induction x) auto

lemma split_on_parts: "p \<in> set (split_on c s) \<Longrightarrow> c \<notin> set p \<and> set p \<subseteq> set s"
proof (induction s arbitrary: p)
  case (Cons x s)
  obtain y ys where "split_on c s = y # ys"
    by (cases "split_on c s") auto
  with Cons show ?case
    by (fastforce split: if_splits)
qed simp

lemma join_Cons: "xs \<noteq> [] \<Longrightarrow> join sep (x # xs) = x @ sep @ join sep xs"
  by (cases xs) auto

lemma split_on_join [go_str]:
  "xs \<noteq> [] \<Longrightarrow> \<forall>x\<in>set xs. c \<notin> set x \<Longrightarrow> split_on c (join [c] xs) = xs"
proof (induction xs)
  case (Cons x xs)
  then show ?case
    by (cases "xs = []") (auto simp: join_Cons split_on_append_sep)
qed simp

lemma join_eq_Nil: "\<forall>x\<in>set xs. x \<noteq> [] \<Longrightarrow> join sep xs = [] \<longleftrightarrow> xs = []"
  by (cases xs rule: remdups_adj.cases) auto

subsection \<open>Case folding and white space\<close>

text \<open>\<^verbatim>\<open>strings.ToLower\<close>, \<^verbatim>\<open>strings.EqualFold\<close> and \<^verbatim>\<open>strings.TrimSpace\<close> on ASCII.\<close>

definition char_lower :: "char \<Rightarrow> char" where
  "char_lower c = (let n = (of_char c :: nat) in if 65 \<le> n \<and> n \<le> 90 then char_of (n + 32) else c)"

definition to_lower :: "string \<Rightarrow> string" where
  "to_lower s = map char_lower s"

definition equal_fold :: "string \<Rightarrow> string \<Rightarrow> bool" where
  "equal_fold a b = (to_lower a = to_lower b)"

definition is_space :: "char \<Rightarrow> bool" where
  "is_space c = (let n = (of_char c :: nat) in n = 32 \<or> (9 \<le> n \<and> n \<le> 13))"

definition trim_space :: "string \<Rightarrow> string" where
  "trim_space s = rev (dropWhile is_space (rev (dropWhile is_space s)))"

text \<open>\<^verbatim>\<open>strings.ToUpper\<close>, \<^verbatim>\<open>strings.TrimRight\<close> and \<^verbatim>\<open>strings.TrimSuffix\<close> of one character.\<close>

definition char_upper :: "char \<Rightarrow> char" where
  "char_upper c = (let n = (of_char c :: nat) in if 97 \<le> n \<and> n \<le> 122 then char_of (n - 32) else c)"

definition to_upper :: "string \<Rightarrow> string" where
  "to_upper s = map char_upper s"

definition trim_right :: "(char \<Rightarrow> bool) \<Rightarrow> string \<Rightarrow> string" where
  "trim_right P s = rev (dropWhile P (rev s))"

definition trim_suffix_char :: "char \<Rightarrow> string \<Rightarrow> string" where
  "trim_suffix_char c s = (if s \<noteq> [] \<and> last s = c then butlast s else s)"

text \<open>\<^verbatim>\<open>strings.Trim\<close> with a set of characters to cut on both sides.\<close>

definition trim_chars :: "char set \<Rightarrow> string \<Rightarrow> string" where
  "trim_chars cs s = rev (dropWhile (\<lambda>c. c \<in> cs) (rev (dropWhile (\<lambda>c. c \<in> cs) s)))"

lemma dropWhile_none: "\<forall>c\<in>set s. \<not> P c \<Longrightarrow> dropWhile P s = s"
  by (cases s) auto

lemma length_dropWhile_less: "takeWhile P xs \<noteq> [] \<Longrightarrow> length (dropWhile P xs) < length xs"
  by (cases xs) (auto simp: le_imp_less_Suc length_dropWhile_le split: if_splits)

lemma trim_space_id: "\<forall>c\<in>set s. \<not> is_space c \<Longrightarrow> trim_space s = s"
  by (simp add: trim_space_def dropWhile_none)

lemma trim_space_ends:
  assumes "s \<noteq> []" "\<not> is_space (hd s)" "\<not> is_space (last s)"
  shows "trim_space s = s"
proof -
  have "dropWhile is_space s = s" using assms(1,2) by (cases s) auto
  moreover have "dropWhile is_space (rev s) = rev s"
    using assms(1,3) by (cases s rule: rev_cases) auto
  ultimately show ?thesis by (simp add: trim_space_def)
qed

lemma equal_fold_refl [simp]: "equal_fold s s"
  by (simp add: equal_fold_def)


subsection \<open>Numbers in strings\<close>

text \<open>
  \<^verbatim>\<open>strconv.ParseInt(s, 10, w)\<close>: an optional sign, at least one decimal digit, nothing
  else, and a value the signed width holds; anything else is an error (\<open>None\<close>).
  \<^verbatim>\<open>strconv.Atoi\<close> is the same at the width of Go's \<open>int\<close>, 64 bits on every platform
  the operator is built for.
\<close>

definition is_digit :: "char \<Rightarrow> bool" where
  "is_digit c = (let n = (of_char c :: nat) in 48 \<le> n \<and> n \<le> 57)"

definition digit_val :: "char \<Rightarrow> nat" where
  "digit_val c = of_char c - 48"

definition digits_val :: "string \<Rightarrow> nat" where
  "digits_val s = foldl (\<lambda>n c. 10 * n + digit_val c) 0 s"

definition parse_digits :: "string \<Rightarrow> nat option" where
  "parse_digits s = (if s \<noteq> [] \<and> list_all is_digit s then Some (digits_val s) else None)"

definition int_in_width :: "nat \<Rightarrow> int \<Rightarrow> bool" where
  "int_in_width w n = (- (2 ^ (w - 1)) \<le> n \<and> n < 2 ^ (w - 1))"

definition parse_int :: "nat \<Rightarrow> string \<Rightarrow> int option" where
  "parse_int w s =
     (let (neg, rest) = (case s of [] \<Rightarrow> (False, [])
                         | c # cs \<Rightarrow> if c = CHR ''-'' then (True, cs)
                                   else if c = CHR ''+'' then (False, cs) else (False, s))
      in case parse_digits rest of None \<Rightarrow> None
         | Some n \<Rightarrow> let v = (if neg then - int n else int n)
                     in if int_in_width w v then Some v else None)"

definition atoi :: "string \<Rightarrow> int option" where
  "atoi = parse_int 64"

text \<open>\<^verbatim>\<open>strconv.FormatInt(n, 10)\<close> and the \<open>%d\<close> verb.\<close>

definition digit_char :: "nat \<Rightarrow> char" where
  "digit_char n = char_of (48 + n)"

fun nat_str :: "nat \<Rightarrow> string" where
  "nat_str n = (if n < 10 then [digit_char n] else nat_str (n div 10) @ [digit_char (n mod 10)])"

declare nat_str.simps [simp del]

definition itoa :: "int \<Rightarrow> string" where
  "itoa n = (if n < 0 then CHR ''-'' # nat_str (nat (- n)) else nat_str (nat n))"

lemma of_digit_char: "n < 10 \<Longrightarrow> (of_char (digit_char n) :: nat) = 48 + n"
  by (simp add: digit_char_def)

lemma is_digit_digit_char [simp]: "n < 10 \<Longrightarrow> is_digit (digit_char n)"
  by (simp add: is_digit_def of_digit_char)

lemma digit_val_digit_char [simp]: "n < 10 \<Longrightarrow> digit_val (digit_char n) = n"
  by (simp add: digit_val_def of_digit_char)

lemma digits_val_snoc: "digits_val (s @ [c]) = 10 * digits_val s + digit_val c"
  by (simp add: digits_val_def)

lemma nat_str_digits: "nat_str n \<noteq> [] \<and> list_all is_digit (nat_str n) \<and> digits_val (nat_str n) = n"
proof (induction n rule: nat_str.induct)
  case (1 n)
  show ?case
  proof (cases "n < 10")
    case True
    then show ?thesis by (simp add: nat_str.simps [of n] digits_val_def)
  next
    case False
    with "1.IH" show ?thesis
      by (simp add: nat_str.simps [of n] digits_val_snoc)
  qed
qed

lemma nat_str_not_Nil [simp]: "nat_str n \<noteq> []"
  by (simp add: nat_str_digits)

lemma set_nat_str: "c \<in> set (nat_str n) \<Longrightarrow> is_digit c"
  using nat_str_digits [of n] by (auto simp: list_all_iff)

lemma not_in_nat_str [simp]: "\<not> is_digit c \<Longrightarrow> c \<notin> set (nat_str n)"
  using set_nat_str by blast

lemma parse_digits_nat_str [simp]: "parse_digits (nat_str n) = Some n"
  by (simp add: parse_digits_def nat_str_digits)

lemma nat_str_inj [simp]: "nat_str m = nat_str n \<longleftrightarrow> m = n"
  by (metis nat_str_digits)

lemma nondigits [simp]: "\<not> is_digit CHR ''-''" "\<not> is_digit CHR ''+''" "\<not> is_digit CHR ''.''"
  "\<not> is_digit CHR '':''" "\<not> is_digit CHR ''@''" "\<not> is_digit CHR ''/''" "\<not> is_digit CHR '',''"
  by (simp_all add: is_digit_def)

lemma nat_str_hd: "nat_str n = c # cs \<Longrightarrow> is_digit c"
  using set_nat_str [of c n] by auto

lemma parse_int_nat_str:
  "int n < 2 ^ (w - 1) \<Longrightarrow> parse_int w (nat_str n) = Some (int n)"
proof -
  assume "int n < 2 ^ (w - 1)"
  moreover obtain c cs where c: "nat_str n = c # cs" by (cases "nat_str n") auto
  moreover have "c \<noteq> CHR ''-''" "c \<noteq> CHR ''+''"
    using nat_str_hd [OF c] by (auto dest: nondigits [THEN notE])
  ultimately show ?thesis
    using parse_digits_nat_str [of n]
    by (auto simp: parse_int_def int_in_width_def order_trans [of _ 0])
qed

lemma parse_int_width: "parse_int w s = Some n \<Longrightarrow> int_in_width w n"
  by (auto simp: parse_int_def Let_def split: prod.splits option.splits if_splits)

lemma atoi_nat_str: "int n < 2 ^ 63 \<Longrightarrow> atoi (nat_str n) = Some (int n)"
  by (simp add: atoi_def parse_int_nat_str)

lemma itoa_nonneg [simp]: "0 \<le> n \<Longrightarrow> itoa n = nat_str (nat n)"
  by (simp add: itoa_def)

lemma atoi_itoa: "0 \<le> n \<Longrightarrow> n < 2 ^ 63 \<Longrightarrow> atoi (itoa n) = Some n"
  by (simp add: atoi_nat_str)

lemma atoi_Nil [simp]: "atoi [] = None"
  by (simp add: atoi_def parse_int_def parse_digits_def)


section \<open>Lists used as Go slices and sets\<close>

text \<open>
  The Go code keeps sets as \<^verbatim>\<open>map[string]bool\<close> and sorts their keys before it uses them in
  order. A set is modelled by the sorted, duplicate-free list of its members.
\<close>

definition sorted_set :: "'a::linorder list \<Rightarrow> 'a list" where
  "sorted_set xs = sort (remdups xs)"

lemma set_sorted_set [simp]: "set (sorted_set xs) = set xs"
  by (simp add: sorted_set_def)

lemma sorted_sorted_set [simp]: "sorted (sorted_set xs)"
  by (simp add: sorted_set_def)

lemma distinct_sorted_set [simp]: "distinct (sorted_set xs)"
  by (simp add: sorted_set_def)

lemma sorted_set_Nil_iff [simp]: "sorted_set xs = [] \<longleftrightarrow> xs = []"
  by (metis set_empty set_sorted_set)

lemma sorted_set_cong: "set xs = set ys \<Longrightarrow> sorted_set xs = sorted_set ys"
  by (simp add: sorted_distinct_set_unique)

lemma list_all_exD: "\<not> list_all P xs \<Longrightarrow> \<exists>x\<in>set xs. \<not> P x"
  by (simp add: list_all_iff)

end
