(* ===== verification/Version.thy ===== *)
theory Version
  imports Prelude
begin

text \<open>
  \<^verbatim>\<open>src/internal/neo4j/version.go\<close>: reading a Neo4j version from a tag or an image
  reference, ordering versions, the per-version feature gates, and the backup and restore
  commands with their shell quoting.
\<close>

section \<open>The model\<close>

subsection \<open>Versions\<close>

record version =
  Major :: int
  Minor :: int
  Patch :: int
  IsCalver :: bool
  Raw :: string

datatype version_error =
    EmptyVersionString
  | InvalidVersionFormat string
  | InvalidMajorVersion string
  | InvalidMinorVersion string
  | InvalidImageFormat string

text \<open>What is cut off a version string before it is split at the dots.\<close>

definition clean_version :: "string \<Rightarrow> string" where
  "clean_version s =
     cut_at CHR ''-'' (cut_at CHR ''@''
       (trim_prefix (trim_prefix (trim_prefix s ''v'') ''neo4j-'') ''neo4j:''))"

definition ParseVersion :: "string \<Rightarrow> version_error + version" where
  "ParseVersion versionString =
     (if versionString = [] then Inl EmptyVersionString
      else let parts = split_on CHR ''.'' (clean_version versionString) in
        if length parts < 2 then Inl (InvalidVersionFormat versionString)
        else case atoi (parts ! 0) of None \<Rightarrow> Inl (InvalidMajorVersion (parts ! 0))
        | Some major \<Rightarrow>
          (case atoi (parts ! 1) of None \<Rightarrow> Inl (InvalidMinorVersion (parts ! 1))
           | Some minor \<Rightarrow>
             Inr \<lparr>Major = major, Minor = minor,
                  Patch = (if 3 \<le> length parts
                           then (case atoi (parts ! 2) of None \<Rightarrow> 0 | Some p \<Rightarrow> p) else 0),
                  IsCalver = (2025 \<le> major), Raw = versionString\<rparr>))"

definition IsSupported :: "version \<Rightarrow> bool" where
  "IsSupported v = (if IsCalver v then True else Major v = 5 \<and> Minor v = 26)"

definition Compare :: "version \<Rightarrow> version \<Rightarrow> int" where
  "Compare v other =
     (if Major v < Major other then -1
      else if Major v > Major other then 1
      else if Minor v < Minor other then -1
      else if Minor v > Minor other then 1
      else if Patch v < Patch other then -1
      else if Patch v > Patch other then 1
      else 0)"

definition String :: "version \<Rightarrow> string" where
  "String v = (if Patch v > 0 then itoa (Major v) @ ''.'' @ itoa (Minor v) @ ''.'' @ itoa (Patch v)
               else itoa (Major v) @ ''.'' @ itoa (Minor v))"

text \<open>
  \<^verbatim>\<open>GetImageVersion\<close>. The digest is cut first; the tag is what follows the last colon,
  which must not be the first character and must not belong to a registry port.
\<close>

definition GetImageVersion :: "string \<Rightarrow> version_error + version" where
  "GetImageVersion img =
     (let name = cut_at CHR ''@'' img in
      case last_index name CHR '':'' of
        None \<Rightarrow> Inl (InvalidImageFormat img)
      | Some i \<Rightarrow> if i = 0 \<or> str_contains (drop (i + 1) name) ''/''
                  then Inl (InvalidImageFormat img) else ParseVersion (drop (i + 1) name))"

subsection \<open>Feature gates\<close>

definition SupportsMetadataOption :: "version \<Rightarrow> bool" where
  "SupportsMetadataOption v = IsSupported v"

definition SupportsCypherLanguageVersion :: "version \<Rightarrow> bool" where
  "SupportsCypherLanguageVersion v = IsCalver v"

definition SupportsRemoteAddressResolution :: "version \<Rightarrow> bool" where
  "SupportsRemoteAddressResolution v =
     (if \<not> IsCalver v then False else if Major v > 2025 then True
      else Major v = 2025 \<and> Minor v \<ge> 9)"

definition SupportsPreferDiffAsParent :: "version \<Rightarrow> bool" where
  "SupportsPreferDiffAsParent v =
     (if \<not> IsCalver v then False else if Major v > 2025 then True
      else Major v = 2025 \<and> Minor v \<ge> 4)"

definition SupportsParallelDownload :: "version \<Rightarrow> bool" where
  "SupportsParallelDownload v =
     (if \<not> IsCalver v then False else if Major v > 2025 then True
      else Major v = 2025 \<and> Minor v \<ge> 11)"

definition SupportsSplitArchive :: "version \<Rightarrow> bool" where
  "SupportsSplitArchive v =
     (if \<not> IsCalver v then False else if Major v > 2026 then True
      else Major v = 2026 \<and> Minor v \<ge> 9)"

definition SupportsTLSReload :: "version \<Rightarrow> bool" where
  "SupportsTLSReload v =
     (if \<not> IsCalver v then False else if Major v > 2025 then True
      else Major v = 2025 \<and> Minor v \<ge> 3)"

definition SupportsSkipRecovery :: "version \<Rightarrow> bool" where
  "SupportsSkipRecovery v = SupportsParallelDownload v"

definition SupportsAdvancedBackupFlags :: "version \<Rightarrow> bool" where
  "SupportsAdvancedBackupFlags v = SupportsParallelDownload v"

definition SupportsSourceDatabaseFilter :: "version \<Rightarrow> bool" where
  "SupportsSourceDatabaseFilter v = (if IsCalver v then Minor v \<ge> 2 else False)"

definition RecreateDatabaseProcedure :: "version \<Rightarrow> string" where
  "RecreateDatabaseProcedure v =
     (if IsCalver v then
        (if Major v > 2025 then ''dbms.recreateDatabase''
         else if Major v = 2025 \<and> Minor v \<ge> 4 then ''dbms.recreateDatabase''
         else if Major v = 2025 \<and> Minor v \<ge> 2 then ''dbms.cluster.recreateDatabase''
         else [])
      else if Major v = 5 \<and> Minor v \<ge> 24 then ''dbms.cluster.recreateDatabase''
      else [])"

definition SupportsAuthRules :: "version \<Rightarrow> bool" where
  "SupportsAuthRules v =
     (if \<not> IsCalver v then False else if Major v > 2026 then True
      else Major v = 2026 \<and> Minor v \<ge> 3)"

definition SupportsCCDRReplica :: "version \<Rightarrow> bool" where
  "SupportsCCDRReplica v =
     (if \<not> IsCalver v then False else if Major v > 2026 then True
      else Major v = 2026 \<and> Minor v \<ge> 8)"

definition MeetsCCDRUpstreamFloor :: "version \<Rightarrow> bool" where
  "MeetsCCDRUpstreamFloor v = IsCalver v"

definition MinCCDRReplicaVersion :: string where
  "MinCCDRReplicaVersion = ''2026.08''"

definition MinCCDRUpstreamVersion :: string where
  "MinCCDRUpstreamVersion = ''2025.01''"

subsection \<open>Commands\<close>

text \<open>\<^verbatim>\<open>shellQuoteArg\<close>: every single quote of the argument becomes \<^verbatim>\<open>'\''\<close>.\<close>

definition quote :: char where "quote = CHR 39"

definition backslash :: char where "backslash = CHR 92"

definition shellQuoteArg :: "string \<Rightarrow> string" where
  "shellQuoteArg s =
     [quote] @ concat (map (\<lambda>c. if c = quote then [quote, backslash, quote, quote] else [c]) s) @ [quote]"

definition dquote :: char where "dquote = CHR 34"

fun quoted_names :: "string list \<Rightarrow> string" where
  "quoted_names [] = []"
| "quoted_names (n # ns) =
     (if n \<noteq> [] then '' '' @ [dquote] @ n @ [dquote] else []) @ quoted_names ns"

definition GetBackupCommandForDatabases ::
    "string list \<Rightarrow> string \<Rightarrow> bool \<Rightarrow> string \<Rightarrow> string" where
  "GetBackupCommandForDatabases databaseNames backupPath allDatabases fromAddresses =
     ''neo4j-admin database backup'' @
     (if fromAddresses \<noteq> [] then '' --from='' @ fromAddresses else []) @
     '' --to-path='' @ shellQuoteArg backupPath @
     (if allDatabases then '' '' @ [dquote] @ ''*'' @ [dquote] else quoted_names databaseNames)"

definition GetBackupCommand :: "string \<Rightarrow> string \<Rightarrow> bool \<Rightarrow> string \<Rightarrow> string" where
  "GetBackupCommand databaseName backupPath allDatabases fromAddresses =
     GetBackupCommandForDatabases (if databaseName \<noteq> [] then [databaseName] else [])
       backupPath allDatabases fromAddresses"

definition GetRestoreCommand :: "string \<Rightarrow> string \<Rightarrow> string" where
  "GetRestoreCommand databaseName backupPath =
     ''neo4j-admin database restore'' @ '' --from-path='' @ backupPath @ '' '' @
     shellQuoteArg databaseName"


section \<open>What a version string says\<close>

text \<open>A string that starts with a digit carries none of the prefixes that are cut off.\<close>

lemma clean_version_digit:
  "is_digit c \<Longrightarrow> clean_version (c # s) = cut_at CHR ''-'' (cut_at CHR ''@'' (c # s))"
  by (auto simp: clean_version_def trim_prefix_def is_digit_def)

lemma String_starts_with_digit:
  "0 \<le> Major v \<Longrightarrow> \<exists>c s. String v = c # s \<and> is_digit c"
  using nat_str_hd [of "nat (Major v)"]
  by (cases "nat_str (nat (Major v))") (auto simp: String_def)

lemma String_chars:
  "0 \<le> Major v \<Longrightarrow> 0 \<le> Minor v \<Longrightarrow> c \<in> set (String v) \<Longrightarrow> is_digit c \<or> c = CHR ''.''"
  by (auto simp: String_def split: if_splits dest: set_nat_str)

lemma String_free [simp]:
  assumes "0 \<le> Major v" "0 \<le> Minor v"
  shows "CHR ''-'' \<notin> set (String v)" "CHR ''@'' \<notin> set (String v)"
    "CHR '':'' \<notin> set (String v)" "CHR ''/'' \<notin> set (String v)"
  using String_chars [OF assms] by (force simp: is_digit_def)+

lemma clean_version_String:
  assumes "0 \<le> Major v" "0 \<le> Minor v"
    and "suffix = [] \<or> hd suffix = CHR ''-'' \<or> hd suffix = CHR ''@''"
  shows "clean_version (String v @ suffix) = String v"
proof -
  obtain c s where "String v = c # s" "is_digit c"
    using String_starts_with_digit assms(1) by blast
  then have "clean_version (String v @ suffix)
      = cut_at CHR ''-'' (cut_at CHR ''@'' (String v @ suffix))"
    by (simp add: clean_version_digit)
  then show ?thesis using assms by (cases suffix) auto
qed

lemma split_String:
  assumes "0 \<le> Major v" "0 \<le> Minor v"
  shows "split_on CHR ''.'' (String v) =
    nat_str (nat (Major v)) # nat_str (nat (Minor v)) #
    (if Patch v > 0 then [nat_str (nat (Patch v))] else [])"
  using assms by (simp add: String_def split_on_append_sep)

text \<open>The version a tag names, whatever edition suffix or digest follows it.\<close>

lemma ParseVersion_String:
  assumes "0 \<le> Major v" "Major v < 2 ^ 63" "0 \<le> Minor v" "Minor v < 2 ^ 63" "Patch v < 2 ^ 63"
    and "suffix = [] \<or> hd suffix = CHR ''-'' \<or> hd suffix = CHR ''@''"
  shows "ParseVersion (String v @ suffix) =
    Inr \<lparr>Major = Major v, Minor = Minor v, Patch = max 0 (Patch v),
         IsCalver = (2025 \<le> Major v), Raw = String v @ suffix\<rparr>"
proof -
  have "String v \<noteq> []"
    using String_starts_with_digit [OF assms(1)] by auto
  then show ?thesis
    using assms
    by (simp add: ParseVersion_def clean_version_String split_String atoi_nat_str
        nth_Cons max_def Let_def numeral_2_eq_2 split: nat.splits)
qed

text \<open>
  Reading back an image reference. The reference the operator builds from a repository
  and a tag - a version, an edition suffix, a digest it was pinned to - gives that version,
  also when the repository carries a registry port.
\<close>

theorem GetImageVersion_roundtrip:
  assumes "0 \<le> Major v" "Major v < 2 ^ 63" "0 \<le> Minor v" "Minor v < 2 ^ 63" "Patch v < 2 ^ 63"
    and "repo \<noteq> []" and "CHR ''@'' \<notin> set repo"
    and "suffix = [] \<or> hd suffix = CHR ''-''" and "set suffix \<inter> set '':/@'' = {}"
    and "digest = [] \<or> hd digest = CHR ''@''"
  shows "GetImageVersion (repo @ '':'' @ String v @ suffix @ digest) =
    Inr \<lparr>Major = Major v, Minor = Minor v, Patch = max 0 (Patch v),
         IsCalver = (2025 \<le> Major v), Raw = String v @ suffix\<rparr>"
proof -
  let ?tag = "String v @ suffix"
  have cut: "cut_at CHR ''@'' (repo @ '':'' @ String v @ suffix @ digest) = repo @ CHR '':'' # ?tag"
    using assms by (cases digest) auto
  have last: "last_index (repo @ CHR '':'' # ?tag) CHR '':'' = Some (length repo)"
    using assms by (intro last_index_append) auto
  have "\<not> str_contains ?tag ''/''"
    using assms by (auto simp: str_contains_char)
  then have "GetImageVersion (repo @ '':'' @ String v @ suffix @ digest) = ParseVersion ?tag"
    using cut last assms(6) by (simp add: GetImageVersion_def Let_def)
  moreover have "ParseVersion ?tag = Inr \<lparr>Major = Major v, Minor = Minor v,
      Patch = max 0 (Patch v), IsCalver = (2025 \<le> Major v), Raw = ?tag\<rparr>"
    using assms by (intro ParseVersion_String) auto
  ultimately show ?thesis by simp
qed

theorem GetImageVersion_roundtrip_witness:
  "GetImageVersion ''registry:5000/neo4j:5.26.3-enterprise@sha256:ab'' =
    Inr \<lparr>Major = 5, Minor = 26, Patch = 3, IsCalver = False, Raw = ''5.26.3-enterprise''\<rparr>"
proof -
  let ?v = "\<lparr>Major = 5, Minor = 26, Patch = 3, IsCalver = False, Raw = []\<rparr>"
  have "String ?v = ''5.26.3''"
    by code_simp
  then show ?thesis
    using GetImageVersion_roundtrip [of ?v "''registry:5000/neo4j''" "''-enterprise''" "''@sha256:ab''"]
    by simp
qed


section \<open>The order of versions and the feature gates\<close>

text \<open>\<open>Compare\<close> is the three-way comparison of the lexicographic order on the numbers.\<close>

definition version_less :: "version \<Rightarrow> version \<Rightarrow> bool" where
  "version_less v w \<longleftrightarrow> Major v < Major w \<or> Major v = Major w \<and>
     (Minor v < Minor w \<or> Minor v = Minor w \<and> Patch v < Patch w)"

lemma Compare_sign:
  "Compare v w = -1 \<longleftrightarrow> version_less v w"
  "Compare v w = 1 \<longleftrightarrow> version_less w v"
  "Compare v w = 0 \<longleftrightarrow> Major v = Major w \<and> Minor v = Minor w \<and> Patch v = Patch w"
  by (auto simp: Compare_def version_less_def)

lemma Compare_range: "Compare v w \<in> {-1, 0, 1}"
  by (simp add: Compare_def)

lemma Compare_antisym: "Compare w v = - Compare v w"
  by (auto simp: Compare_def)

lemma Compare_le_trans: "Compare u v \<le> 0 \<Longrightarrow> Compare v w \<le> 0 \<Longrightarrow> Compare u w \<le> 0"
  by (auto simp: Compare_def split: if_splits)

lemma Compare_le_iff:
  "Compare v w \<le> 0 \<longleftrightarrow> Major v < Major w \<or> Major v = Major w \<and>
     (Minor v < Minor w \<or> Minor v = Minor w \<and> Patch v \<le> Patch w)"
  by (auto simp: Compare_def)

text \<open>A version as \<open>ParseVersion\<close> makes it: CalVer is decided by the major number.\<close>

definition wf_version :: "version \<Rightarrow> bool" where
  "wf_version v = (IsCalver v = (2025 \<le> Major v))"

lemma ParseVersion_wf: "ParseVersion s = Inr v \<Longrightarrow> wf_version v"
  by (auto simp: ParseVersion_def wf_version_def Let_def split: if_splits option.splits)

text \<open>
  The contract of a gate with a floor: a release supports the feature when it is at or
  above a year and month. What a client of the gate relies on - an upgrade never loses a
  feature - is proved once, from the contract.
\<close>

locale version_floor =
  fixes supports :: "version \<Rightarrow> bool"
    and year :: int and month :: int
  assumes calver_year: "2025 \<le> year"
    and supports_iff: "wf_version v \<Longrightarrow>
      supports v \<longleftrightarrow> year < Major v \<or> Major v = year \<and> month \<le> Minor v"
begin

lemma supports_mono:
  "wf_version v \<Longrightarrow> wf_version w \<Longrightarrow> supports v \<Longrightarrow> Compare v w \<le> 0 \<Longrightarrow> supports w"
  by (auto simp: supports_iff Compare_le_iff)

lemma semver_unsupported: "wf_version v \<Longrightarrow> \<not> IsCalver v \<Longrightarrow> \<not> supports v"
  using calver_year by (auto simp: supports_iff wf_version_def)

lemma gate_along_upgrade:
  "wf_version v \<Longrightarrow> wf_version w \<Longrightarrow> Compare v w \<le> 0 \<Longrightarrow>
    (supports v \<longrightarrow> supports w) \<and> (\<not> IsCalver v \<longrightarrow> \<not> supports v)"
  using supports_mono semver_unsupported by blast

end

interpretation remote_address: version_floor SupportsRemoteAddressResolution 2025 9
  by unfold_locales (auto simp: SupportsRemoteAddressResolution_def wf_version_def)

interpretation prefer_diff: version_floor SupportsPreferDiffAsParent 2025 4
  by unfold_locales (auto simp: SupportsPreferDiffAsParent_def wf_version_def)

interpretation parallel_download: version_floor SupportsParallelDownload 2025 11
  by unfold_locales (auto simp: SupportsParallelDownload_def wf_version_def)

interpretation split_archive: version_floor SupportsSplitArchive 2026 9
  by unfold_locales (auto simp: SupportsSplitArchive_def wf_version_def)

interpretation tls_reload: version_floor SupportsTLSReload 2025 3
  by unfold_locales (auto simp: SupportsTLSReload_def wf_version_def)

interpretation auth_rules: version_floor SupportsAuthRules 2026 3
  by unfold_locales (auto simp: SupportsAuthRules_def wf_version_def)

interpretation ccdr_replica: version_floor SupportsCCDRReplica 2026 8
  by unfold_locales (auto simp: SupportsCCDRReplica_def wf_version_def)

definition floor_gates :: "(version \<Rightarrow> bool) list" where
  "floor_gates =
     [SupportsRemoteAddressResolution, SupportsPreferDiffAsParent, SupportsParallelDownload,
      SupportsSkipRecovery, SupportsAdvancedBackupFlags, SupportsSplitArchive,
      SupportsTLSReload, SupportsAuthRules, SupportsCCDRReplica]"

text \<open>
  An upgrade never loses a feature. For versions read from strings, every gate that
  holds for a version holds for every later one, and none of them holds for a SemVer
  release.
\<close>

theorem floor_gates_monotone:
  assumes "ParseVersion s = Inr v" and "ParseVersion t = Inr w" and "Compare v w \<le> 0"
  shows "\<forall>g\<in>set floor_gates. (g v \<longrightarrow> g w) \<and> (\<not> IsCalver v \<longrightarrow> \<not> g v)"
proof -
  have wf: "wf_version v" "wf_version w"
    using assms ParseVersion_wf by blast+
  note along = remote_address.gate_along_upgrade prefer_diff.gate_along_upgrade
    parallel_download.gate_along_upgrade split_archive.gate_along_upgrade
    tls_reload.gate_along_upgrade auth_rules.gate_along_upgrade ccdr_replica.gate_along_upgrade
  show ?thesis
    by (simp add: floor_gates_def SupportsSkipRecovery_def SupportsAdvancedBackupFlags_def
        along [OF wf assms(3)])
qed

theorem floor_gates_monotone_witness:
  "\<exists>v w. ParseVersion ''2025.11'' = Inr v \<and> ParseVersion ''2026.08.1'' = Inr w \<and>
     Compare v w \<le> 0 \<and> SupportsParallelDownload v \<and> SupportsParallelDownload w"
proof -
  let ?v = "\<lparr>Major = 2025, Minor = 11, Patch = 0, IsCalver = True, Raw = ''2025.11''\<rparr>"
  let ?w = "\<lparr>Major = 2026, Minor = 8, Patch = 1, IsCalver = True, Raw = ''2026.08.1''\<rparr>"
  have p: "ParseVersion ''2025.11'' = Inr ?v" "ParseVersion ''2026.08.1'' = Inr ?w"
    by code_simp+
  moreover have c: "Compare ?v ?w \<le> 0" and g: "SupportsParallelDownload ?v"
    by (simp_all add: Compare_def SupportsParallelDownload_def)
  moreover have "SupportsParallelDownload ?w"
    using floor_gates_monotone [OF p c] g by (simp add: floor_gates_def)
  ultimately show ?thesis by blast
qed

text \<open>
  The gate for \<^verbatim>\<open>--source-database\<close> is not such a floor: it reads the month without
  the year, so the option documented as available from 2025.02 on is denied to the
  January release of every later year.
\<close>

theorem SupportsSourceDatabaseFilter_lost_in_January:
  "\<exists>v w. ParseVersion ''2025.02.0-enterprise'' = Inr v \<and>
     ParseVersion ''2026.01.0-enterprise'' = Inr w \<and> Compare v w = -1 \<and>
     SupportsSourceDatabaseFilter v \<and> \<not> SupportsSourceDatabaseFilter w"
proof (intro exI conjI)
  show "ParseVersion ''2025.02.0-enterprise'' = Inr \<lparr>Major = 2025, Minor = 2, Patch = 0,
      IsCalver = True, Raw = ''2025.02.0-enterprise''\<rparr>"
    and "ParseVersion ''2026.01.0-enterprise'' = Inr \<lparr>Major = 2026, Minor = 1, Patch = 0,
      IsCalver = True, Raw = ''2026.01.0-enterprise''\<rparr>"
    by code_simp+
qed (simp_all add: Compare_def SupportsSourceDatabaseFilter_def)


section \<open>What the shell reads from a command\<close>

text \<open>
  How \<^verbatim>\<open>/bin/sh -c\<close> reads one word (POSIX, "Quoting" and "Token Recognition"): a
  backslash outside quotes stands for the next character, everything between single quotes
  stands for itself, and an unquoted blank or the end of the command ends the word. Every
  other character the shell gives a meaning to outside quotes makes the result \<open>None\<close>:
  the text would not be a plain word.
\<close>

definition sh_special :: "char \<Rightarrow> bool" where
  "sh_special c = (c \<in> set ''|&;<>()$`*?[#~=%!{}'' \<or> c = dquote \<or> (of_char c :: nat) < 32)"

fun sh_word :: "bool \<Rightarrow> string \<Rightarrow> string \<Rightarrow> (string \<times> string) option" where
  "sh_word inq acc [] = (if inq then None else Some (acc, []))"
| "sh_word True acc (c # s) =
     (if c = quote then sh_word False acc s else sh_word True (acc @ [c]) s)"
| "sh_word False acc [c] =
     (if c = quote \<or> c = backslash \<or> sh_special c then None
      else if c = CHR '' '' then Some (acc, [c]) else Some (acc @ [c], []))"
| "sh_word False acc (c # d # s) =
     (if c = quote then sh_word True acc (d # s)
      else if c = backslash then sh_word False (acc @ [d]) s
      else if sh_special c then None
      else if c = CHR '' '' then Some (acc, c # d # s)
      else sh_word False (acc @ [c]) (d # s))"

definition quoted_body :: "string \<Rightarrow> string" where
  "quoted_body s =
     concat (map (\<lambda>c. if c = quote then [quote, backslash, quote, quote] else [c]) s)"

lemma sh_word_quoted_body: "sh_word True acc (quoted_body s @ quote # r) = sh_word False (acc @ s) r"
proof (induction s arbitrary: acc)
  case Nil
  then show ?case by (simp add: quoted_body_def)
next
  case (Cons c s)
  obtain d t where "quoted_body s @ quote # r = d # t"
    by (cases "quoted_body s @ quote # r") auto
  then show ?case
    using Cons.IH [of "acc @ [c]"]
    by (auto simp: quoted_body_def quote_def backslash_def)
qed

lemma sh_word_end: "r = [] \<or> hd r = CHR '' '' \<Longrightarrow> sh_word False acc r = Some (acc, r)"
  by (cases "(False, acc, r)" rule: sh_word.cases)
    (auto simp: quote_def backslash_def dquote_def sh_special_def)

lemma sh_word_shellQuoteArg:
  assumes "r = [] \<or> hd r = CHR '' ''"
  shows "sh_word False acc (shellQuoteArg s @ r) = Some (acc @ s, r)"
proof -
  obtain d t where dt: "quoted_body s @ quote # r = d # t"
    by (cases "quoted_body s @ quote # r") auto
  have "sh_word False acc (shellQuoteArg s @ r) = sh_word True acc (quoted_body s @ quote # r)"
    by (simp add: shellQuoteArg_def flip: quoted_body_def) (simp add: dt)
  then show ?thesis
    by (simp add: sh_word_quoted_body sh_word_end assms)
qed

text \<open>
  C39: no field a user controls escapes into the shell. Whatever characters the backup path
  holds, the word that follows \<^verbatim>\<open>--to-path=\<close> in the backup command is that path, and the
  last word of the restore command is the database name.
\<close>

theorem commands_quote_user_fields:
  "(\<exists>pre post. GetBackupCommandForDatabases names path allDbs from =
        pre @ '' --to-path='' @ shellQuoteArg path @ post \<and>
      sh_word False [] (shellQuoteArg path @ post) = Some (path, post)) \<and>
   (\<exists>pre. GetRestoreCommand db src = pre @ '' '' @ shellQuoteArg db \<and>
      sh_word False [] (shellQuoteArg db) = Some (db, []))"
proof (intro conjI exI)
  let ?post = "if allDbs then '' '' @ [dquote] @ ''*'' @ [dquote] else quoted_names names"
  have "?post = [] \<or> hd ?post = CHR '' ''"
    by (induction names) auto
  then show "sh_word False [] (shellQuoteArg path @ ?post) = Some (path, ?post)"
    by (simp only: sh_word_shellQuoteArg append_Nil)
  show "GetBackupCommandForDatabases names path allDbs from =
      (''neo4j-admin database backup'' @ (if from \<noteq> [] then '' --from='' @ from else []))
      @ '' --to-path='' @ shellQuoteArg path @ ?post"
    by (simp add: GetBackupCommandForDatabases_def)
  show "GetRestoreCommand db src =
      (''neo4j-admin database restore'' @ '' --from-path='' @ src) @ '' '' @ shellQuoteArg db"
    by (simp add: GetRestoreCommand_def)
  show "sh_word False [] (shellQuoteArg db) = Some (db, [])"
    using sh_word_shellQuoteArg [of "[]" "[]" db] by simp
qed

section \<open>The recreate procedure\<close>

text \<open>
  A release has a recreate procedure exactly from 5.24 on, CalVer 2025.01 excepted: the
  one release the operator supports (\<open>IsSupported\<close>) for which the name is empty.
\<close>

theorem RecreateDatabaseProcedure_missing_iff:
  assumes "ParseVersion s = Inr v" and "IsSupported v"
  shows "RecreateDatabaseProcedure v = [] \<longleftrightarrow> Major v = 2025 \<and> Minor v < 2"
  using ParseVersion_wf [OF assms(1)] assms(2)
  by (auto simp: RecreateDatabaseProcedure_def IsSupported_def wf_version_def)

theorem RecreateDatabaseProcedure_missing_witness:
  "\<exists>v. ParseVersion ''2025.01.0-enterprise'' = Inr v \<and> IsSupported v \<and>
     RecreateDatabaseProcedure v = []"
proof -
  let ?v = "\<lparr>Major = 2025, Minor = 1, Patch = 0, IsCalver = True, Raw = ''2025.01.0-enterprise''\<rparr>"
  have p: "ParseVersion ''2025.01.0-enterprise'' = Inr ?v" by code_simp
  have s: "IsSupported ?v" by (simp add: IsSupported_def)
  show ?thesis using RecreateDatabaseProcedure_missing_iff [OF p s] p s by auto
qed

end
