(* ===== verification/Cluster_State.thy ===== *)
theory Cluster_State
  imports Prelude
begin

text \<open>
  The objects the cluster controller reads and writes, as far as the modelled code looks at
  them: the Neo4jEnterpriseCluster (\<^verbatim>\<open>src/api/v1beta1/neo4jenterprisecluster_types.go\<close>) with
  its upgrade record and conditions, the server StatefulSet and its pods (Kubernetes API
  types), and the rows Neo4j returns (\<^verbatim>\<open>src/internal/neo4j/client.go\<close>); the condition helpers
  of \<^verbatim>\<open>src/internal/controller/conditions.go\<close>.

  A pointer field is an \<open>option\<close>. An \<open>int32\<close> count is an \<^typ>\<open>int\<close>: the API server
  validates replica counts and partitions to be non-negative, so the sums and differences
  the code forms stay inside the 32-bit range. A point in time and a duration are numbers of
  nanoseconds.
\<close>

section \<open>Conditions\<close>

datatype condition_status = CondTrue | CondFalse | CondUnknown

record condition =
  cType :: string
  cStatus :: condition_status
  cObservedGeneration :: int
  cLastTransitionTime :: int
  cReason :: string
  cMessage :: string

definition findCondition :: "condition list \<Rightarrow> string \<Rightarrow> condition option" where
  "findCondition conditions condType = find (\<lambda>c. cType c = condType) conditions"

fun upsertCondition :: "condition list \<Rightarrow> condition \<Rightarrow> condition list" where
  "upsertCondition [] cond = [cond]"
| "upsertCondition (c # cs) cond =
     (if cType c = cType cond then cond # cs else c # upsertCondition cs cond)"

text \<open>
  \<^verbatim>\<open>SetNamedCondition\<close>, with the time of the write: the new list, and whether the condition
  changed. Where status and reason are as they were, the entry is rewritten in place with the
  new generation and message and keeps its transition time. The API server keeps the time of a
  condition in whole seconds; the model rounds it down where the condition is set, since no pass
  reads the time of a condition between setting and storing it.
\<close>

definition stored_time :: "int \<Rightarrow> int" where
  "stored_time now = now - now mod 10 ^ 9"

definition SetNamedCondition ::
    "condition list \<Rightarrow> string \<Rightarrow> int \<Rightarrow> condition_status \<Rightarrow> string \<Rightarrow> string \<Rightarrow> int \<Rightarrow>
     condition list \<times> bool" where
  "SetNamedCondition conditions condType generation status reason message now =
     (let new = \<lparr>cType = condType, cStatus = status, cObservedGeneration = generation,
                 cLastTransitionTime = stored_time now, cReason = reason, cMessage = message\<rparr>
      in case findCondition conditions condType of
           None \<Rightarrow> (upsertCondition conditions new, True)
         | Some old \<Rightarrow>
             if cStatus old = status \<and> cReason old = reason
             then (upsertCondition conditions
                     (old\<lparr>cObservedGeneration := generation, cMessage := message\<rparr>), False)
             else (upsertCondition conditions new, True))"

definition ConditionTypeReady :: string where "ConditionTypeReady = ''Ready''"
definition ConditionTypeDegraded :: string where "ConditionTypeDegraded = ''Degraded''"
definition ConditionTypeClusterFormed :: string where
  "ConditionTypeClusterFormed = ''ClusterFormed''"
definition ConditionTypeServersPendingDrain :: string where
  "ConditionTypeServersPendingDrain = ''ServersPendingDrain''"
definition ConditionTypeTopologyChangeDeferred :: string where
  "ConditionTypeTopologyChangeDeferred = ''TopologyChangeDeferred''"
definition ConditionTypeStalled :: string where "ConditionTypeStalled = ''Stalled''"
definition ConditionReasonUpgradeFailed :: string where
  "ConditionReasonUpgradeFailed = ''UpgradeFailed''"
definition ConditionReasonUpgradePaused :: string where
  "ConditionReasonUpgradePaused = ''UpgradePaused''"
definition ConditionReasonUpgradeNotStopped :: string where
  "ConditionReasonUpgradeNotStopped = ''UpgradeNotStopped''"
definition ConditionReasonServersUnavailable :: string where
  "ConditionReasonServersUnavailable = ''ServersUnavailable''"
definition ConditionReasonServersPendingDrain :: string where
  "ConditionReasonServersPendingDrain = ''ServersPendingDrain''"
definition ConditionReasonNoServersPendingDrain :: string where
  "ConditionReasonNoServersPendingDrain = ''NoServersPendingDrain''"
definition ConditionReasonScaleDownBlocked :: string where
  "ConditionReasonScaleDownBlocked = ''ScaleDownBlocked''"
definition ConditionReasonWaitsForUpgrade :: string where
  "ConditionReasonWaitsForUpgrade = ''WaitsForUpgrade''"
definition ConditionReasonNoTopologyChangeWaits :: string where
  "ConditionReasonNoTopologyChangeWaits = ''NoTopologyChangeWaits''"
definition ConditionReasonWaitsForRemovedServers :: string where
  "ConditionReasonWaitsForRemovedServers = ''WaitsForRemovedServers''"

definition ConditionReasonAllServersAvailable :: string where
  "ConditionReasonAllServersAvailable = ''AllServersAvailable''"

text \<open>\<^verbatim>\<open>SetReadyCondition\<close> is \<^verbatim>\<open>SetNamedCondition\<close> at the type Ready.\<close>

definition SetReadyCondition ::
    "condition list \<Rightarrow> int \<Rightarrow> condition_status \<Rightarrow> string \<Rightarrow> string \<Rightarrow> int \<Rightarrow> condition list \<times> bool" where
  "SetReadyCondition conditions generation status reason message now =
     SetNamedCondition conditions ConditionTypeReady generation status reason message now"

text \<open>The status and reason of the Ready condition in each phase.\<close>

definition PhaseToConditionStatus :: "string \<Rightarrow> condition_status \<times> string" where
  "PhaseToConditionStatus phase =
     (if phase \<in> set [''Ready'', ''Installed''] then (CondTrue, ''ClusterReady'')
      else if phase = ''Completed'' then (CondTrue, ''BackupSucceeded'')
      else if phase = ''Scheduled'' then (CondTrue, ''BackupScheduled'')
      else if phase = ''Suspended'' then (CondFalse, ''Suspended'')
      else if phase = ''Disabled'' then (CondFalse, ''Disabled'')
      else if phase = ''Degraded'' then (CondFalse, ''ClusterDegraded'')
      else if phase \<in> set [''Failed'', ''Invalid'', ''ValidationFailed'', ''Error'']
           then (CondFalse, ''ReconciliationFailed'')
      else if phase = ''Upgrading'' then (CondUnknown, ''UpgradeInProgress'')
      else if phase = ''Expanding'' then (CondUnknown, ''StorageExpanding'')
      else if phase \<in> set [''Forming'', ''Creating''] then (CondUnknown, ''ClusterForming'')
      else (CondUnknown, ''Pending''))"

subsection \<open>Laws of the condition list\<close>

text \<open>The API keys conditions by type: a well-formed list has each type once.\<close>

definition wf_conditions :: "condition list \<Rightarrow> bool" where
  "wf_conditions cs = distinct (map cType cs)"

lemma findCondition_Nil [simp]: "findCondition [] t = None"
  by (simp add: findCondition_def)

lemma findCondition_Cons [simp]:
  "findCondition (c # cs) t = (if cType c = t then Some c else findCondition cs t)"
  by (simp add: findCondition_def)

lemma findCondition_type: "findCondition cs t = Some c \<Longrightarrow> cType c = t \<and> c \<in> set cs"
  by (induction cs) (auto split: if_splits)

lemma findCondition_upsert [simp]:
  "findCondition (upsertCondition cs c) t = (if t = cType c then Some c else findCondition cs t)"
  by (induction cs) auto

lemma types_upsert: "set (map cType (upsertCondition cs c)) = insert (cType c) (set (map cType cs))"
  by (induction cs) auto

lemma wf_upsert: "wf_conditions cs \<Longrightarrow> wf_conditions (upsertCondition cs c)"
  using types_upsert by (induction cs) (auto simp: wf_conditions_def)

lemma wf_SetNamedCondition:
  "wf_conditions cs \<Longrightarrow> wf_conditions (fst (SetNamedCondition cs t g s r m n))"
  by (auto simp: SetNamedCondition_def Let_def wf_upsert split: option.splits)

text \<open>What a reader finds after a write: the status, reason and message it wrote.\<close>

lemma findCondition_SetNamed:
  "\<exists>c. findCondition (fst (SetNamedCondition cs t g s r m n)) t = Some c \<and>
     cStatus c = s \<and> cReason c = r \<and> cMessage c = m \<and> cObservedGeneration c = g"
  by (auto simp: SetNamedCondition_def Let_def split: option.splits dest: findCondition_type)

lemma findCondition_SetNamed_other:
  "t' \<noteq> t \<Longrightarrow> findCondition (fst (SetNamedCondition cs t g s r m n)) t' = findCondition cs t'"
  by (auto simp: SetNamedCondition_def Let_def split: option.splits dest: findCondition_type)

lemma SetNamed_changed_iff:
  "snd (SetNamedCondition cs t g s r m n) \<longleftrightarrow>
     (\<forall>c. findCondition cs t = Some c \<longrightarrow> cStatus c \<noteq> s \<or> cReason c \<noteq> r)"
  by (auto simp: SetNamedCondition_def Let_def split: option.splits)

lemma SetNamed_transition_time:
  "findCondition cs t = Some c \<Longrightarrow> cStatus c = s \<Longrightarrow> cReason c = r \<Longrightarrow>
   \<exists>c'. findCondition (fst (SetNamedCondition cs t g s r m n)) t = Some c' \<and>
     cLastTransitionTime c' = cLastTransitionTime c"
  by (auto simp: SetNamedCondition_def Let_def dest: findCondition_type)

text \<open>
  The contract of an operation that writes one condition: it leaves every other type as it
  was and keeps the list keyed. A sequence of such writers keeps every condition none of
  them owns.
\<close>

locale condition_writer =
  fixes upd :: "'a \<Rightarrow> condition list \<Rightarrow> condition list"
    and owned :: string
  assumes frame: "t \<noteq> owned \<Longrightarrow> findCondition (upd x cs) t = findCondition cs t"
    and keyed: "wf_conditions cs \<Longrightarrow> wf_conditions (upd x cs)"
begin

lemma frame_fold: "t \<noteq> owned \<Longrightarrow> findCondition (fold upd xs cs) t = findCondition cs t"
  by (induction xs arbitrary: cs) (auto simp: frame)

lemma keyed_fold: "wf_conditions cs \<Longrightarrow> wf_conditions (fold upd xs cs)"
  by (induction xs arbitrary: cs) (auto simp: keyed)

end

interpretation named_condition: condition_writer
  "\<lambda>(g, s, r, m, n) cs. fst (SetNamedCondition cs t g s r m n)" t for t
  by unfold_locales (auto simp: findCondition_SetNamed_other wf_SetNamedCondition)


section \<open>The cluster\<close>

subsection \<open>The upgrade record\<close>

record upgrade_progress =
  Total :: int
  Upgraded :: int
  InProgress :: int
  Pending :: int

record upgrade_status =
  usPhase :: string
  usStartTime :: "int option"
  usStepStartTime :: "int option"
  usPhaseStartTime :: "int option"
  usCurrentPartition :: "int option"
  usCompletionTime :: "int option"
  usCurrentStep :: string
  usPreviousVersion :: string
  usTargetVersion :: string
  usResolvedTargetVersion :: string
  usStartedTargetVersion :: string
  usProgress :: "upgrade_progress option"
  usMessage :: string
  usLastError :: string

text \<open>Go's zero value of the record (\<^verbatim>\<open>&UpgradeStatus{}\<close>).\<close>

definition empty_upgrade_status :: upgrade_status where
  "empty_upgrade_status =
     \<lparr>usPhase = [], usStartTime = None, usStepStartTime = None, usPhaseStartTime = None,
      usCurrentPartition = None, usCompletionTime = None, usCurrentStep = [],
      usPreviousVersion = [], usTargetVersion = [], usResolvedTargetVersion = [],
      usStartedTargetVersion = [], usProgress = None, usMessage = [], usLastError = []\<rparr>"

record upgrade_strategy =
  Strategy :: string
  PreUpgradeHealthCheck :: bool
  MaxUnavailableDuringUpgrade :: "int option"
  UpgradeTimeout :: string
  PostUpgradeHealthCheck :: bool
  HealthCheckTimeout :: string
  StabilizationTimeout :: string
  AutoPauseOnFailure :: bool

subsection \<open>Neo4j's rows\<close>

record server_info =
  srvID :: string
  srvName :: string
  srvAddress :: string
  srvState :: string
  srvHealth :: string
  srvHosting :: "string list"
  srvVersion :: string

record status_check_row =
  chkDatabase :: string
  chkReplicationSuccessful :: bool
  chkMemberStatus :: string
  chkRequester :: bool
  chkError :: string

record database_allocation =
  allocName :: string
  allocAddress :: string
  allocCurrentStatus :: string
  allocRequestedStatus :: string

text \<open>A server as \<^verbatim>\<open>status.diagnostics\<close> last recorded it.\<close>

record server_diagnostic =
  diagName :: string
  diagAddress :: string
  diagHealth :: string

subsection \<open>The cluster object\<close>

record cluster =
  clName :: string
  clGeneration :: int
  clAnnotations :: "string \<rightharpoonup> string"
  specImageRepo :: string
  specImageTag :: string
  specServers :: int
  specUpgradeStrategy :: "upgrade_strategy option"
  stPhase :: string
  stReady :: bool
  stObservedGeneration :: int
  stMessage :: string
  stVersion :: string
  stRunningVersion :: string
  stLastUpgradeTime :: "int option"
  stUpgradeStatus :: "upgrade_status option"
  stConditions :: "condition list"
  stDiagnostics :: "server_diagnostic list option"

definition PhaseReady :: string where "PhaseReady = ''Ready''"
definition PhaseDegraded :: string where "PhaseDegraded = ''Degraded''"
definition PhaseForming :: string where "PhaseForming = ''Forming''"


subsection \<open>Annotations that hold the replica count\<close>

definition RestoreInProgressAnnotation :: string where
  "RestoreInProgressAnnotation = ''neo4j.com/restore-in-progress''"
definition ScaleDownDrainingServersAnnotation :: string where
  "ScaleDownDrainingServersAnnotation = ''neo4j.com/scale-down-draining-servers''"
definition ScaleDownCordonedServersAnnotation :: string where
  "ScaleDownCordonedServersAnnotation = ''neo4j.com/scale-down-cordoned-servers''"
definition ScaleDownHeldPodsAnnotation :: string where
  "ScaleDownHeldPodsAnnotation = ''neo4j.com/scale-down-held-pods''"
definition ScaleDownCordonedAtAnnotation :: string where
  "ScaleDownCordonedAtAnnotation = ''neo4j.com/scale-down-cordoned-at''"

lemmas drain_annotations =
  ScaleDownDrainingServersAnnotation_def ScaleDownCordonedServersAnnotation_def
  ScaleDownHeldPodsAnnotation_def ScaleDownCordonedAtAnnotation_def

text \<open>Reading a key that is absent gives \<^verbatim>\<open>""\<close>.\<close>

definition annotation :: "(string \<rightharpoonup> string) \<Rightarrow> string \<Rightarrow> string" where
  "annotation m k = (case m k of None \<Rightarrow> [] | Some v \<Rightarrow> v)"

definition replicasReconciliationPaused :: "cluster \<Rightarrow> bool" where
  "replicasReconciliationPaused cl = (clAnnotations cl RestoreInProgressAnnotation \<noteq> None)"

definition scaleDownDrainInProgress :: "cluster \<Rightarrow> bool" where
  "scaleDownDrainInProgress cl =
     (trim_space (annotation (clAnnotations cl) ScaleDownDrainingServersAnnotation) \<noteq> [] \<or>
      trim_space (annotation (clAnnotations cl) ScaleDownHeldPodsAnnotation) \<noteq> [])"

text \<open>What a read of an object from the API server or the cache comes back with.\<close>

datatype 'a api_read = Found 'a | NotFound | ReadFailed


section \<open>The StatefulSet and its pods\<close>

text \<open>
  A container as (name, image). The RollingUpdate strategy and the partition inside it are
  both pointers; the code treats a missing strategy like a missing partition, so the model
  keeps the partition alone.
\<close>

record stateful_set =
  stsName :: string
  stsGeneration :: int
  stsAnnotations :: "string \<rightharpoonup> string"
  stsReplicas :: "int option"
  stsPartition :: "int option"
  stsContainers :: "(string \<times> string) list"
  stsObservedGeneration :: int
  stsUpdatedReplicas :: int
  stsReadyReplicas :: int
  stsCurrentRevision :: string
  stsUpdateRevision :: string

record container_status =
  csName :: string
  csReady :: bool
  csWaiting :: "string option"
  csRunning :: bool
  csTerminated :: "int option"
  csLastTerminated :: "int option"
  csRestartCount :: int

record pod =
  podName :: string
  podUID :: string
  podRevision :: string
  podDeleting :: bool
  podPhase :: string
  podConditions :: "(string \<times> condition_status) list"
  podContainers :: "(string \<times> string) list"
  podInitStatuses :: "container_status list"
  podStatuses :: "container_status list"

definition Neo4jContainer :: string where "Neo4jContainer = ''neo4j''"

text \<open>The first Ready condition of a Running pod decides.\<close>

definition isPodReady :: "pod \<Rightarrow> bool" where
  "isPodReady p = (podPhase p = ''Running'' \<and>
     (case find (\<lambda>c. fst c = ''Ready'') (podConditions p) of
        None \<Rightarrow> False | Some c \<Rightarrow> snd c = CondTrue))"

text \<open>\<^verbatim>\<open>statefulSetOrdinal\<close>: the ordinal of a pod named \<^verbatim>\<open>{sts}-{ordinal}\<close>.\<close>

definition statefulSetOrdinal :: "string \<Rightarrow> string \<Rightarrow> int option" where
  "statefulSetOrdinal sts pod =
     (case cut_prefix (sts @ ''-'') pod of None \<Rightarrow> None
      | Some sfx \<Rightarrow>
          (case parse_int 32 sfx of None \<Rightarrow> None
           | Some ordinal \<Rightarrow> if ordinal < 0 \<or> itoa ordinal \<noteq> sfx then None else Some ordinal))"

lemma statefulSetOrdinal_iff:
  "statefulSetOrdinal sts pod = Some n \<longleftrightarrow> 0 \<le> n \<and> n < 2 ^ 31 \<and> pod = sts @ ''-'' @ itoa n"
proof
  assume "statefulSetOrdinal sts pod = Some n"
  then show "0 \<le> n \<and> n < 2 ^ 31 \<and> pod = sts @ ''-'' @ itoa n"
    by (auto simp: statefulSetOrdinal_def cut_prefix_Some_iff int_in_width_def
        split: option.splits if_splits dest!: parse_int_width)
next
  assume n: "0 \<le> n \<and> n < 2 ^ 31 \<and> pod = sts @ ''-'' @ itoa n"
  have "cut_prefix (sts @ ''-'') pod = Some (itoa n)"
    using n by (simp add: cut_prefix_Some_iff)
  moreover have "parse_int 32 (itoa n) = Some n"
    using n parse_int_nat_str [of "nat n" 32] by simp
  ultimately show "statefulSetOrdinal sts pod = Some n"
    using n by (simp add: statefulSetOrdinal_def)
qed

lemma statefulSetOrdinal_pod [simp]:
  "0 \<le> n \<Longrightarrow> n < 2 ^ 31 \<Longrightarrow> statefulSetOrdinal sts (sts @ ''-'' @ itoa n) = Some n"
  by (simp add: statefulSetOrdinal_iff)

lemma statefulSetOrdinal_inj:
  "statefulSetOrdinal sts p = Some n \<Longrightarrow> statefulSetOrdinal sts q = Some n \<Longrightarrow> p = q"
  by (simp add: statefulSetOrdinal_iff)

definition statefulSetPartition :: "stateful_set \<Rightarrow> int option" where
  "statefulSetPartition sts = stsPartition sts"

text \<open>\<^verbatim>\<open>serverImage\<close>: the first container's image, or \<^verbatim>\<open>""\<close>.\<close>

definition serverImage :: "stateful_set \<Rightarrow> string" where
  "serverImage sts = (case stsContainers sts of [] \<Rightarrow> [] | c # _ \<Rightarrow> snd c)"

definition imageChanges :: "stateful_set \<Rightarrow> stateful_set \<Rightarrow> bool" where
  "imageChanges live desired =
     (stsContainers live \<noteq> [] \<and> stsContainers desired \<noteq> [] \<and>
      snd (hd (stsContainers live)) \<noteq> snd (hd (stsContainers desired)))"

text \<open>The name of the cluster's server StatefulSet and of its pods.\<close>

definition serverStsName :: "cluster \<Rightarrow> string" where
  "serverStsName cl = clName cl @ ''-server''"

definition serverPodName :: "string \<Rightarrow> int \<Rightarrow> string" where
  "serverPodName cname n = cname @ ''-server-'' @ itoa n"

subsection \<open>Availability as the status records it\<close>

definition serverIsMember :: "server_info \<Rightarrow> bool" where
  "serverIsMember s = (srvState s = ''Enabled'' \<or> srvState s = ''Cordoned'')"

definition serverServes :: "server_info \<Rightarrow> bool" where
  "serverServes s = (serverIsMember s \<and> srvHealth s = ''Available'')"

definition clusterHasFormed :: "cluster \<Rightarrow> bool" where
  "clusterHasFormed cl =
     (if stPhase cl = PhaseReady \<or> stPhase cl = PhaseDegraded then True
      else case findCondition (stConditions cl) ConditionTypeClusterFormed of
             None \<Rightarrow> False | Some c \<Rightarrow> cStatus c = CondTrue)"

definition serversUnavailableSince :: "cluster \<Rightarrow> int option" where
  "serversUnavailableSince cl =
     (case findCondition (stConditions cl) ConditionTypeDegraded of
        None \<Rightarrow> None
      | Some c \<Rightarrow> if cStatus c \<noteq> CondTrue \<or> cReason c \<noteq> ConditionReasonServersUnavailable
                  then None else Some (cLastTransitionTime c))"

end
