(* ===== verification/Upgrade_Rule.thy ===== *)
theory Upgrade_Rule
  imports Version Cluster_State
begin

text \<open>
  \<^verbatim>\<open>src/internal/validation/upgrade_validator.go\<close> and \<^verbatim>\<open>image_validator.go\<close>: which image
  tags a cluster may move to, judged against the version the servers were verified to run,
  the version they report, and an upgrade that has not completed; the timeouts of
  \<^verbatim>\<open>spec.upgradeStrategy\<close>. A refusal is a value: which rule refused, and what its message
  names.
\<close>

section \<open>The model\<close>

subsection \<open>Reading a version\<close>

record version_info =
  iMajor :: int
  iMinor :: int
  iPatch :: int
  HasPatch :: bool

text \<open>The part the operator's three readers of a version share: what the dots separate.\<close>

definition versionInfoOf :: "string \<Rightarrow> version_info option" where
  "versionInfoOf s =
     (let parts = split_on CHR ''.'' s in
      if length parts < 2 then None
      else case atoi (parts ! 0) of None \<Rightarrow> None
      | Some major \<Rightarrow>
        (case atoi (parts ! 1) of None \<Rightarrow> None
         | Some minor \<Rightarrow>
           (let base = \<lparr>iMajor = major, iMinor = minor, iPatch = 0, HasPatch = False\<rparr> in
            if length parts > 2
            then (case atoi (parts ! 2) of None \<Rightarrow> Some base
                  | Some p \<Rightarrow> Some (base\<lparr>iPatch := p, HasPatch := True\<rparr>))
            else Some base)))"

definition parseVersion :: "string \<Rightarrow> version_info option" where
  "parseVersion s = versionInfoOf (cut_at CHR ''-'' (cut_at CHR ''@'' (trim_prefix s ''v'')))"

definition isCalVer :: "version_info \<Rightarrow> bool" where
  "isCalVer v = (iMajor v \<ge> 2025)"

definition isSemVer :: "version_info \<Rightarrow> bool" where
  "isSemVer v = (iMajor v \<ge> 4 \<and> iMajor v \<le> 10)"

definition isDowngrade :: "version_info \<Rightarrow> version_info \<Rightarrow> bool" where
  "isDowngrade current target =
     (if isCalVer current \<noteq> isCalVer target then isCalVer current
      else if iMajor target \<noteq> iMajor current then iMajor target < iMajor current
      else if iMinor target \<noteq> iMinor current then iMinor target < iMinor current
      else HasPatch current \<and> HasPatch target \<and> iPatch target < iPatch current)"

subsection \<open>Refusals\<close>

datatype tag_error =
    InvalidFormat string
  | DowngradeOfVersion string string string \<comment> \<open>tag, who runs it, status.version\<close>
  | Unsupported4x string
  | OnlySupportedLines string
  | NeedsLTSFirst string string
  | UnsupportedPath string string
  | DowngradeOfRunning string string string string \<comment> \<open>tag, who, runningVersion, status.version\<close>
  | DowngradeOfTarget string string
  | DowngradeOfStarted string string
  | DowngradeOfResolved string string string

definition validateSemVerUpgrade :: "version_info \<Rightarrow> version_info \<Rightarrow> string \<Rightarrow> tag_error option" where
  "validateSemVerUpgrade current target tag =
     (if iMajor current = 4 \<or> iMajor target = 4 then Some (Unsupported4x tag)
      else if iMajor current = 5 \<and> iMajor target = 5 \<and> iMinor target = 26 then None
      else Some (OnlySupportedLines tag))"

definition validateSemVerToCalVerUpgrade ::
    "version_info \<Rightarrow> string \<Rightarrow> string \<Rightarrow> tag_error option" where
  "validateSemVerToCalVerUpgrade current currentStr targetStr =
     (if iMajor current = 5 \<and> iMinor current = 26 then None
      else Some (NeedsLTSFirst currentStr targetStr))"

definition validateVersionMove :: "string \<Rightarrow> string \<Rightarrow> string \<Rightarrow> tag_error list" where
  "validateVersionMove currentVersion targetVersion runs =
     (if currentVersion = [] \<or> currentVersion = targetVersion then []
      else case parseVersion targetVersion of None \<Rightarrow> [InvalidFormat targetVersion]
      | Some target \<Rightarrow>
        (case parseVersion currentVersion of None \<Rightarrow> []
         | Some current \<Rightarrow>
           if isDowngrade current target
           then [DowngradeOfVersion targetVersion runs currentVersion]
           else (case (if isCalVer current \<and> isCalVer target then None
                       else if isSemVer current \<and> isSemVer target
                            then validateSemVerUpgrade current target targetVersion
                       else if isSemVer current \<and> isCalVer target
                            then validateSemVerToCalVerUpgrade current currentVersion targetVersion
                       else Some (UnsupportedPath currentVersion targetVersion)) of
                   None \<Rightarrow> [] | Some e \<Rightarrow> [e])))"

definition ValidateVersionUpgrade :: "string \<Rightarrow> string \<Rightarrow> tag_error list" where
  "ValidateVersionUpgrade currentVersion targetVersion =
     validateVersionMove currentVersion targetVersion ''the servers run''"

definition belowReported :: "string \<Rightarrow> string \<Rightarrow> bool" where
  "belowReported reported tag =
     (if reported = [] then False
      else case (parseVersion reported, parseVersion tag) of
             (Some current, Some target) \<Rightarrow> isDowngrade current target
           | _ \<Rightarrow> False)"

definition TagBelowReportedVersion :: "string \<Rightarrow> string \<Rightarrow> bool" where
  "TagBelowReportedVersion reported tag = belowReported reported tag"

definition validateTagAgainstRunningVersion ::
    "string \<Rightarrow> string \<Rightarrow> string \<Rightarrow> string \<Rightarrow> tag_error list" where
  "validateTagAgainstRunningVersion runningVersion version tag runs =
     (if \<not> belowReported runningVersion tag then []
      else [DowngradeOfRunning tag runs runningVersion version])"

definition upgradeUnfinished :: "upgrade_status option \<Rightarrow> bool" where
  "upgradeUnfinished ous =
     (case ous of None \<Rightarrow> False
      | Some us \<Rightarrow> if usTargetVersion us = [] then False
                  else usPhase us \<notin> {[], ''Completed'', ''Pending''})"

definition upgradeRestartedAServer :: "upgrade_status \<Rightarrow> bool" where
  "upgradeRestartedAServer us =
     (if \<not> upgradeUnfinished (Some us) then False
      else case usProgress us of None \<Rightarrow> False
           | Some p \<Rightarrow> Upgraded p > 0 \<or> InProgress p > 0)"

definition upgradeFloor :: "upgrade_status \<Rightarrow> string" where
  "upgradeFloor us =
     (if usStartedTargetVersion us \<noteq> [] then usStartedTargetVersion us
      else if upgradeRestartedAServer us then usTargetVersion us
      else [])"

definition validateTagAgainstUpgrade :: "upgrade_status option \<Rightarrow> string \<Rightarrow> tag_error list" where
  "validateTagAgainstUpgrade ous tag =
     (case ous of None \<Rightarrow> []
      | Some us \<Rightarrow>
        if \<not> upgradeUnfinished ous then []
        else let floor = upgradeFloor us in
          if floor = [] \<or> floor = usPreviousVersion us then []
          else let refused =
              (if floor \<noteq> tag
               then (case (parseVersion tag, parseVersion floor) of
                       (Some target, Some current) \<Rightarrow>
                         if isDowngrade current target
                         then (if floor = usTargetVersion us
                               then [DowngradeOfTarget tag (usTargetVersion us)]
                               else [DowngradeOfStarted tag floor])
                         else []
                     | _ \<Rightarrow> [])
               else [])
            in if refused \<noteq> [] then refused
               else if belowReported (usResolvedTargetVersion us) tag
                    then [DowngradeOfResolved tag (usTargetVersion us) (usResolvedTargetVersion us)]
                    else [])"

definition ValidateTagAgainstRunning :: "cluster \<Rightarrow> tag_error list" where
  "ValidateTagAgainstRunning cl =
     (let tag = specImageTag cl in
      if parseVersion tag = None then []
      else let e1 = (if stVersion cl \<noteq> [] then ValidateVersionUpgrade (stVersion cl) tag else []) in
        if e1 \<noteq> [] then e1
        else let e2 = validateTagAgainstRunningVersion (stRunningVersion cl) (stVersion cl) tag
                        ''the servers run'' in
          if e2 \<noteq> [] then e2
          else validateTagAgainstUpgrade (stUpgradeStatus cl) tag)"


definition isCommunityTag :: "string \<Rightarrow> bool" where
  "isCommunityTag tag = str_contains (to_lower tag) ''community''"

datatype image_error =
    RepoRequired | TagRequired | CommunityImage string | VersionUnsupported string
  | PullPolicyUnsupported string

text \<open>\<^verbatim>\<open>ImageValidator.Validate\<close>, on the fields of \<^verbatim>\<open>spec.image\<close> it reads.\<close>

definition ImageValidate :: "string \<Rightarrow> string \<Rightarrow> string \<Rightarrow> image_error list" where
  "ImageValidate repo tag pullPolicy =
     (if repo = [] then [RepoRequired] else []) @
     (if tag = [] then [TagRequired] else []) @
     (if isCommunityTag tag then [CommunityImage tag] else []) @
     (if tag \<noteq> [] then
        (case ParseVersion tag of
           Inl _ \<Rightarrow> [VersionUnsupported tag]
         | Inr v \<Rightarrow> if \<not> IsSupported v then [VersionUnsupported tag] else [])
      else []) @
     (if pullPolicy \<noteq> [] \<and> pullPolicy \<notin> set [''Always'', ''Never'', ''IfNotPresent'']
      then [PullPolicyUnsupported pullPolicy] else [])"

subsection \<open>Durations and the upgrade strategy\<close>

text \<open>
  \<^verbatim>\<open>time.ParseDuration\<close>, in nanoseconds: an optional sign, then one or more decimal numbers,
  each with an optional fraction and a unit; \<^verbatim>\<open>"0"\<close> needs no unit. The fraction is computed
  exactly where Go uses a float64. \<open>None\<close> is Go's error, overflow of 64 bits included.
\<close>

definition duration_unit :: "string \<Rightarrow> nat option" where
  "duration_unit u =
     map_of [(''ns'', 1), (''us'', 10 ^ 3), ([CHR 0xC2, CHR 0xB5, CHR ''s''], 10 ^ 3),
             ([CHR 0xCE, CHR 0xBC, CHR ''s''], 10 ^ 3), (''ms'', 10 ^ 6), (''s'', 10 ^ 9),
             (''m'', 60 * 10 ^ 9), (''h'', 3600 * 10 ^ 9)] u"

definition duration_number_char :: "char \<Rightarrow> bool" where
  "duration_number_char c = (c = CHR ''.'' \<or> is_digit c)"

function duration_loop :: "string \<Rightarrow> nat \<Rightarrow> nat option" where
  "duration_loop s d =
     (if s = [] then Some d
      else if \<not> duration_number_char (hd s) then None
      else
        let whole = takeWhile is_digit s; s1 = dropWhile is_digit s;
            dot = (s1 \<noteq> [] \<and> hd s1 = CHR ''.'');
            frac = (if dot then takeWhile is_digit (tl s1) else []);
            s2 = (if dot then dropWhile is_digit (tl s1) else s1);
            u = takeWhile (\<lambda>c. \<not> duration_number_char c) s2;
            s3 = dropWhile (\<lambda>c. \<not> duration_number_char c) s2
        in if digits_val whole > 2 ^ 63 then None
           else if whole = [] \<and> frac = [] then None
           else if u = [] then None
           else case duration_unit u of None \<Rightarrow> None
             | Some unit \<Rightarrow>
               let v = digits_val whole * unit + digits_val frac * unit div 10 ^ length frac
               in if digits_val whole > 2 ^ 63 div unit \<or> v > 2 ^ 63 \<or> d + v > 2 ^ 63
                  then None else duration_loop s3 (d + v))"
  by pat_completeness auto
termination
proof (relation "measure (length \<circ> fst)", goal_cases)
  case (2 s d whole s1 dot frac s2 u s3 unit v)
  have "u \<noteq> []" "u = takeWhile (\<lambda>c. \<not> duration_number_char c) s2"
    "s3 = dropWhile (\<lambda>c. \<not> duration_number_char c) s2" by fact+
  then have "length s3 < length s2" by (simp add: length_dropWhile_less)
  moreover have "s2 = (if dot then dropWhile is_digit (tl s1) else s1)" by fact
  then have "length s2 \<le> length s1"
    using length_dropWhile_le [of is_digit "tl s1"] by auto
  moreover have "s1 = dropWhile is_digit s" by fact
  then have "length s1 \<le> length s"
    using length_dropWhile_le [of is_digit s] by simp
  ultimately show ?case by simp
qed simp

declare duration_loop.simps [simp del]

definition ParseDuration :: "string \<Rightarrow> int option" where
  "ParseDuration s =
     (let (neg, rest) = (case s of [] \<Rightarrow> (False, [])
                         | c # cs \<Rightarrow> if c = CHR ''-'' then (True, cs)
                                   else if c = CHR ''+'' then (False, cs) else (False, s))
      in if rest = ''0'' then Some 0
         else if rest = [] then None
         else case duration_loop rest 0 of None \<Rightarrow> None
              | Some d \<Rightarrow> if neg then Some (- int d)
                          else if d > 2 ^ 63 - 1 then None else Some (int d))"

datatype strategy_error =
    StrategyNotSupported string
  | InvalidDuration string string   \<comment> \<open>field, value\<close>
  | DurationNotPositive string string
  | NegativeMaxUnavailable int

definition validateUpgradeTimeout :: "string \<Rightarrow> string \<Rightarrow> strategy_error list" where
  "validateUpgradeTimeout path timeout =
     (if timeout = [] then []
      else case ParseDuration timeout of
             None \<Rightarrow> [InvalidDuration path timeout]
           | Some d \<Rightarrow> if d \<le> 0 then [DurationNotPositive path timeout] else [])"

definition ValidateUpgradeStrategy :: "upgrade_strategy option \<Rightarrow> strategy_error list" where
  "ValidateUpgradeStrategy ostr =
     (case ostr of None \<Rightarrow> []
      | Some strategy \<Rightarrow>
          (if Strategy strategy \<noteq> [] \<and> Strategy strategy \<notin> set [''RollingUpgrade'', ''Recreate'']
           then [StrategyNotSupported (Strategy strategy)] else []) @
          validateUpgradeTimeout ''upgradeTimeout'' (UpgradeTimeout strategy) @
          validateUpgradeTimeout ''healthCheckTimeout'' (HealthCheckTimeout strategy) @
          validateUpgradeTimeout ''stabilizationTimeout'' (StabilizationTimeout strategy) @
          (case MaxUnavailableDuringUpgrade strategy of None \<Rightarrow> []
           | Some n \<Rightarrow> if n < 0 then [NegativeMaxUnavailable n] else []))"

text \<open>
  \<^verbatim>\<open>src/internal/controller/rolling_upgrade.go\<close>: the timeouts as the state machine reads them.
\<close>

definition minute :: int where "minute = 60 * 10 ^ 9"

definition upgradeTimeoutOrDefault :: "string \<Rightarrow> int \<Rightarrow> int" where
  "upgradeTimeoutOrDefault timeout dflt =
     (case ParseDuration timeout of None \<Rightarrow> dflt | Some d \<Rightarrow> if d > 0 then d else dflt)"

definition getUpgradeTimeout :: "cluster \<Rightarrow> int" where
  "getUpgradeTimeout cl = (case specUpgradeStrategy cl of None \<Rightarrow> 30 * minute
     | Some s \<Rightarrow> upgradeTimeoutOrDefault (UpgradeTimeout s) (30 * minute))"

definition getHealthCheckTimeout :: "cluster \<Rightarrow> int" where
  "getHealthCheckTimeout cl = (case specUpgradeStrategy cl of None \<Rightarrow> 5 * minute
     | Some s \<Rightarrow> upgradeTimeoutOrDefault (HealthCheckTimeout s) (5 * minute))"

definition getStabilizationTimeout :: "cluster \<Rightarrow> int" where
  "getStabilizationTimeout cl = (case specUpgradeStrategy cl of None \<Rightarrow> 3 * minute
     | Some s \<Rightarrow> upgradeTimeoutOrDefault (StabilizationTimeout s) (3 * minute))"


section \<open>The order of versions\<close>

text \<open>A downgrade is the lexicographic order, with the patch ordered only where both name one.\<close>

lemma isDowngrade_iff:
  "isDowngrade c t \<longleftrightarrow> iMajor t < iMajor c \<or> iMajor t = iMajor c \<and>
     (iMinor t < iMinor c \<or> iMinor t = iMinor c \<and> HasPatch c \<and> HasPatch t \<and> iPatch t < iPatch c)"
  by (auto simp: isDowngrade_def isCalVer_def)

lemma isDowngrade_irrefl [simp]: "\<not> isDowngrade v v"
  by (simp add: isDowngrade_iff)

lemma isDowngrade_trans: "isDowngrade a b \<Longrightarrow> isDowngrade b c \<Longrightarrow> isDowngrade a c"
  by (auto simp: isDowngrade_iff)

text \<open>
  Versions that all name a patch are totally ordered, so there a sequence of moves none of
  which is a downgrade is none as a whole. With a tag that names no patch in the middle it
  can be: that is what the reported versions are recorded for.
\<close>

lemma not_downgrade_trans:
  "HasPatch b \<Longrightarrow> \<not> isDowngrade a b \<Longrightarrow> \<not> isDowngrade b c \<Longrightarrow> \<not> isDowngrade a c"
  by (auto simp: isDowngrade_iff)

lemma floating_tag_hides_a_downgrade:
  "\<exists>a b c. \<not> isDowngrade a b \<and> \<not> isDowngrade b c \<and> isDowngrade a c"
proof (intro exI conjI)
  show "\<not> isDowngrade \<lparr>iMajor = 5, iMinor = 26, iPatch = 32, HasPatch = True\<rparr>
          \<lparr>iMajor = 5, iMinor = 26, iPatch = 0, HasPatch = False\<rparr>"
    "\<not> isDowngrade \<lparr>iMajor = 5, iMinor = 26, iPatch = 0, HasPatch = False\<rparr>
          \<lparr>iMajor = 5, iMinor = 26, iPatch = 31, HasPatch = True\<rparr>"
    "isDowngrade \<lparr>iMajor = 5, iMinor = 26, iPatch = 32, HasPatch = True\<rparr>
          \<lparr>iMajor = 5, iMinor = 26, iPatch = 31, HasPatch = True\<rparr>"
    by (simp_all add: isDowngrade_iff)
qed


section \<open>The rule as a whole\<close>

text \<open>
  The specification: a tag is at or above a version when both can be read and the move is no
  downgrade, and the moves Neo4j documents as supported upgrades.
\<close>

definition at_or_above :: "string \<Rightarrow> string \<Rightarrow> bool" where
  "at_or_above version tag =
     (case (parseVersion version, parseVersion tag) of
        (Some c, Some t) \<Rightarrow> \<not> isDowngrade c t | _ \<Rightarrow> True)"

definition supported_path :: "version_info \<Rightarrow> version_info \<Rightarrow> bool" where
  "supported_path c t \<longleftrightarrow> \<not> isDowngrade c t \<and>
     (isCalVer c \<and> isCalVer t \<or>
      iMajor c = 5 \<and> iMajor t = 5 \<and> iMinor t = 26 \<or>
      iMajor c = 5 \<and> iMinor c = 26 \<and> isCalVer t)"

definition supported_move :: "string \<Rightarrow> string \<Rightarrow> bool" where
  "supported_move version tag =
     (version = [] \<or> version = tag \<or>
      (case (parseVersion version, parseVersion tag) of
         (Some c, Some t) \<Rightarrow> supported_path c t | (None, Some _) \<Rightarrow> True | _ \<Rightarrow> False))"

definition upgrade_admits :: "upgrade_status option \<Rightarrow> string \<Rightarrow> bool" where
  "upgrade_admits ous tag =
     (case ous of None \<Rightarrow> True
      | Some us \<Rightarrow> upgradeUnfinished ous \<and> upgradeFloor us \<noteq> [] \<and>
                  upgradeFloor us \<noteq> usPreviousVersion us \<longrightarrow>
                  at_or_above (upgradeFloor us) tag \<and> at_or_above (usResolvedTargetVersion us) tag)"

lemma ValidateVersionUpgrade_accepts:
  "ValidateVersionUpgrade version tag = [] \<longleftrightarrow> supported_move version tag"
  by (auto simp: ValidateVersionUpgrade_def validateVersionMove_def supported_move_def
      supported_path_def validateSemVerUpgrade_def validateSemVerToCalVerUpgrade_def
      isSemVer_def isCalVer_def isDowngrade_iff split: option.splits)

lemma belowReported_iff: "belowReported r tag \<longleftrightarrow> r \<noteq> [] \<and> \<not> at_or_above r tag"
  by (auto simp: belowReported_def at_or_above_def split: option.splits)

lemma parseVersion_Nil [simp]: "parseVersion [] = None"
  by (simp add: parseVersion_def versionInfoOf_def trim_prefix_def)

lemma at_or_above_Nil [simp]: "at_or_above [] tag"
  by (simp add: at_or_above_def)

lemma at_or_above_refl [simp]: "at_or_above tag tag"
  by (simp add: at_or_above_def split: option.splits)

lemma validateTagAgainstUpgrade_accepts:
  "validateTagAgainstUpgrade ous tag = [] \<longleftrightarrow> upgrade_admits ous tag"
  by (cases "ous")
    (auto simp: validateTagAgainstUpgrade_def upgrade_admits_def Let_def belowReported_iff
      at_or_above_def split: option.splits)

lemma validateTagAgainstRunningVersion_accepts:
  "validateTagAgainstRunningVersion r v tag who = [] \<longleftrightarrow> at_or_above r tag"
  by (auto simp: validateTagAgainstRunningVersion_def belowReported_iff)

text \<open>
  C37: the version rule refuses exactly what it says. A readable tag is accepted if and only
  if the move from the verified version is a supported upgrade, it is not below what the
  servers report, and, once an unfinished upgrade has started a server on something newer,
  it is below neither that nor what the target resolved to. So no accepted tag takes a
  server below a version the record says it ran.
\<close>

theorem ValidateTagAgainstRunning_accepts_iff:
  "ValidateTagAgainstRunning cl = [] \<longleftrightarrow>
     parseVersion (specImageTag cl) = None \<or>
     supported_move (stVersion cl) (specImageTag cl) \<and>
     at_or_above (stRunningVersion cl) (specImageTag cl) \<and>
     upgrade_admits (stUpgradeStatus cl) (specImageTag cl)"
  using ValidateVersionUpgrade_accepts [of "stVersion cl" "specImageTag cl"]
  by (auto simp: ValidateTagAgainstRunning_def Let_def validateTagAgainstRunningVersion_accepts
      validateTagAgainstUpgrade_accepts supported_move_def)

end
