(* ===== verification/Reported_Version.thy ===== *)
theory Reported_Version
  imports Upgrade_Rule "HOL-Library.Product_Lexorder" "HOL-Library.Option_ord"
begin

text \<open>
  What the servers say they run, and how an upgrade is verified against it:
  \<^verbatim>\<open>src/internal/controller/reported_version.go\<close>, \<^verbatim>\<open>running_version.go\<close> and the
  verification half of \<^verbatim>\<open>rolling_upgrade.go\<close>.
\<close>

section \<open>The model\<close>

subsection \<open>Image references\<close>

text \<open>\<^verbatim>\<open>splitImage\<close>; \<open>None\<close> is \<open>ok = false\<close>.\<close>

definition splitImage :: "string \<Rightarrow> (string \<times> string) option" where
  "splitImage img =
     (let (name, digest) = (case str_index img ''@'' of None \<Rightarrow> (img, [])
                            | Some a \<Rightarrow> (take a img, drop a img))
      in case last_index name CHR '':'' of None \<Rightarrow> None
         | Some i \<Rightarrow> if i = 0 \<or> str_contains (drop (i + 1) name) ''/'' then None
                     else Some (take i name, drop (i + 1) name @ digest))"

definition imageTag :: "string \<Rightarrow> string" where
  "imageTag img = (case splitImage img of None \<Rightarrow> [] | Some (repo, tag) \<Rightarrow> tag)"

text \<open>The image the operator builds from \<^verbatim>\<open>spec.image\<close>.\<close>

definition specImage :: "cluster \<Rightarrow> string" where
  "specImage cl = specImageRepo cl @ '':'' @ specImageTag cl"

definition rolledImageTag :: "stateful_set \<Rightarrow> string" where
  "rolledImageTag sts =
     (if stsContainers sts = [] then []
      else if stsObservedGeneration sts < stsGeneration sts then []
      else let replicas = (case stsReplicas sts of None \<Rightarrow> 1 | Some r \<Rightarrow> r) in
        if replicas < 1 then []
        else if stsUpdateRevision sts \<noteq> [] \<and> stsCurrentRevision sts \<noteq> stsUpdateRevision sts then []
        else if stsUpdatedReplicas sts < replicas \<or> stsReadyReplicas sts < replicas then []
        else imageTag (snd (hd (stsContainers sts))))"

definition clusterVersionToRecord :: "cluster \<Rightarrow> string \<Rightarrow> string" where
  "clusterVersionToRecord cl running =
     (if running = [] \<or> running = stVersion cl then []
      else case stUpgradeStatus cl of
             None \<Rightarrow> running
           | Some us \<Rightarrow>
               if stVersion cl \<noteq> [] \<and> usTargetVersion us = running \<and>
                  (usPhase us = ''Failed'' \<or> usPhase us = ''Paused'')
               then [] else running)"

subsection \<open>Versions the servers report\<close>

definition parseNeo4jVersion :: "string \<Rightarrow> version_info option" where
  "parseNeo4jVersion s = versionInfoOf (cut_at CHR ''-'' (trim_prefix (trim_space s) ''v''))"

definition tagFloats :: "string \<Rightarrow> bool" where
  "tagFloats tag = (case parseNeo4jVersion tag of None \<Rightarrow> False | Some v \<Rightarrow> \<not> HasPatch v)"

text \<open>
  \<^verbatim>\<open>laterReportedVersion\<close>: the loop over the three number pairs, which stops at the first
  that differ.
\<close>

fun later_pair :: "(int \<times> int) list \<Rightarrow> string \<Rightarrow> string \<Rightarrow> string" where
  "later_pair [] a b = a"
| "later_pair ((x, y) # ds) a b = (if x \<noteq> y then (if y > x then b else a) else later_pair ds a b)"

definition laterReportedVersion :: "string \<Rightarrow> string \<Rightarrow> string" where
  "laterReportedVersion a b =
     (case (parseNeo4jVersion a, parseNeo4jVersion b) of
        (_, None) \<Rightarrow> a
      | (None, Some _) \<Rightarrow> b
      | (Some pa, Some pb) \<Rightarrow>
          later_pair [(iMajor pa, iMajor pb), (iMinor pa, iMinor pb), (iPatch pa, iPatch pb)] a b)"

fun highest_from :: "string \<Rightarrow> (server_info \<Rightarrow> bool) \<Rightarrow> server_info list \<Rightarrow> string" where
  "highest_from highest incl [] = highest"
| "highest_from highest incl (s # ss) =
     (if srvState s \<noteq> ''Enabled'' \<or> srvVersion s = [] \<or> \<not> incl s
      then highest_from highest incl ss
      else highest_from (laterReportedVersion highest (srvVersion s)) incl ss)"

text \<open>A nil \<^verbatim>\<open>include\<close> accepts every server.\<close>

definition highestReportedVersion :: "server_info list \<Rightarrow> (server_info \<Rightarrow> bool) option \<Rightarrow> string" where
  "highestReportedVersion servers incl =
     highest_from [] (case incl of None \<Rightarrow> (\<lambda>_. True) | Some f \<Rightarrow> f) servers"

definition runningVersionFor :: "string \<Rightarrow> string \<Rightarrow> string \<times> bool" where
  "runningVersionFor tag reported =
     (if tag = [] then ([], False)
      else if \<not> tagFloats tag then ([], True)
      else if reported = [] then ([], False)
      else (reported, True))"

definition resolvedTargetVersionFor :: "upgrade_status \<Rightarrow> string \<Rightarrow> string \<times> bool" where
  "resolvedTargetVersionFor us reported =
     (if reported = [] \<or> \<not> tagFloats (usTargetVersion us) then ([], False)
      else let want = laterReportedVersion (usResolvedTargetVersion us) reported
           in (want, want \<noteq> usResolvedTargetVersion us))"

subsection \<open>Verifying an upgrade\<close>

text \<open>The state machine's own reader of versions; it does not cut a digest.\<close>

definition orchParseVersion :: "string \<Rightarrow> version_info option" where
  "orchParseVersion s = versionInfoOf (cut_at CHR ''-'' (trim_prefix s ''v''))"

definition normalizeKernelAlias :: "version_info \<Rightarrow> version_info" where
  "normalizeKernelAlias v =
     (if iMajor v = 2025 \<and> iMinor v = 1
      then \<lparr>iMajor = 5, iMinor = 27, iPatch = iPatch v, HasPatch = HasPatch v\<rparr> else v)"

definition unquote :: "string \<Rightarrow> string" where
  "unquote s = trim_space (trim_chars {CHR 34, CHR 39} s)"

definition versionsMatch :: "string \<Rightarrow> string \<Rightarrow> bool" where
  "versionsMatch actual0 expected0 =
     (let actual = unquote actual0; expected = unquote expected0 in
      if actual = expected then True
      else case (orchParseVersion actual, orchParseVersion expected) of
             (Some a, Some e) \<Rightarrow>
               let na = normalizeKernelAlias a; ne = normalizeKernelAlias e in
               if iMajor na \<noteq> iMajor ne \<or> iMinor na \<noteq> iMinor ne then False
               else \<not> HasPatch ne \<or> iPatch na = iPatch ne
           | _ \<Rightarrow> False)"

datatype mismatch = NoVersionReported string | RunningOther string string string

definition serverMismatch :: "server_info \<Rightarrow> string \<Rightarrow> mismatch list" where
  "serverMismatch s targetVersion =
     (let label = (if srvName s = [] then srvAddress s else srvName s) in
      if srvVersion s = [] then [NoVersionReported label]
      else if \<not> versionsMatch (srvVersion s) targetVersion
           then [RunningOther label (srvVersion s) targetVersion] else [])"

fun versionMismatchesFromServers :: "server_info list \<Rightarrow> string \<Rightarrow> mismatch list \<times> nat" where
  "versionMismatchesFromServers [] targetVersion = ([], 0)"
| "versionMismatchesFromServers (s # ss) targetVersion =
     (let (ms, n) = versionMismatchesFromServers ss targetVersion in
      if srvState s \<noteq> ''Enabled'' then (ms, n)
      else (serverMismatch s targetVersion @ ms, Suc n))"

datatype verify_error =
    TargetNotSpecified | ListServersFailed | NoEnabledServers | VersionMismatches "mismatch list"

text \<open>\<^verbatim>\<open>verifyVersionUpgrade\<close>; the argument is what \<^verbatim>\<open>ListServers\<close> returned, \<open>None\<close> an error.\<close>

definition verifyVersionUpgrade :: "cluster \<Rightarrow> server_info list option \<Rightarrow> verify_error + string" where
  "verifyVersionUpgrade cl listed =
     (let targetVersion = specImageTag cl in
      if targetVersion = [] then Inl TargetNotSpecified
      else case listed of None \<Rightarrow> Inl ListServersFailed
      | Some servers \<Rightarrow>
        (let (mismatches, verified) = versionMismatchesFromServers servers targetVersion in
         if verified = 0 then Inl NoEnabledServers
         else if mismatches \<noteq> [] then Inl (VersionMismatches mismatches)
         else Inr (highestReportedVersion servers None)))"


section \<open>Image references read back\<close>

lemma str_index_char_append: "c \<notin> set s \<Longrightarrow> str_index (s @ c # t) [c] = Some (length s)"
  by (induction s) (auto simp: has_prefix_iff)

lemma splitImage_parts:
  assumes "repo \<noteq> []" "CHR ''@'' \<notin> set repo"
    and "CHR '':'' \<notin> set base" "CHR ''/'' \<notin> set base" "CHR ''@'' \<notin> set base"
    and "digest = [] \<or> hd digest = CHR ''@''"
  shows "splitImage (repo @ '':'' @ base @ digest) = Some (repo, base @ digest)"
proof -
  let ?name = "repo @ CHR '':'' # base"
  have at: "CHR ''@'' \<notin> set ?name" using assms by auto
  have last: "last_index ?name CHR '':'' = Some (length repo)"
    using assms by (intro last_index_append)
  show ?thesis
  proof (cases digest)
    case Nil
    moreover have "str_index ?name ''@'' = None"
      using at str_index_char_None by metis
    ultimately show ?thesis
      using last assms by (simp add: splitImage_def str_contains_char)
  next
    case (Cons d ds)
    then have d: "digest = CHR ''@'' # ds" using assms by simp
    have "str_index (?name @ CHR ''@'' # ds) ''@'' = Some (length ?name)"
      using at by (rule str_index_char_append)
    then show ?thesis
      using last assms d by (simp add: splitImage_def str_contains_char)
  qed
qed

text \<open>
  The image the operator builds from \<^verbatim>\<open>spec.image\<close> splits back into that repository and
  that tag, whether or not the tag carries a digest and the repository a port; so holding an
  image change back restores exactly the image in place.
\<close>

theorem splitImage_specImage:
  assumes "specImageRepo cl \<noteq> []" "CHR ''@'' \<notin> set (specImageRepo cl)"
    and "CHR '':'' \<notin> set (cut_at CHR ''@'' (specImageTag cl))"
    and "CHR ''/'' \<notin> set (cut_at CHR ''@'' (specImageTag cl))"
  shows "splitImage (specImage cl) = Some (specImageRepo cl, specImageTag cl) \<and>
    imageTag (specImage cl) = specImageTag cl"
proof -
  let ?base = "cut_at CHR ''@'' (specImageTag cl)"
  let ?digest = "dropWhile (\<lambda>x. x \<noteq> CHR ''@'') (specImageTag cl)"
  have tag: "specImageTag cl = ?base @ ?digest"
    by (simp add: cut_at_takeWhile)
  have "CHR ''@'' \<notin> set ?base"
    by (auto simp: cut_at_takeWhile dest: set_takeWhileD)
  moreover have "?digest = [] \<or> hd ?digest = CHR ''@''"
    using hd_dropWhile by blast
  ultimately have "splitImage (specImageRepo cl @ '':'' @ ?base @ ?digest)
      = Some (specImageRepo cl, ?base @ ?digest)"
    using assms by (intro splitImage_parts)
  then have "splitImage (specImage cl) = Some (specImageRepo cl, specImageTag cl)"
    by (simp add: specImage_def flip: tag)
  then show ?thesis
    by (simp add: imageTag_def)
qed

text \<open>A cluster object with nothing in its status, for concrete inputs.\<close>

definition new_cluster :: "string \<Rightarrow> string \<Rightarrow> string \<Rightarrow> int \<Rightarrow> cluster" where
  "new_cluster name repo tag servers =
     \<lparr>clName = name, clGeneration = 1, clAnnotations = Map.empty, specImageRepo = repo,
      specImageTag = tag, specServers = servers, specUpgradeStrategy = None, stPhase = [],
      stReady = False, stObservedGeneration = 0, stMessage = [], stVersion = [],
      stRunningVersion = [], stLastUpgradeTime = None,
      stUpgradeStatus = None, stConditions = [], stDiagnostics = None\<rparr>"

theorem splitImage_specImage_witness:
  "splitImage ''registry:5000/neo4j:2026.08.1-enterprise@sha256:ab'' =
     Some (''registry:5000/neo4j'', ''2026.08.1-enterprise@sha256:ab'')"
proof -
  let ?cl = "new_cluster ''c'' ''registry:5000/neo4j'' ''2026.08.1-enterprise@sha256:ab'' 3"
  have "cut_at CHR ''@'' (specImageTag ?cl) = ''2026.08.1-enterprise''"
    by (simp add: new_cluster_def cut_at_takeWhile)
  then show ?thesis
    using splitImage_specImage [of ?cl] by (simp add: specImage_def new_cluster_def)
qed


section \<open>The latest of the reported versions\<close>

text \<open>
  The key a reported version is ordered by: its numbers, and below every one of them a
  string that is no version.
\<close>

definition vkey :: "string \<Rightarrow> (int \<times> int \<times> int) option" where
  "vkey s = map_option (\<lambda>v. (iMajor v, iMinor v, iPatch v)) (parseNeo4jVersion s)"

lemma vkey_laterReportedVersion: "vkey (laterReportedVersion a b) = max (vkey a) (vkey b)"
  by (auto simp: laterReportedVersion_def vkey_def max_def less_eq_option_def
      split: option.splits)

lemma laterReportedVersion_cases: "laterReportedVersion a b = a \<or> laterReportedVersion a b = b"
  by (auto simp: laterReportedVersion_def split: option.splits)

text \<open>
  The contract of a choice of the later of two values: the result is one of them and has
  the greater key. A running choice over a list is then an upper bound of what it saw, and
  never goes back.
\<close>

locale later_choice =
  fixes key :: "'a \<Rightarrow> 'k::linorder"
    and later :: "'a \<Rightarrow> 'a \<Rightarrow> 'a"
  assumes key_later: "key (later a b) = max (key a) (key b)"
    and later_one_of: "later a b \<in> {a, b}"
begin

lemma foldl_upper: "x \<in> insert a (set xs) \<Longrightarrow> key x \<le> key (foldl later a xs)"
proof (induction xs arbitrary: a x)
  case (Cons y ys)
  have later: "key (later a y) \<le> key (foldl later (later a y) ys)"
    by (rule Cons.IH) simp
  show ?case
  proof (cases "x \<in> set ys")
    case True
    then have "x \<in> insert (later a y) (set ys)" by simp
    from Cons.IH [OF this] show ?thesis by simp
  next
    case False
    then have "x = a \<or> x = y" using Cons.prems by simp
    then have "key x \<le> key (later a y)" by (auto simp: key_later)
    then show ?thesis using later by simp
  qed
qed simp

lemma foldl_one_of: "foldl later a xs \<in> insert a (set xs)"
proof (induction xs arbitrary: a)
  case (Cons y ys)
  then have "foldl later (later a y) ys \<in> insert (later a y) (set ys)" by blast
  then show ?case using later_one_of [of a y] by auto
qed simp

end

interpretation reported: later_choice vkey laterReportedVersion
  by unfold_locales (use laterReportedVersion_cases in \<open>auto simp: vkey_laterReportedVersion\<close>)

definition reporting :: "(server_info \<Rightarrow> bool) \<Rightarrow> server_info \<Rightarrow> bool" where
  "reporting incl s = (srvState s = ''Enabled'' \<and> srvVersion s \<noteq> [] \<and> incl s)"

lemma highest_from_foldl:
  "highest_from h incl ss = foldl laterReportedVersion h (map srvVersion (filter (reporting incl) ss))"
  by (induction ss arbitrary: h) (auto simp: reporting_def)

text \<open>
  The version recorded for a tag without a patch is the highest an Enabled server
  reports: it is reported by one of them, and none reports a later one. Recording it is
  monotone: what an upgrade's target resolved to is never replaced by an earlier version.
\<close>

theorem highestReportedVersion_max:
  "(\<forall>s\<in>set servers. srvState s = ''Enabled'' \<and> srvVersion s \<noteq> [] \<longrightarrow>
      vkey (srvVersion s) \<le> vkey (highestReportedVersion servers None)) \<and>
   (highestReportedVersion servers None = [] \<or>
    (\<exists>s\<in>set servers. srvState s = ''Enabled'' \<and>
       srvVersion s = highestReportedVersion servers None)) \<and>
   (snd (resolvedTargetVersionFor us r) \<longrightarrow>
      vkey (usResolvedTargetVersion us) \<le> vkey (fst (resolvedTargetVersionFor us r)) \<and>
      vkey r \<le> vkey (fst (resolvedTargetVersionFor us r)))"
proof (intro conjI)
  let ?vs = "map srvVersion (filter (reporting (\<lambda>_. True)) servers)"
  have h: "highestReportedVersion servers None = foldl laterReportedVersion [] ?vs"
    by (simp add: highestReportedVersion_def highest_from_foldl)
  show "\<forall>s\<in>set servers. srvState s = ''Enabled'' \<and> srvVersion s \<noteq> [] \<longrightarrow>
      vkey (srvVersion s) \<le> vkey (highestReportedVersion servers None)"
    unfolding h by (auto intro!: reported.foldl_upper simp: reporting_def)
  show "highestReportedVersion servers None = [] \<or>
    (\<exists>s\<in>set servers. srvState s = ''Enabled'' \<and> srvVersion s = highestReportedVersion servers None)"
    using reported.foldl_one_of [of "[]" ?vs] unfolding h by (auto simp: reporting_def)
  show "snd (resolvedTargetVersionFor us r) \<longrightarrow>
      vkey (usResolvedTargetVersion us) \<le> vkey (fst (resolvedTargetVersionFor us r)) \<and>
      vkey r \<le> vkey (fst (resolvedTargetVersionFor us r))"
    by (simp add: resolvedTargetVersionFor_def Let_def vkey_laterReportedVersion)
qed



section \<open>What a verified upgrade means\<close>

lemma versionMismatches_count:
  "snd (versionMismatchesFromServers ss t) = length (filter (\<lambda>s. srvState s = ''Enabled'') ss)"
  by (induction ss) (auto simp: Let_def split: prod.splits)

lemma versionMismatches_Nil:
  "fst (versionMismatchesFromServers ss t) = [] \<longleftrightarrow>
   (\<forall>s\<in>set ss. srvState s = ''Enabled'' \<longrightarrow> srvVersion s \<noteq> [] \<and> versionsMatch (srvVersion s) t)"
  by (induction ss) (auto simp: Let_def serverMismatch_def split: prod.splits if_splits)

text \<open>
  The line and patch a version names, with the one kernel alias applied: what a server's
  report and a tag are compared by.
\<close>

definition runs_target :: "version_info \<Rightarrow> version_info \<Rightarrow> bool" where
  "runs_target a e = (iMajor (normalizeKernelAlias a) = iMajor (normalizeKernelAlias e) \<and>
     iMinor (normalizeKernelAlias a) = iMinor (normalizeKernelAlias e) \<and>
     (HasPatch e \<longrightarrow> iPatch a = iPatch e))"

lemma versionsMatch_iff:
  "versionsMatch actual expected \<longleftrightarrow> unquote actual = unquote expected \<or>
     (\<exists>a e. orchParseVersion (unquote actual) = Some a \<and>
            orchParseVersion (unquote expected) = Some e \<and> runs_target a e)"
  by (auto simp: versionsMatch_def runs_target_def normalizeKernelAlias_def Let_def
      split: option.splits if_splits)

text \<open>
  What a server that runs a tag reports: the tag's own text, or a version of the tag's line,
  and of its patch where the tag names one.
\<close>

definition reports_target :: "string \<Rightarrow> string \<Rightarrow> bool" where
  "reports_target v tag \<longleftrightarrow> v \<noteq> [] \<and>
     (unquote v = unquote tag \<or>
      (\<exists>a e. orchParseVersion (unquote v) = Some a \<and> orchParseVersion (unquote tag) = Some e \<and>
         runs_target a e))"

lemma reports_target_iff: "reports_target v tag \<longleftrightarrow> v \<noteq> [] \<and> versionsMatch v tag"
  by (auto simp: reports_target_def versionsMatch_iff)

lemma verified_servers:
  assumes "verifyVersionUpgrade cl listed = Inr reported"
  shows "\<exists>servers. listed = Some servers \<and> reported = highestReportedVersion servers None \<and>
     (\<exists>s\<in>set servers. srvState s = ''Enabled'') \<and>
     (\<forall>s\<in>set servers. srvState s = ''Enabled'' \<longrightarrow> reports_target (srvVersion s) (specImageTag cl))"
proof -
  from assms obtain servers where s: "listed = Some servers"
    and n: "snd (versionMismatchesFromServers servers (specImageTag cl)) \<noteq> 0"
    and m: "fst (versionMismatchesFromServers servers (specImageTag cl)) = []"
    and r: "reported = highestReportedVersion servers None"
    by (auto simp: verifyVersionUpgrade_def Let_def split: if_splits option.splits prod.splits)
  from n have "\<exists>s\<in>set servers. srvState s = ''Enabled''"
    by (auto simp: versionMismatches_count filter_empty_conv)
  then show ?thesis
    using s r m by (simp add: versionMismatches_Nil reports_target_iff)
qed

text \<open>
  An upgrade is verified only when there is an Enabled server and every Enabled server
  reports the version the tag names - the same line, and the same patch where the tag names
  one; the version it then records is the highest of the reports.
\<close>

theorem verifyVersionUpgrade_sound:
  assumes "verifyVersionUpgrade cl listed = Inr reported"
  shows "\<exists>servers. listed = Some servers \<and> reported = highestReportedVersion servers None \<and>
     (\<exists>s\<in>set servers. srvState s = ''Enabled'') \<and>
     (\<forall>s\<in>set servers. srvState s = ''Enabled'' \<longrightarrow>
        unquote (srvVersion s) = unquote (specImageTag cl) \<or>
        (\<exists>a e. orchParseVersion (unquote (srvVersion s)) = Some a \<and>
               orchParseVersion (unquote (specImageTag cl)) = Some e \<and> runs_target a e))"
  using verified_servers [OF assms] unfolding reports_target_def by blast

text \<open>A server that reports a version, for concrete inputs.\<close>

definition reports :: "string \<Rightarrow> string \<Rightarrow> server_info" where
  "reports name v = \<lparr>srvID = name, srvName = name, srvAddress = name, srvState = ''Enabled'',
     srvHealth = ''Available'', srvHosting = [], srvVersion = v\<rparr>"

theorem highestReportedVersion_max_witness:
  "vkey ''2026.08.1'' \<le> vkey (highestReportedVersion [reports ''a'' ''2026.08.1'', reports ''b'' ''2026.09.0''] None)"
proof -
  let ?ss = "[reports ''a'' ''2026.08.1'', reports ''b'' ''2026.09.0'']"
  have "reports ''a'' ''2026.08.1'' \<in> set ?ss" "srvState (reports ''a'' ''2026.08.1'') = ''Enabled''"
    "srvVersion (reports ''a'' ''2026.08.1'') = ''2026.08.1''"
    by (simp_all add: reports_def)
  then show ?thesis using highestReportedVersion_max [of ?ss] by fastforce
qed

theorem verifyVersionUpgrade_sound_witness:
  "verifyVersionUpgrade (new_cluster ''c'' ''neo4j'' ''2025.01-enterprise'' 3)
     (Some [reports ''a'' ''5.27.0'']) = Inr ''5.27.0'' \<and>
   runs_target \<lparr>iMajor = 5, iMinor = 27, iPatch = 0, HasPatch = True\<rparr>
     \<lparr>iMajor = 2025, iMinor = 1, iPatch = 0, HasPatch = False\<rparr>"
proof -
  let ?cl = "new_cluster ''c'' ''neo4j'' ''2025.01-enterprise'' 3"
  have v: "verifyVersionUpgrade ?cl (Some [reports ''a'' ''5.27.0'']) = Inr ''5.27.0''"
    by code_simp
  have p: "orchParseVersion (unquote ''5.27.0'') =
      Some \<lparr>iMajor = 5, iMinor = 27, iPatch = 0, HasPatch = True\<rparr>"
    "orchParseVersion (unquote ''2025.01-enterprise'') =
      Some \<lparr>iMajor = 2025, iMinor = 1, iPatch = 0, HasPatch = False\<rparr>"
    "unquote ''5.27.0'' \<noteq> unquote ''2025.01-enterprise''"
    by code_simp+
  show ?thesis
    using verifyVersionUpgrade_sound [OF v] v p by (simp add: reports_def new_cluster_def)
qed


section \<open>The operator's readers of a version\<close>

text \<open>
  On a tag without a digest and without surrounding blanks, the validator, the state
  machine and the recorder of reported versions read the same version. On a tag pinned to a
  digest with no edition suffix they do not: the validator reads the patch of
  \<^verbatim>\<open>5.26.31@sha256:...\<close>, while the state machine takes the tag to name no patch, so that it
  accepts servers on any other patch of the line as verified.
\<close>

theorem version_readers_agree_without_digest:
  "(CHR ''@'' \<notin> set s \<and> (\<forall>c\<in>set s. \<not> is_space c) \<longrightarrow>
      parseVersion s = orchParseVersion s \<and> parseNeo4jVersion s = orchParseVersion s) \<and>
   (\<exists>v w. parseVersion ''5.26.31@sha256:ab'' = Some v \<and> HasPatch v \<and> iPatch v = 31 \<and>
      orchParseVersion ''5.26.31@sha256:ab'' = Some w \<and> \<not> HasPatch w \<and>
      tagFloats ''5.26.31@sha256:ab'' \<and> versionsMatch ''5.26.32'' ''5.26.31@sha256:ab'')"
proof (intro conjI impI)
  assume s: "CHR ''@'' \<notin> set s \<and> (\<forall>c\<in>set s. \<not> is_space c)"
  then have "CHR ''@'' \<notin> set (trim_prefix s ''v'')"
    by (auto simp: trim_prefix_def cut_prefix_Some_iff split: option.splits)
  then show "parseVersion s = orchParseVersion s"
    by (simp add: parseVersion_def orchParseVersion_def)
  show "parseNeo4jVersion s = orchParseVersion s"
    using s by (simp add: parseNeo4jVersion_def orchParseVersion_def trim_space_id)
next
  have "parseVersion ''5.26.31@sha256:ab'' =
      Some \<lparr>iMajor = 5, iMinor = 26, iPatch = 31, HasPatch = True\<rparr>"
    "orchParseVersion ''5.26.31@sha256:ab'' =
      Some \<lparr>iMajor = 5, iMinor = 26, iPatch = 0, HasPatch = False\<rparr>"
    "tagFloats ''5.26.31@sha256:ab''" "versionsMatch ''5.26.32'' ''5.26.31@sha256:ab''"
    by code_simp+
  then show "\<exists>v w. parseVersion ''5.26.31@sha256:ab'' = Some v \<and> HasPatch v \<and> iPatch v = 31 \<and>
      orchParseVersion ''5.26.31@sha256:ab'' = Some w \<and> \<not> HasPatch w \<and>
      tagFloats ''5.26.31@sha256:ab'' \<and> versionsMatch ''5.26.32'' ''5.26.31@sha256:ab''"
    by (intro exI conjI) (assumption | simp)+
qed

theorem version_readers_agree_witness:
  "parseVersion ''2026.09.0-enterprise'' = orchParseVersion ''2026.09.0-enterprise''"
proof -
  have "CHR ''@'' \<notin> set ''2026.09.0-enterprise'' \<and> (\<forall>c\<in>set ''2026.09.0-enterprise''. \<not> is_space c)"
    by code_simp
  then show ?thesis using version_readers_agree_without_digest [of "''2026.09.0-enterprise''"] by blast
qed

end
