(* ===== verification/Upgrade_Gate.thy ===== *)
theory Upgrade_Gate
  imports Cluster_State
begin

text \<open>
  The gates between two steps of a rolling upgrade's walk:
  \<^verbatim>\<open>src/internal/controller/upgrade_database_gate.go\<close> (the databases of the server that just
  restarted), and from \<^verbatim>\<open>rolling_upgrade_statemachine.go\<close> the availability of that server in
  SHOW SERVERS, the decision of the Rolling step and the deadline of a step.
\<close>

section \<open>The model\<close>

subsection \<open>Phases\<close>

definition upgradePhaseStaging :: string where "upgradePhaseStaging = ''Staging''"
definition upgradePhaseRolling :: string where "upgradePhaseRolling = ''Rolling''"
definition upgradePhaseStabilizing :: string where "upgradePhaseStabilizing = ''Stabilizing''"
definition upgradePhaseVerifying :: string where "upgradePhaseVerifying = ''Verifying''"
definition upgradePhaseCompleted :: string where "upgradePhaseCompleted = ''Completed''"
definition upgradePhaseFailed :: string where "upgradePhaseFailed = ''Failed''"
definition upgradePhasePaused :: string where "upgradePhasePaused = ''Paused''"
definition upgradePhaseLegacyInProgress :: string where
  "upgradePhaseLegacyInProgress = ''InProgress''"

lemmas upgrade_phases =
  upgradePhaseStaging_def upgradePhaseRolling_def upgradePhaseStabilizing_def
  upgradePhaseVerifying_def upgradePhaseCompleted_def upgradePhaseFailed_def
  upgradePhasePaused_def upgradePhaseLegacyInProgress_def

text \<open>The poll intervals, in nanoseconds.\<close>

definition upgradeStepRequeue :: int where "upgradeStepRequeue = 15 * 10 ^ 9"
definition upgradeTransitionRequeue :: int where "upgradeTransitionRequeue = 5 * 10 ^ 9"

subsection \<open>Whose address it is\<close>

definition addressIsPod :: "string \<Rightarrow> string \<Rightarrow> bool" where
  "addressIsPod address pod =
     (let host = (case last_index address CHR '':'' of None \<Rightarrow> address | Some i \<Rightarrow> take i address)
      in host = pod \<or> has_prefix host (pod @ ''.''))"

fun podServerAvailable :: "server_info list \<Rightarrow> string \<Rightarrow> bool \<times> string" where
  "podServerAvailable [] pod = (False, [])"
| "podServerAvailable (s # ss) pod =
     (if addressIsPod (srvAddress s) pod \<and> serverServes s then (True, srvVersion s)
      else podServerAvailable ss pod)"

subsection \<open>The database gate\<close>

definition allocation_lags :: "string \<Rightarrow> database_allocation \<Rightarrow> bool" where
  "allocation_lags pod a =
     (addressIsPod (allocAddress a) pod \<and> allocCurrentStatus a \<noteq> allocRequestedStatus a)"

definition check_lags :: "status_check_row \<Rightarrow> bool" where
  "check_lags c = (chkRequester c \<and>
     (\<not> chkReplicationSuccessful c \<or> chkMemberStatus c \<noteq> ''APPLYING'' \<or> chkError c \<noteq> []))"

definition evaluateDatabaseGate ::
    "string \<Rightarrow> status_check_row list \<Rightarrow> database_allocation list \<Rightarrow> bool \<times> string list" where
  "evaluateDatabaseGate pod checks allocs =
     (let names = sorted_set (map allocName (filter (allocation_lags pod) allocs) @
                              map chkDatabase (filter check_lags checks))
      in (names = [], names))"

text \<open>The first five databases, and how many more.\<close>

definition databaseNameList :: "string list \<Rightarrow> string" where
  "databaseNameList names =
     (if length names \<le> 5 then join '', '' names
      else join '', '' (take 5 names) @ '' and '' @ itoa (int (length names - 5)) @ '' more'')"

definition databaseGateMessage :: "int \<Rightarrow> string list \<Rightarrow> string" where
  "databaseGateMessage ordinal notReady =
     ''Rolling server ordinal '' @ itoa ordinal @
     '': waiting for its databases to catch up ('' @ databaseNameList notReady @ '')''"

subsection \<open>The Rolling step's decision\<close>

record upgradeRollObservation =
  Replicas :: int
  Partition :: int
  Generation :: int
  ObservedGeneration :: int
  UpdatedReplicas :: int
  ReadyReplicas :: int
  LastRolledAvailable :: bool
  LastRolledDatabasesCaughtUp :: bool

datatype upgradeRollDecision = rollWait | rollLower | rollDone

definition planUpgradeRollStep :: "upgradeRollObservation \<Rightarrow> upgradeRollDecision" where
  "planUpgradeRollStep obs =
     (if ObservedGeneration obs < Generation obs then rollWait
      else if UpdatedReplicas obs < Replicas obs - Partition obs then rollWait
      else if ReadyReplicas obs < Replicas obs then rollWait
      else if Partition obs < Replicas obs \<and> \<not> LastRolledAvailable obs then rollWait
      else if Partition obs < Replicas obs \<and> \<not> LastRolledDatabasesCaughtUp obs then rollWait
      else if Partition obs = 0 then rollDone
      else rollLower)"

definition upgradeStepDeadlineExceeded :: "upgrade_status option \<Rightarrow> int \<Rightarrow> int \<Rightarrow> bool" where
  "upgradeStepDeadlineExceeded ous budget now =
     (case ous of None \<Rightarrow> False
      | Some us \<Rightarrow> (case usStepStartTime us of None \<Rightarrow> False | Some t \<Rightarrow> now > t + budget))"


section \<open>A server is told from its neighbours\<close>

text \<open>The address Neo4j advertises for a pod: its name in the headless service's domain.\<close>

definition pod_address :: "string \<Rightarrow> int \<Rightarrow> string \<Rightarrow> string \<Rightarrow> string" where
  "pod_address cname n domain port = serverPodName cname n @ ''.'' @ domain @ '':'' @ port"

lemma digits_then_dot:
  assumes "\<not> is_digit c" "list_all is_digit xs" "list_all is_digit ys"
  shows "xs @ c # r = ys @ c # r' \<longleftrightarrow> xs = ys \<and> r = r'"
  using assms
proof (induction xs arbitrary: ys)
  case Nil
  then show ?case by (cases ys) auto
next
  case (Cons x xs)
  then show ?case by (cases ys) auto
qed

text \<open>
  On the addresses the servers of one cluster advertise, \<^verbatim>\<open>addressIsPod\<close> holds for the
  pod's own ordinal and no other, so the gates never read server 10 for server 1.
\<close>

theorem addressIsPod_own_ordinal:
  assumes "0 \<le> m" "0 \<le> n" "CHR '':'' \<notin> set port"
  shows "addressIsPod (pod_address cname m domain port) (serverPodName cname n) \<longleftrightarrow> m = n"
proof -
  let ?host = "serverPodName cname m @ ''.'' @ domain"
  have host: "pod_address cname m domain port = ?host @ CHR '':'' # port"
    by (simp add: pod_address_def)
  have "last_index (?host @ CHR '':'' # port) CHR '':'' = Some (length ?host)"
    using assms(3) by (rule last_index_append)
  then have a: "addressIsPod (pod_address cname m domain port) (serverPodName cname n) \<longleftrightarrow>
      ?host = serverPodName cname n \<or> (\<exists>r. ?host = serverPodName cname n @ CHR ''.'' # r)"
    unfolding host addressIsPod_def by (simp add: Let_def has_prefix_iff)
  have "?host \<noteq> serverPodName cname n"
  proof
    assume "?host = serverPodName cname n"
    then have "nat_str (nat n) = nat_str (nat m) @ CHR ''.'' # domain"
      using assms by (simp add: serverPodName_def)
    then have "CHR ''.'' \<in> set (nat_str (nat n))"
      by (simp only: set_append) simp
    then show False by simp
  qed
  moreover have "(\<exists>r. ?host = serverPodName cname n @ CHR ''.'' # r) \<longleftrightarrow> m = n"
    using assms nat_str_digits digits_then_dot [of "CHR ''.''" "nat_str (nat m)" "nat_str (nat n)"]
    by (auto simp: serverPodName_def)
  ultimately show ?thesis using a by blast
qed

theorem addressIsPod_own_ordinal_witness:
  "addressIsPod ''c-server-1.c-headless:7687'' ''c-server-1'' \<and>
   \<not> addressIsPod ''c-server-10.c-headless:7687'' ''c-server-1''"
proof -
  have "serverPodName ''c'' 1 = ''c-server-1''" "serverPodName ''c'' 10 = ''c-server-10''"
    by code_simp+
  then show ?thesis
    using addressIsPod_own_ordinal [of 1 1 "''7687''" "''c''" "''c-headless''"]
      addressIsPod_own_ordinal [of 10 1 "''7687''" "''c''" "''c-headless''"]
    by (simp add: pod_address_def)
qed

lemma podServerAvailable_sound:
  "podServerAvailable ss p = (True, v) \<Longrightarrow>
   \<exists>s\<in>set ss. addressIsPod (srvAddress s) p \<and> serverServes s \<and> srvVersion s = v"
  by (induction ss) (auto split: if_splits)

lemma podServerAvailable_complete:
  "s \<in> set ss \<Longrightarrow> addressIsPod (srvAddress s) p \<Longrightarrow> serverServes s \<Longrightarrow> fst (podServerAvailable ss p)"
  by (induction ss) auto


section \<open>The database gate\<close>

text \<open>
  C34: the gate opens exactly when every copy SHOW DATABASES lists on the restarted server is
  at its requested status and every row statusCheck returned for that server replicated, is
  APPLYING and carries no error; what it names otherwise is exactly the databases that keep
  it closed, each once, in order.
\<close>

theorem evaluateDatabaseGate_correct:
  "(fst (evaluateDatabaseGate p checks allocs) \<longleftrightarrow>
      (\<forall>a\<in>set allocs. addressIsPod (allocAddress a) p \<longrightarrow>
         allocCurrentStatus a = allocRequestedStatus a) \<and>
      (\<forall>c\<in>set checks. chkRequester c \<longrightarrow>
         chkReplicationSuccessful c \<and> chkMemberStatus c = ''APPLYING'' \<and> chkError c = [])) \<and>
   (\<forall>d. d \<in> set (snd (evaluateDatabaseGate p checks allocs)) \<longleftrightarrow>
      (\<exists>a\<in>set allocs. allocName a = d \<and> allocation_lags p a) \<or>
      (\<exists>c\<in>set checks. chkDatabase c = d \<and> check_lags c)) \<and>
   sorted (snd (evaluateDatabaseGate p checks allocs)) \<and>
   distinct (snd (evaluateDatabaseGate p checks allocs))"
  by (auto simp: evaluateDatabaseGate_def Let_def allocation_lags_def check_lags_def
      filter_empty_conv)

theorem evaluateDatabaseGate_correct_witness:
  "evaluateDatabaseGate ''c-server-1''
     [\<lparr>chkDatabase = ''sales'', chkReplicationSuccessful = True, chkMemberStatus = ''REPLICATING'',
       chkRequester = True, chkError = []\<rparr>]
     [\<lparr>allocName = ''hr'', allocAddress = ''c-server-10.c-headless:7687'',
       allocCurrentStatus = ''starting'', allocRequestedStatus = ''online''\<rparr>] = (False, [''sales''])"
proof -
  let ?checks = "[\<lparr>chkDatabase = ''sales'', chkReplicationSuccessful = True,
       chkMemberStatus = ''REPLICATING'', chkRequester = True, chkError = []\<rparr>]"
  let ?allocs = "[\<lparr>allocName = ''hr'', allocAddress = ''c-server-10.c-headless:7687'',
       allocCurrentStatus = ''starting'', allocRequestedStatus = ''online''\<rparr>]"
  have "\<not> fst (evaluateDatabaseGate ''c-server-1'' ?checks ?allocs)"
    using evaluateDatabaseGate_correct [of "''c-server-1''" ?checks ?allocs] by simp
  moreover have "snd (evaluateDatabaseGate ''c-server-1'' ?checks ?allocs) = [''sales'']"
    by code_simp
  ultimately show ?thesis by (simp add: prod_eq_iff)
qed


section \<open>The decision\<close>

text \<open>Everything that holds before the walk touches another server.\<close>

definition roll_gates_open :: "upgradeRollObservation \<Rightarrow> bool" where
  "roll_gates_open obs \<longleftrightarrow>
     ObservedGeneration obs \<ge> Generation obs \<and>
     UpdatedReplicas obs \<ge> Replicas obs - Partition obs \<and>
     ReadyReplicas obs \<ge> Replicas obs \<and>
     (Partition obs < Replicas obs \<longrightarrow> LastRolledAvailable obs \<and> LastRolledDatabasesCaughtUp obs)"

lemma planUpgradeRollStep_iff:
  "planUpgradeRollStep obs = rollWait \<longleftrightarrow> \<not> roll_gates_open obs"
  "planUpgradeRollStep obs = rollLower \<longleftrightarrow> roll_gates_open obs \<and> Partition obs \<noteq> 0"
  "planUpgradeRollStep obs = rollDone \<longleftrightarrow> roll_gates_open obs \<and> Partition obs = 0"
  by (auto simp: planUpgradeRollStep_def roll_gates_open_def)

lemma deadline_mono:
  "upgradeStepDeadlineExceeded us b n \<Longrightarrow> n \<le> n' \<Longrightarrow> upgradeStepDeadlineExceeded us b n'"
  by (auto simp: upgradeStepDeadlineExceeded_def split: option.splits)

text \<open>Every step that has a start time ends: some moment is past its deadline.\<close>

lemma deadline_reached:
  "usStepStartTime us = Some t \<Longrightarrow> upgradeStepDeadlineExceeded (Some us) b (t + b + 1)"
  by (simp add: upgradeStepDeadlineExceeded_def)

end
