(* ===== verification/Upgrade_Hold.thy ===== *)
theory Upgrade_Hold
  imports Reported_Version Upgrade_Gate
begin

text \<open>
  What is held while an upgrade is in flight or has stopped: the partition, the image, the
  topology and the record of what the servers started on. From \<^verbatim>\<open>src/internal/controller\<close>:
  \<^verbatim>\<open>upgrade_hold.go\<close>, \<^verbatim>\<open>upgrade_start.go\<close>, \<^verbatim>\<open>upgrade_stalled.go\<close>,
  \<^verbatim>\<open>upgrade_started_target.go\<close>, \<^verbatim>\<open>upgrade_topology.go\<close>, \<^verbatim>\<open>upgrade_uncached.go\<close>,
  \<^verbatim>\<open>rolling_upgrade_phase_metrics.go\<close>, the image hold, the Ready pass's record of versions
  and the update branch of the StatefulSet write in
  \<^verbatim>\<open>neo4jenterprisecluster_controller.go\<close>. Everything here reads and returns objects; the
  writes to the API server are in the theory of the status writes.
\<close>

section \<open>The model\<close>

subsection \<open>Is an upgrade active, or held?\<close>

definition upgradeStateMachineActive :: "cluster \<Rightarrow> bool" where
  "upgradeStateMachineActive cl =
     (case stUpgradeStatus cl of None \<Rightarrow> False
      | Some us \<Rightarrow> usPhase us \<in> set [upgradePhaseStaging, upgradePhaseRolling,
                     upgradePhaseStabilizing, upgradePhaseVerifying, upgradePhaseLegacyInProgress])"

definition upgradeHeld :: "cluster \<Rightarrow> bool" where
  "upgradeHeld cl =
     (case stUpgradeStatus cl of None \<Rightarrow> False
      | Some us \<Rightarrow> usPhase us \<in> set [upgradePhasePaused, upgradePhaseFailed])"

definition autoPauseOnFailure :: "cluster \<Rightarrow> bool" where
  "autoPauseOnFailure cl =
     (case specUpgradeStrategy cl of None \<Rightarrow> False | Some s \<Rightarrow> AutoPauseOnFailure s)"

definition upgradeWaitsForUser :: "cluster \<Rightarrow> bool" where
  "upgradeWaitsForUser cl =
     (case stUpgradeStatus cl of None \<Rightarrow> False
      | Some us \<Rightarrow> if usPhase us \<noteq> upgradePhasePaused \<or> \<not> autoPauseOnFailure cl then False
                  else usTargetVersion us = [] \<or> usTargetVersion us = specImageTag cl)"

text \<open>The partition a held upgrade keeps; a nil StatefulSet is \<open>None\<close>.\<close>

definition keptUpgradePartition :: "cluster \<Rightarrow> stateful_set option \<Rightarrow> int" where
  "keptUpgradePartition cl osts =
     (if \<not> upgradeHeld cl then 0
      else case osts of None \<Rightarrow> 0
      | Some sts \<Rightarrow> (case stsPartition sts of None \<Rightarrow> 0 | Some p \<Rightarrow> if p > 0 then p else 0))"

definition upgradeStaged :: "upgrade_status option \<Rightarrow> stateful_set \<Rightarrow> bool" where
  "upgradeStaged ous sts =
     (case ous of None \<Rightarrow> False
      | Some us \<Rightarrow> usTargetVersion us \<noteq> [] \<and> stsContainers sts \<noteq> [] \<and>
                  imageTag (snd (hd (stsContainers sts))) = usTargetVersion us)"

definition sts_replicas :: "stateful_set \<Rightarrow> int" where
  "sts_replicas sts = (case stsReplicas sts of None \<Rightarrow> 1 | Some r \<Rightarrow> r)"

definition heldRolloutPending :: "stateful_set \<Rightarrow> int \<Rightarrow> bool \<times> string" where
  "heldRolloutPending sts part =
     (if stsObservedGeneration sts < stsGeneration sts
      then (True, ''the StatefulSet controller has not seen the current template'')
      else let want = sts_replicas sts - part in
        if want > 0 \<and> stsUpdatedReplicas sts < want
        then (True, itoa (stsUpdatedReplicas sts) @ ''/'' @ itoa want @ '' pods from ordinal '' @
                itoa part @ '' up updated (the upgrade holds the rest)'')
        else (False, []))"

definition partitionForNewServerStatefulSet :: "cluster \<Rightarrow> int option \<Rightarrow> int option" where
  "partitionForNewServerStatefulSet cl replicas =
     (case stUpgradeStatus cl of None \<Rightarrow> None
      | Some us \<Rightarrow>
          if \<not> upgradeHeld cl \<or> usTargetVersion us \<noteq> specImageTag cl then None
          else (case usCurrentPartition us of Some p \<Rightarrow> Some p | None \<Rightarrow> replicas))"

subsection \<open>The record an attempt starts with\<close>

definition sameHeldUpgrade :: "upgrade_status option \<Rightarrow> string \<Rightarrow> bool" where
  "sameHeldUpgrade ous previousVersion =
     (case ous of None \<Rightarrow> False
      | Some us \<Rightarrow> (usPhase us = upgradePhasePaused \<or> usPhase us = upgradePhaseFailed) \<and>
                  usPreviousVersion us = previousVersion)"

definition progressReleasedAServer :: "upgrade_status \<Rightarrow> bool" where
  "progressReleasedAServer us =
     (case usProgress us of None \<Rightarrow> False | Some p \<Rightarrow> Upgraded p > 0 \<or> InProgress p > 0)"

definition freshUpgradeRecord :: "string \<Rightarrow> string \<Rightarrow> int \<Rightarrow> int \<Rightarrow> upgrade_status" where
  "freshUpgradeRecord previousVersion targetVersion servers now =
     empty_upgrade_status
       \<lparr>usPhase := upgradePhaseStaging, usStartTime := Some now, usStepStartTime := Some now,
        usCurrentStep := ''Staging target pod template'',
        usPreviousVersion := previousVersion, usTargetVersion := targetVersion,
        usProgress := Some \<lparr>Total = servers, Upgraded = 0, InProgress = 0, Pending = servers\<rparr>,
        usStartedTargetVersion := previousVersion\<rparr>"

definition newUpgradeRecord ::
    "upgrade_status option \<Rightarrow> string \<Rightarrow> string \<Rightarrow> int \<Rightarrow> int \<Rightarrow> upgrade_status" where
  "newUpgradeRecord oheld previousVersion targetVersion servers now =
     (let fresh = freshUpgradeRecord previousVersion targetVersion servers now in
      case oheld of None \<Rightarrow> fresh
      | Some held \<Rightarrow>
        if \<not> sameHeldUpgrade oheld previousVersion then fresh
        else fresh
          \<lparr>usStartedTargetVersion :=
             (if usStartedTargetVersion held \<noteq> [] then usStartedTargetVersion held
              else if progressReleasedAServer held then usTargetVersion held
              else usStartedTargetVersion fresh),
           usStartTime := (case usStartTime held of None \<Rightarrow> usStartTime fresh | Some t \<Rightarrow> Some t),
           usProgress := (case usProgress held of None \<Rightarrow> usProgress fresh
                          | Some p \<Rightarrow> Some (p\<lparr>Total := servers\<rparr>)),
           usResolvedTargetVersion := usResolvedTargetVersion held,
           usLastError := (if usTargetVersion held = targetVersion then usLastError held
                           else usLastError fresh)\<rparr>)"

definition upgradeStartRetry :: int where "upgradeStartRetry = minute"

definition startRefusedRecently :: "upgrade_status option \<Rightarrow> string \<Rightarrow> int \<Rightarrow> bool" where
  "startRefusedRecently ous tag now =
     (case ous of None \<Rightarrow> False
      | Some us \<Rightarrow> usPhase us = upgradePhaseFailed \<and> usTargetVersion us = tag \<and>
          (case usStepStartTime us of None \<Rightarrow> False | Some t \<Rightarrow> now - t < upgradeStartRetry))"

text \<open>
  \<^verbatim>\<open>preUpgradeCheck\<close>: the argument is what Neo4j answered - the health check refused, or the
  servers SHOW SERVERS lists.
\<close>

datatype start_error =
    VersionIncompatible "tag_error list"
  | SafetyCheckFailed string
  | BelowAServer string string   \<comment> \<open>the version a server reports, the tag\<close>

definition preUpgradeCheck :: "cluster \<Rightarrow> string + server_info list \<Rightarrow> start_error option" where
  "preUpgradeCheck cl answer =
     (case answer of Inl err \<Rightarrow> Some (SafetyCheckFailed err)
      | Inr servers \<Rightarrow>
          let reported = highestReportedVersion servers None in
          if TagBelowReportedVersion reported (specImageTag cl)
          then Some (BelowAServer reported (specImageTag cl)) else None)"

subsection \<open>What a server started on\<close>

definition containerStartedOn :: "pod \<Rightarrow> string \<Rightarrow> bool" where
  "containerStartedOn p tag =
     (let img = (case find (\<lambda>c. fst c = Neo4jContainer) (rev (podContainers p)) of
                   None \<Rightarrow> [] | Some c \<Rightarrow> snd c) in
      if img = [] \<or> imageTag img \<noteq> tag then False
      else case find (\<lambda>s. csName s = Neo4jContainer) (podStatuses p) of None \<Rightarrow> False
           | Some s \<Rightarrow> csRunning s \<or> csTerminated s \<noteq> None \<or> csLastTerminated s \<noteq> None \<or>
                       csRestartCount s > 0)"

definition targetStartedOnAServer :: "pod list \<Rightarrow> string \<Rightarrow> bool" where
  "targetStartedOnAServer pods tag = list_ex (\<lambda>p. containerStartedOn p tag) pods"

subsection \<open>Messages and conditions\<close>

definition clusterReadyMessage :: "cluster \<Rightarrow> string" where
  "clusterReadyMessage cl =
     (let ready = ''Neo4j cluster is fully formed and ready'' in
      case stUpgradeStatus cl of None \<Rightarrow> ready
      | Some us \<Rightarrow>
        if usTargetVersion us = [] \<or> usTargetVersion us = stVersion cl then ready
        else if upgradeStateMachineActive cl then
          ready @ ''; its upgrade to '' @ usTargetVersion us @
          '' is in progress (status.upgradeStatus)''
        else if usPhase us = upgradePhasePaused then
          ready @ ''; its upgrade to '' @ usTargetVersion us @
          '' is paused (status.upgradeStatus): the servers it has not rolled keep the version they run until spec.image.tag changes or spec.upgradeStrategy.autoPauseOnFailure is set to false''
        else if usPhase us = upgradePhaseFailed then
          ready @ ''; its upgrade to '' @ usTargetVersion us @
          '' failed (status.upgradeStatus), and the operator takes it up again while every server is available''
        else ready)"

definition clusterShortUpgradeMessage :: "upgrade_status \<Rightarrow> string" where
  "clusterShortUpgradeMessage us =
     ''Neo4j cluster'' @ [CHR 39] @ ''s upgrade to '' @ usTargetVersion us @
     '' is in progress (status.upgradeStatus): the servers that could not start are replaced first, then the rest one at a time''"

definition stalledMessage :: "upgrade_status \<Rightarrow> string" where
  "stalledMessage us =
     (let paused = usPhase us = upgradePhasePaused;
          verb = (if paused then ''is paused'' else ''failed'');
          next_step = (if paused
            then ''set spec.image.tag to another target, or spec.upgradeStrategy.autoPauseOnFailure to false to retry it''
            else ''the operator retries it while every server is available; spec.image.tag set to another target goes on at once'')
      in if usLastError us \<noteq> []
         then ''Upgrade to '' @ usTargetVersion us @ '' '' @ verb @ '': '' @ usLastError us @
              '' (status.upgradeStatus.lastError); '' @ next_step
         else ''Upgrade to '' @ usTargetVersion us @ '' '' @ verb @ '' (status.upgradeStatus): '' @ next_step)"

text \<open>\<^verbatim>\<open>syncStalledCondition\<close>: the cluster with the condition written, at time \<open>now\<close>.\<close>

definition syncStalledCondition :: "int \<Rightarrow> cluster \<Rightarrow> cluster" where
  "syncStalledCondition now cl =
     (case stUpgradeStatus cl of
        Some us \<Rightarrow>
          if usPhase us = upgradePhaseFailed \<or> usPhase us = upgradePhasePaused
          then cl\<lparr>stConditions := fst (SetNamedCondition (stConditions cl) ConditionTypeStalled
                   (clGeneration cl) CondTrue
                   (if usPhase us = upgradePhasePaused then ConditionReasonUpgradePaused
                    else ConditionReasonUpgradeFailed) (stalledMessage us) now)\<rparr>
          else if findCondition (stConditions cl) ConditionTypeStalled = None then cl
          else cl\<lparr>stConditions := fst (SetNamedCondition (stConditions cl) ConditionTypeStalled
                   (clGeneration cl) CondFalse ConditionReasonUpgradeNotStopped
                   ''No upgrade is stopped'' now)\<rparr>
      | None \<Rightarrow>
          if findCondition (stConditions cl) ConditionTypeStalled = None then cl
          else cl\<lparr>stConditions := fst (SetNamedCondition (stConditions cl) ConditionTypeStalled
                   (clGeneration cl) CondFalse ConditionReasonUpgradeNotStopped
                   ''No upgrade is stopped'' now)\<rparr>)"

definition isTimedUpgradePhase :: "string \<Rightarrow> bool" where
  "isTimedUpgradePhase phase =
     (phase \<in> set [upgradePhaseStaging, upgradePhaseRolling, upgradePhaseStabilizing,
                   upgradePhaseVerifying])"

text \<open>The record with its phase's start, and the phase that ended with its duration.\<close>

definition stampUpgradePhaseTransition ::
    "upgrade_status \<Rightarrow> string \<Rightarrow> int option \<Rightarrow> int \<Rightarrow> upgrade_status \<times> (string \<times> int) option" where
  "stampUpgradePhaseTransition us prevPhase prevPhaseStart now =
     (if usPhase us = prevPhase then (us, None)
      else (us\<lparr>usPhaseStartTime := Some now\<rparr>,
            if \<not> isTimedUpgradePhase prevPhase then None
            else case prevPhaseStart of None \<Rightarrow> None
                 | Some t \<Rightarrow> Some (prevPhase, max 0 (now - t))))"

subsection \<open>Topology\<close>

definition noTopologyChangeWaits :: "condition option \<Rightarrow> condition_status \<times> string \<times> string" where
  "noTopologyChangeWaits ohave =
     (CondFalse, ConditionReasonNoTopologyChangeWaits,
      case ohave of None \<Rightarrow> ''No change of spec.topology.servers waits for an upgrade''
      | Some have \<Rightarrow>
          if cStatus have = CondFalse \<and> cMessage have \<noteq> [] then cMessage have
          else if cReason have = ConditionReasonWaitsForRemovedServers
          then ''No change of spec.topology.servers waits for the pods and volumes of removed servers''
          else ''No change of spec.topology.servers waits for an upgrade'')"

definition topologyDeferral :: "cluster \<Rightarrow> int \<Rightarrow> int \<Rightarrow> condition_status \<times> string \<times> string" where
  "topologyDeferral cl requested servers =
     (if requested = servers
      then noTopologyChangeWaits (findCondition (stConditions cl) ConditionTypeTopologyChangeDeferred)
      else let (target, phase) = (case stUpgradeStatus cl of None \<Rightarrow> ([], [])
                                  | Some us \<Rightarrow> (usTargetVersion us, usPhase us)) in
        (CondTrue, ConditionReasonWaitsForUpgrade,
         ''spec.topology.servers is '' @ itoa requested @ ''; the server StatefulSet keeps '' @
         itoa servers @ '' servers until the upgrade to '' @ target @ '' ('' @ phase @
         '', status.upgradeStatus) completes: a rolling upgrade changes no topology''))"

text \<open>
  \<^verbatim>\<open>holdTopologyWhileUpgradeHolds\<close> without the condition it writes: the pass's copy with the
  server count it works on, and whether it held.
\<close>

definition holdTopologyWhileUpgradeHolds :: "cluster \<Rightarrow> stateful_set api_read \<Rightarrow> cluster \<times> bool" where
  "holdTopologyWhileUpgradeHolds cl live =
     (case live of
        Found sts \<Rightarrow>
          (case stsReplicas sts of None \<Rightarrow> (cl, False)
           | Some servers \<Rightarrow>
               if specServers cl = servers \<or> keptUpgradePartition cl (Some sts) = 0 \<or>
                  scaleDownDrainInProgress cl
               then (cl, False) else (cl\<lparr>specServers := servers\<rparr>, True))
      | _ \<Rightarrow> (cl, False))"

subsection \<open>The stored record\<close>

definition samePartition :: "int option \<Rightarrow> int option \<Rightarrow> bool" where
  "samePartition a b = ((a = None) = (b = None) \<and> (a = None \<or> the a = the b))"

text \<open>\<^verbatim>\<open>upgradeRecordMovedOn\<close>: whether the step waits; \<open>stored\<close> is the uncached read.\<close>

definition upgradeRecordMovedOn :: "cluster \<Rightarrow> cluster api_read \<Rightarrow> bool" where
  "upgradeRecordMovedOn cl stored =
     (case stored of
        Found st \<Rightarrow>
          (case (stUpgradeStatus st, stUpgradeStatus cl) of
             (None, _) \<Rightarrow> True
           | (Some want, None) \<Rightarrow> True
           | (Some want, Some have) \<Rightarrow>
               usPhase want \<noteq> usPhase have \<or> usTargetVersion want \<noteq> usTargetVersion have \<or>
               \<not> samePartition (usCurrentPartition want) (usCurrentPartition have))
      | _ \<Rightarrow> True)"

subsection \<open>The image in place\<close>

definition recreateRestorePartitionAnnotation :: string where
  "recreateRestorePartitionAnnotation = ''neo4j.com/recreate-restore-partition''"

definition recreateRestoreRevisionAnnotation :: string where
  "recreateRestoreRevisionAnnotation = ''neo4j.com/recreate-restore-revision''"

text \<open>\<open>None\<close>: nothing is pending; \<open>Some p\<close>: pending, with the partition to write back.\<close>

definition restorePending :: "stateful_set \<Rightarrow> int option option" where
  "restorePending sts =
     (case stsAnnotations sts recreateRestorePartitionAnnotation of None \<Rightarrow> None
      | Some raw \<Rightarrow>
          (case parse_int 32 raw of None \<Rightarrow> Some None
           | Some p \<Rightarrow> if p < 0 then Some None else Some (Some p)))"

record imageInPlace =
  ipImage :: string
  ipReady :: int

fun place_from_pods :: "string \<Rightarrow> pod list \<Rightarrow> int \<Rightarrow> imageInPlace \<Rightarrow> imageInPlace" where
  "place_from_pods sts [] highest place = place"
| "place_from_pods sts (p # ps) highest place =
     (case statefulSetOrdinal sts (podName p) of
        None \<Rightarrow> place_from_pods sts ps highest place
      | Some ordinal \<Rightarrow>
          if podDeleting p then place_from_pods sts ps highest place
          else let place = (if isPodReady p then place\<lparr>ipReady := ipReady place + 1\<rparr> else place) in
            if ordinal < highest then place_from_pods sts ps highest place
            else (case find (\<lambda>c. fst c = Neo4jContainer) (rev (podContainers p)) of
                    None \<Rightarrow> place_from_pods sts ps highest place
                  | Some c \<Rightarrow> place_from_pods sts ps ordinal (place\<lparr>ipImage := snd c\<rparr>)))"

definition serverImageInPlace ::
    "cluster \<Rightarrow> stateful_set api_read \<Rightarrow> pod list option \<Rightarrow> imageInPlace option" where
  "serverImageInPlace cl live pods =
     (let from_pods = (case pods of None \<Rightarrow> None
          | Some ps \<Rightarrow>
              let place = place_from_pods (serverStsName cl) ps (-1) \<lparr>ipImage = [], ipReady = 0\<rparr>
              in if ipImage place \<noteq> [] then Some place else None)
      in case live of
           Found sts \<Rightarrow>
             if restorePending sts = None
             then (if stsContainers sts = [] then None
                   else Some \<lparr>ipImage = snd (hd (stsContainers sts)), ipReady = stsReadyReplicas sts\<rparr>)
             else from_pods
         | NotFound \<Rightarrow> from_pods
         | ReadFailed \<Rightarrow> None)"

record heldImageChange =
  hcImage :: string
  hcCause :: string
  hcAnnounced :: bool

definition holdCauseNotReady :: string where "holdCauseNotReady = ''not-ready''"

text \<open>
  The entry of \<^verbatim>\<open>deferredUpgradeTargets\<close> after the pass, and whether it emits UpgradeDeferred.
\<close>

definition announceHeldImageChange ::
    "cluster \<Rightarrow> string \<Rightarrow> heldImageChange option \<Rightarrow> heldImageChange option \<times> bool" where
  "announceHeldImageChange cl desiredImage entry =
     (if upgradeHeld cl \<and> map_option usTargetVersion (stUpgradeStatus cl) = Some (specImageTag cl)
      then (Some \<lparr>hcImage = desiredImage, hcCause = holdCauseNotReady, hcAnnounced = True\<rparr>, False)
      else let held = (case entry of None \<Rightarrow> \<lparr>hcImage = [], hcCause = [], hcAnnounced = False\<rparr>
                       | Some h \<Rightarrow> h) in
        if hcImage held \<noteq> desiredImage \<or> hcCause held \<noteq> holdCauseNotReady
        then (Some \<lparr>hcImage = desiredImage, hcCause = holdCauseNotReady, hcAnnounced = False\<rparr>, False)
        else if \<not> hcAnnounced held
        then (Some \<lparr>hcImage = desiredImage, hcCause = holdCauseNotReady, hcAnnounced = True\<rparr>, True)
        else (entry, False))"

definition holdImageDriftUntilReady ::
    "cluster \<Rightarrow> stateful_set api_read \<Rightarrow> pod list option \<Rightarrow> heldImageChange option \<Rightarrow>
     cluster \<times> heldImageChange option \<times> bool" where
  "holdImageDriftUntilReady cl live pods entry =
     (case serverImageInPlace cl live pods of None \<Rightarrow> (cl, entry, False)
      | Some place \<Rightarrow>
          if ipImage place = specImage cl then (cl, entry, False)
          else if ipReady place = 0 then (cl, entry, False)
          else (case splitImage (ipImage place) of None \<Rightarrow> (cl, entry, False)
            | Some (repo, tag) \<Rightarrow>
                let (entry', event) = announceHeldImageChange cl (specImage cl) entry
                in (cl\<lparr>specImageRepo := repo, specImageTag := tag\<rparr>, entry', event)))"

subsection \<open>The versions a Ready pass records\<close>

definition firstNonEmpty :: "string list \<Rightarrow> string" where
  "firstNonEmpty vs = (case find (\<lambda>v. v \<noteq> []) vs of None \<Rightarrow> [] | Some v \<Rightarrow> v)"

definition address_in :: "string \<Rightarrow> int \<Rightarrow> int \<Rightarrow> server_info \<Rightarrow> bool" where
  "address_in cname lo hi s =
     list_ex (\<lambda>i. addressIsPod (srvAddress s) (serverPodName cname i)) [lo..hi - 1]"

definition heldTargetServerVersion :: "cluster \<Rightarrow> stateful_set option \<Rightarrow> server_info list \<Rightarrow> string" where
  "heldTargetServerVersion cl osts servers =
     (case (osts, stUpgradeStatus cl) of
        (Some sts, Some us) \<Rightarrow>
          if \<not> upgradeHeld cl \<or> stsContainers sts = [] then []
          else if \<not> tagFloats (usTargetVersion us) \<or>
                  imageTag (snd (hd (stsContainers sts))) \<noteq> usTargetVersion us then []
          else let replicas = sts_replicas sts;
                   part = (case stsPartition sts of None \<Rightarrow> 0
                                | Some p \<Rightarrow> if p > 0 then p else 0) in
            if part \<ge> replicas then []
            else highestReportedVersion servers (Some (address_in (clName cl) part replicas))
      | _ \<Rightarrow> [])"

record statusRecord =
  recVersion :: string
  recRunningVersion :: "string option"
  recResolvedTargetVersion :: "string option"

definition reportedVersionsToRecord ::
    "cluster \<Rightarrow> stateful_set option \<Rightarrow> server_info list \<Rightarrow> statusRecord" where
  "reportedVersionsToRecord cl osts servers =
     (let version = (case osts of None \<Rightarrow> [] | Some sts \<Rightarrow> clusterVersionToRecord cl (rolledImageTag sts));
          tag = firstNonEmpty [version, stVersion cl];
          running = (\<lambda>reported. case runningVersionFor tag reported of (r, ok) \<Rightarrow>
                       if ok then Some r else None)
      in if \<not> upgradeHeld cl \<or>
            (case osts of None \<Rightarrow> False | Some sts \<Rightarrow> \<not> upgradeStaged (stUpgradeStatus cl) sts)
         then \<lparr>recVersion = version,
               recRunningVersion = running (highestReportedVersion servers None),
               recResolvedTargetVersion = None\<rparr>
         else case (osts, stUpgradeStatus cl) of
           (Some sts, Some us) \<Rightarrow>
             let part = keptUpgradePartition cl osts;
                 resolved = resolvedTargetVersionFor us (heldTargetServerVersion cl osts servers) in
             \<lparr>recVersion = version,
              recRunningVersion = (if part > 0
                then running (highestReportedVersion servers (Some (address_in (clName cl) 0 part)))
                else None),
              recResolvedTargetVersion = (if snd resolved then Some (fst resolved) else None)\<rparr>
         | _ \<Rightarrow> \<lparr>recVersion = version, recRunningVersion = None, recResolvedTargetVersion = None\<rparr>)"

subsection \<open>Writing the server StatefulSet\<close>

text \<open>
  What \<^verbatim>\<open>src/internal/resources/cluster.go\<close> renders, on the fields modelled: the replica count
  of the spec, no partition, and one container, which runs the spec's image.

  The update branch of \<^verbatim>\<open>createOrUpdateResourceInternal\<close> on the fields modelled: replica
  count, partition and containers. Whether a template that carries the same images differs
  in something else (environment, volumes, probes) is \<open>other_change\<close>; a change of image is
  always significant (\<^verbatim>\<open>hasCriticalTemplateChanges\<close>).
\<close>

definition buildServerStatefulSet :: "cluster \<Rightarrow> stateful_set" where
  "buildServerStatefulSet cl =
     \<lparr>stsName = serverStsName cl, stsGeneration = 0, stsAnnotations = Map.empty,
      stsReplicas = Some (specServers cl), stsPartition = None,
      stsContainers = [(Neo4jContainer, specImage cl)], stsObservedGeneration = 0,
      stsUpdatedReplicas = 0, stsReadyReplicas = 0, stsCurrentRevision = [],
      stsUpdateRevision = []\<rparr>"

definition significant_change :: "stateful_set \<Rightarrow> stateful_set \<Rightarrow> bool \<Rightarrow> bool" where
  "significant_change live desired other_change =
     (map snd (stsContainers live) \<noteq> map snd (stsContainers desired) \<or> other_change)"

definition kept_partition :: "int option \<Rightarrow> int option \<Rightarrow> int option" where
  "kept_partition stored new =
     (if (case stored of None \<Rightarrow> 0 | Some p \<Rightarrow> p) = (case new of None \<Rightarrow> 0 | Some p \<Rightarrow> p)
      then stored else new)"

text \<open>
  The second step of a StatefulSet created again in two steps, on the fields modelled. \<open>held\<close> is
  the template found to write back, from memory with the annotations of the deleted StatefulSet,
  or from the recorded revision with none: how it is found is \<open>restoreHeldTemplate\<close> of theory
  Recreate.
\<close>

type_synonym held_template = "((string \<times> string) list \<times> (string \<rightharpoonup> string)) option"

definition restore_held :: "held_template \<Rightarrow> stateful_set \<Rightarrow> stateful_set" where
  "restore_held held live =
     (if stsObservedGeneration live < stsGeneration live \<or> stsCurrentRevision live = [] then live
      else let annotations = (stsAnnotations live)(recreateRestorePartitionAnnotation := None,
                                                   recreateRestoreRevisionAnnotation := None)
           in case (restorePending live, held) of
                (Some (Some p), Some (containers, remembered)) \<Rightarrow>
                  live\<lparr>stsAnnotations := remembered ++ annotations, stsContainers := containers,
                       stsPartition := Some p\<rparr>
              | _ \<Rightarrow> live\<lparr>stsAnnotations := annotations\<rparr>)"

definition applyServerStatefulSet ::
    "cluster \<Rightarrow> bool \<Rightarrow> held_template \<Rightarrow> stateful_set \<Rightarrow> stateful_set \<Rightarrow> stateful_set" where
  "applyServerStatefulSet owner other_change held desired live =
     (if restorePending live \<noteq> None then restore_held held live
      else live\<lparr>stsReplicas := (if \<not> replicasReconciliationPaused owner \<and> \<not> scaleDownDrainInProgress owner
                         then stsReplicas desired else stsReplicas live),
          stsPartition := kept_partition (stsPartition live)
            (if (upgradeStateMachineActive owner \<or> upgradeHeld owner) \<and> stsPartition live \<noteq> None \<and>
                stsPartition desired = None then stsPartition live else stsPartition desired),
          stsContainers := (if significant_change live desired other_change
                            then stsContainers desired else stsContainers live)\<rparr>)"

lemma restore_held_replicas [simp]: "stsReplicas (restore_held held live) = stsReplicas live"
  by (simp add: restore_held_def Let_def split: option.splits prod.splits)

section \<open>A stopped upgrade holds its servers\<close>

text \<open>The partition Kubernetes acts on.\<close>

definition eff_partition :: "stateful_set \<Rightarrow> int" where
  "eff_partition sts = (case stsPartition sts of None \<Rightarrow> 0 | Some p \<Rightarrow> p)"

lemma kept_partition_eff [simp]:
  "(case kept_partition a b of None \<Rightarrow> 0 | Some p \<Rightarrow> p) = (case b of None \<Rightarrow> 0 | Some p \<Rightarrow> (p::int))"
  by (auto simp: kept_partition_def split: option.splits)

lemma kept_partition_same [simp]: "kept_partition a a = a"
  by (simp add: kept_partition_def)

lemma splitImage_join: "splitImage img = Some (repo, tag) \<Longrightarrow> repo @ CHR '':'' # tag = img"
proof -
  assume s: "splitImage img = Some (repo, tag)"
  define name where "name = (case str_index img ''@'' of None \<Rightarrow> img | Some a \<Rightarrow> take a img)"
  define digest where "digest = (case str_index img ''@'' of None \<Rightarrow> [] | Some a \<Rightarrow> drop a img)"
  have img: "name @ digest = img"
    by (auto simp: name_def digest_def split: option.splits)
  from s obtain i where i: "last_index name CHR '':'' = Some i"
    and r: "repo = take i name" and t: "tag = drop (i + 1) name @ digest"
    by (auto simp: splitImage_def Let_def name_def digest_def split: option.splits if_splits)
  have "i < length name \<and> name ! i = CHR '':''"
    using i by (rule last_index_nth)
  then have "take i name @ CHR '':'' # drop (i + 1) name = name"
    by (metis Suc_eq_plus1 id_take_nth_drop)
  then show ?thesis using img r t by auto
qed

text \<open>After the hold the pass works on the image in place, unless no server is ready.\<close>

lemma holdImage_specImage:
  assumes "serverImageInPlace cl live pods = Some place" "ipReady place \<noteq> 0"
    and "splitImage (ipImage place) \<noteq> None"
  shows "specImage (fst (holdImageDriftUntilReady cl live pods entry)) = ipImage place"
  using assms
  by (auto simp: holdImageDriftUntilReady_def specImage_def split: prod.splits
      intro: splitImage_join)

lemma holdImage_keeps [keeps]:
  "specServers (fst (holdImageDriftUntilReady cl live pods entry)) = specServers cl"
  "clAnnotations (fst (holdImageDriftUntilReady cl live pods entry)) = clAnnotations cl"
  "stUpgradeStatus (fst (holdImageDriftUntilReady cl live pods entry)) = stUpgradeStatus cl"
  by (auto simp: holdImageDriftUntilReady_def split: option.splits prod.splits)

lemma held_by_status:
  "stUpgradeStatus a = stUpgradeStatus b \<Longrightarrow> upgradeHeld a = upgradeHeld b"
  "stUpgradeStatus a = stUpgradeStatus b \<Longrightarrow>
     upgradeStateMachineActive a = upgradeStateMachineActive b"
  by (simp_all add: upgradeHeld_def upgradeStateMachineActive_def)

text \<open>A StatefulSet of three ready servers at a partition, for concrete inputs.\<close>

definition sts3 :: "string \<Rightarrow> int \<Rightarrow> stateful_set" where
  "sts3 img part = \<lparr>stsName = ''c-server'', stsGeneration = 2, stsAnnotations = Map.empty,
     stsReplicas = Some 3, stsPartition = Some part, stsContainers = [(Neo4jContainer, img)],
     stsObservedGeneration = 2, stsUpdatedReplicas = 3 - part, stsReadyReplicas = 3,
     stsCurrentRevision = ''r1'', stsUpdateRevision = ''r2''\<rparr>"

definition paused_cluster :: cluster where
  "paused_cluster = (new_cluster ''c'' ''neo4j'' ''2026.09.0-enterprise'' 5)
     \<lparr>stPhase := PhaseReady, stVersion := ''2026.07.0-enterprise'',
      stUpgradeStatus := Some (empty_upgrade_status
        \<lparr>usPhase := upgradePhasePaused, usTargetVersion := ''2026.08.0-enterprise'',
         usPreviousVersion := ''2026.07.0-enterprise'',
         usStartedTargetVersion := ''2026.08.0-enterprise'', usCurrentPartition := Some 2\<rparr>)\<rparr>"


section \<open>A retry never lowers the version floor\<close>

lemma newUpgradeRecord_fields [simp]:
  "usTargetVersion (newUpgradeRecord h prev target n now) = target"
  "usPreviousVersion (newUpgradeRecord h prev target n now) = prev"
  "usPhase (newUpgradeRecord h prev target n now) = upgradePhaseStaging"
  "usStepStartTime (newUpgradeRecord h prev target n now) = Some now"
  "usCurrentPartition (newUpgradeRecord h prev target n now) = None"
  by (auto simp: newUpgradeRecord_def freshUpgradeRecord_def Let_def empty_upgrade_status_def
      split: option.splits)

lemma upgradeFloor_new:
  assumes "sameHeldUpgrade (Some held) prev" "upgradeUnfinished (Some held)" "upgradeFloor held \<noteq> []"
  shows "upgradeFloor (newUpgradeRecord (Some held) prev target n now) = upgradeFloor held \<and>
    usResolvedTargetVersion (newUpgradeRecord (Some held) prev target n now) =
      usResolvedTargetVersion held"
  using assms
  by (auto simp: upgradeFloor_def newUpgradeRecord_def Let_def upgradeRestartedAServer_def
      progressReleasedAServer_def split: option.splits if_splits)

text \<open>
  The record a retry or a retarget of a stopped upgrade starts with admits no tag the
  stopped upgrade's record refused: what its servers started on, and what its target
  resolved to, are never forgotten.
\<close>

theorem retry_keeps_the_version_floor:
  assumes "sameHeldUpgrade (Some held) prev" "target \<noteq> []"
    and "upgrade_admits (Some (newUpgradeRecord (Some held) prev target n now)) tag"
  shows "upgrade_admits (Some held) tag"
proof (cases "upgradeUnfinished (Some held) \<and> upgradeFloor held \<noteq> []")
  case True
  let ?new = "newUpgradeRecord (Some held) prev target n now"
  have "upgradeFloor ?new = upgradeFloor held"
    "usResolvedTargetVersion ?new = usResolvedTargetVersion held"
    using upgradeFloor_new assms(1) True by blast+
  moreover have "upgradeUnfinished (Some ?new)"
    using assms(2) by (simp add: upgradeUnfinished_def upgrade_phases)
  moreover have "usPreviousVersion held = prev"
    using assms(1) by (simp add: sameHeldUpgrade_def)
  ultimately show ?thesis
    using assms(3) True by (simp add: upgrade_admits_def)
qed (auto simp: upgrade_admits_def)

theorem retry_keeps_the_version_floor_witness:
  "\<exists>held. stUpgradeStatus paused_cluster = Some held \<and>
     upgrade_admits (Some held) ''2026.09.0-enterprise'' \<and>
     \<not> upgrade_admits (Some held) ''2026.07.1-enterprise''"
proof -
  let ?held = "the (stUpgradeStatus paused_cluster)"
  have h: "sameHeldUpgrade (Some ?held) ''2026.07.0-enterprise''" by code_simp
  have a: "upgrade_admits (Some (newUpgradeRecord (Some ?held) ''2026.07.0-enterprise''
      ''2026.09.0-enterprise'' 3 0)) ''2026.09.0-enterprise''" by code_simp
  have r: "\<not> upgrade_admits (Some ?held) ''2026.07.1-enterprise''" by code_simp
  have "stUpgradeStatus paused_cluster = Some ?held" by code_simp
  then show ?thesis
    using retry_keeps_the_version_floor [OF h _ a] r by blast
qed


section \<open>The Stalled condition\<close>

lemma syncStalled_keeps [keeps]:
  "stUpgradeStatus (syncStalledCondition now cl) = stUpgradeStatus cl"
  "clGeneration (syncStalledCondition now cl) = clGeneration cl"
  "stVersion (syncStalledCondition now cl) = stVersion cl"
  "stRunningVersion (syncStalledCondition now cl) = stRunningVersion cl"
  "stPhase (syncStalledCondition now cl) = stPhase cl"
  "specImageTag (syncStalledCondition now cl) = specImageTag cl"
  "clAnnotations (syncStalledCondition now cl) = clAnnotations cl"
  by (auto simp: syncStalledCondition_def split: option.splits)

text \<open>Stalled is True in the conditions of a cluster.\<close>

definition stalled :: "cluster \<Rightarrow> bool" where
  "stalled cl = (\<exists>c. findCondition (stConditions cl) ConditionTypeStalled = Some c \<and> cStatus c = CondTrue)"

lemma stalled_SetNamed:
  "stalled (cl\<lparr>stConditions := fst (SetNamedCondition cs ConditionTypeStalled g s r m n)\<rparr>) \<longleftrightarrow> s = CondTrue"
  using findCondition_SetNamed [of cs ConditionTypeStalled g s r m n] by (auto simp: stalled_def)

lemma stalled_absent: "findCondition (stConditions cl) ConditionTypeStalled = None \<Longrightarrow> \<not> stalled cl"
  by (simp add: stalled_def)

lemma stalled_sync: "stalled (syncStalledCondition now cl) \<longleftrightarrow> upgradeHeld cl"
  by (auto simp: syncStalledCondition_def upgradeHeld_def stalled_SetNamed stalled_absent
      split: option.splits)

text \<open>The condition names the cause of the stop.\<close>

lemma stalled_sync_message:
  assumes "upgradeHeld cl" "stUpgradeStatus cl = Some us"
  shows "\<exists>c. findCondition (stConditions (syncStalledCondition now cl)) ConditionTypeStalled = Some c \<and>
    cStatus c = CondTrue \<and> cMessage c = stalledMessage us"
  using assms findCondition_SetNamed [of "stConditions cl" ConditionTypeStalled]
  by (fastforce simp: upgradeHeld_def syncStalledCondition_def)

interpretation stalled_condition: condition_writer
  "\<lambda>(now, cl) cs. stConditions (syncStalledCondition now (cl\<lparr>stConditions := cs\<rparr>))"
  ConditionTypeStalled
  by unfold_locales
    (auto simp: syncStalledCondition_def findCondition_SetNamed_other wf_SetNamedCondition
      split: option.splits)


section \<open>A deferred image change is announced once\<close>

text \<open>The events of a run of passes that hold image changes, one image each.\<close>

fun announcements :: "cluster \<Rightarrow> string list \<Rightarrow> heldImageChange option \<Rightarrow> bool list" where
  "announcements cl [] entry = []"
| "announcements cl (img # imgs) entry =
     (let (entry', event) = announceHeldImageChange cl img entry
      in event # announcements cl imgs entry')"

lemma announced_stays_silent:
  "hcImage h = img \<Longrightarrow> hcCause h = holdCauseNotReady \<Longrightarrow> hcAnnounced h \<Longrightarrow>
   announcements cl (replicate n img) (Some h) = replicate n False"
proof (induction n arbitrary: h)
  case (Suc n)
  then show ?case
    by (cases "upgradeHeld cl \<and> map_option usTargetVersion (stUpgradeStatus cl) = Some (specImageTag cl)")
      (auto simp: announceHeldImageChange_def Let_def)
qed simp

lemma announced_after_store:
  "announcements cl (replicate n img) (Some \<lparr>hcImage = img, hcCause = holdCauseNotReady, hcAnnounced = False\<rparr>)
   \<in> {replicate n False} \<union> (\<lambda>k. True # replicate k False) ` {k. Suc k = n}"
proof (cases n)
  case (Suc k)
  then show ?thesis
    by (cases "upgradeHeld cl \<and> map_option usTargetVersion (stUpgradeStatus cl) = Some (specImageTag cl)")
      (auto simp: announceHeldImageChange_def Let_def announced_stays_silent)
qed simp

text \<open>
  However many passes hold the same image change back, at most one of them emits
  UpgradeDeferred, whatever was remembered before.
\<close>

theorem held_image_announced_at_most_once:
  "length (filter id (announcements cl (replicate n img) entry)) \<le> 1"
proof (cases n)
  case (Suc k)
  obtain entry' ev where e: "announceHeldImageChange cl img entry = (entry', ev)"
    by (cases "announceHeldImageChange cl img entry")
  then consider "ev" "\<exists>h. entry' = Some h \<and> hcImage h = img \<and> hcCause h = holdCauseNotReady \<and> hcAnnounced h"
    | "\<not> ev" "entry' = Some \<lparr>hcImage = img, hcCause = holdCauseNotReady, hcAnnounced = False\<rparr>"
    | "\<not> ev" "\<exists>h. entry' = Some h \<and> hcImage h = img \<and> hcCause h = holdCauseNotReady \<and> hcAnnounced h"
    by (auto simp: announceHeldImageChange_def Let_def holdCauseNotReady_def
        split: if_splits option.splits)
  then show ?thesis
  proof cases
    case 2
    then show ?thesis
      using announced_after_store [of cl k img] Suc e by (auto simp: filter_replicate)
  qed (use Suc e in \<open>auto simp: announced_stays_silent filter_replicate\<close>)
qed simp

end
