(* ===== verification/Upgrade_Staging.thy ===== *)
theory Upgrade_Staging
  imports Upgrade_Hold
begin

text \<open>
  Where Staging freezes a new target, and which servers are replaced first:
  \<^verbatim>\<open>src/internal/controller/upgrade_repair.go\<close>, \<^verbatim>\<open>upgrade_retarget.go\<close>,
  \<^verbatim>\<open>stuck_server_pods.go\<close>, \<^verbatim>\<open>stagingPartition\<close> of \<^verbatim>\<open>rolling_upgrade_statemachine.go\<close> and
  the pod checks of \<^verbatim>\<open>plugin_target_gate.go\<close>; \<^verbatim>\<open>isUpgradeRequired\<close>, which reads them. A set
  kept as a Go map is a list of its members.
\<close>

section \<open>The model\<close>

subsection \<open>Pods that cannot start\<close>

text \<open>The exit code of the failed run, \<open>None\<close> when the container has not failed.\<close>

definition failed_run :: "container_status \<Rightarrow> int option" where
  "failed_run s =
     (case csTerminated s of
        Some code \<Rightarrow> if code \<noteq> 0 then Some code else None
      | None \<Rightarrow> (case csLastTerminated s of None \<Rightarrow> None
                 | Some code \<Rightarrow> if code \<noteq> 0 then Some code else None))"

definition initContainerFailure :: "pod \<Rightarrow> string \<Rightarrow> int option" where
  "initContainerFailure p name =
     (case find (\<lambda>s. csName s = name) (podInitStatuses p) of None \<Rightarrow> None | Some s \<Rightarrow> failed_run s)"

definition containerFailure :: "container_status list \<Rightarrow> string \<Rightarrow> int option" where
  "containerFailure statuses name =
     (case find (\<lambda>s. \<not> (csName s \<noteq> name \<or> csReady s)) statuses of None \<Rightarrow> None
      | Some s \<Rightarrow> failed_run s)"

definition containerCrashLooping :: "pod \<Rightarrow> string \<Rightarrow> int option" where
  "containerCrashLooping p name =
     (case find (\<lambda>s. \<not> (csName s \<noteq> name \<or> csRunning s)) (podStatuses p) of None \<Rightarrow> None
      | Some s \<Rightarrow> containerFailure [s] name)"

definition failingPod :: "string \<Rightarrow> string \<Rightarrow> int \<Rightarrow> string" where
  "failingPod pod container code =
     pod @ '' ('' @ container @ '' exited with code '' @ itoa code @ '')''"

definition imagePullFailures :: "string list" where
  "imagePullFailures = [''ErrImagePull'', ''ImagePullBackOff'', ''InvalidImageName'']"

definition pull_failure :: "container_status \<Rightarrow> bool" where
  "pull_failure s = (case csWaiting s of None \<Rightarrow> False | Some reason \<Rightarrow> reason \<in> set imagePullFailures)"

definition podCannotStart :: "pod \<Rightarrow> string option" where
  "podCannotStart p =
     (case find pull_failure (podInitStatuses p @ podStatuses p) of
        Some s \<Rightarrow> Some (podName p @ '' (container '' @ csName s @ '': '' @ the (csWaiting s) @ '')'')
      | None \<Rightarrow>
        (case containerCrashLooping p Neo4jContainer of
           Some code \<Rightarrow> Some (failingPod (podName p) (''container '' @ Neo4jContainer) code)
         | None \<Rightarrow>
           (case find (\<lambda>s. initContainerFailure p (csName s) \<noteq> None) (podInitStatuses p) of
              None \<Rightarrow> None
            | Some s \<Rightarrow> Some (failingPod (podName p) (''init container '' @ csName s)
                               (the (initContainerFailure p (csName s)))))))"

definition podServerImage :: "pod \<Rightarrow> string" where
  "podServerImage p =
     (case find (\<lambda>c. fst c = Neo4jContainer) (podContainers p) of None \<Rightarrow> [] | Some c \<Rightarrow> snd c)"

subsection \<open>The pods that are down\<close>

text \<open>The pod of an ordinal: the last one listed, as a map filled in order keeps it.\<close>

definition pod_at :: "string \<Rightarrow> pod list \<Rightarrow> int \<Rightarrow> pod option" where
  "pod_at sts pods ordinal = find (\<lambda>p. statefulSetOrdinal sts (podName p) = Some ordinal) (rev pods)"

text \<open>
  The loop of \<^verbatim>\<open>podsDownOnlyIn\<close> from the highest ordinal down; \<open>n\<close> ordinals are left. The
  early returns with nothing are \<open>None\<close>.
\<close>

fun pods_down_loop ::
    "(int \<Rightarrow> pod option) \<Rightarrow> (pod \<Rightarrow> string option) \<Rightarrow> int \<Rightarrow> nat \<Rightarrow> bool \<Rightarrow>
     string list \<Rightarrow> string list \<Rightarrow> (string list \<times> string list) option" where
  "pods_down_loop at failure part 0 upAbove failing down = Some (failing, down)"
| "pods_down_loop at failure part (Suc n) upAbove failing down =
     (case at (int n) of None \<Rightarrow> None
      | Some p \<Rightarrow>
          if podDeleting p then None
          else if isPodReady p then pods_down_loop at failure part n True failing down
          else (case failure p of None \<Rightarrow> None
            | Some described \<Rightarrow>
                if upAbove \<or> int n < part then None
                else pods_down_loop at failure part n upAbove (failing @ [described]) (down @ [podName p])))"

definition podsDownOnlyIn ::
    "stateful_set \<Rightarrow> pod list \<Rightarrow> (pod \<Rightarrow> string option) \<Rightarrow> string list \<times> string list" where
  "podsDownOnlyIn sts pods failure =
     (case pods_down_loop (pod_at (stsName sts) pods) failure (eff_partition sts)
             (nat (sts_replicas sts)) False [] [] of
        None \<Rightarrow> ([], []) | Some r \<Rightarrow> r)"

text \<open>\<^verbatim>\<open>net.SplitHostPort\<close>: the host; \<open>None\<close> is its error.\<close>

definition split_host_port :: "string \<Rightarrow> string option" where
  "split_host_port s =
     (case last_index s CHR '':'' of None \<Rightarrow> None
      | Some i \<Rightarrow>
          if s \<noteq> [] \<and> hd s = CHR ''['' then
            (case str_index s '']'' of None \<Rightarrow> None
             | Some e \<Rightarrow>
                 if e + 1 \<noteq> i then None
                 else if CHR ''['' \<in> set (drop 1 s) \<or> CHR '']'' \<in> set (drop (e + 1) s) then None
                 else Some (drop 1 (take e s)))
          else let host = take i s in
            if CHR '':'' \<in> set host \<or> CHR ''['' \<in> set s \<or> CHR '']'' \<in> set s then None
            else Some host)"

definition unavailableServerOutside :: "cluster \<Rightarrow> string list \<Rightarrow> string" where
  "unavailableServerOutside cl down =
     (case stDiagnostics cl of None \<Rightarrow> []
      | Some servers \<Rightarrow>
          let outside = (\<lambda>s. diagHealth s \<noteq> ''Available'' \<and>
                (let host = (case split_host_port (diagAddress s) of None \<Rightarrow> diagAddress s | Some h \<Rightarrow> h);
                     pod = cut_at CHR ''.'' host
                 in pod = [] \<or> pod \<notin> set down))
          in (case find outside servers of None \<Rightarrow> []
              | Some s \<Rightarrow> diagName s @ '' ('' @ diagAddress s @ '', '' @ diagHealth s @ '')''))"

record serversDown =
  sdPartition :: int
  sdFailing :: "string list"
  sdImages :: "string list"
  sdPods :: "string list"

definition lowest_ordinal :: "string \<Rightarrow> string list \<Rightarrow> int \<Rightarrow> int" where
  "lowest_ordinal sts names bound =
     fold (\<lambda>name low. case statefulSetOrdinal sts name of None \<Rightarrow> low | Some o' \<Rightarrow> min o' low) names bound"

definition serversDownIn :: "cluster \<Rightarrow> stateful_set \<Rightarrow> pod list \<Rightarrow> serversDown option" where
  "serversDownIn cl sts pods =
     (let replicas = sts_replicas sts; part = eff_partition sts in
      if part \<le> 0 then None
      else let frozen = (part \<ge> replicas);
               view = (if frozen then sts\<lparr>stsPartition := Some 0\<rparr> else sts);
               (failing, down) = podsDownOnlyIn view pods podCannotStart in
        if down = [] then None
        else let images = map podServerImage (filter (\<lambda>p. podName p \<in> set down) pods);
                 upImages = map podServerImage (filter (\<lambda>p. podName p \<notin> set down \<and> isPodReady p) pods) in
          if frozen \<and> list_ex (\<lambda>i. i \<in> set upImages) images then None
          else if unavailableServerOutside cl down \<noteq> [] then None
          else Some \<lparr>sdPartition = lowest_ordinal (stsName sts) down replicas, sdFailing = failing,
                     sdImages = images, sdPods = down\<rparr>)"

text \<open>\<open>pods\<close> is the cached list, \<open>None\<close> when it cannot be read (\<^verbatim>\<open>serversDownOnTarget\<close>).\<close>

definition serversDownOnTarget :: "cluster \<Rightarrow> stateful_set \<Rightarrow> pod list option \<Rightarrow> serversDown option" where
  "serversDownOnTarget cl sts pods =
     (case pods of None \<Rightarrow> None | Some ps \<Rightarrow> serversDownIn cl sts ps)"

definition heldUpgradeRepair ::
    "cluster \<Rightarrow> stateful_set api_read \<Rightarrow> pod list option \<Rightarrow> serversDown option" where
  "heldUpgradeRepair cl live pods =
     (if \<not> upgradeHeld cl \<or> \<not> clusterHasFormed cl \<or> upgradeWaitsForUser cl then None
      else case live of
        Found sts \<Rightarrow>
          if stsContainers sts = [] then None
          else (case serversDownOnTarget cl sts pods of None \<Rightarrow> None
            | Some down \<Rightarrow> if specImage cl \<in> set (sdImages down) then None else Some down)
      | _ \<Rightarrow> None)"

definition stuckServerPods :: "stateful_set \<Rightarrow> pod list \<Rightarrow> (pod \<times> string) list" where
  "stuckServerPods live pods =
     (case stsReplicas live of None \<Rightarrow> []
      | Some replicas \<Rightarrow>
          if stsUpdateRevision live = [] \<or> stsObservedGeneration live < stsGeneration live then []
          else concat (map (\<lambda>ordinal. List.map_filter (\<lambda>p.
                 if statefulSetOrdinal (stsName live) (podName p) \<noteq> Some ordinal then None
                 else if podRevision p = [] \<or> podRevision p = stsUpdateRevision live \<or>
                         podDeleting p \<or> isPodReady p then None
                 else map_option (\<lambda>d. (p, d)) (podCannotStart p)) pods)
               [eff_partition live..replicas - 1]))"

subsection \<open>The partition Staging writes\<close>

definition stagingPartition :: "stateful_set \<Rightarrow> stateful_set \<Rightarrow> int \<Rightarrow> int" where
  "stagingPartition live desired replicas =
     (if imageChanges live desired then replicas
      else case statefulSetPartition live of None \<Rightarrow> replicas
           | Some p \<Rightarrow> if p \<ge> 0 \<and> p < replicas then p else replicas)"

text \<open>The ordinals and revisions \<^verbatim>\<open>retargetPartition\<close> counts.\<close>

definition counted_pods :: "stateful_set \<Rightarrow> int \<Rightarrow> pod list \<Rightarrow> (int \<times> string) list" where
  "counted_pods live replicas pods =
     List.map_filter (\<lambda>p. case statefulSetOrdinal (stsName live) (podName p) of None \<Rightarrow> None
       | Some ordinal \<Rightarrow> if ordinal \<ge> replicas \<or> podDeleting p \<or> podRevision p = [] then None
                        else Some (ordinal, podRevision p)) pods"

definition retargetPartition :: "stateful_set \<Rightarrow> pod list \<Rightarrow> int \<Rightarrow> bool \<Rightarrow> int \<times> string" where
  "retargetPartition live pods part repairing =
     (case stsReplicas live of None \<Rightarrow> (part, [])
      | Some replicas \<Rightarrow>
        if stsCurrentRevision live = [] then (part, [])
        else let counted = counted_pods live replicas pods;
                 other = filter (\<lambda>(ordinal, rev). rev \<noteq> stsCurrentRevision live) counted;
                 onUpdate = length (filter (\<lambda>(ordinal, rev). rev = stsUpdateRevision live) other) in
          if other = [] then (part, [])
          else let lowest = Min (set (map fst other)) in
            if \<not> repairing \<and> int (length counted) = replicas \<and> int onUpdate = replicas \<and>
               stsUpdateRevision live \<noteq> []
            then (part, ''every server runs the template the upgrade leaves; the StatefulSet controller records it as the current revision once they are all Ready'')
            else if lowest < part then (lowest, []) else (part, []))"

definition blocks_staging ::
    "stateful_set \<Rightarrow> pod list \<Rightarrow> int \<Rightarrow> serversDown option \<Rightarrow> int \<Rightarrow> string option" where
  "blocks_staging live pods part down ordinal =
     (let missing = stsName live @ ''-'' @ itoa ordinal in
      case pod_at (stsName live) pods ordinal of
        None \<Rightarrow> if ordinal < part then Some missing else None
      | Some p \<Rightarrow>
          if podDeleting p then (if ordinal < part then Some missing else None)
          else if isPodReady p then None
          else if ordinal \<ge> part \<and> (case down of None \<Rightarrow> False | Some d \<Rightarrow> podName p \<in> set (sdPods d))
          then None else Some (podName p))"

definition serverNotReadyBelow ::
    "stateful_set \<Rightarrow> pod list \<Rightarrow> int \<Rightarrow> serversDown option \<Rightarrow> string" where
  "serverNotReadyBelow live pods part down =
     (case stsReplicas live of None \<Rightarrow> []
      | Some replicas \<Rightarrow>
          (case find (\<lambda>o'. blocks_staging live pods part down o' \<noteq> None) [0..replicas - 1] of
             None \<Rightarrow> [] | Some o' \<Rightarrow> the (blocks_staging live pods part down o')))"

text \<open>
  The decision of \<^verbatim>\<open>stepUpgradeStaging\<close> on what it has read: wait, or write the target at a
  partition.
\<close>

datatype stage_decision = StageWait string | StageAt int

definition stage_decision :: "cluster \<Rightarrow> stateful_set \<Rightarrow> stateful_set \<Rightarrow> int \<Rightarrow> pod list \<Rightarrow> stage_decision" where
  "stage_decision cl live desired replicas pods =
     (let part0 = stagingPartition live desired replicas;
          down = (case serversDownIn cl live pods of None \<Rightarrow> None
                  | Some d \<Rightarrow> if serverImage desired \<in> set (sdImages d) then None else Some d);
          part1 = (case down of None \<Rightarrow> part0 | Some d \<Rightarrow> min (sdPartition d) part0);
          (moved, waitFor) = retargetPartition live pods part1 (down \<noteq> None)
      in if waitFor \<noteq> [] then StageWait waitFor
         else let part = min moved part1 in
           if imageChanges live desired \<and> part < replicas \<and>
              serverNotReadyBelow live pods part down \<noteq> []
           then StageWait (serverNotReadyBelow live pods part down)
           else StageAt part)"

subsection \<open>Whether to start\<close>

definition isUpgradeRequired ::
    "cluster \<Rightarrow> stateful_set api_read \<Rightarrow> pod list option \<Rightarrow> int \<Rightarrow> bool" where
  "isUpgradeRequired cl live pods now =
     (if stPhase cl \<noteq> ''Ready'' \<or> serversUnavailableSince cl \<noteq> None
      then heldUpgradeRepair cl live pods \<noteq> None
      else if upgradeWaitsForUser cl then False
      else case live of
        Found sts \<Rightarrow>
          if stsContainers sts = [] then False
          else if snd (hd (stsContainers sts)) \<noteq> specImage cl
          then \<not> startRefusedRecently (stUpgradeStatus cl) (specImageTag cl) now
          else if \<not> upgradeHeld cl \<or>
                  map_option usTargetVersion (stUpgradeStatus cl) \<noteq> Some (specImageTag cl) \<or>
                  stVersion cl = specImageTag cl then False
          else (case stsReplicas sts of None \<Rightarrow> False
            | Some replicas \<Rightarrow>
                if stsReadyReplicas sts < replicas then False
                else \<not> startRefusedRecently (stUpgradeStatus cl) (specImageTag cl) now)
      | _ \<Rightarrow> False)"


section \<open>The servers that are down are the highest ordinals\<close>

lemma pod_at_Some:
  "pod_at sts pods i = Some p \<Longrightarrow> statefulSetOrdinal sts (podName p) = Some i \<and> p \<in> set pods"
  by (auto simp: pod_at_def find_Some_iff) (metis nth_mem length_rev set_rev)

text \<open>A server that is up, and one that is down and cannot start.\<close>

definition pod_up :: "pod option \<Rightarrow> bool" where
  "pod_up op = (case op of None \<Rightarrow> False | Some p \<Rightarrow> \<not> podDeleting p \<and> isPodReady p)"

definition pod_failing :: "(pod \<Rightarrow> string option) \<Rightarrow> pod option \<Rightarrow> bool" where
  "pod_failing failure op =
     (case op of None \<Rightarrow> False | Some p \<Rightarrow> \<not> podDeleting p \<and> \<not> isPodReady p \<and> failure p \<noteq> None)"

lemma pods_down_loop_split:
  "pods_down_loop at failure part n up failing down = Some (failing', down') \<Longrightarrow>
   \<exists>k\<le>n. (up \<longrightarrow> k = n) \<and> (\<forall>i<k. pod_up (at (int i))) \<and>
     (\<forall>i. k \<le> i \<and> i < n \<longrightarrow> pod_failing failure (at (int i)) \<and> part \<le> int i) \<and>
     set down' = set down \<union> {podName (the (at (int i))) |i. k \<le> i \<and> i < n}"
proof (induction n arbitrary: up failing down)
  case (Suc n)
  then obtain p where p: "at (int n) = Some p" "\<not> podDeleting p"
    by (auto split: option.splits if_splits)
  show ?case
  proof (cases "isPodReady p")
    case True
    with Suc.prems p have "pods_down_loop at failure part n True failing down = Some (failing', down')"
      by simp
    from Suc.IH [OF this] show ?thesis
      using True p by (intro exI [of _ "Suc n"]) (auto simp: less_Suc_eq pod_up_def)
  next
    case False
    with Suc.prems p obtain d where d: "failure p = Some d" "\<not> up" "\<not> int n < part"
      and rec: "pods_down_loop at failure part n up (failing @ [d]) (down @ [podName p]) =
        Some (failing', down')"
      by (auto split: option.splits if_splits)
    from Suc.IH [OF rec] obtain k where k: "k \<le> n" "\<forall>i<k. pod_up (at (int i))"
      "\<forall>i. k \<le> i \<and> i < n \<longrightarrow> pod_failing failure (at (int i)) \<and> part \<le> int i"
      "set down' = set (down @ [podName p]) \<union> {podName (the (at (int i))) |i. k \<le> i \<and> i < n}"
      by blast
    have "{podName (the (at (int i))) |i. k \<le> i \<and> i < Suc n} =
        insert (podName p) {podName (the (at (int i))) |i. k \<le> i \<and> i < n}"
      using p k(1) by (auto simp: less_Suc_eq intro: exI [of _ n])
    then show ?thesis
      using k d p False by (intro exI [of _ k]) (auto simp: less_Suc_eq pod_failing_def)
  qed
qed simp

lemma podsDownOnlyIn_split:
  assumes "podsDownOnlyIn sts pods failure = (failing, down)" "down \<noteq> []"
  shows "\<exists>k. 0 \<le> k \<and> k < sts_replicas sts \<and> eff_partition sts \<le> k \<and>
    (\<forall>i. 0 \<le> i \<and> i < k \<longrightarrow> pod_up (pod_at (stsName sts) pods i)) \<and>
    (\<forall>i. k \<le> i \<and> i < sts_replicas sts \<longrightarrow> pod_failing failure (pod_at (stsName sts) pods i)) \<and>
    set down = {podName (the (pod_at (stsName sts) pods i)) |i. k \<le> i \<and> i < sts_replicas sts}"
proof -
  let ?at = "pod_at (stsName sts) pods" and ?n = "nat (sts_replicas sts)"
  have "pods_down_loop ?at failure (eff_partition sts) ?n False [] [] = Some (failing, down)"
    using assms by (auto simp: podsDownOnlyIn_def split: option.splits)
  from pods_down_loop_split [OF this] obtain k where k: "k \<le> ?n" "\<forall>i<k. pod_up (?at (int i))"
    "\<forall>i. k \<le> i \<and> i < ?n \<longrightarrow> pod_failing failure (?at (int i)) \<and> eff_partition sts \<le> int i"
    and down: "set down = {podName (the (?at (int i))) |i. k \<le> i \<and> i < ?n}"
    by auto
  have "set down \<noteq> {}" using assms(2) by simp
  then have "k < ?n" unfolding down by auto
  then have n: "int ?n = sts_replicas sts" by simp
  have "set down = (\<lambda>i. podName (the (?at i))) ` int ` {k..<?n}"
    unfolding down by auto
  also have "int ` {k..<?n} = {int k..<sts_replicas sts}"
    using n by (simp add: image_int_atLeastLessThan)
  finally have "set down = {podName (the (?at i)) |i. int k \<le> i \<and> i < sts_replicas sts}"
    by auto
  moreover have "pod_up (?at i)" if "0 \<le> i" "i < int k" for i
    using k(2) [rule_format, of "nat i"] that by simp
  moreover have "pod_failing failure (?at i)" if "int k \<le> i" "i < sts_replicas sts" for i
  proof -
    have "k \<le> nat i" "nat i < ?n" using that n by linarith+
    then show ?thesis using k(3) [rule_format, of "nat i"] that by simp
  qed
  ultimately show ?thesis
    using k(3) \<open>k < ?n\<close> n by (intro exI [of _ "int k"]) auto
qed


lemma lowest_ordinal_min:
  assumes "\<forall>x\<in>set names. \<exists>i. statefulSetOrdinal sts x = Some i \<and> k \<le> i"
    and "x \<in> set names" "statefulSetOrdinal sts x = Some k" "k \<le> b"
  shows "lowest_ordinal sts names b = k"
proof -
  let ?f = "\<lambda>name low. case statefulSetOrdinal sts name of None \<Rightarrow> low | Some o' \<Rightarrow> min o' low"
  have low: "k \<le> fold ?f ns b'" if "\<forall>x\<in>set ns. \<exists>i. statefulSetOrdinal sts x = Some i \<and> k \<le> i" "k \<le> b'"
    for ns and b' :: int
    using that by (induction ns arbitrary: b') fastforce+
  have dec: "fold ?f ns b' \<le> b'" for ns and b' :: int
    by (induction ns arbitrary: b')
      (auto split: option.splits intro: order.trans [OF _ min.cobounded2])
  have "fold ?f ns b' \<le> k" if "x \<in> set ns" for ns and b' :: int
    using that
  proof (induction ns arbitrary: b')
    case (Cons y ys)
    show ?case
    proof (cases "x = y")
      case True
      then have "fold ?f (y # ys) b' = fold ?f ys (min k b')" using assms(3) by simp
      also have "\<dots> \<le> min k b'" by (rule dec)
      finally show ?thesis by simp
    next
      case False
      then have "x \<in> set ys" using Cons.prems by simp
      then have "fold ?f ys (?f y b') \<le> k" by (rule Cons.IH)
      then show ?thesis by simp
    qed
  qed simp
  then have "fold ?f names b \<le> k" using assms(2) by blast
  then show ?thesis
    unfolding lowest_ordinal_def using low [OF assms(1,4)] by (rule antisym)
qed

lemma serversDownIn_top:
  assumes "serversDownIn cl sts pods = Some d"
  shows "0 \<le> sdPartition d" "sdPartition d < sts_replicas sts"
    "0 \<le> i \<Longrightarrow> i < sdPartition d \<Longrightarrow> pod_up (pod_at (stsName sts) pods i)"
    "sdPartition d \<le> i \<Longrightarrow> i < sts_replicas sts \<Longrightarrow>
       pod_failing podCannotStart (pod_at (stsName sts) pods i) \<and>
       podName (the (pod_at (stsName sts) pods i)) \<in> set (sdPods d)"
    "eff_partition sts < sts_replicas sts \<Longrightarrow> eff_partition sts \<le> sdPartition d"
proof -
  define view where "view = (if eff_partition sts \<ge> sts_replicas sts then sts\<lparr>stsPartition := Some 0\<rparr> else sts)"
  obtain failing down where fd: "podsDownOnlyIn view pods podCannotStart = (failing, down)"
    by fastforce
  have d: "down \<noteq> []" "sdPods d = down" "sdPartition d = lowest_ordinal (stsName sts) down (sts_replicas sts)"
    using assms fd by (auto simp: serversDownIn_def Let_def simp flip: view_def split: if_splits)
  have v: "stsName view = stsName sts" "sts_replicas view = sts_replicas sts"
    "eff_partition sts < sts_replicas sts \<Longrightarrow> eff_partition view = eff_partition sts"
    by (auto simp: view_def sts_replicas_def)
  from podsDownOnlyIn_split [OF fd d(1)] obtain k where k: "0 \<le> k" "k < sts_replicas sts"
    "eff_partition view \<le> k" "\<forall>i. 0 \<le> i \<and> i < k \<longrightarrow> pod_up (pod_at (stsName sts) pods i)"
    "\<forall>i. k \<le> i \<and> i < sts_replicas sts \<longrightarrow> pod_failing podCannotStart (pod_at (stsName sts) pods i)"
    "set down = {podName (the (pod_at (stsName sts) pods i)) |i. k \<le> i \<and> i < sts_replicas sts}"
    unfolding v by blast
  have ord: "statefulSetOrdinal (stsName sts) (podName (the (pod_at (stsName sts) pods i))) = Some i"
    if "k \<le> i" "i < sts_replicas sts" for i
  proof -
    have "pod_failing podCannotStart (pod_at (stsName sts) pods i)" using k(5) that by blast
    then obtain p where "pod_at (stsName sts) pods i = Some p"
      by (cases "pod_at (stsName sts) pods i") (auto simp: pod_failing_def)
    then show ?thesis using pod_at_Some by simp
  qed
  have "sdPartition d = k"
    unfolding d(3)
  proof (rule lowest_ordinal_min)
    show "\<forall>x\<in>set down. \<exists>i. statefulSetOrdinal (stsName sts) x = Some i \<and> k \<le> i"
      using ord unfolding k(6) by auto
    show "podName (the (pod_at (stsName sts) pods k)) \<in> set down"
      using k(2) unfolding k(6) by auto
  qed (use ord k(2) in auto)
  then show "0 \<le> sdPartition d" "sdPartition d < sts_replicas sts"
    "0 \<le> i \<Longrightarrow> i < sdPartition d \<Longrightarrow> pod_up (pod_at (stsName sts) pods i)"
    "sdPartition d \<le> i \<Longrightarrow> i < sts_replicas sts \<Longrightarrow>
       pod_failing podCannotStart (pod_at (stsName sts) pods i) \<and>
       podName (the (pod_at (stsName sts) pods i)) \<in> set (sdPods d)"
    "eff_partition sts < sts_replicas sts \<Longrightarrow> eff_partition sts \<le> sdPartition d"
    using k d(2) v(3) by auto
qed

text \<open>
  The servers a repair replaces are exactly the highest ordinals from the partition it
  stages at: every server below is up, and every one from there on is down and cannot start;
  so replacing them restarts no server that is up. While the upgrade keeps a partition below
  the replica count, they are servers it had released.
\<close>

theorem serversDownIn_top_ordinals:
  assumes "serversDownIn cl sts pods = Some d"
  shows "0 \<le> sdPartition d \<and> sdPartition d < sts_replicas sts \<and>
    (\<forall>i. 0 \<le> i \<and> i < sdPartition d \<longrightarrow> pod_up (pod_at (stsName sts) pods i)) \<and>
    (\<forall>i. sdPartition d \<le> i \<and> i < sts_replicas sts \<longrightarrow>
       pod_failing podCannotStart (pod_at (stsName sts) pods i) \<and>
       podName (the (pod_at (stsName sts) pods i)) \<in> set (sdPods d)) \<and>
    (eff_partition sts < sts_replicas sts \<longrightarrow> eff_partition sts \<le> sdPartition d)"
  using serversDownIn_top [OF assms] by blast


section \<open>Staging sets no server back\<close>

lemma retargetPartition_spec:
  assumes "retargetPartition live pods part rep = (q, [])" "stsReplicas live = Some r"
    "stsCurrentRevision live \<noteq> []"
  shows "q \<le> part" "(i, v) \<in> set (counted_pods live r pods) \<Longrightarrow> v \<noteq> stsCurrentRevision live \<Longrightarrow> q \<le> i"
    "q = part \<or> (\<exists>v. (q, v) \<in> set (counted_pods live r pods))"
proof -
  let ?other = "filter (\<lambda>(ordinal, rev). rev \<noteq> stsCurrentRevision live) (counted_pods live r pods)"
  let ?low = "Min (set (map fst ?other))"
  have q: "q = (if ?other = [] then part else min ?low part)"
    using assms by (auto simp: retargetPartition_def Let_def min_def split: if_splits)
  show "q \<le> part" using q by auto
  have "Min (fst ` set ?other) \<in> fst ` set ?other" if "?other \<noteq> []"
    by (rule Min_in) (use that in \<open>simp_all only: finite_imageI List.finite_set image_is_empty set_empty not_False_eq_True\<close>)
  then show "q = part \<or> (\<exists>v. (q, v) \<in> set (counted_pods live r pods))"
    using q by (cases "?other = []") (auto simp: min_def)
  assume i: "(i, v) \<in> set (counted_pods live r pods)" "v \<noteq> stsCurrentRevision live"
  then have "(i, v) \<in> set ?other" by simp
  then have "?low \<le> i" "?other \<noteq> []" by (force intro: Min_le, force)
  then show "q \<le> i" using q by auto
qed

lemma counted_pods_iff:
  "(i, v) \<in> set (counted_pods live r pods) \<longleftrightarrow>
     (\<exists>p\<in>set pods. statefulSetOrdinal (stsName live) (podName p) = Some i \<and> i < r \<and>
        \<not> podDeleting p \<and> podRevision p = v \<and> v \<noteq> [])"
  by (force simp: counted_pods_def List.map_filter_def split: option.splits if_splits)

lemma counted_nonneg: "(i, v) \<in> set (counted_pods live r pods) \<Longrightarrow> 0 \<le> i"
  by (auto simp: counted_pods_iff statefulSetOrdinal_iff)

lemma serverNotReadyBelow_Nil:
  assumes "serverNotReadyBelow live pods part down = []" "stsReplicas live = Some r" "0 \<le> i" "i < r"
  shows "blocks_staging live pods part down i = None"
proof (rule ccontr)
  assume b: "blocks_staging live pods part down i \<noteq> None"
  then obtain j where j: "find (\<lambda>o'. blocks_staging live pods part down o' \<noteq> None) [0..r - 1] = Some j"
    using assms(3,4) by (cases "find (\<lambda>o'. blocks_staging live pods part down o' \<noteq> None) [0..r - 1]")
      (auto simp: find_None_iff)
  then have "blocks_staging live pods part down j \<noteq> None"
    by (auto simp: find_Some_iff)
  moreover have "the (blocks_staging live pods part down j) = []"
    using assms(1,2) j by (simp add: serverNotReadyBelow_def)
  ultimately show False
    by (auto simp: blocks_staging_def Let_def statefulSetOrdinal_iff
        split: option.splits if_splits dest!: pod_at_Some)
qed

lemma serversDown_pods:
  assumes "serversDownIn cl live pods = Some d" "stsReplicas live = Some r"
  shows "0 \<le> sdPartition d"
    and "pod_at (stsName live) pods i = Some p \<Longrightarrow> sdPartition d \<le> i \<Longrightarrow> i < r \<Longrightarrow> podCannotStart p \<noteq> None"
    and "0 \<le> i \<Longrightarrow> i < sdPartition d \<Longrightarrow> pod_up (pod_at (stsName live) pods i)"
proof -
  have reps: "sts_replicas live = r" using assms(2) by (simp add: sts_replicas_def)
  note top = serversDownIn_top [OF assms(1), unfolded reps]
  show "0 \<le> sdPartition d" using top(1) by simp
  show "podCannotStart p \<noteq> None" if "pod_at (stsName live) pods i = Some p" "sdPartition d \<le> i" "i < r"
    using top(4) that by (auto simp: pod_failing_def split: option.splits) fastforce
  show "pod_up (pod_at (stsName live) pods i)" if "0 \<le> i" "i < sdPartition d"
    using top(3) that by blast
qed

lemma retarget_not_back:
  assumes rt: "retargetPartition live pods p1 down = (moved, [])"
    and r: "stsReplicas live = Some r" "0 \<le> r" and p1: "0 \<le> p1"
  shows "0 \<le> moved"
    and "\<lbrakk>p \<in> set pods; statefulSetOrdinal (stsName live) (podName p) = Some i; i < r; \<not> podDeleting p;
      podRevision p \<noteq> []; stsCurrentRevision live \<noteq> []; podRevision p \<noteq> stsCurrentRevision live\<rbrakk> \<Longrightarrow> moved \<le> i"
proof -
  show "0 \<le> moved"
  proof (cases "stsCurrentRevision live = []")
    case True
    then show ?thesis using rt p1 r(1) by (simp add: retargetPartition_def)
  next
    case False
    then show ?thesis using retargetPartition_spec(3) [OF rt r(1)] p1 counted_nonneg by auto
  qed
next
  assume pod: "p \<in> set pods" "statefulSetOrdinal (stsName live) (podName p) = Some i" "i < r"
    "\<not> podDeleting p" "podRevision p \<noteq> []" and rev: "stsCurrentRevision live \<noteq> []"
    "podRevision p \<noteq> stsCurrentRevision live"
  then have "(i, podRevision p) \<in> set (counted_pods live r pods)" by (auto simp: counted_pods_iff)
  then show "moved \<le> i" using retargetPartition_spec(2) [OF rt r(1) rev(1)] rev(2) by blast
qed

text \<open>
  C35: the partition Staging writes a target at lies between zero and the replica count. Every
  pod that is not going away and runs another revision than the StatefulSet's current one, where
  both are known, is at or above it, so recreated meanwhile it cannot come back on the version the
  upgrade leaves. Where the write changes the image and the partition is below the replica
  count, so that servers restart at once, every server below is up and every pod at or above that is
  not Ready cannot start on what it runs. A pod on the current revision above the partition is
  not frozen.
\<close>

theorem stage_decision_safe:
  assumes st: "stage_decision cl live desired r pods = StageAt q"
    and r: "stsReplicas live = Some r" "0 \<le> r"
  shows "0 \<le> q \<and> q \<le> r \<and>
    (\<forall>p\<in>set pods. \<forall>i. statefulSetOrdinal (stsName live) (podName p) = Some i \<and> i < r \<and>
       \<not> podDeleting p \<and> podRevision p \<noteq> [] \<and> stsCurrentRevision live \<noteq> [] \<and>
       podRevision p \<noteq> stsCurrentRevision live \<longrightarrow> q \<le> i) \<and>
    (imageChanges live desired \<and> q < r \<longrightarrow>
       (\<forall>i. 0 \<le> i \<and> i < q \<longrightarrow> pod_up (pod_at (stsName live) pods i)) \<and>
       (\<forall>i p. q \<le> i \<and> i < r \<and> pod_at (stsName live) pods i = Some p \<and> \<not> podDeleting p \<longrightarrow>
          isPodReady p \<or> podCannotStart p \<noteq> None))"
proof -
  define down where "down = (case serversDownIn cl live pods of None \<Rightarrow> None
      | Some d \<Rightarrow> if serverImage desired \<in> set (sdImages d) then None else Some d)"
  define p0 where "p0 = stagingPartition live desired r"
  define p1 where "p1 = (case down of None \<Rightarrow> p0 | Some d \<Rightarrow> min (sdPartition d) p0)"
  obtain moved w where rt: "retargetPartition live pods p1 (down \<noteq> None) = (moved, w)" by fastforce
  have w: "w = []" and q: "q = min moved p1"
    and nr: "imageChanges live desired \<Longrightarrow> q < r \<Longrightarrow> serverNotReadyBelow live pods q down = []"
    using st rt unfolding stage_decision_def down_def [symmetric] p0_def [symmetric] Let_def
      p1_def [symmetric] by (auto split: if_splits)
  have d: "serversDownIn cl live pods = Some d" if "down = Some d" for d
    using that unfolding down_def by (auto split: option.splits if_splits)
  note pods = serversDown_pods [OF d r(1)]
  have p0: "0 \<le> p0" "p0 \<le> r"
    using r by (auto simp: p0_def stagingPartition_def split: option.splits)
  have p1: "0 \<le> p1" "p1 \<le> r" using p0 pods(1) by (auto simp: p1_def split: option.splits)
  note kept = retarget_not_back [OF rt [unfolded w] r p1(1)]
  have bounds: "0 \<le> q" "q \<le> r" using q p1 kept(1) by auto
  have up: "pod_up (pod_at (stsName live) pods i)" if "imageChanges live desired" "q < r" "0 \<le> i" "i < q" for i
    using serverNotReadyBelow_Nil [OF nr [OF that(1,2)] r(1) that(3)] that(2,4)
    by (auto simp: blocks_staging_def pod_up_def Let_def split: option.splits if_splits)
  have fail: "podCannotStart p \<noteq> None" if "imageChanges live desired" "q < r" "q \<le> i" "i < r"
      "pod_at (stsName live) pods i = Some p" "\<not> podDeleting p" "\<not> isPodReady p" for i p
  proof -
    note pod = that
    have "0 \<le> i" using bounds that(3) by simp
    then have "blocks_staging live pods q down i = None"
      using serverNotReadyBelow_Nil [OF nr [OF that(1,2)] r(1) _ that(4)] by blast
    then obtain d where d1: "down = Some d"
      using pod by (auto simp: blocks_staging_def Let_def split: option.splits if_splits)
    have "\<not> i < sdPartition d"
      using pods(3) [OF d1, of i] that(5,7) \<open>0 \<le> i\<close> by (auto simp: pod_up_def)
    then have "sdPartition d \<le> i" by simp
    then show ?thesis using pods(2) [OF d1 that(5)] that(4) by blast
  qed
  have "q \<le> i" if "p \<in> set pods" "statefulSetOrdinal (stsName live) (podName p) = Some i" "i < r"
    "\<not> podDeleting p" "podRevision p \<noteq> []" "stsCurrentRevision live \<noteq> []"
    "podRevision p \<noteq> stsCurrentRevision live" for p i
    using kept(2) [OF that] q by simp
  then show ?thesis using bounds up fail by blast
qed

text \<open>A pod of the cluster, for concrete inputs.\<close>

definition mk_pod :: "int \<Rightarrow> string \<Rightarrow> string \<Rightarrow> bool \<Rightarrow> pod" where
  "mk_pod n revision img ready = \<lparr>podName = serverPodName ''c'' n, podUID = [], podRevision = revision, podDeleting = False,
     podPhase = ''Running'', podConditions = [(''Ready'', if ready then CondTrue else CondFalse)],
     podContainers = [(Neo4jContainer, img)], podInitStatuses = [],
     podStatuses = [\<lparr>csName = Neo4jContainer, csReady = ready,
       csWaiting = (if ready then None else Some ''ErrImagePull''), csRunning = ready,
       csTerminated = None, csLastTerminated = None, csRestartCount = 0\<rparr>]\<rparr>"

definition pods_server2_down :: "pod list" where
  "pods_server2_down = [mk_pod 0 ''r1'' ''neo4j:a'' True, mk_pod 1 ''r1'' ''neo4j:a'' True,
     mk_pod 2 ''r2'' ''neo4j:b'' False]"

definition desired_c :: stateful_set where
  "desired_c = buildServerStatefulSet (new_cluster ''c'' ''neo4j'' ''c'' 3)"

theorem serversDownIn_top_ordinals_witness:
  "\<exists>d. serversDownIn paused_cluster (sts3 ''neo4j:b'' 2) pods_server2_down = Some d \<and>
     pod_up (pod_at ''c-server'' pods_server2_down 1) \<and> sdPartition d = 2"
proof -
  let ?d = "the (serversDownIn paused_cluster (sts3 ''neo4j:b'' 2) pods_server2_down)"
  have d: "serversDownIn paused_cluster (sts3 ''neo4j:b'' 2) pods_server2_down = Some ?d"
    "sdPartition ?d = 2" by code_simp+
  have "\<forall>i. 0 \<le> i \<and> i < 2 \<longrightarrow> pod_up (pod_at ''c-server'' pods_server2_down i)"
    using serversDownIn_top_ordinals [OF d(1)] d(2) by (simp add: sts3_def)
  then have "pod_up (pod_at ''c-server'' pods_server2_down 1)" by simp
  then show ?thesis using d by blast
qed

theorem stage_decision_safe_witness:
  "stage_decision paused_cluster (sts3 ''neo4j:b'' 2) desired_c 3 pods_server2_down = StageAt 2 \<and>
   imageChanges (sts3 ''neo4j:b'' 2) desired_c \<and>
   pod_up (pod_at ''c-server'' pods_server2_down 0) \<and> pod_up (pod_at ''c-server'' pods_server2_down 1)"
proof -
  have st: "stage_decision paused_cluster (sts3 ''neo4j:b'' 2) desired_c 3 pods_server2_down = StageAt 2"
    by code_simp
  have im: "imageChanges (sts3 ''neo4j:b'' 2) desired_c" by code_simp
  have "\<forall>i. 0 \<le> i \<and> i < 2 \<longrightarrow> pod_up (pod_at ''c-server'' pods_server2_down i)"
    using stage_decision_safe [OF st] im by (simp add: sts3_def)
  then have "pod_up (pod_at ''c-server'' pods_server2_down 0)"
    "pod_up (pod_at ''c-server'' pods_server2_down 1)" by simp_all
  then show ?thesis using st im by blast
qed


section \<open>Pods the operator deletes\<close>

text \<open>
  The only pods the operator deletes to move an update on are down: at or above the
  partition, on another revision than the one they come back on, not Ready and unable to
  start; none while the StatefulSet controller has not seen the latest template.
\<close>

theorem stuckServerPods_are_down:
  assumes "(p, why) \<in> set (stuckServerPods live pods)"
  shows "p \<in> set pods \<and> \<not> isPodReady p \<and> podCannotStart p = Some why \<and>
    podRevision p \<noteq> stsUpdateRevision live \<and> stsObservedGeneration live \<ge> stsGeneration live \<and>
    (\<exists>i r. statefulSetOrdinal (stsName live) (podName p) = Some i \<and> stsReplicas live = Some r \<and>
       eff_partition live \<le> i \<and> i < r)"
  using assms
  by (cases "stsReplicas live")
    (auto simp: stuckServerPods_def List.map_filter_def split: if_splits)

theorem stuckServerPods_are_down_witness:
  "\<exists>p why. (p, why) \<in> set (stuckServerPods ((sts3 ''neo4j:c'' 2)\<lparr>stsUpdateRevision := ''r3''\<rparr>) pods_server2_down) \<and>
     \<not> isPodReady p"
proof -
  let ?sts = "(sts3 ''neo4j:c'' 2)\<lparr>stsUpdateRevision := ''r3''\<rparr>"
  let ?x = "hd (stuckServerPods ?sts pods_server2_down)"
  have "(fst ?x, snd ?x) \<in> set (stuckServerPods ?sts pods_server2_down)" by code_simp
  from this stuckServerPods_are_down [OF this] show ?thesis by blast
qed

end
