(* ===== verification/Status_Writes.thy ===== *)
theory Status_Writes
  imports Upgrade_Staging
begin

text \<open>
  The cluster controller's status writes: each reads the cluster again, changes the copy and
  updates it, retried on conflict, and mirrors what it wrote onto the copy the pass works
  on. From \<^verbatim>\<open>src/internal/controller\<close>: \<^verbatim>\<open>patchUpgradeStatus\<close>, \<^verbatim>\<open>updateUpgradeStatus\<close>,
  \<^verbatim>\<open>recordStartedTarget\<close>, \<^verbatim>\<open>forgetAbandonedUpgrade\<close>, \<^verbatim>\<open>writeTopologyDeferral\<close>,
  \<^verbatim>\<open>writeClusterStatus\<close> and the functions that only call them.

  The world holds the stored cluster and, beside it, the copy of the pass: the two differ
  when the cache is stale or a write failed. A conflict repeats the attempt on a fresh copy,
  so a write that lands was made on the object as stored; a write that fails for good may
  have read any earlier copy, which is an argument of the outcome.
\<close>

section \<open>The model\<close>

text \<open>What the operator asks Neo4j to do with a server; a deallocation may be a dry run.\<close>

datatype neo4j_statement =
    CordonServer string | EnableServer string | DeallocateServers "string list" bool | DropServer string

datatype effect =
    Event bool string string       \<comment> \<open>a Warning?, reason, message\<close>
  | PhaseObserved string int       \<comment> \<open>upgrade_duration_seconds: phase, duration\<close>
  | UpgradeRecorded bool int       \<comment> \<open>upgrade_total: success, duration\<close>
  | PodDeleted string              \<comment> \<open>a pod the operator deleted\<close>
  | Statement neo4j_statement

record world =
  wMem :: cluster
  wStored :: cluster
  wSts :: "stateful_set option"
  wDeferred :: "heldImageChange option"
  wDrainDeferred :: "string option"
  wAddresses :: "string \<rightharpoonup> string"    \<comment> \<open>the cluster's address book\<close>
  wWake :: "int option"                 \<comment> \<open>how soon the pass asked to run again\<close>
  wLog :: "effect list"

datatype write_outcome = Written | ReadFails | WriteFails cluster

definition logged :: "effect list \<Rightarrow> world \<Rightarrow> world" where
  "logged es w = w\<lparr>wLog := wLog w @ es\<rparr>"

subsection \<open>The upgrade record\<close>

definition the_record :: "cluster \<Rightarrow> upgrade_status" where
  "the_record cl = (case stUpgradeStatus cl of None \<Rightarrow> empty_upgrade_status | Some us \<Rightarrow> us)"

definition recordEndedUpgradePhase :: "(string \<times> int) option \<Rightarrow> effect list" where
  "recordEndedUpgradePhase ended =
     (case ended of None \<Rightarrow> [] | Some (phase, d) \<Rightarrow> [PhaseObserved phase d])"

text \<open>One attempt of \<^verbatim>\<open>patchUpgradeStatus\<close>: the copy it sends, and the phase that ended.\<close>

definition patched ::
    "int \<Rightarrow> (upgrade_status \<Rightarrow> upgrade_status) \<Rightarrow> cluster \<Rightarrow> cluster \<times> (string \<times> int) option" where
  "patched now mutate latest =
     (let us = the_record latest;
          (us', ended) = stampUpgradePhaseTransition (mutate us) (usPhase us) (usPhaseStartTime us) now
      in (syncStalledCondition now (latest\<lparr>stUpgradeStatus := Some us'\<rparr>), ended))"

definition patchUpgradeStatus ::
    "int \<Rightarrow> write_outcome \<Rightarrow> (upgrade_status \<Rightarrow> upgrade_status) \<Rightarrow> world \<Rightarrow> world \<times> bool" where
  "patchUpgradeStatus now outcome mutate w =
     (case outcome of
        ReadFails \<Rightarrow> (w, False)
      | WriteFails latest \<Rightarrow>
          (w\<lparr>wMem := (wMem w)\<lparr>stUpgradeStatus := stUpgradeStatus (fst (patched now mutate latest))\<rparr>\<rparr>, False)
      | Written \<Rightarrow>
          (let (latest, ended) = patched now mutate (wStored w) in
           (logged (recordEndedUpgradePhase ended)
              (w\<lparr>wStored := latest,
                 wMem := (wMem w)\<lparr>stUpgradeStatus := stUpgradeStatus latest\<rparr>\<rparr>), True)))"

text \<open>
  One attempt of \<^verbatim>\<open>updateUpgradeStatus\<close>: the record and the cluster it sends; \<open>None\<close>: there
  is no record, nothing is sent.
\<close>

definition status_record ::
    "int \<Rightarrow> string \<Rightarrow> string \<Rightarrow> string \<Rightarrow> string \<Rightarrow> upgrade_status \<Rightarrow> upgrade_status" where
  "status_record now phase currentStep lastError reported us0 =
     (let us1 = us0\<lparr>usPhase := phase, usCurrentStep := currentStep, usMessage := currentStep\<rparr>;
          us2 = (if lastError \<noteq> [] then us1\<lparr>usLastError := lastError\<rparr> else us1)
      in if phase = upgradePhaseCompleted
         then (let us3 = us2\<lparr>usCompletionTime := Some now\<rparr>;
                   (resolved, ok) = resolvedTargetVersionFor us3 reported
               in if ok then us3\<lparr>usResolvedTargetVersion := resolved\<rparr> else us3)
         else us2)"

definition status_cluster :: "int \<Rightarrow> string \<Rightarrow> string \<Rightarrow> string \<Rightarrow> cluster \<Rightarrow> cluster" where
  "status_cluster now tag phase reported latest =
     (if phase = upgradePhaseCompleted
      then latest\<lparr>stLastUpgradeTime := Some now, stVersion := tag,
                  stRunningVersion := fst (runningVersionFor tag reported)\<rparr>
      else latest)"

definition status_updated ::
    "int \<Rightarrow> string \<Rightarrow> string \<Rightarrow> string \<Rightarrow> string \<Rightarrow> string \<Rightarrow> cluster \<Rightarrow>
     (cluster \<times> (string \<times> int) option) option" where
  "status_updated now tag phase currentStep lastError reported latest =
     (case stUpgradeStatus latest of None \<Rightarrow> None
      | Some us0 \<Rightarrow>
        let (us, ended) = stampUpgradePhaseTransition
              (status_record now phase currentStep lastError reported us0)
              (usPhase us0) (usPhaseStartTime us0) now
        in Some (syncStalledCondition now
             ((status_cluster now tag phase reported latest)\<lparr>stUpgradeStatus := Some us\<rparr>), ended))"

definition updateUpgradeStatus ::
    "int \<Rightarrow> write_outcome \<Rightarrow> string \<Rightarrow> string \<Rightarrow> string \<Rightarrow> string \<Rightarrow> world \<Rightarrow> world \<times> bool" where
  "updateUpgradeStatus now outcome phase currentStep lastError reported w =
     (if stUpgradeStatus (wMem w) = None then (w, True)
      else let attempt = status_updated now (specImageTag (wMem w)) phase currentStep lastError reported;
               mirrored = (\<lambda>c w. w\<lparr>wMem := (wMem w)\<lparr>stUpgradeStatus := stUpgradeStatus c\<rparr>\<rparr>) in
        case outcome of
          ReadFails \<Rightarrow> (w, False)
        | WriteFails latest \<Rightarrow>
            (case attempt latest of None \<Rightarrow> (w, True) | Some (c, ended) \<Rightarrow> (mirrored c w, False))
        | Written \<Rightarrow>
            (case attempt (wStored w) of None \<Rightarrow> (w, True)
             | Some (c, ended) \<Rightarrow>
                 (logged (recordEndedUpgradePhase ended) (mirrored c (w\<lparr>wStored := c\<rparr>)), True)))"

subsection \<open>What the servers started on\<close>

definition recordStartedTarget :: "pod list option \<Rightarrow> write_outcome \<Rightarrow> world \<Rightarrow> world" where
  "recordStartedTarget pods outcome w =
     (case stUpgradeStatus (wMem w) of None \<Rightarrow> w
      | Some us \<Rightarrow>
        let target = usTargetVersion us in
        if target = [] \<or> usStartedTargetVersion us = target \<or> usPhase us = upgradePhaseCompleted then w
        else case pods of None \<Rightarrow> w
        | Some ps \<Rightarrow>
          if \<not> targetStartedOnAServer ps target then w
          else (case (outcome, stUpgradeStatus (wStored w)) of
              (Written, Some l) \<Rightarrow>
                if usTargetVersion l \<noteq> target then w
                else w\<lparr>wStored := (wStored w)\<lparr>stUpgradeStatus := Some (l\<lparr>usStartedTargetVersion := target\<rparr>)\<rparr>,
                       wMem := (wMem w)\<lparr>stUpgradeStatus := Some (us\<lparr>usStartedTargetVersion := target\<rparr>)\<rparr>\<rparr>
            | _ \<Rightarrow> w))"

definition forgetAbandonedUpgrade ::
    "int \<Rightarrow> stateful_set api_read \<Rightarrow> pod list option \<Rightarrow> write_outcome \<Rightarrow> world \<Rightarrow> world" where
  "forgetAbandonedUpgrade now live pods outcome w =
     (case stUpgradeStatus (wMem w) of None \<Rightarrow> w
      | Some us \<Rightarrow>
        if \<not> upgradeHeld (wMem w) \<or> usTargetVersion us = [] \<or>
           usTargetVersion us = specImageTag (wMem w) \<or> usResolvedTargetVersion us \<noteq> [] then w
        else if usStartedTargetVersion us \<noteq> [] \<and> usStartedTargetVersion us \<noteq> usPreviousVersion us \<or>
                usStartedTargetVersion us = [] \<and> progressReleasedAServer us then w
        else case serverImageInPlace (wMem w) live pods of None \<Rightarrow> w
        | Some place \<Rightarrow>
          if imageTag (ipImage place) = usTargetVersion us then w
          else (case outcome of
              Written \<Rightarrow>
                let dropped = w\<lparr>wMem := (wMem w)\<lparr>stUpgradeStatus := None\<rparr>\<rparr> in
                (case stUpgradeStatus (wStored w) of None \<Rightarrow> dropped
                 | Some l \<Rightarrow>
                     if usTargetVersion l \<noteq> usTargetVersion us \<or> usPhase l \<noteq> usPhase us then dropped
                     else dropped\<lparr>wStored := syncStalledCondition now
                            ((wStored w)\<lparr>stUpgradeStatus := None\<rparr>)\<rparr>)
            | _ \<Rightarrow> w))"

subsection \<open>The topology condition\<close>

definition writeTopologyDeferral ::
    "int \<Rightarrow> write_outcome \<Rightarrow> condition_status \<times> string \<times> string \<Rightarrow> world \<Rightarrow> world" where
  "writeTopologyDeferral now outcome want w =
     (case want of (status, reason, message) \<Rightarrow>
      let have = findCondition (stConditions (wMem w)) ConditionTypeTopologyChangeDeferred;
          set_on = (\<lambda>cl. cl\<lparr>stConditions := fst (SetNamedCondition (stConditions cl)
             ConditionTypeTopologyChangeDeferred (clGeneration (wMem w)) status reason message now)\<rparr>) in
      if have = None \<and> status = CondFalse then w
      else if (case have of None \<Rightarrow> False
               | Some c \<Rightarrow> cStatus c = status \<and> cReason c = reason \<and> cMessage c = message) then w
      else case outcome of
             Written \<Rightarrow> w\<lparr>wStored := set_on (wStored w), wMem := set_on (wMem w)\<rparr>
           | _ \<Rightarrow> w)"

definition reportTopologyDeferral :: "int \<Rightarrow> write_outcome \<Rightarrow> int \<Rightarrow> int \<Rightarrow> world \<Rightarrow> world" where
  "reportTopologyDeferral now outcome requested servers w =
     writeTopologyDeferral now outcome (topologyDeferral (wMem w) requested servers) w"

subsection \<open>The cluster's phase\<close>

text \<open>
  One attempt of \<^verbatim>\<open>writeClusterStatus\<close>: \<open>None\<close> when the status is right already. Endpoints,
  addresses and replica counts, recomputed from the spec in the same write, are not modelled.
\<close>

definition cluster_status_set ::
    "int \<Rightarrow> int \<Rightarrow> string \<Rightarrow> string \<Rightarrow> statusRecord \<Rightarrow>
     (string \<times> condition_status \<times> string \<times> string) list \<Rightarrow> cluster \<Rightarrow> cluster" where
  "cluster_status_set now actedOn phase message rec extra latest =
     latest
       \<lparr>stPhase := phase, stMessage := message, stReady := (phase = ''Ready''),
        stObservedGeneration := actedOn,
        stVersion := (if recVersion rec \<noteq> [] then recVersion rec else stVersion latest),
        stRunningVersion := (case recRunningVersion rec of None \<Rightarrow> stRunningVersion latest | Some v \<Rightarrow> v),
        stUpgradeStatus := (case (recResolvedTargetVersion rec, stUpgradeStatus latest) of
           (Some v, Some us) \<Rightarrow> Some (us\<lparr>usResolvedTargetVersion := v\<rparr>)
         | _ \<Rightarrow> stUpgradeStatus latest),
        stConditions := fold (\<lambda>(t, s, r, m) cs. fst (SetNamedCondition cs t actedOn s r m now)) extra
           (fst (SetReadyCondition (stConditions latest) actedOn (fst (PhaseToConditionStatus phase))
             (snd (PhaseToConditionStatus phase)) message now))\<rparr>"

definition cluster_status_written ::
    "int \<Rightarrow> int \<Rightarrow> string \<Rightarrow> string \<Rightarrow> statusRecord \<Rightarrow>
     (string \<times> condition_status \<times> string \<times> string) list \<Rightarrow> cluster \<Rightarrow> (cluster \<times> bool) option" where
  "cluster_status_written now generation phase message rec extra latest =
     (let actedOn = (if generation = 0 then clGeneration latest else generation);
          statusNeedsUpdate = (stPhase latest \<noteq> phase \<or> stMessage latest \<noteq> message \<or>
            stReady latest \<noteq> (phase = ''Ready'') \<or> stObservedGeneration latest \<noteq> actedOn \<or>
            (recVersion rec \<noteq> [] \<and> stVersion latest \<noteq> recVersion rec));
          versionsNeedUpdate =
            ((case recRunningVersion rec of None \<Rightarrow> False | Some v \<Rightarrow> stRunningVersion latest \<noteq> v) \<or>
             (case (recResolvedTargetVersion rec, stUpgradeStatus latest) of
                (Some v, Some us) \<Rightarrow> usResolvedTargetVersion us \<noteq> v | _ \<Rightarrow> False));
          condStatus = fst (PhaseToConditionStatus phase);
          condReason = snd (PhaseToConditionStatus phase);
          differs = (\<lambda>(t, s, r, m). case findCondition (stConditions latest) t of None \<Rightarrow> True
             | Some c \<Rightarrow> cStatus c \<noteq> s \<or> cReason c \<noteq> r \<or> cMessage c \<noteq> m);
          conditionNeedsUpdate = differs (ConditionTypeReady, condStatus, condReason, message)
      in if \<not> statusNeedsUpdate \<and> \<not> conditionNeedsUpdate \<and> \<not> list_ex differs extra \<and>
            \<not> versionsNeedUpdate then None
         else Some (cluster_status_set now actedOn phase message rec extra latest,
           statusNeedsUpdate \<or> conditionNeedsUpdate))"

text \<open>The write, and whether the phase, message or Ready condition moved.\<close>

definition writeClusterStatus ::
    "int \<Rightarrow> write_outcome \<Rightarrow> string \<Rightarrow> string \<Rightarrow> statusRecord \<Rightarrow>
     (string \<times> condition_status \<times> string \<times> string) list \<Rightarrow> world \<Rightarrow> world \<times> bool" where
  "writeClusterStatus now outcome phase message rec extra w =
     (case outcome of
        Written \<Rightarrow>
          (let ready = (if phase = PhaseReady \<and> stPhase (wStored w) \<noteq> PhaseReady
               then [Event False ''ClusterReady'' ''Neo4j Enterprise cluster is ready''] else [])
           in case cluster_status_written now (clGeneration (wMem w)) phase message rec extra (wStored w) of
                None \<Rightarrow> (logged ready w, False)
              | Some (latest, changed) \<Rightarrow> (logged ready (w\<lparr>wStored := latest\<rparr>), changed))
      | _ \<Rightarrow> (w, False))"

definition versionRecord :: "string \<Rightarrow> statusRecord" where
  "versionRecord v = \<lparr>recVersion = v, recRunningVersion = None, recResolvedTargetVersion = None\<rparr>"

definition updateClusterStatusWithVersion ::
    "int \<Rightarrow> write_outcome \<Rightarrow> string \<Rightarrow> string \<Rightarrow> string \<Rightarrow>
     (string \<times> condition_status \<times> string \<times> string) list \<Rightarrow> world \<Rightarrow> world \<times> bool" where
  "updateClusterStatusWithVersion now outcome phase message version extra w =
     writeClusterStatus now outcome phase message (versionRecord version) extra w"

definition updateClusterStatus ::
    "int \<Rightarrow> write_outcome \<Rightarrow> string \<Rightarrow> string \<Rightarrow> world \<Rightarrow> world \<times> bool" where
  "updateClusterStatus now outcome phase message w =
     updateClusterStatusWithVersion now outcome phase message [] [] w"

definition recordClusterReady ::
    "int \<Rightarrow> write_outcome \<Rightarrow> stateful_set api_read \<Rightarrow> server_info list \<Rightarrow>
     (string \<times> condition_status \<times> string \<times> string) list \<Rightarrow> world \<Rightarrow> world \<times> bool" where
  "recordClusterReady now outcome live servers conditions w =
     (let osts = (case live of Found sts \<Rightarrow> Some sts | _ \<Rightarrow> None);
          (w', changed) = writeClusterStatus now outcome PhaseReady (clusterReadyMessage (wMem w))
                            (reportedVersionsToRecord (wMem w) osts servers) conditions w
      in (w', (case outcome of Written \<Rightarrow> True | _ \<Rightarrow> False) \<and> stPhase (wStored w) \<noteq> PhaseReady))"

definition noteUpgradeInClusterMessage :: "int \<Rightarrow> write_outcome \<Rightarrow> world \<Rightarrow> world" where
  "noteUpgradeInClusterMessage now outcome w =
     (let cl = wMem w; phase = stPhase cl in
      if phase = PhaseReady \<and> serversUnavailableSince cl = None
      then fst (updateClusterStatus now outcome PhaseReady (clusterReadyMessage cl) w)
      else if upgradeStateMachineActive cl \<and> clusterHasFormed cl \<and>
              (phase = PhaseReady \<or> phase = PhaseDegraded \<or> phase = PhaseForming)
      then fst (updateClusterStatus now outcome phase (clusterShortUpgradeMessage (the_record cl)) w)
      else w)"


section \<open>What the writes keep\<close>

lemma logged_fields [simp]:
  "wMem (logged es w) = wMem w" "wStored (logged es w) = wStored w" "wSts (logged es w) = wSts w"
  "wDeferred (logged es w) = wDeferred w" "wDrainDeferred (logged es w) = wDrainDeferred w"
  "wLog (logged es w) = wLog w @ es"
  by (simp_all add: logged_def)

lemma status_writes_keep_sts [keeps, simp]:
  "wSts (fst (patchUpgradeStatus now out m w)) = wSts w"
  "wSts (fst (updateUpgradeStatus now out p st e r w)) = wSts w"
  "wSts (recordStartedTarget pods out w) = wSts w"
  "wSts (forgetAbandonedUpgrade now live pods out w) = wSts w"
  "wSts (writeTopologyDeferral now out want w) = wSts w"
  "wSts (fst (writeClusterStatus now out p msg rec extra w)) = wSts w"
  "wSts (noteUpgradeInClusterMessage now out w) = wSts w"
  by (auto simp: patchUpgradeStatus_def updateUpgradeStatus_def recordStartedTarget_def
      forgetAbandonedUpgrade_def writeTopologyDeferral_def writeClusterStatus_def
      noteUpgradeInClusterMessage_def updateClusterStatus_def updateClusterStatusWithVersion_def
      Let_def split: write_outcome.splits option.splits prod.splits)

lemma patched_record:
  "stUpgradeStatus (fst (patched now m cl)) =
     Some (fst (stampUpgradePhaseTransition (m (the_record cl)) (usPhase (the_record cl))
                  (usPhaseStartTime (the_record cl)) now))"
  by (simp add: patched_def Let_def syncStalled_keeps split: prod.splits)

lemma stamp_phase [simp]: "usPhase (fst (stampUpgradePhaseTransition us p t now)) = usPhase us"
  by (simp add: stampUpgradePhaseTransition_def)

lemma stamp_other [simp]:
  "usTargetVersion (fst (stampUpgradePhaseTransition us p t now)) = usTargetVersion us"
  "usCurrentPartition (fst (stampUpgradePhaseTransition us p t now)) = usCurrentPartition us"
  "usStepStartTime (fst (stampUpgradePhaseTransition us p t now)) = usStepStartTime us"
  "usStartedTargetVersion (fst (stampUpgradePhaseTransition us p t now)) = usStartedTargetVersion us"
  "usPreviousVersion (fst (stampUpgradePhaseTransition us p t now)) = usPreviousVersion us"
  "usProgress (fst (stampUpgradePhaseTransition us p t now)) = usProgress us"
  "usLastError (fst (stampUpgradePhaseTransition us p t now)) = usLastError us"
  "usResolvedTargetVersion (fst (stampUpgradePhaseTransition us p t now)) = usResolvedTargetVersion us"
  by (simp_all add: stampUpgradePhaseTransition_def)

text \<open>A write of the controller, or a new pass with whatever copy the cache hands it.\<close>

inductive status_write :: "world \<Rightarrow> world \<Rightarrow> bool" where
  new_pass: "status_write w (w\<lparr>wMem := cl\<rparr>)"
| patch: "status_write w (fst (patchUpgradeStatus now out m w))"
| update: "status_write w (fst (updateUpgradeStatus now out p st e r w))"
| started: "status_write w (recordStartedTarget pods out w)"
| forget: "status_write w (forgetAbandonedUpgrade now live pods out w)"
| topology: "status_write w (writeTopologyDeferral now out want w)"
| phase: "ConditionTypeStalled \<notin> fst ` set extra \<Longrightarrow>
    status_write w (fst (writeClusterStatus now out p msg rec extra w))"

section \<open>Stalled tells the truth\<close>

definition stalled_in_sync :: "world \<Rightarrow> bool" where
  "stalled_in_sync w \<longleftrightarrow> (stalled (wStored w) \<longleftrightarrow> upgradeHeld (wStored w))"

lemma stalled_cong:
  "findCondition (stConditions a) ConditionTypeStalled = findCondition (stConditions b) ConditionTypeStalled \<Longrightarrow>
   stalled a = stalled b"
  by (simp add: stalled_def)

lemma upgradeHeld_sync [simp]: "upgradeHeld (syncStalledCondition now cl) = upgradeHeld cl"
  by (rule held_by_status(1)) (simp add: syncStalled_keeps)

lemma upgradeHeld_phase:
  "upgradeHeld cl \<longleftrightarrow> (\<exists>us. stUpgradeStatus cl = Some us \<and>
     (usPhase us = upgradePhasePaused \<or> usPhase us = upgradePhaseFailed))"
  by (auto simp: upgradeHeld_def split: option.splits)

lemma synced_patch: "stalled_in_sync w \<Longrightarrow> stalled_in_sync (fst (patchUpgradeStatus now out m w))"
  by (cases out)
    (auto simp: stalled_in_sync_def patchUpgradeStatus_def patched_def Let_def stalled_sync
      split: prod.splits)

lemma synced_update:
  "stalled_in_sync w \<Longrightarrow> stalled_in_sync (fst (updateUpgradeStatus now out p st e r w))"
  by (cases out)
    (auto simp: stalled_in_sync_def updateUpgradeStatus_def status_updated_def Let_def stalled_sync
      split: prod.splits option.splits)

lemma synced_forget:
  "stalled_in_sync w \<Longrightarrow> stalled_in_sync (forgetAbandonedUpgrade now live pods out w)"
  by (auto simp: stalled_in_sync_def forgetAbandonedUpgrade_def Let_def stalled_sync
      split: option.splits write_outcome.splits)

lemma synced_started: "stalled_in_sync w \<Longrightarrow> stalled_in_sync (recordStartedTarget pods out w)"
  by (auto simp: stalled_in_sync_def recordStartedTarget_def Let_def upgradeHeld_phase stalled_def
      split: option.splits write_outcome.splits)

lemma synced_topology: "stalled_in_sync w \<Longrightarrow> stalled_in_sync (writeTopologyDeferral now out want w)"
  by (auto simp: stalled_in_sync_def writeTopologyDeferral_def Let_def upgradeHeld_def stalled_def
      findCondition_SetNamed_other ConditionTypeStalled_def ConditionTypeTopologyChangeDeferred_def
      split: write_outcome.splits prod.splits)

lemma find_fold_SetNamed:
  "t \<notin> fst ` set extra \<Longrightarrow>
   findCondition (fold (\<lambda>(t, s, r, m) cs. fst (SetNamedCondition cs t g s r m now)) extra cs) t =
   findCondition cs t"
  by (induction extra arbitrary: cs) (auto simp: findCondition_SetNamed_other)

lemma cluster_status_written_Some:
  "cluster_status_written now g p msg rec extra cl = Some (c, ch) \<Longrightarrow>
   \<exists>g'. c = cluster_status_set now g' p msg rec extra cl"
  by (auto simp: cluster_status_written_def Let_def split: if_splits)

lemma cluster_status_set_held [simp]:
  "upgradeHeld (cluster_status_set now g p msg rec extra cl) = upgradeHeld cl"
  by (simp add: cluster_status_set_def upgradeHeld_def split: option.splits)

lemma cluster_status_set_stalled:
  assumes "ConditionTypeStalled \<notin> fst ` set extra"
  shows "stalled (cluster_status_set now g p msg rec extra cl) = stalled cl"
proof -
  have "ConditionTypeStalled \<noteq> ConditionTypeReady"
    by (simp add: ConditionTypeStalled_def ConditionTypeReady_def)
  then show ?thesis
    using assms by (simp add: cluster_status_set_def stalled_def find_fold_SetNamed
        SetReadyCondition_def findCondition_SetNamed_other)
qed

lemma writeClusterStatus_stored:
  "wStored (fst (writeClusterStatus now out p msg rec extra w)) = wStored w \<or>
   (\<exists>g. wStored (fst (writeClusterStatus now out p msg rec extra w)) =
      cluster_status_set now g p msg rec extra (wStored w))"
  by (auto simp: writeClusterStatus_def Let_def split: write_outcome.splits option.splits
      dest: cluster_status_written_Some)

lemma synced_phase:
  assumes "ConditionTypeStalled \<notin> fst ` set extra" "stalled_in_sync w"
  shows "stalled_in_sync (fst (writeClusterStatus now out p msg rec extra w))"
  using writeClusterStatus_stored [of now out p msg rec extra w] assms
  by (auto simp: stalled_in_sync_def cluster_status_set_stalled)

text \<open>
  C38: after any sequence of the controller's status writes and passes, whatever copies the
  cache hands out and whichever writes fail, the stored cluster carries Stalled = True
  exactly while its upgrade record is Paused or Failed.
\<close>

theorem Stalled_tells_the_truth:
  assumes "status_write\<^sup>*\<^sup>* w w'" "stalled_in_sync w"
  shows "stalled (wStored w') \<longleftrightarrow> upgradeHeld (wStored w')"
proof -
  have "stalled_in_sync w'"
    using assms
  proof (induction rule: rtranclp_induct)
    case (step y z)
    from step.hyps(2) step.IH [OF step.prems] show ?case
      by cases (auto simp: synced_patch synced_update synced_forget synced_started
          synced_topology synced_phase, simp add: stalled_in_sync_def)
  qed
  then show ?thesis by (simp add: stalled_in_sync_def)
qed


text \<open>A world at rest, for concrete inputs.\<close>

definition world_of :: "cluster \<Rightarrow> stateful_set option \<Rightarrow> world" where
  "world_of cl sts = \<lparr>wMem = cl, wStored = cl, wSts = sts, wDeferred = None, wDrainDeferred = None,
     wAddresses = Map.empty, wWake = None, wLog = []\<rparr>"

theorem Stalled_tells_the_truth_witness:
  "stalled (wStored (fst (patchUpgradeStatus 7 Written (\<lambda>us. us\<lparr>usPhase := upgradePhaseFailed\<rparr>)
     (world_of (new_cluster ''c'' ''neo4j'' ''5.26.0-enterprise'' 3) None))))"
proof -
  let ?w = "world_of (new_cluster ''c'' ''neo4j'' ''5.26.0-enterprise'' 3) None"
  let ?w' = "fst (patchUpgradeStatus 7 Written (\<lambda>us. us\<lparr>usPhase := upgradePhaseFailed\<rparr>) ?w)"
  have r: "status_write\<^sup>*\<^sup>* ?w ?w'" by (rule r_into_rtranclp) (rule status_write.patch)
  have s: "stalled_in_sync ?w"
    by (simp add: stalled_in_sync_def stalled_def upgradeHeld_def world_of_def new_cluster_def)
  have "upgradeHeld (wStored ?w')" by code_simp
  then show ?thesis using Stalled_tells_the_truth [OF r s] by simp
qed


section \<open>Every phase is timed exactly once\<close>

definition phase_of :: "cluster \<Rightarrow> string" where
  "phase_of cl = usPhase (the_record cl)"

text \<open>A timed phase whose start was recorded has ended between two stored clusters.\<close>

definition phase_ended :: "cluster \<Rightarrow> cluster \<Rightarrow> bool" where
  "phase_ended old new \<longleftrightarrow> isTimedUpgradePhase (phase_of old) \<and>
     usPhaseStartTime (the_record old) \<noteq> None \<and> phase_of new \<noteq> phase_of old"

fun is_observation :: "effect \<Rightarrow> bool" where
  "is_observation (PhaseObserved p d) = True"
| "is_observation _ = False"

definition observations :: "world \<Rightarrow> world \<Rightarrow> effect list" where
  "observations w w' = filter is_observation (drop (length (wLog w)) (wLog w'))"

definition timed_right :: "world \<Rightarrow> world \<Rightarrow> bool" where
  "timed_right w w' \<longleftrightarrow>
     (if phase_ended (wStored w) (wStored w')
      then \<exists>d\<ge>0. observations w w' = [PhaseObserved (phase_of (wStored w)) d]
      else observations w w' = [])"

lemma timed_right_same:
  "wLog w' = wLog w \<Longrightarrow> phase_of (wStored w') = phase_of (wStored w) \<Longrightarrow> timed_right w w'"
  by (simp add: timed_right_def phase_ended_def observations_def)

lemma timed_right_stamp:
  assumes "wLog w' = wLog w @ recordEndedUpgradePhase ended"
    and "stampUpgradePhaseTransition us (phase_of (wStored w)) (usPhaseStartTime (the_record (wStored w))) now = (us', ended)"
    and "phase_of (wStored w') = usPhase us"
  shows "timed_right w w'"
  using assms
  by (auto simp: timed_right_def phase_ended_def observations_def stampUpgradePhaseTransition_def
      recordEndedUpgradePhase_def split: if_splits option.splits)

lemma phase_of_sync [simp]: "phase_of (syncStalledCondition now cl) = phase_of cl"
  by (simp add: phase_of_def the_record_def syncStalled_keeps)

lemma timed_patch: "timed_right w (fst (patchUpgradeStatus now out m w))"
proof (cases out)
  case Written
  let ?r = "the_record (wStored w)"
  obtain us' ended where st:
    "stampUpgradePhaseTransition (m ?r) (usPhase ?r) (usPhaseStartTime ?r) now = (us', ended)"
    by fastforce
  then have "usPhase us' = usPhase (m ?r)" using stamp_phase by (metis fst_conv)
  then show ?thesis
    using Written st
    by (intro timed_right_stamp [of _ _ ended "m ?r" now us'])
      (auto simp: patchUpgradeStatus_def patched_def Let_def phase_of_def the_record_def
        syncStalled_keeps split: prod.splits)
qed (auto intro: timed_right_same simp: patchUpgradeStatus_def)

lemma status_record_phase [simp]: "usPhase (status_record now p st e r us) = p"
  by (simp add: status_record_def Let_def split: prod.splits)

lemma status_updated_Some:
  assumes "stUpgradeStatus cl = Some us0"
  shows "status_updated now tag p st e r cl =
    Some (syncStalledCondition now ((status_cluster now tag p r cl)\<lparr>stUpgradeStatus :=
       Some (fst (stampUpgradePhaseTransition (status_record now p st e r us0) (usPhase us0) (usPhaseStartTime us0) now))\<rparr>),
     snd (stampUpgradePhaseTransition (status_record now p st e r us0) (usPhase us0) (usPhaseStartTime us0) now))"
  using assms by (simp add: status_updated_def Let_def split: prod.splits)

lemma timed_update: "timed_right w (fst (updateUpgradeStatus now out p st e r w))"
proof (cases "out = Written \<and> stUpgradeStatus (wMem w) \<noteq> None \<and> stUpgradeStatus (wStored w) \<noteq> None")
  case True
  then obtain us0 where us0: "stUpgradeStatus (wStored w) = Some us0" by blast
  let ?st = "stampUpgradePhaseTransition (status_record now p st e r us0) (usPhase us0) (usPhaseStartTime us0) now"
  show ?thesis
    using True us0 status_updated_Some [OF us0]
    by (intro timed_right_stamp [of _ _ "snd ?st" "status_record now p st e r us0" now "fst ?st"])
      (auto simp: updateUpgradeStatus_def Let_def phase_of_def the_record_def syncStalled_keeps)
next
  case False
  then show ?thesis
    by (intro timed_right_same)
      (auto simp: updateUpgradeStatus_def Let_def status_updated_def split: write_outcome.splits
        option.splits prod.splits)
qed

lemma timed_forget: "timed_right w (forgetAbandonedUpgrade now live pods out w)"
proof (cases "phase_of (wStored (forgetAbandonedUpgrade now live pods out w)) = phase_of (wStored w)")
  case True
  moreover have "wLog (forgetAbandonedUpgrade now live pods out w) = wLog w"
    by (auto simp: forgetAbandonedUpgrade_def Let_def split: option.splits write_outcome.splits)
  ultimately show ?thesis by (intro timed_right_same)
next
  case False
  then obtain us l where "stUpgradeStatus (wMem w) = Some us" "stUpgradeStatus (wStored w) = Some l"
    "usPhase l = usPhase us" "upgradeHeld (wMem w)"
    and log: "wLog (forgetAbandonedUpgrade now live pods out w) = wLog w"
    by (auto simp: forgetAbandonedUpgrade_def Let_def split: option.splits write_outcome.splits if_splits)
  then have "\<not> isTimedUpgradePhase (phase_of (wStored w))"
    by (auto simp: isTimedUpgradePhase_def phase_of_def the_record_def upgradeHeld_def upgrade_phases)
  then show ?thesis using log by (simp add: timed_right_def phase_ended_def observations_def)
qed

lemma timed_phase: "timed_right w (fst (writeClusterStatus now out p msg rec extra w))"
proof -
  have "phase_of (cluster_status_set now g p msg rec extra cl) = phase_of cl" for g cl
    by (auto simp: cluster_status_set_def phase_of_def the_record_def split: option.splits)
  then have "phase_of (wStored (fst (writeClusterStatus now out p msg rec extra w))) = phase_of (wStored w)"
    using writeClusterStatus_stored [of now out p msg rec extra w] by auto
  moreover have "observations w (fst (writeClusterStatus now out p msg rec extra w)) = []"
    by (auto simp: writeClusterStatus_def observations_def Let_def split: write_outcome.splits
        option.splits)
  ultimately show ?thesis by (simp add: timed_right_def phase_ended_def)
qed

text \<open>
  A phase's duration is observed exactly once. A status write emits one observation,
  naming the phase that ended and a duration that is not negative, when it moves the stored
  record out of a timed phase whose start was recorded, and none otherwise: not for a write
  that failed, a pass that repeats a transition already stored, or a terminal phase left.
\<close>

theorem phase_observed_exactly_once:
  assumes "status_write w w'"
  shows "(phase_ended (wStored w) (wStored w') \<and>
      (\<exists>d\<ge>0. observations w w' = [PhaseObserved (phase_of (wStored w)) d])) \<or>
    (\<not> phase_ended (wStored w) (wStored w') \<and> observations w w' = [])"
proof -
  have "timed_right w w'"
    using assms
  proof cases
    case (started pods out)
    then show ?thesis
      by (intro timed_right_same) (auto simp: recordStartedTarget_def Let_def phase_of_def the_record_def
          split: option.splits write_outcome.splits)
  next
    case (topology now out want)
    then show ?thesis
      by (intro timed_right_same) (auto simp: writeTopologyDeferral_def Let_def phase_of_def the_record_def
          split: prod.splits option.splits write_outcome.splits)
  next
    case (new_pass cl)
    then show ?thesis by (intro timed_right_same) auto
  qed (simp_all add: timed_patch timed_update timed_forget timed_phase)
  then show ?thesis by (auto simp: timed_right_def split: if_splits)
qed

definition staging_cluster :: cluster where
  "staging_cluster = (new_cluster ''c'' ''neo4j'' ''2026.09.0-enterprise'' 3)
     \<lparr>stPhase := PhaseReady, stVersion := ''2026.08.0-enterprise'',
      stUpgradeStatus := Some (empty_upgrade_status\<lparr>usPhase := upgradePhaseStaging,
        usTargetVersion := ''2026.09.0-enterprise'', usPhaseStartTime := Some 3\<rparr>)\<rparr>"

theorem phase_observed_exactly_once_witness:
  "\<exists>d\<ge>0. observations (world_of staging_cluster None)
     (fst (patchUpgradeStatus 9 Written (\<lambda>us. us\<lparr>usPhase := upgradePhaseRolling\<rparr>) (world_of staging_cluster None)))
   = [PhaseObserved ''Staging'' d]"
proof -
  let ?w = "world_of staging_cluster None"
  let ?w' = "fst (patchUpgradeStatus 9 Written (\<lambda>us. us\<lparr>usPhase := upgradePhaseRolling\<rparr>) ?w)"
  have "phase_ended (wStored ?w) (wStored ?w')" "phase_of (wStored ?w) = ''Staging''" by code_simp+
  then show ?thesis
    using phase_observed_exactly_once [OF status_write.patch, of ?w 9 Written] by metis
qed


section \<open>Dropping an abandoned record\<close>

text \<open>
  When the stored record has moved on meanwhile (here to Staging towards the new tag),
  \<^verbatim>\<open>forgetAbandonedUpgrade\<close> leaves the stored record alone but still clears the record of
  the pass's copy: the rest of the pass takes the cluster for one with no upgrade, although
  the stored upgrade is active.
\<close>

theorem forgetAbandonedUpgrade_forgets_a_live_record:
  "\<exists>w place. serverImageInPlace (wMem w) place None \<noteq> None \<and>
     upgradeStateMachineActive (wStored w) \<and>
     (let w' = forgetAbandonedUpgrade 0 place None Written w in
      wStored w' = wStored w \<and> stUpgradeStatus (wMem w') = None)"
proof -
  let ?stale = "staging_cluster\<lparr>stUpgradeStatus := Some (empty_upgrade_status
    \<lparr>usPhase := upgradePhaseFailed, usTargetVersion := ''2026.08.1-enterprise'',
     usPreviousVersion := ''2026.08.0-enterprise'',
     usStartedTargetVersion := ''2026.08.0-enterprise''\<rparr>)\<rparr>"
  let ?w = "(world_of staging_cluster None)\<lparr>wMem := ?stale\<rparr>"
  let ?place = "Found (sts3 ''neo4j:2026.08.0-enterprise'' 3)"
  have place: "serverImageInPlace (wMem ?w) ?place None =
      Some \<lparr>ipImage = ''neo4j:2026.08.0-enterprise'', ipReady = 3\<rparr>"
    by (simp add: serverImageInPlace_def restorePending_def sts3_def)
  have act: "upgradeStateMachineActive (wStored ?w)" by code_simp
  have tag: "imageTag ''neo4j:2026.08.0-enterprise'' = ''2026.08.0-enterprise''" by code_simp
  have drop: "forgetAbandonedUpgrade 0 ?place None Written ?w =
      ?w\<lparr>wMem := ?stale\<lparr>stUpgradeStatus := None\<rparr>\<rparr>"
    using place tag
    by (simp add: forgetAbandonedUpgrade_def upgradeHeld_def staging_cluster_def new_cluster_def
        world_of_def empty_upgrade_status_def upgrade_phases)
  then show ?thesis
    using place act by (intro exI [of _ ?w] exI [of _ ?place]) (simp add: world_of_def)
qed

end
