(* ===== verification/Upgrade_Machine.thy ===== *)
theory Upgrade_Machine
  imports Status_Writes
begin

text \<open>
  The rolling-upgrade state machine: \<^verbatim>\<open>src/internal/controller/rolling_upgrade_statemachine.go\<close>,
  \<^verbatim>\<open>refuseUpgradeStart\<close> of \<^verbatim>\<open>upgrade_start.go\<close>, the StatefulSet access of \<^verbatim>\<open>rolling_upgrade.go\<close>
  and \<^verbatim>\<open>handleRollingUpgrade\<close> of \<^verbatim>\<open>neo4jenterprisecluster_controller.go\<close>. One pass of the
  reconciler is one call of \<open>handleRollingUpgrade\<close>; what the pass reads from outside - the
  clock, the cache, the pods, Neo4j's answers, which writes land - is the environment of the
  pass, a record of arguments. All clock readings of one pass are one value.
\<close>

section \<open>The model\<close>

subsection \<open>The environment of a pass\<close>

text \<open>
  The update of the StatefulSet reads it back after the write: it can fail before the write
  lands or after.
\<close>

datatype sts_outcome = StsUpdated | StsUpdatedUnread | StsNotUpdated

record env =
  eNow :: int
  eRequeueAfter :: int
  eCachedSts :: "stateful_set api_read"
  eCachedPods :: "pod list option"
  eStoredReadFails :: bool                  \<comment> \<open>the uncached read of the cluster\<close>
  eStsReadFails :: bool                     \<comment> \<open>the uncached read of the StatefulSet\<close>
  eReadError :: string
  ePods :: "pod list option"                \<comment> \<open>the uncached list of server pods\<close>
  eDeleteOk :: "string \<Rightarrow> bool"
  eBuildError :: "string option"            \<comment> \<open>topology placement\<close>
  eHeldTemplate :: held_template            \<comment> \<open>what restoreHeldTemplate finds\<close>
  eOtherChange :: bool                      \<comment> \<open>the template differs beside its images\<close>
  eApplyOk :: bool
  eConfigMapOk :: bool
  eUpdateSts :: sts_outcome
  eClientError :: "string option"           \<comment> \<open>createNeo4jClient\<close>
  eServers :: "server_info list option"     \<comment> \<open>SHOW SERVERS\<close>
  eDatabases :: "string \<Rightarrow> (status_check_row list \<times> database_allocation list) option"
  ePreUpgrade :: "string + server_info list"
  eClusterHealthy :: "bool option"
  eConsensus :: "bool option"
  eReplication :: "bool option"
  eStartText :: "start_error \<Rightarrow> string"       \<comment> \<open>how an error is rendered\<close>
  eVerifyText :: "verify_error \<Rightarrow> string"
  eWriteStarted :: write_outcome
  eWriteTopology :: write_outcome
  eWriteResolved :: write_outcome
  eWriteMessage :: write_outcome
  eWriteRecord :: write_outcome
  eWriteCluster :: write_outcome

datatype result = NoRequeue | RequeueAfter int

definition stepRequeue :: result where "stepRequeue = RequeueAfter upgradeStepRequeue"
definition transitionRequeue :: result where "transitionRequeue = RequeueAfter upgradeTransitionRequeue"

text \<open>An uncached read of the StatefulSet.\<close>

definition readSts :: "env \<Rightarrow> world \<Rightarrow> stateful_set api_read" where
  "readSts e w = (if eStsReadFails e then ReadFailed
     else case wSts w of None \<Rightarrow> NotFound | Some sts \<Rightarrow> Found sts)"

text \<open>The API server counts a generation for every change of the spec.\<close>

definition spec_written :: "stateful_set \<Rightarrow> stateful_set \<Rightarrow> stateful_set" where
  "spec_written live new =
     (if stsReplicas new = stsReplicas live \<and> stsPartition new = stsPartition live \<and>
         stsContainers new = stsContainers live then new
      else new\<lparr>stsGeneration := stsGeneration live + 1\<rparr>)"

subsection \<open>Stopping\<close>

definition pause_phase :: "cluster \<Rightarrow> string" where
  "pause_phase cl = (if autoPauseOnFailure cl then upgradePhasePaused else upgradePhaseFailed)"

definition record_started_at :: "env \<Rightarrow> cluster \<Rightarrow> int" where
  "record_started_at e cl = (case stUpgradeStatus cl of None \<Rightarrow> eNow e
     | Some us \<Rightarrow> (case usStartTime us of None \<Rightarrow> eNow e | Some t \<Rightarrow> t))"

definition stop_event :: "cluster \<Rightarrow> string \<Rightarrow> effect" where
  "stop_event cl cause =
     (if autoPauseOnFailure cl then Event True ''UpgradePaused'' (''Upgrade paused: '' @ cause)
      else Event True ''UpgradeFailed'' (''Rolling upgrade failed: '' @ cause))"

definition failUpgrade ::
    "env \<Rightarrow> string \<Rightarrow> (upgrade_status \<Rightarrow> upgrade_status) \<Rightarrow> world \<Rightarrow> world \<times> result" where
  "failUpgrade e cause prepare w =
     (let cl = wMem w; paused = autoPauseOnFailure cl;
          step = (if paused then ''Upgrade paused due to failure - manual intervention required''
                  else ''Rolling upgrade failed'');
          announce = (usLastError (prepare (the_record (wStored w))) \<noteq> cause);
          (w1, ok) = patchUpgradeStatus (eNow e) (eWriteRecord e)
            (\<lambda>s. (prepare s)\<lparr>usPhase := pause_phase cl, usLastError := cause, usCurrentStep := step,
                              usMessage := step\<rparr>) w
      in if \<not> ok then (w1, stepRequeue)
         else let w2 = logged [UpgradeRecorded False (eNow e - record_started_at e cl)] w1;
                  w3 = noteUpgradeInClusterMessage (eNow e) (eWriteCluster e) w2;
                  w4 = (if announce then logged [stop_event cl cause] w3 else w3)
              in (w4, if paused then NoRequeue else transitionRequeue))"

definition refuseUpgradeStart ::
    "env \<Rightarrow> string \<Rightarrow> (upgrade_status \<Rightarrow> upgrade_status) \<Rightarrow> world \<Rightarrow> world \<times> result" where
  "refuseUpgradeStart e cause prepare w =
     (let cl = wMem w; pause = autoPauseOnFailure cl;
          step = (if pause then ''Upgrade paused before it started - manual intervention required''
                  else ''Rolling upgrade refused before it started; it is tried again'');
          before = the_record (wStored w); prepared = prepare before;
          changed = (usPhase before \<noteq> pause_phase cl \<or>
            usTargetVersion before \<noteq> usTargetVersion prepared \<or> usLastError before \<noteq> cause);
          (w1, ok) = patchUpgradeStatus (eNow e) (eWriteRecord e)
            (\<lambda>s. (prepare s)\<lparr>usPhase := pause_phase cl, usLastError := cause, usCurrentStep := step,
                              usMessage := step\<rparr>) w
      in if \<not> ok then (w1, stepRequeue)
         else let w2 = (if changed
                    then logged [UpgradeRecorded False (eNow e - record_started_at e (wMem w1)),
                                 stop_event cl cause] w1 else w1);
                  w3 = noteUpgradeInClusterMessage (eNow e) (eWriteCluster e) w2
              in (w3, if pause then RequeueAfter (eRequeueAfter e)
                      else RequeueAfter (upgradeStartRetry + upgradeTransitionRequeue)))"

subsection \<open>Starting\<close>

definition announceUpgradeDeferredByDrain :: "world \<Rightarrow> world" where
  "announceUpgradeDeferredByDrain w =
     (let target = specImageTag (wMem w); w1 = w\<lparr>wDrainDeferred := Some target\<rparr> in
      if wDrainDeferred w = Some target then w1
      else logged [Event False ''UpgradeDeferred'' (''Rolling upgrade to '' @ target @
             '' deferred until the in-progress scale-down drain completes'')] w1)"

definition validateStatefulSetsReady :: "stateful_set api_read \<Rightarrow> bool" where
  "validateStatefulSetsReady live =
     (case live of Found sts \<Rightarrow> (case stsReplicas sts of None \<Rightarrow> False
                                | Some r \<Rightarrow> stsReadyReplicas sts = r)
      | _ \<Rightarrow> False)"

definition start_message :: "serversDown option \<Rightarrow> bool \<Rightarrow> upgrade_status option \<Rightarrow> string \<Rightarrow> string \<Rightarrow> string" where
  "start_message repair resumed held previousVersion targetVersion =
     (let heldPhase = (case held of None \<Rightarrow> [] | Some h \<Rightarrow> usPhase h);
          move = previousVersion @ '' -> '' @ targetVersion in
      case repair of
        Some d \<Rightarrow> ''Rolling upgrade resumed after it was '' @ heldPhase @ '': '' @ move @ ''; '' @
          join '', '' (sdFailing d) @ '' cannot start on '' @
          (case held of None \<Rightarrow> [] | Some h \<Rightarrow> usTargetVersion h) @ '' and is replaced first''
      | None \<Rightarrow> if resumed then ''Rolling upgrade resumed after it was '' @ heldPhase @ '': '' @ move
                else ''Rolling upgrade started: '' @ move)"

text \<open>\<open>drain\<close> is the step of the scale-down drain, which another component provides.\<close>

definition startRollingUpgrade :: "(world \<Rightarrow> world) \<Rightarrow> env \<Rightarrow> world \<Rightarrow> world \<times> result" where
  "startRollingUpgrade drain e w =
     (if scaleDownDrainInProgress (wMem w)
      then (announceUpgradeDeferredByDrain (drain w), stepRequeue)
      else
        let servers = (case eCachedSts e of
              Found sts \<Rightarrow> (case stsReplicas sts of None \<Rightarrow> specServers (wMem w) | Some r \<Rightarrow> r)
            | _ \<Rightarrow> specServers (wMem w));
            previousVersion = stVersion (wMem w);
            targetVersion = specImageTag (wMem w);
            w1 = recordStartedTarget (eCachedPods e) (eWriteStarted e) w;
            cl = wMem w1;
            held = stUpgradeStatus cl;
            record = (\<lambda>_. newUpgradeRecord held previousVersion targetVersion servers (eNow e));
            repair = heldUpgradeRepair cl (eCachedSts e) (eCachedPods e);
            refused = ValidateTagAgainstRunning cl;
            checked = (case specUpgradeStrategy cl of None \<Rightarrow> True | Some s \<Rightarrow> PreUpgradeHealthCheck s)
        in if refused \<noteq> [] then refuseUpgradeStart e (eStartText e (VersionIncompatible refused)) record w1
           else if repair = None \<and> \<not> validateStatefulSetsReady (eCachedSts e) then (w1, stepRequeue)
           else case (if repair = None \<and> checked then preUpgradeCheck cl (ePreUpgrade e) else None) of
             Some err \<Rightarrow> refuseUpgradeStart e (eStartText e err) record w1
           | None \<Rightarrow>
             (let (w2, ok) = patchUpgradeStatus (eNow e) (eWriteRecord e) record w1 in
              if \<not> ok then (w2, transitionRequeue)
              else let w3 = noteUpgradeInClusterMessage (eNow e) (eWriteCluster e) (w2\<lparr>wDeferred := None\<rparr>)
                   in (logged [Event False ''UpgradeStarted'' (start_message repair
                         (sameHeldUpgrade held previousVersion) held previousVersion targetVersion)] w3,
                       transitionRequeue)))"

subsection \<open>Staging\<close>

definition staging_done :: "int \<Rightarrow> int \<Rightarrow> upgrade_status \<Rightarrow> upgrade_status" where
  "staging_done now part us =
     us\<lparr>usPhase := upgradePhaseRolling, usCurrentPartition := Some part, usStepStartTime := Some now,
        usCurrentStep := ''Rolling servers to the target version'',
        usMessage := ''Rolling servers to the target version''\<rparr>"

definition staging_moved_on :: "env \<Rightarrow> world \<Rightarrow> bool" where
  "staging_moved_on e w =
     (\<not> eStoredReadFails e \<and>
      (case stUpgradeStatus (wStored w) of None \<Rightarrow> False
       | Some fresh \<Rightarrow> usPhase fresh \<noteq> upgradePhaseStaging \<or>
                      usTargetVersion fresh \<noteq> usTargetVersion (the_record (wMem w))))"

definition stage_at :: "env \<Rightarrow> stateful_set \<Rightarrow> stateful_set \<Rightarrow> int \<Rightarrow> world \<Rightarrow> world \<times> result" where
  "stage_at e live desired part w =
     (if \<not> eApplyOk e then (w, stepRequeue)
      else let w1 = w\<lparr>wSts := Some (spec_written live (applyServerStatefulSet (wMem w) (eOtherChange e)
                             (eHeldTemplate e) (desired\<lparr>stsPartition := Some part\<rparr>) live))\<rparr> in
        if \<not> eConfigMapOk e then (w1, stepRequeue)
        else (fst (patchUpgradeStatus (eNow e) (eWriteRecord e) (staging_done (eNow e) part) w1),
              transitionRequeue))"

definition stepUpgradeStaging :: "env \<Rightarrow> world \<Rightarrow> world \<times> result" where
  "stepUpgradeStaging e w =
     (let cl = wMem w in
      if upgradeStepDeadlineExceeded (stUpgradeStatus cl) (getUpgradeTimeout cl) (eNow e)
      then failUpgrade e ''timed out staging the target pod template'' id w
      else if staging_moved_on e w then (w, transitionRequeue)
      else case readSts e w of
        Found live \<Rightarrow>
          (case stsReplicas live of
             None \<Rightarrow> failUpgrade e ''server StatefulSet has zero replicas configured'' id w
           | Some replicas \<Rightarrow>
             if replicas = 0 then failUpgrade e ''server StatefulSet has zero replicas configured'' id w
             else case eBuildError e of
               Some err \<Rightarrow> failUpgrade e err id w
             | None \<Rightarrow>
               if restorePending live \<noteq> None
               then (if eApplyOk e
                     then w\<lparr>wSts := Some (spec_written live (applyServerStatefulSet cl (eOtherChange e)
                            (eHeldTemplate e) (buildServerStatefulSet cl) live))\<rparr>
                     else w, transitionRequeue)
               else let desired = (buildServerStatefulSet cl)\<lparr>stsReplicas := Some replicas\<rparr> in
                 case ePods e of None \<Rightarrow> (w, stepRequeue)
                 | Some pods \<Rightarrow>
                   (case stage_decision cl live desired replicas pods of
                      StageWait reason \<Rightarrow> (w, stepRequeue)
                    | StageAt part \<Rightarrow> stage_at e live desired part w))
      | _ \<Rightarrow> failUpgrade e (''failed to get server StatefulSet: '' @ eReadError e) id w)"

subsection \<open>Rolling\<close>

text \<open>The pods deleted so that the update replaces them; the events go with them.\<close>

definition replaceStuckServerPods :: "env \<Rightarrow> stateful_set \<Rightarrow> effect list" where
  "replaceStuckServerPods e live =
     (case ePods e of None \<Rightarrow> []
      | Some pods \<Rightarrow> map (\<lambda>(p, why). PodDeleted (podName p))
                    (filter (\<lambda>(p, why). eDeleteOk e (podName p)) (stuckServerPods live pods)))"

definition roll_partition :: "upgrade_status \<Rightarrow> stateful_set \<Rightarrow> int \<Rightarrow> int" where
  "roll_partition us live replicas =
     (case usCurrentPartition us of Some p \<Rightarrow> p
      | None \<Rightarrow> (case stsPartition live of Some p \<Rightarrow> p | None \<Rightarrow> replicas))"

definition isServerAvailable :: "env \<Rightarrow> string \<Rightarrow> bool \<times> string" where
  "isServerAvailable e pod =
     (case eClientError e of Some _ \<Rightarrow> (False, [])
      | None \<Rightarrow> (case eServers e of None \<Rightarrow> (False, []) | Some servers \<Rightarrow> podServerAvailable servers pod))"

text \<open>\<open>None\<close>: the gate could not be read.\<close>

definition lastRolledDatabasesCaughtUp :: "env \<Rightarrow> string \<Rightarrow> (bool \<times> string list) option" where
  "lastRolledDatabasesCaughtUp e pod =
     map_option (\<lambda>(checks, allocs). evaluateDatabaseGate pod checks allocs) (eDatabases e pod)"

definition resolve_target :: "string \<Rightarrow> upgrade_status \<Rightarrow> upgrade_status" where
  "resolve_target version s =
     (case resolvedTargetVersionFor s version of (want, ok) \<Rightarrow>
        if ok then s\<lparr>usResolvedTargetVersion := want\<rparr> else s)"

text \<open>
  The two gates Neo4j answers, read once the Kubernetes rollout of the step is complete: the
  world with what they record, the record the step goes on with, the server's availability,
  its databases, and the databases that lag.
\<close>

definition neo4j_gates ::
    "env \<Rightarrow> int \<Rightarrow> upgrade_status \<Rightarrow> world \<Rightarrow> world \<times> upgrade_status \<times> bool \<times> bool \<times> string list" where
  "neo4j_gates e part us w =
     (let pod = serverPodName (clName (wMem w)) part;
          (available, version) = isServerAvailable e pod in
      if \<not> available then (w, us, False, False, [])
      else let changed = snd (resolvedTargetVersionFor us version);
               w1 = (if changed then fst (patchUpgradeStatus (eNow e) (eWriteResolved e) (resolve_target version) w)
                     else w);
               us1 = (if changed then the_record (wMem w1) else us) in
        case lastRolledDatabasesCaughtUp e pod of
          None \<Rightarrow> (w1, us1, True, False, [])
        | Some (caughtUp, notReady) \<Rightarrow>
            if caughtUp then (w1, us1, True, True, [])
            else let msg = databaseGateMessage part notReady;
                     w2 = (if usMessage us1 \<noteq> msg
                           then fst (patchUpgradeStatus (eNow e) (eWriteMessage e) (\<lambda>s. s\<lparr>usMessage := msg\<rparr>) w1)
                           else w1)
                 in (w2, us1, True, False, notReady))"

definition roll_done :: "int \<Rightarrow> int \<Rightarrow> upgrade_status \<Rightarrow> upgrade_status" where
  "roll_done now replicas s =
     s\<lparr>usPhase := upgradePhaseStabilizing, usStepStartTime := Some now,
       usCurrentStep := ''All servers rolled; waiting for cluster stabilization'',
       usMessage := ''All servers rolled; waiting for cluster stabilization'',
       usProgress := map_option (\<lambda>p. p\<lparr>Upgraded := replicas, Pending := 0, InProgress := 0\<rparr>) (usProgress s)\<rparr>"

definition roll_lowered :: "int \<Rightarrow> int \<Rightarrow> int \<Rightarrow> upgrade_status \<Rightarrow> upgrade_status" where
  "roll_lowered now replicas part s =
     (let step = ''Rolling server ordinal '' @ itoa (part - 1) in
      s\<lparr>usCurrentPartition := Some (part - 1), usStepStartTime := Some now, usCurrentStep := step,
        usMessage := step,
        usProgress := map_option (\<lambda>p. p\<lparr>Upgraded := replicas - part, InProgress := 1,
           Pending := max 0 (part - 1)\<rparr>) (usProgress s)\<rparr>)"

definition roll_observation ::
    "stateful_set \<Rightarrow> int \<Rightarrow> int \<Rightarrow> bool \<Rightarrow> bool \<Rightarrow> upgradeRollObservation" where
  "roll_observation live replicas part available caughtUp =
     \<lparr>Replicas = replicas, Partition = part, Generation = stsGeneration live,
      ObservedGeneration = stsObservedGeneration live, UpdatedReplicas = stsUpdatedReplicas live,
      ReadyReplicas = stsReadyReplicas live, LastRolledAvailable = available,
      LastRolledDatabasesCaughtUp = caughtUp\<rparr>"

definition kubernetes_settled :: "stateful_set \<Rightarrow> int \<Rightarrow> int \<Rightarrow> bool" where
  "kubernetes_settled live replicas part \<longleftrightarrow> stsObservedGeneration live \<ge> stsGeneration live \<and>
     stsUpdatedReplicas live \<ge> replicas - part \<and> stsReadyReplicas live \<ge> replicas"

text \<open>The action of the Rolling step, once everything is read.\<close>

definition roll_act ::
    "env \<Rightarrow> stateful_set \<Rightarrow> int \<Rightarrow> int \<Rightarrow> upgrade_status \<Rightarrow> string list \<Rightarrow> upgradeRollDecision \<Rightarrow>
     world \<Rightarrow> world \<times> result" where
  "roll_act e live replicas part us lagging decision w =
     (case decision of
        rollWait \<Rightarrow>
          if upgradeStepDeadlineExceeded (Some us) (getUpgradeTimeout (wMem w)) (eNow e)
          then failUpgrade e
                 (if lagging \<noteq> []
                  then ''timed out waiting for the databases on server ordinal '' @ itoa part @
                       '' to catch up ('' @ databaseNameList lagging @ '')''
                  else ''timed out waiting for server ordinal '' @ itoa part @
                       '' to roll and rejoin the cluster'') id w
          else (w, stepRequeue)
      | rollDone \<Rightarrow>
          (fst (patchUpgradeStatus (eNow e) (eWriteRecord e) (roll_done (eNow e) replicas) w),
           transitionRequeue)
      | rollLower \<Rightarrow>
          (let w1 = (if eUpdateSts e = StsNotUpdated then w
                     else w\<lparr>wSts := Some (spec_written live (live\<lparr>stsPartition := Some (part - 1)\<rparr>))\<rparr>)
           in if eUpdateSts e \<noteq> StsUpdated then (w1, stepRequeue)
              else (fst (patchUpgradeStatus (eNow e) (eWriteRecord e)
                          (roll_lowered (eNow e) replicas part) w1), stepRequeue)))"

definition roll_with ::
    "env \<Rightarrow> stateful_set \<Rightarrow> int \<Rightarrow> upgrade_status \<Rightarrow> world \<Rightarrow> world \<times> result" where
  "roll_with e live replicas us w =
     (let w1 = (if stsReadyReplicas live < replicas then logged (replaceStuckServerPods e live) w else w);
          w2 = reportTopologyDeferral (eNow e) (eWriteTopology e) (specServers (wMem w1)) replicas w1;
          part = roll_partition us live replicas;
          (w3, us3, available, caughtUp, lagging) =
            (if kubernetes_settled live replicas part \<and> part < replicas
             then neo4j_gates e part us w2 else (w2, us, False, False, []))
      in roll_act e live replicas part us3 lagging
           (planUpgradeRollStep (roll_observation live replicas part available caughtUp)) w3)"

definition stepUpgradeRolling :: "env \<Rightarrow> world \<Rightarrow> world \<times> result" where
  "stepUpgradeRolling e w0 =
     (let w = recordStartedTarget (eCachedPods e) (eWriteStarted e) w0 in
      case readSts e w of
        Found live \<Rightarrow>
          (let replicas = (case stsReplicas live of None \<Rightarrow> 0 | Some r \<Rightarrow> r) in
           if replicas = 0 then failUpgrade e ''server StatefulSet has zero replicas configured'' id w
           else roll_with e live replicas (the_record (wMem w)) w)
      | NotFound \<Rightarrow> failUpgrade e (''failed to get server StatefulSet: '' @ eReadError e) id w
      | ReadFailed \<Rightarrow> (w, stepRequeue))"

subsection \<open>Stabilizing and verifying\<close>

definition transitionToVerifying :: "env \<Rightarrow> string \<Rightarrow> world \<Rightarrow> world \<times> result" where
  "transitionToVerifying e step w =
     (fst (patchUpgradeStatus (eNow e) (eWriteRecord e)
        (\<lambda>s. s\<lparr>usPhase := upgradePhaseVerifying, usStepStartTime := Some (eNow e),
                usCurrentStep := step, usMessage := step\<rparr>) w), transitionRequeue)"

definition stepUpgradeStabilizing :: "env \<Rightarrow> world \<Rightarrow> world \<times> result" where
  "stepUpgradeStabilizing e w =
     (let cl = wMem w;
          healthy = (eClientError e = None \<and> eClusterHealthy e = Some True \<and>
                     eConsensus e = Some True \<and> eReplication e = Some True) in
      if (case specUpgradeStrategy cl of None \<Rightarrow> False | Some s \<Rightarrow> \<not> PostUpgradeHealthCheck s)
      then transitionToVerifying e ''Post-upgrade health check disabled; verifying versions'' w
      else if \<not> healthy then
        (if upgradeStepDeadlineExceeded (stUpgradeStatus cl) (getStabilizationTimeout cl) (eNow e)
         then failUpgrade e ''cluster failed to stabilize after the rolling upgrade'' id w
         else (w, stepRequeue))
      else transitionToVerifying e ''Cluster stable; verifying server versions'' w)"

definition completeUpgrade :: "env \<Rightarrow> string \<Rightarrow> world \<Rightarrow> world \<times> bool" where
  "completeUpgrade e reported w =
     (let (w1, ok) = updateUpgradeStatus (eNow e) (eWriteRecord e) upgradePhaseCompleted
            ''Rolling upgrade completed successfully'' [] reported w in
      if \<not> ok then (w1, False)
      else (fst (updateClusterStatusWithVersion (eNow e) (eWriteCluster e) PhaseReady
              ''Rolling upgrade completed successfully'' (specImageTag (wMem w1)) [] w1), True))"

definition stepUpgradeVerifying :: "env \<Rightarrow> world \<Rightarrow> world \<times> result" where
  "stepUpgradeVerifying e w =
     (let cl = wMem w;
          late = upgradeStepDeadlineExceeded (stUpgradeStatus cl) (getHealthCheckTimeout cl) (eNow e) in
      case eClientError e of
        Some err \<Rightarrow>
          if late then failUpgrade e (''failed to create Neo4j client for verification: '' @ err) id w
          else (w, stepRequeue)
      | None \<Rightarrow>
          (case verifyVersionUpgrade cl (eServers e) of
             Inl err \<Rightarrow>
               if late then failUpgrade e (''post-upgrade version verification failed: '' @ eVerifyText e err) id w
               else (w, stepRequeue)
           | Inr reported \<Rightarrow>
               (let start = record_started_at e cl; (w1, ok) = completeUpgrade e reported w in
                if \<not> ok then (w1, transitionRequeue)
                else (logged [UpgradeRecorded True (eNow e - start),
                        Event False ''UpgradeCompleted'' ''Rolling upgrade completed successfully''] w1,
                      RequeueAfter (eRequeueAfter e)))))"

subsection \<open>The handler\<close>

definition retargeted :: "int \<Rightarrow> string \<Rightarrow> upgrade_status \<Rightarrow> upgrade_status" where
  "retargeted now newTarget us =
     us\<lparr>usPhase := upgradePhaseStaging, usTargetVersion := newTarget, usStepStartTime := Some now,
        usCurrentStep := ''Re-staging: upgrade target changed mid-flight'',
        usMessage := ''Re-staging: upgrade target changed mid-flight''\<rparr>"

definition retargetUpgrade :: "env \<Rightarrow> world \<Rightarrow> world \<times> result" where
  "retargetUpgrade e w0 =
     (let w = recordStartedTarget (eCachedPods e) (eWriteStarted e) w0 in
      if ValidateTagAgainstRunning (wMem w) \<noteq> [] then (w, transitionRequeue)
      else let newTarget = specImageTag (wMem w);
               before = the_record (wStored w);
               (w1, ok) = patchUpgradeStatus (eNow e) (eWriteRecord e) (retargeted (eNow e) newTarget) w
           in if \<not> ok then (w1, transitionRequeue)
              else let w2 = noteUpgradeInClusterMessage (eNow e) (eWriteCluster e) w1
                   in (if usTargetVersion before \<noteq> newTarget
                       then logged [Event False ''UpgradeRetargeted'' (''Rolling upgrade retargeted from '' @
                              usTargetVersion before @ '' to '' @ newTarget @ '' during '' @ usPhase before @
                              ''; the new target is staged'')] w2
                       else w2, transitionRequeue))"

definition readStored :: "env \<Rightarrow> world \<Rightarrow> cluster api_read" where
  "readStored e w = (if eStoredReadFails e then ReadFailed else Found (wStored w))"

definition handleRollingUpgrade :: "(world \<Rightarrow> world) \<Rightarrow> env \<Rightarrow> world \<Rightarrow> world \<times> result" where
  "handleRollingUpgrade drain e w =
     (let cl = wMem w;
          phase = (case stUpgradeStatus cl of None \<Rightarrow> [] | Some us \<Rightarrow> usPhase us) in
      if upgradeStateMachineActive cl \<and> phase \<noteq> upgradePhaseLegacyInProgress \<and>
         usTargetVersion (the_record cl) \<noteq> specImageTag cl
      then retargetUpgrade e w
      else if phase \<in> set [upgradePhaseRolling, upgradePhaseStabilizing, upgradePhaseVerifying] \<and>
              upgradeRecordMovedOn cl (readStored e w)
      then (w, transitionRequeue)
      else if phase = upgradePhaseStaging then stepUpgradeStaging e w
      else if phase = upgradePhaseRolling then stepUpgradeRolling e w
      else if phase = upgradePhaseStabilizing then stepUpgradeStabilizing e w
      else if phase = upgradePhaseVerifying then stepUpgradeVerifying e w
      else if phase = upgradePhaseLegacyInProgress then
        (fst (patchUpgradeStatus (eNow e) (eWriteRecord e)
           (\<lambda>us. us\<lparr>usPhase := upgradePhaseStaging, usStepStartTime := Some (eNow e),
                    usCurrentStep := ''Resuming interrupted upgrade''\<rparr>) w), transitionRequeue)
      else startRollingUpgrade drain e w)"

text \<open>
  The upgrade branch of \<^verbatim>\<open>Reconcile\<close>, after validation: \<open>None\<close> when the normal pass goes on
  instead, with the world it starts from.
\<close>

definition reconcileUpgrade :: "(world \<Rightarrow> world) \<Rightarrow> env \<Rightarrow> world \<Rightarrow> world \<times> result option" where
  "reconcileUpgrade drain e w =
     (let w1 = (if upgradeHeld (wMem w)
                then forgetAbandonedUpgrade (eNow e) (eCachedSts e) (eCachedPods e) (eWriteRecord e)
                       (recordStartedTarget (eCachedPods e) (eWriteStarted e) w)
                else w) in
      if upgradeStateMachineActive (wMem w1) \<or>
         isUpgradeRequired (wMem w1) (eCachedSts e) (eCachedPods e) (eNow e)
      then (case handleRollingUpgrade drain e w1 of (w2, r) \<Rightarrow> (w2, Some r))
      else (w1, None))"


section \<open>What each step leaves alone\<close>

lemma recordStarted_mem:
  "wMem (recordStartedTarget pods out w) = wMem w \<or>
   (\<exists>us v. stUpgradeStatus (wMem w) = Some us \<and> wMem (recordStartedTarget pods out w) =
      (wMem w)\<lparr>stUpgradeStatus := Some (us\<lparr>usStartedTargetVersion := v\<rparr>)\<rparr>)"
  by (auto simp: recordStartedTarget_def Let_def split: option.splits write_outcome.splits)

lemma recordStarted_stored:
  "wStored (recordStartedTarget pods out w) = wStored w \<or>
   (\<exists>us v. stUpgradeStatus (wStored w) = Some us \<and> wStored (recordStartedTarget pods out w) =
      (wStored w)\<lparr>stUpgradeStatus := Some (us\<lparr>usStartedTargetVersion := v\<rparr>)\<rparr>)"
  by (auto simp: recordStartedTarget_def Let_def split: option.splits write_outcome.splits)

lemma recordStarted_keeps [simp]:
  "specImageTag (wMem (recordStartedTarget pods out w)) = specImageTag (wMem w)"
  "clName (wMem (recordStartedTarget pods out w)) = clName (wMem w)"
  "specUpgradeStrategy (wMem (recordStartedTarget pods out w)) = specUpgradeStrategy (wMem w)"
  "stVersion (wStored (recordStartedTarget pods out w)) = stVersion (wStored w)"
  "phase_of (wMem (recordStartedTarget pods out w)) = phase_of (wMem w)"
  "phase_of (wStored (recordStartedTarget pods out w)) = phase_of (wStored w)"
  "usCurrentPartition (the_record (wMem (recordStartedTarget pods out w))) =
     usCurrentPartition (the_record (wMem w))"
  "usStepStartTime (the_record (wMem (recordStartedTarget pods out w))) =
     usStepStartTime (the_record (wMem w))"
  using recordStarted_mem [of pods out w] recordStarted_stored [of pods out w]
  by (auto simp: phase_of_def the_record_def)

lemma failUpgrade_sts [simp]: "wSts (fst (failUpgrade e c p w)) = wSts w"
  by (simp add: failUpgrade_def Let_def case_prod_beta)

lemma refuseUpgradeStart_sts [simp]: "wSts (fst (refuseUpgradeStart e c p w)) = wSts w"
  by (simp add: refuseUpgradeStart_def Let_def case_prod_beta)

lemma neo4j_gates_sts: "wSts (fst (neo4j_gates e part us w)) = wSts w"
  by (simp add: neo4j_gates_def Let_def case_prod_beta split: option.splits)

lemma verifying_sts [simp]: "wSts (fst (stepUpgradeVerifying e w)) = wSts w"
proof -
  have "wSts (fst (completeUpgrade e r w)) = wSts w" for r
    by (simp add: completeUpgrade_def updateClusterStatusWithVersion_def Let_def case_prod_beta)
  then show ?thesis
    by (simp add: stepUpgradeVerifying_def Let_def case_prod_beta split: option.splits sum.splits)
qed

lemma stabilizing_sts [simp]: "wSts (fst (stepUpgradeStabilizing e w)) = wSts w"
  by (simp add: stepUpgradeStabilizing_def transitionToVerifying_def Let_def)

lemma retarget_sts [simp]: "wSts (fst (retargetUpgrade e w)) = wSts w"
  by (simp add: retargetUpgrade_def Let_def case_prod_beta)


section \<open>The walk\<close>

text \<open>
  Everything the walk has verified when it moves on from a partition: the StatefulSet
  controller has acted on the latest template, every server at or above the partition is on
  it, every server is Ready, and the server at the partition is available in SHOW SERVERS
  with every database copy caught up.
\<close>

definition server_verified :: "env \<Rightarrow> string \<Rightarrow> bool" where
  "server_verified e pod \<longleftrightarrow> eClientError e = None \<and>
     (\<exists>servers. eServers e = Some servers \<and>
        (\<exists>s\<in>set servers. addressIsPod (srvAddress s) pod \<and> serverServes s)) \<and>
     (\<exists>checks allocs. eDatabases e pod = Some (checks, allocs) \<and>
        fst (evaluateDatabaseGate pod checks allocs))"

definition step_verified :: "env \<Rightarrow> string \<Rightarrow> stateful_set \<Rightarrow> int \<Rightarrow> int \<Rightarrow> bool" where
  "step_verified e cname live replicas part \<longleftrightarrow> kubernetes_settled live replicas part \<and>
     (part < replicas \<longrightarrow> server_verified e (serverPodName cname part))"

lemma neo4j_gates_open:
  assumes "neo4j_gates e part us w = (w', us', True, True, lagging)"
  shows "server_verified e (serverPodName (clName (wMem w)) part)"
proof -
  let ?pod = "serverPodName (clName (wMem w)) part"
  have a: "fst (isServerAvailable e ?pod)"
    using assms by (auto simp: neo4j_gates_def Let_def split: prod.splits if_splits)
  then obtain servers where s: "eClientError e = None" "eServers e = Some servers"
    "fst (podServerAvailable servers ?pod)"
    by (auto simp: isServerAvailable_def split: option.splits)
  then have "\<exists>s\<in>set servers. addressIsPod (srvAddress s) ?pod \<and> serverServes s"
    using podServerAvailable_sound [of servers ?pod] by (metis prod.collapse)
  moreover have "\<exists>checks allocs. eDatabases e ?pod = Some (checks, allocs) \<and>
      fst (evaluateDatabaseGate ?pod checks allocs)"
    using assms a
    by (auto simp: neo4j_gates_def Let_def lastRolledDatabasesCaughtUp_def
        split: prod.splits if_splits option.splits)
  ultimately show ?thesis using s by (auto simp: server_verified_def)
qed

lemma roll_act_sts:
  "wSts (fst (roll_act e live r part us lag dec w)) = wSts w \<or>
   dec = rollLower \<and> wSts (fst (roll_act e live r part us lag dec w)) =
     Some (spec_written live (live\<lparr>stsPartition := Some (part - 1)\<rparr>))"
  by (auto simp: roll_act_def Let_def split: upgradeRollDecision.splits)

lemma topology_keeps [simp]:
  "wSts (reportTopologyDeferral now out a b w) = wSts w"
  "clName (wMem (reportTopologyDeferral now out a b w)) = clName (wMem w)"
  "stUpgradeStatus (wMem (reportTopologyDeferral now out a b w)) = stUpgradeStatus (wMem w)"
  "stUpgradeStatus (wStored (reportTopologyDeferral now out a b w)) = stUpgradeStatus (wStored w)"
  "stVersion (wStored (reportTopologyDeferral now out a b w)) = stVersion (wStored w)"
  by (auto simp: reportTopologyDeferral_def writeTopologyDeferral_def Let_def
      split: prod.splits write_outcome.splits)

lemma roll_with_sts:
  assumes "wSts (fst (roll_with e live r us w)) \<noteq> wSts w"
  shows "wSts (fst (roll_with e live r us w)) =
      Some (spec_written live (live\<lparr>stsPartition := Some (roll_partition us live r - 1)\<rparr>)) \<and>
    roll_partition us live r \<noteq> 0 \<and>
    step_verified e (clName (wMem w)) live r (roll_partition us live r)"
proof -
  let ?part = "roll_partition us live r"
  define w2 where "w2 = reportTopologyDeferral (eNow e) (eWriteTopology e)
    (specServers (wMem (if stsReadyReplicas live < r then logged (replaceStuckServerPods e live) w else w))) r
    (if stsReadyReplicas live < r then logged (replaceStuckServerPods e live) w else w)"
  obtain w3 us3 av cu lag where g:
    "(if kubernetes_settled live r ?part \<and> ?part < r then neo4j_gates e ?part us w2
      else (w2, us, False, False, [])) = (w3, us3, av, cu, lag)"
    by (metis prod_cases5)
  let ?dec = "planUpgradeRollStep (roll_observation live r ?part av cu)"
  have run: "roll_with e live r us w = roll_act e live r ?part us3 lag ?dec w3"
    unfolding roll_with_def Let_def w2_def [symmetric] g by simp
  have w2: "wSts w2 = wSts w" "clName (wMem w2) = clName (wMem w)"
    by (simp_all add: w2_def)
  have "wSts w3 = wSts w2"
    using g neo4j_gates_sts [of e ?part us w2] by (auto split: if_splits)
  then have dec: "?dec = rollLower" "wSts (fst (roll_with e live r us w)) =
      Some (spec_written live (live\<lparr>stsPartition := Some (?part - 1)\<rparr>))"
    using assms roll_act_sts [of e live r ?part us3 lag ?dec w3] w2 run by auto
  then have o: "roll_gates_open (roll_observation live r ?part av cu)" "?part \<noteq> 0"
    by (auto simp: planUpgradeRollStep_iff roll_observation_def)
  then have settled: "kubernetes_settled live r ?part" and gates: "?part < r \<Longrightarrow> av \<and> cu"
    by (auto simp: roll_gates_open_def roll_observation_def kubernetes_settled_def)
  have "server_verified e (serverPodName (clName (wMem w)) ?part)" if "?part < r"
    using g settled gates [OF that] that neo4j_gates_open [of e ?part us w2 w3 us3 lag] w2(2)
    by simp
  then show ?thesis using dec o settled by (simp add: step_verified_def)
qed

lemma rolling_sts:
  assumes "wSts (fst (stepUpgradeRolling e w)) \<noteq> wSts w"
  shows "\<exists>live r. wSts w = Some live \<and> stsReplicas live = Some r \<and>
    (let part = roll_partition (the_record (wMem w)) live r in
      part \<noteq> 0 \<and> step_verified e (clName (wMem w)) live r part \<and>
      wSts (fst (stepUpgradeRolling e w)) =
        Some (spec_written live (live\<lparr>stsPartition := Some (part - 1)\<rparr>)))"
proof -
  define w1 where "w1 = recordStartedTarget (eCachedPods e) (eWriteStarted e) w"
  have w1: "wSts w1 = wSts w" "clName (wMem w1) = clName (wMem w)" by (simp_all add: w1_def)
  have rp: "roll_partition (the_record (wMem w1)) live r = roll_partition (the_record (wMem w)) live r"
    for live r by (simp add: roll_partition_def w1_def)
  obtain live where read: "readSts e w1 = Found live"
    using assms w1(1) unfolding stepUpgradeRolling_def Let_def w1_def [symmetric]
    by (cases "readSts e w1") auto
  then have "wSts w1 = Some live" by (auto simp: readSts_def split: option.splits if_splits)
  then have live: "readSts e w1 = Found live" "wSts w = Some live" using read w1(1) by simp_all
  have r0: "stsReplicas live \<noteq> None"
    using assms w1(1) live(1) unfolding stepUpgradeRolling_def Let_def w1_def [symmetric]
    by (cases "stsReplicas live") auto
  then obtain r where r: "stsReplicas live = Some r" by blast
  have step: "stepUpgradeRolling e w = roll_with e live r (the_record (wMem w1)) w1"
    using assms w1(1) live(1) r unfolding stepUpgradeRolling_def Let_def w1_def [symmetric]
    by (auto split: if_splits)
  show ?thesis
    using roll_with_sts [of e live r "the_record (wMem w1)" w1] assms step live(2) r w1
    by (simp add: rp Let_def)
qed


section \<open>Staging\<close>

lemma apply_keeps_replicas [simp]:
  "stsReplicas desired = stsReplicas live \<Longrightarrow>
   stsReplicas (applyServerStatefulSet owner oc held desired live) = stsReplicas live"
  by (simp add: applyServerStatefulSet_def)

lemma apply_partition [simp]:
  "restorePending live = None \<Longrightarrow> stsPartition desired = Some q \<Longrightarrow>
   eff_partition (applyServerStatefulSet owner oc held desired live) = q"
  by (simp add: applyServerStatefulSet_def eff_partition_def)

lemma spec_written_fields [simp]:
  "stsReplicas (spec_written live new) = stsReplicas new"
  "eff_partition (spec_written live new) = eff_partition new"
  "stsContainers (spec_written live new) = stsContainers new"
  "stsPartition (spec_written live new) = stsPartition new"
  by (auto simp: spec_written_def eff_partition_def)

text \<open>What a Staging pass that wrote the StatefulSet wrote.\<close>

lemma staging_sts:
  assumes "wSts (fst (stepUpgradeStaging e w)) \<noteq> wSts w"
  shows "\<exists>live r. wSts w = Some live \<and> stsReplicas live = Some r \<and> r \<noteq> 0 \<and> \<not> staging_moved_on e w \<and>
    (restorePending live \<noteq> None \<and>
       wSts (fst (stepUpgradeStaging e w)) = Some (spec_written live (restore_held (eHeldTemplate e) live)) \<or>
     (\<exists>pods q new. ePods e = Some pods \<and>
        stage_decision (wMem w) live ((buildServerStatefulSet (wMem w))\<lparr>stsReplicas := Some r\<rparr>) r pods = StageAt q \<and>
        wSts (fst (stepUpgradeStaging e w)) = Some new \<and> stsReplicas new = Some r \<and> eff_partition new = q))"
proof -
  have moved: "\<not> staging_moved_on e w"
    using assms by (rule contrapos_nn) (simp add: stepUpgradeStaging_def Let_def)
  have dl: "\<not> upgradeStepDeadlineExceeded (stUpgradeStatus (wMem w)) (getUpgradeTimeout (wMem w)) (eNow e)"
    using assms by (rule contrapos_nn) (simp add: stepUpgradeStaging_def)
  obtain live where read: "readSts e w = Found live"
    using assms moved dl by (cases "readSts e w") (auto simp: stepUpgradeStaging_def Let_def)
  then have live: "wSts w = Some live" by (auto simp: readSts_def split: option.splits if_splits)
  obtain r where r: "stsReplicas live = Some r" "r \<noteq> 0" and b: "eBuildError e = None"
    using assms moved dl read
    by (cases "stsReplicas live"; cases "eBuildError e")
      (auto simp: stepUpgradeStaging_def Let_def split: if_splits)
  show ?thesis
  proof (cases "restorePending live = None")
    case False
    then have "wSts (fst (stepUpgradeStaging e w)) = Some (spec_written live (restore_held (eHeldTemplate e) live))"
      using assms moved dl read r b
      by (simp add: stepUpgradeStaging_def Let_def applyServerStatefulSet_def split: if_splits)
    then show ?thesis using False live r moved by blast
  next
    case True
    let ?desired = "(buildServerStatefulSet (wMem w))\<lparr>stsReplicas := Some r\<rparr>"
    obtain pods where p: "ePods e = Some pods"
      using assms moved dl read r b True
      by (cases "ePods e") (auto simp: stepUpgradeStaging_def Let_def)
    have step: "stepUpgradeStaging e w =
        (case stage_decision (wMem w) live ?desired r pods of StageWait reason \<Rightarrow> (w, stepRequeue)
         | StageAt part \<Rightarrow> stage_at e live ?desired part w)"
      using moved dl read r b True p by (simp add: stepUpgradeStaging_def Let_def)
    then obtain q where q: "stage_decision (wMem w) live ?desired r pods = StageAt q"
      using assms by (cases "stage_decision (wMem w) live ?desired r pods") auto
    then have "wSts (fst (stepUpgradeStaging e w)) = Some (spec_written live
        (applyServerStatefulSet (wMem w) (eOtherChange e) (eHeldTemplate e) (?desired\<lparr>stsPartition := Some q\<rparr>) live))"
      using assms step by (auto simp: stage_at_def Let_def split: if_splits)
    then show ?thesis using live r moved p q True by (auto simp: Let_def)
  qed
qed


section \<open>Where the stored record goes\<close>

text \<open>The part of the stored cluster that says where the walk is.\<close>

definition core :: "cluster \<Rightarrow> string \<times> string \<times> int option \<times> string \<times> string" where
  "core cl = (phase_of cl, usTargetVersion (the_record cl), usCurrentPartition (the_record cl),
     specImageTag cl, clName cl)"

lemma core_phase: "core a = core b \<Longrightarrow> phase_of a = phase_of b"
  by (simp add: core_def)

lemma core_sync [simp]: "core (syncStalledCondition now cl) = core cl"
  by (auto simp: core_def the_record_def phase_of_def syncStalledCondition_def split: option.splits)

lemma core_started [simp]: "core (wStored (recordStartedTarget pods out w)) = core (wStored w)"
  using recordStarted_stored [of pods out w] by (auto simp: core_def the_record_def phase_of_def)

lemma core_topology [simp]: "core (wStored (reportTopologyDeferral now out a b w)) = core (wStored w)"
  by (auto simp: reportTopologyDeferral_def writeTopologyDeferral_def core_def the_record_def
      phase_of_def Let_def split: prod.splits write_outcome.splits)

lemma core_write [simp]: "core (wStored (fst (writeClusterStatus now out p msg rec extra w))) = core (wStored w)"
proof -
  have "core (cluster_status_set now g p msg rec extra cl) = core cl" for g cl
    by (auto simp: cluster_status_set_def core_def the_record_def phase_of_def split: option.splits)
  then show ?thesis using writeClusterStatus_stored [of now out p msg rec extra w] by auto
qed

lemma core_note [simp]: "core (wStored (noteUpgradeInClusterMessage now out w)) = core (wStored w)"
  by (simp add: noteUpgradeInClusterMessage_def updateClusterStatus_def
      updateClusterStatusWithVersion_def Let_def)

lemma patched_stored:
  "wStored (fst (patchUpgradeStatus now out m w)) =
     (if out = Written then fst (patched now m (wStored w)) else wStored w)"
  by (cases out) (simp_all add: patchUpgradeStatus_def case_prod_beta Let_def)

lemma the_record_patched:
  "the_record (fst (patched now m cl)) =
     fst (stampUpgradePhaseTransition (m (the_record cl)) (usPhase (the_record cl))
            (usPhaseStartTime (the_record cl)) now)"
  by (simp add: the_record_def patched_record)

lemma patched_spec [simp]:
  "specImageTag (fst (patched now m cl)) = specImageTag cl" "clName (fst (patched now m cl)) = clName cl"
  by (auto simp: patched_def syncStalledCondition_def Let_def split: prod.splits option.splits)

lemma core_patch:
  "core (wStored (fst (patchUpgradeStatus now out m w))) =
     (if out = Written
      then let us = m (the_record (wStored w)) in
           (usPhase us, usTargetVersion us, usCurrentPartition us,
            specImageTag (wStored w), clName (wStored w))
      else core (wStored w))"
  by (simp add: patched_stored core_def phase_of_def the_record_patched Let_def)

lemma phase_patch:
  "phase_of (wStored (fst (patchUpgradeStatus now out m w))) =
     (if out = Written then usPhase (m (the_record (wStored w))) else phase_of (wStored w))"
  by (simp add: patched_stored phase_of_def the_record_patched)

lemma patch_ok [simp]: "snd (patchUpgradeStatus now out m w) = (out = Written)"
  by (cases out) (simp_all add: patchUpgradeStatus_def case_prod_beta Let_def)

lemma core_resolve [simp]:
  "core (wStored (fst (patchUpgradeStatus now out (resolve_target v) w))) = core (wStored w)"
  unfolding core_patch by (simp add: core_def phase_of_def resolve_target_def Let_def case_prod_beta)

lemma core_message [simp]:
  "core (wStored (fst (patchUpgradeStatus now out (\<lambda>s. s\<lparr>usMessage := msg\<rparr>) w))) = core (wStored w)"
  unfolding core_patch by (simp add: core_def phase_of_def Let_def)

lemma core_gates: "core (wStored (fst (neo4j_gates e part us w))) = core (wStored w)"
  by (simp add: neo4j_gates_def Let_def case_prod_beta split: option.splits)

lemma fail_phase:
  "phase_of (wStored (fst (failUpgrade e c p w))) =
     (if eWriteRecord e = Written then pause_phase (wMem w) else phase_of (wStored w))"
  by (simp add: failUpgrade_def Let_def case_prod_beta core_phase [OF core_note] phase_patch)

lemma pause_phase_cases: "pause_phase cl = upgradePhasePaused \<or> pause_phase cl = upgradePhaseFailed"
  by (simp add: pause_phase_def)

definition stopped_or :: "string \<Rightarrow> string \<Rightarrow> string \<Rightarrow> bool" where
  "stopped_or p q x \<longleftrightarrow> x = p \<or> x = q \<or> x = upgradePhasePaused \<or> x = upgradePhaseFailed"

lemma stopped_or_fail: "stopped_or (phase_of (wStored w)) q (phase_of (wStored (fst (failUpgrade e c p w))))"
  using pause_phase_cases by (auto simp: stopped_or_def fail_phase)

lemma stopped_or_same [simp]: "stopped_or p q p"
  by (simp add: stopped_or_def)

lemma staging_phases:
  "stopped_or (phase_of (wStored w)) upgradePhaseRolling (phase_of (wStored (fst (stepUpgradeStaging e w))))"
proof -
  have "stopped_or (phase_of (wStored w)) upgradePhaseRolling
      (phase_of (wStored (fst (stage_at e live desired part w))))" for live desired part
    by (simp add: stage_at_def Let_def phase_patch staging_done_def stopped_or_def)
  then show ?thesis
    by (simp add: stepUpgradeStaging_def Let_def stopped_or_fail
        split: api_read.splits option.splits stage_decision.splits)
qed

lemma roll_act_phases:
  "stopped_or (phase_of (wStored w)) upgradePhaseStabilizing
     (phase_of (wStored (fst (roll_act e live r part us lag dec w))))"
proof (cases dec)
  case rollWait
  then show ?thesis by (simp add: roll_act_def stopped_or_fail)
qed (simp_all add: roll_act_def Let_def phase_patch roll_done_def roll_lowered_def stopped_or_def
    flip: phase_of_def)

lemma rolling_phases:
  "stopped_or (phase_of (wStored w)) upgradePhaseStabilizing (phase_of (wStored (fst (stepUpgradeRolling e w))))"
proof -
  have step: "stopped_or (phase_of (wStored w)) upgradePhaseStabilizing
      (phase_of (wStored (fst (roll_with e live r us w))))" for live r us and w :: world
  proof -
    let ?part = "roll_partition us live r"
    define w1 where "w1 = (if stsReadyReplicas live < r then logged (replaceStuckServerPods e live) w else w)"
    define w2 where "w2 = reportTopologyDeferral (eNow e) (eWriteTopology e) (specServers (wMem w1)) r w1"
    define g where "g = (if kubernetes_settled live r ?part \<and> ?part < r then neo4j_gates e ?part us w2
      else (w2, us, False, False, []))"
    have "phase_of (wStored w2) = phase_of (wStored w)"
      by (simp add: w2_def w1_def core_phase [OF core_topology])
    moreover have "phase_of (wStored (fst g)) = phase_of (wStored w2)"
      by (simp add: g_def core_phase [OF core_gates])
    moreover have "roll_with e live r us w = roll_act e live r ?part (fst (snd g))
        (snd (snd (snd (snd g)))) (planUpgradeRollStep (roll_observation live r ?part
          (fst (snd (snd g))) (fst (snd (snd (snd g)))))) (fst g)"
      unfolding roll_with_def Let_def case_prod_beta w1_def [symmetric] w2_def [symmetric]
        g_def [symmetric] by (rule refl)
    ultimately show ?thesis using roll_act_phases [of "fst g"] by simp
  qed
  define w1 where "w1 = recordStartedTarget (eCachedPods e) (eWriteStarted e) w"
  have w1: "phase_of (wStored w1) = phase_of (wStored w)"
    by (simp add: w1_def)
  show ?thesis
    using step [of w1] stopped_or_fail [of w1] unfolding stepUpgradeRolling_def Let_def w1_def [symmetric] w1
    by (simp add: w1 split: api_read.splits)
qed

lemma stabilizing_phases:
  "stopped_or (phase_of (wStored w)) upgradePhaseVerifying (phase_of (wStored (fst (stepUpgradeStabilizing e w))))"
proof -
  have "stopped_or (phase_of (wStored w)) upgradePhaseVerifying
      (phase_of (wStored (fst (transitionToVerifying e step w))))" for step
    by (simp add: transitionToVerifying_def phase_patch stopped_or_def)
  then show ?thesis by (simp add: stepUpgradeStabilizing_def Let_def stopped_or_fail)
qed

lemma update_stored:
  "wStored (fst (updateUpgradeStatus now out p st e' r w)) = wStored w \<or>
   (\<exists>us0 c ended. stUpgradeStatus (wStored w) = Some us0 \<and>
      status_updated now (specImageTag (wMem w)) p st e' r (wStored w) = Some (c, ended) \<and>
      wStored (fst (updateUpgradeStatus now out p st e' r w)) = c \<and> out = Written)"
proof (cases "stUpgradeStatus (wStored w)")
  case None
  then have "status_updated now tag p st e' r (wStored w) = None" for tag
    by (simp add: status_updated_def)
  then show ?thesis
    by (auto simp: updateUpgradeStatus_def Let_def split: write_outcome.splits option.splits)
next
  case (Some us0)
  then show ?thesis
    by (cases out) (auto simp: updateUpgradeStatus_def Let_def status_updated_Some [OF Some]
        split: option.splits)
qed

lemma status_updated_result:
  assumes "status_updated now tag p st e' r cl = Some (c, ended)"
  shows "phase_of c = p" "p = upgradePhaseCompleted \<Longrightarrow> stVersion c = tag"
    "usTargetVersion (the_record c) = usTargetVersion (the_record cl)"
proof -
  from assms obtain us0 where us0: "stUpgradeStatus cl = Some us0"
    by (cases "stUpgradeStatus cl") (auto simp: status_updated_def)
  note c = assms [unfolded status_updated_Some [OF us0]]
  show "phase_of c = p" using c by (auto simp: phase_of_def the_record_def syncStalled_keeps)
  show "stVersion c = tag" if "p = upgradePhaseCompleted"
    using c that by (auto simp: syncStalled_keeps status_cluster_def)
  have "usTargetVersion (status_record now p st e' r us) = usTargetVersion us" for us
    by (simp add: status_record_def Let_def case_prod_beta)
  then show "usTargetVersion (the_record c) = usTargetVersion (the_record cl)"
    using c us0 by (auto simp: the_record_def syncStalled_keeps)
qed

lemma complete_stored:
  assumes "phase_of (wStored (fst (completeUpgrade e r w))) \<noteq> phase_of (wStored w)"
  shows "phase_of (wStored (fst (completeUpgrade e r w))) = upgradePhaseCompleted"
    "stVersion (wStored (fst (completeUpgrade e r w))) = specImageTag (wMem w) \<or>
     stVersion (wStored (fst (completeUpgrade e r w))) =
       specImageTag (wMem (fst (updateUpgradeStatus (eNow e) (eWriteRecord e) upgradePhaseCompleted
         ''Rolling upgrade completed successfully'' [] r w)))"
proof -
  define w1 where "w1 = fst (updateUpgradeStatus (eNow e) (eWriteRecord e) upgradePhaseCompleted
      ''Rolling upgrade completed successfully'' [] r w)"
  define w2 where "w2 = fst (updateClusterStatusWithVersion (eNow e) (eWriteCluster e) PhaseReady
      ''Rolling upgrade completed successfully'' (specImageTag (wMem w1)) [] w1)"
  have run: "fst (completeUpgrade e r w) = w1 \<or> fst (completeUpgrade e r w) = w2"
    unfolding completeUpgrade_def Let_def case_prod_beta w1_def [symmetric] w2_def [symmetric] by simp
  have p2: "phase_of (wStored w2) = phase_of (wStored w1)"
    by (simp add: w2_def updateClusterStatusWithVersion_def core_phase [OF core_write])
  then have "phase_of (wStored w1) \<noteq> phase_of (wStored w)" using assms run by auto
  then have u: "phase_of (wStored w1) = upgradePhaseCompleted" "stVersion (wStored w1) = specImageTag (wMem w)"
    using update_stored [of "eNow e" "eWriteRecord e" upgradePhaseCompleted
        "''Rolling upgrade completed successfully''" "[]" r w] status_updated_result
    unfolding w1_def [symmetric] by auto
  then show "phase_of (wStored (fst (completeUpgrade e r w))) = upgradePhaseCompleted"
    using run p2 by auto
  have "stVersion (cluster_status_set now g p msg (versionRecord v) extra cl) \<in> {v, stVersion cl}"
    for now g p msg v extra cl by (simp add: cluster_status_set_def versionRecord_def)
  then have "stVersion (wStored w2) \<in> {specImageTag (wMem w1), stVersion (wStored w1)}"
    unfolding w2_def updateClusterStatusWithVersion_def
    using writeClusterStatus_stored [of "eNow e" "eWriteCluster e" PhaseReady _ _ "[]" w1] by (metis insertCI)
  then show "stVersion (wStored (fst (completeUpgrade e r w))) = specImageTag (wMem w) \<or>
      stVersion (wStored (fst (completeUpgrade e r w))) =
       specImageTag (wMem (fst (updateUpgradeStatus (eNow e) (eWriteRecord e) upgradePhaseCompleted
         ''Rolling upgrade completed successfully'' [] r w)))"
    using run u(2) unfolding w1_def [symmetric] by auto
qed

lemma update_keeps_tag [simp]:
  "specImageTag (wMem (fst (updateUpgradeStatus now out p st e' r w))) = specImageTag (wMem w)"
  by (auto simp: updateUpgradeStatus_def Let_def split: write_outcome.splits option.splits)

lemma verifying_phases:
  "stopped_or (phase_of (wStored w)) upgradePhaseCompleted (phase_of (wStored (fst (stepUpgradeVerifying e w))))"
  "phase_of (wStored (fst (stepUpgradeVerifying e w))) = upgradePhaseCompleted \<Longrightarrow>
   phase_of (wStored w) \<noteq> upgradePhaseCompleted \<Longrightarrow>
   eClientError e = None \<and> (\<exists>reported. verifyVersionUpgrade (wMem w) (eServers e) = Inr reported) \<and>
   stVersion (wStored (fst (stepUpgradeVerifying e w))) = specImageTag (wMem w)"
proof -
  have c: "phase_of (wStored (fst (completeUpgrade e r w))) = phase_of (wStored w) \<or>
      phase_of (wStored (fst (completeUpgrade e r w))) = upgradePhaseCompleted \<and>
      stVersion (wStored (fst (completeUpgrade e r w))) = specImageTag (wMem w)" for r
    using complete_stored [of e r w] by (cases "phase_of (wStored (fst (completeUpgrade e r w))) =
      phase_of (wStored w)") auto
  have c2: "stVersion (wStored (fst (completeUpgrade e r w))) = specImageTag (wMem w)"
    if "phase_of (wStored (fst (completeUpgrade e r w))) = upgradePhaseCompleted"
      "phase_of (wStored w) \<noteq> upgradePhaseCompleted" for r
    using c [of r] that by simp
  have nf: "pause_phase (wMem w) \<noteq> upgradePhaseCompleted"
    by (simp add: pause_phase_def upgrade_phases)
  have c1: "stopped_or (phase_of (wStored w)) upgradePhaseCompleted
      (phase_of (wStored (fst (completeUpgrade e r w))))" for r
    using c [of r] by (auto simp: stopped_or_def)
  show "stopped_or (phase_of (wStored w)) upgradePhaseCompleted
      (phase_of (wStored (fst (stepUpgradeVerifying e w))))"
    by (simp add: stepUpgradeVerifying_def Let_def case_prod_beta stopped_or_fail c1
        split: option.splits sum.splits)
  assume "phase_of (wStored (fst (stepUpgradeVerifying e w))) = upgradePhaseCompleted"
    "phase_of (wStored w) \<noteq> upgradePhaseCompleted"
  then show "eClientError e = None \<and> (\<exists>reported. verifyVersionUpgrade (wMem w) (eServers e) = Inr reported) \<and>
      stVersion (wStored (fst (stepUpgradeVerifying e w))) = specImageTag (wMem w)"
    using nf by (auto simp: stepUpgradeVerifying_def Let_def case_prod_beta fail_phase c2
        split: option.splits sum.splits if_splits)
qed

lemma retarget_phases:
  "phase_of (wStored (fst (retargetUpgrade e w))) \<in> {phase_of (wStored w), upgradePhaseStaging}"
  by (simp add: retargetUpgrade_def Let_def case_prod_beta phase_patch retargeted_def
      core_phase [OF core_note])

text \<open>The order of the phases.\<close>

definition forward :: "(string \<times> string) set" where
  "forward = {(upgradePhaseStaging, upgradePhaseRolling), (upgradePhaseRolling, upgradePhaseStabilizing),
     (upgradePhaseStabilizing, upgradePhaseVerifying), (upgradePhaseVerifying, upgradePhaseCompleted)}"

lemma staging_forward:
  assumes "phase_of (wStored (fst (stepUpgradeStaging e w))) \<noteq> phase_of (wStored w)"
    and "\<not> eStoredReadFails e" "stUpgradeStatus (wStored w) \<noteq> None"
  shows "phase_of (wStored (fst (stepUpgradeStaging e w))) \<in> {upgradePhasePaused, upgradePhaseFailed} \<or>
    (phase_of (wStored w), phase_of (wStored (fst (stepUpgradeStaging e w)))) \<in> forward"
proof (cases "staging_moved_on e w")
  case True
  then show ?thesis
    using assms(1) pause_phase_cases [of "wMem w"]
    by (auto simp: stepUpgradeStaging_def Let_def fail_phase split: if_splits)
next
  case False
  then have "phase_of (wStored w) = upgradePhaseStaging"
    using assms(2,3) by (auto simp: staging_moved_on_def phase_of_def the_record_def)
  then show ?thesis
    using assms(1) staging_phases [of w e] by (auto simp: stopped_or_def forward_def)
qed

section \<open>A concrete pass\<close>

text \<open>
  Three servers on the target, all available, everything read and written: the concrete
  environment in which the properties are applied.
\<close>

definition server_of :: "int \<Rightarrow> server_info" where
  "server_of i = (reports (''c-server-'' @ itoa i) ''2026.09.0'')
     \<lparr>srvAddress := ''c-server-'' @ itoa i @ ''.c-headless:7687''\<rparr>"

definition healthy_env :: "int \<Rightarrow> env" where
  "healthy_env now =
     \<lparr>eNow = now, eRequeueAfter = 30, eCachedSts = NotFound, eCachedPods = None,
      eStoredReadFails = False, eStsReadFails = False, eReadError = [], ePods = None,
      eDeleteOk = (\<lambda>_. True), eBuildError = None, eHeldTemplate = None, eOtherChange = False,
      eApplyOk = True, eConfigMapOk = True, eUpdateSts = StsUpdated, eClientError = None,
      eServers = Some [server_of 0, server_of 1, server_of 2], eDatabases = (\<lambda>_. Some ([], [])),
      ePreUpgrade = Inr [server_of 0, server_of 1, server_of 2], eClusterHealthy = Some True,
      eConsensus = Some True, eReplication = Some True, eStartText = (\<lambda>_. ''error''),
      eVerifyText = (\<lambda>_. ''error''), eWriteStarted = Written, eWriteTopology = Written,
      eWriteResolved = Written, eWriteMessage = Written, eWriteRecord = Written, eWriteCluster = Written\<rparr>"

definition rolling_cluster :: "int \<Rightarrow> cluster" where
  "rolling_cluster part = (new_cluster ''c'' ''neo4j'' ''2026.09.0-enterprise'' 3)
     \<lparr>stPhase := PhaseReady, stVersion := ''2026.08.0-enterprise'',
      stUpgradeStatus := Some (empty_upgrade_status\<lparr>usPhase := upgradePhaseRolling,
        usTargetVersion := ''2026.09.0-enterprise'', usCurrentPartition := Some part,
        usStepStartTime := Some 0\<rparr>)\<rparr>"

definition rolling_world :: "int \<Rightarrow> world" where
  "rolling_world part =
     world_of (rolling_cluster part) (Some (sts3 ''neo4j:2026.09.0-enterprise'' part))"


section \<open>The handler\<close>

text \<open>
  What the machine relies on of the scale-down drain it advances while it waits: the drain
  writes annotations, the drain condition and Neo4j, and neither the StatefulSet nor the
  upgrade record nor the recorded version.
\<close>

locale drain_step =
  fixes drain :: "world \<Rightarrow> world"
  assumes drain_sts: "wSts (drain w) = wSts w"
    and drain_stored_record: "stUpgradeStatus (wStored (drain w)) = stUpgradeStatus (wStored w)"
    and drain_stored_version: "stVersion (wStored (drain w)) = stVersion (wStored w)"
begin

lemma announce_sts: "wSts (announceUpgradeDeferredByDrain w) = wSts w"
  by (simp add: announceUpgradeDeferredByDrain_def Let_def)

lemma start_sts: "wSts (fst (startRollingUpgrade drain e w)) = wSts w"
  by (auto simp: startRollingUpgrade_def Let_def case_prod_beta announce_sts drain_sts
      split: option.splits)

lemma handle_sts:
  assumes "wSts (fst (handleRollingUpgrade drain e w)) \<noteq> wSts w"
  shows "phase_of (wMem w) = upgradePhaseStaging \<and>
      fst (handleRollingUpgrade drain e w) = fst (stepUpgradeStaging e w) \<or>
    phase_of (wMem w) = upgradePhaseRolling \<and>
      fst (handleRollingUpgrade drain e w) = fst (stepUpgradeRolling e w) \<and>
      \<not> upgradeRecordMovedOn (wMem w) (readStored e w)"
  using assms
  by (auto simp: handleRollingUpgrade_def Let_def start_sts phase_of_def the_record_def upgrade_phases
      split: if_splits option.splits)

lemma handle_keeps_replicas:
  assumes "wSts w = Some live"
  shows "\<exists>new. wSts (fst (handleRollingUpgrade drain e w)) = Some new \<and> stsReplicas new = stsReplicas live"
proof (cases "wSts (fst (handleRollingUpgrade drain e w)) = wSts w")
  case True
  then show ?thesis using assms by simp
next
  case False
  from handle_sts [OF this] show ?thesis
  proof
    assume "phase_of (wMem w) = upgradePhaseStaging \<and>
      fst (handleRollingUpgrade drain e w) = fst (stepUpgradeStaging e w)"
    then show ?thesis using staging_sts [of e w] False assms by auto
  next
    assume "phase_of (wMem w) = upgradePhaseRolling \<and>
      fst (handleRollingUpgrade drain e w) = fst (stepUpgradeRolling e w) \<and>
      \<not> upgradeRecordMovedOn (wMem w) (readStored e w)"
    then show ?thesis using rolling_sts [of e w] False assms by (auto simp: Let_def)
  qed
qed

lemma handle_walk:
  assumes "phase_of (wMem w) \<noteq> upgradePhaseStaging"
    and "wSts (fst (handleRollingUpgrade drain e w)) \<noteq> wSts w"
  shows "\<exists>live r. wSts w = Some live \<and> stsReplicas live = Some r \<and>
    phase_of (wStored w) = upgradePhaseRolling \<and>
    (let part = roll_partition (the_record (wStored w)) live r in
      part \<noteq> 0 \<and> step_verified e (clName (wMem w)) live r part \<and>
      wSts (fst (handleRollingUpgrade drain e w)) =
        Some (spec_written live (live\<lparr>stsPartition := Some (part - 1)\<rparr>)))"
proof -
  from handle_sts [OF assms(2)] assms(1) have h: "phase_of (wMem w) = upgradePhaseRolling"
    "fst (handleRollingUpgrade drain e w) = fst (stepUpgradeRolling e w)"
    "\<not> upgradeRecordMovedOn (wMem w) (readStored e w)"
    by auto
  from h(1,3) obtain have' want where rec: "stUpgradeStatus (wMem w) = Some have'"
    "stUpgradeStatus (wStored w) = Some want" "usPhase want = usPhase have'"
    "samePartition (usCurrentPartition want) (usCurrentPartition have')"
    by (auto simp: upgradeRecordMovedOn_def readStored_def split: option.splits api_read.splits if_splits)
  then have "usCurrentPartition want = usCurrentPartition have'"
    by (auto simp: samePartition_def)
  then have "phase_of (wStored w) = upgradePhaseRolling"
    "roll_partition (the_record (wStored w)) live r = roll_partition (the_record (wMem w)) live r" for live r
    using rec h(1) by (simp_all add: phase_of_def the_record_def roll_partition_def)
  then show ?thesis
    using rolling_sts [of e w] assms(2) h(2) by simp
qed

lemma start_phases:
  "stopped_or (phase_of (wStored w)) upgradePhaseStaging (phase_of (wStored (fst (startRollingUpgrade drain e w))))"
proof -
  have refuse: "stopped_or (phase_of (wStored v)) upgradePhaseStaging
      (phase_of (wStored (fst (refuseUpgradeStart e c p v))))" for c p and v :: world
    using pause_phase_cases
    by (simp add: refuseUpgradeStart_def Let_def case_prod_beta core_phase [OF core_note] phase_patch
        stopped_or_def)
  have ann: "phase_of (wStored (announceUpgradeDeferredByDrain (drain w))) = phase_of (wStored w)"
    by (simp add: announceUpgradeDeferredByDrain_def Let_def phase_of_def the_record_def drain_stored_record)
  define w1 where "w1 = recordStartedTarget (eCachedPods e) (eWriteStarted e) w"
  have w1: "phase_of (wStored w1) = phase_of (wStored w)" by (simp add: w1_def)
  show ?thesis
    using refuse [of w1]
    unfolding startRollingUpgrade_def Let_def case_prod_beta w1_def [symmetric] w1
    by (simp add: ann w1 core_phase [OF core_note] phase_patch stopped_or_def split: option.splits)
qed

lemma handle_phases:
  assumes moved: "phase_of (wStored (fst (handleRollingUpgrade drain e w))) \<noteq> phase_of (wStored w)"
    and stored: "\<not> eStoredReadFails e" "stUpgradeStatus (wStored w) \<noteq> None"
  shows "phase_of (wStored (fst (handleRollingUpgrade drain e w)))
      \<in> {upgradePhaseStaging, upgradePhasePaused, upgradePhaseFailed} \<or>
    (phase_of (wStored w), phase_of (wStored (fst (handleRollingUpgrade drain e w)))) \<in> forward"
proof -
  let ?q = "phase_of (wStored (fst (handleRollingUpgrade drain e w)))"
  let ?m = "phase_of (wMem w)"
  let ?rt = "upgradeStateMachineActive (wMem w) \<and> ?m \<noteq> upgradePhaseLegacyInProgress \<and>
      usTargetVersion (the_record (wMem w)) \<noteq> specImageTag (wMem w)"
  have phase: "(case stUpgradeStatus (wMem w) of None \<Rightarrow> [] | Some us \<Rightarrow> usPhase us) = ?m"
    by (simp add: phase_of_def the_record_def empty_upgrade_status_def split: option.splits)
  note h = handleRollingUpgrade_def [of drain e w, unfolded Let_def phase]
  have same: "phase_of (wStored w) = ?m"
    if "?m \<in> {upgradePhaseRolling, upgradePhaseStabilizing, upgradePhaseVerifying}" "\<not> ?rt"
    using moved that stored unfolding h
    by (auto simp: upgradeRecordMovedOn_def readStored_def phase_of_def the_record_def
        split: if_splits option.splits)
  consider (retarget) ?rt | (staging) "\<not> ?rt" "?m = upgradePhaseStaging"
    | (rolling) "\<not> ?rt" "?m = upgradePhaseRolling" | (stab) "\<not> ?rt" "?m = upgradePhaseStabilizing"
    | (verif) "\<not> ?rt" "?m = upgradePhaseVerifying"
    | (other) "\<not> ?rt" "?m \<notin> {upgradePhaseStaging, upgradePhaseRolling, upgradePhaseStabilizing, upgradePhaseVerifying}"
    by blast
  then show ?thesis
  proof cases
    case retarget
    then show ?thesis using retarget_phases [of e w] moved unfolding h by auto
  next
    case staging
    then have "fst (handleRollingUpgrade drain e w) = fst (stepUpgradeStaging e w)"
      unfolding h by (auto simp: upgrade_phases)
    then show ?thesis using staging_forward [of e w] moved stored by auto
  next
    case rolling
    then show ?thesis
      using same rolling_phases [of w e] moved unfolding h
      by (auto simp: stopped_or_def forward_def upgrade_phases split: if_splits)
  next
    case stab
    then show ?thesis
      using same stabilizing_phases [of w e] moved unfolding h
      by (auto simp: stopped_or_def forward_def upgrade_phases split: if_splits)
  next
    case verif
    then show ?thesis
      using same verifying_phases(1) [of w e] moved unfolding h
      by (auto simp: stopped_or_def forward_def upgrade_phases split: if_splits)
  next
    case other
    then show ?thesis
      using start_phases [of w e] moved unfolding h
      by (auto simp: stopped_or_def phase_patch split: if_splits)
  qed
qed

lemma handle_completed:
  assumes "phase_of (wStored (fst (handleRollingUpgrade drain e w))) = upgradePhaseCompleted"
    and "phase_of (wStored w) \<noteq> upgradePhaseCompleted"
  shows "phase_of (wStored w) = upgradePhaseVerifying \<and> eClientError e = None \<and>
    usTargetVersion (the_record (wStored w)) = specImageTag (wMem w) \<and>
    (\<exists>reported. verifyVersionUpgrade (wMem w) (eServers e) = Inr reported) \<and>
    stVersion (wStored (fst (handleRollingUpgrade drain e w))) = specImageTag (wMem w)"
proof -
  let ?m = "phase_of (wMem w)"
  let ?rt = "upgradeStateMachineActive (wMem w) \<and> ?m \<noteq> upgradePhaseLegacyInProgress \<and>
      usTargetVersion (the_record (wMem w)) \<noteq> specImageTag (wMem w)"
  have phase: "(case stUpgradeStatus (wMem w) of None \<Rightarrow> [] | Some us \<Rightarrow> usPhase us) = ?m"
    by (simp add: phase_of_def the_record_def empty_upgrade_status_def split: option.splits)
  note h = handleRollingUpgrade_def [of drain e w, unfolded Let_def phase]
  have d: "upgradePhaseCompleted \<notin> {upgradePhaseStaging, upgradePhaseRolling, upgradePhaseStabilizing,
      upgradePhaseVerifying, upgradePhasePaused, upgradePhaseFailed}"
    by (simp add: upgrade_phases)
  have nrt: "\<not> ?rt"
  proof
    assume ?rt
    then have "fst (handleRollingUpgrade drain e w) = fst (retargetUpgrade e w)" unfolding h by simp
    then show False using assms retarget_phases [of e w] d by auto
  qed
  have m: "?m = upgradePhaseVerifying" "\<not> upgradeRecordMovedOn (wMem w) (readStored e w)"
    using assms nrt staging_phases [of w e] rolling_phases [of w e] stabilizing_phases [of w e]
      start_phases [of w e] d unfolding h
    by (auto simp: stopped_or_def phase_patch upgrade_phases split: if_splits)
  then have step: "fst (handleRollingUpgrade drain e w) = fst (stepUpgradeVerifying e w)"
    using nrt unfolding h by (auto simp: upgrade_phases)
  have act: "upgradeStateMachineActive (wMem w)"
    using m(1) by (auto simp: upgradeStateMachineActive_def phase_of_def the_record_def
        empty_upgrade_status_def upgrade_phases split: option.splits)
  then have "usTargetVersion (the_record (wMem w)) = specImageTag (wMem w)"
    using nrt m(1) by (simp add: upgrade_phases)
  moreover have "phase_of (wStored w) = ?m"
    "usTargetVersion (the_record (wStored w)) = usTargetVersion (the_record (wMem w))"
    using m(2) by (auto simp: upgradeRecordMovedOn_def readStored_def phase_of_def the_record_def
        split: option.splits if_splits)
  ultimately show ?thesis
    using verifying_phases(2) [of e w] assms step m(1) by simp
qed

end

end
