(* ===== verification/Scale_Down.thy ===== *)
theory Scale_Down
  imports Upgrade_Machine
begin

text \<open>
  The automated scale-down drain: \<^verbatim>\<open>src/internal/controller/scale_down.go\<close>, with the address
  book of \<^verbatim>\<open>cluster_availability.go\<close>, \<^verbatim>\<open>pass_wake.go\<close> and the statements of
  \<^verbatim>\<open>src/internal/neo4j/server_management.go\<close>. A pass of the drain reads the StatefulSet and
  SHOW SERVERS and takes one step: cordon, deallocate, wait or drop. What it took it records in
  annotations of the cluster, which also hold the replica count.

  What Neo4j answers and which writes land are the environment of the pass. The texts of Go's
  \<^verbatim>\<open>time\<close> package (RFC 3339 with and without a fraction) are arguments of it; all clock readings
  of a pass are one value.
\<close>

section \<open>The model\<close>

subsection \<open>The statements\<close>

definition is_hex :: "char \<Rightarrow> bool" where
  "is_hex c = (let n = (of_char c :: nat) in
     (48 \<le> n \<and> n \<le> 57) \<or> (97 \<le> n \<and> n \<le> 102) \<or> (65 \<le> n \<and> n \<le> 70))"

text \<open>\<^verbatim>\<open>serverIDPattern\<close>: five groups of hexadecimal digits, of these lengths, joined by dashes.\<close>

definition serverIDPattern :: "string \<Rightarrow> bool" where
  "serverIDPattern sid = (let groups = split_on CHR ''-'' sid in
     map length groups = [8, 4, 4, 4, 12] \<and> list_all (list_all is_hex) groups)"

definition validateServerIDs :: "string list \<Rightarrow> bool" where
  "validateServerIDs ids = (ids \<noteq> [] \<and> list_all serverIDPattern ids)"

definition quoted_id :: "string \<Rightarrow> string" where
  "quoted_id sid = [CHR 0x27] @ sid @ [CHR 0x27]"

definition buildDeallocateStatement :: "string list \<Rightarrow> bool \<Rightarrow> string option" where
  "buildDeallocateStatement ids dryRun =
     (if \<not> validateServerIDs ids then None
      else let stmt = ''DEALLOCATE DATABASES FROM SERVER '' @ join '', '' (map quoted_id ids)
           in Some (if dryRun then ''DRYRUN '' @ stmt else stmt))"

definition buildDropServerStatement :: "string \<Rightarrow> string option" where
  "buildDropServerStatement sid =
     (if validateServerIDs [sid] then Some (''DROP SERVER '' @ quoted_id sid) else None)"

definition buildEnableServerStatement :: "string \<Rightarrow> string option" where
  "buildEnableServerStatement sid =
     (if validateServerIDs [sid] then Some (''ENABLE SERVER '' @ quoted_id sid) else None)"

subsection \<open>Which pod a server runs in\<close>

definition parseServerOrdinal :: "string \<Rightarrow> string \<Rightarrow> int option" where
  "parseServerOrdinal s clusterName =
     (let prefix = clusterName @ ''-server-'' in
      case str_index s prefix of None \<Rightarrow> None
      | Some i \<Rightarrow> (let ds = takeWhile is_digit (drop (i + length prefix) s)
                  in if ds = [] then None else atoi ds))"

definition serverIdentifier :: "server_info \<Rightarrow> string" where
  "serverIdentifier s =
     (if srvID s \<noteq> [] then srvID s else if srvName s \<noteq> [] then srvName s else srvAddress s)"

definition serverOrdinal :: "string \<Rightarrow> server_info \<Rightarrow> int option" where
  "serverOrdinal clusterName s =
     (case parseServerOrdinal (srvAddress s) clusterName of Some ord \<Rightarrow> Some ord
      | None \<Rightarrow> parseServerOrdinal (srvName s) clusterName)"

definition usable_address :: "string \<Rightarrow> bool" where
  "usable_address a = (a \<noteq> [] \<and> a \<noteq> ''<nil>'')"

fun fill_addresses :: "(string \<rightharpoonup> string) \<Rightarrow> server_info list \<Rightarrow> (string \<rightharpoonup> string) \<times> server_info list" where
  "fill_addresses book [] = (book, [])"
| "fill_addresses book (s # ss) =
     (if usable_address (srvAddress s)
      then (case fill_addresses (book(srvName s \<mapsto> srvAddress s)) ss of (b, out) \<Rightarrow> (b, s # out))
      else (case fill_addresses book ss of (b, out) \<Rightarrow>
             (b, s\<lparr>srvAddress := annotation book (srvName s)\<rparr> # out)))"

definition remember_diagnostics :: "server_diagnostic list option \<Rightarrow> (string \<rightharpoonup> string) \<Rightarrow> (string \<rightharpoonup> string)" where
  "remember_diagnostics d book =
     (case d of None \<Rightarrow> book
      | Some servers \<Rightarrow> fold (\<lambda>s b. if b (diagName s) = None \<and> usable_address (diagAddress s)
                                  then b(diagName s \<mapsto> diagAddress s) else b) servers book)"

definition withKnownAddresses ::
    "cluster \<Rightarrow> (string \<rightharpoonup> string) \<Rightarrow> server_info list \<Rightarrow> (string \<rightharpoonup> string) \<times> server_info list" where
  "withKnownAddresses cl book servers =
     (if servers = [] then (book, [])
      else fill_addresses (remember_diagnostics (stDiagnostics cl) book) servers)"

subsection \<open>The records\<close>

definition annotationIDs :: "cluster \<Rightarrow> string \<Rightarrow> string list" where
  "annotationIDs cl key =
     filter (\<lambda>p. p \<noteq> []) (map trim_space (split_on CHR '','' (annotation (clAnnotations cl) key)))"

definition drainServerIDsFromAnnotation :: "cluster \<Rightarrow> string list" where
  "drainServerIDsFromAnnotation cl = annotationIDs cl ScaleDownDrainingServersAnnotation"

definition cordonedByDrain :: "cluster \<Rightarrow> string list" where
  "cordonedByDrain cl = annotationIDs cl ScaleDownCordonedServersAnnotation"

definition set_values :: "(string \<times> string) list \<Rightarrow> (string \<rightharpoonup> string) \<Rightarrow> (string \<rightharpoonup> string)" where
  "set_values values m = fold (\<lambda>(k, v) m. if v = [] then m(k := None) else m(k \<mapsto> v)) values m"

text \<open>The flag: the patch landed. The keys of \<open>values\<close> are distinct.\<close>

definition setDrainAnnotations :: "bool \<Rightarrow> (string \<times> string) list \<Rightarrow> world \<Rightarrow> world \<times> bool" where
  "setDrainAnnotations lands values w =
     (if list_all (\<lambda>(k, v). annotation (clAnnotations (wMem w)) k = v) values then (w, True)
      else let upd = (\<lambda>cl. cl\<lparr>clAnnotations := set_values values (clAnnotations cl)\<rparr>);
               w1 = w\<lparr>wMem := upd (wMem w)\<rparr>
           in if lands then (w1\<lparr>wStored := upd (wStored w1)\<rparr>, True) else (w1, False))"

definition setDrainServers :: "bool \<Rightarrow> string list \<Rightarrow> world \<Rightarrow> world \<times> bool" where
  "setDrainServers lands ids w =
     setDrainAnnotations lands [(ScaleDownDrainingServersAnnotation, join '','' ids),
                                (ScaleDownHeldPodsAnnotation, [])]
       (if ids = [] then w\<lparr>wDrainDeferred := None\<rparr> else w)"

definition holdPods :: "bool \<Rightarrow> string list \<Rightarrow> world \<Rightarrow> world \<times> bool" where
  "holdPods lands pods w =
     setDrainAnnotations lands [(ScaleDownHeldPodsAnnotation, join '','' pods),
                                (ScaleDownDrainingServersAnnotation, [])] w"

definition clearDrainRecords :: "bool \<Rightarrow> bool \<Rightarrow> world \<Rightarrow> world \<times> bool" where
  "clearDrainRecords lands1 lands2 w =
     (let (w1, ok) = setDrainAnnotations lands1 [(ScaleDownCordonedServersAnnotation, []),
                                                (ScaleDownCordonedAtAnnotation, [])] w
      in if \<not> ok then (w1, False) else setDrainServers lands2 [] w1)"

definition provisionalDrainHoldNames :: "string \<Rightarrow> int \<Rightarrow> int \<Rightarrow> string list" where
  "provisionalDrainHoldNames clusterName current desired =
     map (serverPodName clusterName) [desired..current - 1]"

definition unionIDs :: "string list \<Rightarrow> string list \<Rightarrow> string list" where
  "unionIDs a b = sorted_set (a @ b)"

definition drainTouched :: "cluster \<Rightarrow> string list" where
  "drainTouched cl = drainServerIDsFromAnnotation cl @ cordonedByDrain cl"

subsection \<open>Which servers the drain takes\<close>

definition dropped :: "server_info \<Rightarrow> bool" where
  "dropped s = equal_fold (srvState s) ''dropped''"

definition initialRemovedServerIDs :: "server_info list \<Rightarrow> string \<Rightarrow> int \<Rightarrow> string list" where
  "initialRemovedServerIDs servers clusterName desired =
     map serverIdentifier (filter (\<lambda>s. \<not> dropped s \<and>
       (case serverOrdinal clusterName s of None \<Rightarrow> False | Some ord \<Rightarrow> ord \<ge> desired)) servers)"

definition unidentifiedRemovedServerIDs :: "server_info list \<Rightarrow> string \<Rightarrow> int \<Rightarrow> string list \<times> string" where
  "unidentifiedRemovedServerIDs servers clusterName desired =
     (let listed = filter (\<lambda>s. \<not> dropped s) servers;
          unknown = sort (map serverIdentifier (filter (\<lambda>s. serverOrdinal clusterName s = None) listed));
          kept = map (serverOrdinal clusterName) listed;
          missing = map (serverPodName clusterName) (filter (\<lambda>ord. Some ord \<notin> set kept) [0..desired - 1])
      in if unknown = [] then ([], [])
         else if missing \<noteq> [] then
           ([], ''SHOW SERVERS lists '' @ join '', '' unknown @
                '' with no address this operator knows, and no server reports being '' @ join '', '' missing @
                '': the drain waits until it can tell which servers the scale-down removes'')
         else (unknown, []))"

datatype scaleDownPhase =
  scaleDownNone | scaleDownCordon | scaleDownDeallocate | scaleDownWaitDeallocating | scaleDownDrop

definition hostsOnlySystem :: "server_info \<Rightarrow> bool" where
  "hostsOnlySystem s = list_all (\<lambda>h. equal_fold h ''system'') (srvHosting s)"

definition in_state :: "string list \<Rightarrow> server_info \<Rightarrow> bool" where
  "in_state states s = (to_lower (srvState s) \<in> set states)"

definition planScaleDownStep :: "server_info list \<Rightarrow> scaleDownPhase \<times> string list" where
  "planScaleDownStep active =
     (let draining = filter (in_state [''deallocating'', ''deallocated'']) active;
          toCordon = map serverIdentifier
            (filter (\<lambda>s. \<not> in_state [''cordoned'', ''deallocating'', ''deallocated''] s) active);
          toDeallocate = map serverIdentifier (filter (in_state [''cordoned'']) active);
          toDrop = map serverIdentifier (filter hostsOnlySystem draining);
          waiting = map serverIdentifier (filter (\<lambda>s. \<not> hostsOnlySystem s) draining)
      in if toCordon \<noteq> [] then (scaleDownCordon, toCordon)
         else if toDeallocate \<noteq> [] then (scaleDownDeallocate, toDeallocate)
         else if toDrop \<noteq> [] then (scaleDownDrop, toDrop)
         else if waiting \<noteq> [] then (scaleDownWaitDeallocating, waiting)
         else (scaleDownNone, []))"

definition drainAlreadyUnderway :: "string \<Rightarrow> bool" where
  "drainAlreadyUnderway err =
     list_ex (str_contains (to_lower err))
       [''is already deallocating'', ''is already deallocated'', ''is already dropped'']"

definition serverPastUndoing :: "server_info \<Rightarrow> bool" where
  "serverPastUndoing s = in_state [''deallocating'', ''deallocated'', ''dropped''] s"

text \<open>The first row that reports a pod's address owns it.\<close>

fun reportedOrdinals :: "server_info list \<Rightarrow> string \<Rightarrow> (int \<rightharpoonup> string)" where
  "reportedOrdinals [] clusterName = Map.empty"
| "reportedOrdinals (s # ss) clusterName =
     (case parseServerOrdinal (srvAddress s) clusterName of None \<Rightarrow> reportedOrdinals ss clusterName
      | Some ord \<Rightarrow> (reportedOrdinals ss clusterName)(ord \<mapsto> serverIdentifier s))"

definition runsInOrdinal :: "(int \<rightharpoonup> string) \<Rightarrow> int \<Rightarrow> string \<Rightarrow> bool" where
  "runsInOrdinal owners ord sid = (case owners ord of None \<Rightarrow> True | Some owner \<Rightarrow> owner = sid)"

definition keptByTheSpec :: "server_info \<Rightarrow> (int \<rightharpoonup> string) \<Rightarrow> string \<Rightarrow> int \<Rightarrow> bool" where
  "keptByTheSpec s owners clusterName desired =
     (case serverOrdinal clusterName s of None \<Rightarrow> False
      | Some ord \<Rightarrow> ord < desired \<and> runsInOrdinal owners ord (serverIdentifier s))"

definition serversPastUndoing ::
    "server_info list \<Rightarrow> server_info list \<Rightarrow> string \<Rightarrow> int \<Rightarrow> string list \<Rightarrow> bool \<Rightarrow> server_info list" where
  "serversPastUndoing servers reported clusterName keptBelow touched allKept =
     (let owners = reportedOrdinals reported clusterName in
      filter (\<lambda>s. serverPastUndoing s \<and> serverIdentifier s \<in> set touched \<and>
        (case serverOrdinal clusterName s of
           Some ord \<Rightarrow> ord < keptBelow \<and> runsInOrdinal owners ord (serverIdentifier s)
         | None \<Rightarrow> allKept)) servers)"

definition serverLabel :: "string \<Rightarrow> server_info \<Rightarrow> string" where
  "serverLabel clusterName s =
     (case serverOrdinal clusterName s of
        Some ord \<Rightarrow> serverPodName clusterName ord @ '' ('' @ serverIdentifier s @ '')''
      | None \<Rightarrow> serverIdentifier s)"

subsection \<open>What the condition says\<close>

fun lowest_of :: "int option \<Rightarrow> int option list \<Rightarrow> int option" where
  "lowest_of lowest [] = lowest"
| "lowest_of lowest (o' # os) =
     lowest_of (case (lowest, o') of (Some l, Some ord) \<Rightarrow> Some (if ord < l then ord else l)
                | (None, Some ord) \<Rightarrow> Some ord | (_, None) \<Rightarrow> lowest) os"

definition setBackRefusal :: "server_info list \<Rightarrow> string \<Rightarrow> int \<Rightarrow> string" where
  "setBackRefusal past clusterName replicas =
     (let names = sort (map (serverLabel clusterName) past);
          advice = (case lowest_of None (map (serverOrdinal clusterName) past) of
             None \<Rightarrow> ''Lower spec.topology.servers again so the drain can finish them, then raise it to add new servers in their place.''
           | Some lowest \<Rightarrow> ''Set spec.topology.servers to '' @ itoa lowest @
               '' so the drain can finish them, then raise it to add new servers in their place.'')
      in ''Scale-down set back too late for '' @ join '', '' names @
         '': the drain has begun deallocating them, and Neo4j cannot enable a server again once it deallocates, nor can a dropped server rejoin. '' @
         advice @ '' Replicas are held at '' @ itoa replicas @ ''.'')"

text \<open>\<^verbatim>\<open>onlyOnePrimaryRefusal\<close>: the shortest text up to a full stop that ends a clause.\<close>

definition ends_clause :: "string \<Rightarrow> bool" where
  "ends_clause s = (case s of [] \<Rightarrow> True
     | c # _ \<Rightarrow> c \<in> set [CHR 0x09, CHR 0x0A, CHR 0x0C, CHR 0x0D, CHR '' '', CHR '')''])"

fun until_clause_end :: "string \<Rightarrow> string option" where
  "until_clause_end [] = None"
| "until_clause_end (c # cs) =
     (if c = CHR ''.'' \<and> ends_clause cs then Some []
      else if c = CHR 0x0A then None else map_option (\<lambda>m. c # m) (until_clause_end cs))"

fun onlyOnePrimaryRefusal :: "string \<Rightarrow> string option" where
  "onlyOnePrimaryRefusal [] = None"
| "onlyOnePrimaryRefusal (c # cs) =
     (case Option.bind (cut_prefix ''only one primary: '' (c # cs)) until_clause_end of
        Some m \<Rightarrow> Some m | None \<Rightarrow> onlyOnePrimaryRefusal cs)"

text \<open>\<^verbatim>\<open>requiredTopologyRefusal\<close> at one position: the database, the two counts, what follows.\<close>

definition cut_digits :: "string \<Rightarrow> (string \<times> string) option" where
  "cut_digits s = (if takeWhile is_digit s = [] then None
                   else Some (takeWhile is_digit s, dropWhile is_digit s))"

definition required_topology_at :: "string \<Rightarrow> (string \<times> string \<times> string \<times> string) option" where
  "required_topology_at s =
     (case cut_prefix (''Required topology for '' @ [CHR 0x27]) s of None \<Rightarrow> None
      | Some r \<Rightarrow>
        (let db = takeWhile (\<lambda>c. c \<noteq> CHR 0x27) r in
         case Option.bind (cut_prefix ([CHR 0x27] @ '' is '') (drop (length db) r)) cut_digits of
           None \<Rightarrow> None
         | Some (p, r1) \<Rightarrow>
           (case Option.bind (cut_prefix '' primaries and '' r1) cut_digits of
              None \<Rightarrow> None
            | Some (q, r2) \<Rightarrow>
              map_option (\<lambda>rest. (db, p, q, rest)) (cut_prefix '' secondaries'' r2))))"

lemma cut_prefix_length: "cut_prefix p s = Some r \<Longrightarrow> length r + length p = length s"
  by (auto simp: cut_prefix_Some_iff)

lemma required_topology_shrinks:
  assumes "required_topology_at s = Some (db, p, q, rest)"
  shows "length rest < length s"
proof -
  have d: "length r' \<le> length r" if "cut_digits r = Some (a, r')" for r a r'
    using that by (auto simp: cut_digits_def length_dropWhile_le split: if_splits)
  show ?thesis
    using assms
    by (auto simp: required_topology_at_def Let_def split: option.splits bind_splits
        dest!: cut_prefix_length d)
qed

function requiredTopologyRefusal :: "string \<Rightarrow> (string \<times> string \<times> string) list" where
  "requiredTopologyRefusal s =
     (case required_topology_at s of
        Some (db, p, q, rest) \<Rightarrow> (db, p, q) # requiredTopologyRefusal rest
      | None \<Rightarrow> (case s of [] \<Rightarrow> [] | c # cs \<Rightarrow> requiredTopologyRefusal cs))"
  by pat_completeness auto
termination
  by (relation "measure length") (auto simp: required_topology_shrinks)

declare requiredTopologyRefusal.simps [simp del]

text \<open>\<^verbatim>\<open>strconv.Atoi\<close> with its error ignored gives the largest value when out of range.\<close>

definition atoi_lax :: "string \<Rightarrow> int" where
  "atoi_lax ds = (case atoi ds of Some n \<Rightarrow> n | None \<Rightarrow> 2 ^ 63 - 1)"

definition ellipsis :: string where "ellipsis = [CHR 0xE2, CHR 0x80, CHR 0xA6]"

definition apostrophe :: string where "apostrophe = [CHR 0x27]"

definition only_primary_advice :: "string \<Rightarrow> string" where
  "only_primary_advice m =
     (let dbs = trim_chars {CHR ''['', CHR '']''} (trim_space m);
          first = trim_space (cut_at CHR '','' dbs);
          example = (if first = [] then ''<database>'' else first)
      in ''Neo4j cannot move a database'' @ apostrophe @ ''s only primary, and '' @ dbs @
         '' has one on a server the scale-down removes: give it a second primary first (ALTER DATABASE '' @
         example @ '' SET TOPOLOGY 2 PRIMARIES), or keep the servers.'')"

definition topology_advice :: "string \<times> string \<times> string \<Rightarrow> string" where
  "topology_advice m = (case m of (db, p, q) \<Rightarrow>
     let primaries = atoi_lax p; secondaries = atoi_lax q;
         total = (primaries + secondaries + 2 ^ 63) mod 2 ^ 64 - 2 ^ 63
     in ''Database '' @ apostrophe @ db @ apostrophe @ '' needs '' @ itoa primaries @ '' primaries and '' @
        itoa secondaries @ '' secondaries, each on a server of its own, and the servers the scale-down leaves cannot host them: lower its topology (ALTER DATABASE '' @
        db @ '' SET TOPOLOGY '' @ ellipsis @ ''), or keep enough servers for it (at least '' @ itoa total @ '').'')"

definition general_advice :: string where
  "general_advice =
     ''Either a database needs more servers than the scale-down leaves (lower its topology with ALTER DATABASE '' @
     ellipsis @ '' SET TOPOLOGY, or keep more servers), or a database has its only primary on a server the scale-down removes (give it a second primary first). Neo4j also refuses while a database on these servers is offline, or while a quorum of a database'' @
     apostrophe @ ''s primaries is cordoned.''"

definition deallocateRefusal :: "int \<Rightarrow> string \<Rightarrow> bool \<Rightarrow> string" where
  "deallocateRefusal desired err cordoned =
     (let advice = (case onlyOnePrimaryRefusal err of None \<Rightarrow> [] | Some m \<Rightarrow> [only_primary_advice m]) @
            map topology_advice (requiredTopologyRefusal err);
          advice1 = (if advice = [] then [general_advice] else advice);
          held = (if cordoned then ''Replicas are held until this is resolvable.''
                  else ''No server has been cordoned; replicas are held until this is resolvable.'')
      in ''Scale-down to '' @ itoa desired @ '' server(s) is blocked: DEALLOCATE dry-run failed: '' @ err @
         ''. '' @ join '' '' advice1 @ '' The operator never changes a database'' @ apostrophe @
         ''s topology itself. '' @ held)"

subsection \<open>The environment of a pass of the drain\<close>

record drain_env =
  dNow :: int
  dSettle :: int                                   \<comment> \<open>\<^verbatim>\<open>ScaleDownSettle\<close>\<close>
  dSts :: "stateful_set api_read"                  \<comment> \<open>the StatefulSet as the pass reads it\<close>
  dConnect :: bool
  dServers :: "server_info list option"            \<comment> \<open>SHOW SERVERS\<close>
  dMinPrimaries :: int
  dCordon :: "string \<Rightarrow> bool"                       \<comment> \<open>Neo4j accepts the statement\<close>
  dEnable :: "string \<Rightarrow> bool"
  dPreflight :: "string list \<Rightarrow> string option"       \<comment> \<open>the refusal of the first dry run\<close>
  dDryRun :: "string list \<Rightarrow> string option"
  dDeallocate :: "string list \<Rightarrow> string option"
  dDrop :: "string \<Rightarrow> string option"
  dHoldLands :: bool                               \<comment> \<open>the annotation patches\<close>
  dHoldAgainLands :: bool
  dSetLands :: bool
  dCordonLands :: bool
  dGiveBackLands :: bool
  dClearLands :: bool
  dReleaseLands :: bool
  dCondition :: write_outcome
  dParseTime :: "string \<Rightarrow> int option"              \<comment> \<open>\<^verbatim>\<open>time.Parse(time.RFC3339Nano, s)\<close>\<close>
  dFormatNano :: "int \<Rightarrow> string"                    \<comment> \<open>\<^verbatim>\<open>cordonedAtLayout\<close>, UTC\<close>
  dFormatSecond :: "int \<Rightarrow> string"                  \<comment> \<open>\<^verbatim>\<open>time.RFC3339\<close>, UTC\<close>

subsection \<open>The condition\<close>

definition setScaleDownConditionPersisted ::
    "drain_env \<Rightarrow> condition_status \<Rightarrow> string \<Rightarrow> string \<Rightarrow> world \<Rightarrow> world \<times> bool" where
  "setScaleDownConditionPersisted e status reason message w =
     (case dCondition e of
        Written \<Rightarrow>
          (let latest = wStored w;
               changed = (case findCondition (stConditions latest) ConditionTypeServersPendingDrain of
                  None \<Rightarrow> True
                | Some before \<Rightarrow> cStatus before \<noteq> status \<or> cReason before \<noteq> reason \<or> cMessage before \<noteq> message)
           in (w\<lparr>wStored := latest\<lparr>stConditions := fst (SetNamedCondition (stConditions latest)
                 ConditionTypeServersPendingDrain (clGeneration latest) status reason message (dNow e))\<rparr>\<rparr>,
               changed))
      | _ \<Rightarrow> (w, False))"

definition settleScaleDownCondition :: "drain_env \<Rightarrow> string \<Rightarrow> world \<Rightarrow> world" where
  "settleScaleDownCondition e message w =
     (case dCondition e of
        Written \<Rightarrow>
          (let latest = wStored w;
               cs = fst (SetNamedCondition (stConditions latest) ConditionTypeServersPendingDrain
                 (clGeneration latest) CondFalse ConditionReasonNoServersPendingDrain message (dNow e))
           in case findCondition (stConditions latest) ConditionTypeServersPendingDrain of
                None \<Rightarrow> w
              | Some c \<Rightarrow> if cStatus c \<noteq> CondTrue then w
                         else w\<lparr>wStored := latest\<lparr>stConditions := cs\<rparr>, wMem := (wMem w)\<lparr>stConditions := cs\<rparr>\<rparr>)
      | _ \<Rightarrow> w)"

definition blockScaleDown :: "drain_env \<Rightarrow> string \<Rightarrow> world \<Rightarrow> world" where
  "blockScaleDown e msg w =
     (let (w1, changed) = setScaleDownConditionPersisted e CondTrue ConditionReasonScaleDownBlocked msg w
      in if changed then logged [Event True ''ScaleDownBlocked'' msg] w1 else w1)"

definition scaleDownDrainCompleteMessage :: string where
  "scaleDownDrainCompleteMessage = ''Scale-down drain complete''"
definition scaleDownNotInProgressMessage :: string where
  "scaleDownNotInProgressMessage = ''Scale-down not in progress''"

subsection \<open>The settle before the deallocation\<close>

definition nanosecond_second :: int where "nanosecond_second = 10 ^ 9"

definition DefaultScaleDownSettle :: int where "DefaultScaleDownSettle = 20 * nanosecond_second"

definition cordonedAt :: "drain_env \<Rightarrow> cluster \<Rightarrow> int option" where
  "cordonedAt e cl =
     (let raw = trim_space (annotation (clAnnotations cl) ScaleDownCordonedAtAnnotation) in
      map_option (\<lambda>at. if CHR ''.'' \<in> set raw then at else at + nanosecond_second) (dParseTime e raw))"

definition settleShown :: "drain_env \<Rightarrow> int \<Rightarrow> string" where
  "settleShown e from =
     (let t = from - from mod nanosecond_second
      in dFormatSecond e (if t \<noteq> from then t + nanosecond_second else from))"

text \<open>When the drain may deallocate, and how long that is from now.\<close>

definition cordonSettle :: "drain_env \<Rightarrow> cluster \<Rightarrow> string list \<Rightarrow> int \<times> int" where
  "cordonSettle e cl ids =
     (if dSettle e \<le> 0 then (0, 0)
      else if list_ex (\<lambda>i. i \<in> set (cordonedByDrain cl)) ids
      then (case cordonedAt e cl of None \<Rightarrow> (0, 0)
            | Some at \<Rightarrow> (at + dSettle e, max 0 (at + dSettle e - dNow e)))
      else (0, 0))"

definition settleMessage :: "drain_env \<Rightarrow> int \<Rightarrow> nat \<Rightarrow> int \<Rightarrow> string" where
  "settleMessage e desired draining from =
     ''Scale-down to '' @ itoa desired @ '' server(s) in progress: cordoned '' @ nat_str draining @
     '' server(s); their databases are deallocated from '' @ settleShown e from @
     '' unless spec.topology.servers is raised again before then''"

definition note_wake :: "int \<Rightarrow> world \<Rightarrow> world" where
  "note_wake after w =
     (if after \<le> 0 then w
      else case wWake w of Some d \<Rightarrow> if d \<le> after then w else w\<lparr>wWake := Some after\<rparr>
           | None \<Rightarrow> w\<lparr>wWake := Some after\<rparr>)"

text \<open>\<^verbatim>\<open>apply\<close>: the result of a pass that did not fail, brought forward to what it noted.\<close>

definition apply_wake :: "result \<Rightarrow> world \<Rightarrow> world \<times> result" where
  "apply_wake res w =
     (w\<lparr>wWake := None\<rparr>,
      case wWake w of None \<Rightarrow> res
      | Some after \<Rightarrow> if after \<le> 0 then res
          else (case res of RequeueAfter d \<Rightarrow> if 0 < d \<and> d \<le> after then res else RequeueAfter after
                | NoRequeue \<Rightarrow> RequeueAfter after))"

subsection \<open>Giving back\<close>

text \<open>The rows by id: of two rows with one id, the last.\<close>

definition rows_by_id :: "server_info list \<Rightarrow> (string \<rightharpoonup> server_info)" where
  "rows_by_id servers = map_of (rev (map (\<lambda>s. (serverIdentifier s, s)) servers))"

text \<open>The statements run in order; the first that Neo4j refuses ends the loop.\<close>

fun enable_each ::
    "drain_env \<Rightarrow> string list \<Rightarrow> (string \<rightharpoonup> server_info) \<Rightarrow> string list \<Rightarrow>
     neo4j_statement list \<times> server_info list \<times> bool" where
  "enable_each e record byID [] = ([], [], True)"
| "enable_each e record byID (i # is) =
     (case byID i of
        None \<Rightarrow> enable_each e record byID is
      | Some s \<Rightarrow>
        if i \<notin> set record \<or> \<not> equal_fold (srvState s) ''cordoned'' then enable_each e record byID is
        else if \<not> dEnable e i then ([EnableServer i], [], False)
        else (case enable_each e record byID is of (stmts, enabled, ok) \<Rightarrow>
               (EnableServer i # stmts, s # enabled, ok)))"

definition giveBackCordoned ::
    "drain_env \<Rightarrow> server_info list \<Rightarrow> string list \<Rightarrow> world \<Rightarrow> world \<times> bool" where
  "giveBackCordoned e servers ids w =
     (let record = cordonedByDrain (wMem w);
          (stmts, enabled, accepted) = enable_each e record (rows_by_id servers) (sort ids);
          w1 = logged (map Statement stmts) w;
          remaining = filter (\<lambda>i. i \<notin> set ids) record;
          kept = (ScaleDownCordonedServersAnnotation, join '','' remaining) #
                 (if remaining = [] then [(ScaleDownCordonedAtAnnotation, [])] else [])
      in if \<not> accepted then (w1, False)
         else let (w2, ok) = setDrainAnnotations (dGiveBackLands e) kept w1
              in if \<not> ok then (w2, False)
                 else (if enabled \<noteq> []
                       then logged [Event False ''ScaleDownSetBack'' (''Scale-down set back: enabled '' @
                              nat_str (length enabled) @ '' server(s) the drain had cordoned: '' @
                              join '', '' (map (serverLabel (clName (wMem w))) enabled))] w2
                       else w2, True))"

definition know_addresses :: "server_info list \<Rightarrow> world \<Rightarrow> world \<times> server_info list" where
  "know_addresses reported w =
     (case withKnownAddresses (wMem w) (wAddresses w) reported of (book, servers) \<Rightarrow>
        (w\<lparr>wAddresses := book\<rparr>, servers))"

definition setBackScaleDown :: "drain_env \<Rightarrow> int \<Rightarrow> world \<Rightarrow> world \<times> bool" where
  "setBackScaleDown e current w =
     (if drainServerIDsFromAnnotation (wMem w) = [] \<and> cordonedByDrain (wMem w) = []
      then setDrainAnnotations (dReleaseLands e) [(ScaleDownHeldPodsAnnotation, [])]
             (settleScaleDownCondition e scaleDownNotInProgressMessage w)
      else if \<not> dConnect e then (w, True)
      else case dServers e of
        None \<Rightarrow> (w, True)
      | Some reported \<Rightarrow>
        (let (w1, servers) = know_addresses reported w;
             cname = clName (wMem w1);
             past = serversPastUndoing servers reported cname current (drainTouched (wMem w1)) True
         in if past \<noteq> [] then (blockScaleDown e (setBackRefusal past cname current) w1, True)
            else let (w2, given) = giveBackCordoned e servers (cordonedByDrain (wMem w1)) w1
                 in if \<not> given then (w2, True)
                    else clearDrainRecords (dClearLands e) (dReleaseLands e)
                           (settleScaleDownCondition e scaleDownNotInProgressMessage w2)))"

subsection \<open>One step of the drain\<close>

text \<open>The cordons and the drops: each in order, until one fails.\<close>

fun cordon_each :: "drain_env \<Rightarrow> string list \<Rightarrow> neo4j_statement list \<times> bool" where
  "cordon_each e [] = ([], True)"
| "cordon_each e (i # is) =
     (if \<not> dCordon e i then ([CordonServer i], False)
      else (case cordon_each e is of (stmts, ok) \<Rightarrow> (CordonServer i # stmts, ok)))"

fun drop_each :: "drain_env \<Rightarrow> string list \<Rightarrow> neo4j_statement list \<times> (string \<times> string) option" where
  "drop_each e [] = ([], None)"
| "drop_each e (i # is) =
     (case dDrop e i of
        Some err \<Rightarrow>
          if drainAlreadyUnderway err
          then (case drop_each e is of (stmts, failed) \<Rightarrow> (DropServer i # stmts, failed))
          else ([DropServer i], Some (i, err))
      | None \<Rightarrow> (case drop_each e is of (stmts, failed) \<Rightarrow> (DropServer i # stmts, failed)))"

definition pending :: "drain_env \<Rightarrow> string \<Rightarrow> world \<Rightarrow> world" where
  "pending e msg w = fst (setScaleDownConditionPersisted e CondTrue ConditionReasonServersPendingDrain msg w)"

definition progress_message :: "int \<Rightarrow> nat \<Rightarrow> string" where
  "progress_message desired n = ''Scale-down to '' @ itoa desired @ '' server(s) in progress: draining '' @
     nat_str n @ '' server(s)''"

definition cordon_step :: "drain_env \<Rightarrow> int \<Rightarrow> nat \<Rightarrow> string list \<Rightarrow> world \<Rightarrow> world \<times> bool" where
  "cordon_step e desired n ids w =
     (let (w1, ok) = setDrainAnnotations (dCordonLands e)
            [(ScaleDownCordonedServersAnnotation, join '','' (unionIDs (cordonedByDrain (wMem w)) ids)),
             (ScaleDownCordonedAtAnnotation, dFormatNano e (dNow e))] w;
          (stmts, cordoned) = cordon_each e ids
      in if \<not> ok then (w1, False)
         else if \<not> cordoned then (logged (map Statement stmts) w1, True)
         else let w2 = logged (map Statement stmts @ [Event False ''ScaleDownDraining''
                    (''Scale-down: cordoned '' @ nat_str (length ids) @ '' server(s): '' @ join '', '' ids)]) w1;
                  (from, left) = cordonSettle e (wMem w2) ids
              in if left > 0 then (pending e (settleMessage e desired n from) (note_wake left w2), True)
                 else (pending e (progress_message desired n) w2, True))"

definition deallocate_step :: "drain_env \<Rightarrow> int \<Rightarrow> nat \<Rightarrow> string list \<Rightarrow> world \<Rightarrow> world" where
  "deallocate_step e desired n ids w =
     (let (from, left) = cordonSettle e (wMem w) ids in
      if left > 0 then pending e (settleMessage e desired n from) (note_wake left w)
      else let w1 = logged [Statement (DeallocateServers ids True)] w in
        case dDryRun e ids of
          Some err \<Rightarrow> if drainAlreadyUnderway err then w1
                      else blockScaleDown e (deallocateRefusal desired err True) w1
        | None \<Rightarrow>
          (let w2 = logged [Statement (DeallocateServers ids False)] w1 in
           if dDeallocate e ids \<noteq> None then w2
           else pending e (progress_message desired n) (logged [Event False ''ScaleDownDraining''
                  (''Scale-down: deallocating databases from '' @ nat_str (length ids) @
                   '' server(s): '' @ join '', '' ids)] w2)))"

definition drop_step :: "drain_env \<Rightarrow> int \<Rightarrow> nat \<Rightarrow> string list \<Rightarrow> world \<Rightarrow> world" where
  "drop_step e desired n ids w =
     (let (stmts, failed) = drop_each e ids; w1 = logged (map Statement stmts) w in
      case failed of
        Some (i, err) \<Rightarrow>
          blockScaleDown e (''Scale-down to '' @ itoa desired @ '' server(s) is blocked: DROP SERVER '' @ i @
            '' failed: '' @ err @ ''. This usually means the drop would take the system database below its minimum voting members. Keep at least the system minimum number of servers. Replicas are held.'') w1
      | None \<Rightarrow>
          pending e (progress_message desired n) (logged [Event False ''ScaleDownDraining''
            (''Scale-down: dropped '' @ nat_str (length ids) @ '' drained server(s): '' @ join '', '' ids)] w1))"

definition drain_step_for :: "drain_env \<Rightarrow> int \<Rightarrow> server_info list \<Rightarrow> world \<Rightarrow> world \<times> bool" where
  "drain_step_for e desired active w =
     (case planScaleDownStep active of
        (scaleDownCordon, ids) \<Rightarrow> cordon_step e desired (length active) ids w
      | (scaleDownDeallocate, ids) \<Rightarrow> (deallocate_step e desired (length active) ids w, True)
      | (scaleDownDrop, ids) \<Rightarrow> (drop_step e desired (length active) ids w, True)
      | (_, ids) \<Rightarrow> (pending e (progress_message desired (length active)) w, True))"

text \<open>While no server has begun to deallocate, the whole set is tried first.\<close>

definition drain_active :: "drain_env \<Rightarrow> int \<Rightarrow> server_info list \<Rightarrow> world \<Rightarrow> world \<times> bool" where
  "drain_active e desired active w =
     (if list_ex (in_state [''deallocating'', ''deallocated'']) active
      then drain_step_for e desired active w
      else let ids = map serverIdentifier active;
               w1 = logged [Statement (DeallocateServers ids True)] w in
        case dPreflight e ids of
          Some err \<Rightarrow> (if drainAlreadyUnderway err then w1
                       else blockScaleDown e (deallocateRefusal desired err False) w1, True)
        | None \<Rightarrow> drain_step_for e desired active w1)"

subsection \<open>The pass\<close>

definition floor_refusal :: "int \<Rightarrow> int \<Rightarrow> int \<Rightarrow> string" where
  "floor_refusal desired minPrimaries current =
     (let m = itoa minPrimaries; dash = [CHR 0xE2, CHR 0x80, CHR 0x94] in
      ''Refusing to scale this cluster to '' @ itoa desired @ '' server(s): a Neo4j cluster cannot drop below '' @
      m @ '' servers '' @ dash @ '' the system database requires at least '' @ m @
      '' voting members (dbms.cluster.minimum_initial_system_primaries_count). Scaling lower would strand servers (a deallocated server can'' @
      apostrophe @ ''t rejoin). Keep at least '' @ m @
      '' servers, or use Neo4jEnterpriseStandalone for a single node. Replicas held at '' @ itoa current @ ''.'')"

text \<open>The persisted ids that are still live: those the spec keeps now, and the others.\<close>

definition persisted_ids :: "cluster \<Rightarrow> server_info list \<Rightarrow> string list" where
  "persisted_ids cl servers =
     filter (\<lambda>i. case rows_by_id servers i of None \<Rightarrow> False | Some s \<Rightarrow> \<not> dropped s)
       (drainServerIDsFromAnnotation cl)"

definition kept_ids :: "cluster \<Rightarrow> server_info list \<Rightarrow> server_info list \<Rightarrow> int \<Rightarrow> string list" where
  "kept_ids cl servers reported desired =
     filter (\<lambda>i. keptByTheSpec (the (rows_by_id servers i)) (reportedOrdinals reported (clName cl))
                  (clName cl) desired) (persisted_ids cl servers)"

definition drain_ids :: "cluster \<Rightarrow> server_info list \<Rightarrow> server_info list \<Rightarrow> int \<Rightarrow> string list" where
  "drain_ids cl servers reported desired =
     sorted_set (initialRemovedServerIDs servers (clName cl) desired @
       fst (unidentifiedRemovedServerIDs servers (clName cl) desired) @
       filter (\<lambda>i. i \<notin> set (kept_ids cl servers reported desired)) (persisted_ids cl servers))"

definition active_servers :: "server_info list \<Rightarrow> string list \<Rightarrow> server_info list" where
  "active_servers servers ids =
     concat (map (\<lambda>i. case rows_by_id servers i of None \<Rightarrow> []
                      | Some s \<Rightarrow> if dropped s then [] else [s]) ids)"

definition drain_known :: "drain_env \<Rightarrow> int \<Rightarrow> int \<Rightarrow> server_info list \<Rightarrow> string list \<Rightarrow> world \<Rightarrow> world \<times> bool" where
  "drain_known e desired current servers ids w =
     (let undecided = snd (unidentifiedRemovedServerIDs servers (clName (wMem w)) desired);
          active = active_servers servers ids
      in if ids = [] \<and> undecided = []
         then clearDrainRecords (dClearLands e) (dReleaseLands e)
                (settleScaleDownCondition e scaleDownDrainCompleteMessage w)
         else if active = [] \<and> undecided \<noteq> []
         then holdPods (dHoldAgainLands e) (provisionalDrainHoldNames (clName (wMem w)) current desired)
                (pending e (''Scale-down to '' @ itoa desired @ '' server(s) waits: '' @ undecided) w)
         else let (w1, ok) = setDrainServers (dSetLands e) ids w
              in if \<not> ok then (w1, False)
                 else if desired < dMinPrimaries e
                 then (blockScaleDown e (floor_refusal desired (dMinPrimaries e) current) w1, True)
                 else drain_active e desired active w1)"

definition drain_listed :: "drain_env \<Rightarrow> int \<Rightarrow> int \<Rightarrow> server_info list \<Rightarrow> world \<Rightarrow> world \<times> bool" where
  "drain_listed e desired current reported w =
     (let (w1, servers) = know_addresses reported w;
          cname = clName (wMem w1);
          past = serversPastUndoing servers reported cname desired (drainTouched (wMem w1)) False;
          keep = kept_ids (wMem w1) servers reported desired;
          ids = drain_ids (wMem w1) servers reported desired
      in if past \<noteq> [] then (blockScaleDown e (setBackRefusal past cname current) w1, True)
         else let (w2, given) = (if keep \<noteq> [] then giveBackCordoned e servers keep w1 else (w1, True))
              in if \<not> given then (w2, True) else drain_known e desired current servers ids w2)"

definition reconcileScaleDownDrain :: "drain_env \<Rightarrow> world \<Rightarrow> world \<times> bool" where
  "reconcileScaleDownDrain e w =
     (let desired = specServers (wMem w) in
      if desired \<le> 0 then (w, True)
      else case dSts e of
        Found sts \<Rightarrow>
          (let current = (case stsReplicas sts of None \<Rightarrow> 0 | Some r \<Rightarrow> r) in
           if current \<le> desired then setBackScaleDown e current w
           else let (w1, held) =
                  (if scaleDownDrainInProgress (wMem w) then (w, True)
                   else holdPods (dHoldLands e)
                          (provisionalDrainHoldNames (clName (wMem w)) current desired) w)
                in if \<not> held then (w1, False)
                   else if \<not> dConnect e then (w1, True)
                   else case dServers e of None \<Rightarrow> (w1, True)
                        | Some reported \<Rightarrow> drain_listed e desired current reported w1)
      | _ \<Rightarrow> (w, True))"

end
