(* ===== verification/Scale_Down_Safety.thy ===== *)
theory Scale_Down_Safety
  imports Scale_Down
begin

text \<open>
  What the scale-down drain promises: which statements a pass may send to Neo4j and on what
  grounds, that the replica count stays held until the drain is over, that a cordon is on record
  before it runs, and that a set-back gives back what the drain took and nothing else. The drain
  also keeps the contract the upgrade machine relies on (\<open>drain_step\<close>).
\<close>

section \<open>What a pass of the drain leaves alone, and what it asks of Neo4j\<close>

fun statement_in :: "effect \<Rightarrow> neo4j_statement list" where
  "statement_in (Statement s) = [s]"
| "statement_in _ = []"

definition statements_of :: "effect list \<Rightarrow> neo4j_statement list" where
  "statements_of es = concat (map statement_in es)"

definition issued :: "world \<Rightarrow> world \<Rightarrow> neo4j_statement list" where
  "issued w w' = statements_of (drop (length (wLog w)) (wLog w'))"

text \<open>From \<open>w\<close> to \<open>w'\<close> the statements \<open>xs\<close> were issued, and the rest is as it was.\<close>

definition drains :: "world \<Rightarrow> neo4j_statement list \<Rightarrow> world \<Rightarrow> bool" where
  "drains w xs w' \<longleftrightarrow> wSts w' = wSts w \<and> stUpgradeStatus (wStored w') = stUpgradeStatus (wStored w) \<and>
     stVersion (wStored w') = stVersion (wStored w) \<and> clName (wMem w') = clName (wMem w) \<and>
     stUpgradeStatus (wMem w') = stUpgradeStatus (wMem w) \<and>
     (\<exists>es. wLog w' = wLog w @ es \<and> statements_of es = xs)"

lemma statements_of_simps [simp]:
  "statements_of [] = []" "statements_of (es @ fs) = statements_of es @ statements_of fs"
  "statements_of (Statement x # es) = x # statements_of es"
  "statements_of (Event a b c # es) = statements_of es"
  "statements_of (map Statement xs) = xs"
  by (simp_all add: statements_of_def) (induction xs; simp)

lemma drains_issued: "drains w xs w' \<Longrightarrow> issued w w' = xs"
  by (auto simp: drains_def issued_def)

lemma drains_trans [trans]: "drains w xs v \<Longrightarrow> drains v ys u \<Longrightarrow> drains w (xs @ ys) u"
  by (auto simp: drains_def)

lemma drains_refl [simp]: "drains w [] w"
  by (simp add: drains_def)

lemma drains_none: "drains w [] v \<Longrightarrow> drains v ys u \<Longrightarrow> drains w ys u"
  "drains w xs v \<Longrightarrow> drains v [] u \<Longrightarrow> drains w xs u"
  using drains_trans by fastforce+

lemma drains_logged [simp]: "statements_of es = xs \<Longrightarrow> drains w xs (logged es w)"
  by (simp add: drains_def)

lemma drains_annotations [simp]: "drains w [] (fst (setDrainAnnotations lands vs w))"
  by (simp add: drains_def setDrainAnnotations_def Let_def)

lemma drains_set [simp]: "drains w [] (fst (setDrainServers lands ids w))"
proof -
  have "drains w [] (w\<lparr>wDrainDeferred := None\<rparr>)" by (simp add: drains_def)
  from drains_none(1) [OF this drains_annotations] show ?thesis by (simp add: setDrainServers_def)
qed

lemma drains_hold [simp]: "drains w [] (fst (holdPods lands pods w))"
  by (simp add: holdPods_def)

lemma drains_clear [simp]: "drains w [] (fst (clearDrainRecords l1 l2 w))"
  using drains_none(1) [OF drains_annotations drains_set]
  by (simp add: clearDrainRecords_def Let_def case_prod_beta)

lemma drains_condition [simp]: "drains w [] (fst (setScaleDownConditionPersisted e st r m w))"
  by (simp add: drains_def setScaleDownConditionPersisted_def Let_def split: write_outcome.splits)

lemma drains_settle [simp]: "drains w [] (settleScaleDownCondition e m w)"
  by (auto simp: drains_def settleScaleDownCondition_def Let_def split: write_outcome.splits option.splits)

lemma drains_pending [simp]: "drains w [] (pending e m w)"
  by (simp add: pending_def)

lemma drains_block [simp]: "drains w [] (blockScaleDown e m w)"
  using drains_none(1) [OF drains_condition drains_logged, of _ "[]"]
  by (simp add: blockScaleDown_def Let_def case_prod_beta)

lemma drains_wake [simp]: "drains w [] (note_wake t w)"
  by (simp add: drains_def note_wake_def split: option.splits)

lemma drains_know [simp]: "drains w [] (fst (know_addresses reported w))"
  by (simp add: drains_def know_addresses_def case_prod_beta)

text \<open>A composition that ends in steps that issue nothing.\<close>

lemma drains_then:
  "drains w xs v \<Longrightarrow> drains w xs (pending e m v)" "drains w xs v \<Longrightarrow> drains w xs (blockScaleDown e m v)"
  "drains w xs v \<Longrightarrow> statements_of es = ys \<Longrightarrow> drains w (xs @ ys) (logged es v)"
  "drains w xs v \<Longrightarrow> drains w xs (fst (setDrainAnnotations lands vs v))"
  "drains w xs v \<Longrightarrow> drains w xs (fst (holdPods lands pods v))"
  "drains w xs v \<Longrightarrow> drains w xs (fst (clearDrainRecords l1 l2 v))"
  "drains w xs v \<Longrightarrow> drains w xs (settleScaleDownCondition e m v)"
  "drains w xs v \<Longrightarrow> drains w xs (note_wake t v)"
  by (blast intro: drains_none(2) drains_trans drains_pending drains_block drains_logged drains_annotations
      drains_hold drains_clear drains_settle drains_wake)+


section \<open>One step\<close>

text \<open>What each step may act on, and what it leaves for another.\<close>

fun step_acts_on :: "scaleDownPhase \<Rightarrow> server_info \<Rightarrow> bool" where
  "step_acts_on scaleDownNone s = False"
| "step_acts_on scaleDownCordon s = (\<not> in_state [''cordoned'', ''deallocating'', ''deallocated''] s)"
| "step_acts_on scaleDownDeallocate s = in_state [''cordoned''] s"
| "step_acts_on scaleDownDrop s = (in_state [''deallocating'', ''deallocated''] s \<and> hostsOnlySystem s)"
| "step_acts_on scaleDownWaitDeallocating s = (in_state [''deallocating'', ''deallocated''] s \<and> \<not> hostsOnlySystem s)"

fun step_waits_for :: "scaleDownPhase \<Rightarrow> server_info \<Rightarrow> bool" where
  "step_waits_for scaleDownDeallocate s = step_acts_on scaleDownCordon s"
| "step_waits_for scaleDownDrop s = (step_acts_on scaleDownCordon s \<or> step_acts_on scaleDownDeallocate s)"
| "step_waits_for scaleDownWaitDeallocating s =
     (step_acts_on scaleDownCordon s \<or> step_acts_on scaleDownDeallocate s \<or> step_acts_on scaleDownDrop s)"
| "step_waits_for _ s = False"

lemma in_state_append: "in_state (a @ b) s \<longleftrightarrow> in_state a s \<or> in_state b s"
  by (simp add: in_state_def)

lemma plan_step:
  assumes "planScaleDownStep active = (ph, ids)"
  shows "\<forall>i\<in>set ids. \<exists>s\<in>set active. serverIdentifier s = i \<and> step_acts_on ph s"
    and "\<forall>s\<in>set active. \<not> step_waits_for ph s"
    and "\<forall>s\<in>set active. step_acts_on ph s \<longrightarrow> serverIdentifier s \<in> set ids"
    and "active \<noteq> [] \<Longrightarrow> ph \<noteq> scaleDownNone \<and> ids \<noteq> []"
proof -
  have cases: "step_acts_on scaleDownCordon s \<or> step_acts_on scaleDownDeallocate s \<or>
      step_acts_on scaleDownDrop s \<or> step_acts_on scaleDownWaitDeallocating s" for s
    by (auto simp: in_state_def)
  have f: "step_acts_on scaleDownCordon = (\<lambda>s. \<not> in_state [''cordoned'', ''deallocating'', ''deallocated''] s)"
    "step_acts_on scaleDownDeallocate = in_state [''cordoned'']"
    "step_acts_on scaleDownDrop = (\<lambda>s. in_state [''deallocating'', ''deallocated''] s \<and> hostsOnlySystem s)"
    "step_acts_on scaleDownWaitDeallocating =
       (\<lambda>s. in_state [''deallocating'', ''deallocated''] s \<and> \<not> hostsOnlySystem s)"
    by (rule ext, simp)+
  let ?f = "\<lambda>ph. map serverIdentifier (filter (step_acts_on ph) active)"
  have "planScaleDownStep active =
      (if ?f scaleDownCordon \<noteq> [] then (scaleDownCordon, ?f scaleDownCordon)
       else if ?f scaleDownDeallocate \<noteq> [] then (scaleDownDeallocate, ?f scaleDownDeallocate)
       else if ?f scaleDownDrop \<noteq> [] then (scaleDownDrop, ?f scaleDownDrop)
       else if ?f scaleDownWaitDeallocating \<noteq> [] then (scaleDownWaitDeallocating, ?f scaleDownWaitDeallocating)
       else (scaleDownNone, []))"
    unfolding f by (simp add: planScaleDownStep_def Let_def conj_commute)
  note e = this [unfolded assms]
  have none: "ph \<noteq> scaleDownNone" if "active \<noteq> []"
    using that e cases by (cases active) (auto simp del: step_acts_on.simps split: if_splits)
  have "(\<forall>i\<in>set ids. \<exists>s\<in>set active. serverIdentifier s = i \<and> step_acts_on ph s) \<and>
    (\<forall>s\<in>set active. \<not> step_waits_for ph s) \<and>
    (\<forall>s\<in>set active. step_acts_on ph s \<longrightarrow> serverIdentifier s \<in> set ids) \<and>
    (ph \<noteq> scaleDownNone \<longrightarrow> ids \<noteq> [])"
    using e by (auto simp: filter_empty_conv simp del: step_acts_on.simps(2-5) split: if_splits)
  then show "\<forall>i\<in>set ids. \<exists>s\<in>set active. serverIdentifier s = i \<and> step_acts_on ph s"
    "\<forall>s\<in>set active. \<not> step_waits_for ph s"
    "\<forall>s\<in>set active. step_acts_on ph s \<longrightarrow> serverIdentifier s \<in> set ids"
    "active \<noteq> [] \<Longrightarrow> ph \<noteq> scaleDownNone \<and> ids \<noteq> []"
    using none by blast+
qed

lemma cordon_each_set: "set (fst (cordon_each e ids)) \<subseteq> CordonServer ` set ids"
  by (induction ids) (auto split: prod.splits)

lemma drop_each_set: "set (fst (drop_each e ids)) \<subseteq> DropServer ` set ids"
  by (induction ids) (auto split: prod.splits option.splits)

lemma enable_each_set:
  assumes "x \<in> set (fst (enable_each e took byID ids))"
  shows "\<exists>i s. x = EnableServer i \<and> i \<in> set ids \<and> i \<in> set took \<and> byID i = Some s \<and>
    equal_fold (srvState s) ''cordoned''"
  using assms
  by (induction e took byID ids rule: enable_each.induct)
    (auto simp: case_prod_beta split: option.splits if_splits)

lemma cordon_step_drains:
  "\<exists>xs. set xs \<subseteq> CordonServer ` set ids \<and> drains w xs (fst (cordon_step e desired n ids w)) \<and>
     (xs \<noteq> [] \<longrightarrow> snd (setDrainAnnotations (dCordonLands e)
            [(ScaleDownCordonedServersAnnotation, join '','' (unionIDs (cordonedByDrain (wMem w)) ids)),
             (ScaleDownCordonedAtAnnotation, dFormatNano e (dNow e))] w))"
proof -
  let ?a = "setDrainAnnotations (dCordonLands e)
            [(ScaleDownCordonedServersAnnotation, join '','' (unionIDs (cordonedByDrain (wMem w)) ids)),
             (ScaleDownCordonedAtAnnotation, dFormatNano e (dNow e))] w"
  let ?xs = "fst (cordon_each e ids)"
  have a: "drains w [] (fst ?a)" by simp
  have l: "drains w ?xs (logged (map Statement ?xs @ [Event b r m]) (fst ?a))" for b r m
    using drains_then(3) [OF a, of "map Statement ?xs @ [Event b r m]"] by simp
  have l': "drains w ?xs (logged (map Statement ?xs) (fst ?a))"
    using drains_then(3) [OF a, of "map Statement ?xs"] by simp
  have "drains w ?xs (fst (cordon_step e desired n ids w))" if "snd ?a"
    unfolding cordon_step_def Let_def case_prod_beta
    using that l l' by (simp add: drains_then(1,8))
  moreover have "drains w [] (fst (cordon_step e desired n ids w))" if "\<not> snd ?a"
    unfolding cordon_step_def Let_def case_prod_beta using that by simp
  ultimately show ?thesis using cordon_each_set [of e ids] by (cases "snd ?a") fastforce+
qed

lemma deallocate_step_drains:
  "\<exists>xs. set xs \<subseteq> {DeallocateServers ids True, DeallocateServers ids False} \<and>
     drains w xs (deallocate_step e desired n ids w) \<and>
     (DeallocateServers ids False \<in> set xs \<longrightarrow> dDryRun e ids = None \<and> snd (cordonSettle e (wMem w) ids) \<le> 0)"
proof -
  let ?t = "DeallocateServers ids True" and ?f = "DeallocateServers ids False"
  let ?w1 = "logged [Statement ?t] w"
  have w1: "drains w [?t] ?w1" by simp
  have w2: "drains w [?t, ?f] (logged [Statement ?f] ?w1)" using drains_then(3) [OF w1, of "[Statement ?f]"] by simp
  have w3: "drains w [?t, ?f] (logged [Event b r m] (logged [Statement ?f] ?w1))" for b r m
    using drains_then(3) [OF w2, of "[Event b r m]"] by simp
  consider (settle) "snd (cordonSettle e (wMem w) ids) > 0"
    | (refused) err where "snd (cordonSettle e (wMem w) ids) \<le> 0" "dDryRun e ids = Some err"
    | (runs) "snd (cordonSettle e (wMem w) ids) \<le> 0" "dDryRun e ids = None"
    by (cases "dDryRun e ids") fastforce+
  then show ?thesis
  proof cases
    case settle
    then show ?thesis
      by (intro exI [of _ "[]"]) (simp add: deallocate_step_def case_prod_beta drains_then(1))
  next
    case refused
    then show ?thesis
      using w1 by (intro exI [of _ "[?t]"]) (simp add: deallocate_step_def case_prod_beta Let_def drains_then(2))
  next
    case runs
    then show ?thesis
      using w2 w3 by (intro exI [of _ "[?t, ?f]"])
        (simp add: deallocate_step_def case_prod_beta Let_def drains_then(1))
  qed
qed

lemma drop_step_drains:
  "\<exists>xs. set xs \<subseteq> DropServer ` set ids \<and> drains w xs (drop_step e desired n ids w)"
proof -
  let ?xs = "fst (drop_each e ids)"
  have l: "drains w ?xs (logged (map Statement ?xs) w)" by simp
  have l': "drains w ?xs (logged [Event b r m] (logged (map Statement ?xs) w))" for b r m
    using drains_then(3) [OF l, of "[Event b r m]"] by simp
  have "drains w ?xs (drop_step e desired n ids w)"
    using l l' by (auto simp: drop_step_def case_prod_beta Let_def intro: drains_then split: option.splits)
  then show ?thesis using drop_each_set by blast
qed


section \<open>A pass\<close>

text \<open>The steps that write no annotation.\<close>

lemma condition_mem [simp]:
  "wMem (fst (setScaleDownConditionPersisted e st r m w)) = wMem w"
  "clAnnotations (wStored (fst (setScaleDownConditionPersisted e st r m w))) = clAnnotations (wStored w)"
  by (simp_all add: setScaleDownConditionPersisted_def Let_def split: write_outcome.splits)

lemma pending_mem [simp]:
  "wMem (pending e m w) = wMem w" "clAnnotations (wStored (pending e m w)) = clAnnotations (wStored w)"
  by (simp_all add: pending_def)

lemma block_mem [simp]:
  "wMem (blockScaleDown e m w) = wMem w"
  "clAnnotations (wStored (blockScaleDown e m w)) = clAnnotations (wStored w)"
  by (simp_all add: blockScaleDown_def Let_def case_prod_beta)

lemma wake_mem [simp]: "wMem (note_wake t w) = wMem w" "wStored (note_wake t w) = wStored w"
  by (simp_all add: note_wake_def split: option.splits)

lemma know_mem [simp]: "wMem (fst (know_addresses reported w)) = wMem w"
  "wStored (fst (know_addresses reported w)) = wStored w"
  by (simp_all add: know_addresses_def case_prod_beta)

lemma settle_mem [simp]:
  "clAnnotations (wMem (settleScaleDownCondition e m w)) = clAnnotations (wMem w)"
  "clAnnotations (wStored (settleScaleDownCondition e m w)) = clAnnotations (wStored w)"
  by (auto simp: settleScaleDownCondition_def Let_def split: write_outcome.splits option.splits)

lemma deallocate_mem [simp]:
  "wMem (deallocate_step e desired n ids w) = wMem w"
  "clAnnotations (wStored (deallocate_step e desired n ids w)) = clAnnotations (wStored w)"
  by (simp_all add: deallocate_step_def Let_def case_prod_beta split: option.splits)

lemma drop_mem [simp]:
  "wMem (drop_step e desired n ids w) = wMem w"
  "clAnnotations (wStored (drop_step e desired n ids w)) = clAnnotations (wStored w)"
  by (simp_all add: drop_step_def Let_def case_prod_beta split: option.splits)

text \<open>What stands behind a statement of a drain whose active servers are \<open>active\<close>.\<close>

fun warranted :: "drain_env \<Rightarrow> cluster \<Rightarrow> server_info list \<Rightarrow> neo4j_statement \<Rightarrow> bool" where
  "warranted e cl active (CordonServer i) =
     (\<exists>s\<in>set active. serverIdentifier s = i \<and> step_acts_on scaleDownCordon s)"
| "warranted e cl active (DeallocateServers ids dry) =
     ((\<forall>i\<in>set ids. \<exists>s\<in>set active. serverIdentifier s = i \<and> (dry \<or> step_acts_on scaleDownDeallocate s)) \<and>
      (dry \<or> (\<forall>s\<in>set active. \<not> step_waits_for scaleDownDeallocate s) \<and> dDryRun e ids = None \<and>
        snd (cordonSettle e cl ids) \<le> 0))"
| "warranted e cl active (DropServer i) =
     ((\<exists>s\<in>set active. serverIdentifier s = i \<and> step_acts_on scaleDownDrop s) \<and>
      (\<forall>s\<in>set active. \<not> step_waits_for scaleDownDrop s))"
| "warranted e cl active (EnableServer i) = False"

declare step_acts_on.simps [simp del] step_waits_for.simps [simp del]

lemma drain_step_for_warranted:
  "\<exists>xs. drains w xs (fst (drain_step_for e desired active w)) \<and>
     (\<forall>x\<in>set xs. warranted e (wMem (fst (drain_step_for e desired active w))) active x)"
proof -
  obtain ph ids where plan: "planScaleDownStep active = (ph, ids)" by fastforce
  note p = plan_step(1,2) [OF plan]
  show ?thesis
  proof (cases ph)
    case scaleDownCordon
    then have run: "drain_step_for e desired active w = cordon_step e desired (length active) ids w"
      by (simp add: drain_step_for_def plan)
    show ?thesis
      unfolding run using cordon_step_drains [of ids w e desired "length active"] p scaleDownCordon by fastforce
  next
    case scaleDownDeallocate
    then have run: "fst (drain_step_for e desired active w) = deallocate_step e desired (length active) ids w"
      by (simp add: drain_step_for_def plan)
    obtain xs where xs: "set xs \<subseteq> {DeallocateServers ids True, DeallocateServers ids False}"
      "drains w xs (deallocate_step e desired (length active) ids w)"
      "DeallocateServers ids False \<in> set xs \<longrightarrow> dDryRun e ids = None \<and> snd (cordonSettle e (wMem w) ids) \<le> 0"
      using deallocate_step_drains [of ids w e desired "length active"] by blast
    have "warranted e (wMem w) active x" if x: "x \<in> set xs" for x
    proof (cases "x = DeallocateServers ids True")
      case True
      then show ?thesis using p(1) by auto
    next
      case False
      then have "x = DeallocateServers ids False" using x xs(1) by auto
      then show ?thesis using p scaleDownDeallocate xs(3) x by auto
    qed
    then show ?thesis unfolding run using xs(2) by auto
  next
    case scaleDownDrop
    then have run: "fst (drain_step_for e desired active w) = drop_step e desired (length active) ids w"
      by (simp add: drain_step_for_def plan)
    show ?thesis
      unfolding run using drop_step_drains [of ids w e desired "length active"] p scaleDownDrop by fastforce
  qed (auto simp: drain_step_for_def plan intro!: exI [of _ "[]"])
qed

lemma drain_active_warranted:
  "\<exists>xs. drains w xs (fst (drain_active e desired active w)) \<and>
     (\<forall>x\<in>set xs. warranted e (wMem (fst (drain_active e desired active w))) active x)"
proof (cases "list_ex (in_state [''deallocating'', ''deallocated'']) active")
  case True
  then show ?thesis using drain_step_for_warranted by (simp add: drain_active_def)
next
  case False
  let ?ids = "map serverIdentifier active"
  let ?x = "DeallocateServers ?ids True"
  let ?w1 = "logged [Statement ?x] w"
  have w1: "drains w [?x] ?w1" and ok: "warranted e cl active ?x" for cl by auto
  show ?thesis
  proof (cases "dPreflight e ?ids")
    case None
    then have run: "drain_active e desired active w = drain_step_for e desired active ?w1"
      using False by (simp add: drain_active_def Let_def)
    obtain xs where xs: "drains ?w1 xs (fst (drain_step_for e desired active ?w1))"
      "\<forall>x\<in>set xs. warranted e (wMem (fst (drain_step_for e desired active ?w1))) active x"
      using drain_step_for_warranted by blast
    have "drains w ([?x] @ xs) (fst (drain_active e desired active w))"
      using drains_trans [OF w1 xs(1)] run by simp
    then show ?thesis using xs(2) ok run by (metis append_Cons append_Nil set_ConsD)
  next
    case (Some err)
    then have "drains w [?x] (fst (drain_active e desired active w))"
      using False w1 by (simp add: drain_active_def Let_def drains_then(2))
    then show ?thesis using ok by fastforce
  qed
qed

text \<open>The annotations a patch names, and the others.\<close>

lemma set_values_other: "k \<notin> fst ` set vs \<Longrightarrow> set_values vs m k = m k"
  unfolding set_values_def by (induction vs arbitrary: m) (auto split: if_splits)

lemma annotation_set_value:
  assumes "(k, v) \<in> set vs" "distinct (map fst vs)"
  shows "annotation (set_values vs m) k = v"
  using assms
proof (induction vs arbitrary: m)
  case (Cons kv vs)
  show ?case
  proof (cases "kv = (k, v)")
    case True
    then have "k \<notin> fst ` set vs" using Cons.prems(2) by auto
    then have "set_values (kv # vs) m k = (if v = [] then None else Some v)"
      using True set_values_other [of k vs] by (simp add: set_values_def)
    then show ?thesis by (simp add: annotation_def)
  next
    case False
    have "set_values (kv # vs) m = set_values vs (set_values [kv] m)" by (simp add: set_values_def)
    then show ?thesis using False Cons by simp
  qed
qed simp

lemma drain_keys_distinct [simp]:
  "ScaleDownDrainingServersAnnotation \<noteq> ScaleDownHeldPodsAnnotation"
  "ScaleDownHeldPodsAnnotation \<noteq> ScaleDownDrainingServersAnnotation"
  "ScaleDownCordonedServersAnnotation \<noteq> ScaleDownHeldPodsAnnotation"
  "ScaleDownHeldPodsAnnotation \<noteq> ScaleDownCordonedServersAnnotation"
  "ScaleDownCordonedServersAnnotation \<noteq> ScaleDownDrainingServersAnnotation"
  "ScaleDownDrainingServersAnnotation \<noteq> ScaleDownCordonedServersAnnotation"
  "ScaleDownCordonedAtAnnotation \<noteq> ScaleDownHeldPodsAnnotation"
  "ScaleDownCordonedAtAnnotation \<noteq> ScaleDownDrainingServersAnnotation"
  "ScaleDownCordonedAtAnnotation \<noteq> ScaleDownCordonedServersAnnotation"
  "ScaleDownHeldPodsAnnotation \<noteq> ScaleDownCordonedAtAnnotation"
  "ScaleDownDrainingServersAnnotation \<noteq> ScaleDownCordonedAtAnnotation"
  "ScaleDownCordonedServersAnnotation \<noteq> ScaleDownCordonedAtAnnotation"
  by (simp_all add: drain_annotations)

lemma setDrainAnnotations_value:
  assumes "(k, v) \<in> set vs" "distinct (map fst vs)"
  shows "annotation (clAnnotations (wMem (fst (setDrainAnnotations lands vs w)))) k = v"
  using assms by (auto simp: setDrainAnnotations_def Let_def annotation_set_value list_all_iff)

lemma setDrainAnnotations_other:
  assumes "k \<notin> fst ` set vs"
  shows "annotation (clAnnotations (wMem (fst (setDrainAnnotations lands vs w)))) k =
    annotation (clAnnotations (wMem w)) k"
  using set_values_other [OF assms] by (simp add: setDrainAnnotations_def Let_def annotation_def)

lemma setDrainAnnotations_mem [simp]:
  "specServers (wMem (fst (setDrainAnnotations lands vs w))) = specServers (wMem w)"
  "stDiagnostics (wMem (fst (setDrainAnnotations lands vs w))) = stDiagnostics (wMem w)"
  "clName (wMem (fst (setDrainAnnotations lands vs w))) = clName (wMem w)"
  "wAddresses (fst (setDrainAnnotations lands vs w)) = wAddresses w"
  by (simp_all add: setDrainAnnotations_def Let_def)

text \<open>The servers a pass sees: SHOW SERVERS, with the addresses it knows.\<close>

definition known_servers :: "server_info list \<Rightarrow> world \<Rightarrow> server_info list" where
  "known_servers reported w = snd (withKnownAddresses (wMem w) (wAddresses w) reported)"

lemma know_addresses_snd: "snd (know_addresses reported w) = known_servers reported w"
  by (simp add: know_addresses_def known_servers_def case_prod_beta)

lemma fill_addresses_rows:
  "list_all2 (\<lambda>a b. \<exists>addr. b = a\<lparr>srvAddress := addr\<rparr>) ss (snd (fill_addresses book ss))"
proof (induction ss arbitrary: book)
  case (Cons s ss)
  have "\<exists>addr. s = s\<lparr>srvAddress := addr\<rparr>" by (intro exI [of _ "srvAddress s"]) simp
  then show ?case using Cons by (auto simp: case_prod_beta)
qed simp

lemma known_servers_rows:
  "list_all2 (\<lambda>a b. \<exists>addr. b = a\<lparr>srvAddress := addr\<rparr>) reported (known_servers reported w)"
  using fill_addresses_rows by (simp add: known_servers_def withKnownAddresses_def)

text \<open>A listing as Neo4j gives it: every server has a UUID of its own.\<close>

definition listing_ok :: "server_info list \<Rightarrow> bool" where
  "listing_ok reported \<longleftrightarrow> distinct (map srvID reported) \<and> (\<forall>s\<in>set reported. serverIDPattern (srvID s))"

lemma serverIDPattern_chars:
  assumes "serverIDPattern i"
  shows "i \<noteq> []" "\<forall>c\<in>set i. is_hex c \<or> c = CHR ''-''"
proof -
  have parts: "set i \<subseteq> insert CHR ''-'' (\<Union> (set ` set (split_on CHR ''-'' i)))" for i
    by (induction i) (fastforce split: list.splits if_splits)+
  show "i \<noteq> []" using assms by (auto simp: serverIDPattern_def Let_def)
  show "\<forall>c\<in>set i. is_hex c \<or> c = CHR ''-''"
    using assms parts [of i] by (auto simp: serverIDPattern_def Let_def list_all_iff)
qed

lemma known_ids:
  assumes "listing_ok reported"
  shows "map serverIdentifier (known_servers reported w) = map srvID reported"
    "distinct (map serverIdentifier (known_servers reported w))"
proof -
  have "list_all2 (\<lambda>a b. serverIdentifier b = srvID a) reported (known_servers reported w)"
    using known_servers_rows [of reported w] assms serverIDPattern_chars(1)
    by (fastforce simp: list_all2_conv_all_nth listing_ok_def serverIdentifier_def)
  then show m: "map serverIdentifier (known_servers reported w) = map srvID reported"
    by (auto simp: list_all2_conv_all_nth intro!: nth_equalityI)
  show "distinct (map serverIdentifier (known_servers reported w))"
    unfolding m using assms by (simp add: listing_ok_def)
qed

lemma rows_by_id_SomeD: "rows_by_id servers i = Some s \<Longrightarrow> s \<in> set servers \<and> serverIdentifier s = i"
  by (auto simp: rows_by_id_def dest!: map_of_SomeD)

lemma rows_by_id_self:
  assumes "distinct (map serverIdentifier servers)" "s \<in> set servers"
  shows "rows_by_id servers (serverIdentifier s) = Some s"
  unfolding rows_by_id_def using assms by (intro map_of_is_SomeI) (auto simp: rev_map comp_def distinct_rev simp flip: rev_map)

text \<open>
  A server the drain may take: it is listed, not dropped, and no pod the spec keeps runs it.
\<close>

definition removable :: "world \<Rightarrow> server_info list \<Rightarrow> server_info \<Rightarrow> bool" where
  "removable w reported s \<longleftrightarrow> s \<in> set (known_servers reported w) \<and> \<not> dropped s \<and>
     \<not> keptByTheSpec s (reportedOrdinals reported (clName (wMem w))) (clName (wMem w)) (specServers (wMem w))"

lemma unidentified_rows:
  "i \<in> set (fst (unidentifiedRemovedServerIDs servers cname desired)) \<Longrightarrow>
   \<exists>s\<in>set servers. serverIdentifier s = i \<and> serverOrdinal cname s = None"
  by (auto simp: unidentifiedRemovedServerIDs_def Let_def split: if_splits)

lemma active_removable:
  assumes "distinct (map serverIdentifier servers)"
    and "s \<in> set (active_servers servers (drain_ids cl servers reported desired))"
  shows "s \<in> set servers \<and> \<not> dropped s \<and>
    \<not> keptByTheSpec s (reportedOrdinals reported (clName cl)) (clName cl) desired"
proof -
  from assms(2) obtain i where i: "i \<in> set (drain_ids cl servers reported desired)"
    "rows_by_id servers i = Some s" "\<not> dropped s"
    by (auto simp: active_servers_def split: option.splits if_splits)
  note s = rows_by_id_SomeD [OF i(2)]
  have same: "t = s" if "t \<in> set servers" "serverIdentifier t = i" for t
    using rows_by_id_self [OF assms(1) that(1)] i(2) that(2) by simp
  have "\<not> keptByTheSpec s (reportedOrdinals reported (clName cl)) (clName cl) desired"
    using i(1) unfolding drain_ids_def set_sorted_set set_append
  proof (elim UnE)
    assume "i \<in> set (initialRemovedServerIDs servers (clName cl) desired)"
    then show ?thesis
      using same by (auto simp: initialRemovedServerIDs_def keptByTheSpec_def split: option.splits)
  next
    assume "i \<in> set (fst (unidentifiedRemovedServerIDs servers (clName cl) desired))"
    then show ?thesis using unidentified_rows same by (fastforce simp: keptByTheSpec_def)
  next
    assume "i \<in> set (filter (\<lambda>i. i \<notin> set (kept_ids cl servers reported desired)) (persisted_ids cl servers))"
    then show ?thesis using i(2) by (auto simp: kept_ids_def)
  qed
  then show ?thesis using s i(3) by simp
qed

lemma giveBack_drains:
  "\<exists>xs. drains w xs (fst (giveBackCordoned e servers ids w)) \<and>
     (\<forall>x\<in>set xs. \<exists>i s. x = EnableServer i \<and> i \<in> set (cordonedByDrain (wMem w)) \<and> s \<in> set servers \<and>
        serverIdentifier s = i \<and> equal_fold (srvState s) ''cordoned'')"
proof -
  let ?xs = "fst (enable_each e (cordonedByDrain (wMem w)) (rows_by_id servers) (sort ids))"
  have l: "drains w ?xs (logged (map Statement ?xs) w)" by simp
  have l2: "drains w ?xs (fst (setDrainAnnotations b vs (logged (map Statement ?xs) w)))" for b vs
    using drains_then(4) [OF l] .
  have l3: "drains w ?xs (logged [Event b' r m] (fst (setDrainAnnotations b vs (logged (map Statement ?xs) w))))"
    for b vs b' r m using drains_then(3) [OF l2, of "[Event b' r m]"] by simp
  have "drains w ?xs (fst (giveBackCordoned e servers ids w))"
    unfolding giveBackCordoned_def Let_def case_prod_beta using l l2 l3 by simp
  moreover have "\<exists>i s. x = EnableServer i \<and> i \<in> set (cordonedByDrain (wMem w)) \<and> s \<in> set servers \<and>
        serverIdentifier s = i \<and> equal_fold (srvState s) ''cordoned''" if "x \<in> set ?xs" for x
    using enable_each_set [OF that] rows_by_id_SomeD by blast
  ultimately show ?thesis by blast
qed

lemma giveBack_mem [simp]:
  "specServers (wMem (fst (giveBackCordoned e servers ids w))) = specServers (wMem w)"
  "clName (wMem (fst (giveBackCordoned e servers ids w))) = clName (wMem w)"
  by (simp_all add: giveBackCordoned_def Let_def case_prod_beta)

text \<open>Every statement of a pass has a reason.\<close>

definition statement_reason :: "drain_env \<Rightarrow> world \<Rightarrow> server_info list \<Rightarrow> world \<Rightarrow> neo4j_statement \<Rightarrow> bool" where
  "statement_reason e w reported w' x \<longleftrightarrow>
     (\<exists>i s. x = EnableServer i \<and> i \<in> set (cordonedByDrain (wMem w)) \<and> s \<in> set (known_servers reported w) \<and>
        serverIdentifier s = i \<and> equal_fold (srvState s) ''cordoned'') \<or>
     (\<exists>active. (\<forall>s\<in>set active. removable w reported s) \<and> warranted e (wMem w') active x \<and>
        dMinPrimaries e \<le> specServers (wMem w))"

lemma drain_known_reason:
  assumes "\<forall>s\<in>set (active_servers servers ids). P s"
  shows "\<exists>xs. drains w xs (fst (drain_known e desired current servers ids w)) \<and>
    (\<forall>x\<in>set xs. \<exists>active. (\<forall>s\<in>set active. P s) \<and>
       warranted e (wMem (fst (drain_known e desired current servers ids w))) active x \<and> dMinPrimaries e \<le> desired)"
proof -
  let ?w' = "fst (drain_known e desired current servers ids w)"
  let ?active = "active_servers servers ids"
  let ?s = "setDrainServers (dSetLands e) ids w"
  have none: ?thesis if "drains w [] ?w'" using that by (intro exI [of _ "[]"]) simp
  consider (quiet) "drains w [] ?w'"
    | (runs) "?w' = fst (drain_active e desired ?active (fst ?s))" "dMinPrimaries e \<le> desired"
  proof (cases "snd ?s \<and> dMinPrimaries e \<le> desired \<and> \<not> (ids = [] \<and>
      snd (unidentifiedRemovedServerIDs servers (clName (wMem w)) desired) = []) \<and>
      \<not> (?active = [] \<and> snd (unidentifiedRemovedServerIDs servers (clName (wMem w)) desired) \<noteq> [])")
    case True
    then show thesis using runs by (auto simp: drain_known_def Let_def case_prod_beta)
  next
    case False
    have "drains w [] ?w'"
      unfolding drain_known_def Let_def case_prod_beta using False
      by (auto simp: drains_then(5,6) drains_none(1) [OF drains_set drains_block])
    then show thesis using quiet by blast
  qed
  then show ?thesis
  proof cases
    case quiet
    then show ?thesis by (rule none)
  next
    case runs
    obtain xs where xs: "drains (fst ?s) xs ?w'" "\<forall>x\<in>set xs. warranted e (wMem ?w') ?active x"
      using drain_active_warranted [of "fst ?s" e desired ?active] runs(1) by auto
    show ?thesis
      using drains_none(1) [OF drains_set xs(1)] xs(2) assms runs(2) by blast
  qed
qed

lemma drain_listed_reason:
  assumes "desired = specServers (wMem w)"
  shows "\<exists>xs. drains w xs (fst (drain_listed e desired current reported w)) \<and>
    (\<forall>x\<in>set xs. listing_ok reported \<longrightarrow> statement_reason e w reported (fst (drain_listed e desired current reported w)) x)"
proof -
  define w1 where "w1 = fst (know_addresses reported w)"
  define servers where "servers = known_servers reported w"
  define keep where "keep = kept_ids (wMem w1) servers reported desired"
  define ids where "ids = drain_ids (wMem w1) servers reported desired"
  define g where "g = (if keep \<noteq> [] then giveBackCordoned e servers keep w1 else (w1, True))"
  let ?w' = "fst (drain_listed e desired current reported w)"
  have w1: "drains w [] w1" "wMem w1 = wMem w" by (simp_all add: w1_def)
  have run: "drain_listed e desired current reported w =
      (if serversPastUndoing servers reported (clName (wMem w1)) desired (drainTouched (wMem w1)) False \<noteq> []
       then (blockScaleDown e (setBackRefusal (serversPastUndoing servers reported (clName (wMem w1)) desired
               (drainTouched (wMem w1)) False) (clName (wMem w1)) current) w1, True)
       else if \<not> snd g then (fst g, True) else drain_known e desired current servers ids (fst g))"
    unfolding drain_listed_def Let_def case_prod_beta w1_def [symmetric] know_addresses_snd
      servers_def [symmetric] keep_def [symmetric] ids_def [symmetric] g_def [symmetric] by (rule refl)
  obtain gs where gs: "drains w gs (fst g)" "\<forall>x\<in>set gs. \<exists>i s. x = EnableServer i \<and>
      i \<in> set (cordonedByDrain (wMem w)) \<and> s \<in> set servers \<and> serverIdentifier s = i \<and>
      equal_fold (srvState s) ''cordoned''"
  proof (cases "keep = []")
    case True
    then show thesis using that [of "[]"] w1(1) by (simp add: g_def)
  next
    case False
    then show thesis
      using that giveBack_drains [of w1 e servers keep] drains_none(1) [OF w1(1)] w1(2) by (auto simp: g_def)
  qed
  have gsr: "\<forall>x\<in>set gs. statement_reason e w reported w'' x" for w''
    using gs(2) unfolding statement_reason_def servers_def by blast
  have P: "\<forall>s\<in>set (active_servers servers ids). listing_ok reported \<longrightarrow> removable w reported s"
    using active_removable [of servers _ "wMem w1" reported desired] known_ids(2) [of reported w]
    unfolding ids_def removable_def servers_def w1(2) assms by blast
  obtain xs where xs: "drains (fst g) xs (fst (drain_known e desired current servers ids (fst g)))"
    "\<forall>x\<in>set xs. \<exists>active. (\<forall>s\<in>set active. listing_ok reported \<longrightarrow> removable w reported s) \<and>
       warranted e (wMem (fst (drain_known e desired current servers ids (fst g)))) active x \<and>
       dMinPrimaries e \<le> desired"
    using drain_known_reason [OF P, of "fst g" e desired current] by blast
  consider (past) "drains w [] ?w'" | (given) "?w' = fst g"
    | (all) "?w' = fst (drain_known e desired current servers ids (fst g))"
    using run drains_none(1) [OF w1(1) drains_block] by (auto split: if_splits)
  then show ?thesis
  proof cases
    case past
    then show ?thesis by (intro exI [of _ "[]"]) simp
  next
    case given
    then show ?thesis using gs(1) gsr by auto
  next
    case all
    then have "\<forall>x\<in>set (gs @ xs). listing_ok reported \<longrightarrow> statement_reason e w reported ?w' x"
      using gsr xs(2) assms unfolding statement_reason_def by auto
    then show ?thesis using drains_trans [OF gs(1) xs(1)] all by metis
  qed
qed

lemma hold_mem [simp]:
  "specServers (wMem (fst (holdPods lands pods w))) = specServers (wMem w)"
  "clName (wMem (fst (holdPods lands pods w))) = clName (wMem w)"
  "known_servers reported (fst (holdPods lands pods w)) = known_servers reported w"
  by (simp_all add: holdPods_def known_servers_def withKnownAddresses_def)

lemma hold_cordoned [simp]: "cordonedByDrain (wMem (fst (holdPods lands pods w))) = cordonedByDrain (wMem w)"
  using setDrainAnnotations_other [of ScaleDownCordonedServersAnnotation]
  by (simp add: holdPods_def cordonedByDrain_def annotationIDs_def)

lemma reason_after_hold:
  "statement_reason e (fst (holdPods lands pods w)) reported w' x \<longleftrightarrow> statement_reason e w reported w' x"
  by (simp add: statement_reason_def removable_def)

lemma setBack_reason:
  "\<exists>xs. drains w xs (fst (setBackScaleDown e current w)) \<and>
     (\<forall>x\<in>set xs. (\<exists>i. x = EnableServer i) \<and> (\<exists>reported. dServers e = Some reported \<and>
        statement_reason e w reported (fst (setBackScaleDown e current w)) x))"
proof (cases "drainServerIDsFromAnnotation (wMem w) = [] \<and> cordonedByDrain (wMem w) = [] \<or> \<not> dConnect e \<or>
    dServers e = None")
  case True
  then have "drains w [] (fst (setBackScaleDown e current w))"
    by (auto simp: setBackScaleDown_def drains_then(4))
  then show ?thesis by (intro exI [of _ "[]"]) simp
next
  case False
  then obtain reported where r: "dServers e = Some reported" by auto
  define w1 where "w1 = fst (know_addresses reported w)"
  define servers where "servers = known_servers reported w"
  define g where "g = giveBackCordoned e servers (cordonedByDrain (wMem w1)) w1"
  have w1: "drains w [] w1" "wMem w1 = wMem w" by (simp_all add: w1_def)
  obtain gs where gs: "drains w1 gs (fst g)" "\<forall>x\<in>set gs. \<exists>i s. x = EnableServer i \<and>
      i \<in> set (cordonedByDrain (wMem w)) \<and> s \<in> set servers \<and> serverIdentifier s = i \<and>
      equal_fold (srvState s) ''cordoned''"
    using giveBack_drains [of w1 e servers "cordonedByDrain (wMem w1)"] w1(2) unfolding g_def by auto
  have reason: "\<forall>x\<in>set gs. (\<exists>i. x = EnableServer i) \<and> statement_reason e w reported w' x" for w'
    using gs(2) unfolding statement_reason_def servers_def by blast
  have d: "drains w gs (fst g)" using drains_none(1) [OF w1(1) gs(1)] .
  let ?w' = "fst (setBackScaleDown e current w)"
  have "drains w [] ?w' \<or> drains w gs ?w'"
    using False r d drains_none(1) [OF w1(1) drains_block]
    unfolding setBackScaleDown_def Let_def case_prod_beta
    by (auto simp: know_addresses_snd drains_then(6,7) simp flip: w1_def servers_def g_def)
  then show ?thesis using reason r by (metis empty_iff list.set(1))
qed

lemma setBack_only_enables:
  "\<exists>xs. drains w xs (fst (setBackScaleDown e current w)) \<and> (\<forall>x\<in>set xs. \<exists>i. x = EnableServer i)"
  using setBack_reason [of w e current] by blast

lemma pass_reason:
  "\<exists>xs. drains w xs (fst (reconcileScaleDownDrain e w)) \<and>
     (\<forall>x\<in>set xs. \<exists>reported. dServers e = Some reported \<and>
        (listing_ok reported \<longrightarrow> statement_reason e w reported (fst (reconcileScaleDownDrain e w)) x))"
proof -
  let ?w' = "fst (reconcileScaleDownDrain e w)"
  define hold where "hold sts = (if scaleDownDrainInProgress (wMem w) then (w, True)
      else holdPods (dHoldLands e) (provisionalDrainHoldNames (clName (wMem w))
             (case stsReplicas sts of None \<Rightarrow> 0 | Some r \<Rightarrow> r) (specServers (wMem w))) w)" for sts :: stateful_set
  have hold: "drains w [] (fst (hold sts))" "specServers (wMem (fst (hold sts))) = specServers (wMem w)"
    "\<And>reported w'' x. statement_reason e (fst (hold sts)) reported w'' x = statement_reason e w reported w'' x"
    for sts by (simp_all add: hold_def reason_after_hold)
  consider (quiet) "drains w [] ?w'" | (setback) current where "?w' = fst (setBackScaleDown e current w)"
    | (listed) sts current reported where "dServers e = Some reported"
        "?w' = fst (drain_listed e (specServers (wMem w)) current reported (fst (hold sts)))"
  proof (cases "dSts e")
    case (Found sts)
    let ?c = "case stsReplicas sts of None \<Rightarrow> 0 | Some r \<Rightarrow> r"
    have run: "?w' = (if specServers (wMem w) \<le> 0 then w
        else if ?c \<le> specServers (wMem w) then fst (setBackScaleDown e ?c w)
        else if \<not> snd (hold sts) \<or> \<not> dConnect e then fst (hold sts)
        else case dServers e of None \<Rightarrow> fst (hold sts)
             | Some reported \<Rightarrow> fst (drain_listed e (specServers (wMem w)) ?c reported (fst (hold sts))))"
      unfolding reconcileScaleDownDrain_def Let_def Found case_prod_beta hold_def
      by (simp split: option.splits)
    show thesis
    proof (cases "dServers e")
      case None
      then show thesis using run quiet setback hold(1) by (auto split: if_splits)
    next
      case (Some reported)
      then show thesis using run quiet setback listed hold(1) by (auto split: if_splits)
    qed
  qed (auto simp: reconcileScaleDownDrain_def Let_def)
  then show ?thesis
  proof cases
    case quiet
    then show ?thesis by (intro exI [of _ "[]"]) simp
  next
    case setback
    then show ?thesis using setBack_reason [of w e current] by metis
  next
    case listed
    from drain_listed_reason [of "specServers (wMem w)" "fst (hold sts)" e current reported] hold(2)
    obtain xs where "drains (fst (hold sts)) xs ?w'" "\<forall>x\<in>set xs. listing_ok reported \<longrightarrow> statement_reason e (fst (hold sts)) reported ?w' x"
      using listed(2) by auto
    then show ?thesis using drains_none(1) [OF hold(1)] listed(1) hold(3) by blast
  qed
qed

text \<open>The drain is what the upgrade machine relies on.\<close>

interpretation scale_down: drain_step "\<lambda>w. fst (reconcileScaleDownDrain e w)" for e
proof
  fix w :: world
  obtain xs where "drains w xs (fst (reconcileScaleDownDrain e w))" using pass_reason by blast
  then show "wSts (fst (reconcileScaleDownDrain e w)) = wSts w"
    "stUpgradeStatus (wStored (fst (reconcileScaleDownDrain e w))) = stUpgradeStatus (wStored w)"
    "stVersion (wStored (fst (reconcileScaleDownDrain e w))) = stVersion (wStored w)"
    by (simp_all add: drains_def)
qed

lemma drain_record: "stUpgradeStatus (wMem (fst (reconcileScaleDownDrain e w))) = stUpgradeStatus (wMem w)"
  using pass_reason [of w e] by (auto simp: drains_def)

lemma issued_reason:
  assumes "x \<in> set (issued w (fst (reconcileScaleDownDrain e w)))"
  shows "\<exists>reported. dServers e = Some reported \<and>
    (listing_ok reported \<longrightarrow> statement_reason e w reported (fst (reconcileScaleDownDrain e w)) x)"
  using pass_reason [of w e] assms by (auto dest: drains_issued)


section \<open>What the drain asks of Neo4j, and when\<close>

lemma known_row:
  assumes "s \<in> set (known_servers reported w)"
  shows "\<exists>r\<in>set reported. \<exists>addr. s = r\<lparr>srvAddress := addr\<rparr>"
  using assms known_servers_rows [of reported w]
  by (auto simp: list_all2_conv_all_nth in_set_conv_nth [of s]) (metis nth_mem)

lemma known_row_id:
  assumes "listing_ok reported" "s \<in> set (known_servers reported w)"
  shows "\<exists>r\<in>set reported. srvID r = serverIdentifier s \<and> srvState r = srvState s \<and> srvHosting r = srvHosting s"
proof -
  from known_row [OF assms(2)] obtain r addr where r: "r \<in> set reported" "s = r\<lparr>srvAddress := addr\<rparr>" by blast
  then have "srvID r \<noteq> []" using assms(1) serverIDPattern_chars(1) by (auto simp: listing_ok_def)
  then show ?thesis using r by (auto simp: serverIdentifier_def)
qed

lemma issued_warranted:
  assumes "x \<in> set (issued w (fst (reconcileScaleDownDrain e w)))" "\<forall>i. x \<noteq> EnableServer i"
    and "dServers e = Some reported" "listing_ok reported"
  shows "\<exists>active. (\<forall>s\<in>set active. removable w reported s) \<and>
    warranted e (wMem (fst (reconcileScaleDownDrain e w))) active x \<and> dMinPrimaries e \<le> specServers (wMem w)"
  using issued_reason [OF assms(1)] assms(2-4) by (auto simp: statement_reason_def)

lemma removable_row:
  "removable w reported s \<Longrightarrow> s \<in> set (known_servers reported w)"
  by (simp add: removable_def)

text \<open>
  C7: the drain drops only a server that SHOW SERVERS listed, on this pass, as deallocating or
  deallocated and hosting no database but \<^verbatim>\<open>system\<close>, and never takes the cluster below the
  system database's voting members.
\<close>

theorem drops_only_emptied_servers:
  assumes "DropServer i \<in> set (issued w (fst (reconcileScaleDownDrain e w)))"
    and "dServers e = Some reported" "listing_ok reported"
  shows "dMinPrimaries e \<le> specServers (wMem w) \<and>
    (\<exists>s\<in>set reported. srvID s = i \<and> to_lower (srvState s) \<in> {''deallocating'', ''deallocated''} \<and>
       (\<forall>h\<in>set (srvHosting s). equal_fold h ''system''))"
proof -
  obtain s where s: "removable w reported s" "serverIdentifier s = i" "step_acts_on scaleDownDrop s"
    and m: "dMinPrimaries e \<le> specServers (wMem w)"
    using issued_warranted [OF assms(1) _ assms(2,3)] by auto
  from known_row_id [OF assms(3) removable_row [OF s(1)]] obtain r where
    "r \<in> set reported" "srvID r = i" "srvState r = srvState s" "srvHosting r = srvHosting s"
    using s(2) by blast
  then show ?thesis
    using s(3) m by (auto simp: step_acts_on.simps in_state_def hostsOnlySystem_def list_all_iff)
qed

text \<open>
  C8: the drain deallocates, for real, only servers SHOW SERVERS listed as Cordoned on this
  pass, after Neo4j accepted the dry run of the same statement, at or above the voting-member
  floor, and not before the settle time since the cordon it recorded has passed.
\<close>

theorem deallocates_only_settled_cordons:
  assumes "DeallocateServers ids False \<in> set (issued w (fst (reconcileScaleDownDrain e w)))"
    and "dServers e = Some reported" "listing_ok reported"
  shows "dDryRun e ids = None \<and> dMinPrimaries e \<le> specServers (wMem w) \<and>
    (\<forall>i\<in>set ids. \<exists>s\<in>set reported. srvID s = i \<and> to_lower (srvState s) = ''cordoned'') \<and>
    (\<forall>i\<in>set ids. \<forall>at. i \<in> set (cordonedByDrain (wMem (fst (reconcileScaleDownDrain e w)))) \<and>
       cordonedAt e (wMem (fst (reconcileScaleDownDrain e w))) = Some at \<and> 0 < dSettle e
       \<longrightarrow> at + dSettle e \<le> dNow e)"
proof -
  let ?cl = "wMem (fst (reconcileScaleDownDrain e w))"
  obtain active where a: "\<forall>s\<in>set active. removable w reported s"
    "\<forall>i\<in>set ids. \<exists>s\<in>set active. serverIdentifier s = i \<and> step_acts_on scaleDownDeallocate s"
    and d: "dDryRun e ids = None" "snd (cordonSettle e ?cl ids) \<le> 0"
    and m: "dMinPrimaries e \<le> specServers (wMem w)"
    using issued_warranted [OF assms(1) _ assms(2,3)] by auto
  have "\<exists>s\<in>set reported. srvID s = i \<and> to_lower (srvState s) = ''cordoned''" if "i \<in> set ids" for i
  proof -
    from a that obtain s where s: "removable w reported s" "serverIdentifier s = i"
      "step_acts_on scaleDownDeallocate s" by blast
    from known_row_id [OF assms(3) removable_row [OF s(1)]] s(2,3) show ?thesis
      by (auto simp: step_acts_on.simps in_state_def)
  qed
  moreover have "at + dSettle e \<le> dNow e"
    if "i \<in> set ids" "i \<in> set (cordonedByDrain ?cl)" "cordonedAt e ?cl = Some at" "0 < dSettle e" for i at
  proof -
    have "list_ex (\<lambda>i. i \<in> set (cordonedByDrain ?cl)) ids" using that by (auto simp: list_ex_iff)
    then show ?thesis using d(2) that by (simp add: cordonSettle_def)
  qed
  ultimately show ?thesis using d(1) m by blast
qed

fun named_servers :: "neo4j_statement \<Rightarrow> string list" where
  "named_servers (CordonServer i) = [i]"
| "named_servers (DeallocateServers ids dry) = ids"
| "named_servers (DropServer i) = [i]"
| "named_servers (EnableServer i) = []"

text \<open>
  C9: the drain cordons, deallocates (even as a dry run) and drops no server that runs in a
  pod the spec keeps.
\<close>

theorem keeps_servers_the_spec_keeps:
  assumes "x \<in> set (issued w (fst (reconcileScaleDownDrain e w)))" "i \<in> set (named_servers x)"
    and "dServers e = Some reported" "listing_ok reported"
    and "s \<in> set (known_servers reported w)" "serverIdentifier s = i"
    and "serverOrdinal (clName (wMem w)) s = Some ord" "ord < specServers (wMem w)"
  shows "\<exists>other. reportedOrdinals reported (clName (wMem w)) ord = Some other \<and> other \<noteq> i"
proof -
  have ne: "\<forall>i. x \<noteq> EnableServer i" using assms(2) by auto
  obtain active where a: "\<forall>s\<in>set active. removable w reported s"
    "warranted e (wMem (fst (reconcileScaleDownDrain e w))) active x"
    using issued_warranted [OF assms(1) ne assms(3,4)] by blast
  have "\<exists>t\<in>set active. serverIdentifier t = i" using a(2) assms(2) by (cases x) auto
  then obtain t where t: "removable w reported t" "serverIdentifier t = i" using a(1) by blast
  have "t = s"
    using rows_by_id_self [OF known_ids(2) [OF assms(4), of w]] t assms(5,6) removable_row
    by (metis option.inject)
  then show ?thesis
    using t(1) assms(6-8) by (auto simp: removable_def keptByTheSpec_def runsInOrdinal_def split: option.splits)
qed

text \<open>
  C10: a set-back enables only servers the drain itself recorded as cordoned and SHOW SERVERS
  lists as Cordoned: never one cordoned by hand.
\<close>

theorem enables_only_its_own_cordons:
  assumes "EnableServer i \<in> set (issued w (fst (reconcileScaleDownDrain e w)))"
    and "dServers e = Some reported" "listing_ok reported"
  shows "i \<in> set (cordonedByDrain (wMem w)) \<and>
    (\<exists>s\<in>set reported. srvID s = i \<and> equal_fold (srvState s) ''cordoned'')"
proof -
  have "\<not> warranted e cl active (EnableServer i)" for cl active by simp
  then obtain s where "i \<in> set (cordonedByDrain (wMem w))" "s \<in> set (known_servers reported w)"
    "serverIdentifier s = i" "equal_fold (srvState s) ''cordoned''"
    using issued_reason [OF assms(1)] assms(2,3) unfolding statement_reason_def by auto
  then show ?thesis using known_row_id [OF assms(3)] by (metis (no_types, lifting))
qed


section \<open>The replicas are held until the drain is over\<close>

definition hold_values :: "world \<Rightarrow> string \<times> string" where
  "hold_values w = (annotation (clAnnotations (wMem w)) ScaleDownDrainingServersAnnotation,
     annotation (clAnnotations (wMem w)) ScaleDownHeldPodsAnnotation)"

lemma in_progress_iff:
  "scaleDownDrainInProgress (wMem w) \<longleftrightarrow>
     trim_space (fst (hold_values w)) \<noteq> [] \<or> trim_space (snd (hold_values w)) \<noteq> []"
  by (simp add: scaleDownDrainInProgress_def hold_values_def)

lemma hold_values_cong: "hold_values w' = hold_values w \<Longrightarrow>
    scaleDownDrainInProgress (wMem w') = scaleDownDrainInProgress (wMem w)"
  by (simp add: in_progress_iff)

lemma hold_values_other:
  "ScaleDownDrainingServersAnnotation \<notin> fst ` set vs \<Longrightarrow> ScaleDownHeldPodsAnnotation \<notin> fst ` set vs \<Longrightarrow>
   hold_values (fst (setDrainAnnotations lands vs w)) = hold_values w"
  by (simp add: hold_values_def setDrainAnnotations_other)

lemma hold_values_giveBack [simp]: "hold_values (fst (giveBackCordoned e servers ids w)) = hold_values w"
proof -
  have "hold_values (logged es v) = hold_values v" for es v by (simp add: hold_values_def)
  then show ?thesis
    by (simp add: giveBackCordoned_def Let_def case_prod_beta hold_values_other)
qed

lemma hold_values_cordon [simp]: "hold_values (fst (cordon_step e desired n ids w)) = hold_values w"
proof -
  have "hold_values (logged es v) = hold_values v" "hold_values (pending e m v) = hold_values v"
    "hold_values (note_wake t v) = hold_values v" for es m t v by (simp_all add: hold_values_def)
  then show ?thesis by (simp add: cordon_step_def Let_def case_prod_beta hold_values_other)
qed

lemma hold_values_active [simp]: "hold_values (fst (drain_active e desired active w)) = hold_values w"
proof -
  have l: "hold_values (logged es v) = hold_values v" "hold_values (blockScaleDown e m v) = hold_values v"
    for es m v by (simp_all add: hold_values_def)
  have "hold_values (fst (drain_step_for e desired active v)) = hold_values v" for v
  proof (cases "planScaleDownStep active")
    case (Pair ph ids)
    then show ?thesis
      by (cases ph) (simp_all add: drain_step_for_def hold_values_def [of "pending _ _ _"]
          hold_values_def [of "deallocate_step _ _ _ _ _"] hold_values_def [of "drop_step _ _ _ _ _"] hold_values_def [of v])
  qed
  then show ?thesis by (simp add: drain_active_def Let_def l split: option.splits)
qed

lemma trim_space_nonblank: "\<exists>c\<in>set s. \<not> is_space c \<Longrightarrow> trim_space s \<noteq> []"
proof -
  assume "\<exists>c\<in>set s. \<not> is_space c"
  then have "\<exists>c\<in>set (dropWhile is_space s). \<not> is_space c" by (induction s) auto
  then show ?thesis by (auto simp: trim_space_def dropWhile_eq_Nil_conv)
qed

lemma join_member: "x \<in> set xs \<Longrightarrow> set x \<subseteq> set (join sep xs)"
  by (induction sep xs rule: join.induct) auto

lemma hex_not_space: "is_hex c \<or> c = CHR ''-'' \<Longrightarrow> \<not> is_space c \<and> c \<noteq> CHR '',''"
  by (auto simp: is_hex_def is_space_def Let_def)

lemma hold_engages:
  assumes "desired < current"
  shows "scaleDownDrainInProgress (wMem (fst (holdPods lands (provisionalDrainHoldNames cname current desired) w)))"
proof -
  let ?names = "provisionalDrainHoldNames cname current desired"
  have "serverPodName cname desired \<in> set ?names" using assms by (simp add: provisionalDrainHoldNames_def)
  moreover have "CHR ''-'' \<in> set (serverPodName cname desired)" by (simp add: serverPodName_def)
  ultimately have "CHR ''-'' \<in> set (join '','' ?names)" using join_member by blast
  then have "trim_space (join '','' ?names) \<noteq> []"
    using hex_not_space [of "CHR ''-''"] by (intro trim_space_nonblank) blast
  then show ?thesis
    by (simp add: in_progress_iff hold_values_def holdPods_def
        setDrainAnnotations_value [of ScaleDownHeldPodsAnnotation "join '','' ?names"])
qed

lemma set_engages:
  assumes "ids \<noteq> []" "\<forall>i\<in>set ids. serverIDPattern i"
  shows "scaleDownDrainInProgress (wMem (fst (setDrainServers lands ids w)))"
proof -
  obtain i where i: "i \<in> set ids" using assms(1) by (cases ids) auto
  then obtain c where "c \<in> set i" "is_hex c \<or> c = CHR ''-''"
    using assms(2) serverIDPattern_chars by (metis list.set_intros(1) neq_Nil_conv)
  then have "trim_space (join '','' ids) \<noteq> []"
    using hex_not_space join_member [OF i] by (intro trim_space_nonblank) blast
  then show ?thesis
    using assms(1) by (simp add: in_progress_iff hold_values_def setDrainServers_def
        setDrainAnnotations_value [of ScaleDownDrainingServersAnnotation "join '','' ids"])
qed

text \<open>When nothing is left to drain, every server listed is dropped or one the spec keeps.\<close>

lemma nothing_left:
  assumes "drain_ids cl servers reported desired = []"
    and "snd (unidentifiedRemovedServerIDs servers (clName cl) desired) = []"
    and "s \<in> set servers" "\<not> dropped s"
  shows "\<exists>ord. serverOrdinal (clName cl) s = Some ord \<and> ord < desired"
proof -
  have none: "initialRemovedServerIDs servers (clName cl) desired = []"
    "fst (unidentifiedRemovedServerIDs servers (clName cl) desired) = []"
    using assms(1) by (simp_all add: drain_ids_def)
  have "serverOrdinal (clName cl) s \<noteq> None"
  proof
    assume "serverOrdinal (clName cl) s = None"
    then have "serverIdentifier s \<in> set (sort (map serverIdentifier
        (filter (\<lambda>s. serverOrdinal (clName cl) s = None) (filter (\<lambda>s. \<not> dropped s) servers))))"
      using assms(3,4) by simp
    then have "sort (map serverIdentifier (filter (\<lambda>s. serverOrdinal (clName cl) s = None)
        (filter (\<lambda>s. \<not> dropped s) servers))) \<noteq> []"
      by (metis empty_iff empty_set)
    then show False
      using none(2) assms(2)
      by (auto simp: unidentifiedRemovedServerIDs_def Let_def simp del: filter_filter split: if_splits)
  qed
  moreover have "\<not> desired \<le> ord" if "serverOrdinal (clName cl) s = Some ord" for ord
    using none(1) that assms(3,4) by (auto simp: initialRemovedServerIDs_def filter_empty_conv)
  ultimately show ?thesis by fastforce
qed

lemma drain_ids_listed:
  assumes "i \<in> set (drain_ids cl servers reported desired)"
  shows "i \<in> serverIdentifier ` set servers"
  using assms unidentified_rows rows_by_id_SomeD
  by (fastforce simp: drain_ids_def initialRemovedServerIDs_def persisted_ids_def split: option.splits)

lemma drain_known_holds:
  assumes "\<forall>i\<in>set ids. serverIDPattern i" "desired < current"
    and "\<not> scaleDownDrainInProgress (wMem (fst (drain_known e desired current servers ids w)))"
  shows "ids = [] \<and> snd (unidentifiedRemovedServerIDs servers (clName (wMem w)) desired) = []"
proof (rule ccontr)
  let ?u = "snd (unidentifiedRemovedServerIDs servers (clName (wMem w)) desired)"
  let ?w' = "fst (drain_known e desired current servers ids w)"
  let ?s = "setDrainServers (dSetLands e) ids w"
  assume n: "\<not> (ids = [] \<and> ?u = [])"
  show False
  proof (cases "active_servers servers ids = [] \<and> ?u \<noteq> []")
    case True
    then have "?w' = fst (holdPods (dHoldAgainLands e) (provisionalDrainHoldNames (clName (wMem w)) current desired)
        (pending e (''Scale-down to '' @ itoa desired @ '' server(s) waits: '' @ ?u) w))"
      using n by (simp add: drain_known_def Let_def)
    then show False using assms(3) hold_engages [OF assms(2)] by simp
  next
    case False
    have ne: "ids \<noteq> []" using n False by (auto simp: active_servers_def)
    have "hold_values ?w' = hold_values (fst ?s)"
      using n False by (auto simp: drain_known_def Let_def case_prod_beta hold_values_def [of "blockScaleDown _ _ _"]
          simp flip: hold_values_def [of "fst ?s"])
    then show False using hold_values_cong set_engages [OF ne assms(1)] assms(3) by blast
  qed
qed

lemma drain_listed_holds:
  assumes "listing_ok reported" "desired < current" "scaleDownDrainInProgress (wMem w)"
    and "\<not> scaleDownDrainInProgress (wMem (fst (drain_listed e desired current reported w)))"
    and "s \<in> set (known_servers reported w)" "\<not> dropped s"
  shows "\<exists>ord. serverOrdinal (clName (wMem w)) s = Some ord \<and> ord < desired"
proof -
  define w1 where "w1 = fst (know_addresses reported w)"
  define servers where "servers = known_servers reported w"
  define ids where "ids = drain_ids (wMem w1) servers reported desired"
  define g where "g = (if kept_ids (wMem w1) servers reported desired \<noteq> []
    then giveBackCordoned e servers (kept_ids (wMem w1) servers reported desired) w1 else (w1, True))"
  have w1: "wMem w1 = wMem w" by (simp add: w1_def)
  have hg: "hold_values (fst g) = hold_values w" "clName (wMem (fst g)) = clName (wMem w)"
    by (simp_all add: g_def hold_values_def [of w1] hold_values_def [of w] w1)
  have held: "scaleDownDrainInProgress (wMem (fst g))" using hold_values_cong [OF hg(1)] assms(3) by simp
  have uuid: "\<forall>i\<in>set ids. serverIDPattern i"
  proof -
    have "serverIdentifier ` set servers = srvID ` set reported"
      unfolding servers_def by (metis known_ids(1) [OF assms(1)] set_map)
    moreover have "set ids \<subseteq> serverIdentifier ` set servers"
      unfolding ids_def using drain_ids_listed by blast
    ultimately have "set ids \<subseteq> srvID ` set reported" by simp
    then show ?thesis using assms(1) unfolding listing_ok_def by auto
  qed
  have "fst (drain_listed e desired current reported w) = fst (drain_known e desired current servers ids (fst g))"
  proof -
    let ?past = "serversPastUndoing servers reported (clName (wMem w1)) desired (drainTouched (wMem w1)) False"
    have run: "drain_listed e desired current reported w =
        (if ?past \<noteq> [] then (blockScaleDown e (setBackRefusal ?past (clName (wMem w1)) current) w1, True)
         else if \<not> snd g then (fst g, True) else drain_known e desired current servers ids (fst g))"
      unfolding drain_listed_def Let_def case_prod_beta w1_def [symmetric] know_addresses_snd
        servers_def [symmetric] ids_def [symmetric] g_def [symmetric] by (rule refl)
    have "?past = []" using assms(3,4) w1 unfolding run by (cases "?past = []") simp_all
    moreover have "snd g" using assms(4) held calculation unfolding run by (cases "snd g") simp_all
    ultimately show ?thesis unfolding run by simp
  qed
  then have "ids = [] \<and> snd (unidentifiedRemovedServerIDs servers (clName (wMem w)) desired) = []"
    using drain_known_holds [OF uuid assms(2), of e servers "fst g"] assms(4) hg(2) by simp
  then show ?thesis
    using nothing_left [of "wMem w1" servers reported desired s] assms(5,6) by (simp add: ids_def servers_def w1)
qed

lemma replicas_held:
  assumes "dSts e = Found sts" "stsReplicas sts = Some current"
    and "0 < specServers (wMem w)" "specServers (wMem w) < current"
    and "\<forall>reported. dServers e = Some reported \<longrightarrow> listing_ok reported"
    and "\<not> scaleDownDrainInProgress (wMem (fst (reconcileScaleDownDrain e w)))"
  shows "\<exists>reported. dServers e = Some reported \<and>
    (\<forall>s\<in>set (known_servers reported w). dropped s \<or>
       (\<exists>ord. serverOrdinal (clName (wMem w)) s = Some ord \<and> ord < specServers (wMem w)))"
proof -
  define hold where "hold = (if scaleDownDrainInProgress (wMem w) then (w, True)
      else holdPods (dHoldLands e) (provisionalDrainHoldNames (clName (wMem w)) current (specServers (wMem w))) w)"
  have held: "scaleDownDrainInProgress (wMem (fst hold))"
    using hold_engages [OF assms(4)] by (simp add: hold_def)
  have hm: "clName (wMem (fst hold)) = clName (wMem w)" "known_servers r (fst hold) = known_servers r w" for r
    by (simp_all add: hold_def)
  have run: "fst (reconcileScaleDownDrain e w) = (if \<not> snd hold \<or> \<not> dConnect e then fst hold
      else case dServers e of None \<Rightarrow> fst hold
           | Some reported \<Rightarrow> fst (drain_listed e (specServers (wMem w)) current reported (fst hold)))"
    unfolding reconcileScaleDownDrain_def Let_def case_prod_beta hold_def using assms(1-4)
    by (simp split: option.splits)
  then obtain reported where r: "dServers e = Some reported"
    "fst (reconcileScaleDownDrain e w) = fst (drain_listed e (specServers (wMem w)) current reported (fst hold))"
    using held assms(6) by (cases "dServers e") (auto split: if_splits)
  have "\<exists>ord. serverOrdinal (clName (wMem w)) s = Some ord \<and> ord < specServers (wMem w)"
    if "s \<in> set (known_servers reported w)" "\<not> dropped s" for s
    using drain_listed_holds [OF _ assms(4) held, of reported e s] assms(5,6) r that hm by simp
  then show ?thesis using r(1) by blast
qed

text \<open>
  C6: a pass of the drain that reads the StatefulSet and finds more servers than the spec asks for
  ends with the replica count held, also when Neo4j cannot be reached, a patch fails or the
  drain is refused, unless Neo4j answered and every server it lists is dropped, or known to
  run in a pod the spec keeps. The listing is taken to name every server once.
\<close>

theorem replicas_held_until_drained:
  assumes "dSts e = Found sts" "stsReplicas sts = Some current"
    and "0 < specServers (wMem w)" "specServers (wMem w) < current"
    and "\<forall>reported. dServers e = Some reported \<longrightarrow> listing_ok reported"
    and "\<not> scaleDownDrainInProgress (wMem (fst (reconcileScaleDownDrain e w)))"
  shows "\<exists>reported. dServers e = Some reported \<and>
    (\<forall>s\<in>set (known_servers reported w). dropped s \<or>
       (\<exists>ord. serverOrdinal (clName (wMem w)) s = Some ord \<and> ord < specServers (wMem w)))"
  using replicas_held [OF assms] .


section \<open>The cordons are on record before they run\<close>

definition synced :: "world \<Rightarrow> bool" where
  "synced w \<longleftrightarrow> clAnnotations (wMem w) = clAnnotations (wStored w)"

lemma synced_annotations:
  "synced w \<Longrightarrow> snd (setDrainAnnotations lands vs w) \<Longrightarrow> synced (fst (setDrainAnnotations lands vs w))"
  by (auto simp: synced_def setDrainAnnotations_def Let_def split: if_splits)

lemma synced_simps [simp]:
  "synced (logged es w) = synced w" "synced (fst (know_addresses reported w)) = synced w"
  by (simp_all add: synced_def)

lemma synced_give: "synced w \<Longrightarrow> snd (giveBackCordoned e servers ids w) \<Longrightarrow> synced (fst (giveBackCordoned e servers ids w))"
  by (auto simp: giveBackCordoned_def Let_def case_prod_beta intro!: synced_annotations split: if_splits)

lemma synced_hold: "synced w \<Longrightarrow> snd (holdPods lands pods w) \<Longrightarrow> synced (fst (holdPods lands pods w))"
  by (simp add: holdPods_def synced_annotations)

lemma synced_set:
  assumes "synced w" "snd (setDrainServers lands ids w)"
  shows "synced (fst (setDrainServers lands ids w))"
proof -
  have "synced (w\<lparr>wDrainDeferred := None\<rparr>)" using assms(1) by (simp add: synced_def)
  then show ?thesis using assms by (auto simp: setDrainServers_def intro: synced_annotations split: if_splits)
qed

text \<open>A list of ids, written to an annotation and read back.\<close>

lemma trim_space_set: "set (trim_space s) \<subseteq> set s"
proof
  fix c assume "c \<in> set (trim_space s)"
  then have "c \<in> set (rev (dropWhile is_space s))" unfolding trim_space_def by (metis set_dropWhileD set_rev)
  then show "c \<in> set s" by (metis set_dropWhileD set_rev)
qed

lemma trim_space_idem [simp]: "trim_space (trim_space s) = trim_space s"
proof -
  have drop: "dropWhile is_space (dropWhile is_space t) = dropWhile is_space t" for t
    by (induction t) auto
  have none: "dropWhile is_space t = t" if "t = [] \<or> \<not> is_space (hd t)" for t
    using that by (cases t) auto
  let ?a = "dropWhile is_space s" and ?b = "trim_space s"
  have "?a = ?b @ rev (takeWhile is_space (rev ?a))"
    unfolding trim_space_def by (metis rev_append rev_rev_ident takeWhile_dropWhile_id)
  moreover have "?a = [] \<or> \<not> is_space (hd ?a)" using hd_dropWhile by blast
  ultimately have "?b = [] \<or> \<not> is_space (hd ?b)" by (metis Nil_is_append_conv hd_append2)
  from none [OF this] show ?thesis unfolding trim_space_def by (simp add: drop)
qed

lemma annotation_ids_roundtrip:
  assumes "annotation (clAnnotations cl) k = join '','' ids"
    and "\<forall>i\<in>set ids. i \<noteq> [] \<and> trim_space i = i \<and> CHR '','' \<notin> set i"
  shows "annotationIDs cl k = ids"
proof (cases "ids = []")
  case False
  have "map trim_space ids = ids" using assms(2) by (simp add: map_idI)
  moreover have "split_on CHR '','' (join '','' ids) = ids"
    using assms(2) False by (intro split_on_join) auto
  ultimately show ?thesis using assms by (simp add: annotationIDs_def filter_id_conv)
qed (use assms in \<open>simp add: annotationIDs_def trim_space_def\<close>)

lemma annotationIDs_clean:
  "i \<in> set (annotationIDs cl k) \<Longrightarrow> i \<noteq> [] \<and> trim_space i = i \<and> CHR '','' \<notin> set i"
proof -
  assume "i \<in> set (annotationIDs cl k)"
  then obtain p where p: "i = trim_space p" "i \<noteq> []"
    "p \<in> set (split_on CHR '','' (annotation (clAnnotations cl) k))"
    by (auto simp: annotationIDs_def)
  then have "CHR '','' \<notin> set i" using split_on_parts [OF p(3)] trim_space_set [of p] by blast
  then show ?thesis using p by simp
qed

lemma uuid_clean: "serverIDPattern i \<Longrightarrow> i \<noteq> [] \<and> trim_space i = i \<and> CHR '','' \<notin> set i"
proof -
  assume p: "serverIDPattern i"
  then have c: "\<forall>c\<in>set i. \<not> is_space c \<and> c \<noteq> CHR '',''"
    using serverIDPattern_chars(2) [OF p] hex_not_space by auto
  then have "trim_space i = i" by (intro trim_space_id) auto
  then show ?thesis using c serverIDPattern_chars(1) [OF p] by auto
qed

lemma cordon_step_records:
  assumes "CordonServer i \<in> set (issued w (fst (cordon_step e desired n ids w)))"
    and "synced w" "\<forall>j\<in>set ids. serverIDPattern j"
  shows "i \<in> set (cordonedByDrain (wStored (fst (cordon_step e desired n ids w))))"
proof -
  let ?u = "unionIDs (cordonedByDrain (wMem w)) ids"
  let ?vs = "[(ScaleDownCordonedServersAnnotation, join '','' ?u),
      (ScaleDownCordonedAtAnnotation, dFormatNano e (dNow e))]"
  let ?a = "setDrainAnnotations (dCordonLands e) ?vs w"
  obtain xs where xs: "set xs \<subseteq> CordonServer ` set ids" "drains w xs (fst (cordon_step e desired n ids w))"
    "xs \<noteq> [] \<longrightarrow> snd ?a" using cordon_step_drains [of ids w e desired n] by blast
  have i: "CordonServer i \<in> set xs" using assms(1) drains_issued [OF xs(2)] by simp
  then have ok: "snd ?a" and "i \<in> set ids" using xs(1,3) by auto
  have stored: "clAnnotations (wStored (fst (cordon_step e desired n ids w))) = clAnnotations (wStored (fst ?a))"
    using ok by (simp add: cordon_step_def Let_def case_prod_beta)
  have "annotation (clAnnotations (wMem (fst ?a))) ScaleDownCordonedServersAnnotation = join '','' ?u"
    by (rule setDrainAnnotations_value) simp_all
  then have "annotation (clAnnotations (wStored (fst ?a))) ScaleDownCordonedServersAnnotation = join '','' ?u"
    using synced_annotations [OF assms(2) ok] by (simp add: synced_def)
  moreover have "\<forall>j\<in>set ?u. j \<noteq> [] \<and> trim_space j = j \<and> CHR '','' \<notin> set j"
  proof
    fix j assume "j \<in> set ?u"
    then consider "j \<in> set (annotationIDs (wMem w) ScaleDownCordonedServersAnnotation)" | "j \<in> set ids"
      by (auto simp: unionIDs_def cordonedByDrain_def)
    then show "j \<noteq> [] \<and> trim_space j = j \<and> CHR '','' \<notin> set j"
      using annotationIDs_clean uuid_clean assms(3) by cases blast+
  qed
  ultimately have "annotationIDs (wStored (fst (cordon_step e desired n ids w))) ScaleDownCordonedServersAnnotation = ?u"
    using stored by (intro annotation_ids_roundtrip) simp_all
  then show ?thesis using \<open>i \<in> set ids\<close> by (simp add: cordonedByDrain_def unionIDs_def)
qed

lemma issued_append: "drains w xs v \<Longrightarrow> drains v ys u \<Longrightarrow> issued w u = xs @ issued v u"
  using drains_issued drains_trans by metis

lemma active_records:
  assumes "CordonServer i \<in> set (issued w (fst (drain_active e desired active w)))"
    and "synced w" "\<forall>s\<in>set active. serverIDPattern (serverIdentifier s)"
  shows "i \<in> set (cordonedByDrain (wStored (fst (drain_active e desired active w))))"
proof -
  have step: "i \<in> set (cordonedByDrain (wStored (fst (drain_step_for e desired active v))))"
    if c: "CordonServer i \<in> set (issued v (fst (drain_step_for e desired active v)))" and "synced v" for v
  proof -
    obtain ph ids where plan: "planScaleDownStep active = (ph, ids)" by fastforce
    have uuid: "\<forall>j\<in>set ids. serverIDPattern j" using plan_step(1) [OF plan] assms(3) by metis
    show ?thesis
    proof (cases ph)
      case scaleDownCordon
      then show ?thesis
        using c that(2) uuid cordon_step_records [of i v e desired "length active" ids]
        by (simp add: drain_step_for_def plan)
    next
      case scaleDownDeallocate
      then show ?thesis
        using c deallocate_step_drains [of ids v e desired "length active"]
        by (auto simp: drain_step_for_def plan dest: drains_issued)
    next
      case scaleDownDrop
      then show ?thesis
        using c drop_step_drains [of ids v e desired "length active"]
        by (auto simp: drain_step_for_def plan dest: drains_issued)
    qed (use c in \<open>simp_all add: drain_step_for_def plan drains_issued [OF drains_pending]\<close>)
  qed
  let ?w1 = "logged [Statement (DeallocateServers (map serverIdentifier active) True)] w"
  have w1: "drains w [DeallocateServers (map serverIdentifier active) True] ?w1" by simp
  obtain ys where "drains ?w1 ys (fst (drain_step_for e desired active ?w1))"
    using drain_step_for_warranted by blast
  from issued_append [OF w1 this]
  have pre: "CordonServer i \<in> set (issued w (fst (drain_step_for e desired active ?w1))) \<Longrightarrow>
      CordonServer i \<in> set (issued ?w1 (fst (drain_step_for e desired active ?w1)))" by simp
  show ?thesis
    using assms(1,2) step pre drains_issued [OF w1] drains_issued [OF drains_then(2) [OF w1]]
    by (auto simp: drain_active_def Let_def split: if_splits option.splits)
qed

lemma known_records:
  assumes "CordonServer i \<in> set (issued w (fst (drain_known e desired current servers ids w)))"
    and "synced w" "\<forall>s\<in>set servers. serverIDPattern (serverIdentifier s)"
  shows "i \<in> set (cordonedByDrain (wStored (fst (drain_known e desired current servers ids w))))"
proof -
  let ?s = "setDrainServers (dSetLands e) ids w" and ?active = "active_servers servers ids"
  let ?w' = "fst (drain_known e desired current servers ids w)"
  have quiet: "drains w [] ?w' \<Longrightarrow> False" using assms(1) drains_issued by fastforce
  have "drains w [] (fst ?s)" by simp
  have ok: "snd ?s \<and> ?w' = fst (drain_active e desired ?active (fst ?s))"
  proof (rule ccontr)
    assume "\<not> ?thesis"
    then have "drains w [] ?w'"
      unfolding drain_known_def Let_def case_prod_beta
      by (auto simp: drains_then(5,6) drains_none(1) [OF drains_set drains_block] split: if_splits)
    then show False by (rule quiet)
  qed
  obtain ys where "drains (fst ?s) ys ?w'" using drain_active_warranted [of "fst ?s" e desired ?active] ok by auto
  from issued_append [OF drains_set this]
  have "CordonServer i \<in> set (issued (fst ?s) (fst (drain_active e desired ?active (fst ?s))))"
    using assms(1) ok by simp
  moreover have "\<forall>s\<in>set ?active. serverIDPattern (serverIdentifier s)"
    using assms(3) rows_by_id_SomeD by (fastforce simp: active_servers_def split: option.splits if_splits)
  ultimately show ?thesis
    using active_records synced_set [OF assms(2)] ok by metis
qed

lemma listed_records:
  assumes "CordonServer i \<in> set (issued w (fst (drain_listed e desired current reported w)))"
    and "synced w" "listing_ok reported"
  shows "i \<in> set (cordonedByDrain (wStored (fst (drain_listed e desired current reported w))))"
proof -
  define w1 where "w1 = fst (know_addresses reported w)"
  define servers where "servers = known_servers reported w"
  define keep where "keep = kept_ids (wMem w1) servers reported desired"
  define ids where "ids = drain_ids (wMem w1) servers reported desired"
  define g where "g = (if keep \<noteq> [] then giveBackCordoned e servers keep w1 else (w1, True))"
  let ?w' = "fst (drain_listed e desired current reported w)"
  let ?past = "serversPastUndoing servers reported (clName (wMem w1)) desired (drainTouched (wMem w1)) False"
  have run: "drain_listed e desired current reported w =
      (if ?past \<noteq> [] then (blockScaleDown e (setBackRefusal ?past (clName (wMem w1)) current) w1, True)
       else if \<not> snd g then (fst g, True) else drain_known e desired current servers ids (fst g))"
    unfolding drain_listed_def Let_def case_prod_beta w1_def [symmetric] know_addresses_snd
      servers_def [symmetric] keep_def [symmetric] ids_def [symmetric] g_def [symmetric] by (rule refl)
  have w1: "drains w [] w1" by (simp add: w1_def)
  obtain gs where gs: "drains w gs (fst g)" "CordonServer i \<notin> set gs"
    using giveBack_drains [of w1 e servers keep] drains_none(1) [OF w1] w1 by (cases "keep = []") (fastforce simp: g_def)+
  have "?past = []"
    using assms(1) drains_issued [OF drains_none(1) [OF w1 drains_block]] unfolding run by (cases "?past = []") auto
  moreover have "snd g"
    using assms(1) drains_issued [OF gs(1)] gs(2) calculation unfolding run by (cases "snd g") auto
  ultimately have w': "?w' = fst (drain_known e desired current servers ids (fst g))" "snd g"
    unfolding run by simp_all
  obtain ys where "drains (fst g) ys ?w'"
    using drain_known_reason [of servers ids "\<lambda>_. True" "fst g" e desired current] w'(1) by auto
  from issued_append [OF gs(1) this] have "CordonServer i \<in> set (issued (fst g) ?w')"
    using assms(1) gs(2) by auto
  moreover have "synced (fst g)"
    using w'(2) assms(2) synced_give by (auto simp: g_def w1_def)
  moreover have "\<forall>s\<in>set servers. serverIDPattern (serverIdentifier s)"
    using known_row_id [OF assms(3)] assms(3) unfolding servers_def listing_ok_def by metis
  ultimately show ?thesis using known_records w'(1) by metis
qed

text \<open>
  C11: when a pass cordons a server, the stored cluster already lists it as cordoned by the
  drain, so an operator that stops between the two can still give the server back.
\<close>

theorem cordons_are_recorded:
  assumes "CordonServer i \<in> set (issued w (fst (reconcileScaleDownDrain e w)))"
    and "clAnnotations (wMem w) = clAnnotations (wStored w)"
    and "dServers e = Some reported" "listing_ok reported"
  shows "i \<in> set (cordonedByDrain (wStored (fst (reconcileScaleDownDrain e w))))"
proof -
  let ?w' = "fst (reconcileScaleDownDrain e w)" and ?d = "specServers (wMem w)"
  have sync: "synced w" using assms(2) by (simp add: synced_def)
  have quiet: "drains w [] ?w' \<Longrightarrow> False" using assms(1) drains_issued by fastforce
  have pos: "0 < ?d"
  proof (rule ccontr)
    assume "\<not> 0 < ?d"
    then show False using quiet by (simp add: reconcileScaleDownDrain_def Let_def)
  qed
  have "fst (reconcileScaleDownDrain e w) = w" if "\<forall>sts. dSts e \<noteq> Found sts"
    using that by (cases "dSts e") (simp_all add: reconcileScaleDownDrain_def Let_def)
  then obtain sts where sts: "dSts e = Found sts" using quiet drains_refl by metis
  define c where "c = (case stsReplicas sts of None \<Rightarrow> 0 | Some r \<Rightarrow> r)"
  define hold where "hold = (if scaleDownDrainInProgress (wMem w) then (w, True)
      else holdPods (dHoldLands e) (provisionalDrainHoldNames (clName (wMem w)) c ?d) w)"
  have h: "drains w [] (fst hold)" by (simp add: hold_def)
  have run: "?w' = (if c \<le> ?d then fst (setBackScaleDown e c w)
      else if \<not> snd hold \<or> \<not> dConnect e then fst hold else fst (drain_listed e ?d c reported (fst hold)))"
    unfolding reconcileScaleDownDrain_def Let_def case_prod_beta hold_def c_def using sts pos assms(3) by simp
  have "\<not> c \<le> ?d"
  proof
    assume "c \<le> ?d"
    obtain xs where xs: "drains w xs (fst (setBackScaleDown e c w))" "\<forall>x\<in>set xs. \<exists>i. x = EnableServer i"
      using setBack_only_enables by blast
    then show False using assms(1) run \<open>c \<le> ?d\<close> drains_issued [OF xs(1)] by auto
  qed
  then have w': "?w' = fst (drain_listed e ?d c reported (fst hold))" "snd hold"
    using run quiet h by (auto split: if_splits)
  have "?d = specServers (wMem (fst hold))" by (simp add: hold_def)
  from drain_listed_reason [OF this, of e c reported] obtain ys where "drains (fst hold) ys ?w'"
    unfolding w'(1) by blast
  from issued_append [OF h this] have "CordonServer i \<in> set (issued (fst hold) ?w')" using assms(1) by simp
  moreover have "synced (fst hold)" using sync synced_hold w'(2) by (auto simp: hold_def)
  ultimately show ?thesis using listed_records [OF _ _ assms(4)] w'(1) by metis
qed

text \<open>
  A scale-down set back too late is refused and left alone: while a server the drain took
  that Neo4j cannot give back runs in a pod the StatefulSet keeps, the pass issues no statement
  and the drain's records stay as they are, in memory and in store.
\<close>

theorem late_set_back_is_refused:
  assumes "dSts e = Found sts" "stsReplicas sts = Some current"
    and "0 < specServers (wMem w)" "current \<le> specServers (wMem w)"
    and "dServers e = Some reported"
    and "s \<in> set (known_servers reported w)" "serverPastUndoing s"
    and "serverIdentifier s \<in> set (drainTouched (wMem w))"
    and "case serverOrdinal (clName (wMem w)) s of None \<Rightarrow> True
      | Some ord \<Rightarrow> ord < current \<and>
          runsInOrdinal (reportedOrdinals reported (clName (wMem w))) ord (serverIdentifier s)"
  shows "issued w (fst (reconcileScaleDownDrain e w)) = [] \<and>
    clAnnotations (wMem (fst (reconcileScaleDownDrain e w))) = clAnnotations (wMem w) \<and>
    clAnnotations (wStored (fst (reconcileScaleDownDrain e w))) = clAnnotations (wStored w)"
proof -
  let ?w1 = "fst (know_addresses reported w)"
  let ?past = "serversPastUndoing (known_servers reported w) reported (clName (wMem w)) current
      (drainTouched (wMem w)) True"
  have "s \<in> set ?past" using assms(6-9) by (auto simp: serversPastUndoing_def Let_def split: option.splits)
  then have past: "?past \<noteq> []" by (metis empty_iff empty_set)
  have took: "\<not> (drainServerIDsFromAnnotation (wMem w) = [] \<and> cordonedByDrain (wMem w) = [])"
    using assms(8) by (auto simp: drainTouched_def)
  have "fst (reconcileScaleDownDrain e w) = w \<or>
      fst (reconcileScaleDownDrain e w) = blockScaleDown e (setBackRefusal ?past (clName (wMem w)) current) ?w1"
    using assms(1-5) past took
    by (auto simp: reconcileScaleDownDrain_def setBackScaleDown_def Let_def case_prod_beta know_addresses_snd)
  then show ?thesis
    using drains_issued [OF drains_none(1) [OF drains_know drains_block]] drains_issued [OF drains_refl]
    by (metis block_mem(1,2) know_mem(1,2))
qed


section \<open>The statements name what they were given\<close>

fun every_second :: "'a list \<Rightarrow> 'a list" where
  "every_second (a # b # xs) = b # every_second xs"
| "every_second _ = []"

text \<open>
  Whatever ids a deallocation is asked for, the statement that is sent holds exactly these
  ids between quotes, in their order; an id that is no UUID sends nothing.
\<close>

theorem deallocate_statement_roundtrip:
  "(case buildDeallocateStatement ids dryRun of
      None \<Rightarrow> ids = [] \<or> (\<exists>i\<in>set ids. \<not> serverIDPattern i)
    | Some stmt \<Rightarrow> every_second (split_on CHR 0x27 stmt) = ids)"
proof (cases "validateServerIDs ids")
  case True
  then have "ids \<noteq> []" and ok: "\<forall>i\<in>set ids. serverIDPattern i"
    by (simp_all add: validateServerIDs_def list_all_iff)
  have hex: "CHR 0x27 \<notin> set i" if "serverIDPattern i" for i
    using serverIDPattern_chars(2) [OF that] by (auto simp: is_hex_def)
  have parts: "every_second (split_on CHR 0x27 (p @ join '', '' (map quoted_id ids))) = ids"
    if "CHR 0x27 \<notin> set p" "ids \<noteq> []" "\<forall>i\<in>set ids. serverIDPattern i" for p ids
    using that
  proof (induction ids arbitrary: p)
    case (Cons i ids)
    have i: "CHR 0x27 \<notin> set i" using Cons.prems(3) hex by simp
    show ?case
    proof (cases "ids = []")
      case True
      then show ?thesis using Cons.prems(1) i by (simp add: quoted_id_def split_on_append_sep)
    next
      case False
      then have "p @ join '', '' (map quoted_id (i # ids)) =
          p @ CHR 0x27 # i @ CHR 0x27 # '', '' @ join '', '' (map quoted_id ids)"
        by (simp add: join_Cons quoted_id_def)
      moreover have "every_second (split_on CHR 0x27 ('', '' @ join '', '' (map quoted_id ids))) = ids"
        using False Cons.prems(3) by (intro Cons.IH) auto
      ultimately show ?thesis using Cons.prems(1) i by (simp add: split_on_append_sep)
    qed
  qed simp
  show ?thesis
    using parts [of "''DEALLOCATE DATABASES FROM SERVER ''", OF _ \<open>ids \<noteq> []\<close> ok]
      parts [of "''DRYRUN DEALLOCATE DATABASES FROM SERVER ''", OF _ \<open>ids \<noteq> []\<close> ok] True
    by (simp add: buildDeallocateStatement_def Let_def)
next
  case False
  then show ?thesis by (auto simp: buildDeallocateStatement_def validateServerIDs_def list_all_iff)
qed


section \<open>Concrete passes\<close>

definition uuid :: "int \<Rightarrow> string" where
  "uuid i = ''00000000-0000-0000-0000-00000000000'' @ itoa i"

definition drain_row :: "int \<Rightarrow> string \<Rightarrow> server_info" where
  "drain_row i state = \<lparr>srvID = uuid i, srvName = uuid i,
     srvAddress = ''c-server-'' @ itoa i @ ''.c-headless:7687'', srvState = state,
     srvHealth = ''Available'', srvHosting = [''system''], srvVersion = ''2026.09.0''\<rparr>"

text \<open>Five servers, scaled down to three; the two to remove are in \<open>state\<close>.\<close>

definition rows5 :: "string \<Rightarrow> server_info list" where
  "rows5 state = [drain_row 0 ''Enabled'', drain_row 1 ''Enabled'', drain_row 2 ''Enabled'',
     drain_row 3 state, drain_row 4 state]"

definition drain_env5 :: "int \<Rightarrow> server_info list \<Rightarrow> drain_env" where
  "drain_env5 replicas rows =
     \<lparr>dNow = 100, dSettle = 20, dSts = Found ((sts3 ''neo4j:2026.09.0-enterprise'' 0)\<lparr>stsReplicas := Some replicas\<rparr>),
      dConnect = True, dServers = Some rows, dMinPrimaries = 3, dCordon = (\<lambda>_. True), dEnable = (\<lambda>_. True),
      dPreflight = (\<lambda>_. None), dDryRun = (\<lambda>_. None), dDeallocate = (\<lambda>_. None), dDrop = (\<lambda>_. None),
      dHoldLands = True, dHoldAgainLands = True, dSetLands = True, dCordonLands = True,
      dGiveBackLands = True, dClearLands = True, dReleaseLands = True, dCondition = Written,
      dParseTime = (\<lambda>_. Some 10), dFormatNano = (\<lambda>_. ''2026-01-01T00:00:00.000000010Z''),
      dFormatSecond = (\<lambda>_. ''2026-01-01T00:00:01Z'')\<rparr>"

definition draining_world :: "int \<Rightarrow> world" where
  "draining_world servers = world_of ((new_cluster ''c'' ''neo4j'' ''2026.09.0-enterprise'' servers)
     \<lparr>clAnnotations := [ScaleDownDrainingServersAnnotation \<mapsto> uuid 3 @ '','' @ uuid 4,
        ScaleDownCordonedServersAnnotation \<mapsto> uuid 3 @ '','' @ uuid 4,
        ScaleDownCordonedAtAnnotation \<mapsto> ''2026-01-01T00:00:00.000000010Z'']\<rparr>) None"

lemma rows5_ok: "listing_ok (rows5 state)"
proof -
  have "map srvID (rows5 state) = map uuid [0, 1, 2, 3, 4]" by (simp add: rows5_def drain_row_def)
  moreover have "distinct (map uuid [0, 1, 2, 3, 4])" by code_simp
  moreover have "\<forall>i\<in>set (map uuid [0, 1, 2, 3, 4]). serverIDPattern i" by code_simp
  ultimately show ?thesis unfolding listing_ok_def by (metis imageI set_map)
qed

theorem drops_only_emptied_servers_witness:
  "\<exists>s\<in>set (rows5 ''Deallocated''). srvID s = uuid 3 \<and> hostsOnlySystem s"
proof -
  let ?e = "drain_env5 5 (rows5 ''Deallocated'')"
  have i: "DropServer (uuid 3) \<in> set (issued (draining_world 3) (fst (reconcileScaleDownDrain ?e (draining_world 3))))"
    by code_simp
  have r: "dServers ?e = Some (rows5 ''Deallocated'')" by (simp add: drain_env5_def)
  show ?thesis
    using drops_only_emptied_servers [OF i r rows5_ok] unfolding hostsOnlySystem_def list_all_iff by blast
qed

theorem deallocates_only_settled_cordons_witness:
  "dDryRun (drain_env5 5 (rows5 ''Cordoned'')) [uuid 3, uuid 4] = None \<and>
   (\<exists>s\<in>set (rows5 ''Cordoned''). srvID s = uuid 4 \<and> to_lower (srvState s) = ''cordoned'')"
proof -
  let ?e = "drain_env5 5 (rows5 ''Cordoned'')"
  have i: "DeallocateServers [uuid 3, uuid 4] False \<in>
      set (issued (draining_world 3) (fst (reconcileScaleDownDrain ?e (draining_world 3))))"
    by code_simp
  have r: "dServers ?e = Some (rows5 ''Cordoned'')" by (simp add: drain_env5_def)
  show ?thesis using deallocates_only_settled_cordons [OF i r rows5_ok] by simp
qed

text \<open>The pod of server 0 was given a new volume: an earlier identity of it is listed too.\<close>

definition rows_replaced :: "server_info list" where
  "rows_replaced = rows5 ''Cordoned'' @ [(drain_row 5 ''Enabled'')\<lparr>srvAddress := []\<rparr>]"

definition replaced_world :: world where
  "replaced_world = (draining_world 3)\<lparr>wAddresses := [uuid 5 \<mapsto> ''c-server-0.c-headless:7687''],
     wMem := (wMem (draining_world 3))\<lparr>clAnnotations := [ScaleDownDrainingServersAnnotation \<mapsto> uuid 5]\<rparr>\<rparr>"

theorem keeps_servers_the_spec_keeps_witness:
  "reportedOrdinals rows_replaced ''c'' 0 = Some (uuid 0) \<and> uuid 0 \<noteq> uuid 5"
proof -
  let ?e = "drain_env5 5 rows_replaced" and ?w = replaced_world
  let ?s = "(drain_row 5 ''Enabled'')\<lparr>srvAddress := ''c-server-0.c-headless:7687''\<rparr>"
  have i: "CordonServer (uuid 5) \<in> set (issued ?w (fst (reconcileScaleDownDrain ?e ?w)))" by code_simp
  have n: "uuid 5 \<in> set (named_servers (CordonServer (uuid 5)))" by simp
  have r: "dServers ?e = Some rows_replaced" by (simp add: drain_env5_def)
  have ids: "map srvID rows_replaced = map uuid [0, 1, 2, 3, 4, 5]"
    by (simp add: rows_replaced_def rows5_def drain_row_def)
  have "distinct (map uuid [0, 1, 2, 3, 4, 5])" by code_simp
  moreover have "\<forall>i\<in>set (map uuid [0, 1, 2, 3, 4, 5]). serverIDPattern i" by code_simp
  ultimately have ok: "listing_ok rows_replaced" using ids unfolding listing_ok_def by (metis imageI set_map)
  have s: "?s \<in> set (known_servers rows_replaced ?w)" by code_simp
  have sid: "serverIdentifier ?s = uuid 5" by code_simp
  have o: "serverOrdinal (clName (wMem ?w)) ?s = Some 0" by code_simp
  have d: "0 < specServers (wMem ?w)" by code_simp
  have "reportedOrdinals rows_replaced ''c'' 0 = Some (uuid 0)" by code_simp
  moreover have "clName (wMem ?w) = ''c''" by code_simp
  ultimately show ?thesis using keeps_servers_the_spec_keeps [OF i n r ok s sid o d] by simp
qed

theorem enables_only_its_own_cordons_witness:
  "\<exists>s\<in>set (rows5 ''Cordoned''). srvID s = uuid 4 \<and> equal_fold (srvState s) ''cordoned''"
proof -
  let ?e = "drain_env5 5 (rows5 ''Cordoned'')"
  have i: "EnableServer (uuid 4) \<in>
      set (issued (draining_world 5) (fst (reconcileScaleDownDrain ?e (draining_world 5))))"
    by code_simp
  have r: "dServers ?e = Some (rows5 ''Cordoned'')" by (simp add: drain_env5_def)
  show ?thesis using enables_only_its_own_cordons [OF i r rows5_ok] by blast
qed

theorem replicas_held_until_drained_witness:
  "\<exists>ord. serverOrdinal ''c'' (drain_row 1 ''Enabled'') = Some ord \<and> ord < 3"
proof -
  let ?e = "drain_env5 5 (rows5 ''Dropped'')" and ?w = "draining_world 3"
  have sts: "dSts ?e = Found ((sts3 ''neo4j:2026.09.0-enterprise'' 0)\<lparr>stsReplicas := Some 5\<rparr>)"
    "stsReplicas ((sts3 ''neo4j:2026.09.0-enterprise'' 0)\<lparr>stsReplicas := Some 5\<rparr>) = Some 5"
    by (simp_all add: drain_env5_def)
  have d: "specServers (wMem ?w) = 3" "clName (wMem ?w) = ''c''" by code_simp+
  have r: "\<forall>reported. dServers ?e = Some reported \<longrightarrow> listing_ok reported"
    using rows5_ok by (simp add: drain_env5_def)
  have "\<not> scaleDownDrainInProgress (wMem (fst (reconcileScaleDownDrain ?e ?w)))" by code_simp
  note held = replicas_held_until_drained [OF sts _ _ r this]
  have k: "drain_row 1 ''Enabled'' \<in> set (known_servers (rows5 ''Dropped'') ?w)"
    "\<not> dropped (drain_row 1 ''Enabled'')" by code_simp+
  from held d k show ?thesis by (simp add: drain_env5_def) blast
qed

theorem cordons_are_recorded_witness:
  "uuid 3 \<in> set (cordonedByDrain (wStored (fst (reconcileScaleDownDrain (drain_env5 5 (rows5 ''Enabled''))
     (draining_world 3)))))"
proof -
  let ?e = "drain_env5 5 (rows5 ''Enabled'')" and ?w = "draining_world 3"
  have i: "CordonServer (uuid 3) \<in> set (issued ?w (fst (reconcileScaleDownDrain ?e ?w)))" by code_simp
  have s: "clAnnotations (wMem ?w) = clAnnotations (wStored ?w)" by (simp add: draining_world_def world_of_def)
  have r: "dServers ?e = Some (rows5 ''Enabled'')" by (simp add: drain_env5_def)
  show ?thesis using cordons_are_recorded [OF i s r rows5_ok] .
qed

theorem late_set_back_is_refused_witness:
  "issued (draining_world 5)
     (fst (reconcileScaleDownDrain (drain_env5 5 (rows5 ''Deallocating'')) (draining_world 5))) = []"
proof -
  let ?e = "drain_env5 5 (rows5 ''Deallocating'')" and ?w = "draining_world 5"
  let ?s = "drain_row 3 ''Deallocating''"
  have sts: "dSts ?e = Found ((sts3 ''neo4j:2026.09.0-enterprise'' 0)\<lparr>stsReplicas := Some 5\<rparr>)"
    "stsReplicas ((sts3 ''neo4j:2026.09.0-enterprise'' 0)\<lparr>stsReplicas := Some 5\<rparr>) = Some 5"
    by (simp_all add: drain_env5_def)
  have d: "0 < specServers (wMem ?w)" "5 \<le> specServers (wMem ?w)" by code_simp+
  have r: "dServers ?e = Some (rows5 ''Deallocating'')" by (simp add: drain_env5_def)
  have s: "?s \<in> set (known_servers (rows5 ''Deallocating'') ?w)" "serverPastUndoing ?s"
    "serverIdentifier ?s \<in> set (drainTouched (wMem ?w))" by code_simp+
  have o: "case serverOrdinal (clName (wMem ?w)) ?s of None \<Rightarrow> True
      | Some ord \<Rightarrow> ord < 5 \<and> runsInOrdinal (reportedOrdinals (rows5 ''Deallocating'') (clName (wMem ?w))) ord
          (serverIdentifier ?s)" by code_simp
  show ?thesis using late_set_back_is_refused [OF sts d r s o] by simp
qed

end
