(* ===== verification/Upgrade_Progress.thy ===== *)
theory Upgrade_Progress
  imports Upgrade_Machine
begin

text \<open>
  The machine gets somewhere: a Rolling step whose gates stay closed stops at its deadline,
  with every server where it was; and an upgrade whose servers come back healthy completes
  after as many passes as there are servers to roll, and three more.
\<close>

section \<open>What a pass of the Rolling step reads and decides\<close>

text \<open>The parts of \<open>roll_with\<close>, named.\<close>

definition roll_reported :: "env \<Rightarrow> stateful_set \<Rightarrow> int \<Rightarrow> world \<Rightarrow> world" where
  "roll_reported e live r w =
     (let w1 = (if stsReadyReplicas live < r then logged (replaceStuckServerPods e live) w else w)
      in reportTopologyDeferral (eNow e) (eWriteTopology e) (specServers (wMem w1)) r w1)"

definition roll_gates ::
    "env \<Rightarrow> stateful_set \<Rightarrow> int \<Rightarrow> upgrade_status \<Rightarrow> world \<Rightarrow> world \<times> upgrade_status \<times> bool \<times> bool \<times> string list" where
  "roll_gates e live r us w =
     (let part = roll_partition us live r in
      if kubernetes_settled live r part \<and> part < r then neo4j_gates e part us (roll_reported e live r w)
      else (roll_reported e live r w, us, False, False, []))"

lemma roll_with_parts:
  assumes "roll_gates e live r us w = (w3, us3, av, cu, lag)"
  shows "roll_with e live r us w = roll_act e live r (roll_partition us live r) us3 lag
    (planUpgradeRollStep (roll_observation live r (roll_partition us live r) av cu)) w3"
  unfolding roll_with_def Let_def roll_reported_def [unfolded Let_def, symmetric]
    roll_gates_def [unfolded Let_def, symmetric] assms by simp

lemma roll_reported_keeps [simp]:
  "clName (wMem (roll_reported e live r w)) = clName (wMem w)"
  "wSts (roll_reported e live r w) = wSts w"
  "core (wStored (roll_reported e live r w)) = core (wStored w)"
  "stUpgradeStatus (wMem (roll_reported e live r w)) = stUpgradeStatus (wMem w)"
  "stUpgradeStatus (wStored (roll_reported e live r w)) = stUpgradeStatus (wStored w)"
  by (simp_all add: roll_reported_def Let_def)

lemma roll_gates_keep:
  assumes "roll_gates e live r us w = (w3, us3, av, cu, lag)"
  shows "wSts w3 = wSts w" "core (wStored w3) = core (wStored w)"
proof -
  have "w3 = fst (roll_gates e live r us w)" using assms by simp
  then show "wSts w3 = wSts w" "core (wStored w3) = core (wStored w)"
    by (simp_all add: roll_gates_def Let_def neo4j_gates_sts core_gates)
qed

lemma neo4j_gates_verified:
  assumes "server_verified e (serverPodName (clName (wMem w)) part)"
    and "neo4j_gates e part us w = (w3, us3, av, cu, lag)"
  shows "av" "cu"
proof -
  let ?pod = "serverPodName (clName (wMem w)) part"
  have a: "fst (isServerAvailable e ?pod)"
    using assms(1) podServerAvailable_complete
    by (auto simp: server_verified_def isServerAvailable_def)
  have d: "\<exists>notReady. lastRolledDatabasesCaughtUp e ?pod = Some (True, notReady)"
    using assms(1)
    by (auto simp: server_verified_def lastRolledDatabasesCaughtUp_def prod_eq_iff)
  show "av" "cu"
    using assms(2) a d by (auto simp: neo4j_gates_def Let_def case_prod_beta)
qed

lemma roll_decision_open:
  assumes "step_verified e (clName (wMem w)) live r (roll_partition us live r)"
    and "roll_gates e live r us w = (w3, us3, av, cu, lag)"
  shows "roll_gates_open (roll_observation live r (roll_partition us live r) av cu)"
proof -
  let ?part = "roll_partition us live r"
  have k: "kubernetes_settled live r ?part" using assms(1) by (simp add: step_verified_def)
  have "av \<and> cu" if "?part < r"
  proof -
    have "server_verified e (serverPodName (clName (wMem (roll_reported e live r w))) ?part)"
      using assms(1) that by (simp add: step_verified_def)
    from neo4j_gates_verified [OF this] show ?thesis
      using assms(2) k that by (auto simp: roll_gates_def Let_def)
  qed
  then show ?thesis
    using k by (auto simp: roll_gates_open_def roll_observation_def kubernetes_settled_def)
qed

lemma roll_decision_closed:
  assumes "\<not> step_verified e (clName (wMem w)) live r (roll_partition us live r)"
    and "roll_gates e live r us w = (w3, us3, av, cu, lag)"
  shows "planUpgradeRollStep (roll_observation live r (roll_partition us live r) av cu) = rollWait"
proof -
  let ?part = "roll_partition us live r"
  have "\<not> roll_gates_open (roll_observation live r ?part av cu)"
  proof
    assume o: "roll_gates_open (roll_observation live r ?part av cu)"
    then have k: "kubernetes_settled live r ?part" and g: "?part < r \<Longrightarrow> av \<and> cu"
      by (auto simp: roll_gates_open_def roll_observation_def kubernetes_settled_def)
    have "server_verified e (serverPodName (clName (wMem w)) ?part)" if "?part < r"
      using neo4j_gates_open [of e ?part us "roll_reported e live r w" w3 us3 lag] assms(2) k g that
      by (simp add: roll_gates_def Let_def)
    then show False using assms(1) k by (simp add: step_verified_def)
  qed
  then show ?thesis by (simp add: planUpgradeRollStep_iff)
qed


section \<open>A step that gets nowhere stops at its deadline\<close>

text \<open>The record the step measures its deadline by keeps the start of the step.\<close>

lemma patched_mem_step:
  assumes "wMem w' = wMem (fst (patchUpgradeStatus now out (resolve_target v) w))"
    and "out = Written \<or> out = ReadFails"
    and "usStepStartTime (the_record (wMem w)) = t" "usStepStartTime (the_record (wStored w)) = t"
  shows "usStepStartTime (the_record (wMem w')) = t"
proof -
  have "usStepStartTime (resolve_target v us) = usStepStartTime us" for us
    by (simp add: resolve_target_def case_prod_beta)
  then show ?thesis
    using assms
    by (auto simp: patchUpgradeStatus_def case_prod_beta Let_def the_record_def patched_record
        split: option.splits)
qed

lemma roll_gates_deadline:
  assumes "roll_gates e live r us w = (w3, us3, av, cu, lag)" "us = the_record (wMem w)"
    and "eWriteResolved e = Written \<or> eWriteResolved e = ReadFails"
    and "usStepStartTime us = Some t" "usStepStartTime (the_record (wStored w)) = Some t"
  shows "usStepStartTime us3 = Some t"
proof -
  let ?w = "roll_reported e live r w"
  have m: "usStepStartTime (the_record (wMem ?w)) = Some t"
    "usStepStartTime (the_record (wStored ?w)) = Some t"
    using assms(2,4,5) by (simp_all add: the_record_def)
  have "us3 = fst (snd (roll_gates e live r us w))" using assms(1) by simp
  then show ?thesis
    using assms(3,4) patched_mem_step [OF refl assms(3) m]
    by (simp add: roll_gates_def neo4j_gates_def Let_def case_prod_beta split: option.splits)
qed

lemma held_iff_phase: "upgradeHeld cl \<longleftrightarrow> phase_of cl \<in> {upgradePhasePaused, upgradePhaseFailed}"
  by (cases "stUpgradeStatus cl")
    (auto simp: upgradeHeld_def phase_of_def the_record_def empty_upgrade_status_def upgrade_phases)

lemma failUpgrade_held:
  assumes "eWriteRecord e = Written"
  shows "phase_of (wStored (fst (failUpgrade e c p w))) = pause_phase (wMem w)"
    "upgradeHeld (wStored (fst (failUpgrade e c p w)))"
  using assms pause_phase_cases [of "wMem w"] by (simp_all add: held_iff_phase fail_phase)

lemma patch_strategy [simp]:
  "specUpgradeStrategy (wMem (fst (patchUpgradeStatus now out m w))) = specUpgradeStrategy (wMem w)"
  by (simp add: patchUpgradeStatus_def case_prod_beta Let_def split: write_outcome.splits)

lemma roll_gates_strategy:
  assumes "roll_gates e live r us w = (w3, us3, av, cu, lag)"
  shows "specUpgradeStrategy (wMem w3) = specUpgradeStrategy (wMem w)"
proof -
  have t: "specUpgradeStrategy (wMem (roll_reported e live r w)) = specUpgradeStrategy (wMem w)"
    by (auto simp: roll_reported_def reportTopologyDeferral_def writeTopologyDeferral_def Let_def
        split: prod.splits write_outcome.splits)
  have "w3 = fst (roll_gates e live r us w)" using assms by simp
  then show ?thesis
    by (simp add: roll_gates_def neo4j_gates_def Let_def case_prod_beta t split: option.splits)
qed

lemma strategy_fields:
  assumes "specUpgradeStrategy c = specUpgradeStrategy d"
  shows "getUpgradeTimeout c = getUpgradeTimeout d" "pause_phase c = pause_phase d"
  using assms by (simp_all add: getUpgradeTimeout_def pause_phase_def autoPauseOnFailure_def)

text \<open>
  C33: a Rolling step past its deadline whose gates are still closed stops the upgrade: the
  stored record turns Paused (with autoPauseOnFailure) or Failed, and the StatefulSet keeps
  the partition, so no server the walk has not reached restarts.
\<close>

theorem rolling_stops_at_deadline:
  assumes "wSts w = Some live" "stsReplicas live = Some r" "r \<noteq> 0" "\<not> eStsReadFails e"
    and "\<not> step_verified e (clName (wMem w)) live r (roll_partition (the_record (wMem w)) live r)"
    and "wMem w = wStored w" "usStepStartTime (the_record (wStored w)) = Some t"
    and "eNow e > t + getUpgradeTimeout (wMem w)"
    and "eWriteRecord e = Written" "eWriteResolved e = Written \<or> eWriteResolved e = ReadFails"
  shows "phase_of (wStored (fst (stepUpgradeRolling e w))) = pause_phase (wMem w) \<and>
    upgradeHeld (wStored (fst (stepUpgradeRolling e w))) \<and> wSts (fst (stepUpgradeRolling e w)) = wSts w"
proof -
  define w1 where "w1 = recordStartedTarget (eCachedPods e) (eWriteStarted e) w"
  let ?us = "the_record (wMem w1)"
  have keep: "wSts w1 = wSts w" "clName (wMem w1) = clName (wMem w)"
    "specUpgradeStrategy (wMem w1) = specUpgradeStrategy (wMem w)"
    "usStepStartTime ?us = Some t" "roll_partition ?us live r = roll_partition (the_record (wMem w)) live r"
    using assms(6,7) by (simp_all add: w1_def roll_partition_def)
  have st: "usStepStartTime (the_record (wStored w1)) = Some t"
    using recordStarted_stored [of "eCachedPods e" "eWriteStarted e" w] assms(7)
    unfolding w1_def by (auto simp: the_record_def)
  obtain w3 us3 av cu lag where g: "roll_gates e live r ?us w1 = (w3, us3, av, cu, lag)"
    by (metis prod_cases5)
  have dec: "planUpgradeRollStep (roll_observation live r (roll_partition ?us live r) av cu) = rollWait"
    using roll_decision_closed [OF _ g] assms(5) keep by simp
  have start: "usStepStartTime us3 = Some t"
    using roll_gates_deadline [OF g refl assms(10) keep(4) st] .
  have "specUpgradeStrategy (wMem w3) = specUpgradeStrategy (wMem w)"
    using roll_gates_strategy [OF g] keep(3) by simp
  from strategy_fields [OF this] have mem3: "getUpgradeTimeout (wMem w3) = getUpgradeTimeout (wMem w)"
    "pause_phase (wMem w3) = pause_phase (wMem w)" .
  have "readSts e w1 = Found live" using assms(1,4) keep(1) by (simp add: readSts_def)
  then have "stepUpgradeRolling e w = roll_with e live r ?us w1"
    using assms(2,3) by (simp add: stepUpgradeRolling_def Let_def w1_def [symmetric])
  then have "\<exists>cause. stepUpgradeRolling e w = failUpgrade e cause id w3"
    using assms(8) start mem3(1)
    by (auto simp: roll_with_parts [OF g] dec roll_act_def upgradeStepDeadlineExceeded_def)
  then obtain cause where "stepUpgradeRolling e w = failUpgrade e cause id w3" ..
  then show ?thesis
    using failUpgrade_held [OF assms(9), of cause id w3] mem3(2) roll_gates_keep(1) [OF g] keep(1)
    by simp
qed


theorem rolling_stops_at_deadline_witness:
  "upgradeHeld (wStored (fst (stepUpgradeRolling ((healthy_env (120 * minute))\<lparr>eServers := None\<rparr>)
     (rolling_world 2))))"
proof -
  let ?e = "(healthy_env (120 * minute))\<lparr>eServers := None\<rparr>"
  let ?w = "rolling_world 2" and ?live = "sts3 ''neo4j:2026.09.0-enterprise'' 2"
  have sts: "wSts ?w = Some ?live" "stsReplicas ?live = Some 3" "wMem ?w = wStored ?w"
    by (simp_all add: rolling_world_def world_of_def sts3_def)
  have closed: "\<not> step_verified ?e (clName (wMem ?w)) ?live 3 (roll_partition (the_record (wMem ?w)) ?live 3)"
  proof -
    have "roll_partition (the_record (wMem ?w)) ?live 3 = 2"
      by (simp add: rolling_world_def rolling_cluster_def world_of_def roll_partition_def the_record_def)
    then show ?thesis by (simp add: step_verified_def server_verified_def)
  qed
  have t: "usStepStartTime (the_record (wStored ?w)) = Some 0" by code_simp
  have d: "eNow ?e > 0 + getUpgradeTimeout (wMem ?w)" by code_simp
  show ?thesis
    using rolling_stops_at_deadline [OF sts(1,2) _ _ closed sts(3) t d] by (simp add: healthy_env_def)
qed

section \<open>An upgrade whose servers come back completes\<close>

text \<open>
  A pass that reads and writes what it asks for, with the partition at \<open>p\<close>: the one server it
  asks Neo4j about, the last it released, is back and its databases have caught up. Nothing is
  said of the servers below the partition, which still run the old version.
\<close>

definition answered :: "env \<Rightarrow> string \<Rightarrow> int \<Rightarrow> int \<Rightarrow> bool" where
  "answered e cname r p \<longleftrightarrow> \<not> eStsReadFails e \<and> \<not> eStoredReadFails e \<and> eUpdateSts e = StsUpdated \<and>
     eWriteRecord e = Written \<and> (p < r \<longrightarrow> server_verified e (serverPodName cname p))"

text \<open>What the Stabilizing pass asks for, and what the Verifying pass is shown.\<close>

definition stable :: "env \<Rightarrow> bool" where
  "stable e \<longleftrightarrow> eClusterHealthy e = Some True \<and> eConsensus e = Some True \<and> eReplication e = Some True"

definition on_target :: "env \<Rightarrow> string \<Rightarrow> bool" where
  "on_target e tag \<longleftrightarrow> (\<exists>servers. eServers e = Some servers \<and>
     (\<exists>s\<in>set servers. srvState s = ''Enabled'') \<and>
     (\<forall>s\<in>set servers. srvState s = ''Enabled'' \<longrightarrow> reports_target (srvVersion s) tag))"

text \<open>
  Between two passes the StatefulSet controller rolls the servers the partition releases and
  they come Ready; the next pass reads the stored cluster.
\<close>

definition sts_settled :: "stateful_set \<Rightarrow> stateful_set" where
  "sts_settled s = s\<lparr>stsObservedGeneration := stsGeneration s,
     stsUpdatedReplicas := (case stsReplicas s of None \<Rightarrow> 1 | Some r \<Rightarrow> r) - eff_partition s,
     stsReadyReplicas := (case stsReplicas s of None \<Rightarrow> 1 | Some r \<Rightarrow> r)\<rparr>"

definition next_pass :: "(world \<Rightarrow> world) \<Rightarrow> env \<Rightarrow> world \<Rightarrow> world" where
  "next_pass drain e w = (let w' = fst (handleRollingUpgrade drain e w) in
     w'\<lparr>wMem := wStored w', wSts := map_option sts_settled (wSts w')\<rparr>)"

primrec passes :: "(world \<Rightarrow> world) \<Rightarrow> (nat \<Rightarrow> env) \<Rightarrow> nat \<Rightarrow> world \<Rightarrow> world" where
  "passes drain es 0 w = w"
| "passes drain es (Suc n) w = passes drain (\<lambda>k. es (Suc k)) n (next_pass drain (es 0) w)"

lemma passes_add: "passes drain es (n + m) w = passes drain (\<lambda>k. es (n + k)) m (passes drain es n w)"
  by (induction n arbitrary: es w) simp_all

text \<open>The upgrade is in \<open>phase\<close> with the partition at \<open>p\<close>, and the pass reads what is stored.\<close>

definition at_phase :: "string \<Rightarrow> string \<Rightarrow> int \<Rightarrow> string \<Rightarrow> int \<Rightarrow> world \<Rightarrow> bool" where
  "at_phase phase cname r tag p w \<longleftrightarrow> wMem w = wStored w \<and>
     core (wStored w) = (phase, tag, Some p, tag, cname) \<and>
     (\<exists>live. wSts w = Some live \<and> stsReplicas live = Some r \<and> eff_partition live = p \<and>
        kubernetes_settled live r p)"

lemma at_phaseD:
  assumes "at_phase phase cname r tag p w"
  shows "phase_of (wMem w) = phase" "usTargetVersion (the_record (wMem w)) = tag"
    "usCurrentPartition (the_record (wMem w)) = Some p" "specImageTag (wMem w) = tag"
    "clName (wMem w) = cname" "wStored w = wMem w"
  using assms by (simp_all add: at_phase_def core_def)

text \<open>A landed patch that keeps the target takes the stored core along.\<close>

lemma core_patch_at:
  assumes "core (wStored v) = (ph, tag, p, img, cname)"
    and "\<And>us. usPhase us = ph \<Longrightarrow> usTargetVersion us = tag \<Longrightarrow> usCurrentPartition us = p \<Longrightarrow>
      usPhase (m us) = ph' \<and> usTargetVersion (m us) = tag \<and> usCurrentPartition (m us) = p'"
  shows "core (wStored (fst (patchUpgradeStatus now Written m v))) = (ph', tag, p', img, cname)"
proof -
  have "usPhase (the_record (wStored v)) = ph" "usTargetVersion (the_record (wStored v)) = tag"
    "usCurrentPartition (the_record (wStored v)) = p" "specImageTag (wStored v) = img" "clName (wStored v) = cname"
    using assms(1) by (simp_all add: core_def phase_of_def)
  then show ?thesis using assms(2) [of "the_record (wStored v)"] unfolding core_patch by (simp add: Let_def)
qed

lemma handle_goes_on:
  assumes "at_phase phase cname r tag p w" "\<not> eStoredReadFails e"
  shows "phase = upgradePhaseRolling \<Longrightarrow> handleRollingUpgrade drain e w = stepUpgradeRolling e w"
    "phase = upgradePhaseStabilizing \<Longrightarrow> handleRollingUpgrade drain e w = stepUpgradeStabilizing e w"
    "phase = upgradePhaseVerifying \<Longrightarrow> handleRollingUpgrade drain e w = stepUpgradeVerifying e w"
proof -
  note d = at_phaseD [OF assms(1)]
  have ph: "(case stUpgradeStatus (wMem w) of None \<Rightarrow> [] | Some us \<Rightarrow> usPhase us) = phase"
    using d(1) by (simp add: phase_of_def the_record_def empty_upgrade_status_def split: option.splits)
  have "\<not> upgradeRecordMovedOn (wMem w) (readStored e w)" if "phase \<noteq> []"
    using that ph assms(2) d(6)
    by (auto simp: upgradeRecordMovedOn_def readStored_def samePartition_def split: option.splits)
  then show "phase = upgradePhaseRolling \<Longrightarrow> handleRollingUpgrade drain e w = stepUpgradeRolling e w"
    "phase = upgradePhaseStabilizing \<Longrightarrow> handleRollingUpgrade drain e w = stepUpgradeStabilizing e w"
    "phase = upgradePhaseVerifying \<Longrightarrow> handleRollingUpgrade drain e w = stepUpgradeVerifying e w"
    using d(2,4) unfolding handleRollingUpgrade_def Let_def ph by (simp_all add: upgrade_phases)
qed

lemma next_pass_at_phase:
  assumes "core (wStored (fst (handleRollingUpgrade drain e w))) = (phase, tag, Some p, tag, cname)"
    and "wSts (fst (handleRollingUpgrade drain e w)) = Some live" "stsReplicas live = Some r"
    and "eff_partition live = p"
  shows "at_phase phase cname r tag p (next_pass drain e w)"
  using assms
  by (simp add: at_phase_def next_pass_def Let_def sts_settled_def kubernetes_settled_def eff_partition_def)

lemma rolling_open:
  assumes "at_phase upgradePhaseRolling cname r tag p w" "answered e cname r p" "0 \<le> p" "p \<le> r" "0 < r"
  shows "\<exists>live w3 us3 lag. wSts w = Some live \<and> stsReplicas live = Some r \<and> eff_partition live = p \<and>
    wSts w3 = wSts w \<and> core (wStored w3) = core (wStored w) \<and>
    stepUpgradeRolling e w = roll_act e live r p us3 lag (if p = 0 then rollDone else rollLower) w3"
proof -
  define w1 where "w1 = recordStartedTarget (eCachedPods e) (eWriteStarted e) w"
  let ?us = "the_record (wMem w1)"
  from assms(1) obtain live where live: "wSts w = Some live" "stsReplicas live = Some r"
    "eff_partition live = p" "kubernetes_settled live r p" by (auto simp: at_phase_def)
  have keep: "wSts w1 = wSts w" "clName (wMem w1) = cname" "roll_partition ?us live r = p"
    "core (wStored w1) = core (wStored w)"
    using at_phaseD [OF assms(1)] by (simp_all add: w1_def roll_partition_def)
  obtain w3 us3 av cu lag where g: "roll_gates e live r ?us w1 = (w3, us3, av, cu, lag)"
    by (metis prod_cases5)
  have "step_verified e (clName (wMem w1)) live r (roll_partition ?us live r)"
    using assms(2,3) live(4) keep by (simp add: step_verified_def answered_def)
  from roll_decision_open [OF this g]
  have dec: "planUpgradeRollStep (roll_observation live r p av cu) = (if p = 0 then rollDone else rollLower)"
    unfolding keep(3) by (auto simp: planUpgradeRollStep_iff roll_observation_def)
  have "readSts e w1 = Found live" using live(1) keep(1) assms(2) by (simp add: readSts_def answered_def)
  then have "stepUpgradeRolling e w = roll_with e live r ?us w1"
    using live(2) assms(5) by (simp add: stepUpgradeRolling_def Let_def w1_def [symmetric])
  then show ?thesis
    using roll_with_parts [OF g] dec roll_gates_keep [OF g] keep live by auto
qed

lemma next_pass_lowers:
  assumes "at_phase upgradePhaseRolling cname r tag p w" "answered e cname r p" "0 < p" "p \<le> r"
  shows "at_phase upgradePhaseRolling cname r tag (p - 1) (next_pass drain e w)"
proof -
  obtain live w3 us3 lag where l: "stsReplicas live = Some r" "core (wStored w3) = core (wStored w)"
    "stepUpgradeRolling e w = roll_act e live r p us3 lag rollLower w3"
    using rolling_open [OF assms(1,2)] assms(3,4) by auto
  have w: "eWriteRecord e = Written" "eUpdateSts e = StsUpdated" "\<not> eStoredReadFails e"
    using assms(2) by (simp_all add: answered_def)
  note h = handle_goes_on(1) [OF assms(1) w(3) refl, of drain]
  show ?thesis
  proof (rule next_pass_at_phase)
    show "core (wStored (fst (handleRollingUpgrade drain e w))) =
        (upgradePhaseRolling, tag, Some (p - 1), tag, cname)"
      using l(2) assms(1) w unfolding h l(3) at_phase_def
      by (simp add: roll_act_def Let_def roll_lowered_def core_patch_at
          [where ph = upgradePhaseRolling and p = "Some p"])
    show "wSts (fst (handleRollingUpgrade drain e w)) =
        Some (spec_written live (live\<lparr>stsPartition := Some (p - 1)\<rparr>))"
      using w unfolding h l(3) by (simp add: roll_act_def Let_def)
  qed (simp_all add: l eff_partition_def)
qed

lemma next_pass_rolled:
  assumes "at_phase upgradePhaseRolling cname r tag 0 w" "answered e cname r 0" "0 < r"
  shows "at_phase upgradePhaseStabilizing cname r tag 0 (next_pass drain e w)"
proof -
  obtain live w3 us3 lag where l: "wSts w = Some live" "stsReplicas live = Some r" "eff_partition live = 0"
    "wSts w3 = wSts w" "core (wStored w3) = core (wStored w)"
    "stepUpgradeRolling e w = roll_act e live r 0 us3 lag rollDone w3"
    using rolling_open [OF assms(1,2)] assms(3) by auto
  have w: "eWriteRecord e = Written" "\<not> eStoredReadFails e" using assms(2) by (simp_all add: answered_def)
  note h = handle_goes_on(1) [OF assms(1) w(2) refl, of drain]
  show ?thesis
    by (rule next_pass_at_phase)
      (use l(1-5) w(1) assms(1) in \<open>simp_all add: h l(6) roll_act_def roll_done_def at_phase_def
         core_patch_at [where ph = upgradePhaseRolling and p = "Some 0"]\<close>)
qed

lemma next_pass_stable:
  assumes "at_phase upgradePhaseStabilizing cname r tag 0 w" "answered e cname r 0" "stable e" "0 < r"
  shows "at_phase upgradePhaseVerifying cname r tag 0 (next_pass drain e w)"
proof -
  from assms(1) obtain live where l: "wSts w = Some live" "stsReplicas live = Some r" "eff_partition live = 0"
    by (auto simp: at_phase_def)
  have w: "eWriteRecord e = Written" "\<not> eStoredReadFails e" "eClientError e = None"
    "eClusterHealthy e = Some True" "eConsensus e = Some True" "eReplication e = Some True"
    using assms(2-4) by (simp_all add: answered_def stable_def server_verified_def)
  note h = handle_goes_on(2) [OF assms(1) w(2) refl, of drain]
  have "\<exists>step. stepUpgradeStabilizing e w = transitionToVerifying e step w"
    using w(3-6) by (auto simp: stepUpgradeStabilizing_def Let_def)
  then obtain step where s: "stepUpgradeStabilizing e w = transitionToVerifying e step w" ..
  show ?thesis
    by (rule next_pass_at_phase)
      (use l w(1) assms(1) in \<open>simp_all add: h s transitionToVerifying_def at_phase_def
         core_patch_at [where ph = upgradePhaseStabilizing and p = "Some 0"]\<close>)
qed

lemma on_target_verifies:
  assumes "on_target e tag" "tag \<noteq> []" "specImageTag cl = tag"
  shows "\<exists>reported. verifyVersionUpgrade cl (eServers e) = Inr reported"
proof -
  from assms(1) obtain servers s where s: "eServers e = Some servers" "s \<in> set servers" "srvState s = ''Enabled''"
    "\<forall>s\<in>set servers. srvState s = ''Enabled'' \<longrightarrow> reports_target (srvVersion s) tag"
    by (auto simp: on_target_def)
  have "fst (versionMismatchesFromServers servers tag) = []"
    using s(4) by (simp add: versionMismatches_Nil reports_target_iff)
  moreover have "snd (versionMismatchesFromServers servers tag) \<noteq> 0"
    using s(2,3) by (auto simp: versionMismatches_count filter_empty_conv)
  ultimately show ?thesis
    using assms(2,3) s(1) by (simp add: verifyVersionUpgrade_def Let_def case_prod_beta)
qed

lemma complete_written:
  assumes "eWriteRecord e = Written" "stUpgradeStatus (wStored w) \<noteq> None" "stUpgradeStatus (wMem w) \<noteq> None"
  shows "phase_of (wStored (fst (completeUpgrade e reported w))) = upgradePhaseCompleted"
proof -
  from assms(2) obtain us0 where us0: "stUpgradeStatus (wStored w) = Some us0" by blast
  have "phase_of (wStored (fst (updateUpgradeStatus (eNow e) Written upgradePhaseCompleted
      ''Rolling upgrade completed successfully'' [] reported w))) = upgradePhaseCompleted"
    using assms(3)
    by (auto simp: updateUpgradeStatus_def status_updated_Some [OF us0] phase_of_def the_record_def
        syncStalled_keeps case_prod_beta Let_def)
  then show ?thesis
    unfolding completeUpgrade_def assms(1) Let_def case_prod_beta
    by (simp add: updateClusterStatusWithVersion_def core_phase [OF core_write])
qed

lemma next_pass_completes:
  assumes "at_phase upgradePhaseVerifying cname r tag 0 w" "answered e cname r 0" "on_target e tag" "0 < r" "tag \<noteq> []"
  shows "phase_of (wStored (next_pass drain e w)) = upgradePhaseCompleted"
    "stVersion (wStored (next_pass drain e w)) = tag"
    "map_option eff_partition (wSts (next_pass drain e w)) = Some 0"
proof -
  note d = at_phaseD [OF assms(1)]
  have w: "eWriteRecord e = Written" "\<not> eStoredReadFails e" using assms(2) by (simp_all add: answered_def)
  have c: "eClientError e = None"
    using assms(2,4) by (auto simp: answered_def server_verified_def)
  note h = handle_goes_on(3) [OF assms(1) w(2) refl, of drain]
  obtain reported where v: "verifyVersionUpgrade (wMem w) (eServers e) = Inr reported"
    using on_target_verifies [OF assms(3,5) d(4)] ..
  have rec: "stUpgradeStatus (wStored w) \<noteq> None"
    using d(1,6) by (cases "stUpgradeStatus (wMem w)")
      (auto simp: phase_of_def the_record_def empty_upgrade_status_def upgrade_phases)
  have "phase_of (wStored (fst (stepUpgradeVerifying e w))) = upgradePhaseCompleted"
    using complete_written [OF w(1) rec rec [unfolded d(6)], of reported]
    by (simp add: stepUpgradeVerifying_def Let_def case_prod_beta c v)
  moreover from verifying_phases(2) [OF this]
  have "stVersion (wStored (fst (stepUpgradeVerifying e w))) = tag"
    using d(1,4,6) by (simp add: upgrade_phases)
  ultimately show "phase_of (wStored (next_pass drain e w)) = upgradePhaseCompleted"
    "stVersion (wStored (next_pass drain e w)) = tag"
    by (simp_all add: next_pass_def Let_def h)
  show "map_option eff_partition (wSts (next_pass drain e w)) = Some 0"
    using assms(1) by (auto simp: next_pass_def Let_def h at_phase_def sts_settled_def eff_partition_def)
qed

lemma passes_roll:
  assumes "at_phase upgradePhaseRolling cname r tag (int n) w" "int n \<le> r"
    and "\<forall>k<n. answered (es k) cname r (int (n - k))"
  shows "at_phase upgradePhaseRolling cname r tag 0 (passes drain es n w)"
  using assms
proof (induction n arbitrary: es w)
  case (Suc n)
  have "answered (es 0) cname r (int (Suc n))" using Suc.prems(3) by fastforce
  then have "at_phase upgradePhaseRolling cname r tag (int (Suc n) - 1) (next_pass drain (es 0) w)"
    using Suc.prems(1,2) by (intro next_pass_lowers) auto
  moreover have "\<forall>k<n. answered (es (Suc k)) cname r (int (n - k))" using Suc.prems(3) by fastforce
  ultimately show ?case using Suc.IH [of _ "\<lambda>k. es (Suc k)"] Suc.prems(2) by simp
qed simp

text \<open>
  C3: an upgrade in the Rolling phase with the partition at n, whose servers come back one by
  one, completes: when every pass reads and writes what it asks for and finds the server at
  its partition back and caught up (n, then n - 1, down to 0; the servers below it may still
  report the old version), when the pass after the roll finds the cluster healthy and
  replicating, and the one after that is shown every Enabled server on the target, the record
  is Completed after n + 3 passes, with the partition at 0 and the version of the cluster the
  target, whatever the scale-down drain would do. Between two passes the StatefulSet
  controller has rolled what the partition releases.
\<close>

theorem rolling_upgrade_completes:
  assumes "at_phase upgradePhaseRolling cname r tag (int n) w" "int n \<le> r" "0 < r" "tag \<noteq> []"
    and "\<forall>k<n + 3. answered (es k) cname r (int (n - k))"
    and "stable (es (n + 1))" "on_target (es (n + 2)) tag"
  shows "phase_of (wStored (passes drain es (n + 3) w)) = upgradePhaseCompleted \<and>
    stVersion (wStored (passes drain es (n + 3) w)) = tag \<and>
    map_option eff_partition (wSts (passes drain es (n + 3) w)) = Some 0"
proof -
  define w1 where "w1 = passes drain es n w"
  define w2 where "w2 = next_pass drain (es n) w1"
  define w3 where "w3 = next_pass drain (es (n + 1)) w2"
  have a: "answered (es (n + i)) cname r 0" if "i < 3" for i
    using assms(5) [rule_format, of "n + i"] that by simp
  have "\<forall>k<n. answered (es k) cname r (int (n - k))" using assms(5) trans_less_add1 by blast
  then have "at_phase upgradePhaseRolling cname r tag 0 w1"
    unfolding w1_def by (rule passes_roll [OF assms(1,2)])
  then have "at_phase upgradePhaseStabilizing cname r tag 0 w2"
    unfolding w2_def using assms(3) a [of 0] by (auto intro: next_pass_rolled)
  then have "at_phase upgradePhaseVerifying cname r tag 0 w3"
    unfolding w3_def using assms(3,6) a [of 1] by (auto intro: next_pass_stable)
  note fin = next_pass_completes [OF this a [of 2] assms(7,3,4), of drain]
  have "passes drain es (n + 3) w = next_pass drain (es (n + 2)) w3"
    unfolding passes_add [of _ _ n 3] w1_def w2_def w3_def by (simp add: numeral_3_eq_3)
  then show ?thesis using fin by simp
qed

text \<open>The servers of a roll: those below the partition still report the version they come from.\<close>

definition roll_env :: "int \<Rightarrow> env" where
  "roll_env p = (healthy_env 0)\<lparr>eServers := Some (map (\<lambda>i.
     if i < p then (server_of i)\<lparr>srvVersion := ''2026.08.0''\<rparr> else server_of i) [0, 1, 2])\<rparr>"

lemma roll_env_answered:
  assumes "0 \<le> p" "p \<le> 3"
  shows "answered (roll_env p) ''c'' 3 p"
proof -
  have rows: "\<forall>p\<in>set [0, 1, 2]. \<exists>s\<in>set (the (eServers (roll_env p))).
      addressIsPod (srvAddress s) (serverPodName ''c'' p) \<and> serverServes s" by code_simp
  have env: "eServers (roll_env p) = Some (the (eServers (roll_env p)))" "eClientError (roll_env p) = None"
    "eDatabases (roll_env p) pod = Some ([], [])" "\<not> eStsReadFails (roll_env p)"
    "\<not> eStoredReadFails (roll_env p)" "eUpdateSts (roll_env p) = StsUpdated"
    "eWriteRecord (roll_env p) = Written" for pod
    by (simp_all add: roll_env_def healthy_env_def)
  have gate: "fst (evaluateDatabaseGate pod [] [])" for pod by (simp add: evaluateDatabaseGate_def Let_def)
  have "server_verified (roll_env p) (serverPodName ''c'' p)" if "p < 3"
  proof -
    have "p \<in> set [0, 1, 2]" using that assms by auto
    then show ?thesis unfolding server_verified_def using rows env(1-3) gate by blast
  qed
  then show ?thesis unfolding answered_def using env(4-7) by blast
qed

theorem rolling_upgrade_completes_witness:
  "\<not> on_target (roll_env 2) ''2026.09.0-enterprise'' \<and>
   phase_of (wStored (passes (\<lambda>w. w) (\<lambda>k. roll_env (int (3 - k))) 6 (rolling_world 3))) =
     upgradePhaseCompleted"
proof
  have "\<exists>s\<in>set (the (eServers (roll_env 2))). srvState s = ''Enabled'' \<and>
      \<not> versionsMatch (srvVersion s) ''2026.09.0-enterprise''" by code_simp
  then show "\<not> on_target (roll_env 2) ''2026.09.0-enterprise''"
    by (auto simp: on_target_def reports_target_iff)
  have start: "at_phase upgradePhaseRolling ''c'' 3 ''2026.09.0-enterprise'' (int 3) (rolling_world 3)"
    by (simp add: at_phase_def rolling_world_def rolling_cluster_def world_of_def core_def phase_of_def
        the_record_def new_cluster_def sts3_def eff_partition_def kubernetes_settled_def)
  have "\<forall>s\<in>set (the (eServers (roll_env 0))). srvState s = ''Enabled'' \<and> srvVersion s \<noteq> [] \<and>
      versionsMatch (srvVersion s) ''2026.09.0-enterprise''" by code_simp
  then have "on_target (roll_env 0) ''2026.09.0-enterprise''"
    by (auto simp: on_target_def reports_target_iff roll_env_def)
  moreover have "stable (roll_env 0)" by (simp add: stable_def roll_env_def healthy_env_def)
  moreover have "\<forall>k<3 + 3. answered (roll_env (int (3 - k))) ''c'' 3 (int (3 - k))"
    using roll_env_answered by simp
  ultimately show "phase_of (wStored (passes (\<lambda>w. w) (\<lambda>k. roll_env (int (3 - k))) 6 (rolling_world 3))) =
      upgradePhaseCompleted"
    using rolling_upgrade_completes [OF start, of "\<lambda>k. roll_env (int (3 - k))" "\<lambda>w. w"] by simp
qed

end
