(* ===== verification/Cluster_Pass.thy ===== *)
theory Cluster_Pass
  imports Scale_Down_Safety Upgrade_Progress
begin

text \<open>
  The components together: the upgrade machine with the model's own scale-down drain in the
  place of the drain it advances, and the part of the normal pass of
  \<^verbatim>\<open>neo4jenterprisecluster_controller.go\<close> in which the drain runs before the StatefulSet is
  applied.
\<close>

section \<open>The model\<close>

text \<open>The handler of a pass, with the drain's environment beside its own.\<close>

definition handle :: "drain_env \<Rightarrow> env \<Rightarrow> world \<Rightarrow> world" where
  "handle d e w = fst (handleRollingUpgrade (\<lambda>w. fst (reconcileScaleDownDrain d w)) e w)"

text \<open>
  The StatefulSet is built from the spec, the drain runs, and the apply reads the StatefulSet
  again with the cluster the drain left in memory as its owner.
\<close>

definition drain_and_apply :: "drain_env \<Rightarrow> bool \<Rightarrow> held_template \<Rightarrow> world \<Rightarrow> world" where
  "drain_and_apply d other_change held w =
     (let built = buildServerStatefulSet (wMem w);
          w1 = fst (reconcileScaleDownDrain d w)
      in case wSts w1 of
           None \<Rightarrow> w1\<lparr>wSts := Some built\<rparr>
         | Some live \<Rightarrow> w1\<lparr>wSts := Some (spec_written live
             (applyServerStatefulSet (wMem w1) other_change held built live))\<rparr>)"


text \<open>The count the apply writes: what the spec asks for, unless a restore or a drain holds it.\<close>

lemma drain_and_apply_replicas:
  assumes "wSts w = Some live" "wSts (drain_and_apply d oc held w) = Some new"
  shows "stsReplicas new =
    (let w1 = fst (reconcileScaleDownDrain d w) in
     if restorePending live = None \<and> \<not> replicasReconciliationPaused (wMem w1) \<and> \<not> scaleDownDrainInProgress (wMem w1)
     then Some (specServers (wMem w)) else stsReplicas live)"
  using assms scale_down.drain_sts [of d w]
  by (auto simp: drain_and_apply_def Let_def applyServerStatefulSet_def buildServerStatefulSet_def)


section \<open>The upgrade\<close>

text \<open>
  C1: outside Staging, a pass of the upgrade machine changes the server StatefulSet only by
  lowering its partition by one ordinal, from the one the stored record names, while the stored
  record is Rolling. By then the StatefulSet controller has caught up with the StatefulSet, all its
  servers are Ready and as many as the partition releases are on the new template; and where a
  server is released, the one at the partition, the last one to be, serves in Neo4j with every
  database copy of it caught up. Neo4j is asked about no other server.
\<close>

theorem upgrade_walks_one_verified_server_at_a_time:
  assumes "phase_of (wMem w) \<noteq> upgradePhaseStaging" "wSts (handle d e w) \<noteq> wSts w"
  shows "\<exists>live r. wSts w = Some live \<and> stsReplicas live = Some r \<and>
    phase_of (wStored w) = upgradePhaseRolling \<and>
    (let part = roll_partition (the_record (wStored w)) live r in
      part \<noteq> 0 \<and> step_verified e (clName (wMem w)) live r part \<and>
      wSts (handle d e w) = Some (spec_written live (live\<lparr>stsPartition := Some (part - 1)\<rparr>)))"
  using scale_down.handle_walk [of w d e] assms by (simp add: handle_def)

theorem upgrade_walks_witness:
  "step_verified (healthy_env 5) ''c'' (sts3 ''neo4j:2026.09.0-enterprise'' 2) 3 2"
proof -
  let ?w = "rolling_world 2" and ?d = "drain_env5 3 []"
  have "map_option eff_partition (wSts (handle ?d (healthy_env 5) ?w)) = Some 1"
    "map_option eff_partition (wSts ?w) = Some 2" by code_simp+
  then have m: "wSts (handle ?d (healthy_env 5) ?w) \<noteq> wSts ?w" by force
  have p: "phase_of (wMem ?w) \<noteq> upgradePhaseStaging" by code_simp
  show ?thesis
    using upgrade_walks_one_verified_server_at_a_time [OF p m]
    by (simp add: rolling_world_def rolling_cluster_def world_of_def sts3_def roll_partition_def the_record_def
        Let_def new_cluster_def)
qed

text \<open>
  No pass of the upgrade machine changes the number of servers, whatever
  \<^verbatim>\<open>spec.topology.servers\<close> says.
\<close>

theorem upgrade_keeps_the_server_count:
  assumes "wSts w = Some live"
  shows "map_option stsReplicas (wSts (handle d e w)) = Some (stsReplicas live)"
  using scale_down.handle_keeps_replicas [OF assms, of d e] by (auto simp: handle_def)

theorem upgrade_keeps_the_server_count_witness:
  "map_option stsReplicas (wSts (handle (drain_env5 3 []) (healthy_env 5) (rolling_world 2))) = Some (Some 3)"
proof -
  have s: "wSts (rolling_world 2) = Some (sts3 ''neo4j:2026.09.0-enterprise'' 2)"
    by (simp add: rolling_world_def world_of_def)
  show ?thesis using upgrade_keeps_the_server_count [OF s] by (simp add: sts3_def)
qed

text \<open>
  C5: in a pass whose uncached read of the stored cluster succeeds, with an upgrade record stored,
  the stored phase moves only one step forward, Staging, Rolling, Stabilizing, Verifying, Completed,
  or back to Staging (a new target, a restart), or stops as Paused or Failed; no such pass skips
  a phase. After a failed read a pass of Staging on an older copy can move a stored Verifying
  back to Rolling.
\<close>

theorem upgrade_phases_in_order:
  assumes "phase_of (wStored (handle d e w)) \<noteq> phase_of (wStored w)"
    and "\<not> eStoredReadFails e" "stUpgradeStatus (wStored w) \<noteq> None"
  shows "phase_of (wStored (handle d e w)) \<in> {upgradePhaseStaging, upgradePhasePaused, upgradePhaseFailed} \<or>
    (phase_of (wStored w), phase_of (wStored (handle d e w))) \<in> forward"
  using scale_down.handle_phases [of d e w] assms by (simp add: handle_def)

theorem upgrade_phases_in_order_witness:
  "phase_of (wStored (handle (drain_env5 3 []) (healthy_env 5) (rolling_world 0))) = upgradePhaseStabilizing"
proof -
  let ?w = "rolling_world 0" and ?w' = "handle (drain_env5 3 []) (healthy_env 5) (rolling_world 0)"
  have m: "phase_of (wStored ?w') \<noteq> phase_of (wStored ?w)" by code_simp
  have r: "\<not> eStoredReadFails (healthy_env 5)" by (simp add: healthy_env_def)
  have s: "stUpgradeStatus (wStored ?w) \<noteq> None" by (simp add: rolling_world_def world_of_def rolling_cluster_def)
  have n: "phase_of (wStored ?w') \<notin> {upgradePhaseStaging, upgradePhasePaused, upgradePhaseFailed}"
    and p: "phase_of (wStored ?w) = upgradePhaseRolling" by code_simp+
  have "(phase_of (wStored ?w), phase_of (wStored ?w')) \<in> forward"
    using upgrade_phases_in_order [OF m r s] n by blast
  then show ?thesis unfolding p by (auto simp: forward_def upgrade_phases)
qed

text \<open>
  C4: a pass records an upgrade as Completed only from the Verifying phase, for the target the
  spec still asks for, after SHOW SERVERS listed an Enabled server and every Enabled server it
  listed reports the target: its text, or a version of its line and, where it names a patch, of
  that patch. The version the pass then records as running is the target.
\<close>

theorem upgrade_completes_only_verified:
  assumes "phase_of (wStored (handle d e w)) = upgradePhaseCompleted"
    and "phase_of (wStored w) \<noteq> upgradePhaseCompleted"
  shows "phase_of (wStored w) = upgradePhaseVerifying \<and> eClientError e = None \<and>
    usTargetVersion (the_record (wStored w)) = specImageTag (wMem w) \<and>
    (\<exists>servers. eServers e = Some servers \<and> (\<exists>s\<in>set servers. srvState s = ''Enabled'') \<and>
       (\<forall>s\<in>set servers. srvState s = ''Enabled'' \<longrightarrow> reports_target (srvVersion s) (specImageTag (wMem w)))) \<and>
    stVersion (wStored (handle d e w)) = specImageTag (wMem w)"
proof -
  have c: "phase_of (wStored w) = upgradePhaseVerifying" "eClientError e = None"
    "usTargetVersion (the_record (wStored w)) = specImageTag (wMem w)"
    "\<exists>reported. verifyVersionUpgrade (wMem w) (eServers e) = Inr reported"
    "stVersion (wStored (handle d e w)) = specImageTag (wMem w)"
    using scale_down.handle_completed [of d e w] assms by (simp_all add: handle_def)
  from c(4) obtain reported where "verifyVersionUpgrade (wMem w) (eServers e) = Inr reported" ..
  from verified_servers [OF this] show ?thesis using c by blast
qed

definition verifying_world :: world where
  "verifying_world = world_of ((rolling_cluster 0)\<lparr>stUpgradeStatus := Some (empty_upgrade_status
     \<lparr>usPhase := upgradePhaseVerifying, usTargetVersion := ''2026.09.0-enterprise''\<rparr>)\<rparr>) None"

theorem upgrade_completes_only_verified_witness:
  "stVersion (wStored (handle (drain_env5 3 []) (healthy_env 5) verifying_world)) = ''2026.09.0-enterprise''"
proof -
  have c: "phase_of (wStored (handle (drain_env5 3 []) (healthy_env 5) verifying_world)) = upgradePhaseCompleted"
    and n: "phase_of (wStored verifying_world) \<noteq> upgradePhaseCompleted"
    and t: "specImageTag (wMem verifying_world) = ''2026.09.0-enterprise''" by code_simp+
  show ?thesis using upgrade_completes_only_verified [OF c n] t by simp
qed


section \<open>The server count\<close>

text \<open>
  C2: a pass that reads the StatefulSet lowers its server count only when Neo4j answered on
  that pass and every server it lists is dropped, or known to run in a pod the spec keeps.
\<close>

theorem servers_removed_only_after_their_drain:
  assumes "wSts w = Some live" "dSts d = Found live" "stsReplicas live = Some current"
    and "0 < specServers (wMem w)"
    and "\<forall>reported. dServers d = Some reported \<longrightarrow> listing_ok reported"
    and "wSts (drain_and_apply d oc held w) = Some new" "stsReplicas new = Some after'" "after' < current"
  shows "\<exists>reported. dServers d = Some reported \<and>
    (\<forall>s\<in>set (known_servers reported w). dropped s \<or>
       (\<exists>ord. serverOrdinal (clName (wMem w)) s = Some ord \<and> ord < specServers (wMem w)))"
proof -
  let ?w1 = "fst (reconcileScaleDownDrain d w)"
  have new: "stsReplicas new = (if restorePending live = None \<and> \<not> replicasReconciliationPaused (wMem ?w1) \<and>
        \<not> scaleDownDrainInProgress (wMem ?w1)
      then Some (specServers (wMem w)) else Some current)"
    using drain_and_apply_replicas [OF assms(1,6)] assms(3) by (simp add: Let_def)
  then have "\<not> scaleDownDrainInProgress (wMem ?w1)" "specServers (wMem w) < current"
    using assms(7,8) by (auto split: if_splits)
  from replicas_held [OF assms(2,3,4) this(2) assms(5) this(1)] show ?thesis .
qed

definition scaled_down_world :: "int \<Rightarrow> world" where
  "scaled_down_world servers = (draining_world servers)\<lparr>wSts :=
     Some ((sts3 ''neo4j:2026.09.0-enterprise'' 0)\<lparr>stsReplicas := Some 5\<rparr>)\<rparr>"

theorem servers_removed_only_after_their_drain_witness:
  "\<exists>ord. serverOrdinal ''c'' (drain_row 1 ''Enabled'') = Some ord \<and> ord < 3"
proof -
  let ?d = "drain_env5 5 (rows5 ''Dropped'')" and ?w = "scaled_down_world 3"
  let ?live = "(sts3 ''neo4j:2026.09.0-enterprise'' 0)\<lparr>stsReplicas := Some 5\<rparr>"
  have sts: "wSts ?w = Some ?live" "dSts ?d = Found ?live" "stsReplicas ?live = Some 5"
    by (simp_all add: scaled_down_world_def drain_env5_def)
  have d: "specServers (wMem ?w) = 3" "clName (wMem ?w) = ''c''" by code_simp+
  have r: "\<forall>reported. dServers ?d = Some reported \<longrightarrow> listing_ok reported"
    using rows5_ok by (simp add: drain_env5_def)
  have "map_option stsReplicas (wSts (drain_and_apply ?d False None ?w)) = Some (Some 3)" by code_simp
  then obtain new where n: "wSts (drain_and_apply ?d False None ?w) = Some new" "stsReplicas new = Some 3" by auto
  have k: "drain_row 1 ''Enabled'' \<in> set (known_servers (rows5 ''Dropped'') ?w)"
    "\<not> dropped (drain_row 1 ''Enabled'')" by code_simp+
  from servers_removed_only_after_their_drain [OF sts _ r n] d k show ?thesis
    by (simp add: drain_env5_def) blast
qed

definition undrained_world :: world where
  "undrained_world = world_of (new_cluster ''c'' ''neo4j'' ''2026.09.0-enterprise'' 3)
     (Some ((sts3 ''neo4j:2026.09.0-enterprise'' 0)\<lparr>stsReplicas := Some 5\<rparr>))"

text \<open>
  C40: a pass whose read of the StatefulSet fails in the drain while the apply reads and writes it,
  with no hold recorded before, sets the server count to the spec's with no statement sent to
  Neo4j: a lower count removes servers undrained. \<^verbatim>\<open>reconcileScaleDownDrain\<close> takes every read
  error for a StatefulSet that does not exist yet and engages no hold.
\<close>

theorem unread_statefulset_releases_servers:
  assumes "dSts d = ReadFailed" "wSts w = Some live" "restorePending live = None"
    and "\<not> scaleDownDrainInProgress (wMem w)" "\<not> replicasReconciliationPaused (wMem w)"
  shows "map_option stsReplicas (wSts (drain_and_apply d oc held w)) = Some (Some (specServers (wMem w))) \<and>
    issued w (drain_and_apply d oc held w) = []"
proof -
  have "reconcileScaleDownDrain d w = (w, True)"
    using assms(1) by (simp add: reconcileScaleDownDrain_def Let_def)
  then show ?thesis
    using assms(2-5) by (simp add: drain_and_apply_def Let_def applyServerStatefulSet_def
        buildServerStatefulSet_def issued_def)
qed

theorem unread_statefulset_releases_servers_witness:
  "map_option stsReplicas (wSts undrained_world) = Some (Some 5) \<and>
   map_option stsReplicas (wSts (drain_and_apply ((drain_env5 5 (rows5 ''Enabled''))\<lparr>dSts := ReadFailed\<rparr>)
     False None undrained_world)) = Some (Some 3)"
proof -
  let ?d = "(drain_env5 5 (rows5 ''Enabled''))\<lparr>dSts := ReadFailed\<rparr>"
  let ?live = "(sts3 ''neo4j:2026.09.0-enterprise'' 0)\<lparr>stsReplicas := Some 5\<rparr>"
  have w: "wSts undrained_world = Some ?live" "specServers (wMem undrained_world) = 3"
    by (simp_all add: undrained_world_def world_of_def new_cluster_def)
  have "restorePending ?live = None" by (simp add: restorePending_def sts3_def)
  moreover have "\<not> scaleDownDrainInProgress (wMem undrained_world)"
    "\<not> replicasReconciliationPaused (wMem undrained_world)" by code_simp+
  ultimately show ?thesis
    using unread_statefulset_releases_servers [of ?d undrained_world ?live False None] w by simp
qed

end
