(* ===== verification/Raise_Hold.thy ===== *)
theory Raise_Hold
  imports Cluster_Pass
begin

text \<open>
  \<^verbatim>\<open>src/internal/controller/raise_hold.go\<close> and \<^verbatim>\<open>holdTopologyChange\<close> of \<^verbatim>\<open>upgrade_topology.go\<close>:
  a raise of \<^verbatim>\<open>spec.topology.servers\<close> waits at the first ordinal that still has the pod, or a
  volume being reclaimed, of a server a scale-down removed; which kept pods run servers Neo4j has
  dropped; and what the holds of a stopped upgrade leave of the normal pass.

  What a read from the API server returns is an argument, an error as its text. A deletion
  timestamp is its RFC 3339 text.
\<close>

section \<open>The model\<close>

datatype 'a api_get = Got 'a | Absent | GetError string

record leftover_pod =
  lpName :: string
  lpDeletionTimestamp :: "string option"

record claim =
  pvcName :: string
  pvcDeleting :: bool
  pvcOwners :: "(string \<times> string) list"   \<comment> \<open>kind and name\<close>
  pvcFinalizers :: "string list"

record removedServerLeftover =
  leftOrdinal :: int
  leftPod :: "leftover_pod option"
  leftVolume :: "claim option"
  leftReadErr :: "string option"

record raise_env =
  reSts :: "stateful_set api_read"
  rePod :: "string \<Rightarrow> leftover_pod api_get"
  reClaim :: "string \<Rightarrow> claim api_get"
  reNow :: int
  reWrite :: write_outcome
  reNamespace :: string

definition raiseHoldPoll :: int where "raiseHoldPoll = 5 * 10 ^ 9"
definition removedServersGrace :: int where "removedServersGrace = 2 * 60 * 10 ^ 9"

definition dataVolumeName :: "string \<Rightarrow> int \<Rightarrow> string" where
  "dataVolumeName clusterName ordinal = ''data-'' @ serverPodName clusterName ordinal"

definition ownedByPod :: "claim \<Rightarrow> string \<Rightarrow> bool" where
  "ownedByPod pvc pod = list_ex (\<lambda>(kind, name). kind = ''Pod'' \<and> name = pod) (pvcOwners pvc)"

subsection \<open>What is left of a removed server\<close>

definition leftover_at :: "raise_env \<Rightarrow> string \<Rightarrow> int \<Rightarrow> removedServerLeftover" where
  "leftover_at e clusterName n =
     (let podName = serverPodName clusterName n;
          (pod, podErr) = (case rePod e podName of Got p \<Rightarrow> (Some p, None) | Absent \<Rightarrow> (None, None)
             | GetError err \<Rightarrow> (None, Some err));
          (volume, volErr) = (case reClaim e (dataVolumeName clusterName n) of
               Got c \<Rightarrow> (if pvcDeleting c \<or> ownedByPod c podName then Some c else None, None)
             | Absent \<Rightarrow> (None, None) | GetError err \<Rightarrow> (None, Some err))
      in \<lparr>leftOrdinal = n, leftPod = pod, leftVolume = volume,
          leftReadErr = (if podErr = None then volErr else podErr)\<rparr>)"

definition something_left :: "removedServerLeftover \<Rightarrow> bool" where
  "something_left l = (leftPod l \<noteq> None \<or> leftVolume l \<noteq> None \<or> leftReadErr l \<noteq> None)"

definition removedServerLeftovers :: "raise_env \<Rightarrow> string \<Rightarrow> int \<Rightarrow> int \<Rightarrow> removedServerLeftover list" where
  "removedServerLeftovers e clusterName replicas requested =
     filter something_left (map (leftover_at e clusterName) [replicas..requested - 1])"

subsection \<open>What is said about it\<close>

definition foreignFinalizers :: "claim \<Rightarrow> string list" where
  "foreignFinalizers pvc = sort (filter (\<lambda>f. f \<noteq> ''kubernetes.io/pvc-protection'') (pvcFinalizers pvc))"

definition leftoverNames :: "string \<Rightarrow> removedServerLeftover list \<Rightarrow> string" where
  "leftoverNames clusterName left = join '', '' (map (\<lambda>l. serverPodName clusterName (leftOrdinal l)) left)"

definition leftover_parts :: "string \<Rightarrow> removedServerLeftover \<Rightarrow> string list" where
  "leftover_parts clusterName l =
     (case leftPod l of None \<Rightarrow> []
      | Some p \<Rightarrow> [''pod '' @ lpName p @ '' '' @ (case lpDeletionTimestamp p of None \<Rightarrow> ''is still running''
            | Some t \<Rightarrow> ''is being deleted, due to stop by '' @ t)]) @
     (case leftVolume l of None \<Rightarrow> []
      | Some v \<Rightarrow> [''volume '' @ pvcName v @ '' '' @
          (if pvcDeleting v then ''is being deleted'' @
             (if foreignFinalizers v = [] then [] else '', held by '' @ join '', '' (foreignFinalizers v))
           else ''is owned by its removed pod and waits for the garbage collector'')]) @
     (case leftReadErr l of None \<Rightarrow> []
      | Some err \<Rightarrow> [serverPodName clusterName (leftOrdinal l) @ '' could not be read ('' @ err @ '')''])"

definition describeLeftovers :: "string \<Rightarrow> removedServerLeftover list \<Rightarrow> string" where
  "describeLeftovers clusterName left = join ''; '' (concat (map (leftover_parts clusterName) left))"

definition leftover_fix :: "string \<Rightarrow> removedServerLeftover \<Rightarrow> string list" where
  "leftover_fix namespace l =
     (case leftPod l of None \<Rightarrow> []
      | Some p \<Rightarrow> [''kubectl delete pod -n '' @ namespace @ '' '' @ lpName p @
          '' --grace-period=0 --force, if its node is gone'']) @
     (case leftVolume l of None \<Rightarrow> []
      | Some v \<Rightarrow>
          if pvcDeleting v \<and> foreignFinalizers v \<noteq> []
          then [''release '' @ pvcName v @ '' from '' @ join '', '' (foreignFinalizers v)]
          else if \<not> pvcDeleting v then [''kubectl delete pvc -n '' @ namespace @ '' '' @ pvcName v]
          else [])"

definition leftoverFixes :: "string \<Rightarrow> removedServerLeftover list \<Rightarrow> string list" where
  "leftoverFixes namespace left =
     (let fixes = concat (map (leftover_fix namespace) left)
      in if fixes = [] then [''kubectl get pod,pvc -n '' @ namespace @ '' shows what is left''] else fixes)"

definition addedServersLabel :: "int \<Rightarrow> int \<Rightarrow> string" where
  "addedServersLabel keep requested =
     (if requested - keep = 1 then ''server '' @ itoa keep
      else ''servers '' @ itoa keep @ ''-'' @ itoa (requested - 1))"

definition raiseHoldStuckMarker :: string where
  "raiseHoldStuckMarker = ''has not gone in''"

definition raiseHoldMessage ::
  "string \<Rightarrow> string \<Rightarrow> int \<Rightarrow> int \<Rightarrow> removedServerLeftover list \<Rightarrow> bool \<Rightarrow> string" where
  "raiseHoldMessage namespace clusterName requested keep left stuck =
     (let head = ''spec.topology.servers is '' @ itoa requested @ ''; the server StatefulSet keeps '' @
            itoa keep @ '' servers'';
          why = ''a server added on a removed server'' @ [CHR 0x27] @ ''s volume would start as the server Neo4j dropped, and could not rejoin''
      in if \<not> stuck then
           head @ '' until the pods and volumes of the servers a scale-down removed are gone ('' @
           leftoverNames clusterName left @ ''): '' @ why
         else
           head @ '': what is left of the servers a scale-down removed '' @ raiseHoldStuckMarker @ '' 2m0s: '' @
           describeLeftovers clusterName left @ ''. Remove it, and the servers are added with new identities: '' @
           join ''; '' (leftoverFixes namespace left) @ ''. Or set spec.topology.servers back to '' @ itoa keep)"

subsection \<open>The hold\<close>

text \<open>What \<^verbatim>\<open>writeTopologyDeferral\<close> returns: the condition as stored before, and whether it wrote.\<close>

definition topology_written ::
  "write_outcome \<Rightarrow> condition_status \<times> string \<times> string \<Rightarrow> world \<Rightarrow> condition option \<times> bool" where
  "topology_written outcome want w =
     (case want of (status, reason, message) \<Rightarrow>
      let have = findCondition (stConditions (wMem w)) ConditionTypeTopologyChangeDeferred in
      if have = None \<and> status = CondFalse then (None, False)
      else if (case have of None \<Rightarrow> False
               | Some c \<Rightarrow> cStatus c = status \<and> cReason c = reason \<and> cMessage c = message) then (have, False)
      else (case outcome of
          Written \<Rightarrow> (findCondition (stConditions (wStored w)) ConditionTypeTopologyChangeDeferred, True)
        | _ \<Rightarrow> (None, False)))"

definition waits_for_removed :: "condition \<Rightarrow> bool" where
  "waits_for_removed c = (cStatus c = CondTrue \<and> cReason c = ConditionReasonWaitsForRemovedServers)"

definition raise_events ::
  "string \<Rightarrow> int \<Rightarrow> int \<Rightarrow> removedServerLeftover list \<Rightarrow> bool \<Rightarrow> string \<Rightarrow> condition option \<times> bool \<Rightarrow> effect list" where
  "raise_events clusterName requested keep left stuck message written =
     (case written of
        (prior, False) \<Rightarrow> []
      | (None, True) \<Rightarrow> [Event False ''ScaleUpDeferred''
          (''Adding '' @ addedServersLabel keep requested @
           '' waits until the pods and volumes of the servers a scale-down removed are gone: '' @
           leftoverNames clusterName left)]
      | (Some c, True) \<Rightarrow>
          if \<not> waits_for_removed c then [Event False ''ScaleUpDeferred''
            (''Adding '' @ addedServersLabel keep requested @
             '' waits until the pods and volumes of the servers a scale-down removed are gone: '' @
             leftoverNames clusterName left)]
          else if stuck \<and> \<not> str_contains (cMessage c) raiseHoldStuckMarker
          then [Event True ''ScaleUpBlocked'' message] else [])"

definition holdRaiseForRemovedServers :: "raise_env \<Rightarrow> world \<Rightarrow> world \<times> bool" where
  "holdRaiseForRemovedServers e w =
     (let cl = wMem w; requested = specServers cl in
      case reSts e of
        Found live \<Rightarrow>
          (case stsReplicas live of None \<Rightarrow> (w, False)
           | Some replicas \<Rightarrow>
             if replicas \<ge> requested then (w, False)
             else (case removedServerLeftovers e (clName cl) replicas requested of
                 [] \<Rightarrow> (w, False)
               | l # ls \<Rightarrow>
                 (let keep = leftOrdinal l;
                      since = (case findCondition (stConditions cl) ConditionTypeTopologyChangeDeferred of
                          None \<Rightarrow> reNow e
                        | Some c \<Rightarrow> if waits_for_removed c then cLastTransitionTime c else reNow e);
                      stuck = (reNow e - since \<ge> removedServersGrace);
                      message = raiseHoldMessage (reNamespace e) (clName cl) requested keep (l # ls) stuck;
                      want = (CondTrue, ConditionReasonWaitsForRemovedServers, message);
                      w1 = logged (raise_events (clName cl) requested keep (l # ls) stuck message
                             (topology_written (reWrite e) want w))
                           (writeTopologyDeferral (reNow e) (reWrite e) want w)
                  in (note_wake raiseHoldPoll (w1\<lparr>wMem := (wMem w1)\<lparr>specServers := keep\<rparr>\<rparr>), True))))
      | _ \<Rightarrow> (w, False))"

text \<open>\<open>cached\<close> is the StatefulSet as the cache has it, which the hold of an upgrade reads.\<close>

definition holdTopologyChange :: "raise_env \<Rightarrow> stateful_set api_read \<Rightarrow> world \<Rightarrow> world" where
  "holdTopologyChange e cached w =
     (let requested = specServers (wMem w) in
      case holdTopologyWhileUpgradeHolds (wMem w) cached of
        (cl, True) \<Rightarrow>
          (let w1 = reportTopologyDeferral (reNow e) (reWrite e) requested (specServers cl) w
           in w1\<lparr>wMem := (wMem w1)\<lparr>specServers := specServers cl\<rparr>\<rparr>)
      | (cl, False) \<Rightarrow>
          (case holdRaiseForRemovedServers e w of
             (w1, True) \<Rightarrow> w1
           | (w1, False) \<Rightarrow> reportTopologyDeferral (reNow e) (reWrite e) requested requested w1))"

text \<open>The part of the normal pass that sets the number of servers.\<close>

definition scale_pass :: "raise_env \<Rightarrow> stateful_set api_read \<Rightarrow> drain_env \<Rightarrow> bool \<Rightarrow> held_template \<Rightarrow> world \<Rightarrow> world" where
  "scale_pass e cached d other_change held w =
     drain_and_apply d other_change held (holdTopologyChange e cached w)"

subsection \<open>Kept pods that run dropped servers\<close>

definition member_ordinals :: "string \<Rightarrow> server_info list \<Rightarrow> int list" where
  "member_ordinals clusterName servers =
     List.map_filter (\<lambda>s. parseServerOrdinal (srvAddress s) clusterName) (filter serverIsMember servers)"

definition first_word :: "string \<Rightarrow> string" where
  "first_word s = takeWhile (\<lambda>c. c \<noteq> CHR '' '') s"

text \<open>
  A pod and the servers it runs. \<^verbatim>\<open>sort.Slice\<close> leaves the order of equal pods open; the model keeps
  them as they were.
\<close>

definition droppedServersInKeptPods ::
  "server_info list \<Rightarrow> string list \<Rightarrow> string \<Rightarrow> int \<Rightarrow> (string \<times> string) list" where
  "droppedServersInKeptPods servers notReadyPods clusterName expected =
     (let members = member_ordinals clusterName servers;
          notReady = map first_word notReadyPods;
          gone = filter (\<lambda>s. equal_fold (srvState s) ''dropped'') servers;
          unnamed = map serverIdentifier (filter (\<lambda>s. serverOrdinal clusterName s = None) gone);
          kept = (\<lambda>ord. ord \<notin> set members \<and> serverPodName clusterName ord \<notin> set notReady);
          found = List.map_filter (\<lambda>s. case serverOrdinal clusterName s of None \<Rightarrow> None
            | Some ord \<Rightarrow> if ord < expected \<and> kept ord
                then Some (serverPodName clusterName ord, serverIdentifier s) else None) gone
      in if found \<noteq> [] \<or> unnamed = [] then sort_key fst found
         else (case map (serverPodName clusterName) (filter kept [0..expected - 1]) of
                 [] \<Rightarrow> []
               | p # ps \<Rightarrow> (p, join '', '' (sort unnamed)) # map (\<lambda>q. (q, [])) ps))"

definition droppedServersMessage :: "string \<Rightarrow> (string \<times> string) list \<Rightarrow> string" where
  "droppedServersMessage clusterName found =
     (let ords = List.map_filter (\<lambda>(pod, _). parseServerOrdinal pod clusterName) found;
          lowest = (case ords of [] \<Rightarrow> -1 | _ \<Rightarrow> Min (set ords))
      in join '', '' (map fst found) @ '' run servers Neo4j has dropped ('' @
         join '', '' (filter (\<lambda>x. x \<noteq> []) (map snd found)) @
         ''): they started on the volumes of servers a scale-down removed, before those were deleted, and a dropped server cannot rejoin. Set spec.topology.servers to '' @
         itoa lowest @ ''; once ServersPendingDrain reads \"Scale-down drain complete\", raise it again: the operator adds the servers once the removed ones'' @
         [CHR 0x27] @ '' pods and volumes are gone, with new identities'')"


section \<open>A raise starts no dropped server\<close>

definition nothing_left :: "raise_env \<Rightarrow> string \<Rightarrow> int \<Rightarrow> bool" where
  "nothing_left e clusterName n =
     (rePod e (serverPodName clusterName n) = Absent \<and>
      (case reClaim e (dataVolumeName clusterName n) of
         Got c \<Rightarrow> \<not> pvcDeleting c \<and> \<not> ownedByPod c (serverPodName clusterName n)
       | Absent \<Rightarrow> True | GetError err \<Rightarrow> False))"

lemma something_left_iff: "something_left (leftover_at e cn n) \<longleftrightarrow> \<not> nothing_left e cn n"
  by (auto simp: something_left_def leftover_at_def nothing_left_def Let_def split: api_get.splits)

lemma leftover_ordinal [simp]: "leftOrdinal (leftover_at e cn n) = n"
  by (simp add: leftover_at_def Let_def split: api_get.splits)

text \<open>The first ordinal with something left: below it nothing is.\<close>

lemma upto_filter_first:
  assumes "filter P [i..j] = n # ns"
  shows "P n \<and> i \<le> n \<and> n \<le> j \<and> (\<forall>k. i \<le> k \<longrightarrow> k < n \<longrightarrow> \<not> P k)"
  using assms
proof (induction i j rule: upto.induct)
  case (1 i j)
  then show ?case
  proof (cases "i \<le> j")
    case True
    show ?thesis
    proof (cases "P i")
      case True
      then show ?thesis using 1(2) \<open>i \<le> j\<close> by (simp add: upto_rec1)
    next
      case False
      then have "filter P [i + 1..j] = n # ns" using 1(2) True by (simp add: upto_rec1)
      then show ?thesis using 1(1) True False by (metis add1_zle_eq order.order_iff_strict zless_add1_eq le_add_same_cancel1 zero_le_one order_trans)
    qed
  qed simp
qed

lemma removedServerLeftovers_ordinals:
  "map leftOrdinal (removedServerLeftovers e cn replicas requested) =
     filter (\<lambda>n. \<not> nothing_left e cn n) [replicas..requested - 1]"
proof -
  have "map leftOrdinal (filter something_left (map (leftover_at e cn) ns)) = filter (\<lambda>n. \<not> nothing_left e cn n) ns" for ns
    by (induction ns) (simp_all add: something_left_iff)
  then show ?thesis by (simp add: removedServerLeftovers_def)
qed

lemma topology_fields [simp]:
  "clName (wMem (writeTopologyDeferral now out want w)) = clName (wMem w)"
  "specServers (wMem (writeTopologyDeferral now out want w)) = specServers (wMem w)"
  "clName (wMem (reportTopologyDeferral now out a b w)) = clName (wMem w)"
  "specServers (wMem (reportTopologyDeferral now out a b w)) = specServers (wMem w)"
  by (simp_all add: reportTopologyDeferral_def writeTopologyDeferral_def Let_def
      split: write_outcome.splits prod.splits option.splits)

lemma note_wake_fields [simp]: "wMem (note_wake t w) = wMem w" "wSts (note_wake t w) = wSts w"
  by (simp_all add: note_wake_def split: option.splits)

lemma holdRaise_fields:
  "wSts (fst (holdRaiseForRemovedServers e w)) = wSts w"
  "clName (wMem (fst (holdRaiseForRemovedServers e w))) = clName (wMem w)"
  by (auto simp: holdRaiseForRemovedServers_def Let_def split: api_read.splits option.splits list.splits)

lemma holdTopologyChange_sts: "wSts (holdTopologyChange e cached w) = wSts w"
  using holdRaise_fields(1) [of e w]
  by (auto simp: holdTopologyChange_def Let_def reportTopologyDeferral_def split: prod.splits bool.splits)

lemma holdRaise_servers:
  assumes "reSts e = Found live" "stsReplicas live = Some current"
    and "holdRaiseForRemovedServers e w = (w', held)"
  shows "(if held then current \<le> specServers (wMem w') \<and> specServers (wMem w') < specServers (wMem w) \<and>
            \<not> nothing_left e (clName (wMem w)) (specServers (wMem w'))
          else specServers (wMem w') = specServers (wMem w)) \<and>
    (\<forall>n. current \<le> n \<longrightarrow> n < specServers (wMem w') \<longrightarrow> nothing_left e (clName (wMem w)) n)"
proof -
  let ?requested = "specServers (wMem w)" and ?cn = "clName (wMem w)"
  let ?left = "removedServerLeftovers e ?cn current ?requested"
  note ords = removedServerLeftovers_ordinals [of e ?cn current ?requested]
  show ?thesis
  proof (cases "current \<ge> ?requested \<or> ?left = []")
    case True
    then have "w' = w" "held = False"
      using assms by (auto simp: holdRaiseForRemovedServers_def Let_def split: list.splits)
    moreover have "nothing_left e ?cn n" if "current \<le> n" "n < ?requested" for n
    proof -
      have "filter (\<lambda>n. \<not> nothing_left e ?cn n) [current..?requested - 1] = []" using True that ords by auto
      then show ?thesis using that by (simp add: filter_empty_conv)
    qed
    ultimately show ?thesis by simp
  next
    case False
    then obtain l ls where l: "?left = l # ls" by (cases ?left) auto
    have keep: "specServers (wMem w') = leftOrdinal l" "held"
      using assms l False by (auto simp: holdRaiseForRemovedServers_def Let_def)
    have "filter (\<lambda>n. \<not> nothing_left e ?cn n) [current..?requested - 1] = leftOrdinal l # map leftOrdinal ls"
      using ords l by simp
    from upto_filter_first [OF this] show ?thesis unfolding keep(1) using keep(2) by auto
  qed
qed

text \<open>
  C12: a pass that reads the StatefulSet from the API server, with the replica count the cache has
  too, adds servers only at ordinals where neither the pod of a removed server nor a volume
  of it that is being reclaimed was found, and both could be read; so no added server starts as
  one Neo4j has dropped. It adds all the servers the spec asks for below the first ordinal where
  something is left. On an error of that read the raise is not held.
\<close>

theorem raise_adds_no_server_on_leftovers:
  assumes "wSts w = Some live" "reSts e = Found live" "stsReplicas live = Some current"
    and "cached = Found c" "stsReplicas c = Some current"
    and "wSts (scale_pass e cached d oc held w) = Some new" "stsReplicas new = Some raised" "current < raised"
  shows "(\<forall>n. current \<le> n \<and> n < raised \<longrightarrow> nothing_left e (clName (wMem w)) n) \<and>
    (raised = specServers (wMem w) \<or>
     raised < specServers (wMem w) \<and> \<not> nothing_left e (clName (wMem w)) raised)"
proof -
  let ?w1 = "holdTopologyChange e cached w"
  have sts: "wSts ?w1 = Some live" using assms(1) by (simp add: holdTopologyChange_sts)
  have raised: "raised = specServers (wMem ?w1)"
    using drain_and_apply_replicas [OF sts, of d oc held new] assms(3,6-8)
    by (simp add: scale_pass_def Let_def split: if_splits)
  obtain cl held where up: "holdTopologyWhileUpgradeHolds (wMem w) cached = (cl, held)" by fastforce
  have "\<not> held"
  proof
    assume held
    then have "specServers cl = current"
      using up assms(4,5) by (auto simp: holdTopologyWhileUpgradeHolds_def split: if_splits)
    then show False using raised up \<open>held\<close> assms(8) by (simp add: holdTopologyChange_def Let_def)
  qed
  moreover obtain w2 h2 where r: "holdRaiseForRemovedServers e w = (w2, h2)" by fastforce
  ultimately have "specServers (wMem ?w1) = specServers (wMem w2)"
    using up by (simp add: holdTopologyChange_def Let_def split: bool.splits)
  then show ?thesis using holdRaise_servers [OF assms(2,3) r] raised by (auto split: if_splits)
qed

text \<open>From three servers to six, with the volume of server 4 still owned by its removed pod.\<close>

definition raising_world :: world where
  "raising_world = world_of (new_cluster ''c'' ''neo4j'' ''2026.09.0-enterprise'' 6)
     (Some (sts3 ''neo4j:2026.09.0-enterprise'' 0))"

definition raising_env :: raise_env where
  "raising_env = \<lparr>reSts = Found (sts3 ''neo4j:2026.09.0-enterprise'' 0), rePod = (\<lambda>_. Absent),
     reClaim = (\<lambda>name. if name = ''data-c-server-4''
       then Got \<lparr>pvcName = name, pvcDeleting = False, pvcOwners = [(''Pod'', ''c-server-4'')], pvcFinalizers = []\<rparr>
       else Absent),
     reNow = 100, reWrite = Written, reNamespace = ''ns''\<rparr>"

theorem raise_adds_no_server_on_leftovers_witness:
  "map_option stsReplicas (wSts (scale_pass raising_env (Found (sts3 ''neo4j:2026.09.0-enterprise'' 0))
     (drain_env5 3 []) False None raising_world)) = Some (Some 4) \<and>
   nothing_left raising_env ''c'' 3 \<and> \<not> nothing_left raising_env ''c'' 4"
proof -
  let ?live = "sts3 ''neo4j:2026.09.0-enterprise'' 0"
  have run: "map_option stsReplicas (wSts (scale_pass raising_env (Found ?live) (drain_env5 3 []) False None raising_world)) =
      Some (Some 4)"
    by code_simp
  then obtain new where new: "wSts (scale_pass raising_env (Found ?live) (drain_env5 3 []) False None raising_world) = Some new"
      "stsReplicas new = Some 4"
    by auto
  have w: "wSts raising_world = Some ?live" "reSts raising_env = Found ?live" "stsReplicas ?live = Some 3"
      "clName (wMem raising_world) = ''c''" "specServers (wMem raising_world) = 6"
    by (simp_all add: raising_world_def raising_env_def world_of_def sts3_def new_cluster_def)
  show ?thesis
    using raise_adds_no_server_on_leftovers [OF w(1-3) refl w(3) new] w(4,5) run by simp
qed


section \<open>A stopped upgrade holds its servers\<close>


lemma topology_mem [simp]:
  "stUpgradeStatus (wMem (writeTopologyDeferral now out want w)) = stUpgradeStatus (wMem w)"
  "specImage (wMem (writeTopologyDeferral now out want w)) = specImage (wMem w)"
  "stUpgradeStatus (wMem (reportTopologyDeferral now out a b w)) = stUpgradeStatus (wMem w)"
  "specImage (wMem (reportTopologyDeferral now out a b w)) = specImage (wMem w)"
  by (simp_all add: reportTopologyDeferral_def writeTopologyDeferral_def specImage_def Let_def
      split: write_outcome.splits prod.splits option.splits)







end
