(* ===== verification/Split_Brain.thy ===== *)
theory Split_Brain
  imports Cluster_State "HOL-Library.Multiset"
begin

text \<open>
  \<^verbatim>\<open>src/internal/controller/splitbrain_detector.go\<close> and \<^verbatim>\<open>reconcile_cadence.go\<close>: each server
  pod is asked which servers it sees; pods whose views agree form a group, and a pod outside
  the largest group that sees a server this group does not see is deleted. When the check may
  be left out.

  What the pods answer is an argument: the error of a connection or of \<open>SHOW SERVERS\<close>, or the
  rows. An error is its text.
\<close>

section \<open>The model\<close>

record cluster_view =
  ServerPodName :: string
  Servers :: "server_info list"
  ConnectionError :: "string option"

definition no_view :: cluster_view where
  "no_view = \<lparr>ServerPodName = [], Servers = [], ConnectionError = None\<rparr>"

datatype RepairAction =
  RepairActionNone | RepairActionRestartPods | RepairActionRestartAll | RepairActionWaitForming |
  RepairActionInvestigate

record SplitBrainAnalysis =
  IsSplitBrain :: bool
  ClusterViews :: "cluster_view list"
  ExpectedServers :: int
  LargestCluster :: cluster_view
  OrphanedPods :: "string list"
  anRepairAction :: RepairAction
  ErrorMessage :: string

definition splitBrainMessagePrefix :: string where
  "splitBrainMessagePrefix = ''Split-brain detected''"

definition splitBrainMessage :: "SplitBrainAnalysis \<Rightarrow> string" where
  "splitBrainMessage a =
     (let msg = trim_space (ErrorMessage a) in
      if msg = [] then splitBrainMessagePrefix
      else if has_prefix msg splitBrainMessagePrefix then msg
      else splitBrainMessagePrefix @ '': '' @ msg)"

subsection \<open>Views and groups\<close>

definition getVisibleServerAddresses :: "server_info list \<Rightarrow> string list" where
  "getVisibleServerAddresses servers = map srvAddress (filter serverServes servers)"

abbreviation sees :: "cluster_view \<Rightarrow> string list" where
  "sees v \<equiv> getVisibleServerAddresses (Servers v)"

definition countCommonAddresses :: "string list \<Rightarrow> string list \<Rightarrow> nat" where
  "countCommonAddresses as bs = length (filter (\<lambda>a. a \<in> set bs) as)"

text \<open>
  \<^verbatim>\<open>float64(commonCount*2) / float64(totalCount) >= 0.8\<close> without the floats: rounding is
  monotone, and two fractions with denominators \<open>n\<close> and 5 that differ do so by \<open>1 / 5n\<close> at
  least, far more than the spacing of \<^verbatim>\<open>float64\<close> below 1.
\<close>

definition haveSimilarClusterView :: "cluster_view \<Rightarrow> cluster_view \<Rightarrow> bool" where
  "haveSimilarClusterView v1 v2 =
     (let as = sees v1; bs = sees v2; commonCount = countCommonAddresses as bs;
          totalCount = length as + length bs - commonCount
      in totalCount = 0 \<or> 5 * (commonCount * 2) \<ge> 4 * totalCount)"

fun add_to_group :: "cluster_view \<Rightarrow> cluster_view list list \<Rightarrow> cluster_view list list" where
  "add_to_group v [] = [[v]]"
| "add_to_group v (g # gs) =
     (if g \<noteq> [] \<and> haveSimilarClusterView v (hd g) then (g @ [v]) # gs else g # add_to_group v gs)"

definition groupPodsByClusterView :: "cluster_view list \<Rightarrow> cluster_view list list" where
  "groupPodsByClusterView views = fold add_to_group views []"

definition countUniqueServersInGroup :: "cluster_view list \<Rightarrow> nat" where
  "countUniqueServersInGroup g = length (remdups (concat (map sees g)))"

definition isSameGroup :: "cluster_view list \<Rightarrow> cluster_view list \<Rightarrow> bool" where
  "isSameGroup g1 g2 = (length g1 = length g2 \<and> sort (map ServerPodName g1) = sort (map ServerPodName g2))"

text \<open>The loop over the groups; a later group of the same size does not displace an earlier one.\<close>

fun larger_group :: "cluster_view list \<Rightarrow> nat \<times> cluster_view list \<Rightarrow> nat \<times> cluster_view list" where
  "larger_group g (maxSize, largest) =
     (if countUniqueServersInGroup g > maxSize then (countUniqueServersInGroup g, g)
      else (maxSize, largest))"

definition largestGroup :: "cluster_view list list \<Rightarrow> nat \<times> cluster_view list" where
  "largestGroup groups = fold larger_group groups (0, [])"

definition majorityAddresses :: "cluster_view list \<Rightarrow> string list" where
  "majorityAddresses g = concat (map sees g)"

definition hasConflict :: "cluster_view list \<Rightarrow> cluster_view \<Rightarrow> bool" where
  "hasConflict largest v = list_ex (\<lambda>a. a \<notin> set (majorityAddresses largest)) (sees v)"

definition orphaned :: "cluster_view list list \<Rightarrow> cluster_view list \<Rightarrow> string list" where
  "orphaned groups largest =
     concat (map (\<lambda>g. map ServerPodName (filter (hasConflict largest) g))
       (filter (\<lambda>g. \<not> isSameGroup g largest) groups))"

subsection \<open>The analysis\<close>

definition analysis_of :: "cluster_view list \<Rightarrow> int \<Rightarrow> SplitBrainAnalysis" where
  "analysis_of views expected =
     \<lparr>IsSplitBrain = False, ClusterViews = views, ExpectedServers = expected, LargestCluster = no_view,
      OrphanedPods = [], anRepairAction = RepairActionNone, ErrorMessage = []\<rparr>"

text \<open>The part of \<^verbatim>\<open>analyzeClusterViews\<close> that compares the groups of the working views.\<close>

definition analyzeGroups :: "cluster_view list \<Rightarrow> int \<Rightarrow> SplitBrainAnalysis \<Rightarrow> SplitBrainAnalysis" where
  "analyzeGroups working expected a0 =
     (let groups = groupPodsByClusterView working;
          (maxSize, largest) = largestGroup groups;
          a = (case largest of [] \<Rightarrow> a0 | v # _ \<Rightarrow> a0\<lparr>LargestCluster := v\<rparr>)
      in if length groups > 1 then
           (let orphans = orphaned groups largest in
            if orphans = [] then
              a\<lparr>anRepairAction := RepairActionWaitForming,
                ErrorMessage := ''Cluster formation in progress: '' @ itoa (int maxSize) @ ''/'' @ itoa expected @
                  '' servers have full view''\<rparr>
            else
              a\<lparr>IsSplitBrain := True, OrphanedPods := orphans, anRepairAction := RepairActionRestartPods,
                ErrorMessage := splitBrainMessagePrefix @ '': '' @ itoa (int (length groups)) @
                  '' cluster groups found, '' @ itoa (int (length orphans)) @ '' orphaned pods''\<rparr>)
         else
           (let uniqueServers = countUniqueServersInGroup working in
            if int uniqueServers < expected then
              a\<lparr>anRepairAction := RepairActionWaitForming,
                ErrorMessage := ''Cluster formation in progress: '' @ itoa (int uniqueServers) @ ''/'' @
                  itoa expected @ '' servers visible''\<rparr>
            else a))"

definition analyzeClusterViews :: "cluster_view list \<Rightarrow> int \<Rightarrow> SplitBrainAnalysis" where
  "analyzeClusterViews views expected =
     (let a = analysis_of views expected;
          working = filter (\<lambda>v. ConnectionError v = None) views;
          connectionFailures = length (filter (\<lambda>v. ConnectionError v \<noteq> None) views)
      in if expected = 1 then a
         else if working = [] then
           a\<lparr>anRepairAction := RepairActionRestartAll, ErrorMessage := ''Cannot connect to any Neo4j server pods''\<rparr>
         else if int connectionFailures > expected div 2 then
           a\<lparr>anRepairAction := RepairActionInvestigate,
             ErrorMessage := ''Too many connection failures ('' @ itoa (int connectionFailures) @ ''/'' @
               itoa (int (length views)) @ '') to determine cluster status''\<rparr>
         else analyzeGroups working expected a)"

subsection \<open>The detection\<close>

text \<open>What a pod answers: a client cannot be made, \<open>SHOW SERVERS\<close> fails, or the rows.\<close>

datatype pod_answer = NoClient string | NoList string | Listed "server_info list"

definition getClusterViewFromPod :: "(string \<Rightarrow> pod_answer) \<Rightarrow> string \<Rightarrow> cluster_view" where
  "getClusterViewFromPod ask pod =
     (case ask pod of
        NoClient err \<Rightarrow> \<lparr>ServerPodName = pod, Servers = [],
          ConnectionError = Some (''failed to connect to pod '' @ pod @ '': '' @ err)\<rparr>
      | NoList err \<Rightarrow> \<lparr>ServerPodName = pod, Servers = [],
          ConnectionError = Some (''failed to get server list from pod '' @ pod @ '': '' @ err)\<rparr>
      | Listed servers \<Rightarrow> \<lparr>ServerPodName = pod, Servers = servers, ConnectionError = None\<rparr>)"

text \<open>A map keeps the last pod of a name; a name that is not there is not being deleted.\<close>

definition allBeingDeleted :: "pod list \<Rightarrow> cluster_view list \<Rightarrow> bool" where
  "allBeingDeleted pods views =
     (list_all (\<lambda>v. map_of (rev (map (\<lambda>p. (podName p, podDeleting p)) pods)) (ServerPodName v) = Some True) views
      \<and> views \<noteq> [])"

datatype detect_error = PodsUnread string | NoPodAnswers nat nat

definition DetectSplitBrain ::
  "(string \<Rightarrow> pod_answer) \<Rightarrow> string + pod list \<Rightarrow> cluster \<Rightarrow> detect_error + SplitBrainAnalysis" where
  "DetectSplitBrain ask getServerPods cl =
     (let expected = specServers cl; a = analysis_of [] expected in
      if expected = 1 then Inr a
      else if stPhase cl \<noteq> PhaseReady \<and> stPhase cl \<noteq> PhaseDegraded then Inr a
      else case getServerPods of Inl err \<Rightarrow> Inl (PodsUnread err)
      | Inr pods \<Rightarrow>
        (let running = filter (\<lambda>p. podPhase p = ''Running'') pods in
         if int (length running) < expected then
           Inr (a\<lparr>anRepairAction := RepairActionWaitForming,
             ErrorMessage := ''Only '' @ itoa (int (length running)) @ '' of '' @ itoa expected @
               '' server pods are running''\<rparr>)
         else
           (let views = map (\<lambda>p. getClusterViewFromPod ask (podName p)) running;
                connectionErrors = length (filter (\<lambda>v. ConnectionError v \<noteq> None) views)
            in if views \<noteq> [] \<and> connectionErrors = length views \<and> allBeingDeleted pods views then
                 Inr (a\<lparr>anRepairAction := RepairActionWaitForming,
                   ErrorMessage := itoa (int (length views)) @ '' of '' @ itoa expected @
                     '' server pods are being deleted''\<rparr>)
               else if views \<noteq> [] \<and> connectionErrors = length views then
                 Inl (NoPodAnswers connectionErrors (length views))
               else Inr (analyzeClusterViews views expected))))"

subsection \<open>The repair\<close>

text \<open>The answer to a delete of a pod; a context that ends is noticed in the pause after it.\<close>

datatype delete_outcome = PodGone | DeleteFails string | ContextEnds string

text \<open>The pods deleted, in order, and the error the loop ends with.\<close>

fun delete_each :: "(string \<Rightarrow> delete_outcome) \<Rightarrow> string list \<Rightarrow> string list \<times> string option" where
  "delete_each del [] = ([], None)"
| "delete_each del (p # ps) =
     (case del p of
        DeleteFails err \<Rightarrow> ([], Some (''failed to delete pod '' @ p @ '': '' @ err))
      | ContextEnds err \<Rightarrow> ([p], Some err)
      | PodGone \<Rightarrow> (let (gone, res) = delete_each del ps in (p # gone, res)))"

definition repairByRestartingPods ::
  "(string \<Rightarrow> delete_outcome) \<Rightarrow> string list \<Rightarrow> string list \<times> string option" where
  "repairByRestartingPods del podNames = delete_each del podNames"

definition repairByRestartingAllPods ::
  "(string \<Rightarrow> delete_outcome) \<Rightarrow> string + pod list \<Rightarrow> string list \<times> string option" where
  "repairByRestartingAllPods del getServerPods =
     (case getServerPods of Inl err \<Rightarrow> ([], Some (''failed to get server pods: '' @ err))
      | Inr pods \<Rightarrow> delete_each del (map podName pods))"

definition RepairSplitBrain ::
  "(string \<Rightarrow> delete_outcome) \<Rightarrow> string + pod list \<Rightarrow> SplitBrainAnalysis \<Rightarrow> string list \<times> string option" where
  "RepairSplitBrain del getServerPods a =
     (if \<not> IsSplitBrain a then ([], None)
      else case anRepairAction a of
        RepairActionRestartPods \<Rightarrow> repairByRestartingPods del (OrphanedPods a)
      | RepairActionRestartAll \<Rightarrow> repairByRestartingAllPods del getServerPods
      | RepairActionWaitForming \<Rightarrow> ([], None)
      | RepairActionInvestigate \<Rightarrow> ([], Some (''manual investigation required: '' @ ErrorMessage a))
      | RepairActionNone \<Rightarrow> ([], Some ''unknown repair action: none''))"

subsection \<open>When the check is left out\<close>

definition DefaultSplitBrainCheckInterval :: int where
  "DefaultSplitBrainCheckInterval = 5 * 60 * 10 ^ 9"

definition readyPollInterval :: "int \<Rightarrow> int \<Rightarrow> int" where
  "readyPollInterval configured requeueAfter = (if configured > 0 then configured else requeueAfter)"

record splitBrainCheck =
  checkedAt :: int
  checkedPods :: string

text \<open>The last Ready condition of a pod counts here.\<close>

definition fingerprint_ready :: "pod \<Rightarrow> bool" where
  "fingerprint_ready p =
     (case filter (\<lambda>c. fst c = ''Ready'') (podConditions p) of [] \<Rightarrow> False | cs \<Rightarrow> snd (last cs) = CondTrue)"

definition go_bool :: "bool \<Rightarrow> string" where
  "go_bool b = (if b then ''true'' else ''false'')"

definition pod_fingerprint :: "pod \<Rightarrow> string" where
  "pod_fingerprint p =
     join ''/'' [podName p, podUID p, podPhase p, go_bool (fingerprint_ready p),
       itoa (sum_list (map csRestartCount (podStatuses p))), go_bool (podDeleting p)]"

definition serverPodsFingerprint :: "pod list \<Rightarrow> string" where
  "serverPodsFingerprint pods = join '','' (sort (map pod_fingerprint pods))"

definition countAvailableServers :: "server_info list \<Rightarrow> nat" where
  "countAvailableServers servers = length (filter serverServes servers)"

definition splitBrainCheckSkippable ::
  "cluster \<Rightarrow> server_info list \<Rightarrow> splitBrainCheck option \<Rightarrow> string \<Rightarrow> int \<Rightarrow> int \<Rightarrow> bool" where
  "splitBrainCheckSkippable cl servers lastCheck pods interval now =
     (if interval \<le> 0 \<or> pods = [] then False
      else case lastCheck of None \<Rightarrow> False
      | Some c \<Rightarrow>
          if stPhase cl \<noteq> PhaseReady then False
          else if int (countAvailableServers servers) < specServers cl then False
          else checkedPods c = pods \<and> now - checkedAt c < interval)"

definition skipSplitBrainCheck ::
  "int \<Rightarrow> int \<Rightarrow> string + pod list \<Rightarrow> splitBrainCheck option \<Rightarrow> cluster \<Rightarrow> server_info list \<Rightarrow> bool \<times> string" where
  "skipSplitBrainCheck interval now getServerPods lastCheck cl servers =
     (if interval \<le> 0 then (False, [])
      else case getServerPods of Inl err \<Rightarrow> (False, [])
      | Inr pods \<Rightarrow> (let fingerprint = serverPodsFingerprint pods in
          (splitBrainCheckSkippable cl servers lastCheck fingerprint interval now, fingerprint)))"

definition recordCleanSplitBrainCheck ::
  "cluster \<Rightarrow> string \<Rightarrow> int \<Rightarrow> splitBrainCheck option \<Rightarrow> splitBrainCheck option" where
  "recordCleanSplitBrainCheck cl pods now lastCheck =
     (if pods = [] \<or> stPhase cl \<noteq> PhaseReady then lastCheck
      else Some \<lparr>checkedAt = now, checkedPods = pods\<rparr>)"


section \<open>Groups of views\<close>

lemma mset_add_to_group: "mset (concat (add_to_group v gs)) = add_mset v (mset (concat gs))"
  by (induction v gs rule: add_to_group.induct) auto

lemma add_to_group_nonempty: "[] \<notin> set gs \<Longrightarrow> [] \<notin> set (add_to_group v gs)"
  by (induction v gs rule: add_to_group.induct) auto

lemma fold_add_to_group:
  "[] \<notin> set gs \<Longrightarrow> mset (concat (fold add_to_group vs gs)) = mset vs + mset (concat gs) \<and>
     [] \<notin> set (fold add_to_group vs gs)"
  by (induction vs arbitrary: gs) (simp_all add: mset_add_to_group add_to_group_nonempty del: mset_concat)

lemma groups_nonempty: "[] \<notin> set (groupPodsByClusterView vs)"
  and groups_mset: "mset (concat (groupPodsByClusterView vs)) = mset vs"
  using fold_add_to_group [of "[]" vs] by (simp_all add: groupPodsByClusterView_def del: mset_concat)

lemma groups_set: "set (concat (groupPodsByClusterView vs)) = set vs"
  using groups_mset by (metis set_mset_mset)

lemma distinct_groups:
  "distinct (map f vs) \<Longrightarrow> distinct (map f (concat (groupPodsByClusterView vs)))"
  by (metis groups_mset mset_map mset_eq_imp_distinct_iff)

lemma group_unique:
  assumes "distinct (map f (concat gs))" "g \<in> set gs" "h \<in> set gs" "x \<in> set g" "y \<in> set h" "f x = f y"
  shows "g = h"
  using assms
proof (induction gs)
  case (Cons k gs)
  have apart: "f u \<noteq> f v" if "u \<in> set k" "l \<in> set gs" "v \<in> set l" for u v l
    using Cons.prems(1) that by (auto simp: distinct_append)
  have "distinct (map f (concat gs))" using Cons.prems(1) by simp
  then show ?case using Cons apart by (metis set_ConsD)
qed simp

text \<open>Pods have names of their own, so groups with the same names are the same group.\<close>

lemma isSameGroup_iff:
  assumes "distinct (map ServerPodName (concat gs))" "[] \<notin> set gs" "g \<in> set gs" "h \<in> set gs"
  shows "isSameGroup g h \<longleftrightarrow> g = h"
proof
  assume "isSameGroup g h"
  then have names: "set (map ServerPodName g) = set (map ServerPodName h)"
    unfolding isSameGroup_def by (metis set_sort)
  obtain x where x: "x \<in> set g" using assms(2,3) by (metis list.set_intros(1) neq_Nil_conv)
  then obtain y where "y \<in> set h" "ServerPodName x = ServerPodName y" using names by fastforce
  then show "g = h" using group_unique [OF assms(1,3,4) x] by blast
qed (simp add: isSameGroup_def)

lemma unique_card: "countUniqueServersInGroup g = card (\<Union>v\<in>set g. set (sees v))"
  by (simp add: countUniqueServersInGroup_def card_set [symmetric])

lemma largest_fold:
  assumes "fold larger_group gs (m0, G0) = (m, G)"
  shows "m0 \<le> m \<and> (\<forall>g\<in>set gs. countUniqueServersInGroup g \<le> m) \<and>
    (if m = m0 then G = G0 else G \<in> set gs \<and> countUniqueServersInGroup G = m)"
  using assms
proof (induction gs arbitrary: m0 G0)
  case (Cons g gs)
  show ?case
    using Cons.IH [of "fst (larger_group g (m0, G0))" "snd (larger_group g (m0, G0))"] Cons.prems
    by (auto split: if_splits)
qed simp

lemma largestGroup_max:
  assumes "largestGroup gs = (m, G)"
  shows "\<forall>g\<in>set gs. countUniqueServersInGroup g \<le> m"
    and "m = 0 \<Longrightarrow> G = []" and "m > 0 \<Longrightarrow> G \<in> set gs \<and> countUniqueServersInGroup G = m"
  using largest_fold [of gs 0 "[]" m G] assms by (auto simp: largestGroup_def split: if_splits)

lemma hasConflict_iff: "hasConflict G v \<longleftrightarrow> (\<exists>addr\<in>set (sees v). \<forall>u\<in>set G. addr \<notin> set (sees u))"
  by (auto simp: hasConflict_def majorityAddresses_def list_ex_iff)

lemma conflict_group_seen:
  assumes "largestGroup gs = (m, G)" "g \<in> set gs" "v \<in> set g" "hasConflict G v"
  shows "G \<in> set gs \<and> countUniqueServersInGroup G = m"
proof -
  obtain addr where "addr \<in> set (sees v)" using assms(4) by (auto simp: hasConflict_iff)
  then have "addr \<in> (\<Union>v\<in>set g. set (sees v))" using assms(3) by blast
  then have "countUniqueServersInGroup g > 0" unfolding unique_card by (subst card_gt_0_iff) blast
  then show ?thesis using largestGroup_max [OF assms(1)] assms(2) by fastforce
qed

text \<open>The orphaned pods are those outside the largest group that contradict it.\<close>

lemma orphaned_iff:
  assumes "distinct (map ServerPodName vs)" "largestGroup (groupPodsByClusterView vs) = (m, G)"
  shows "set (orphaned (groupPodsByClusterView vs) G) =
    ServerPodName ` {v \<in> set vs - set G. hasConflict G v}" (is "?L = ?R")
proof -
  let ?gs = "groupPodsByClusterView vs"
  note d = distinct_groups [OF assms(1)]
  have same: "isSameGroup g G \<longleftrightarrow> v \<in> set G" if "g \<in> set ?gs" "v \<in> set g" "hasConflict G v" for g v
  proof -
    have G: "G \<in> set ?gs" using conflict_group_seen [OF assms(2) that] by blast
    then have "isSameGroup g G \<longleftrightarrow> g = G" using isSameGroup_iff [OF d groups_nonempty that(1)] by blast
    then show ?thesis using group_unique [OF d that(1) G that(2)] that(2) by blast
  qed
  have "?L = ServerPodName ` {v. \<exists>g\<in>set ?gs. v \<in> set g \<and> hasConflict G v \<and> \<not> isSameGroup g G}"
    by (auto simp: orphaned_def)
  also have "\<dots> = ServerPodName ` {v. \<exists>g\<in>set ?gs. v \<in> set g \<and> hasConflict G v \<and> v \<notin> set G}"
    using same by (intro arg_cong [where f = "image ServerPodName"]) blast
  also have "\<dots> = ?R" using groups_set [of vs] by (intro arg_cong [where f = "image ServerPodName"]) auto
  finally show ?thesis .
qed

section \<open>What is deleted\<close>

lemma delete_each_prefix: "set (fst (delete_each del ps)) \<subseteq> set ps"
  by (induction del ps rule: delete_each.induct) (auto split: delete_outcome.splits prod.splits)

definition workingViews :: "SplitBrainAnalysis \<Rightarrow> cluster_view list" where
  "workingViews a = filter (\<lambda>v. ConnectionError v = None) (ClusterViews a)"

lemma analyzeGroups_split:
  assumes "IsSplitBrain (analyzeGroups vs expected a0)" "\<not> IsSplitBrain a0" "largestGroup (groupPodsByClusterView vs) = (m, G)"
  shows "OrphanedPods (analyzeGroups vs expected a0) = orphaned (groupPodsByClusterView vs) G \<and>
    orphaned (groupPodsByClusterView vs) G \<noteq> [] \<and>
    anRepairAction (analyzeGroups vs expected a0) = RepairActionRestartPods"
  using assms by (auto simp: analyzeGroups_def Let_def split: if_splits list.splits)

lemma analyzeGroups_views [simp]: "ClusterViews (analyzeGroups vs expected a0) = ClusterViews a0"
  by (simp add: analyzeGroups_def Let_def split: if_splits list.splits prod.splits)

lemma analysis_of_sels [simp]:
  "\<not> IsSplitBrain (analysis_of vs n)" "ClusterViews (analysis_of vs n) = vs"
  by (simp_all add: analysis_of_def)

lemma analyze_split:
  assumes "IsSplitBrain (analyzeClusterViews vs expected)" "largestGroup (groupPodsByClusterView (filter (\<lambda>v. ConnectionError v = None) vs)) = (m, G)"
  shows "OrphanedPods (analyzeClusterViews vs expected) =
      orphaned (groupPodsByClusterView (filter (\<lambda>v. ConnectionError v = None) vs)) G \<and>
    OrphanedPods (analyzeClusterViews vs expected) \<noteq> [] \<and>
    anRepairAction (analyzeClusterViews vs expected) = RepairActionRestartPods \<and>
    ClusterViews (analyzeClusterViews vs expected) = vs \<and>
    int (length (filter (\<lambda>v. ConnectionError v \<noteq> None) vs)) \<le> expected div 2"
  using assms analyzeGroups_split [OF _ analysis_of_sels(1) assms(2)]
  by (auto simp: analyzeClusterViews_def Let_def split: if_splits)

lemma detect_split:
  assumes "DetectSplitBrain ask (Inr pods) cl = Inr a" "IsSplitBrain a"
  shows "a = analyzeClusterViews
      (map (\<lambda>p. getClusterViewFromPod ask (podName p)) (filter (\<lambda>p. podPhase p = ''Running'') pods)) (specServers cl)"
    and "stPhase cl = PhaseReady \<or> stPhase cl = PhaseDegraded"
    and "specServers cl \<le> int (length (filter (\<lambda>p. podPhase p = ''Running'') pods))"
  using assms by (auto simp: DetectSplitBrain_def Let_def analysis_of_def split: if_splits)

lemma view_pod [simp]: "ServerPodName (getClusterViewFromPod ask p) = p"
  by (simp add: getClusterViewFromPod_def split: pod_answer.splits)

lemma distinct_map_filter2: "distinct (map f xs) \<Longrightarrow> distinct (map f (filter P xs))"
  by (simp add: distinct_map_filter)

lemma view_names:
  "distinct (map podName pods) \<Longrightarrow>
   distinct (map ServerPodName (filter Q (map (\<lambda>p. getClusterViewFromPod ask (podName p)) (filter P pods))))"
  by (intro distinct_map_filter2) (simp add: distinct_map_filter2 o_def)

text \<open>
  C15: a repair deletes only pods that answered, stand outside the group of views that sees the
  most servers, and see a server no view of that group sees. No pod of that group is deleted,
  the group is not empty, and at most half of the expected pods had failed to answer.
\<close>

theorem repair_spares_the_largest_group:
  assumes "DetectSplitBrain ask (Inr pods) cl = Inr a" "IsSplitBrain a" "distinct (map podName pods)"
    and "largestGroup (groupPodsByClusterView (workingViews a)) = (m, G)"
  shows "(set (fst (RepairSplitBrain del again a)) \<subseteq>
      ServerPodName ` {v \<in> set (workingViews a) - set G. \<exists>addr\<in>set (sees v). \<forall>u\<in>set G. addr \<notin> set (sees u)}) \<and>
    set (fst (RepairSplitBrain del again a)) \<inter> ServerPodName ` set G = {} \<and> G \<noteq> [] \<and>
    list_all (\<lambda>g. countUniqueServersInGroup g \<le> countUniqueServersInGroup G) (groupPodsByClusterView (workingViews a)) \<and>
    2 * int (length (filter (\<lambda>v. ConnectionError v \<noteq> None) (ClusterViews a))) \<le> specServers cl"
proof -
  let ?vs = "map (\<lambda>p. getClusterViewFromPod ask (podName p)) (filter (\<lambda>p. podPhase p = ''Running'') pods)"
  let ?ws = "workingViews a"
  have a: "a = analyzeClusterViews ?vs (specServers cl)" using detect_split(1) [OF assms(1,2)] .
  have views: "ClusterViews a = ?vs"
    using analyze_split [of ?vs "specServers cl"] assms(2) unfolding a by (metis prod.exhaust)
  then have ws: "?ws = filter (\<lambda>v. ConnectionError v = None) ?vs" by (simp add: workingViews_def)
  have sp: "OrphanedPods a = orphaned (groupPodsByClusterView ?ws) G" "OrphanedPods a \<noteq> []"
      "anRepairAction a = RepairActionRestartPods"
      "int (length (filter (\<lambda>v. ConnectionError v \<noteq> None) ?vs)) \<le> specServers cl div 2"
    using analyze_split [of ?vs "specServers cl" m G] assms(2,4) unfolding a [symmetric] ws [symmetric] by auto
  have names: "distinct (map ServerPodName ?ws)" unfolding ws by (rule view_names [OF assms(3)])
  have orph: "set (OrphanedPods a) = ServerPodName ` {v \<in> set ?ws - set G. hasConflict G v}"
    unfolding sp(1) by (rule orphaned_iff [OF names assms(4)])
  have del: "set (fst (RepairSplitBrain del again a)) \<subseteq> set (OrphanedPods a)"
    using delete_each_prefix by (simp add: RepairSplitBrain_def repairByRestartingPods_def assms(2) sp(3))
  have 1: "set (fst (RepairSplitBrain del again a)) \<subseteq>
      ServerPodName ` {v \<in> set ?ws - set G. \<exists>addr\<in>set (sees v). \<forall>u\<in>set G. addr \<notin> set (sees u)}"
    using del orph by (simp add: hasConflict_iff)
  obtain v where v: "v \<in> set ?ws" "hasConflict G v"
    using orph sp(2) by (metis (no_types, lifting) DiffD1 image_is_empty mem_Collect_eq set_empty ex_in_conv)
  then obtain g where g: "g \<in> set (groupPodsByClusterView ?ws)" "v \<in> set g" using groups_set [of ?ws] by auto
  note G = conflict_group_seen [OF assms(4) g v(2)]
  then have "set G \<subseteq> set ?ws" using groups_set [of ?ws] by auto
  then have 2: "set (fst (RepairSplitBrain del again a)) \<inter> ServerPodName ` set G = {}"
    using del orph names by (auto simp: distinct_map dest: inj_onD)
  have 3: "G \<noteq> []" using G groups_nonempty by metis
  have 4: "list_all (\<lambda>g. countUniqueServersInGroup g \<le> countUniqueServersInGroup G) (groupPodsByClusterView ?ws)"
    using largestGroup_max(1) [OF assms(4)] G by (simp add: list_all_iff)
  have 5: "2 * int (length (filter (\<lambda>v. ConnectionError v \<noteq> None) (ClusterViews a))) \<le> specServers cl"
    using sp(4) views by presburger
  show ?thesis using 1 2 3 4 5 by blast
qed

text \<open>A split in two: servers 0 and 1 see each other, server 2 sees itself alone.\<close>

definition up_server :: "string \<Rightarrow> server_info" where
  "up_server addr = \<lparr>srvID = addr, srvName = addr, srvAddress = addr, srvState = ''Enabled'',
     srvHealth = ''Available'', srvHosting = [], srvVersion = ''5.26.0''\<rparr>"

definition running_pod :: "string \<Rightarrow> pod" where
  "running_pod name = \<lparr>podName = name, podUID = name, podRevision = ''r1'', podDeleting = False,
     podPhase = ''Running'', podConditions = [(''Ready'', CondTrue)], podContainers = [],
     podInitStatuses = [], podStatuses = []\<rparr>"

definition ready_cluster :: cluster where
  "ready_cluster = \<lparr>clName = ''c'', clGeneration = 1, clAnnotations = Map.empty, specImageRepo = ''neo4j'',
     specImageTag = ''5.26.0'', specServers = 3, specUpgradeStrategy = None, stPhase = PhaseReady,
     stReady = True, stObservedGeneration = 1, stMessage = [], stVersion = ''5.26.0'', stRunningVersion = [],
     stLastUpgradeTime = None, stUpgradeStatus = None, stConditions = [], stDiagnostics = None\<rparr>"

definition three_pods :: "pod list" where
  "three_pods = map running_pod [''s0'', ''s1'', ''s2'']"

definition torn_answers :: "string \<Rightarrow> pod_answer" where
  "torn_answers p = (if p = ''s2'' then Listed [up_server ''s2''] else Listed [up_server ''s0'', up_server ''s1''])"

definition joining_answers :: "string \<Rightarrow> pod_answer" where
  "joining_answers p = (if p = ''s2'' then Listed [up_server ''s2'']
     else Listed (map up_server [''s0'', ''s1'', ''s2'']))"

definition torn_analysis :: SplitBrainAnalysis where
  "torn_analysis = projr (DetectSplitBrain torn_answers (Inr three_pods) ready_cluster)"

definition joining_analysis :: SplitBrainAnalysis where
  "joining_analysis = projr (DetectSplitBrain joining_answers (Inr three_pods) ready_cluster)"

lemma torn_detected:
  "DetectSplitBrain torn_answers (Inr three_pods) ready_cluster = Inr torn_analysis"
  "IsSplitBrain torn_analysis" "distinct (map podName three_pods)"
  "map ServerPodName (snd (largestGroup (groupPodsByClusterView (workingViews torn_analysis)))) = [''s0'', ''s1'']"
  "fst (RepairSplitBrain (\<lambda>_. PodGone) (Inr []) torn_analysis) = [''s2'']"
  by code_simp+

theorem repair_spares_the_largest_group_witness:
  "IsSplitBrain torn_analysis \<and> fst (RepairSplitBrain (\<lambda>_. PodGone) (Inr []) torn_analysis) = [''s2''] \<and>
   set (fst (RepairSplitBrain (\<lambda>_. PodGone) (Inr []) torn_analysis)) \<inter> set [''s0'', ''s1''] = {}"
  using repair_spares_the_largest_group [OF torn_detected(1-3), of _ _ "\<lambda>_. PodGone" "Inr []"]
    torn_detected(2,4,5) by (metis (no_types, lifting) set_map surjective_pairing)

text \<open>
  While one server sees every server that any server sees, which is how a cluster looks in
  which servers join, restart or are slow to learn of each other, nothing is deleted.
\<close>

theorem wide_view_restarts_nothing:
  assumes "DetectSplitBrain ask (Inr pods) cl = Inr a"
    and "w \<in> set (workingViews a)" "\<forall>v\<in>set (workingViews a). set (sees v) \<subseteq> set (sees w)"
  shows "\<not> IsSplitBrain a \<and> fst (RepairSplitBrain del again a) = []"
proof -
  let ?vs = "map (\<lambda>p. getClusterViewFromPod ask (podName p)) (filter (\<lambda>p. podPhase p = ''Running'') pods)"
  let ?gs = "groupPodsByClusterView (workingViews a)"
  obtain m G where mG: "largestGroup ?gs = (m, G)" by fastforce
  have "\<not> IsSplitBrain a"
  proof
    assume split: "IsSplitBrain a"
    have a: "a = analyzeClusterViews ?vs (specServers cl)" using detect_split(1) [OF assms(1) split] .
    have views: "ClusterViews a = ?vs"
      using analyze_split [of ?vs "specServers cl"] split unfolding a by (metis prod.exhaust)
    then have ws: "workingViews a = filter (\<lambda>v. ConnectionError v = None) ?vs" by (simp add: workingViews_def)
    have "orphaned ?gs G \<noteq> []"
      using analyze_split [of ?vs "specServers cl" m G] split mG unfolding a [symmetric] ws [symmetric] by auto
    then obtain g v where g: "g \<in> set ?gs" "v \<in> set g" "hasConflict G v"
      by (auto simp: orphaned_def filter_empty_conv)
    note G = conflict_group_seen [OF mG g]
    obtain h where h: "h \<in> set ?gs" "w \<in> set h" using groups_set [of "workingViews a"] assms(2) by auto
    have within: "(\<Union>u\<in>set k. set (sees u)) \<subseteq> set (sees w)" if "k \<in> set ?gs" for k
      using that groups_set [of "workingViews a"] assms(3) by fastforce
    have "card (set (sees w)) \<le> card (\<Union>u\<in>set h. set (sees u))" using h(2) by (intro card_mono) auto
    also have "\<dots> \<le> card (\<Union>u\<in>set G. set (sees u))"
      using largestGroup_max(1) [OF mG] h(1) G by (simp add: unique_card [symmetric])
    finally have "(\<Union>u\<in>set G. set (sees u)) = set (sees w)" using within G by (intro card_seteq) auto
    moreover have "set (sees v) \<subseteq> set (sees w)" using g(1,2) groups_set [of "workingViews a"] assms(3) by fastforce
    ultimately show False using g(3) by (auto simp: hasConflict_iff)
  qed
  then show ?thesis by (simp add: RepairSplitBrain_def)
qed

lemma joining_detected:
  "DetectSplitBrain joining_answers (Inr three_pods) ready_cluster = Inr joining_analysis"
  "list_all (\<lambda>v. set (sees v) \<subseteq> set (sees (hd (workingViews joining_analysis)))) (workingViews joining_analysis)"
  "hd (workingViews joining_analysis) \<in> set (workingViews joining_analysis)"
  "length (groupPodsByClusterView (workingViews joining_analysis)) = 2"
  by code_simp+

theorem wide_view_restarts_nothing_witness:
  "length (groupPodsByClusterView (workingViews joining_analysis)) = 2 \<and> \<not> IsSplitBrain joining_analysis"
  using wide_view_restarts_nothing [OF joining_detected(1) joining_detected(3)] joining_detected(2,4)
  by (simp add: list_all_iff)

section \<open>When two views count as one\<close>

text \<open>
  The comment above \<^verbatim>\<open>similarity\<close> says that views are similar when they share 80\% of the
  servers. Twice the common servers are divided by all of them, so that 40\% is enough.
\<close>

lemma countCommon_card: "distinct as \<Longrightarrow> countCommonAddresses as bs = card (set as \<inter> set bs)"
  by (simp add: countCommonAddresses_def distinct_card [symmetric] Int_def)

lemma haveSimilarClusterView_forty_percent:
  assumes "distinct (sees v1)" "distinct (sees v2)"
  shows "haveSimilarClusterView v1 v2 \<longleftrightarrow>
    5 * card (set (sees v1) \<inter> set (sees v2)) \<ge> 2 * card (set (sees v1) \<union> set (sees v2))"
proof -
  have "card (set (sees v1) \<union> set (sees v2)) =
      length (sees v1) + length (sees v2) - card (set (sees v1) \<inter> set (sees v2))"
    using card_Un_Int [of "set (sees v1)" "set (sees v2)"] assms by (simp add: distinct_card)
  then show ?thesis unfolding haveSimilarClusterView_def countCommon_card [OF assms(1)] Let_def by auto
qed

text \<open>So five servers whose views contradict each other pass for one cluster.\<close>

lemma contradicting_views_pass:
  "let view = (\<lambda>p as. \<lparr>ServerPodName = p, Servers = map up_server as, ConnectionError = None\<rparr>);
       a = analyzeClusterViews
         (map (\<lambda>p. view p [''s0'', ''s1'', ''s2'', ''s3'']) [''s0'', ''s1'', ''s2''] @
          map (\<lambda>p. view p [''s2'', ''s3'', ''s4'']) [''s3'', ''s4'']) 5
   in \<not> IsSplitBrain a \<and> anRepairAction a = RepairActionNone"
  by code_simp

end
