(* ===== verification/Availability.thy ===== *)
theory Availability
  imports Raise_Hold Split_Brain
begin

text \<open>
  Whether a cluster is Ready, Degraded or Forming: \<^verbatim>\<open>src/internal/controller/cluster_availability.go\<close>
  and, of \<^verbatim>\<open>neo4jenterprisecluster_controller.go\<close>, \<^verbatim>\<open>verifyNeo4jClusterFormation\<close>,
  \<^verbatim>\<open>legacyClusterFormationCheck\<close>, \<^verbatim>\<open>serverStatefulSetFullyRolled\<close>, \<^verbatim>\<open>reconcileServerShortfall\<close>
  and the end of \<^verbatim>\<open>reconcileCluster\<close> that calls them.

  What Neo4j and the API server answer is the environment of the pass; what the controller keeps
  in memory between passes is \<open>formation_mem\<close>. The text \<^verbatim>\<open>diagnoseUnhealthyMembers\<close> makes of the
  pods is an argument.
\<close>

section \<open>The model\<close>

definition DefaultServerUnavailableGrace :: int where
  "DefaultServerUnavailableGrace = 5 * 60 * 10 ^ 9"

subsection \<open>How a server is named in a message\<close>

text \<open>\<^verbatim>\<open>net.SplitHostPort\<close>: the host, if there is no error.\<close>

definition split_host_port :: "string \<Rightarrow> string option" where
  "split_host_port s =
     (case last_index s CHR '':'' of None \<Rightarrow> None
      | Some i \<Rightarrow>
        if hd s = CHR ''['' then
          (if CHR '']'' \<notin> set s then None
           else let e = length (takeWhile (\<lambda>c. c \<noteq> CHR '']'') s) in
             if e + 1 \<noteq> i then None
             else if CHR ''['' \<in> set (drop 1 s) \<or> CHR '']'' \<in> set (drop (e + 1) s) then None
             else Some (drop 1 (take e s)))
        else if CHR '':'' \<in> set (take i s) \<or> CHR ''['' \<in> set s \<or> CHR '']'' \<in> set s then None
        else Some (take i s))"

text \<open>\<^verbatim>\<open>net.ParseIP\<close>: whether the text is an IPv4 address, or an IPv6 address without a zone.\<close>

definition is_octet :: "string \<Rightarrow> bool" where
  "is_octet s = (s \<noteq> [] \<and> list_all is_digit s \<and> length s \<le> 3 \<and> digits_val s \<le> 255 \<and>
     (length s = 1 \<or> hd s \<noteq> CHR ''0''))"

definition is_ipv4 :: "string \<Rightarrow> bool" where
  "is_ipv4 s = (let parts = split_on CHR ''.'' s in length parts = 4 \<and> list_all is_octet parts)"

definition is_group :: "string \<Rightarrow> bool" where
  "is_group s = (s \<noteq> [] \<and> length s \<le> 4 \<and> list_all is_hex s)"

text \<open>Groups joined by colons, the last of them perhaps an IPv4 address: how many groups, if well formed.\<close>

definition group_count :: "string \<Rightarrow> nat option" where
  "group_count s =
     (if s = [] then Some 0
      else let gs = split_on CHR '':'' s in
        if list_all is_group gs then Some (length gs)
        else if list_all is_group (butlast gs) \<and> is_ipv4 (last gs) then Some (length gs + 1)
        else None)"

definition is_ipv6 :: "string \<Rightarrow> bool" where
  "is_ipv6 s =
     (case str_index s ''::'' of
        None \<Rightarrow> s \<noteq> [] \<and> group_count s = Some 8
      | Some i \<Rightarrow>
          (case (group_count (take i s), group_count (drop (i + 2) s)) of
             (Some a, Some b) \<Rightarrow> a + b < 8 \<and> \<not> str_contains (take i s) ''.''
           | _ \<Rightarrow> False))"

definition describeServer :: "server_info \<Rightarrow> string" where
  "describeServer s =
     (let host = (case split_host_port (srvAddress s) of Some h \<Rightarrow> h | None \<Rightarrow> srvAddress s);
          name = (if host = [] then srvName s
                  else if is_ipv4 host \<or> is_ipv6 host then host
                  else cut_at CHR ''.'' host)
      in name @ '' ('' @ srvHealth s @ '')'')"

subsection \<open>What a cluster short of servers is\<close>

datatype availabilityVerdict =
  verdictForming | verdictQuorumLost | verdictWithinGrace | verdictDegraded | verdictUnmeasured | verdictNoneShort

record shortfallInput =
  Formed :: bool
  RolloutInFlight :: bool
  SplitBrain :: bool
  siServers :: "server_info list option"
  ReadyServerPods :: int
  UnreachableSince :: "int option"
  NotReadyPods :: "string list"
  Expected :: int
  UnavailableSince :: "int option"
  siNow :: int
  Grace :: int

record shortfallAssessment =
  Verdict :: availabilityVerdict
  Available :: int
  aExpected :: int
  Unavailable :: "string list"

definition assessServerShortfall :: "shortfallInput \<Rightarrow> shortfallAssessment" where
  "assessServerShortfall i =
     (let a = \<lparr>Verdict = verdictForming, Available = 0, aExpected = Expected i, Unavailable = []\<rparr> in
      if \<not> Formed i \<or> RolloutInFlight i \<or> SplitBrain i \<or> Expected i < 1 then a
      else case siServers i of
        None \<Rightarrow>
          if ReadyServerPods i * 2 > Expected i \<and>
             (case UnreachableSince i of None \<Rightarrow> False | Some t \<Rightarrow> siNow i - t < Grace i)
          then a\<lparr>Verdict := verdictUnmeasured\<rparr> else a
      | Some servers \<Rightarrow>
          (let members = filter serverIsMember servers;
               available = int (length (filter (\<lambda>s. srvHealth s = ''Available'') members));
               unavailable = map describeServer (filter (\<lambda>s. srvHealth s \<noteq> ''Available'') members);
               b = a\<lparr>Available := available, Unavailable := unavailable\<rparr>
           in if int (length members) < Expected i then b
              else if unavailable = [] \<and> NotReadyPods i = [] then b\<lparr>Verdict := verdictNoneShort\<rparr>
              else if available * 2 \<le> Expected i then b\<lparr>Verdict := verdictQuorumLost\<rparr>
              else (let since = (case UnavailableSince i of None \<Rightarrow> siNow i | Some t \<Rightarrow> t) in
                    if siNow i - since < Grace i then b\<lparr>Verdict := verdictWithinGrace\<rparr>
                    else b\<lparr>Verdict := verdictDegraded\<rparr>)))"

definition assessment_summary :: "shortfallAssessment \<Rightarrow> string" where
  "assessment_summary a =
     itoa (Available a) @ '' of '' @ itoa (aExpected a) @ '' servers available'' @
     (if Unavailable a = [] then [] else ''; unavailable: '' @ join '', '' (Unavailable a))"

definition outageDetail :: "shortfallAssessment \<Rightarrow> string list \<Rightarrow> string" where
  "outageDetail a notReadyPods =
     (if Unavailable a \<noteq> [] \<or> notReadyPods = [] then assessment_summary a
      else ''Neo4j still lists '' @ itoa (Available a) @ '' of '' @ itoa (aExpected a) @
        '' servers available; server pods not ready: '' @ join '', '' notReadyPods)"

text \<open>\<open>None\<close>: the pods cannot be listed. Of two pods with a name the map keeps the last.\<close>

definition notReadyServerPods :: "cluster \<Rightarrow> pod list option \<Rightarrow> string list" where
  "notReadyServerPods cl pods =
     (case pods of None \<Rightarrow> []
      | Some ps \<Rightarrow>
          List.map_filter (\<lambda>n. let name = serverPodName (clName cl) n in
              case find (\<lambda>p. podName p = name) (rev ps) of
                None \<Rightarrow> Some (name @ '' (missing)'')
              | Some p \<Rightarrow> if podDeleting p then Some (name @ '' (terminating)'')
                          else if \<not> isPodReady p then Some (name @ '' (not ready)'') else None)
            [0..specServers cl - 1])"

definition readyServerPods :: "pod list option \<Rightarrow> int" where
  "readyServerPods pods = (case pods of None \<Rightarrow> 0 | Some ps \<Rightarrow> int (length (filter isPodReady ps)))"

definition hasReadyCondition :: "condition list \<Rightarrow> bool" where
  "hasReadyCondition cs = list_ex (\<lambda>c. cType c = ConditionTypeReady \<and> cStatus c = CondTrue) cs"

definition clusterAcceptsWork :: "cluster \<Rightarrow> bool" where
  "clusterAcceptsWork cl =
     (if stPhase cl = PhaseReady \<or> stPhase cl = PhaseDegraded then True
      else hasReadyCondition (stConditions cl))"

definition serverUnavailableGrace :: "int \<Rightarrow> int" where
  "serverUnavailableGrace configured = (if configured > 0 then configured else DefaultServerUnavailableGrace)"

definition clusterFormedCondition :: "string \<times> condition_status \<times> string \<times> string" where
  "clusterFormedCondition = (ConditionTypeClusterFormed, CondTrue, ''FormationComplete'',
     ''Every server has joined the cluster; a server lost from here on is reported through the Degraded condition'')"

definition serversUnavailableCondition :: "string \<Rightarrow> string \<times> condition_status \<times> string \<times> string" where
  "serversUnavailableCondition message =
     (ConditionTypeDegraded, CondTrue, ConditionReasonServersUnavailable, message)"

definition allServersAvailableCondition :: "int \<Rightarrow> string \<times> condition_status \<times> string \<times> string" where
  "allServersAvailableCondition servers =
     (ConditionTypeDegraded, CondFalse, ConditionReasonAllServersAvailable,
      ''All '' @ itoa servers @ '' servers are available'')"

subsection \<open>Rollouts\<close>

definition statefulSetRolloutInFlight :: "stateful_set \<Rightarrow> bool" where
  "statefulSetRolloutInFlight sts =
     (stsObservedGeneration sts < stsGeneration sts \<or>
      stsUpdateRevision sts \<noteq> [] \<and> stsCurrentRevision sts \<noteq> stsUpdateRevision sts)"

text \<open>\<open>written\<close>: the generation this operator last wrote to the StatefulSet with this UID.\<close>

definition serverTemplateWriteUnobserved :: "int option \<Rightarrow> stateful_set \<Rightarrow> bool" where
  "serverTemplateWriteUnobserved written sts =
     (stsObservedGeneration sts < stsGeneration sts \<or>
      (case written of None \<Rightarrow> False | Some g \<Rightarrow> stsGeneration sts < g))"

definition serverRolloutInFlight :: "cluster \<Rightarrow> int option \<Rightarrow> stateful_set api_read \<Rightarrow> bool" where
  "serverRolloutInFlight cl written cached =
     (case cached of
        Found sts \<Rightarrow>
          if serverTemplateWriteUnobserved written sts then True
          else (let part = keptUpgradePartition cl (Some sts) in
                if part > 0 then fst (heldRolloutPending sts part)
                else statefulSetRolloutInFlight sts)
      | _ \<Rightarrow> True)"

definition serverStatefulSetFullyRolled ::
  "cluster \<Rightarrow> int option \<Rightarrow> stateful_set api_read \<Rightarrow> bool \<times> string" where
  "serverStatefulSetFullyRolled cl written cached =
     (case cached of
        Found sts \<Rightarrow>
          (let replicas = (case stsReplicas sts of None \<Rightarrow> 1 | Some r \<Rightarrow> r);
               part = keptUpgradePartition cl (Some sts);
               count = (\<lambda>n. itoa n @ ''/'' @ itoa replicas)
           in if serverTemplateWriteUnobserved written sts
              then (False, ''the StatefulSet controller has not seen the current template'')
              else if part > 0 then
                (if fst (heldRolloutPending sts part) then (False, snd (heldRolloutPending sts part))
                 else if stsReadyReplicas sts < replicas
                 then (False, count (stsReadyReplicas sts) @ '' pods ready'')
                 else (True, []))
              else if stsUpdateRevision sts \<noteq> [] \<and> stsCurrentRevision sts \<noteq> stsUpdateRevision sts
              then (False, ''revision rollout in progress ('' @ count (stsUpdatedReplicas sts) @ '' pods updated)'')
              else if stsUpdatedReplicas sts < replicas \<or> stsReadyReplicas sts < replicas
              then (False, count (stsUpdatedReplicas sts) @ '' pods updated, '' @
                count (stsReadyReplicas sts) @ '' ready'')
              else (True, []))
      | _ \<Rightarrow> (False, ''server StatefulSet not found''))"

subsection \<open>Has the cluster formed?\<close>

record connectivityFailureStreak =
  streakSince :: int
  streakCount :: int
  streakAnnounced :: bool

record formation_mem =
  fmCheck :: "splitBrainCheck option"
  fmStreak :: "connectivityFailureStreak option"
  fmAnnounced :: "availabilityVerdict option"

record formation_env =
  feNow :: int
  feClient :: "string option"                    \<comment> \<open>the error of making a client\<close>
  feList :: "string + server_info list"
  fePodIssues :: string
  feURI :: string
  feFormatTime :: "int \<Rightarrow> string"
  feInterval :: int
  fePods :: "string + pod list"                  \<comment> \<open>the pods, for the fingerprint\<close>
  feDetectPods :: "string + pod list"            \<comment> \<open>and as the detection lists them\<close>
  feAsk :: "string \<Rightarrow> pod_answer"
  feDelete :: "string \<Rightarrow> delete_outcome"
  feRepairPods :: "string + pod list"
  feLegacyClient :: bool
  feLegacyList :: "nat \<Rightarrow> string + server_info list"
  feCancelled :: "nat \<Rightarrow> bool"                  \<comment> \<open>the context ends in the wait after an attempt\<close>
  feCached :: "stateful_set api_read"
  feCachedAgain :: "stateful_set api_read"
  feReadyPods :: "pod list option"
  feWritten :: "int option"
  feGrace :: int
  feWrite :: write_outcome

record formationCheck =
  fcFormed :: bool
  fcMessage :: string
  fcServers :: "server_info list option"
  fcSplitBrain :: bool

definition formation_check :: "bool \<Rightarrow> string \<Rightarrow> server_info list option \<Rightarrow> formationCheck" where
  "formation_check formed message servers =
     \<lparr>fcFormed = formed, fcMessage = message, fcServers = servers, fcSplitBrain = False\<rparr>"

definition connectivityFailureEventThreshold :: int where
  "connectivityFailureEventThreshold = 10"
definition connectivityFailureEventMinDuration :: int where
  "connectivityFailureEventMinDuration = 5 * 60 * 10 ^ 9"

definition recordConnectivityFailure ::
  "int \<Rightarrow> connectivityFailureStreak option \<Rightarrow> connectivityFailureStreak" where
  "recordConnectivityFailure now streak =
     (let s = (case streak of None \<Rightarrow> \<lparr>streakSince = now, streakCount = 0, streakAnnounced = False\<rparr> | Some s \<Rightarrow> s)
      in s\<lparr>streakCount := streakCount s + 1\<rparr>)"

definition dueForEvent :: "int \<Rightarrow> connectivityFailureStreak \<Rightarrow> connectivityFailureStreak \<times> bool" where
  "dueForEvent now s =
     (if streakAnnounced s \<or> streakCount s < connectivityFailureEventThreshold \<or>
         now - streakSince s < connectivityFailureEventMinDuration then (s, False)
      else (s\<lparr>streakAnnounced := True\<rparr>, True))"

definition unreachableSince :: "formation_mem \<Rightarrow> int option" where
  "unreachableSince m = map_option streakSince (fmStreak m)"

text \<open>The retries of \<^verbatim>\<open>legacyClusterFormationCheck\<close>, by how many attempts are left.\<close>

fun legacy_attempts :: "formation_env \<Rightarrow> int \<Rightarrow> nat \<Rightarrow> bool \<times> string" where
  "legacy_attempts e expected 0 = (False, ''Cluster formation verification incomplete'')"
| "legacy_attempts e expected (Suc k) =
     (let attempt = 3 - k in
      case feLegacyList e attempt of
        Inl err \<Rightarrow>
          if attempt = 3 then (False, ''Cannot query server list after 3 attempts: '' @ err)
          else if feCancelled e attempt then (False, ''Context cancelled during cluster formation check'')
          else legacy_attempts e expected k
      | Inr servers \<Rightarrow>
          (let available = int (countAvailableServers servers) in
           if available \<ge> expected then
             (if attempt = 1 then
                (if feCancelled e attempt then (False, ''Context cancelled during stability check'')
                 else legacy_attempts e expected k)
              else (True, ''Cluster formation complete and stable: '' @ itoa available @ ''/'' @ itoa expected @
                '' servers available''))
           else if attempt < 3 then
             (if feCancelled e attempt then (False, ''Context cancelled during cluster formation wait'')
              else legacy_attempts e expected k)
           else legacy_attempts e expected k))"

definition legacyClusterFormationCheck :: "formation_env \<Rightarrow> int \<Rightarrow> bool \<times> string" where
  "legacyClusterFormationCheck e expected =
     (if \<not> feLegacyClient e then (False, ''Waiting for Neo4j to accept connections'')
      else legacy_attempts e expected 3)"

text \<open>Neo4j did not answer.\<close>

definition unreachable_check ::
  "formation_env \<Rightarrow> string \<Rightarrow> formation_mem \<Rightarrow> formation_mem \<times> effect list \<times> formationCheck" where
  "unreachable_check e err m =
     (let streak = recordConnectivityFailure (feNow e) (fmStreak m);
          (streak', due) = dueForEvent (feNow e) streak;
          issues = fePodIssues e;
          announcement = ''Operator has failed to reach Neo4j at '' @ feURI e @ '' for '' @ itoa (streakCount streak) @
            '' consecutive reconciles (since '' @ feFormatTime e (streakSince streak) @ ''); last error: '' @ err @
            (if issues = [] then [] else ''; '' @ issues)
      in (m\<lparr>fmStreak := Some streak'\<rparr>,
          if due then [Event True ''ConnectivityDegraded'' announcement] else [],
          formation_check False (''Waiting for Neo4j to accept connections'' @
            (if issues = [] then [] else ''; '' @ issues)) None))"

text \<open>The full check: the detection, and the repair of what it finds.\<close>

definition full_check ::
  "formation_env \<Rightarrow> cluster \<Rightarrow> server_info list \<Rightarrow> string \<Rightarrow> formation_mem
   \<Rightarrow> formation_mem \<times> effect list \<times> formationCheck" where
  "full_check e cl servers fingerprint m =
     (let expected = specServers cl;
          legacy = (case legacyClusterFormationCheck e expected of (formed, msg) \<Rightarrow>
            (m, [], formation_check formed msg (Some servers)))
      in case DetectSplitBrain (feAsk e) (feDetectPods e) cl of
        Inl err \<Rightarrow> legacy
      | Inr a \<Rightarrow>
          if IsSplitBrain a then
            (let found = Event True ''SplitBrainDetected'' (splitBrainMessage a);
                 check = (\<lambda>msg. \<lparr>fcFormed = False, fcMessage = msg, fcServers = Some servers, fcSplitBrain = True\<rparr>)
             in if anRepairAction a = RepairActionRestartPods then
                  (case RepairSplitBrain (feDelete e) (feRepairPods e) a of
                     (gone, Some err) \<Rightarrow>
                       (m, found # map PodDeleted gone @ [Event True ''SplitBrainRepairFailed''
                          (''Automatic split-brain repair failed: '' @ err)],
                        check (''Split-brain repair failed: '' @ err))
                   | (gone, None) \<Rightarrow>
                       (m, found # map PodDeleted gone @ [Event False ''SplitBrainRepaired''
                          ''Split-brain automatically repaired by restarting orphaned pods''],
                        check ''Split-brain repaired, waiting for cluster reformation''))
                else (m, [found], check (splitBrainMessage a)))
          else if anRepairAction a = RepairActionWaitForming then
            (m, [], formation_check False (ErrorMessage a) (Some servers))
          else if ClusterViews a \<noteq> [] \<and> ConnectionError (LargestCluster a) = None then
            (let available = int (countAvailableServers (Servers (LargestCluster a)));
                 count = itoa available @ ''/'' @ itoa expected @ '' servers available''
             in if available \<ge> expected then
                  (m\<lparr>fmCheck := recordCleanSplitBrainCheck cl fingerprint (feNow e) (fmCheck m)\<rparr>, [],
                   formation_check True (''Cluster formation complete: '' @ count) (Some servers))
                else (m, [], formation_check False (''Cluster forming: '' @ count) (Some servers)))
          else legacy)"

definition verifyNeo4jClusterFormation ::
  "formation_env \<Rightarrow> cluster \<Rightarrow> formation_mem \<Rightarrow> formation_mem \<times> effect list \<times> formationCheck" where
  "verifyNeo4jClusterFormation e cl m =
     (let expected = specServers cl in
      if expected = 1 then (m, [], formation_check True ''Single server cluster - formation complete'' None)
      else case feClient e of
        Some err \<Rightarrow> unreachable_check e err m
      | None \<Rightarrow>
        (case feList e of
           Inl err \<Rightarrow> unreachable_check e err m
         | Inr servers \<Rightarrow>
           (let m1 = m\<lparr>fmStreak := None\<rparr>;
                (skip, fingerprint) = skipSplitBrainCheck (feInterval e) (feNow e) (fePods e) (fmCheck m1) cl servers
            in if skip then
                 (m1, [], formation_check True (''Cluster formation complete: '' @
                    itoa (int (countAvailableServers servers)) @ ''/'' @ itoa expected @ '' servers available'')
                    (Some servers))
               else full_check e cl servers fingerprint (m1\<lparr>fmCheck := None\<rparr>))))"

subsection \<open>The status of a cluster that is short\<close>

definition firstAnnouncement :: "availabilityVerdict \<Rightarrow> bool \<Rightarrow> formation_mem \<Rightarrow> formation_mem \<times> bool" where
  "firstAnnouncement verdict alreadyInPhase m =
     (m\<lparr>fmAnnounced := Some verdict\<rparr>, \<not> alreadyInPhase \<and> fmAnnounced m \<noteq> Some verdict)"

definition knownServers :: "world \<Rightarrow> server_info list option \<Rightarrow> (string \<rightharpoonup> string) \<times> server_info list option" where
  "knownServers w servers =
     (case servers of None \<Rightarrow> (wAddresses w, None)
      | Some rows \<Rightarrow>
          (let (book, out) = fill_addresses (remember_diagnostics (stDiagnostics (wMem w)) (wAddresses w)) rows
           in (book, Some out)))"

definition shortfall_input :: "formation_env \<Rightarrow> formation_mem \<Rightarrow> world \<Rightarrow> formationCheck \<Rightarrow> shortfallInput" where
  "shortfall_input e m w f =
     (let cl = wMem w; formed = clusterHasFormed cl in
      \<lparr>Formed = formed,
       RolloutInFlight = (formed \<and> serverRolloutInFlight cl (feWritten e) (feCachedAgain e)),
       SplitBrain = fcSplitBrain f,
       siServers = snd (knownServers w (fcServers f)),
       ReadyServerPods = (if formed \<and> fcServers f = None then readyServerPods (feReadyPods e) else 0),
       UnreachableSince = (if formed \<and> fcServers f = None then unreachableSince m else None),
       NotReadyPods = (if formed \<and> fcServers f \<noteq> None then notReadyServerPods cl (feReadyPods e) else []),
       Expected = specServers cl,
       UnavailableSince = serversUnavailableSince cl,
       siNow = feNow e, Grace = serverUnavailableGrace (feGrace e)\<rparr>)"

text \<open>The grace as \<^verbatim>\<open>%s\<close> prints it is an argument.\<close>

definition reconcileServerShortfall ::
  "(int \<Rightarrow> string) \<Rightarrow> formation_env \<Rightarrow> formationCheck \<Rightarrow> string \<Rightarrow> formation_mem \<times> world \<Rightarrow> formation_mem \<times> world" where
  "reconcileServerShortfall showDuration e f detail mw =
     (case mw of (m, w0) \<Rightarrow>
      let i = shortfall_input e m w0 f;
          a = assessServerShortfall i;
          w = w0\<lparr>wAddresses := fst (knownServers w0 (fcServers f))\<rparr>;
          short = outageDetail a (NotReadyPods i);
          conds = [clusterFormedCondition, serversUnavailableCondition short];
          put = (\<lambda>phase message w. fst (updateClusterStatusWithVersion (feNow e) (feWrite e) phase message [] conds w))
      in case Verdict a of
           verdictUnmeasured \<Rightarrow> (m, w)
         | verdictNoneShort \<Rightarrow> (m, w)
         | verdictQuorumLost \<Rightarrow>
             (let (m1, first) = firstAnnouncement verdictQuorumLost False m
              in (m1, put PhaseForming (''Waiting for a majority of servers: '' @ short)
                   (if first then logged [Event True ''ClusterQuorumLost''
                      (''Neo4j cluster has lost a majority of its servers ('' @ short @
                       ''); resources that depend on it pause until a majority is back'')] w else w)))
         | verdictWithinGrace \<Rightarrow> (m, put PhaseReady (''Neo4j cluster is serving. '' @ short) w)
         | verdictDegraded \<Rightarrow>
             (let (m1, first) = firstAnnouncement verdictDegraded (stPhase (wMem w) = PhaseDegraded) m
              in (m1, put PhaseDegraded (''Neo4j cluster is serving but degraded for longer than '' @
                     showDuration (Grace i) @ ''. '' @ short)
                   (if first then logged [Event True ''ClusterDegraded''
                      (''Neo4j cluster has been short of servers for longer than '' @ showDuration (Grace i) @
                       '': '' @ short)] w else w)))
         | verdictForming \<Rightarrow>
             (let found = (if Formed i then (case siServers i of None \<Rightarrow> []
                    | Some rows \<Rightarrow> droppedServersInKeptPods rows (NotReadyPods i) (clName (wMem w)) (Expected i)) else []);
                  message = (if found = [] then detail else droppedServersMessage (clName (wMem w)) found);
                  prior = wStored w;
                  w1 = fst (writeClusterStatus (feNow e) (feWrite e) PhaseForming message (versionRecord []) [] w);
                  landed = (case feWrite e of Written \<Rightarrow> True | _ \<Rightarrow> False)
              in (m, logged
                   ((if landed \<and> stPhase prior \<noteq> PhaseForming \<and> \<not> clusterHasFormed prior
                     then [Event False ''ClusterFormationStarted'' ''Neo4j cluster formation started''] else []) @
                    (if found \<noteq> [] \<and> landed \<and> stMessage prior \<noteq> message
                     then [Event True ''DroppedServersReturned'' message] else [])) w1)))"

text \<open>The end of the normal pass.\<close>

definition formation_tail ::
  "(int \<Rightarrow> string) \<Rightarrow> formation_env \<Rightarrow> formation_mem \<times> world \<Rightarrow> formation_mem \<times> world" where
  "formation_tail showDuration e mw =
     (case mw of (m, w) \<Rightarrow>
      case verifyNeo4jClusterFormation e (wMem w) m of
        (m1, effects, f) \<Rightarrow>
          (let w1 = logged effects w;
               (rolled, detail) = serverStatefulSetFullyRolled (wMem w) (feWritten e) (feCached e)
           in if \<not> fcFormed f then reconcileServerShortfall showDuration e f (fcMessage f) (m1, w1)
              else if \<not> rolled then reconcileServerShortfall showDuration e f
                (''Waiting for every server pod to be updated and ready: '' @ detail) (m1, w1)
              else (m1\<lparr>fmAnnounced := None\<rparr>,
                fst (recordClusterReady (feNow e) (feWrite e) (feCachedAgain e)
                  (case fcServers f of None \<Rightarrow> [] | Some rows \<Rightarrow> rows)
                  [clusterFormedCondition, allServersAvailableCondition (specServers (wMem w))] w1))))"


section \<open>A cluster serves only with a majority\<close>

text \<open>The rows Neo4j or one of its servers answered with in the pass.\<close>

definition answered :: "formation_env \<Rightarrow> server_info list \<Rightarrow> bool" where
  "answered e rows \<longleftrightarrow> feList e = Inr rows \<or> (\<exists>p. feAsk e p = Listed rows) \<or> (\<exists>n. feLegacyList e n = Inr rows)"

lemma legacy_formed:
  "fst (legacy_attempts e expected k) \<Longrightarrow> \<exists>rows. answered e rows \<and> expected \<le> int (countAvailableServers rows)"
  by (induction e expected k rule: legacy_attempts.induct)
     (auto simp: Let_def answered_def split: sum.splits if_splits)

lemma largest_view:
  assumes "largestGroup gs = (m, v # G)"
  shows "\<exists>g\<in>set gs. v \<in> set g"
  using largestGroup_max(2,3) [OF assms] by (metis gr0I list.discI list.set_intros(1))

lemma analyzeGroups_largest:
  "LargestCluster (analyzeGroups ws expected a0) = LargestCluster a0 \<or>
   LargestCluster (analyzeGroups ws expected a0) \<in> set ws"
proof -
  obtain m G where G: "largestGroup (groupPodsByClusterView ws) = (m, G)" by fastforce
  then have "\<forall>v G'. G = v # G' \<longrightarrow> v \<in> set ws" using largest_view groups_set [of ws] by fastforce
  then show ?thesis by (auto simp: analyzeGroups_def G Let_def split: list.splits)
qed

lemma detect_largest:
  assumes "DetectSplitBrain ask pods cl = Inr a" "ClusterViews a \<noteq> []"
  shows "LargestCluster a = no_view \<or> (\<exists>p. LargestCluster a = getClusterViewFromPod ask p)"
proof -
  obtain ps where "pods = Inr ps" and a: "a = analyzeClusterViews
      (map (\<lambda>p. getClusterViewFromPod ask (podName p)) (filter (\<lambda>p. podPhase p = ''Running'') ps)) (specServers cl)"
    using assms by (auto simp: DetectSplitBrain_def Let_def analysis_of_def split: if_splits sum.splits)
  let ?vs = "map (\<lambda>p. getClusterViewFromPod ask (podName p)) (filter (\<lambda>p. podPhase p = ''Running'') ps)"
  have "LargestCluster (analyzeClusterViews ?vs (specServers cl)) = no_view \<or>
      LargestCluster (analyzeClusterViews ?vs (specServers cl)) \<in> set ?vs"
    using analyzeGroups_largest [of "filter (\<lambda>v. ConnectionError v = None) ?vs" "specServers cl" "analysis_of ?vs (specServers cl)"]
    by (simp add: analyzeClusterViews_def Let_def analysis_of_def del: set_map set_filter) auto
  then show ?thesis unfolding a by auto
qed

lemma view_listed: "Servers (getClusterViewFromPod ask p) = [] \<or> ask p = Listed (Servers (getClusterViewFromPod ask p))"
  by (simp add: getClusterViewFromPod_def split: pod_answer.splits)

lemma largest_answered:
  assumes "DetectSplitBrain (feAsk e) pods cl = Inr a" "ClusterViews a \<noteq> []"
    and "0 < countAvailableServers (Servers (LargestCluster a))"
  shows "answered e (Servers (LargestCluster a))"
proof -
  have "Servers (LargestCluster a) \<noteq> []" using assms(3) by (auto simp: countAvailableServers_def)
  moreover from this obtain p where "LargestCluster a = getClusterViewFromPod (feAsk e) p"
    using detect_largest [OF assms(1,2)] by (auto simp: no_view_def)
  ultimately show ?thesis using view_listed [of "feAsk e" p] by (auto simp: answered_def)
qed

lemma full_check_formed:
  assumes "full_check e cl servers fp m = (m', es, f)" "fcFormed f" "1 \<le> specServers cl"
  shows "\<exists>rows. answered e rows \<and> specServers cl \<le> int (countAvailableServers rows)"
  using assms legacy_formed [of e "specServers cl" 3] largest_answered [of e "feDetectPods e" cl]
  by (auto simp: full_check_def legacyClusterFormationCheck_def formation_check_def Let_def
      split: sum.splits if_splits prod.splits option.splits)

lemma skip_counts:
  "fst (skipSplitBrainCheck interval now pods lc cl servers) \<Longrightarrow> specServers cl \<le> int (countAvailableServers servers)"
  by (auto simp: skipSplitBrainCheck_def splitBrainCheckSkippable_def Let_def split: sum.splits if_splits option.splits)

lemma unreachable_not_formed:
  "unreachable_check e err m = (m', es, f) \<Longrightarrow> \<not> fcFormed f \<and> fcServers f = None"
  by (auto simp: unreachable_check_def formation_check_def Let_def split: prod.splits)

lemma verify_formed:
  assumes "verifyNeo4jClusterFormation e cl m = (m', es, f)" "fcFormed f" "1 < specServers cl"
  shows "\<exists>rows. answered e rows \<and> specServers cl \<le> int (countAvailableServers rows)"
proof -
  obtain servers where l: "feClient e = None" "feList e = Inr servers"
    using assms unreachable_not_formed
    by (auto simp: verifyNeo4jClusterFormation_def Let_def split: sum.splits option.splits)
  then have ans: "answered e servers" by (simp add: answered_def)
  obtain skip fp where s: "skipSplitBrainCheck (feInterval e) (feNow e) (fePods e) (fmCheck m) cl servers = (skip, fp)"
    by fastforce
  show ?thesis
  proof (cases skip)
    case True
    then show ?thesis using ans skip_counts [of "feInterval e" "feNow e" "fePods e" "fmCheck m" cl servers] s by auto
  next
    case False
    then have "full_check e cl servers fp (m\<lparr>fmStreak := None, fmCheck := None\<rparr>) = (m', es, f)"
      using assms(1,3) l s by (simp add: verifyNeo4jClusterFormation_def Let_def)
    then show ?thesis using full_check_formed assms(2,3) by (metis order_less_imp_le)
  qed
qed

lemma full_check_servers: "full_check e cl servers fp m = (m', es, f) \<Longrightarrow> fcServers f = Some servers"
  by (auto simp: full_check_def formation_check_def Let_def split: sum.splits if_splits prod.splits option.splits)

lemma verify_servers:
  assumes "verifyNeo4jClusterFormation e cl m = (m', es, f)" "fcServers f = Some rows"
  shows "feList e = Inr rows"
  using assms unreachable_not_formed full_check_servers
  by (fastforce simp: verifyNeo4jClusterFormation_def Let_def formation_check_def
      split: sum.splits option.splits prod.splits if_splits)

text \<open>Filling in addresses changes no state and no health.\<close>

lemma fill_addresses_serving:
  "map serverIsMember (snd (fill_addresses book rows)) = map serverIsMember rows \<and>
   map srvHealth (snd (fill_addresses book rows)) = map srvHealth rows"
  by (induction book rows rule: fill_addresses.induct)
     (simp_all add: serverIsMember_def case_prod_beta del: fun_upd_apply)

lemma count_zip: "length (filter (\<lambda>x. P (f x) (g x)) xs) = length (filter (\<lambda>(a, b). P a b) (zip (map f xs) (map g xs)))"
  by (induction xs) auto

lemma map_filter_count:
  assumes "map f xs = map f ys" "map g xs = map g ys"
  shows "length (filter (\<lambda>x. P (f x) (g x)) xs) = length (filter (\<lambda>x. P (f x) (g x)) ys)"
  unfolding count_zip [of P f g] assms ..

lemma knownServers_count:
  assumes "snd (knownServers w (Some rows)) = Some known"
  shows "countAvailableServers known = countAvailableServers rows"
    and "length (filter serverIsMember known) = length (filter serverIsMember rows)"
proof -
  have k: "known = snd (fill_addresses (remember_diagnostics (stDiagnostics (wMem w)) (wAddresses w)) rows)"
    using assms by (simp add: knownServers_def split: prod.splits)
  note m = fill_addresses_serving [of "remember_diagnostics (stDiagnostics (wMem w)) (wAddresses w)" rows, folded k]
  show "countAvailableServers known = countAvailableServers rows"
    using map_filter_count [OF conjunct1 [OF m] conjunct2 [OF m], where P = "\<lambda>x y. x \<and> y = ''Available''"]
    by (simp add: countAvailableServers_def serverServes_def [abs_def])
  show "length (filter serverIsMember known) = length (filter serverIsMember rows)"
    using map_filter_count [OF conjunct1 [OF m] conjunct2 [OF m], where P = "\<lambda>x y. x"] by simp
qed

lemma available_members: "filter (\<lambda>s. srvHealth s = ''Available'') (filter serverIsMember rows) = filter serverServes rows"
  by (simp add: serverServes_def [abs_def])

text \<open>A verdict that keeps the cluster serving.\<close>

lemma serving_verdict:
  assumes "Verdict (assessServerShortfall i) \<in> {verdictWithinGrace, verdictDegraded}"
  shows "\<exists>rows. siServers i = Some rows \<and> 2 * int (countAvailableServers rows) > Expected i"
  using assms
  by (auto simp: assessServerShortfall_def Let_def available_members countAvailableServers_def
      simp del: filter_filter split: if_splits option.splits)

lemma phases_distinct [simp]: "PhaseForming \<noteq> PhaseReady" "PhaseForming \<noteq> PhaseDegraded"
    "PhaseReady \<noteq> PhaseForming" "PhaseDegraded \<noteq> PhaseForming" "PhaseReady \<noteq> PhaseDegraded" "PhaseDegraded \<noteq> PhaseReady"
  by (simp_all add: PhaseForming_def PhaseReady_def PhaseDegraded_def)

lemma status_set_phase [simp]: "stPhase (cluster_status_set now g phase msg rec extra cl) = phase"
  by (simp add: cluster_status_set_def)

lemma if_None_Some: "(if P then None else Some x) = Some y \<Longrightarrow> y = x"
  by (simp split: if_splits)

lemma written_set:
  "cluster_status_written now g phase msg rec extra cl = Some (c, changed) \<Longrightarrow>
   c = cluster_status_set now (if g = 0 then clGeneration cl else g) phase msg rec extra cl"
  unfolding cluster_status_written_def Let_def by (drule if_None_Some) blast

lemma write_phase:
  "stPhase (wStored (fst (writeClusterStatus now out phase msg rec extra w))) \<noteq> phase \<Longrightarrow>
   wStored (fst (writeClusterStatus now out phase msg rec extra w)) = wStored w"
  by (auto simp: writeClusterStatus_def Let_def split: write_outcome.splits option.splits prod.splits dest: written_set)

lemma shortfall_serving:
  assumes "reconcileServerShortfall sd e f detail (m, w) = (m', w')"
    and "wStored w' \<noteq> wStored w" "stPhase (wStored w') \<noteq> PhaseForming"
  shows "Verdict (assessServerShortfall (shortfall_input e m w f)) \<in> {verdictWithinGrace, verdictDegraded}"
proof (cases "Verdict (assessServerShortfall (shortfall_input e m w f))")
  case verdictForming
  then show ?thesis
    using assms by (auto simp: reconcileServerShortfall_def Let_def dest!: write_phase)
next
  case verdictQuorumLost
  then show ?thesis
    using assms
    by (auto simp: reconcileServerShortfall_def Let_def updateClusterStatusWithVersion_def
        split: prod.splits if_splits dest!: write_phase)
qed (use assms in \<open>auto simp: reconcileServerShortfall_def Let_def\<close>)

lemma shortfall_majority:
  assumes "reconcileServerShortfall sd e f detail (m, w) = (m', w')"
    and "wStored w' \<noteq> wStored w" "stPhase (wStored w') \<noteq> PhaseForming"
  shows "\<exists>rows. fcServers f = Some rows \<and> 2 * int (countAvailableServers rows) > specServers (wMem w)"
proof -
  from serving_verdict [OF shortfall_serving [OF assms]]
  obtain known where k: "snd (knownServers w (fcServers f)) = Some known"
      "2 * int (countAvailableServers known) > specServers (wMem w)"
    by (auto simp: shortfall_input_def Let_def)
  then obtain rows where "fcServers f = Some rows" by (auto simp: knownServers_def split: option.splits)
  then show ?thesis using k knownServers_count(1) by metis
qed

text \<open>
  C13: the check at the end of the normal pass writes Ready or Degraded as the phase of a cluster
  of several servers, so that users, roles, databases and backups go on, only when that pass got
  an answer, from Neo4j or from one of its servers, that lists more than half of the servers the
  spec asks for as members that are available. The messages an upgrade writes into a serving phase,
  and its completion, do not go through this check.
\<close>

theorem serving_phase_needs_a_majority:
  assumes "formation_tail sd e (m, w) = (m', w')" "1 < specServers (wMem w)"
    and "wStored w' \<noteq> wStored w" "stPhase (wStored w') \<in> {PhaseReady, PhaseDegraded}"
  shows "\<exists>rows. answered e rows \<and> 2 * int (countAvailableServers rows) > specServers (wMem w)"
proof -
  obtain m1 es f where v: "verifyNeo4jClusterFormation e (wMem w) m = (m1, es, f)" by (metis prod_cases3)
  obtain rolled detail where r: "serverStatefulSetFullyRolled (wMem w) (feWritten e) (feCached e) = (rolled, detail)"
    by fastforce
  have short: ?thesis if "reconcileServerShortfall sd e f d (m1, logged es w) = (m', w')" for d
    using shortfall_majority [OF that] assms(3,4) verify_servers [OF v] unfolding answered_def by fastforce
  show ?thesis
  proof (cases "fcFormed f \<and> rolled")
    case True
    from verify_formed [OF v _ assms(2)] True obtain rows where
      "answered e rows" "specServers (wMem w) \<le> int (countAvailableServers rows)" by auto
    then show ?thesis using assms(2) by (intro exI [of _ rows]) linarith
  next
    case False
    then show ?thesis using short assms(1) v r by (auto simp: formation_tail_def Let_def split: if_splits)
  qed
qed

section \<open>The grace of a server that is down\<close>

lemma if_None: "(if P then None else Some x) = None \<Longrightarrow> P"
  by (simp split: if_splits)

lemma unwritten:
  assumes "cluster_status_written now g phase msg rec extra cl = None"
  shows "stPhase cl = phase"
    and "(t, st, r, msg') \<in> set extra \<Longrightarrow>
      \<exists>c. findCondition (stConditions cl) t = Some c \<and> cStatus c = st \<and> cReason c = r"
proof -
  note p = assms [unfolded cluster_status_written_def Let_def, THEN if_None]
  show "stPhase cl = phase" using p by blast
  show "(t, st, r, msg') \<in> set extra \<Longrightarrow>
      \<exists>c. findCondition (stConditions cl) t = Some c \<and> cStatus c = st \<and> cReason c = r"
    using p [THEN conjunct2, THEN conjunct2, THEN conjunct1]
    by (fastforce simp: list_ex_iff split: option.splits)
qed

lemma condition_types [simp]:
  "ConditionTypeReady \<noteq> ConditionTypeDegraded" "ConditionTypeDegraded \<noteq> ConditionTypeReady"
  "ConditionTypeClusterFormed \<noteq> ConditionTypeDegraded" "ConditionTypeDegraded \<noteq> ConditionTypeClusterFormed"
  by (simp_all add: ConditionTypeReady_def ConditionTypeDegraded_def ConditionTypeClusterFormed_def)

text \<open>Writing the condition again keeps the time it went True.\<close>

lemma unavailable_since_written:
  assumes "cl' = cluster_status_set now g phase msg rec [clusterFormedCondition, serversUnavailableCondition condText] cl"
  shows "serversUnavailableSince cl' = Some (case serversUnavailableSince cl of None \<Rightarrow> stored_time now | Some t \<Rightarrow> t)"
proof -
  define cs where "cs = fst (SetNamedCondition (fst (SetReadyCondition (stConditions cl) g
      (fst (PhaseToConditionStatus phase)) (snd (PhaseToConditionStatus phase)) msg now))
      ConditionTypeClusterFormed g CondTrue ''FormationComplete''
      ''Every server has joined the cluster; a server lost from here on is reported through the Degraded condition'' now)"
  have same: "findCondition cs ConditionTypeDegraded = findCondition (stConditions cl) ConditionTypeDegraded"
    by (simp add: cs_def SetReadyCondition_def findCondition_SetNamed_other)
  have "stConditions cl' = fst (SetNamedCondition cs ConditionTypeDegraded g CondTrue ConditionReasonServersUnavailable condText now)"
    by (simp add: assms cluster_status_set_def cs_def clusterFormedCondition_def serversUnavailableCondition_def)
  then show ?thesis
    using same by (auto simp: serversUnavailableSince_def SetNamedCondition_def Let_def split: option.splits if_splits
        dest: findCondition_type)
qed

lemma shortage_written:
  assumes "w' = fst (updateClusterStatusWithVersion now Written phase msg []
      [clusterFormedCondition, serversUnavailableCondition condText] w)"
  shows "stPhase (wStored w') = phase"
    and "serversUnavailableSince (wStored w') =
      Some (case serversUnavailableSince (wStored w) of None \<Rightarrow> stored_time now | Some t \<Rightarrow> t)"
    and "specServers (wStored w') = specServers (wStored w)"
    and "stUpgradeStatus (wStored w') = stUpgradeStatus (wStored w)"
proof -
  let ?extra = "[clusterFormedCondition, serversUnavailableCondition condText]"
  let ?written = "cluster_status_written now (clGeneration (wMem w)) phase msg (versionRecord []) ?extra (wStored w)"
  have all: "stPhase (wStored w') = phase \<and> serversUnavailableSince (wStored w') =
      Some (case serversUnavailableSince (wStored w) of None \<Rightarrow> stored_time now | Some t \<Rightarrow> t) \<and>
      specServers (wStored w') = specServers (wStored w) \<and> stUpgradeStatus (wStored w') = stUpgradeStatus (wStored w)"
  proof (cases ?written)
    case None
    then have "wStored w' = wStored w"
      by (simp add: assms updateClusterStatusWithVersion_def writeClusterStatus_def Let_def)
    moreover obtain c where "findCondition (stConditions (wStored w)) ConditionTypeDegraded = Some c"
        "cStatus c = CondTrue" "cReason c = ConditionReasonServersUnavailable"
      using unwritten(2) [OF None, of ConditionTypeDegraded CondTrue ConditionReasonServersUnavailable condText]
      by (auto simp: serversUnavailableCondition_def)
    ultimately show ?thesis using unwritten(1) [OF None] by (simp add: serversUnavailableSince_def)
  next
    case (Some cc)
    then obtain c ch where w: "?written = Some (c, ch)" by (cases cc) auto
    then have w': "wStored w' = c"
      by (simp add: assms updateClusterStatusWithVersion_def writeClusterStatus_def Let_def)
    note c = written_set [OF w]
    have "specServers c = specServers (wStored w)" "stUpgradeStatus c = stUpgradeStatus (wStored w)"
      unfolding c by (simp_all add: cluster_status_set_def versionRecord_def)
    then show ?thesis unfolding w' using unavailable_since_written [OF c] by (simp add: c)
  qed
  then show "stPhase (wStored w') = phase" "serversUnavailableSince (wStored w') =
      Some (case serversUnavailableSince (wStored w) of None \<Rightarrow> stored_time now | Some t \<Rightarrow> t)"
      "specServers (wStored w') = specServers (wStored w)" "stUpgradeStatus (wStored w') = stUpgradeStatus (wStored w)"
    by blast+
qed

text \<open>
  A pass that finds a formed cluster short of a server and with a majority available; its status
  write lands.
\<close>

definition short_pass :: "cluster \<Rightarrow> int \<Rightarrow> formation_env \<times> formationCheck \<times> string \<Rightarrow> bool" where
  "short_pass cl grace p =
     (case p of (e, f, detail) \<Rightarrow>
        \<not> fcSplitBrain f \<and> \<not> serverRolloutInFlight cl (feWritten e) (feCachedAgain e) \<and>
        feWrite e = Written \<and> serverUnavailableGrace (feGrace e) = grace \<and>
        (case fcServers f of None \<Rightarrow> False
         | Some rows \<Rightarrow>
             specServers cl \<le> int (length (filter serverIsMember rows)) \<and>
             countAvailableServers rows < length (filter serverIsMember rows) \<and>
             specServers cl < 2 * int (countAvailableServers rows)))"

lemma rollout_by_status:
  "stUpgradeStatus a = stUpgradeStatus b \<Longrightarrow> serverRolloutInFlight a written cached = serverRolloutInFlight b written cached"
proof -
  assume "stUpgradeStatus a = stUpgradeStatus b"
  then have "keptUpgradePartition a = keptUpgradePartition b"
    using held_by_status(1) [of a b] by (simp add: keptUpgradePartition_def fun_eq_iff)
  then show ?thesis by (simp only: serverRolloutInFlight_def)
qed

lemma short_verdict:
  assumes "Formed i" "\<not> RolloutInFlight i" "\<not> SplitBrain i" "1 \<le> Expected i" "siServers i = Some rows"
    and "Expected i \<le> int (length (filter serverIsMember rows))"
    and "countAvailableServers rows < length (filter serverIsMember rows)"
    and "Expected i < 2 * int (countAvailableServers rows)"
  shows "Verdict (assessServerShortfall i) =
    (if siNow i - (case UnavailableSince i of None \<Rightarrow> siNow i | Some t \<Rightarrow> t) < Grace i
     then verdictWithinGrace else verdictDegraded)"
proof -
  have "filter (\<lambda>s. srvHealth s \<noteq> ''Available'') (filter serverIsMember rows) \<noteq> []"
    using sum_length_filter_compl [of "\<lambda>s. srvHealth s = ''Available''" "filter serverIsMember rows"] assms(7)
    unfolding available_members countAvailableServers_def by force
  then show ?thesis
    using assms by (simp add: assessServerShortfall_def Let_def available_members countAvailableServers_def
        del: filter_filter filter_empty_conv)
qed

text \<open>One such pass, on the cluster as stored.\<close>

lemma short_step:
  assumes "short_pass (wStored w) grace (e, f, detail)" "clusterHasFormed (wStored w)" "1 \<le> specServers (wStored w)"
    and "reconcileServerShortfall sd e f detail (m, w\<lparr>wMem := wStored w\<rparr>) = (m', w')"
    and "since = (case serversUnavailableSince (wStored w) of None \<Rightarrow> feNow e | Some t \<Rightarrow> t)"
  shows "stPhase (wStored w') = (if feNow e - since < grace then PhaseReady else PhaseDegraded)"
    and "serversUnavailableSince (wStored w') =
      Some (case serversUnavailableSince (wStored w) of None \<Rightarrow> stored_time (feNow e) | Some t \<Rightarrow> t)"
    and "specServers (wStored w') = specServers (wStored w)"
    and "stUpgradeStatus (wStored w') = stUpgradeStatus (wStored w)"
proof -
  let ?w = "w\<lparr>wMem := wStored w\<rparr>"
  let ?i = "shortfall_input e m ?w f"
  obtain rows where f: "fcServers f = Some rows" using assms(1) by (auto simp: short_pass_def split: option.splits)
  obtain known where k: "snd (knownServers ?w (Some rows)) = Some known"
    by (simp add: knownServers_def case_prod_beta)
  note count = knownServers_count [OF k]
  have i: "Formed ?i" "\<not> RolloutInFlight ?i" "\<not> SplitBrain ?i" "1 \<le> Expected ?i" "siServers ?i = Some known"
      "Grace ?i = grace" "siNow ?i = feNow e" "UnavailableSince ?i = serversUnavailableSince (wStored w)"
      "Expected ?i = specServers (wStored w)"
    using assms(1-3) f k by (simp_all add: shortfall_input_def Let_def short_pass_def)
  have v: "Verdict (assessServerShortfall ?i) =
      (if feNow e - since < grace then verdictWithinGrace else verdictDegraded)"
    using short_verdict [OF i(1-5)] assms(1) count f
    unfolding i(6-9) assms(5) by (simp add: short_pass_def)
  have written: "feWrite e = Written" using assms(1) by (simp add: short_pass_def)
  obtain msg condText w0 where w': "w' = fst (updateClusterStatusWithVersion (feNow e) Written
        (if feNow e - since < grace then PhaseReady else PhaseDegraded) msg []
        [clusterFormedCondition, serversUnavailableCondition condText] w0)" and w0: "wStored w0 = wStored w"
  proof (cases "feNow e - since < grace")
    case True
    with assms(4) v written show ?thesis
      by (intro that [of _ _ "?w\<lparr>wAddresses := fst (knownServers ?w (fcServers f))\<rparr>"])
        (auto simp: reconcileServerShortfall_def Let_def)
  next
    case False
    with assms(4) v written that show ?thesis
      by (auto simp: reconcileServerShortfall_def Let_def split: prod.splits)
  qed
  note s = shortage_written [OF w', unfolded w0]
  show "stPhase (wStored w') = (if feNow e - since < grace then PhaseReady else PhaseDegraded)" by (rule s(1))
  show "serversUnavailableSince (wStored w') =
      Some (case serversUnavailableSince (wStored w) of None \<Rightarrow> stored_time (feNow e) | Some t \<Rightarrow> t)"
    using s(2) by simp
  show "specServers (wStored w') = specServers (wStored w)" by (rule s(3))
  show "stUpgradeStatus (wStored w') = stUpgradeStatus (wStored w)" by (rule s(4))
qed

fun short_passes ::
  "(int \<Rightarrow> string) \<Rightarrow> (formation_env \<times> formationCheck \<times> string) list \<Rightarrow> formation_mem \<times> world \<Rightarrow> formation_mem \<times> world" where
  "short_passes sd [] mw = mw"
| "short_passes sd ((e, f, detail) # ps) mw =
     short_passes sd ps (reconcileServerShortfall sd e f detail (fst mw, (snd mw)\<lparr>wMem := wStored (snd mw)\<rparr>))"

lemma short_pass_cong:
  "specServers a = specServers b \<Longrightarrow> stUpgradeStatus a = stUpgradeStatus b \<Longrightarrow> short_pass a grace = short_pass b grace"
  using rollout_by_status [of a b] by (simp add: short_pass_def fun_eq_iff cong: option.case_cong)

lemma formed_by_phase: "stPhase cl \<in> {PhaseReady, PhaseDegraded} \<Longrightarrow> clusterHasFormed cl"
  by (auto simp: clusterHasFormed_def)

lemma short_passes_since:
  assumes "list_all (short_pass (wStored (snd mw)) grace) ps" "ps \<noteq> []" "clusterHasFormed (wStored (snd mw))"
    and "1 \<le> specServers (wStored (snd mw))" "serversUnavailableSince (wStored (snd mw)) = Some since"
  shows "stPhase (wStored (snd (short_passes sd ps mw))) =
      (if feNow (fst (last ps)) - since < grace then PhaseReady else PhaseDegraded) \<and>
    serversUnavailableSince (wStored (snd (short_passes sd ps mw))) = Some since"
  using assms
proof (induction sd ps mw rule: short_passes.induct)
  case (2 sd e f detail ps mw)
  let ?w = "snd mw"
  let ?step = "reconcileServerShortfall sd e f detail (fst mw, ?w\<lparr>wMem := wStored ?w\<rparr>)"
  obtain m' w' where r: "?step = (m', w')" by fastforce
  have p: "short_pass (wStored ?w) grace (e, f, detail)" using 2(2) by simp
  note step = short_step [OF p 2(4,5) r refl, unfolded 2(6) option.case]
  show ?case
  proof (cases "ps = []")
    case True
    then show ?thesis using step(1,2) r by simp
  next
    case False
    have "list_all (short_pass (wStored w') grace) ps"
      using 2(2) short_pass_cong [OF step(3,4)] by simp
    moreover have "clusterHasFormed (wStored w')" using step(1) by (intro formed_by_phase) simp
    ultimately show ?thesis using 2(1) r step(2,3) False 2(5) by simp
  qed
qed simp

lemma grace_positive: "0 < serverUnavailableGrace n"
  by (simp add: serverUnavailableGrace_def DefaultServerUnavailableGrace_def)

text \<open>
  C14: a formed cluster that is short of a server on every pass, with a majority available, no
  rollout in flight, no split brain, and status writes that land and are read back by the next
  pass, is Ready on the first of these passes and stays so until the grace has passed, counted
  from the whole second of that first pass, which the Degraded condition keeps; from the first
  pass after that on it is Degraded, however many passes there are, and dependents go on.
\<close>

theorem outage_turns_degraded_after_the_grace:
  assumes "list_all (short_pass (wStored w) grace) ps" "ps \<noteq> []" "clusterHasFormed (wStored w)"
    and "1 \<le> specServers (wStored w)" "serversUnavailableSince (wStored w) = None"
    and "short_passes sd ps (m, w) = (m', w')"
  shows "stPhase (wStored w') =
      (if tl ps = [] \<or> feNow (fst (last ps)) - stored_time (feNow (fst (hd ps))) < grace
       then PhaseReady else PhaseDegraded) \<and>
    serversUnavailableSince (wStored w') = Some (stored_time (feNow (fst (hd ps)))) \<and>
    clusterAcceptsWork (wStored w')"
proof -
  obtain e f detail qs where ps: "ps = (e, f, detail) # qs" using assms(2) by (metis neq_Nil_conv prod_cases3)
  obtain m1 w1 where r: "reconcileServerShortfall sd e f detail (m, w\<lparr>wMem := wStored w\<rparr>) = (m1, w1)" by fastforce
  have p: "short_pass (wStored w) grace (e, f, detail)" using assms(1) ps by simp
  have g: "0 < grace" using p grace_positive by (auto simp: short_pass_def)
  note step = short_step [OF p assms(3,4) r refl, unfolded assms(5) option.case]
  have first: "stPhase (wStored w1) = PhaseReady"
    "serversUnavailableSince (wStored w1) = Some (stored_time (feNow e))"
    using step(1,2) g by simp_all
  have "stPhase (wStored w') =
      (if qs = [] \<or> feNow (fst (last ps)) - stored_time (feNow e) < grace then PhaseReady else PhaseDegraded) \<and>
    serversUnavailableSince (wStored w') = Some (stored_time (feNow e))"
  proof (cases "qs = []")
    case True
    then show ?thesis using assms(6) ps r first by simp
  next
    case False
    have "list_all (short_pass (wStored w1) grace) qs"
      using assms(1) ps short_pass_cong [OF step(3,4)] by simp
    from short_passes_since [of "(m1, w1)", unfolded snd_conv, OF this False formed_by_phase _ first(2), of sd]
    show ?thesis using assms(4,6) ps r first(1) step(3) False by simp
  qed
  then show ?thesis by (auto simp: ps clusterAcceptsWork_def)
qed

subsection \<open>Concrete passes\<close>

definition rolled_sts :: stateful_set where
  "rolled_sts = (sts3 ''neo4j:5.26.0'' 0)\<lparr>stsCurrentRevision := ''r2''\<rparr>"

definition answering_env :: "int \<Rightarrow> server_info list \<Rightarrow> formation_env" where
  "answering_env now rows = \<lparr>feNow = now, feClient = None, feList = Inr rows, fePodIssues = [], feURI = ''bolt://c'',
     feFormatTime = (\<lambda>_. []), feInterval = 0, fePods = Inr three_pods, feDetectPods = Inr three_pods,
     feAsk = (\<lambda>_. Listed rows), feDelete = (\<lambda>_. PodGone), feRepairPods = Inr [], feLegacyClient = True,
     feLegacyList = (\<lambda>_. Inr rows), feCancelled = (\<lambda>_. False), feCached = Found rolled_sts,
     feCachedAgain = Found rolled_sts, feReadyPods = Some [], feWritten = None, feGrace = 0, feWrite = Written\<rparr>"

definition no_memory :: formation_mem where
  "no_memory = \<lparr>fmCheck = None, fmStreak = None, fmAnnounced = None\<rparr>"

definition two_of_three :: "server_info list" where
  "two_of_three = [up_server ''s0'', up_server ''s1'', (up_server ''s2'')\<lparr>srvHealth := ''Unavailable''\<rparr>]"

definition outage_pass :: "int \<Rightarrow> formation_env \<times> formationCheck \<times> string" where
  "outage_pass now = (answering_env now two_of_three, formation_check False [] (Some two_of_three), [])"

theorem outage_turns_degraded_after_the_grace_witness:
  "stPhase (wStored (snd (short_passes (\<lambda>_. ''5m0s'') [outage_pass 10, outage_pass (20 * 10 ^ 9)]
     (no_memory, world_of ready_cluster None)))) = PhaseReady \<and>
   stPhase (wStored (snd (short_passes (\<lambda>_. ''5m0s'') [outage_pass 10, outage_pass (20 * 10 ^ 9), outage_pass (301 * 10 ^ 9)]
     (no_memory, world_of ready_cluster None)))) = PhaseDegraded"
proof -
  let ?w = "world_of ready_cluster None"
  have p: "short_pass (wStored ?w) DefaultServerUnavailableGrace (outage_pass t)" for t
    by (simp add: short_pass_def outage_pass_def answering_env_def formation_check_def two_of_three_def
        up_server_def serverIsMember_def serverServes_def countAvailableServers_def serverUnavailableGrace_def
        serverRolloutInFlight_def rolled_sts_def sts3_def serverTemplateWriteUnobserved_def keptUpgradePartition_def
        upgradeHeld_def statefulSetRolloutInFlight_def ready_cluster_def world_of_def)
  have c: "clusterHasFormed (wStored ?w)" "1 \<le> specServers (wStored ?w)" "serversUnavailableSince (wStored ?w) = None"
    by code_simp+
  have now: "feNow (fst (outage_pass t)) = t" for t by (simp add: outage_pass_def answering_env_def)
  show ?thesis
    using outage_turns_degraded_after_the_grace [OF _ _ c surjective_pairing, of DefaultServerUnavailableGrace
        "[outage_pass 10, outage_pass (20 * 10 ^ 9)]" "\<lambda>_. ''5m0s''" no_memory]
      outage_turns_degraded_after_the_grace [OF _ _ c surjective_pairing, of DefaultServerUnavailableGrace
        "[outage_pass 10, outage_pass (20 * 10 ^ 9), outage_pass (301 * 10 ^ 9)]" "\<lambda>_. ''5m0s''" no_memory]
    by (simp add: now p stored_time_def DefaultServerUnavailableGrace_def [symmetric] del: short_passes.simps)
      (simp add: DefaultServerUnavailableGrace_def)
qed

theorem serving_phase_needs_a_majority_witness:
  "stPhase (wStored (snd (formation_tail (\<lambda>_. []) (answering_env 10 (map up_server [''s0'', ''s1'', ''s2'']))
     (no_memory, world_of (ready_cluster\<lparr>stPhase := PhaseDegraded\<rparr>) None)))) = PhaseReady \<and>
   (\<exists>rows. answered (answering_env 10 (map up_server [''s0'', ''s1'', ''s2''])) rows \<and>
     2 * int (countAvailableServers rows) > 3)"
proof -
  let ?e = "answering_env 10 (map up_server [''s0'', ''s1'', ''s2''])"
  let ?w = "world_of (ready_cluster\<lparr>stPhase := PhaseDegraded\<rparr>) None"
  have run: "stPhase (wStored (snd (formation_tail (\<lambda>_. []) ?e (no_memory, ?w)))) = PhaseReady" by code_simp
  have w: "specServers (wMem ?w) = 3" "stPhase (wStored ?w) = PhaseDegraded"
    by (simp_all add: world_of_def ready_cluster_def)
  have d: "wStored (snd (formation_tail (\<lambda>_. []) ?e (no_memory, ?w))) \<noteq> wStored ?w" using run w(2) by force
  show ?thesis
    using serving_phase_needs_a_majority [OF surjective_pairing _ d] run w(1) by simp
qed

end
