(* ===== verification/Privileges.thy ===== *)
theory Privileges
  imports Prelude
begin

text \<open>
  \<^verbatim>\<open>src/internal/neo4j/privileges.go\<close>: reading \<open>GRANT\<close> and \<open>DENY\<close> statements as text. The
  canonical form statements are compared by, the \<open>REVOKE\<close> derived from a statement, the
  databases a statement names, and the rewriting of its grantee.

  The scanners of the source are single loops over the statement with a few flags; each is
  a recursive function over the rest of the statement with those flags as arguments. They
  look at ASCII characters only and copy every other byte, so a statement is a list of
  bytes; upper-casing applies to keywords, which are ASCII.
\<close>

section \<open>The model\<close>

subsection \<open>Characters and keywords\<close>

abbreviation backtick :: char where "backtick \<equiv> CHR 0x60"
abbreviation squote :: char where "squote \<equiv> CHR 39"
abbreviation dquote :: char where "dquote \<equiv> CHR 34"
abbreviation backslash :: char where "backslash \<equiv> CHR 92"
abbreviation tab :: char where "tab \<equiv> CHR 9"
abbreviation newline :: char where "newline \<equiv> CHR 10"
abbreviation creturn :: char where "creturn \<equiv> CHR 13"

text \<open>The four white-space characters the scanners test for.\<close>

definition is_blank :: "char \<Rightarrow> bool" where
  "is_blank r = (r = CHR '' '' \<or> r = tab \<or> r = newline \<or> r = creturn)"

definition privilegeKeywords :: "string list" where
  "privilegeKeywords =
     [''GRANT'', ''DENY'', ''REVOKE'', ''IMMUTABLE'', ''ON'', ''TO'', ''FROM'', ''DATABASE'', ''DATABASES'',
      ''GRAPH'', ''GRAPHS'', ''DBMS'', ''HOME'', ''DEFAULT'', ''NODES'', ''NODE'', ''RELATIONSHIPS'',
      ''RELATIONSHIP'', ''ELEMENTS'', ''ELEMENT'', ''FOR'', ''ALL'', ''ACCESS'', ''READ'', ''MATCH'',
      ''TRAVERSE'', ''WRITE'', ''CREATE'', ''DELETE'', ''DROP'', ''ALTER'', ''SET'', ''REMOVE'', ''LOAD'',
      ''INDEX'', ''CONSTRAINT'', ''PRIVILEGE'', ''PRIVILEGES'', ''ROLE'', ''ROLES'', ''USER'', ''USERS'',
      ''NAME'', ''NAMES'', ''LABEL'', ''LABELS'', ''NEW'', ''TYPE'', ''TYPES'', ''PROPERTY'', ''EXECUTE'',
      ''PROCEDURE'', ''PROCEDURES'', ''FUNCTION'', ''FUNCTIONS'', ''BOOSTED'', ''MANAGEMENT'',
      ''TRANSACTION'', ''SHOW'', ''START'', ''STOP'', ''TERMINATE'', ''ASSIGN'', ''IMPERSONATE'', ''AUTH'',
      ''SERVER'', ''COMPOSITE'', ''ALIAS'', ''ALIASES'', ''OF'', ''AS'', ''ANY'', ''AWAIT'', ''WAIT'',
      ''WHERE'', ''IS'', ''NULL'', ''NOT'', ''IN'', ''AND'', ''OR'']"

definition keyword :: "string \<Rightarrow> bool" where
  "keyword t = (t \<in> set privilegeKeywords)"

definition is_letter :: "char \<Rightarrow> bool" where
  "is_letter c = (let n = (of_char c :: nat) in (65 \<le> n \<and> n \<le> 90) \<or> (97 \<le> n \<and> n \<le> 122))"

text \<open>\<^verbatim>\<open>simpleIdentifierRe\<close>, \<^verbatim>\<open>^[A-Za-z][A-Za-z0-9_]*$\<close>.\<close>

definition simpleIdentifier :: "string \<Rightarrow> bool" where
  "simpleIdentifier s =
     (case s of [] \<Rightarrow> False
      | c # cs \<Rightarrow> is_letter c \<and> list_all (\<lambda>d. is_letter d \<or> is_digit d \<or> d = CHR ''_'') cs)"

definition redundantlyBacktickedIdentifier :: "string \<Rightarrow> string option" where
  "redundantlyBacktickedIdentifier t =
     (if length t < 2 \<or> hd t \<noteq> backtick \<or> last t \<noteq> backtick then None
      else let inner = butlast (tl t) in
        if \<not> simpleIdentifier inner then None
        else if keyword (to_upper inner) then None
        else Some inner)"

subsection \<open>The canonical form\<close>

text \<open>\<^verbatim>\<open>collapseWhitespacePreservingQuotes\<close>; the flags are the loop's own.\<close>

fun collapse :: "bool \<Rightarrow> bool \<Rightarrow> bool \<Rightarrow> bool \<Rightarrow> bool \<Rightarrow> string \<Rightarrow> string" where
  "collapse inSingle inDouble inBacktick escape prevWasSpace [] = []"
| "collapse inSingle inDouble inBacktick escape prevWasSpace (r # rs) =
     (if escape then r # collapse inSingle inDouble inBacktick False False rs
      else if r = backslash then r # collapse inSingle inDouble inBacktick (inSingle \<or> inDouble) False rs
      else if r = squote
        then r # collapse (if \<not> inDouble \<and> \<not> inBacktick then \<not> inSingle else inSingle) inDouble inBacktick False False rs
      else if r = dquote
        then r # collapse inSingle (if \<not> inSingle \<and> \<not> inBacktick then \<not> inDouble else inDouble) inBacktick False False rs
      else if r = backtick
        then r # collapse inSingle inDouble (if \<not> inSingle \<and> \<not> inDouble then \<not> inBacktick else inBacktick) False False rs
      else if \<not> inSingle \<and> \<not> inDouble \<and> \<not> inBacktick \<and> is_blank r
        then (if prevWasSpace then collapse inSingle inDouble inBacktick False True rs
              else CHR '' '' # collapse inSingle inDouble inBacktick False True rs)
      else r # collapse inSingle inDouble inBacktick False False rs)"

definition collapseWhitespacePreservingQuotes :: "string \<Rightarrow> string" where
  "collapseWhitespacePreservingQuotes s = collapse False False False False False s"

record privilegeItem =
  itemText :: string
  itemToken :: bool

definition Tok :: "string \<Rightarrow> privilegeItem" where
  "Tok t = \<lparr>itemText = t, itemToken = True\<rparr>"

definition Sep :: "string \<Rightarrow> privilegeItem" where
  "Sep t = \<lparr>itemText = t, itemToken = False\<rparr>"

definition flush :: "string \<Rightarrow> privilegeItem list" where
  "flush token = (if token = [] then [] else [Tok token])"

definition is_punct :: "char \<Rightarrow> bool" where
  "is_punct r = (r \<in> set ''{}(),*/:;'')"

text \<open>The loop of \<^verbatim>\<open>privilegeItems\<close>; \<open>token\<close> is the builder's content.\<close>

fun items_from :: "bool \<Rightarrow> bool \<Rightarrow> bool \<Rightarrow> bool \<Rightarrow> string \<Rightarrow> string \<Rightarrow> privilegeItem list" where
  "items_from inSingle inDouble inBacktick escape token [] = flush token"
| "items_from inSingle inDouble inBacktick escape token (r # rs) =
     (if escape then items_from inSingle inDouble inBacktick False (token @ [r]) rs
      else if inSingle \<or> inDouble then
        (if r = backslash then items_from inSingle inDouble inBacktick True (token @ [r]) rs
         else if (inSingle \<and> r = squote) \<or> (inDouble \<and> r = dquote)
           then flush (token @ [r]) @ items_from False False inBacktick False [] rs
         else items_from inSingle inDouble inBacktick False (token @ [r]) rs)
      else if inBacktick then
        (if r = backtick then
           (case rs of
              [] \<Rightarrow> flush (token @ [r])
            | c # rs' \<Rightarrow>
                if c = backtick then items_from inSingle inDouble True False (token @ [r, c]) rs'
                else flush (token @ [r]) @ items_from inSingle inDouble False False [] rs)
         else items_from inSingle inDouble True False (token @ [r]) rs)
      else if r = squote then flush token @ items_from True inDouble False False [r] rs
      else if r = dquote then flush token @ items_from inSingle True False False [r] rs
      else if r = backtick then flush token @ items_from inSingle inDouble True False [r] rs
      else if is_blank r then flush token @ Sep '' '' # items_from inSingle inDouble False False [] rs
      else if is_punct r then flush token @ Sep [r] # items_from inSingle inDouble False False [] rs
      else items_from inSingle inDouble False False (token @ [r]) rs)"

definition privilegeItems :: "string \<Rightarrow> privilegeItem list" where
  "privilegeItems s = items_from False False False False [] s"

definition scopeKeywords :: "string list" where
  "scopeKeywords = [''GRAPH'', ''GRAPHS'', ''DATABASE'', ''DATABASES'']"

definition segmentKeywords :: "string list" where
  "segmentKeywords =
     [''NODE'', ''NODES'', ''RELATIONSHIP'', ''RELATIONSHIPS'', ''ELEMENT'', ''ELEMENTS'']"

text \<open>The variables of \<^verbatim>\<open>identifierPositions\<close>' loop.\<close>

record ident_state =
  ident :: "nat \<Rightarrow> bool"
  braces :: int
  parens :: int
  sig :: "nat list"

text \<open>
  The significant item \<open>back\<close> places before the current one. The loop refers to an item
  only where there is one, so the index it is given with is the one the source has.
\<close>

definition sig_at :: "privilegeItem list \<Rightarrow> nat list \<Rightarrow> nat \<Rightarrow> (privilegeItem \<times> nat) option" where
  "sig_at items ss back' =
     (if length ss < back' then None
      else let j = ss ! (length ss - back') in Some (items ! j, j))"

definition item_upper :: "privilegeItem \<Rightarrow> string" where
  "item_upper it = (if \<not> itemToken it then itemText it else to_upper (itemText it))"

definition names_position ::
  "privilegeItem list \<Rightarrow> ident_state \<Rightarrow> bool" where
  "names_position items st =
     (let prev = sig_at items (sig st) 1; prev2 = sig_at items (sig st) 2;
          token_prev = (case prev of Some (p, j) \<Rightarrow> itemToken p | None \<Rightarrow> False);
          prev_upper = (case prev of Some (p, j) \<Rightarrow> item_upper p | None \<Rightarrow> []);
          prev2_upper = (case prev2 of Some (p, j) \<Rightarrow> item_upper p | None \<Rightarrow> []);
          prev2_text = (case prev2 of Some (p, j) \<Rightarrow> itemText p | None \<Rightarrow> []);
          prev2_ident = (case prev2 of Some (p, j) \<Rightarrow> ident st j | None \<Rightarrow> False);
          punct_prev = (\<lambda>ts. case prev of Some (p, j) \<Rightarrow> \<not> itemToken p \<and> itemText p \<in> set ts | None \<Rightarrow> False)
      in if braces st > 0 then True
         else if parens st > 0 then punct_prev [''('', '','', '':'']
         else if punct_prev ['',''] then prev2_ident
         else if token_prev \<and> prev2 \<noteq> None \<and> prev_upper \<in> set scopeKeywords \<and> prev2_upper = ''ON'' then True
         else if token_prev \<and> prev_upper \<in> set segmentKeywords \<and> prev2 \<noteq> None
              \<and> (prev2_ident \<or> prev2_text = ''*'' \<or> prev2_upper = ''GRAPH'') then True
         else if token_prev \<and> (prev_upper = ''LABEL'' \<or> prev_upper = ''LABELS'') \<and> prev2 \<noteq> None
              \<and> (prev2_upper = ''SET'' \<or> prev2_upper = ''REMOVE'') then True
         else token_prev \<and> (prev_upper = ''TO'' \<or> prev_upper = ''FROM''))"

definition ident_step :: "privilegeItem list \<Rightarrow> nat \<Rightarrow> ident_state \<Rightarrow> ident_state" where
  "ident_step items i st =
     (let it = items ! i in
      if \<not> itemToken it then
        (let st1 = (if itemText it = ''{'' then st\<lparr>braces := braces st + 1\<rparr>
                    else if itemText it = ''}'' then st\<lparr>braces := braces st - 1\<rparr>
                    else if itemText it = ''('' then st\<lparr>parens := parens st + 1\<rparr>
                    else if itemText it = '')'' then st\<lparr>parens := parens st - 1\<rparr>
                    else st)
         in if itemText it \<noteq> '' '' then st1\<lparr>sig := sig st1 @ [i]\<rparr> else st1)
      else if has_prefix (itemText it) [backtick]
        then st\<lparr>ident := (ident st)(i := True), sig := sig st @ [i]\<rparr>
      else st\<lparr>ident := (ident st)(i := names_position items st), sig := sig st @ [i]\<rparr>)"

definition identifierPositions :: "privilegeItem list \<Rightarrow> nat \<Rightarrow> bool" where
  "identifierPositions items =
     ident (fold (ident_step items) [0..<length items]
              \<lparr>ident = (\<lambda>_. False), braces = 0, parens = 0, sig = []\<rparr>)"

text \<open>What \<^verbatim>\<open>upperCaseReservedKeywords\<close> writes for one item; \<open>named\<close> is \<open>ident[i]\<close>.\<close>

definition canonical_item :: "bool \<Rightarrow> privilegeItem \<Rightarrow> string" where
  "canonical_item named it =
     (if \<not> itemToken it then itemText it
      else case redundantlyBacktickedIdentifier (itemText it) of
        Some inner \<Rightarrow> inner
      | None \<Rightarrow> if keyword (to_upper (itemText it)) \<and> \<not> named then to_upper (itemText it)
                else itemText it)"

definition upperCaseReservedKeywords :: "string \<Rightarrow> string" where
  "upperCaseReservedKeywords s =
     (let items = privilegeItems s; named = identifierPositions items
      in concat (map (\<lambda>i. canonical_item (named i) (items ! i)) [0..<length items]))"

definition CanonicalisePrivilegeStatement :: "string \<Rightarrow> string" where
  "CanonicalisePrivilegeStatement stmt =
     (let s = trim_space (trim_suffix_char CHR '';'' (trim_space stmt))
      in if s = [] then [] else upperCaseReservedKeywords (collapseWhitespacePreservingQuotes s))"

subsection \<open>The REVOKE of a statement, its verb and its role\<close>

datatype privilege_error =
    EmptyPrivilegeStatement
  | PrivilegeStatementTooShort string
  | NotGrantOrDeny string
  | MissingToRole string

text \<open>\<^verbatim>\<open>tokenSplit.Split(s, -1)\<close> for \<^verbatim>\<open>tokenSplit = \s+\<close>.\<close>

definition is_re_space :: "char \<Rightarrow> bool" where
  "is_re_space c = (is_blank c \<or> c = CHR 12)"

function split_ws :: "string \<Rightarrow> string list" where
  "split_ws s =
     (let w = takeWhile (\<lambda>c. \<not> is_re_space c) s; r = dropWhile (\<lambda>c. \<not> is_re_space c) s
      in if r = [] then [w] else w # split_ws (dropWhile is_re_space r))"
  by pat_completeness auto

lemma dropWhile_twice_shorter:
  assumes "dropWhile (\<lambda>c. \<not> P c) s \<noteq> []"
  shows "length (dropWhile P (dropWhile (\<lambda>c. \<not> P c) s)) < length s"
proof -
  obtain x xs where x: "dropWhile (\<lambda>c. \<not> P c) s = x # xs" using assms by (cases "dropWhile (\<lambda>c. \<not> P c) s") auto
  then have "P x" by (metis assms hd_dropWhile list.sel(1))
  then have "length (dropWhile P (x # xs)) \<le> length xs" by (simp add: length_dropWhile_le)
  moreover have "length (x # xs) \<le> length s" by (metis length_dropWhile_le x)
  ultimately show ?thesis using x by simp
qed

termination split_ws
  by (relation "measure length") (auto intro: dropWhile_twice_shorter)

declare split_ws.simps [simp del]

definition last_to :: "string list \<Rightarrow> nat option" where
  "last_to tokens = find (\<lambda>i. tokens ! i = ''TO'') (rev [1..<length tokens - 1])"

definition DerivePrivilegeRevoke :: "string \<Rightarrow> privilege_error + string" where
  "DerivePrivilegeRevoke stmt =
     (let canon = CanonicalisePrivilegeStatement stmt in
      if canon = [] then Inl EmptyPrivilegeStatement
      else let tokens = split_ws canon in
        if length tokens < 4 then Inl (PrivilegeStatementTooShort stmt)
        else let verb = to_upper (tokens ! 0) in
          if verb \<noteq> ''GRANT'' \<and> verb \<noteq> ''DENY'' then Inl (NotGrantOrDeny (tokens ! 0))
          else case last_to tokens of
            None \<Rightarrow> Inl (MissingToRole stmt)
          | Some toIdx \<Rightarrow>
              Inr (''REVOKE '' @ verb @ '' '' @ join '' '' (drop 1 (take toIdx tokens))
                   @ '' FROM '' @ join '' '' (drop (toIdx + 1) tokens)))"

definition PrivilegeStatementVerb :: "string \<Rightarrow> string" where
  "PrivilegeStatementVerb stmt =
     (let canon = CanonicalisePrivilegeStatement stmt in
      if canon = [] then []
      else let first = to_upper (cut_at CHR '' '' canon) in
        if first = ''GRANT'' then ''GRANT'' else if first = ''DENY'' then ''DENY'' else [])"

text \<open>
  \<^verbatim>\<open>parseName\<close>. \<open>quoted_part\<close> is its inner loop: the text up to the closing backtick with
  doubled ones resolved, and what follows it; \<open>None\<close> when the quote never closes.
\<close>

fun quoted_part :: "string \<Rightarrow> (string \<times> string) option" where
  "quoted_part [] = None"
| "quoted_part (r # rs) =
     (if r \<noteq> backtick then map_option (\<lambda>(q, rest). (r # q, rest)) (quoted_part rs)
      else (case rs of
              [] \<Rightarrow> Some ([], [])
            | c # rs' \<Rightarrow> if c = backtick then map_option (\<lambda>(q, rest). (backtick # q, rest)) (quoted_part rs')
                        else Some ([], rs)))"

lemma quoted_part_shorter: "quoted_part rs = Some (q, rest) \<Longrightarrow> length rest < length rs"
proof (induction rs arbitrary: q rest rule: quoted_part.induct)
  case (2 r rs)
  then show ?case by (fastforce split: if_splits list.splits)
qed simp

function name_from :: "nat \<Rightarrow> string \<Rightarrow> string \<Rightarrow> string option" where
  "name_from partLen b [] = (if partLen = 0 then None else Some b)"
| "name_from partLen b (r # rs) =
     (if r = CHR ''.'' then (if partLen = 0 then None else name_from 0 (b @ ''.'') rs)
      else if r = backtick then
        (if partLen \<noteq> 0 then None
         else case quoted_part rs of
           None \<Rightarrow> None
         | Some (q, rest) \<Rightarrow>
             if q = [] \<or> (rest \<noteq> [] \<and> hd rest \<noteq> CHR ''.'') then None
             else name_from (length q) (b @ q) rest)
      else name_from (partLen + 1) (b @ [r]) rs)"
  by pat_completeness auto

termination name_from
  by (relation "measure (\<lambda>(_, _, rs). length rs)")
     (auto dest: quoted_part_shorter)

definition parseName :: "string \<Rightarrow> string option" where
  "parseName t = name_from 0 [] t"

definition PrivilegeStatementMatchesRole :: "string \<Rightarrow> string \<Rightarrow> bool" where
  "PrivilegeStatementMatchesRole stmt role =
     (let canon = CanonicalisePrivilegeStatement stmt in
      if canon = [] then False
      else let tokens = split_ws canon in
        if length tokens < 3 then False
        else if tokens ! (length tokens - 2) \<noteq> ''TO'' then False
        else equal_fold (case parseName (last tokens) of
                           Some name \<Rightarrow> name
                         | None \<Rightarrow> trim_chars {backtick} (last tokens)) role)"

subsection \<open>The databases a statement names\<close>

text \<open>\<^verbatim>\<open>privilegeTokens\<close>; \<open>cur\<close> is the builder's content.\<close>

definition word :: "string \<Rightarrow> string list" where
  "word cur = (if cur = [] then [] else [cur])"

fun tokens_from :: "bool \<Rightarrow> string \<Rightarrow> string \<Rightarrow> string list" where
  "tokens_from inBacktick cur [] = word cur"
| "tokens_from inBacktick cur (r # rs) =
     (if r = backtick then tokens_from (\<not> inBacktick) (cur @ [r]) rs
      else if inBacktick then tokens_from True (cur @ [r]) rs
      else if r = CHR '','' then word cur @ '','' # tokens_from False [] rs
      else if is_blank r then word cur @ tokens_from False [] rs
      else tokens_from False (cur @ [r]) rs)"

definition privilegeTokens :: "string \<Rightarrow> string list" where
  "privilegeTokens s = tokens_from False [] s"

record privilegeScope =
  scopeNames :: "string list"
  unreadable :: bool

text \<open>The name list after \<open>ON DATABASE\<close> or \<open>ON GRAPH\<close>: everything up to the next keyword.\<close>

fun scan_names :: "string list \<Rightarrow> privilegeScope" where
  "scan_names [] = \<lparr>scopeNames = [], unreadable = False\<rparr>"
| "scan_names (t # ts) =
     (if t = '','' \<or> t = ''*'' then scan_names ts
      else if keyword t then \<lparr>scopeNames = [], unreadable = False\<rparr>
      else case parseName t of
        None \<Rightarrow> (scan_names ts)\<lparr>unreadable := True\<rparr>
      | Some name \<Rightarrow> (let more = scan_names ts in more\<lparr>scopeNames := name # scopeNames more\<rparr>))"

definition also_scope :: "privilegeScope \<Rightarrow> privilegeScope \<Rightarrow> privilegeScope" where
  "also_scope a b = \<lparr>scopeNames = scopeNames a @ scopeNames b, unreadable = unreadable a \<or> unreadable b\<rparr>"

fun scan_scopes :: "string list \<Rightarrow> string list \<Rightarrow> privilegeScope" where
  "scan_scopes scopes [] = \<lparr>scopeNames = [], unreadable = False\<rparr>"
| "scan_scopes scopes (t # ts) =
     (if t \<noteq> ''ON'' then scan_scopes scopes ts
      else case ts of
        [] \<Rightarrow> \<lparr>scopeNames = [], unreadable = True\<rparr>
      | u # us \<Rightarrow>
          if u \<in> {''DEFAULT'', ''HOME'', ''DBMS''} then scan_scopes scopes ts
          else if u \<notin> {''DATABASE'', ''DATABASES'', ''GRAPH'', ''GRAPHS''}
            then (scan_scopes scopes ts)\<lparr>unreadable := True\<rparr>
          else if u \<notin> set scopes then scan_scopes scopes ts
          else also_scope (scan_names us) (scan_scopes scopes ts))"

definition scanPrivilegeScopes :: "string \<Rightarrow> string list \<Rightarrow> privilegeScope" where
  "scanPrivilegeScopes stmt scopes =
     (let tokens = privilegeTokens (CanonicalisePrivilegeStatement stmt);
          found = scan_scopes scopes tokens
      in if ''ON'' \<in> set tokens then found else found\<lparr>unreadable := True\<rparr>)"

definition PrivilegeDatabaseTargets :: "string \<Rightarrow> string list" where
  "PrivilegeDatabaseTargets stmt =
     scopeNames (scanPrivilegeScopes stmt [''DATABASE'', ''DATABASES'', ''GRAPH'', ''GRAPHS''])"

definition PrivilegeGraphTargets :: "string \<Rightarrow> string list" where
  "PrivilegeGraphTargets stmt = scopeNames (scanPrivilegeScopes stmt [''GRAPH'', ''GRAPHS''])"

definition PrivilegeAliasDependence :: "string \<Rightarrow> string list \<times> bool" where
  "PrivilegeAliasDependence stmt =
     (if CanonicalisePrivilegeStatement stmt = [] then ([], False)
      else let s = scanPrivilegeScopes stmt [''DATABASE'', ''DATABASES'', ''GRAPH'', ''GRAPHS'']
        in if unreadable s then ([], True) else (scopeNames s, False))"

text \<open>\<^verbatim>\<open>FoldPrivilegeDatabaseNames\<close>.\<close>

fun lower_names :: "string list \<Rightarrow> string list" where
  "lower_names [] = []"
| "lower_names (t # ts) =
     (if t = '','' \<or> t = ''*'' then t # lower_names ts
      else if keyword t then t # ts
      else to_lower t # lower_names ts)"

lemma length_lower_names [simp]: "length (lower_names ts) = length ts"
  by (induction ts) auto

function fold_scopes :: "string list \<Rightarrow> string list" where
  "fold_scopes [] = []"
| "fold_scopes [t] = [t]"
| "fold_scopes (t # u # us) =
     (if t = ''ON'' \<and> u \<in> {''DATABASE'', ''DATABASES'', ''GRAPH'', ''GRAPHS''}
      then t # fold_scopes (u # lower_names us) else t # fold_scopes (u # us))"
  by pat_completeness auto

termination fold_scopes
  by (relation "measure length") auto

definition FoldPrivilegeDatabaseNames :: "string \<Rightarrow> string" where
  "FoldPrivilegeDatabaseNames stmt =
     join '' '' (fold_scopes (privilegeTokens (CanonicalisePrivilegeStatement stmt)))"

subsection \<open>Rewriting the grantee\<close>

definition escapeBackticks :: "string \<Rightarrow> string" where
  "escapeBackticks s = concat (map (\<lambda>c. if c = backtick then [backtick, backtick] else [c]) s)"

definition backticked :: "string \<Rightarrow> string" where
  "backticked s = [backtick] @ escapeBackticks s @ [backtick]"

text \<open>
  The loop of \<^verbatim>\<open>ReplacePrivilegeGrantee\<close>. \<open>wordStart\<close> is where the current run of
  letters begins and \<open>lastTo\<close> where the last keyword \<open>TO\<close> began; \<open>None\<close> is \<open>-1\<close>.
\<close>

definition endWord :: "string \<Rightarrow> nat option \<Rightarrow> nat \<Rightarrow> nat option \<Rightarrow> nat option" where
  "endWord s wordStart e lastTo =
     (case wordStart of
        None \<Rightarrow> lastTo
      | Some ws \<Rightarrow> if equal_fold (drop ws (take e s)) ''TO'' \<and> ws > 0 \<and> is_blank (s ! (ws - 1))
                   then Some ws else lastTo)"

fun grantee_from ::
  "string \<Rightarrow> nat \<Rightarrow> char option \<Rightarrow> nat option \<Rightarrow> nat option \<Rightarrow> string \<Rightarrow> nat option" where
  "grantee_from s i quote wordStart lastTo [] = lastTo"
| "grantee_from s i quote wordStart lastTo (r # rs) =
     (case quote of
        Some q \<Rightarrow> grantee_from s (i + 1) (if r = q then None else Some q) wordStart lastTo rs
      | None \<Rightarrow>
          if r = backtick \<or> r = squote \<or> r = dquote
            then grantee_from s (i + 1) (Some r) None (endWord s wordStart i lastTo) rs
          else if is_letter r
            then grantee_from s (i + 1) None (if wordStart = None then Some i else wordStart) lastTo rs
          else grantee_from s (i + 1) None None
                 (if is_blank r then endWord s wordStart i lastTo else lastTo) rs)"

definition ReplacePrivilegeGrantee :: "string \<Rightarrow> string \<Rightarrow> privilege_error + string" where
  "ReplacePrivilegeGrantee stmt role =
     (let s = trim_space (trim_suffix_char CHR '';'' (trim_space stmt))
      in case grantee_from s 0 None None None s of
           None \<Rightarrow> Inl (MissingToRole stmt)
         | Some lastTo \<Rightarrow> Inr (trim_right is_blank (take lastTo s) @ '' TO '' @ backticked role))"


section \<open>Reading a tidy statement back\<close>

text \<open>
  A list of items is tidy when each item is a separator, a plain word or a backticked name,
  no two words touch and no two spaces do. The text of a tidy list is what every scanner
  reads as that list.
\<close>

definition plain_char :: "char \<Rightarrow> bool" where
  "plain_char c = (\<not> is_blank c \<and> \<not> is_punct c \<and> c \<notin> {squote, dquote, backtick})"

definition plain_word :: "string \<Rightarrow> bool" where
  "plain_word w = (w \<noteq> [] \<and> list_all plain_char w)"

definition Space :: privilegeItem where
  "Space = Sep '' ''"

definition tidy_item :: "privilegeItem \<Rightarrow> bool" where
  "tidy_item it =
     (if itemToken it then plain_word (itemText it) \<or> (\<exists>n. itemText it = backticked n)
      else it = Space \<or> (\<exists>c. itemText it = [c] \<and> is_punct c))"

definition tidy_pair :: "privilegeItem \<Rightarrow> privilegeItem \<Rightarrow> bool" where
  "tidy_pair a b = (\<not> (itemToken a \<and> itemToken b) \<and> \<not> (a = Space \<and> b = Space))"

definition tidy :: "privilegeItem list \<Rightarrow> bool" where
  "tidy its = (list_all tidy_item its \<and> successively tidy_pair its)"

definition texts :: "privilegeItem list \<Rightarrow> string" where
  "texts its = concat (map itemText its)"

lemma item_sels [simp]:
  "itemText (Tok t) = t" "itemToken (Tok t)" "itemText (Sep t) = t" "\<not> itemToken (Sep t)"
  "itemText Space = '' ''" "\<not> itemToken Space"
  by (simp_all add: Tok_def Sep_def Space_def)

lemma item_eqs [simp]:
  "Tok a = Tok b \<longleftrightarrow> a = b" "Sep a = Sep b \<longleftrightarrow> a = b" "Tok a \<noteq> Sep b" "Sep b \<noteq> Tok a"
  "Tok a \<noteq> Space" "Space \<noteq> Tok a" "Space = Sep a \<longleftrightarrow> a = '' ''" "Sep a = Space \<longleftrightarrow> a = '' ''"
  by (auto simp: Tok_def Sep_def Space_def)

lemma item_cases: obtains (Tok) t where "it = Tok t" | (Sep) t where "it = Sep t"
proof (cases it)
  case (fields t b)
  then show thesis using that by (cases b) (auto simp: Tok_def Sep_def)
qed

lemma texts_simps [simp]:
  "texts [] = []" "texts (it # its) = itemText it @ texts its" "texts (xs @ ys) = texts xs @ texts ys"
  by (simp_all add: texts_def)

lemma flush_simps [simp]: "flush [] = []" "t \<noteq> [] \<Longrightarrow> flush t = [Tok t]"
  by (simp_all add: flush_def)

lemma escapeBackticks_simps [simp]:
  "escapeBackticks [] = []"
  "escapeBackticks (c # s) = (if c = backtick then [backtick, backtick] else [c]) @ escapeBackticks s"
  by (simp_all add: escapeBackticks_def)

lemma blank_not_quote: "is_blank c \<Longrightarrow> c \<noteq> squote \<and> c \<noteq> dquote \<and> c \<noteq> backtick \<and> c \<noteq> backslash"
  by (auto simp: is_blank_def)

lemma punct_not_quote:
  "is_punct c \<Longrightarrow> c \<noteq> squote \<and> c \<noteq> dquote \<and> c \<noteq> backtick \<and> c \<noteq> backslash \<and> \<not> is_blank c"
  by (auto simp: is_punct_def is_blank_def)

subsection \<open>privilegeItems\<close>

lemma items_from_plain:
  "list_all plain_char w \<Longrightarrow>
   items_from False False False False t (w @ s) = items_from False False False False (t @ w) s"
  by (induction w arbitrary: t) (auto simp: plain_char_def)

lemma items_from_quoted:
  assumes "s = [] \<or> hd s \<noteq> backtick" "t \<noteq> []"
  shows "items_from False False True False t (escapeBackticks n @ backtick # s)
         = Tok (t @ escapeBackticks n @ [backtick]) # items_from False False False False [] s"
  using assms(2)
proof (induction n arbitrary: t)
  case Nil
  then show ?case using assms(1) by (cases s) auto
next
  case (Cons c n)
  show ?case
  proof (cases "c = backtick")
    case True
    with Cons.IH [of "t @ [c, c]"] show ?thesis by simp
  next
    case False
    with Cons.IH [of "t @ [c]"] show ?thesis by simp
  qed
qed

lemma items_from_backticked:
  "s = [] \<or> hd s \<noteq> backtick \<Longrightarrow>
   items_from False False False False [] (backticked n @ s)
   = Tok (backticked n) # items_from False False False False [] s"
  using items_from_quoted [of s "[backtick]" n] by (simp add: backticked_def is_blank_def)

lemma items_from_punct:
  assumes "is_punct c"
  shows "items_from False False False False t (c # s)
         = flush t @ Sep [c] # items_from False False False False [] s"
  using punct_not_quote [OF assms] assms by simp

lemma items_from_space:
  "items_from False False False False t (CHR '' '' # s)
   = flush t @ Space # items_from False False False False [] s"
  by (simp add: is_blank_def Space_def)

lemma sep_item_cases:
  assumes "tidy_item it" "\<not> itemToken it"
  obtains "it = Space" | c where "it = Sep [c]" "is_punct c"
proof (cases it rule: item_cases)
  case (Sep u)
  then show thesis using assms that by (auto simp: tidy_item_def)
qed (use assms in simp)

lemma items_from_sep:
  assumes "tidy_item it" "\<not> itemToken it"
  shows "items_from False False False False t (itemText it @ s)
         = flush t @ it # items_from False False False False [] s"
  using assms by (cases rule: sep_item_cases) (simp_all add: items_from_space items_from_punct del: items_from.simps)

lemma backticked_hd [simp]: "backticked n \<noteq> []" "hd (backticked n) = backtick" "hd (backticked n @ s) = backtick"
  by (simp_all add: backticked_def)

lemma plain_word_hd: "plain_word w \<Longrightarrow> w \<noteq> [] \<and> hd w \<noteq> backtick"
  by (cases w) (auto simp: plain_word_def plain_char_def)

lemma tidy_Cons:
  "tidy (it # its) \<longleftrightarrow> tidy_item it \<and> tidy its \<and> (its = [] \<or> tidy_pair it (hd its))"
  by (cases its) (auto simp: tidy_def)

lemma tidy_Nil [simp]: "tidy []"
  by (simp add: tidy_def)

lemma sep_hd: "tidy_item it \<Longrightarrow> \<not> itemToken it \<Longrightarrow> itemText it \<noteq> [] \<and> hd (itemText it) \<noteq> backtick"
  by (elim sep_item_cases) (auto dest: punct_not_quote)

lemma after_token_no_backtick:
  "tidy (it # its) \<Longrightarrow> itemToken it \<Longrightarrow> texts its = [] \<or> hd (texts its) \<noteq> backtick"
  by (cases its) (auto simp: tidy_Cons tidy_pair_def dest: sep_hd)

theorem privilegeItems_texts: "tidy its \<Longrightarrow> privilegeItems (texts its) = its"
proof -
  have "items_from False False False False t (texts its) = flush t @ its"
    if "tidy its" "t = [] \<or> its = [] \<or> \<not> itemToken (hd its)" for t
    using that
  proof (induction its arbitrary: t)
    case (Cons it its)
    then have tidy: "tidy_item it" "tidy its" by (simp_all add: tidy_Cons)
    show ?case
    proof (cases "itemToken it")
      case False
      with Cons tidy show ?thesis by (simp add: items_from_sep)
    next
      case True
      then have t: "t = []" and next_sep: "its = [] \<or> \<not> itemToken (hd its)"
        using Cons.prems by (auto simp: tidy_Cons tidy_pair_def)
      obtain w where w: "it = Tok w" using True by (cases it rule: item_cases) auto
      show ?thesis
      proof (cases "plain_word w")
        case True
        with Cons.IH [OF tidy(2), of w] next_sep t w show ?thesis
          by (simp add: items_from_plain plain_word_def)
      next
        case False
        with tidy(1) w obtain n where n: "w = backticked n" by (auto simp: tidy_item_def)
        with Cons.IH [OF tidy(2), of "[]"] after_token_no_backtick [OF Cons.prems(1)] t w
        show ?thesis by (simp add: items_from_backticked)
      qed
    qed
  qed simp
  from this [of "[]"] show "tidy its \<Longrightarrow> privilegeItems (texts its) = its"
    by (simp add: privilegeItems_def)
qed

subsection \<open>The canonical form of a tidy statement\<close>

lemma collapse_plain:
  "list_all plain_char w \<Longrightarrow> w \<noteq> [] \<Longrightarrow>
   collapse False False False False b (w @ s) = w @ collapse False False False False False s"
proof (induction w arbitrary: b)
  case (Cons c w)
  then show ?case by (cases "w = []") (auto simp: plain_char_def)
qed simp

lemma collapse_quoted:
  "collapse False False True False b (escapeBackticks n @ backtick # s)
   = escapeBackticks n @ backtick # collapse False False False False False s"
  by (induction n arbitrary: b) auto

lemma collapse_backticked:
  "collapse False False False False b (backticked n @ s) = backticked n @ collapse False False False False False s"
  by (simp add: backticked_def collapse_quoted)

lemma collapse_punct:
  assumes "is_punct c"
  shows "collapse False False False False b (c # s) = c # collapse False False False False False s"
  using punct_not_quote [OF assms] by simp

lemma collapse_space:
  "collapse False False False False False (CHR '' '' # s) = CHR '' '' # collapse False False False False True s"
  by (simp add: is_blank_def)

lemma token_item_cases:
  assumes "tidy_item it" "itemToken it"
  obtains w where "it = Tok w" "plain_word w" | n where "it = Tok (backticked n)"
proof (cases it rule: item_cases)
  case (Tok u)
  then show thesis using assms that by (auto simp: tidy_item_def)
qed (use assms in simp)

lemma collapse_texts:
  "tidy its \<Longrightarrow> b \<longrightarrow> its = [] \<or> hd its \<noteq> Space \<Longrightarrow> collapse False False False False b (texts its) = texts its"
proof (induction its arbitrary: b)
  case (Cons it its)
  note IH = Cons.IH
  have tidy: "tidy_item it" "tidy its" using Cons.prems by (simp_all add: tidy_Cons)
  have word: "collapse False False False False False (texts its) = texts its"
    using IH [OF tidy(2)] by simp
  consider (space) "it = Space" | (punct) c where "it = Sep [c]" "is_punct c"
    | (plain) w where "it = Tok w" "plain_word w" | (quoted) n where "it = Tok (backticked n)"
    using sep_item_cases token_item_cases tidy(1) by metis
  then show ?case
  proof cases
    case space
    with Cons.prems have "\<not> b" "its = [] \<or> hd its \<noteq> Space" by (auto simp: tidy_Cons tidy_pair_def)
    with IH [OF tidy(2), of True] space show ?thesis by (simp add: collapse_space del: collapse.simps)
  qed (simp_all add: word collapse_punct collapse_plain collapse_backticked plain_word_def del: collapse.simps)
qed simp

text \<open>What canonicalisation makes of one item whose words are upper-case already.\<close>

definition strip :: "privilegeItem \<Rightarrow> privilegeItem" where
  "strip it = (if \<not> itemToken it then it
               else case redundantlyBacktickedIdentifier (itemText it) of Some inner \<Rightarrow> Tok inner | None \<Rightarrow> it)"

definition shouted_item :: "privilegeItem \<Rightarrow> bool" where
  "shouted_item it = (itemToken it \<and> plain_word (itemText it) \<longrightarrow> to_upper (itemText it) = itemText it)"

definition shouted :: "privilegeItem list \<Rightarrow> bool" where
  "shouted its = list_all shouted_item its"

lemma keyword_letters: "keyword t \<Longrightarrow> t \<noteq> [] \<and> list_all is_letter t"
proof -
  have "list_all (\<lambda>t. t \<noteq> [] \<and> list_all is_letter t) privilegeKeywords" by code_simp
  then show "keyword t \<Longrightarrow> t \<noteq> [] \<and> list_all is_letter t"
    by (auto simp: keyword_def list_all_iff)
qed

lemma char_upper_backtick [simp]: "char_upper backtick = backtick"
  by (simp add: char_upper_def)

lemma not_keyword_backticked: "\<not> keyword (backtick # s)" "\<not> keyword (to_upper (backticked n))"
  by (auto dest!: keyword_letters simp: to_upper_def backticked_def is_letter_def)

lemma canonical_item_strip:
  assumes "tidy_item it" "shouted_item it"
  shows "canonical_item named it = itemText (strip it)"
proof (cases "itemToken it")
  case True
  then show ?thesis
  proof (rule token_item_cases [OF assms(1)])
    fix w assume "it = Tok w" "plain_word w"
    with assms(2) show ?thesis
      by (auto simp: canonical_item_def strip_def shouted_item_def split: option.split)
  next
    fix n assume "it = Tok (backticked n)"
    then show ?thesis
      by (auto simp: canonical_item_def strip_def not_keyword_backticked split: option.split)
  qed
qed (simp add: canonical_item_def strip_def)

lemma upperCase_texts:
  assumes "tidy its" "shouted its"
  shows "upperCaseReservedKeywords (texts its) = texts (map strip its)"
proof -
  have *: "map (\<lambda>i. canonical_item (f i) (its ! i)) [0..<length its] = map (itemText \<circ> strip) its" for f
    using assms by (intro nth_equalityI)
      (auto simp: canonical_item_strip shouted_def tidy_def list_all_length)
  show ?thesis
    unfolding upperCaseReservedKeywords_def Let_def privilegeItems_texts [OF assms(1)] *
    by (simp add: texts_def)
qed

text \<open>A statement is bare at its ends when neither white space nor a semicolon is there.\<close>

definition bare_ends :: "string \<Rightarrow> bool" where
  "bare_ends s = (s \<noteq> [] \<and> \<not> is_space (hd s) \<and> \<not> is_space (last s) \<and> last s \<noteq> CHR '';'')"

lemma trim_bare_ends:
  "bare_ends s \<Longrightarrow> trim_space (trim_suffix_char CHR '';'' (trim_space s)) = s"
  by (simp add: bare_ends_def trim_space_ends trim_suffix_char_def)

lemma canonical_texts:
  assumes "tidy its" "shouted its" "bare_ends (texts its)"
  shows "CanonicalisePrivilegeStatement (texts its) = texts (map strip its)"
  using assms trim_bare_ends [OF assms(3)] collapse_texts [of its False] upperCase_texts [OF assms(1,2)]
  by (simp add: CanonicalisePrivilegeStatement_def collapseWhitespacePreservingQuotes_def bare_ends_def)

subsection \<open>Names survive canonicalisation\<close>

text \<open>The name a canonical item stands for, quoted or not.\<close>

definition bare_name :: "string \<Rightarrow> bool" where
  "bare_name n = (simpleIdentifier n \<and> \<not> keyword (to_upper n))"

lemma simpleIdentifier_chars:
  "simpleIdentifier n \<Longrightarrow> n \<noteq> [] \<and> (\<forall>c\<in>set n. is_letter c \<or> is_digit c \<or> c = CHR ''_'')"
  by (auto simp: simpleIdentifier_def list_all_iff split: list.splits)

lemma name_char_plain:
  "is_letter c \<or> is_digit c \<or> c = CHR ''_'' \<Longrightarrow> plain_char c \<and> c \<noteq> CHR ''.'' \<and> \<not> is_re_space c"
  by (auto simp: plain_char_def is_letter_def is_digit_def is_blank_def is_punct_def is_re_space_def)

lemma simpleIdentifier_plain:
  "simpleIdentifier n \<Longrightarrow> plain_word n" "simpleIdentifier n \<Longrightarrow> backtick \<notin> set n"
  "simpleIdentifier n \<Longrightarrow> CHR ''.'' \<notin> set n"
  using simpleIdentifier_chars name_char_plain
  by (auto simp: plain_word_def list_all_iff plain_char_def)

lemma escapeBackticks_absent: "backtick \<notin> set n \<Longrightarrow> escapeBackticks n = n"
  by (induction n) auto

lemma set_escapeBackticks [simp]: "set (escapeBackticks n) = set n"
  by (induction n) auto

lemma redundantly_backticked:
  "redundantlyBacktickedIdentifier (backticked n) = (if bare_name n then Some n else None)"
proof (cases "simpleIdentifier (escapeBackticks n)")
  case True
  then have "escapeBackticks n = n"
    using simpleIdentifier_plain(2) escapeBackticks_absent by fastforce
  then show ?thesis
    by (simp add: redundantlyBacktickedIdentifier_def bare_name_def backticked_def Let_def)
next
  case False
  then have "\<not> simpleIdentifier n"
    using simpleIdentifier_plain(2) escapeBackticks_absent by fastforce
  with False show ?thesis
    by (simp add: redundantlyBacktickedIdentifier_def bare_name_def backticked_def Let_def)
qed

lemma strip_simps [simp]:
  "strip (Sep t) = Sep t" "strip Space = Space" "plain_word w \<Longrightarrow> strip (Tok w) = Tok w"
  "strip (Tok (backticked n)) = Tok (if bare_name n then n else backticked n)"
proof -
  show "strip (Tok w) = Tok w" if "plain_word w"
    using plain_word_hd [OF that] by (simp add: strip_def redundantlyBacktickedIdentifier_def)
qed (simp_all add: strip_def redundantly_backticked)

lemma strip_token [simp]: "itemToken (strip it) = itemToken it" "strip it = Space \<longleftrightarrow> it = Space"
  by (cases it rule: item_cases; simp add: strip_def split: option.split)+

lemma tidy_strip: "tidy its \<Longrightarrow> tidy (map strip its)"
proof -
  have "tidy_item (strip it)" if "tidy_item it" for it
  proof (cases "itemToken it")
    case True
    then show ?thesis
      by (rule token_item_cases [OF that]) (auto simp: tidy_item_def bare_name_def simpleIdentifier_plain)
  next
    case False
    with that show ?thesis by (simp add: strip_def)
  qed
  then show "tidy its \<Longrightarrow> tidy (map strip its)"
    by (auto simp: tidy_def list_all_iff successively_map tidy_pair_def)
qed

lemma escapeBackticks_inj: "escapeBackticks m = escapeBackticks n \<longleftrightarrow> m = n"
proof (induction m arbitrary: n)
  case Nil
  show ?case by (cases n) auto
next
  case (Cons c m)
  show ?case by (cases n) (auto simp: Cons.IH)
qed

lemma backticked_inj [simp]: "backticked m = backticked n \<longleftrightarrow> m = n"
  by (simp add: backticked_def escapeBackticks_inj)

text \<open>The words of a statement the operator renders are keywords; every name is backticked.\<close>

definition rendered_item :: "privilegeItem \<Rightarrow> bool" where
  "rendered_item it =
     (tidy_item it \<and> (itemToken it \<and> plain_word (itemText it)
        \<longrightarrow> keyword (itemText it) \<and> to_upper (itemText it) = itemText it))"

definition unstrip :: "privilegeItem \<Rightarrow> privilegeItem" where
  "unstrip it =
     (if itemToken it \<and> plain_word (itemText it) \<and> \<not> (keyword (itemText it) \<and> to_upper (itemText it) = itemText it)
      then Tok (backticked (itemText it)) else it)"

lemma not_plain_backticked [simp]: "\<not> plain_word (backticked n)"
  using plain_word_hd by fastforce

lemma unstrip_strip: "rendered_item it \<Longrightarrow> unstrip (strip it) = it"
proof (cases "itemToken it")
  case False
  then show ?thesis by (simp add: strip_def unstrip_def)
next
  case True
  assume it: "rendered_item it"
  then have "tidy_item it" by (simp add: rendered_item_def)
  from this True show ?thesis
  proof (rule token_item_cases)
    fix w assume "it = Tok w" "plain_word w"
    with it show ?thesis by (simp add: unstrip_def rendered_item_def)
  next
    fix n assume "it = Tok (backticked n)"
    then show ?thesis
      by (auto simp: unstrip_def bare_name_def simpleIdentifier_plain)
  qed
qed

lemma rendered_shouted: "list_all rendered_item its \<Longrightarrow> shouted its"
  by (auto simp: shouted_def shouted_item_def rendered_item_def list_all_iff)

text \<open>
  The canonical form of a rendered statement still determines the statement: canonical
  forms that agree come from the same items.
\<close>

theorem canonical_rendered_inj:
  assumes "tidy its" "list_all rendered_item its" "bare_ends (texts its)"
    and "tidy its'" "list_all rendered_item its'" "bare_ends (texts its')"
    and "CanonicalisePrivilegeStatement (texts its) = CanonicalisePrivilegeStatement (texts its')"
  shows "its = its'"
proof -
  have "texts (map strip its) = texts (map strip its')"
    using assms canonical_texts rendered_shouted by metis
  then have "map strip its = map strip its'"
    by (metis privilegeItems_texts tidy_strip assms(1,4))
  then have "map unstrip (map strip its) = map unstrip (map strip its')" by simp
  moreover have "map unstrip (map strip xs) = xs" if "list_all rendered_item xs" for xs
    using that by (auto simp: list_all_iff unstrip_strip intro: map_idI)
  ultimately show ?thesis using assms(2,5) by simp
qed


section \<open>The grantee of a statement\<close>

text \<open>Which quote the loop of \<^const>\<open>ReplacePrivilegeGrantee\<close> is in after a piece of text.\<close>

fun quote_after :: "char option \<Rightarrow> string \<Rightarrow> char option" where
  "quote_after q [] = q"
| "quote_after q (r # rs) =
     quote_after (case q of Some c \<Rightarrow> if r = c then None else q
                  | None \<Rightarrow> if r = backtick \<or> r = squote \<or> r = dquote then Some r else None) rs"

lemma quote_after_append: "quote_after q (xs @ ys) = quote_after (quote_after q xs) ys"
  by (induction xs arbitrary: q) auto

lemma quote_after_blanks: "list_all is_blank xs \<Longrightarrow> quote_after None xs = None"
  by (induction xs) (auto dest: blank_not_quote)

lemma quote_kept_by_blanks:
  "list_all is_blank xs \<Longrightarrow> c \<in> {backtick, squote, dquote} \<Longrightarrow> quote_after (Some c) xs = Some c"
  by (induction xs) (auto dest: blank_not_quote)

lemma quote_after_kind:
  "q \<in> {None, Some backtick, Some squote, Some dquote} \<Longrightarrow>
   quote_after q xs \<in> {None, Some backtick, Some squote, Some dquote}"
proof (induction xs arbitrary: q)
  case (Cons x xs)
  have "(case q of Some c \<Rightarrow> if x = c then None else q
         | None \<Rightarrow> if x = backtick \<or> x = squote \<or> x = dquote then Some x else None)
        \<in> {None, Some backtick, Some squote, Some dquote}"
    using Cons.prems by (cases q) auto
  with Cons.IH show ?case by simp
qed simp

text \<open>A place in the text outside every quote.\<close>

definition outside :: "string \<Rightarrow> nat option \<Rightarrow> bool" where
  "outside s p = (case p of None \<Rightarrow> True | Some j \<Rightarrow> quote_after None (take j s) = None)"

definition keyword_at :: "string \<Rightarrow> nat option \<Rightarrow> bool" where
  "keyword_at s p = (case p of None \<Rightarrow> True | Some j \<Rightarrow> 0 < j \<and> j \<le> length s \<and> quote_after None (take j s) = None)"

lemma endWord_keyword:
  "keyword_at s lt \<Longrightarrow> outside s ws \<Longrightarrow> (\<forall>j. ws = Some j \<longrightarrow> j \<le> length s) \<Longrightarrow> keyword_at s (endWord s ws e lt)"
  by (auto simp: endWord_def keyword_at_def outside_def split: option.splits)

lemma grantee_from_keyword:
  assumes "drop i s = rest" "quote_after None (take i s) = q" "outside s ws" "keyword_at s lt"
    "\<forall>j. ws = Some j \<longrightarrow> j \<le> length s"
  shows "keyword_at s (grantee_from s i q ws lt rest)"
  using assms
proof (induction s i q ws lt rest rule: grantee_from.induct)
  case (2 s i q ws lt r rs)
  have "i < length s" using "2.prems"(1) by (cases "i < length s") auto
  then have i: "i < length s" "s ! i = r" "drop (i + 1) s = rs"
    using "2.prems"(1) Cons_nth_drop_Suc [of i s] by auto
  have after: "quote_after None (take (i + 1) s) = quote_after q [r]"
    using "2.prems"(2) i by (simp add: take_Suc_conv_app_nth quote_after_append)
  have here: "outside s (Some i)" if "q = None"
    using "2.prems"(2) that by (simp add: outside_def)
  show ?case
  proof (cases q)
    case (Some c)
    with "2.IH"(4) [OF Some i(3)] "2.prems" after show ?thesis by simp
  next
    case None
    note none = None
    note word = endWord_keyword [OF "2.prems"(4) "2.prems"(3) "2.prems"(5)]
    consider (quote) "r = backtick \<or> r = squote \<or> r = dquote"
      | (letter) "\<not> (r = backtick \<or> r = squote \<or> r = dquote)" "is_letter r"
      | (other) "\<not> (r = backtick \<or> r = squote \<or> r = dquote)" "\<not> is_letter r" by blast
    then show ?thesis
    proof cases
      case quote
      with "2.IH"(1) [OF none quote i(3)] none after word show ?thesis by (simp add: outside_def)
    next
      case letter
      with "2.IH"(2) [OF none letter i(3)] none after here "2.prems" i(1) show ?thesis by (simp split: if_splits)
    next
      case other
      with "2.IH"(3) [OF none other i(3)] none after word "2.prems"(4) show ?thesis by (simp add: outside_def)
    qed
  qed
qed simp

lemma grantee_from_append:
  "\<exists>ws' lt'. grantee_from s i q ws lt (xs @ ys) = grantee_from s (i + length xs) (quote_after q xs) ws' lt' ys"
proof (induction xs arbitrary: i q ws lt)
  case Nil
  then show ?case by auto
next
  case (Cons x xs)
  have step: "\<exists>ws1 lt1. grantee_from s i q ws lt ((x # xs) @ ys)
    = grantee_from s (i + 1) (quote_after q [x]) ws1 lt1 (xs @ ys)"
    by (cases q) auto
  then obtain ws1 lt1 where "grantee_from s i q ws lt ((x # xs) @ ys)
    = grantee_from s (i + 1) (quote_after q [x]) ws1 lt1 (xs @ ys)" by blast
  with Cons.IH [of "i + 1" "quote_after q [x]" ws1 lt1] show ?case by auto
qed

lemma grantee_from_quoted:
  "grantee_from s i (Some backtick) None lt (escapeBackticks n @ [backtick]) = lt"
  by (induction n arbitrary: i) (auto simp: endWord_def)

lemma grantee_from_backticked: "grantee_from s i None None lt (backticked n) = lt"
  by (simp add: backticked_def grantee_from_quoted endWord_def)

lemma grantee_of_replaced:
  assumes "quote_after None p = None" and s: "s = p @ '' TO '' @ backticked n"
  shows "grantee_from s 0 None None None s = Some (length p + 1)"
proof -
  obtain ws lt where "grantee_from s 0 None None None s = grantee_from s (length p) None ws lt ('' TO '' @ backticked n)"
    using grantee_from_append [of s 0 None None None p "'' TO '' @ backticked n"] assms by auto
  also have "\<dots> = grantee_from s (length p + 4) None None (endWord s (Some (length p + 1)) (length p + 3) (endWord s ws (length p) lt))
      (backticked n)"
    by (simp add: is_letter_def is_blank_def eval_nat_numeral)
  also have "\<dots> = endWord s (Some (length p + 1)) (length p + 3) (endWord s ws (length p) lt)"
    by (rule grantee_from_backticked)
  also have "\<dots> = Some (length p + 1)"
    using s by (simp add: endWord_def is_blank_def nth_append equal_fold_def)
  finally show ?thesis .
qed

lemma trim_right_split: "\<exists>bs. s = trim_right P s @ bs \<and> list_all P bs"
proof -
  have "rev s = takeWhile P (rev s) @ dropWhile P (rev s)" by simp
  then have "s = rev (dropWhile P (rev s)) @ rev (takeWhile P (rev s))" by (metis rev_append rev_rev_ident)
  moreover have "list_all P (rev (takeWhile P (rev s)))" by (auto simp: list_all_iff dest: set_takeWhileD)
  ultimately show ?thesis by (auto simp: trim_right_def)
qed

lemma trim_right_last: "trim_right P s \<noteq> [] \<Longrightarrow> \<not> P (last (trim_right P s))"
  by (simp add: trim_right_def last_rev hd_dropWhile)

lemma trim_right_snoc: "P c \<Longrightarrow> s = [] \<or> \<not> P (last s) \<Longrightarrow> trim_right P (s @ [c]) = s"
  by (cases s rule: rev_cases) (auto simp: trim_right_def)

lemma is_blank_space: "is_blank c \<Longrightarrow> is_space c"
  by (auto simp: is_blank_def is_space_def)

lemma trim_space_hd: "trim_space s \<noteq> [] \<Longrightarrow> \<not> is_space (hd (trim_space s))"
proof -
  assume ne: "trim_space s \<noteq> []"
  define t where "t = dropWhile is_space s"
  have t: "trim_space s = trim_right is_space t" by (simp add: t_def trim_space_def trim_right_def)
  then obtain bs where "t = trim_space s @ bs" using trim_right_split [of t is_space] by metis
  with ne have "hd t = hd (trim_space s)" "t \<noteq> []" by auto
  then show ?thesis by (metis t_def hd_dropWhile)
qed

text \<open>The statement a replacement leaves, and that the next replacement finds its grantee.\<close>

lemma ReplacePrivilegeGrantee_shape:
  assumes "ReplacePrivilegeGrantee stmt role = Inr out"
  obtains p where "p \<noteq> []" "\<not> is_space (hd p)" "\<not> is_blank (last p)" "quote_after None p = None"
    "\<And>x. ReplacePrivilegeGrantee stmt x = Inr (p @ '' TO '' @ backticked x)"
proof -
  define s where "s = trim_space (trim_suffix_char CHR '';'' (trim_space stmt))"
  obtain L where L: "grantee_from s 0 None None None s = Some L"
    using assms by (auto simp: ReplacePrivilegeGrantee_def s_def Let_def split: option.splits)
  have "keyword_at s (grantee_from s 0 None None None s)"
    by (rule grantee_from_keyword) (simp_all add: outside_def keyword_at_def)
  then have key: "0 < L" "L \<le> length s" "quote_after None (take L s) = None"
    by (simp_all add: L keyword_at_def)
  define p where "p = trim_right is_blank (take L s)"
  obtain bs where bs: "take L s = p @ bs" "list_all is_blank bs"
    using trim_right_split [of "take L s" is_blank] by (auto simp: p_def)
  have "s \<noteq> []" using key(1,2) by auto
  then have s: "s \<noteq> []" "\<not> is_space (hd s)"
    using trim_space_hd [of "trim_suffix_char CHR '';'' (trim_space stmt)"] by (simp_all add: s_def)
  have hd: "hd (take L s) = hd s" "take L s \<noteq> []" using key s by auto
  have "p \<noteq> []"
  proof
    assume "p = []"
    then have "is_blank (hd (take L s))" using bs hd(2) by (cases "take L s") auto
    then show False using hd s is_blank_space by simp
  qed
  moreover from this have "hd p = hd s" using hd bs(1) by (metis hd_append2)
  moreover have "\<not> is_blank (last p)" using trim_right_last \<open>p \<noteq> []\<close> by (simp add: p_def)
  moreover have "quote_after None p = None"
  proof (rule ccontr)
    assume "quote_after None p \<noteq> None"
    moreover have "quote_after None p \<in> {None, Some backtick, Some squote, Some dquote}"
      by (rule quote_after_kind) simp
    ultimately obtain c where c: "quote_after None p = Some c" "c \<in> {backtick, squote, dquote}" by auto
    have "quote_after (quote_after None p) bs = None" using key(3) bs(1) by (simp add: quote_after_append)
    then show False unfolding c(1) quote_kept_by_blanks [OF bs(2) c(2)] by simp
  qed
  moreover have "ReplacePrivilegeGrantee stmt x = Inr (p @ '' TO '' @ backticked x)" for x
    using L by (simp add: ReplacePrivilegeGrantee_def s_def [symmetric] p_def)
  ultimately show thesis using that s(2) by metis
qed

text \<open>
  Rewriting the grantee twice is rewriting it once. Whatever role a statement was
  rewritten to, the next rewrite finds exactly that grantee, so the placeholder rows the
  operator keeps and maps back to a role are the rows of the statement it started from, and
  a role, property or label called TO is never taken for the grantee.
\<close>

theorem ReplacePrivilegeGrantee_last_wins:
  assumes "ReplacePrivilegeGrantee stmt first = Inr out"
  shows "ReplacePrivilegeGrantee out second = ReplacePrivilegeGrantee stmt second"
  using assms
proof (rule ReplacePrivilegeGrantee_shape)
  fix p assume p: "p \<noteq> []" "\<not> is_space (hd p)" "\<not> is_blank (last p)" "quote_after None p = None"
    and replaced: "\<And>x. ReplacePrivilegeGrantee stmt x = Inr (p @ '' TO '' @ backticked x)"
  have out: "out = p @ '' TO '' @ backticked first" using assms replaced [of first] by simp
  then have "bare_ends out" using p by (simp add: bare_ends_def backticked_def is_space_def)
  moreover have "grantee_from out 0 None None None out = Some (length p + 1)"
    by (rule grantee_of_replaced [OF p(4) out])
  moreover have "trim_right is_blank (take (length p + 1) out) = p"
    using p out by (simp add: trim_right_snoc is_blank_def)
  ultimately show ?thesis
    by (simp add: ReplacePrivilegeGrantee_def trim_bare_ends replaced [unfolded ReplacePrivilegeGrantee_def])
qed

lemma ReplacePrivilegeGrantee_last_wins_witness:
  "ReplacePrivilegeGrantee (''GRANT READ {TO} ON GRAPH '' @ backticked ''a TO b'' @ '' TO '' @ backticked ''x'') ''y''
   = ReplacePrivilegeGrantee (''GRANT READ {TO} ON GRAPH '' @ backticked ''a TO b'' @ '' to r;'') ''y''"
  by (rule ReplacePrivilegeGrantee_last_wins [of _ "''x''"]) code_simp


section \<open>The REVOKE of a statement\<close>

definition solid :: "string \<Rightarrow> bool" where
  "solid w = (w \<noteq> [] \<and> list_all (\<lambda>c. \<not> is_re_space c) w)"

lemma split_ws_solid: "list_all (\<lambda>c. \<not> is_re_space c) w \<Longrightarrow> split_ws w = [w]"
proof -
  assume w: "list_all (\<lambda>c. \<not> is_re_space c) w"
  then have "dropWhile (\<lambda>c. \<not> is_re_space c) w = []" "takeWhile (\<lambda>c. \<not> is_re_space c) w = w"
    by (auto simp: list_all_iff dropWhile_eq_Nil_conv takeWhile_eq_all_conv)
  then show ?thesis by (subst split_ws.simps) (simp add: Let_def)
qed

lemma split_ws_Cons:
  assumes "list_all (\<lambda>c. \<not> is_re_space c) w" "s \<noteq> []" "\<not> is_re_space (hd s)"
  shows "split_ws (w @ CHR '' '' # s) = w # split_ws s"
proof -
  have "is_re_space CHR '' ''" by (simp add: is_re_space_def is_blank_def)
  then have "takeWhile (\<lambda>c. \<not> is_re_space c) (w @ CHR '' '' # s) = w"
    "dropWhile (\<lambda>c. \<not> is_re_space c) (w @ CHR '' '' # s) = CHR '' '' # s"
    "dropWhile is_re_space (CHR '' '' # s) = s"
    using assms by (auto simp: list_all_iff takeWhile_append dropWhile_append) (cases s; simp)
  then show ?thesis by (subst split_ws.simps) (simp add: Let_def)
qed

lemma split_ws_join: "ws \<noteq> [] \<Longrightarrow> list_all solid ws \<Longrightarrow> split_ws (join '' '' ws) = ws"
proof (induction ws)
  case (Cons w ws)
  show ?case
  proof (cases "ws = []")
    case True
    with Cons.prems show ?thesis by (simp add: solid_def split_ws_solid)
  next
    case False
    then obtain x xs where ws: "ws = x # xs" by (cases ws) auto
    then have "hd (join '' '' ws) = hd x" "join '' '' ws \<noteq> []" "\<not> is_re_space (hd x)"
      using Cons.prems by (cases xs; cases x; auto simp: solid_def)+
    with Cons False show ?thesis
      by (simp add: join_Cons split_ws_Cons solid_def)
  qed
qed simp

lemma last_to_at_end: "ws \<noteq> [] \<Longrightarrow> last_to (ws @ [''TO'', w]) = Some (length ws)"
proof -
  assume "ws \<noteq> []"
  then have "rev [1..<length (ws @ [''TO'', w]) - 1] = length ws # rev [1..<length ws]"
    by (cases ws) auto
  then show ?thesis by (simp add: last_to_def)
qed

text \<open>
  The statement the operator derives to revoke a stored privilege is \<open>REVOKE\<close>, the
  statement's own verb and body, and \<open>FROM\<close> its grantee, whenever no name in it holds white
  space: the words of the canonical form are kept in order and nothing else is added.
\<close>

theorem DerivePrivilegeRevoke_keeps_the_body:
  assumes "CanonicalisePrivilegeStatement stmt = join '' '' (verb # body @ [''TO'', role])"
    and "verb \<in> {''GRANT'', ''DENY''}" "body \<noteq> []" "list_all solid body" "solid role"
  shows "DerivePrivilegeRevoke stmt = Inr (join '' '' ([''REVOKE'', verb] @ body @ [''FROM'', role]))"
proof -
  have verb: "solid verb" "to_upper verb = verb" using assms(2)
    by (auto simp: solid_def is_re_space_def is_blank_def to_upper_def char_upper_def)
  have "solid ''TO''" by (simp add: solid_def is_re_space_def is_blank_def)
  with verb assms(4,5) have words: "list_all solid (verb # body @ [''TO'', role])" by simp
  have split: "split_ws (CanonicalisePrivilegeStatement stmt) = verb # body @ [''TO'', role]"
    unfolding assms(1) by (rule split_ws_join [OF _ words]) simp
  have "CanonicalisePrivilegeStatement stmt \<noteq> []"
    using words by (auto simp: assms(1) solid_def join_Cons)
  moreover have "last_to (verb # body @ [''TO'', role]) = Some (length body + 1)"
    using last_to_at_end [of "verb # body" role] by simp
  moreover have "join '' '' ([''REVOKE'', verb] @ body @ [''FROM'', role])
    = ''REVOKE '' @ verb @ '' '' @ join '' '' body @ '' FROM '' @ role"
  proof -
    have "join '' '' (xs @ [''FROM'', role]) = join '' '' xs @ '' FROM '' @ role" if "xs \<noteq> []" for xs
      using that
    proof (induction xs)
      case (Cons x xs)
      then show ?case by (cases "xs = []") (auto simp: join_Cons)
    qed simp
    from this [OF assms(3)] assms(3) show ?thesis by (simp add: join_Cons)
  qed
  ultimately show ?thesis
    using assms(2,3) by (auto simp: DerivePrivilegeRevoke_def split verb Let_def)
qed

text \<open>
  A name with two spaces in it loses one: the statement is split at every run of white
  space, inside backticks too, so the \<open>REVOKE\<close> names another label and the stored privilege
  stays.
\<close>

lemma DerivePrivilegeRevoke_loses_a_space:
  "DerivePrivilegeRevoke (''GRANT TRAVERSE ON GRAPH * NODES '' @ backticked ''Big  Label'' @ '' TO r'')
   = Inr (''REVOKE GRANT TRAVERSE ON GRAPH * NODES '' @ backticked ''Big Label'' @ '' FROM r'')"
  by code_simp

lemma DerivePrivilegeRevoke_witness:
  "DerivePrivilegeRevoke (''grant  traverse on graph * nodes '' @ backticked ''Label'' @ '' to r'')
   = Inr (join '' '' ([''REVOKE'', ''GRANT''] @ [''TRAVERSE'', ''ON'', ''GRAPH'', ''*'', ''NODES'', backticked ''Label'']
                      @ [''FROM'', ''r'']))"
proof -
  have "CanonicalisePrivilegeStatement (''grant  traverse on graph * nodes '' @ backticked ''Label'' @ '' to r'')
    = join '' '' (''GRANT'' # [''TRAVERSE'', ''ON'', ''GRAPH'', ''*'', ''NODES'', backticked ''Label''] @ [''TO'', ''r''])"
    by code_simp
  moreover have "list_all solid [''TRAVERSE'', ''ON'', ''GRAPH'', ''*'', ''NODES'', backticked ''Label'']" "solid ''r''"
    by code_simp+
  ultimately show ?thesis
    by (intro DerivePrivilegeRevoke_keeps_the_body) simp_all
qed

end
