(* ===== verification/Privilege_Rules.thy ===== *)
theory Privilege_Rules
  imports Privileges
begin

text \<open>
  \<^verbatim>\<open>src/internal/neo4j/privilege_rules.go\<close>: the structured privileges of a \<open>Neo4jRole\<close>,
  what is wrong with one, and the statement it is rendered to. The theorems say that a
  rendered rule is read back by the scanners of \<^verbatim>\<open>privileges.go\<close> as the rule it was, so a
  name a user chose can neither become Cypher nor be mistaken for another name.
\<close>

section \<open>The model\<close>

record PrivilegeRule =
  Grant :: string
  Deny :: string
  OnDatabase :: string
  OnGraph :: string
  Properties :: "string list"
  Nodes :: "string list"
  Relationships :: "string list"
  Elements :: "string list"

text \<open>The enumeration the schema allows for \<open>grant\<close> and \<open>deny\<close>, both optional.\<close>

definition rule_actions :: "string list" where
  "rule_actions = [''ACCESS'', ''TRAVERSE'', ''READ'', ''MATCH'', ''WRITE'']"

definition schema_rule :: "PrivilegeRule \<Rightarrow> bool" where
  "schema_rule r =
     ((Grant r = [] \<or> Grant r \<in> set rule_actions) \<and> (Deny r = [] \<or> Deny r \<in> set rule_actions))"

record RuleProblem =
  Field :: string
  Detail :: string

definition problem :: "string \<Rightarrow> string \<Rightarrow> RuleProblem" where
  "problem f d = \<lparr>Field = f, Detail = d\<rparr>"

text \<open>Parts of messages: a star in double quotes, and a dash in UTF-8.\<close>

definition star_quoted :: string where
  "star_quoted = [dquote, CHR ''*'', dquote]"

definition em_dash :: string where
  "em_dash = [CHR 0xE2, CHR 0x80, CHR 0x94]"

definition listProblem :: "string list \<Rightarrow> string" where
  "listProblem values =
     (case find (\<lambda>v. trim_space v = [] \<or> (v = ''*'' \<and> length values > 1)) values of
        None \<Rightarrow> []
      | Some v \<Rightarrow> if trim_space v = [] then ''names must not be empty''
                  else star_quoted @ '' means all, so it must be the only entry'')"

text \<open>The action a rule is checked for.\<close>

definition checked_action :: "PrivilegeRule \<Rightarrow> string" where
  "checked_action r = (if Grant r = [] \<and> Deny r \<noteq> [] then Deny r else Grant r)"

definition verb_problems :: "PrivilegeRule \<Rightarrow> RuleProblem list" where
  "verb_problems r =
     (if Grant r \<noteq> [] \<and> Deny r \<noteq> [] then [problem ''deny'' ''set exactly one of grant or deny'']
      else if Grant r = [] \<and> Deny r = [] then [problem ''grant'' ''set exactly one of grant or deny'']
      else [])"

definition scope_problems :: "PrivilegeRule \<Rightarrow> string \<Rightarrow> RuleProblem list" where
  "scope_problems r action =
     (if OnDatabase r \<noteq> [] \<and> OnGraph r \<noteq> []
        then [problem ''onGraph'' ''set exactly one of onDatabase or onGraph'']
      else if action = ''ACCESS'' \<and> OnGraph r \<noteq> []
        then [problem ''onGraph'' ''ACCESS applies to a database: use onDatabase, not onGraph'']
      else if action \<noteq> ''ACCESS'' \<and> action \<noteq> [] \<and> OnDatabase r \<noteq> []
        then [problem ''onDatabase'' (action @ '' applies to a graph: use onGraph, not onDatabase'')]
      else if action = ''ACCESS'' \<and> OnDatabase r = []
        then [problem ''onDatabase''
               (''ACCESS is a database privilege: set onDatabase (a database name, or '' @ star_quoted @ '')'')]
      else if action \<noteq> ''ACCESS'' \<and> action \<noteq> [] \<and> OnGraph r = []
        then [problem ''onGraph''
               (action @ '' is a graph privilege: set onGraph (a database name, or '' @ star_quoted @ '')'')]
      else [])"

definition segments_of :: "PrivilegeRule \<Rightarrow> (string \<times> string list) list" where
  "segments_of r = [(''nodes'', Nodes r), (''relationships'', Relationships r), (''elements'', Elements r)]"

definition set_segments :: "PrivilegeRule \<Rightarrow> (string \<times> string list) list" where
  "set_segments r = filter (\<lambda>(name, values). values \<noteq> []) (segments_of r)"

definition segment_problems :: "PrivilegeRule \<Rightarrow> RuleProblem list" where
  "segment_problems r =
     map (\<lambda>(name, values). problem name (listProblem values))
       (filter (\<lambda>(name, values). listProblem values \<noteq> []) (set_segments r))"

definition action_problems :: "PrivilegeRule \<Rightarrow> string \<Rightarrow> RuleProblem list" where
  "action_problems r action =
     (if action = ''ACCESS'' \<or> action = ''WRITE'' then
        (if Properties r \<noteq> [] then [problem ''properties'' (action @ '' takes no properties'')] else [])
        @ (if set_segments r \<noteq> []
           then [problem ''nodes'' (action @ '' takes no nodes, relationships or elements'')] else [])
      else if action = ''TRAVERSE'' then
        (if Properties r \<noteq> []
         then [problem ''properties'' ''TRAVERSE takes no properties; use READ or MATCH''] else [])
      else if action = ''READ'' \<or> action = ''MATCH'' then
        (if Properties r = []
         then [problem ''properties''
                (action @ '' needs properties: the property names, or ['' @ star_quoted @ ''] for all'')]
         else if listProblem (Properties r) \<noteq> []
           then [problem ''properties'' (listProblem (Properties r))] else [])
      else [])"

definition PrivilegeRuleProblems :: "PrivilegeRule \<Rightarrow> RuleProblem list" where
  "PrivilegeRuleProblems r =
     (let action = checked_action r in
      verb_problems r @ scope_problems r action @ segment_problems r @ action_problems r action
      @ (if length (set_segments r) > 1
         then [problem ''relationships''
                (''set at most one of nodes, relationships and elements '' @ em_dash @ '' one rule per segment'')]
         else []))"

definition nameOrAll :: "string \<Rightarrow> string" where
  "nameOrAll name = (if name = ''*'' then ''*'' else backticked name)"

definition nameList :: "string list \<Rightarrow> string" where
  "nameList names =
     (if length names = 1 \<and> names ! 0 = ''*'' then ''*'' else join '', '' (map backticked names))"

definition rule_verb :: "PrivilegeRule \<Rightarrow> string" where
  "rule_verb r = (if Deny r \<noteq> [] then ''DENY'' else ''GRANT'')"

definition rule_action :: "PrivilegeRule \<Rightarrow> string" where
  "rule_action r = (if Deny r \<noteq> [] then Deny r else Grant r)"

definition segment_text :: "PrivilegeRule \<Rightarrow> string" where
  "segment_text r =
     (if Nodes r \<noteq> [] then '' NODES '' @ nameList (Nodes r)
      else if Relationships r \<noteq> [] then '' RELATIONSHIPS '' @ nameList (Relationships r)
      else if Elements r \<noteq> [] then '' ELEMENTS '' @ nameList (Elements r)
      else [])"

definition RenderPrivilegeRule :: "PrivilegeRule \<Rightarrow> string \<Rightarrow> string + string" where
  "RenderPrivilegeRule r role =
     (case PrivilegeRuleProblems r of
        p # ps \<Rightarrow> Inl (''invalid privilege rule: '' @ Field p @ '': '' @ Detail p)
      | [] \<Rightarrow>
          Inr (rule_verb r @ '' '' @ rule_action r
               @ (if rule_action r = ''READ'' \<or> rule_action r = ''MATCH''
                  then '' {'' @ nameList (Properties r) @ ''}'' else [])
               @ (if rule_action r = ''ACCESS'' then '' ON DATABASE '' @ nameOrAll (OnDatabase r)
                  else '' ON GRAPH '' @ nameOrAll (OnGraph r))
               @ segment_text r @ '' TO '' @ backticked role))"

definition PrivilegeRuleTarget :: "PrivilegeRule \<Rightarrow> string" where
  "PrivilegeRuleTarget r =
     (let t = (if OnDatabase r = [] then OnGraph r else OnDatabase r) in if t = ''*'' then [] else t)"

definition PrivilegeRuleTargetField :: "PrivilegeRule \<Rightarrow> string" where
  "PrivilegeRuleTargetField r = (if OnDatabase r \<noteq> [] then ''onDatabase'' else ''onGraph'')"


section \<open>The items of a rendered rule\<close>

definition name_item :: "string \<Rightarrow> privilegeItem" where
  "name_item n = (if n = ''*'' then Sep ''*'' else Tok (backticked n))"

fun joined_items :: "string list \<Rightarrow> privilegeItem list" where
  "joined_items [] = []"
| "joined_items [n] = [Tok (backticked n)]"
| "joined_items (n # ns) = [Tok (backticked n), Sep '','', Space] @ joined_items ns"

definition list_items :: "string list \<Rightarrow> privilegeItem list" where
  "list_items ns = (if ns = [''*''] then [Sep ''*''] else joined_items ns)"

definition property_items :: "PrivilegeRule \<Rightarrow> privilegeItem list" where
  "property_items r =
     (if rule_action r = ''READ'' \<or> rule_action r = ''MATCH''
      then [Space, Sep ''{''] @ list_items (Properties r) @ [Sep ''}''] else [])"

definition scope_items :: "PrivilegeRule \<Rightarrow> privilegeItem list" where
  "scope_items r =
     (if rule_action r = ''ACCESS'' then [Space, Tok ''ON'', Space, Tok ''DATABASE'', Space, name_item (OnDatabase r)]
      else [Space, Tok ''ON'', Space, Tok ''GRAPH'', Space, name_item (OnGraph r)])"

definition segment_items :: "PrivilegeRule \<Rightarrow> privilegeItem list" where
  "segment_items r =
     (if Nodes r \<noteq> [] then [Space, Tok ''NODES'', Space] @ list_items (Nodes r)
      else if Relationships r \<noteq> [] then [Space, Tok ''RELATIONSHIPS'', Space] @ list_items (Relationships r)
      else if Elements r \<noteq> [] then [Space, Tok ''ELEMENTS'', Space] @ list_items (Elements r)
      else [])"

definition rule_items :: "PrivilegeRule \<Rightarrow> string \<Rightarrow> privilegeItem list" where
  "rule_items r role =
     [Tok (rule_verb r), Space, Tok (rule_action r)] @ property_items r @ scope_items r @ segment_items r
     @ [Space, Tok ''TO'', Space, Tok (backticked role)]"

lemma joined_items_Cons:
  "ns \<noteq> [] \<Longrightarrow> joined_items (n # ns) = [Tok (backticked n), Sep '','', Space] @ joined_items ns"
  by (cases ns) auto

lemma texts_list_items: "texts (list_items ns) = nameList ns"
proof -
  have "texts (joined_items ns) = join '', '' (map backticked ns)"
    by (induction ns rule: joined_items.induct) auto
  then show ?thesis
    by (cases ns) (auto simp: list_items_def nameList_def)
qed

lemma texts_rule_items:
  "PrivilegeRuleProblems r = [] \<Longrightarrow> RenderPrivilegeRule r role = Inr (texts (rule_items r role))"
  by (simp add: RenderPrivilegeRule_def rule_items_def property_items_def scope_items_def segment_items_def
      segment_text_def texts_list_items name_item_def nameOrAll_def)

subsection \<open>They are tidy\<close>

text \<open>The plain words of a rendered rule.\<close>

definition rule_word :: "string \<Rightarrow> bool" where
  "rule_word w = (plain_word w \<and> keyword w \<and> to_upper w = w)"

lemma rule_words [simp]:
  "rule_word ''GRANT''" "rule_word ''DENY''" "rule_word ''ON''" "rule_word ''TO''" "rule_word ''DATABASE''"
  "rule_word ''GRAPH''" "rule_word ''NODES''" "rule_word ''RELATIONSHIPS''" "rule_word ''ELEMENTS''"
  by code_simp+

lemma rule_word_action: "a \<in> set rule_actions \<Longrightarrow> rule_word a"
proof -
  have "list_all rule_word rule_actions" by code_simp
  then show "a \<in> set rule_actions \<Longrightarrow> rule_word a" by (auto simp: list_all_iff)
qed

lemma rendered_items [simp]:
  "rendered_item Space" "rule_word w \<Longrightarrow> rendered_item (Tok w)" "rendered_item (Tok (backticked n))"
  "is_punct c \<Longrightarrow> rendered_item (Sep [c])" "rendered_item (name_item n)"
  by (auto simp: rendered_item_def tidy_item_def rule_word_def name_item_def is_punct_def)

lemma rule_verb_word [simp]: "rule_word (rule_verb r)"
  by (simp add: rule_verb_def)

lemma punct_chars [simp]: "is_punct CHR ''{''" "is_punct CHR ''}''" "is_punct CHR '',''" "is_punct CHR ''*''"
  by (simp_all add: is_punct_def)

lemma rendered_list_items [simp]: "list_all rendered_item (list_items ns)"
proof -
  have "list_all rendered_item (joined_items ns)"
    by (induction ns rule: joined_items.induct) auto
  then show ?thesis by (simp add: list_items_def)
qed

text \<open>An accepted rule of the schema: what the theorems assume of a rule.\<close>

definition accepted_rule :: "PrivilegeRule \<Rightarrow> bool" where
  "accepted_rule r = (schema_rule r \<and> PrivilegeRuleProblems r = [])"

lemma accepted_action: "accepted_rule r \<Longrightarrow> rule_action r \<in> set rule_actions"
  by (auto simp: accepted_rule_def schema_rule_def PrivilegeRuleProblems_def Let_def verb_problems_def
      rule_action_def split: if_splits)

lemma rendered_rule_items: "accepted_rule r \<Longrightarrow> list_all rendered_item (rule_items r role)"
  by (simp add: rule_items_def property_items_def scope_items_def segment_items_def
      rule_word_action accepted_action)

lemma tidy_pairs [simp]:
  "it \<noteq> Space \<Longrightarrow> tidy_pair Space it" "it \<noteq> Space \<Longrightarrow> tidy_pair it Space"
  "c \<noteq> CHR '' '' \<Longrightarrow> tidy_pair (Sep [c]) it" "c \<noteq> CHR '' '' \<Longrightarrow> tidy_pair it (Sep [c])"
  by (auto simp: tidy_pair_def)

lemma name_item_not_Space [simp]: "name_item n \<noteq> Space"
  by (simp add: name_item_def)

lemma list_items_pairs:
  assumes "ns \<noteq> []"
  shows "successively tidy_pair (list_items ns)" "list_items ns \<noteq> []"
    "hd (list_items ns) \<noteq> Space" "last (list_items ns) \<noteq> Space"
proof -
  have ne: "joined_items (n # ns) \<noteq> [] \<and> hd (joined_items (n # ns)) = Tok (backticked n)" for n ns
    by (cases ns) auto
  have "successively tidy_pair (joined_items ns) \<and> last (joined_items ns) \<noteq> Space" using assms
  proof (induction ns rule: joined_items.induct)
    case (3 n m ns)
    with ne [of m ns] show ?case
      by (auto simp: successively_Cons)
  qed auto
  moreover have "joined_items ns \<noteq> []" "hd (joined_items ns) \<noteq> Space"
    using assms ne by (cases ns; fastforce)+
  ultimately show "successively tidy_pair (list_items ns)" "list_items ns \<noteq> []"
    "hd (list_items ns) \<noteq> Space" "last (list_items ns) \<noteq> Space"
    by (simp_all add: list_items_def)
qed

lemma segment_pairs:
  "successively tidy_pair (segment_items r)" "segment_items r \<noteq> [] \<Longrightarrow> hd (segment_items r) = Space"
  "segment_items r \<noteq> [] \<Longrightarrow> last (segment_items r) \<noteq> Space"
  using list_items_pairs by (auto simp: segment_items_def successively_Cons)

lemma property_pairs:
  assumes "rule_action r = ''READ'' \<or> rule_action r = ''MATCH'' \<Longrightarrow> Properties r \<noteq> []"
  shows "successively tidy_pair (property_items r)" "property_items r \<noteq> [] \<Longrightarrow> hd (property_items r) = Space"
    "property_items r \<noteq> [] \<Longrightarrow> last (property_items r) \<noteq> Space"
  using list_items_pairs [of "Properties r"] assms
  by (auto simp: property_items_def successively_Cons successively_append_iff)

lemma scope_pairs:
  "successively tidy_pair (scope_items r)" "scope_items r \<noteq> []" "hd (scope_items r) = Space"
  "last (scope_items r) \<noteq> Space"
  by (simp_all add: scope_items_def)

lemma accepted_properties:
  "accepted_rule r \<Longrightarrow> rule_action r = ''READ'' \<or> rule_action r = ''MATCH'' \<Longrightarrow> Properties r \<noteq> []"
  by (auto simp: accepted_rule_def PrivilegeRuleProblems_def Let_def verb_problems_def checked_action_def
      rule_action_def action_problems_def split: if_splits)

lemma tidy_rule_items:
  assumes "accepted_rule r"
  shows "tidy (rule_items r role)"
proof -
  have "successively tidy_pair (rule_items r role)"
    using segment_pairs [of r] scope_pairs [of r] property_pairs [of r, OF accepted_properties [OF assms]]
    by (cases "property_items r = []"; cases "segment_items r = []")
       (auto simp: rule_items_def successively_append_iff successively_Cons)
  moreover have "list_all tidy_item (rule_items r role)"
    using rendered_rule_items [OF assms, of role] by (auto simp: list_all_iff rendered_item_def)
  ultimately show ?thesis by (simp add: tidy_def)
qed

lemma bare_ends_rule_items: "bare_ends (texts (rule_items r role))"
proof -
  have "hd (rule_verb r) \<in> {CHR ''G'', CHR ''D''}" "rule_verb r \<noteq> []" by (auto simp: rule_verb_def)
  then show ?thesis
    by (auto simp: bare_ends_def rule_items_def backticked_def is_space_def)
qed

subsection \<open>They determine the rule\<close>

lemma joined_items_hd: "ns \<noteq> [] \<Longrightarrow> \<exists>n its. joined_items ns = Tok (backticked n) # its"
  by (cases ns rule: joined_items.cases) auto

lemma joined_items_append_inj:
  assumes "ns \<noteq> []" "ms \<noteq> []" "x \<noteq> Sep '',''" "y \<noteq> Sep '',''"
    and "joined_items ns @ x # xs = joined_items ms @ y # ys"
  shows "ns = ms \<and> x # xs = y # ys"
  using assms
proof (induction ns arbitrary: ms rule: joined_items.induct)
  case (2 n)
  then show ?case by (cases ms rule: joined_items.cases) auto
next
  case (3 n m ns)
  then show ?case by (cases ms rule: joined_items.cases) auto
qed simp

lemma list_items_append_inj:
  assumes "ns \<noteq> []" "ms \<noteq> []" "x \<noteq> Sep '',''" "y \<noteq> Sep '',''"
    and "list_items ns @ x # xs = list_items ms @ y # ys"
  shows "ns = ms \<and> x # xs = y # ys"
proof -
  obtain n its m its' where hds: "joined_items ns = Tok (backticked n) # its" "joined_items ms = Tok (backticked m) # its'"
    using joined_items_hd assms(1,2) by metis
  consider "ns = [''*'']" "ms = [''*'']" | "ns = [''*'']" "ms \<noteq> [''*'']" | "ns \<noteq> [''*'']" "ms = [''*'']"
    | "ns \<noteq> [''*'']" "ms \<noteq> [''*'']" by blast
  then show ?thesis
  proof cases
    case 4
    with assms(5) show ?thesis
      by (intro joined_items_append_inj [OF assms(1-4)]) (simp add: list_items_def)
  qed (use assms(5) hds in \<open>simp_all add: list_items_def\<close>)
qed

lemma name_item_inj [simp]: "name_item m = name_item n \<longleftrightarrow> m = n"
  by (auto simp: name_item_def)

lemma accepted_verb: "accepted_rule r \<Longrightarrow> (Grant r = []) \<noteq> (Deny r = [])"
  by (auto simp: accepted_rule_def PrivilegeRuleProblems_def Let_def verb_problems_def split: if_splits)

lemma accepted_checked: "accepted_rule r \<Longrightarrow> checked_action r = rule_action r"
  using accepted_verb [of r] by (auto simp: checked_action_def rule_action_def)

lemma accepted_parts:
  assumes "accepted_rule r"
  shows "scope_problems r (rule_action r) = []" "action_problems r (rule_action r) = []"
    "length (set_segments r) \<le> 1"
  using assms accepted_checked [OF assms]
  by (auto simp: accepted_rule_def PrivilegeRuleProblems_def Let_def split: if_splits)

lemma action_cases:
  assumes "accepted_rule r"
  obtains "rule_action r = ''ACCESS''" | "rule_action r = ''TRAVERSE''" | "rule_action r = ''READ''"
    | "rule_action r = ''MATCH''" | "rule_action r = ''WRITE''"
  using accepted_action [OF assms] by (auto simp: rule_actions_def)

lemma accepted_scope:
  assumes "accepted_rule r"
  shows "if rule_action r = ''ACCESS'' then OnGraph r = [] \<and> OnDatabase r \<noteq> []
         else OnDatabase r = [] \<and> OnGraph r \<noteq> []"
  using assms
  by (cases rule: action_cases)
     (use accepted_parts(1) [OF assms] in \<open>simp_all add: scope_problems_def split: if_splits\<close>)

lemma accepted_no_properties:
  assumes "accepted_rule r" "rule_action r \<noteq> ''READ''" "rule_action r \<noteq> ''MATCH''"
  shows "Properties r = []"
  using assms(1)
  by (cases rule: action_cases)
     (use accepted_parts(2) [OF assms(1)] assms(2,3) in \<open>simp_all add: action_problems_def split: if_splits\<close>)

lemma accepted_segments:
  assumes "accepted_rule r"
  shows "(Nodes r = [] \<or> Relationships r = []) \<and> (Nodes r = [] \<or> Elements r = [])
         \<and> (Relationships r = [] \<or> Elements r = [])"
proof -
  from accepted_parts(3) [OF assms] show ?thesis by (auto simp: set_segments_def segments_of_def split: if_splits)
qed

text \<open>The part of a rule its segment items stand for.\<close>

lemma segment_items_append_inj:
  assumes "accepted_rule r" "accepted_rule r'"
    and "segment_items r @ [Space, Tok ''TO''] @ xs = segment_items r' @ [Space, Tok ''TO''] @ ys"
  shows "Nodes r = Nodes r' \<and> Relationships r = Relationships r' \<and> Elements r = Elements r' \<and> xs = ys"
proof -
  define seg where "seg q = (if Nodes q \<noteq> [] then (''NODES'', Nodes q)
    else if Relationships q \<noteq> [] then (''RELATIONSHIPS'', Relationships q)
    else (''ELEMENTS'', Elements q))" for q :: PrivilegeRule
  have items: "segment_items q = (if snd (seg q) = [] then [] else [Space, Tok (fst (seg q)), Space] @ list_items (snd (seg q)))"
    for q by (simp add: segment_items_def seg_def)
  have kinds: "fst (seg q) \<noteq> ''TO''" for q by (simp add: seg_def)
  have "seg r = seg r' \<or> snd (seg r) = [] \<and> snd (seg r') = []" "xs = ys"
  proof -
    consider "snd (seg r) = []" "snd (seg r') = []" | "snd (seg r) = []" "snd (seg r') \<noteq> []"
      | "snd (seg r) \<noteq> []" "snd (seg r') = []" | "snd (seg r) \<noteq> []" "snd (seg r') \<noteq> []" by blast
    then have "(seg r = seg r' \<or> snd (seg r) = [] \<and> snd (seg r') = []) \<and> xs = ys"
    proof cases
      case 4
      with assms(3) have "fst (seg r) = fst (seg r')"
        "list_items (snd (seg r)) @ Space # Tok ''TO'' # xs = list_items (snd (seg r')) @ Space # Tok ''TO'' # ys"
        by (simp_all add: items)
      with list_items_append_inj [OF 4 _ _ this(2)] show ?thesis by (simp add: prod_eq_iff)
    qed (use assms(3) kinds [of r] kinds [of r'] in \<open>simp_all add: items\<close>)
    then show "seg r = seg r' \<or> snd (seg r) = [] \<and> snd (seg r') = []" "xs = ys" by simp_all
  qed
  then show ?thesis
    using accepted_segments [OF assms(1)] accepted_segments [OF assms(2)]
    by (auto simp: seg_def split: if_splits)
qed

lemma rule_items_inj:
  assumes r: "accepted_rule r" "accepted_rule r'" and "rule_items r role = rule_items r' role'"
  shows "r = r' \<and> role = role'"
proof -
  have verb: "rule_verb r = rule_verb r'" and action: "rule_action r = rule_action r'"
    and rest: "property_items r @ scope_items r @ segment_items r @ [Space, Tok ''TO''] @ [Space, Tok (backticked role)]
      = property_items r' @ scope_items r' @ segment_items r' @ [Space, Tok ''TO''] @ [Space, Tok (backticked role')]"
    using assms(3) by (simp_all add: rule_items_def)
  have gd: "Grant r = Grant r'" "Deny r = Deny r'"
    using verb action accepted_verb [OF r(1)] accepted_verb [OF r(2)]
    by (auto simp: rule_verb_def rule_action_def split: if_splits)
  have props: "Properties r = Properties r'
    \<and> scope_items r @ segment_items r @ [Space, Tok ''TO''] @ [Space, Tok (backticked role)]
      = scope_items r' @ segment_items r' @ [Space, Tok ''TO''] @ [Space, Tok (backticked role')]"
  proof (cases "rule_action r = ''READ'' \<or> rule_action r = ''MATCH''")
    case True
    have "list_items (Properties r) @ Sep ''}'' # (scope_items r @ segment_items r @ [Space, Tok ''TO''] @ [Space, Tok (backticked role)])
      = list_items (Properties r') @ Sep ''}'' # (scope_items r' @ segment_items r' @ [Space, Tok ''TO''] @ [Space, Tok (backticked role')])"
      using rest True action by (simp add: property_items_def)
    from list_items_append_inj [OF _ _ _ _ this] show ?thesis
      using accepted_properties [OF r(1)] accepted_properties [OF r(2)] True action by simp
  next
    case False
    with rest action accepted_no_properties [OF r(1)] accepted_no_properties [OF r(2)] show ?thesis
      by (simp add: property_items_def)
  qed
  then have scope: "OnDatabase r = OnDatabase r' \<and> OnGraph r = OnGraph r'
    \<and> segment_items r @ [Space, Tok ''TO''] @ [Space, Tok (backticked role)]
      = segment_items r' @ [Space, Tok ''TO''] @ [Space, Tok (backticked role')]"
    using action accepted_scope [OF r(1)] accepted_scope [OF r(2)] by (auto simp: scope_items_def split: if_splits)
  with segment_items_append_inj [OF r, of "[Space, Tok (backticked role)]" "[Space, Tok (backticked role')]"]
  show ?thesis using gd props by simp
qed

subsection \<open>The tokens of a rendered rule\<close>

text \<open>\<^const>\<open>privilegeTokens\<close> on items: spaces and commas end a token, all else is glued.\<close>

fun item_tokens :: "string \<Rightarrow> privilegeItem list \<Rightarrow> string list" where
  "item_tokens cur [] = word cur"
| "item_tokens cur (it # its) =
     (if it = Space then word cur @ item_tokens [] its
      else if it = Sep '','' then word cur @ '','' # item_tokens [] its
      else item_tokens (cur @ itemText it) its)"

lemma tokens_from_glue:
  "list_all (\<lambda>c. c \<noteq> backtick \<and> c \<noteq> CHR '','' \<and> \<not> is_blank c) w \<Longrightarrow>
   tokens_from False cur (w @ s) = tokens_from False (cur @ w) s"
  by (induction w arbitrary: cur) auto

lemma tokens_from_backticked: "tokens_from False cur (backticked n @ s) = tokens_from False (cur @ backticked n) s"
proof -
  have "tokens_from True cur (escapeBackticks n @ backtick # s)
        = tokens_from False (cur @ escapeBackticks n @ [backtick]) s" for cur
    by (induction n arbitrary: cur) auto
  from this [of "cur @ [backtick]"] show ?thesis by (simp add: backticked_def)
qed

lemma plain_glue: "plain_word w \<Longrightarrow> list_all (\<lambda>c. c \<noteq> backtick \<and> c \<noteq> CHR '','' \<and> \<not> is_blank c) w"
  by (auto simp: plain_word_def plain_char_def list_all_iff is_punct_def)

lemma tokens_from_items:
  "list_all tidy_item its \<Longrightarrow> tokens_from False cur (texts its) = item_tokens cur its"
proof (induction its arbitrary: cur)
  case (Cons it its)
  then have it: "tidy_item it" by simp
  consider (space) "it = Space" | (punct) c where "it = Sep [c]" "is_punct c"
    | (plain) w where "it = Tok w" "plain_word w" | (quoted) n where "it = Tok (backticked n)"
    using sep_item_cases token_item_cases it by metis
  then show ?case
  proof cases
    case (punct c)
    then have "c \<noteq> backtick" "\<not> is_blank c" "c \<noteq> CHR '' ''"
      using punct_not_quote by (blast, blast, auto simp: is_punct_def)
    with Cons punct show ?thesis by (cases "c = CHR '',''") auto
  next
    case (plain w)
    with Cons show ?thesis by (simp add: tokens_from_glue plain_glue)
  next
    case (quoted n)
    with Cons show ?thesis by (simp add: tokens_from_backticked)
  qed (use Cons in \<open>simp add: is_blank_def\<close>)
qed simp

text \<open>How a name is written in the canonical form.\<close>

definition canonical_name :: "string \<Rightarrow> string" where
  "canonical_name n = (if bare_name n then n else backticked n)"

lemma strip_name [simp]: "strip (Tok (backticked n)) = Tok (canonical_name n)"
  by (simp add: canonical_name_def)

declare strip_simps(4) [simp del]

lemma canonical_name_not_keyword: "\<not> (keyword (canonical_name n) \<and> to_upper (canonical_name n) = canonical_name n)"
  using not_keyword_backticked(2) [of n] by (auto simp: canonical_name_def bare_name_def)

lemma canonical_name_not_Nil [simp]: "canonical_name n \<noteq> []"
  by (auto simp: canonical_name_def bare_name_def simpleIdentifier_def)

lemma canonical_name_neq: "rule_word w \<Longrightarrow> canonical_name n \<noteq> w"
  using canonical_name_not_keyword by (auto simp: rule_word_def)

lemma word_simps [simp]: "word [] = []" "t \<noteq> [] \<Longrightarrow> word t = [t]"
  by (simp_all add: word_def)

lemma list_tokens:
  assumes "ns \<noteq> []" "cur \<in> {[], ''{''}" "e \<in> {[], [Sep ''}'']}"
  shows "\<exists>ts. ''ON'' \<notin> set ts \<and> (\<forall>its. item_tokens cur (map strip (list_items ns) @ e @ Space # its) = ts @ item_tokens [] its)"
proof -
  have not_ON: "cur @ canonical_name n @ texts e \<noteq> ''ON''" if "cur \<in> {[], ''{''}" for cur n
    using that assms(3) canonical_name_neq [of "''ON''" n]
    by (auto dest: arg_cong [where f = last])
  have not_ON': "cur @ canonical_name n \<noteq> ''ON''" if "cur \<in> {[], ''{''}" for cur n
    using that canonical_name_neq [of "''ON''" n] by auto
  have "\<exists>ts. ''ON'' \<notin> set ts \<and> (\<forall>its. item_tokens cur (map strip (joined_items ns) @ e @ Space # its) = ts @ item_tokens [] its)"
    using assms(1,2)
  proof (induction ns arbitrary: cur rule: joined_items.induct)
    case (2 n)
    then show ?case using assms(3) not_ON [of cur n]
      by (intro exI [of _ "[cur @ canonical_name n @ texts e]"]) auto
  next
    case (3 n m ns)
    from "3.IH" [of "[]"] obtain ts where "''ON'' \<notin> set ts"
      "\<forall>its. item_tokens [] (map strip (joined_items (m # ns)) @ e @ Space # its) = ts @ item_tokens [] its"
      by auto
    with "3.prems" not_ON' [of cur n] show ?case
      by (intro exI [of _ "[cur @ canonical_name n, '',''] @ ts"]) auto
  qed simp
  moreover have "\<exists>ts. ''ON'' \<notin> set ts \<and> (\<forall>its. item_tokens cur (Sep ''*'' # e @ Space # its) = ts @ item_tokens [] its)"
    using assms(2,3) by (intro exI [of _ "[cur @ ''*'' @ texts e]"]) auto
  ultimately show ?thesis by (simp add: list_items_def)
qed

lemma property_tokens:
  assumes "accepted_rule r"
  shows "\<exists>ts. ''ON'' \<notin> set ts \<and>
    (\<forall>its. item_tokens (rule_action r) (map strip (property_items r) @ Space # its) = ts @ item_tokens [] its)"
proof (cases "rule_action r = ''READ'' \<or> rule_action r = ''MATCH''")
  case True
  then obtain ts where "''ON'' \<notin> set ts"
    "\<forall>its. item_tokens ''{'' (map strip (list_items (Properties r)) @ [Sep ''}''] @ Space # its) = ts @ item_tokens [] its"
    using list_tokens [of "Properties r" "''{''" "[Sep ''}'']"] accepted_properties [OF assms] by auto
  with True show ?thesis
    by (intro exI [of _ "rule_action r # ts"]) (auto simp: property_items_def)
next
  case False
  with assms show ?thesis
    by (intro exI [of _ "[rule_action r]"], cases rule: action_cases) (auto simp: property_items_def)
qed

lemma segment_tokens:
  "\<exists>ts. ''ON'' \<notin> set ts \<and> (ts = [] \<or> keyword (hd ts)) \<and>
    (\<forall>cur its. item_tokens cur (map strip (segment_items r) @ Space # its) = word cur @ ts @ item_tokens [] its)"
proof -
  have seg: "\<exists>ts. ''ON'' \<notin> set ts \<and> (ts = [] \<or> keyword (hd ts)) \<and>
    (\<forall>cur its. item_tokens cur (map strip ([Space, Tok k, Space] @ list_items ns) @ Space # its)
               = word cur @ ts @ item_tokens [] its)"
    if k: "ns \<noteq> []" "rule_word k" "k \<noteq> ''ON''" for k ns
  proof -
    obtain ts where "''ON'' \<notin> set ts"
      "\<forall>its. item_tokens [] (map strip (list_items ns) @ Space # its) = ts @ item_tokens [] its"
      using list_tokens [of ns "[]" "[]"] k(1) by auto
    with k show ?thesis
      by (intro exI [of _ "k # ts"]) (auto simp: rule_word_def plain_word_def)
  qed
  show ?thesis
    using seg [of "Nodes r" "''NODES''"] seg [of "Relationships r" "''RELATIONSHIPS''"] seg [of "Elements r" "''ELEMENTS''"]
    by (auto simp: segment_items_def intro: exI [of _ "[]"])
qed

definition scope_word :: "PrivilegeRule \<Rightarrow> string" where
  "scope_word r = (if rule_action r = ''ACCESS'' then ''DATABASE'' else ''GRAPH'')"

definition rule_scope_name :: "PrivilegeRule \<Rightarrow> string" where
  "rule_scope_name r = (if rule_action r = ''ACCESS'' then OnDatabase r else OnGraph r)"

lemma scope_items_alt:
  "scope_items r = [Space, Tok ''ON'', Space, Tok (scope_word r), Space, name_item (rule_scope_name r)]"
  by (simp add: scope_items_def scope_word_def rule_scope_name_def)

lemma rule_word_sels: "rule_word w \<Longrightarrow> strip (Tok w) = Tok w" "rule_word w \<Longrightarrow> w \<noteq> []"
  by (simp_all add: rule_word_def plain_word_def)

lemma rule_tokens:
  assumes "accepted_rule r"
  shows "\<exists>ps ss. ''ON'' \<notin> set ps \<and> ''ON'' \<notin> set ss \<and> (ss = [] \<or> keyword (hd ss)) \<and>
    privilegeTokens (texts (map strip (rule_items r role)))
    = rule_verb r # ps @ [''ON'', scope_word r, itemText (strip (name_item (rule_scope_name r)))]
      @ ss @ [''TO'', canonical_name role]"
proof -
  obtain ps where ps: "''ON'' \<notin> set ps"
    "\<forall>its. item_tokens (rule_action r) (map strip (property_items r) @ Space # its) = ps @ item_tokens [] its"
    using property_tokens [OF assms] by blast
  obtain ss where ss: "''ON'' \<notin> set ss" "ss = [] \<or> keyword (hd ss)"
    "\<forall>cur its. item_tokens cur (map strip (segment_items r) @ Space # its) = word cur @ ss @ item_tokens [] its"
    using segment_tokens by blast
  have tidy: "list_all tidy_item (map strip (rule_items r role))"
    using tidy_strip [OF tidy_rule_items [OF assms]] by (simp add: tidy_def)
  have scope: "strip (Tok (scope_word r)) = Tok (scope_word r)" "scope_word r \<noteq> []"
    by (simp_all add: scope_word_def rule_word_sels)
  have nm: "strip (name_item n) \<noteq> Space" "strip (name_item n) \<noteq> Sep '',''" "itemText (strip (name_item n)) \<noteq> []" for n
    by (simp_all add: name_item_def)
  have act: "strip (Tok (rule_action r)) = Tok (rule_action r)"
    using rule_word_action [OF accepted_action [OF assms]] by (simp add: rule_word_sels)
  have "privilegeTokens (texts (map strip (rule_items r role))) = item_tokens [] (map strip (rule_items r role))"
    by (simp add: privilegeTokens_def tokens_from_items [OF tidy])
  also have "\<dots> = rule_verb r # item_tokens (rule_action r) (map strip (property_items r) @ Space #
      [Tok ''ON'', Space, Tok (scope_word r), Space, strip (name_item (rule_scope_name r))]
      @ map strip (segment_items r) @ Space # [Tok ''TO'', Space, Tok (canonical_name role)])"
    by (simp add: rule_items_def scope_items_alt scope act rule_word_sels)
  also have "\<dots> = rule_verb r # ps @ [''ON'', scope_word r, itemText (strip (name_item (rule_scope_name r)))]
      @ ss @ [''TO'', canonical_name role]"
    unfolding ps(2) [rule_format] by (simp add: ss(3) scope nm)
  finally show ?thesis using ps(1) ss(1,2) by blast
qed

section \<open>What the operator reads from a rendered rule\<close>

lemma scan_scopes_skip: "''ON'' \<notin> set ts \<Longrightarrow> scan_scopes sc (ts @ us) = scan_scopes sc us"
  by (induction ts) auto

lemma scan_scopes_none: "''ON'' \<notin> set ts \<Longrightarrow> scan_scopes sc ts = \<lparr>scopeNames = [], unreadable = False\<rparr>"
  using scan_scopes_skip [of ts sc "[]"] by simp

lemma quoted_part_backticked: "quoted_part (escapeBackticks n @ [backtick]) = Some (n, [])"
  by (induction n) auto

lemma name_from_bare: "backtick \<notin> set n \<Longrightarrow> CHR ''.'' \<notin> set n \<Longrightarrow> k > 0 \<or> n \<noteq> [] \<Longrightarrow> name_from k b n = Some (b @ n)"
  by (induction n arbitrary: k b) auto

lemma parseName_canonical: "n \<noteq> [] \<Longrightarrow> parseName (canonical_name n) = Some n"
  by (auto simp: parseName_def canonical_name_def bare_name_def name_from_bare simpleIdentifier_plain
      backticked_def quoted_part_backticked)

lemma canonical_name_no_keyword: "\<not> keyword (canonical_name n)"
proof (cases "bare_name n")
  case True
  have upper: "keyword t \<Longrightarrow> to_upper t = t" for t
  proof -
    have "list_all (\<lambda>t. to_upper t = t) privilegeKeywords" by code_simp
    then show "keyword t \<Longrightarrow> to_upper t = t" by (auto simp: keyword_def list_all_iff)
  qed
  from True show ?thesis by (auto simp: canonical_name_def bare_name_def upper)
qed (simp add: canonical_name_def backticked_def not_keyword_backticked)

lemma scan_names_rule:
  assumes "n \<noteq> []" "ss = [] \<or> keyword (hd ss)"
  shows "scan_names (itemText (strip (name_item n)) # ss @ [''TO'', w])
         = \<lparr>scopeNames = (if n = ''*'' then [] else [n]), unreadable = False\<rparr>"
proof -
  have "keyword ''TO''" using rule_words(4) by (simp add: rule_word_def)
  then have rest: "scan_names (ss @ [''TO'', w]) = \<lparr>scopeNames = [], unreadable = False\<rparr>"
    using assms(2) by (cases ss) (auto dest: keyword_letters simp: is_letter_def)
  have "canonical_name n \<noteq> '',''"  "canonical_name n \<noteq> ''*''"
    by (auto simp: canonical_name_def backticked_def bare_name_def simpleIdentifier_def is_letter_def)
  with rest show ?thesis
    using assms(1) by (simp add: name_item_def canonical_name_no_keyword parseName_canonical)
qed

lemma rendered_canonical:
  assumes "accepted_rule r"
  shows "CanonicalisePrivilegeStatement (texts (rule_items r role)) = texts (map strip (rule_items r role))"
  using assms by (intro canonical_texts tidy_rule_items rendered_shouted rendered_rule_items bare_ends_rule_items)

lemma scan_scopes_ON:
  assumes "u = ''DATABASE'' \<or> u = ''GRAPH''"
  shows "scan_scopes sc (''ON'' # u # us) =
    (if u \<in> set sc then also_scope (scan_names us) (scan_scopes sc (u # us)) else scan_scopes sc (u # us))"
  using assms by (elim disjE) (simp_all del: scan_scopes.simps(1))

lemma scope_rule:
  assumes "accepted_rule r"
  shows "scanPrivilegeScopes (texts (rule_items r role)) scopes
    = \<lparr>scopeNames = (if rule_scope_name r = ''*'' \<or> scope_word r \<notin> set scopes then [] else [rule_scope_name r]),
       unreadable = False\<rparr>"
proof -
  obtain ps ss where ps: "''ON'' \<notin> set ps" and ss: "''ON'' \<notin> set ss" "ss = [] \<or> keyword (hd ss)"
    and toks: "privilegeTokens (texts (map strip (rule_items r role)))
      = rule_verb r # ps @ [''ON'', scope_word r, itemText (strip (name_item (rule_scope_name r)))]
        @ ss @ [''TO'', canonical_name role]"
    using rule_tokens [OF assms] by blast
  let ?nm = "itemText (strip (name_item (rule_scope_name r)))"
  have "?nm \<noteq> ''ON''" using canonical_name_neq [of "''ON''"] by (auto simp: name_item_def)
  moreover have "scope_word r \<noteq> ''ON''" "rule_verb r \<noteq> ''ON''" "canonical_name role \<noteq> ''ON''"
    using canonical_name_neq [of "''ON''" role] by (auto simp: scope_word_def rule_verb_def)
  ultimately have tail: "''ON'' \<notin> set (scope_word r # ?nm # ss @ [''TO'', canonical_name role])"
    and skip: "''ON'' \<notin> set (rule_verb r # ps)" using ps ss(1) by auto
  have "rule_scope_name r \<noteq> []" using accepted_scope [OF assms] by (auto simp: rule_scope_name_def split: if_splits)
  note names = scan_names_rule [OF this ss(2), of "canonical_name role"]
  have word: "scope_word r = ''DATABASE'' \<or> scope_word r = ''GRAPH''" by (simp add: scope_word_def)
  have "scan_scopes scopes ((rule_verb r # ps) @ ''ON'' # scope_word r # ?nm # ss @ [''TO'', canonical_name role])
    = \<lparr>scopeNames = (if rule_scope_name r = ''*'' \<or> scope_word r \<notin> set scopes then [] else [rule_scope_name r]),
       unreadable = False\<rparr>"
    unfolding scan_scopes_skip [OF skip] scan_scopes_ON [OF word] scan_scopes_none [OF tail] names
    by (simp add: also_scope_def)
  then show ?thesis
    by (simp add: scanPrivilegeScopes_def rendered_canonical [OF assms] toks)
qed

lemma rendered_accepted:
  assumes "schema_rule r" "RenderPrivilegeRule r role = Inr stmt"
  shows "accepted_rule r" "stmt = texts (rule_items r role)"
proof -
  have ok: "PrivilegeRuleProblems r = []"
    using assms(2) by (auto simp: RenderPrivilegeRule_def split: list.splits)
  with assms(1) show "accepted_rule r" by (simp add: accepted_rule_def)
  show "stmt = texts (rule_items r role)" using texts_rule_items [OF ok] assms(2) by simp
qed

lemma rule_target:
  assumes "accepted_rule r"
  shows "PrivilegeRuleTarget r = (if rule_scope_name r = ''*'' then [] else rule_scope_name r)"
    "rule_scope_name r \<noteq> []"
  using accepted_scope [OF assms]
  by (auto simp: rule_scope_name_def PrivilegeRuleTarget_def Let_def split: if_splits)

lemma rule_verb_read:
  assumes "accepted_rule r"
  shows "PrivilegeStatementVerb (texts (rule_items r role)) = rule_verb r"
proof -
  have "CanonicalisePrivilegeStatement (texts (rule_items r role)) = rule_verb r @ '' '' @
      texts (map strip (tl (tl (rule_items r role))))"
    using rendered_canonical [OF assms] by (simp add: rule_items_def rule_word_sels)
  moreover have "CHR '' '' \<notin> set (rule_verb r)" by (simp add: rule_verb_def)
  ultimately show ?thesis
    by (auto simp: PrivilegeStatementVerb_def rule_verb_def to_upper_def char_upper_def Let_def)
qed

text \<open>
  C29: two structured privileges have the same canonical form only when they are the same
  rule granted to the same role. So the comparison the operator makes between what a role
  asks for and what it has never takes one rule for another, whatever names the rules hold:
  names that spell keywords, that differ in case only, or that hold quotes, spaces, commas
  or backticks.
\<close>

theorem canonical_rules_distinct:
  assumes "schema_rule r" "schema_rule r'"
    and "RenderPrivilegeRule r role = Inr stmt" "RenderPrivilegeRule r' role' = Inr stmt'"
  shows "CanonicalisePrivilegeStatement stmt = CanonicalisePrivilegeStatement stmt' \<longleftrightarrow> r = r' \<and> role = role'"
proof
  note r = rendered_accepted [OF assms(1,3)] and r' = rendered_accepted [OF assms(2,4)]
  assume "CanonicalisePrivilegeStatement stmt = CanonicalisePrivilegeStatement stmt'"
  then have "rule_items r role = rule_items r' role'"
    unfolding r(2) r'(2)
    by (intro canonical_rendered_inj tidy_rule_items rendered_rule_items bare_ends_rule_items r(1) r'(1))
  then show "r = r' \<and> role = role'" by (rule rule_items_inj [OF r(1) r'(1)])
qed (use assms in auto)

definition name_rule :: "string \<Rightarrow> PrivilegeRule" where
  "name_rule n = \<lparr>Grant = ''READ'', Deny = [], OnDatabase = [], OnGraph = ''sales'', Properties = [n],
     Nodes = [''Person'', ''a, b''], Relationships = [], Elements = []\<rparr>"

lemma canonical_rules_distinct_witness:
  "\<exists>s s'. RenderPrivilegeRule (name_rule ''name'') ''user'' = Inr s
     \<and> RenderPrivilegeRule (name_rule ''NAME'') ''user'' = Inr s'
     \<and> CanonicalisePrivilegeStatement s \<noteq> CanonicalisePrivilegeStatement s'"
proof -
  have schema: "schema_rule (name_rule ''name'')" "schema_rule (name_rule ''NAME'')" by code_simp+
  have ok: "PrivilegeRuleProblems (name_rule ''name'') = []" "PrivilegeRuleProblems (name_rule ''NAME'') = []"
    by code_simp+
  note s = texts_rule_items [OF ok(1), of "''user''"] and s' = texts_rule_items [OF ok(2), of "''user''"]
  have "name_rule ''name'' \<noteq> name_rule ''NAME''" by (simp add: name_rule_def)
  with canonical_rules_distinct [OF schema s s'] s s' show ?thesis by blast
qed

text \<open>
  C30: the scanners read from a rendered rule what the rule says. Its items are the
  keywords of the statement and one backticked item per name, its verb is the rule's, the
  databases it is taken to name are the rule's own target and nothing else, the graphs only
  when the rule is about a graph, and it never counts as unreadable.
\<close>

theorem rendered_rule_reads_back:
  assumes "schema_rule r" "RenderPrivilegeRule r role = Inr stmt"
  shows "privilegeItems stmt = rule_items r role
    \<and> PrivilegeStatementVerb stmt = rule_verb r
    \<and> PrivilegeDatabaseTargets stmt = (if PrivilegeRuleTarget r = [] then [] else [PrivilegeRuleTarget r])
    \<and> PrivilegeGraphTargets stmt
        = (if rule_action r = ''ACCESS'' \<or> PrivilegeRuleTarget r = [] then [] else [PrivilegeRuleTarget r])
    \<and> PrivilegeAliasDependence stmt = (PrivilegeDatabaseTargets stmt, False)"
proof -
  note r = rendered_accepted [OF assms]
  have all: "scope_word r \<in> set [''DATABASE'', ''DATABASES'', ''GRAPH'', ''GRAPHS'']"
    and graph: "scope_word r \<in> set [''GRAPH'', ''GRAPHS''] \<longleftrightarrow> rule_action r \<noteq> ''ACCESS''"
    by (simp_all add: scope_word_def)
  have targets: "PrivilegeDatabaseTargets stmt = (if PrivilegeRuleTarget r = [] then [] else [PrivilegeRuleTarget r])"
    using scope_rule [OF r(1), of role "[''DATABASE'', ''DATABASES'', ''GRAPH'', ''GRAPHS'']"] all rule_target [OF r(1)]
    by (simp add: PrivilegeDatabaseTargets_def r(2))
  have graphs: "PrivilegeGraphTargets stmt
        = (if rule_action r = ''ACCESS'' \<or> PrivilegeRuleTarget r = [] then [] else [PrivilegeRuleTarget r])"
    using scope_rule [OF r(1), of role "[''GRAPH'', ''GRAPHS'']"] graph rule_target [OF r(1)]
    by (auto simp: PrivilegeGraphTargets_def r(2))
  have "CanonicalisePrivilegeStatement stmt \<noteq> []"
    using rendered_canonical [OF r(1), of role] by (simp add: r(2) rule_items_def)
  then have dependence: "PrivilegeAliasDependence stmt = (PrivilegeDatabaseTargets stmt, False)"
    using scope_rule [OF r(1), of role "[''DATABASE'', ''DATABASES'', ''GRAPH'', ''GRAPHS'']"]
    by (simp add: PrivilegeAliasDependence_def PrivilegeDatabaseTargets_def r(2))
  show ?thesis
    using targets graphs dependence privilegeItems_texts [OF tidy_rule_items [OF r(1)]] rule_verb_read [OF r(1)]
    by (simp add: r(2))
qed

lemma rendered_rule_reads_back_witness:
  "\<exists>s. RenderPrivilegeRule (name_rule ''on graph'') ''user'' = Inr s \<and> PrivilegeDatabaseTargets s = [''sales'']
     \<and> privilegeItems s = rule_items (name_rule ''on graph'') ''user''"
proof -
  have schema: "schema_rule (name_rule ''on graph'')" by code_simp
  have ok: "PrivilegeRuleProblems (name_rule ''on graph'') = []" by code_simp
  note s = texts_rule_items [OF ok, of "''user''"]
  from rendered_rule_reads_back [OF schema s] s show ?thesis
    by (auto simp: PrivilegeRuleTarget_def name_rule_def)
qed

end
