(* ===== verification/Role_Learning.thy ===== *)
theory Role_Learning
  imports Privilege_Rules "HOL-Library.AList"
begin

text \<open>
  \<^verbatim>\<open>src/internal/controller/neo4jrole_learn.go\<close> and the parts of
  \<^verbatim>\<open>neo4jrole_controller.go\<close> it calls: reconciling the privileges of a role by learning, from
  the operator's own grants, how Neo4j stores each statement of the spec.

  Neo4j and the API server are not part of the source: a record \<open>role_env\<close> of operations on
  a state of any type stands for them, and what the theorems rely on are named hypotheses
  about it. A Go map that is only looked up is a map; one that is ranged over is an
  association list, and a \<^verbatim>\<open>map[string]bool\<close> is a set.
\<close>

section \<open>The model\<close>

record learnedRendering =
  lrRows :: "string list"
  lrAmbiguous :: bool

record learnState =
  lsScope :: string
  lsRenderings :: "(string \<times> learnedRendering) list"
  lsBaseline :: "string set"
  lsRaw :: "string \<rightharpoonup> string"

definition newLearnState :: "string \<Rightarrow> learnState" where
  "newLearnState scope = \<lparr>lsScope = scope, lsRenderings = [], lsBaseline = {}, lsRaw = Map.empty\<rparr>"

text \<open>\<open>remember\<close> writes the raw map and returns the canonical form.\<close>

definition remember :: "string \<Rightarrow> learnState \<Rightarrow> learnState" where
  "remember shown s =
     (let canon = CanonicalisePrivilegeStatement shown in
      if canon \<noteq> [] \<and> lsRaw s canon = None then s\<lparr>lsRaw := (lsRaw s)(canon \<mapsto> shown)\<rparr> else s)"

definition shown_row :: "learnState \<Rightarrow> string \<Rightarrow> string" where
  "shown_row s canon = (case lsRaw s canon of Some r \<Rightarrow> r | None \<Rightarrow> canon)"

definition canonical_rows :: "string list \<Rightarrow> string list" where
  "canonical_rows rows = filter (\<lambda>c. c \<noteq> []) (map CanonicalisePrivilegeStatement rows)"

definition rememberAll :: "string list \<Rightarrow> learnState \<Rightarrow> learnState \<times> string set" where
  "rememberAll rows s = (fold remember rows s, set (canonical_rows rows))"

text \<open>The fields of \<open>Neo4jRoleStatus\<close> learn mode keeps.\<close>

record PrivilegeRendering =
  prStatement :: string
  prRows :: "string list"
  prAmbiguous :: bool

record role_status =
  PrivilegeRenderingScope :: string
  PrivilegeRenderings :: "PrivilegeRendering list"
  UnattributedPrivileges :: "string list"

definition load_rendering :: "PrivilegeRendering \<Rightarrow> learnState \<Rightarrow> learnState" where
  "load_rendering r s =
     (let s1 = fold remember (prRows r) s in
      s1\<lparr>lsRenderings := AList.update (prStatement r)
           \<lparr>lrRows = sort (canonical_rows (prRows r)), lrAmbiguous = prAmbiguous r\<rparr> (lsRenderings s1)\<rparr>)"

definition learnStateFromStatus :: "role_status \<Rightarrow> learnState" where
  "learnStateFromStatus st =
     (let s = fold load_rendering (PrivilegeRenderings st) (newLearnState (PrivilegeRenderingScope st));
          s1 = fold remember (UnattributedPrivileges st) s
      in s1\<lparr>lsBaseline := set (canonical_rows (UnattributedPrivileges st))\<rparr>)"

definition sortedKeys :: "string set \<Rightarrow> string list" where
  "sortedKeys m = sorted_list_of_set m"

fun status_renderings :: "learnState \<Rightarrow> string set \<Rightarrow> string list \<Rightarrow> PrivilegeRendering list" where
  "status_renderings s seen [] = []"
| "status_renderings s seen (stmt # stmts) =
     (case map_of (lsRenderings s) stmt of
        None \<Rightarrow> status_renderings s seen stmts
      | Some lr \<Rightarrow>
          if stmt \<in> seen then status_renderings s seen stmts
          else \<lparr>prStatement = stmt, prRows = map (shown_row s) (lrRows lr), prAmbiguous = lrAmbiguous lr\<rparr>
               # status_renderings s (insert stmt seen) stmts)"

definition toStatus :: "learnState \<Rightarrow> string list \<Rightarrow> role_status" where
  "toStatus s stmts =
     \<lparr>PrivilegeRenderingScope = lsScope s,
      PrivilegeRenderings = status_renderings s {} stmts,
      UnattributedPrivileges = map (shown_row s) (sortedKeys (lsBaseline s))\<rparr>"

subsection \<open>What Neo4j and the API server do\<close>

text \<open>
  An error is its text. \<open>eGrant\<close> is \<^verbatim>\<open>GrantAndReadPrivileges\<close>: the role's rows before and
  after the grant; \<open>eShow\<close> is \<^verbatim>\<open>ShowRolePrivileges\<close>: each command and whether it is immutable;
  \<open>eExecute\<close> is \<^verbatim>\<open>ExecutePrivilegeStatement\<close>. \<open>eUpdate\<close> is the status write with its
  retries, and returns the object as the API server kept it.
\<close>

record 's role_env =
  eShow :: "'s \<Rightarrow> 's \<times> (string + (string \<times> bool) list)"
  eGrant :: "string \<Rightarrow> 's \<Rightarrow> 's \<times> (string + string list \<times> string list)"
  eExecute :: "string \<Rightarrow> 's \<Rightarrow> 's \<times> string option"
  eGet :: "'s \<Rightarrow> string + role_status"
  eUpdate :: "role_status \<Rightarrow> 's \<Rightarrow> 's \<times> (string + role_status)"

subsection \<open>One learning pass\<close>

record learnOutcome =
  loState :: learnState
  loDesired :: "string \<rightharpoonup> string"
  loCurrent :: "string set"
  loAdded :: nat
  loAmbiguous :: "string list"
  loUnresolved :: "string list"
  loGrantErr :: string

definition storedFormRows :: "string \<Rightarrow> string set \<Rightarrow> string list" where
  "storedFormRows canon current =
     (if canon \<in> current then [canon]
      else sortedKeys {row \<in> current. FoldPrivilegeDatabaseNames row = FoldPrivilegeDatabaseNames canon})"

definition orphanedRows :: "learnState \<Rightarrow> string list \<Rightarrow> string set" where
  "orphanedRows prior stmts =
     (\<Union>(stmt, lr)\<in>set (lsRenderings prior). if stmt \<in> set stmts then {} else set (lrRows lr))"

definition want :: "string \<Rightarrow> string list \<Rightarrow> (string \<rightharpoonup> string) \<Rightarrow> (string \<rightharpoonup> string)" where
  "want stmt rows desired = fold (\<lambda>row d. if d row = None then d(row \<mapsto> stmt) else d) rows desired"

text \<open>Recording the rows of a statement, or that they are unknown.\<close>

definition settle :: "string \<Rightarrow> learnedRendering \<Rightarrow> learnOutcome \<Rightarrow> learnOutcome" where
  "settle stmt lr out =
     out\<lparr>loState := (loState out)\<lparr>lsRenderings := AList.update stmt lr (lsRenderings (loState out))\<rparr>,
         loDesired := want stmt (lrRows lr) (loDesired out)\<rparr>"

definition leave_ambiguous :: "string \<Rightarrow> learnedRendering \<Rightarrow> learnOutcome \<Rightarrow> learnOutcome" where
  "leave_ambiguous stmt lr out =
     out\<lparr>loState := (loState out)\<lparr>lsRenderings := AList.update stmt lr (lsRenderings (loState out))\<rparr>,
         loAmbiguous := loAmbiguous out @ [stmt]\<rparr>"

text \<open>What a grant that was answered teaches about a statement.\<close>

definition learned_rows :: "string \<Rightarrow> learnedRendering option \<Rightarrow> string set \<Rightarrow> string set \<Rightarrow> string set" where
  "learned_rows fallback had b a =
     (let new = a - b;
          kept = (case had of Some p \<Rightarrow> if lrAmbiguous p then {} else {row \<in> set (lrRows p). row \<in> a} | None \<Rightarrow> {});
          rows = new \<union> kept
      in if rows = {} then set (storedFormRows fallback a) else rows)"

definition learn_grant ::
  "'s role_env \<Rightarrow> learnState \<Rightarrow> string \<Rightarrow> 's \<Rightarrow> learnOutcome \<Rightarrow> 's \<times> learnOutcome \<times> string option" where
  "learn_grant e prior stmt s out =
     (case eGrant e stmt s of
        (s1, Inl err) \<Rightarrow>
          (s1, out\<lparr>loState := (loState out)\<lparr>lsRenderings := lsRenderings (loState out)
                      @ filter (\<lambda>(st, lr). map_of (lsRenderings (loState out)) st = None) (lsRenderings prior)\<rparr>,
                    loGrantErr := stmt\<rparr>, Some err)
      | (s1, Inr (rows0, rows1)) \<Rightarrow>
          (let (st1, b) = rememberAll rows0 (loState out);
               (st2, a) = rememberAll rows1 st1;
               rows = learned_rows (CanonicalisePrivilegeStatement stmt) (map_of (lsRenderings prior) stmt) b a;
               out1 = out\<lparr>loState := st2, loCurrent := a,
                          loAdded := (if a - b \<noteq> {} then loAdded out + 1 else loAdded out)\<rparr>
           in (s1, if rows = {} then leave_ambiguous stmt \<lparr>lrRows = [], lrAmbiguous = True\<rparr> out1
                   else settle stmt \<lparr>lrRows = sortedKeys rows, lrAmbiguous = False\<rparr> out1, None)))"

definition learn_stmt ::
  "'s role_env \<Rightarrow> (string \<Rightarrow> bool) \<Rightarrow> learnState \<Rightarrow> bool \<Rightarrow> string \<Rightarrow> 's \<Rightarrow> learnOutcome
   \<Rightarrow> 's \<times> learnOutcome \<times> string option" where
  "learn_stmt e resolves prior relearnAll stmt s out =
     (let had = map_of (lsRenderings prior) stmt in
      if \<not> resolves stmt then
        (s, (case had of
               Some p \<Rightarrow> out\<lparr>loState := (loState out)\<lparr>lsRenderings := AList.update stmt p (lsRenderings (loState out))\<rparr>\<rparr>
             | None \<Rightarrow> out)\<lparr>loUnresolved := loUnresolved out @ [stmt]\<rparr>, None)
      else case had of
        None \<Rightarrow> learn_grant e prior stmt s out
      | Some p \<Rightarrow>
          if relearnAll then learn_grant e prior stmt s out
          else if lrAmbiguous p then
            (let rows = storedFormRows (CanonicalisePrivilegeStatement stmt) (loCurrent out)
             in if rows \<noteq> [] then (s, settle stmt \<lparr>lrRows = rows, lrAmbiguous = False\<rparr> out, None)
                else (s, leave_ambiguous stmt p out, None))
          else if set (lrRows p) \<subseteq> loCurrent out then (s, settle stmt p out, None)
          else learn_grant e prior stmt s out)"

fun learn_loop ::
  "'s role_env \<Rightarrow> (string \<Rightarrow> bool) \<Rightarrow> learnState \<Rightarrow> bool \<Rightarrow> string set \<Rightarrow> string list \<Rightarrow> 's \<Rightarrow> learnOutcome
   \<Rightarrow> 's \<times> learnOutcome \<times> string option" where
  "learn_loop e resolves prior relearnAll seen [] s out = (s, out, None)"
| "learn_loop e resolves prior relearnAll seen (stmt # stmts) s out =
     (if CanonicalisePrivilegeStatement stmt = [] \<or> stmt \<in> seen
      then learn_loop e resolves prior relearnAll seen stmts s out
      else case learn_stmt e resolves prior relearnAll stmt s out of
        (s1, out1, Some err) \<Rightarrow> (s1, out1, Some err)
      | (s1, out1, None) \<Rightarrow> learn_loop e resolves prior relearnAll (insert stmt seen) stmts s1 out1)"

text \<open>
  \<^verbatim>\<open>learnDesired\<close>. The digest of a scope, \<^verbatim>\<open>scopeDigest\<close>, is the argument \<open>dig\<close>: half of
  a SHA-256 in hexadecimal.
\<close>

definition learn_digest :: "(string \<Rightarrow> string) \<Rightarrow> learnState \<Rightarrow> string \<Rightarrow> string" where
  "learn_digest dig prior scope = (if scope = [] \<and> lsScope prior \<noteq> [] then lsScope prior else dig scope)"

definition learn_start :: "(string \<Rightarrow> string) \<Rightarrow> learnState \<Rightarrow> string \<Rightarrow> string list \<Rightarrow> learnOutcome" where
  "learn_start dig prior scope current =
     (let (st, cur) = rememberAll current ((newLearnState (learn_digest dig prior scope))\<lparr>lsRaw := lsRaw prior\<rparr>)
      in \<lparr>loState = st\<lparr>lsBaseline := (if lsScope prior = [] then cur else lsBaseline prior \<inter> cur)\<rparr>,
          loDesired = Map.empty, loCurrent = cur, loAdded = 0, loAmbiguous = [], loUnresolved = [],
          loGrantErr = []\<rparr>)"

definition relearn_all :: "(string \<Rightarrow> string) \<Rightarrow> learnState \<Rightarrow> string \<Rightarrow> string list \<Rightarrow> bool \<Rightarrow> bool" where
  "relearn_all dig prior scope current forceRelearn =
     (forceRelearn \<or> (lsScope prior \<noteq> []
        \<and> (\<not> lsBaseline prior \<subseteq> set (canonical_rows current) \<or> lsScope prior \<noteq> learn_digest dig prior scope)))"

definition keep_unclaimed :: "learnState \<Rightarrow> string list \<Rightarrow> learnOutcome \<Rightarrow> learnOutcome" where
  "keep_unclaimed prior stmts out =
     (if loAmbiguous out = [] then out
      else out\<lparr>loState := (loState out)\<lparr>lsBaseline := lsBaseline (loState out)
             \<union> {row \<in> loCurrent out. loDesired out row = None \<and> row \<notin> orphanedRows prior stmts}\<rparr>\<rparr>)"

definition learnDesired ::
  "'s role_env \<Rightarrow> (string \<Rightarrow> string) \<Rightarrow> string list \<Rightarrow> (string \<Rightarrow> bool) \<Rightarrow> learnState \<Rightarrow> string \<Rightarrow> string list
   \<Rightarrow> bool \<Rightarrow> 's \<Rightarrow> 's \<times> learnOutcome \<times> string option" where
  "learnDesired e dig stmts resolves prior scope current forceRelearn s =
     (case learn_loop e resolves prior (relearn_all dig prior scope current forceRelearn) {} stmts s
             (learn_start dig prior scope current) of
        (s1, out, Some err) \<Rightarrow> (s1, out, Some err)
      | (s1, out, None) \<Rightarrow> (s1, keep_unclaimed prior stmts out, None))"

subsection \<open>The pass over a role\<close>

text \<open>\<^verbatim>\<open>setLearnState\<close>: the write, and the status the pass goes on with.\<close>

definition errNeo4jRoleCRDOutdated :: string where
  "errNeo4jRoleCRDOutdated =
     ''the installed Neo4jRole CRD predates this operator and drops status.privilegeRenderings, which ''
     @ ''--privilege-normalisation=learn needs; upgrade the CRDs (kubectl apply -f the chart'' @ [squote]
     @ ''s crds/ directory '' @ em_dash @ '' helm upgrade does not update CRDs)''"

definition setLearnState ::
  "'s role_env \<Rightarrow> learnState \<Rightarrow> string list \<Rightarrow> role_status \<Rightarrow> 's \<Rightarrow> 's \<times> role_status \<times> string option" where
  "setLearnState e st stmts status s =
     (let next = toStatus st stmts in
      case eGet e s of
        Inl err \<Rightarrow> (s, status, Some err)
      | Inr latest \<Rightarrow>
          if latest = next then (s, next, None)
          else (case eUpdate e next s of
                  (s1, Inl err) \<Rightarrow> (s1, status, Some err)
                | (s1, Inr kept) \<Rightarrow>
                    if PrivilegeRenderingScope kept \<noteq> lsScope st then (s1, status, Some errNeo4jRoleCRDOutdated)
                    else (s1, next, None)))"

text \<open>\<^verbatim>\<open>fetchCurrentPrivileges\<close>: canonical rows, the immutable ones, and how each was shown.\<close>

definition by_canonical :: "(string \<times> bool) list \<Rightarrow> (string \<times> string) list" where
  "by_canonical rows =
     fold (\<lambda>(command, imm) m. let canon = CanonicalisePrivilegeStatement command in
             if canon = [] then m else AList.update canon command m) rows []"

definition immutable_rows :: "(string \<times> bool) list \<Rightarrow> string set" where
  "immutable_rows rows = set (canonical_rows (map fst (filter snd rows)))"

definition fetched_rows :: "(string \<times> bool) list \<Rightarrow> string list" where
  "fetched_rows rows = sortedKeys (set (canonical_rows (map fst rows)))"

definition shownRows :: "(string \<times> string) list \<Rightarrow> string list" where
  "shownRows byCanonical = sort (map (\<lambda>(canon, shown). if shown = [] then canon else shown) byCanonical)"

text \<open>The loop of \<^verbatim>\<open>revokeUnwanted\<close>: drift, the rows revoked, and the statement that failed with its error.\<close>

fun revokeUnwanted ::
  "'s role_env \<Rightarrow> string set \<Rightarrow> (string \<times> string) list \<Rightarrow> string list \<Rightarrow> 's
   \<Rightarrow> bool \<times> string list \<times> 's \<times> (string \<times> string) option" where
  "revokeUnwanted e imm byCanonical [] s = (False, [], s, None)"
| "revokeUnwanted e imm byCanonical (canon # rest) s =
     (if canon \<in> imm then (let (d, rv, s1, err) = revokeUnwanted e imm byCanonical rest s in (True, rv, s1, err))
      else let original = (case map_of byCanonical canon of Some c \<Rightarrow> if c = [] then canon else c | None \<Rightarrow> canon)
        in case DerivePrivilegeRevoke original of
             Inl _ \<Rightarrow> (let (d, rv, s1, err) = revokeUnwanted e imm byCanonical rest s in (True, rv, s1, err))
           | Inr revoke \<Rightarrow>
               (case eExecute e revoke s of
                  (s1, Some err) \<Rightarrow> (False, [], s1, Some (revoke, err))
                | (s1, None) \<Rightarrow>
                    (let (d, rv, s2, err) = revokeUnwanted e imm byCanonical rest s1 in (d, canon # rv, s2, err))))"

datatype synced = PrivilegesSynced | PrivilegesDrifted | PrivilegesUnattributed

text \<open>Where a pass that failed stopped; the error goes with it.\<close>

datatype learn_failure = FetchFailed | PersistFailed | ApplyFailed string | RevokeFailed string

datatype learn_result =
    LearnFailed learn_failure string
  | LearnDone nat nat nat bool synced

definition synced_reason :: "bool \<Rightarrow> learnOutcome \<Rightarrow> synced" where
  "synced_reason drift lo =
     (if drift then PrivilegesDrifted
      else if {row \<in> lsBaseline (loState lo). loDesired lo row = None} \<noteq> {} \<or> loAmbiguous lo \<noteq> []
        then PrivilegesUnattributed else PrivilegesSynced)"

text \<open>
  The rest of \<^verbatim>\<open>reconcileLearned\<close> after the rows were revoked: when one of them belonged to
  a statement that left the spec, everything is learned again.
\<close>

definition relearn_after_revoke ::
  "'s role_env \<Rightarrow> (string \<Rightarrow> string) \<Rightarrow> string list \<Rightarrow> (string \<Rightarrow> bool) \<Rightarrow> string \<Rightarrow> learnState \<Rightarrow> learnOutcome
   \<Rightarrow> bool \<Rightarrow> string list \<Rightarrow> role_status \<Rightarrow> 's \<Rightarrow> 's \<times> role_status \<times> learn_result" where
  "relearn_after_revoke e dig stmts resolves scope prior lo drift revoked status s =
     (if \<not> (\<exists>row\<in>set revoked. row \<in> orphanedRows prior stmts)
      then (s, status, LearnDone (loAdded lo) (length revoked) (length (loUnresolved lo)) drift (synced_reason drift lo))
      else case eShow e s of
        (s1, Inl err) \<Rightarrow> (s1, status, LearnFailed FetchFailed err)
      | (s1, Inr rows) \<Rightarrow>
          (case learnDesired e dig stmts resolves (loState lo) scope (shownRows (by_canonical rows)) True s1 of
             (s2, relearned, Some err) \<Rightarrow>
               (let (s3, status1, _) = setLearnState e (loState relearned) stmts status s2
                in (s3, status1, LearnFailed (ApplyFailed (loGrantErr relearned)) err))
           | (s2, relearned, None) \<Rightarrow>
               (case setLearnState e (loState relearned) stmts status s2 of
                  (s3, status1, Some err) \<Rightarrow>
                    (s3, status1, LearnFailed PersistFailed err)
                | (s3, status1, None) \<Rightarrow>
                    (s3, status1, LearnDone (loAdded lo + loAdded relearned) (length revoked)
                                    (length (loUnresolved relearned)) drift (synced_reason drift relearned)))))"

text \<open>What enforcement removes: the rows neither wanted nor kept as unattributed.\<close>

definition rows_to_remove :: "bool \<Rightarrow> learnOutcome \<Rightarrow> string list \<Rightarrow> string list" where
  "rows_to_remove enforce lo now =
     (if enforce then filter (\<lambda>row. loDesired lo row = None \<and> row \<notin> lsBaseline (loState lo)) now else [])"

definition learn_and_enforce ::
  "'s role_env \<Rightarrow> (string \<Rightarrow> string) \<Rightarrow> bool \<Rightarrow> string list \<Rightarrow> (string \<Rightarrow> bool) \<Rightarrow> string \<Rightarrow> learnState \<Rightarrow> string list
   \<Rightarrow> role_status \<Rightarrow> 's \<Rightarrow> 's \<times> role_status \<times> learn_result" where
  "learn_and_enforce e dig enforce stmts resolves scope prior current status s =
     (case learnDesired e dig stmts resolves prior scope current False s of
        (s1, lo, Some err) \<Rightarrow>
          (let (s2, status1, _) = setLearnState e (loState lo) stmts status s1
           in (s2, status1, LearnFailed (ApplyFailed (loGrantErr lo)) err))
      | (s1, lo, None) \<Rightarrow>
          (case setLearnState e (loState lo) stmts status s1 of
             (s2, status1, Some err) \<Rightarrow>
               (s2, status1, LearnFailed PersistFailed err)
           | (s2, status1, None) \<Rightarrow>
               (case eShow e s2 of
                  (s3, Inl err) \<Rightarrow> (s3, status1, LearnFailed FetchFailed err)
                | (s3, Inr rows) \<Rightarrow>
                    (case revokeUnwanted e (immutable_rows rows) (by_canonical rows)
                            (rows_to_remove enforce lo (fetched_rows rows)) s3 of
                       (drift, revoked, s4, Some (revoke, err)) \<Rightarrow> (s4, status1, LearnFailed (RevokeFailed revoke) err)
                     | (drift, revoked, s4, None) \<Rightarrow>
                         relearn_after_revoke e dig stmts resolves scope prior lo drift revoked status1 s4))))"

definition first_meeting :: "(string \<Rightarrow> string) \<Rightarrow> string \<Rightarrow> string list \<Rightarrow> learnState" where
  "first_meeting dig scope current =
     (let (st, cur) = rememberAll current (newLearnState (dig scope)) in st\<lparr>lsBaseline := cur\<rparr>)"

definition reconcileLearned ::
  "'s role_env \<Rightarrow> (string \<Rightarrow> string) \<Rightarrow> bool \<Rightarrow> string list \<Rightarrow> (string \<Rightarrow> bool) \<Rightarrow> string \<Rightarrow> role_status \<Rightarrow> 's
   \<Rightarrow> 's \<times> role_status \<times> learn_result" where
  "reconcileLearned e dig enforce stmts resolves scope status s =
     (case eShow e s of
        (s1, Inl err) \<Rightarrow> (s1, status, LearnFailed FetchFailed err)
      | (s1, Inr rows) \<Rightarrow>
          (let current = shownRows (by_canonical rows); prior = learnStateFromStatus status in
           if lsScope prior = [] then
             (let first = first_meeting dig scope current in
              case setLearnState e first stmts status s1 of
                (s2, status1, Some err) \<Rightarrow>
                  (s2, status1, LearnFailed PersistFailed err)
              | (s2, status1, None) \<Rightarrow>
                  learn_and_enforce e dig enforce stmts resolves scope first current status1 s2)
           else learn_and_enforce e dig enforce stmts resolves scope prior current status s1))"

end
