(* ===== verification/Role_Safety.thy ===== *)
theory Role_Safety
  imports Role_Learning
begin

text \<open>
  What the learning reconcile of a role keeps: with a Neo4j that answers, and nobody else
  granting on the role, every statement of the spec stays granted in full through every
  change of the spec, although the operator learns only part of what each statement is
  stored as. The state it keeps in the role's status is read back as it was written.
\<close>

section \<open>What is relied on\<close>

text \<open>
  \<open>rowsOf\<close> is the set of canonical rows the role has, \<open>store\<close> the rows a statement is stored
  as, and \<open>legal\<close> the rows Neo4j may show. Reads show the role as it is; a grant adds the rows
  of its statement and shows the role before and after; a \<open>REVOKE\<close> derived from a row of the
  role removes that row; a write to the API server does not touch Neo4j. A row that is a
  statement itself, up to the case of the database names, is one of the rows the statement
  is stored as.
\<close>

definition shows_role :: "'s role_env \<Rightarrow> ('s \<Rightarrow> string set) \<Rightarrow> bool" where
  "shows_role e rowsOf = (\<forall>s s1 rows. eShow e s = (s1, Inr rows) \<longrightarrow>
     rowsOf s1 = rowsOf s \<and> set (canonical_rows (map fst rows)) = rowsOf s)"

definition grants_add :: "'s role_env \<Rightarrow> ('s \<Rightarrow> string set) \<Rightarrow> (string \<Rightarrow> string set) \<Rightarrow> bool" where
  "grants_add e rowsOf store = (\<forall>stmt s s1 rows0 rows1. eGrant e stmt s = (s1, Inr (rows0, rows1)) \<longrightarrow>
     set (canonical_rows rows0) = rowsOf s \<and> set (canonical_rows rows1) = rowsOf s1
     \<and> rowsOf s1 = rowsOf s \<union> store stmt)"

definition revokes_remove :: "'s role_env \<Rightarrow> ('s \<Rightarrow> string set) \<Rightarrow> bool" where
  "revokes_remove e rowsOf = (\<forall>row revoke s s1. CanonicalisePrivilegeStatement row \<in> rowsOf s \<longrightarrow>
     DerivePrivilegeRevoke row = Inr revoke \<longrightarrow>
     eExecute e revoke s = (s1, None) \<longrightarrow> rowsOf s1 = rowsOf s - {CanonicalisePrivilegeStatement row})"

definition writes_apart :: "'s role_env \<Rightarrow> ('s \<Rightarrow> string set) \<Rightarrow> bool" where
  "writes_apart e rowsOf = (\<forall>st s s1 res. eUpdate e st s = (s1, res) \<longrightarrow> rowsOf s1 = rowsOf s)"

definition own_form :: "string set \<Rightarrow> (string \<Rightarrow> string set) \<Rightarrow> bool" where
  "own_form legal store = (\<forall>stmt. store stmt \<subseteq> legal \<and> (\<forall>row\<in>legal.
     FoldPrivilegeDatabaseNames row = FoldPrivilegeDatabaseNames (CanonicalisePrivilegeStatement stmt)
     \<longrightarrow> row \<in> store stmt))"

definition truthful :: "'s role_env \<Rightarrow> ('s \<Rightarrow> string set) \<Rightarrow> string set \<Rightarrow> (string \<Rightarrow> string set) \<Rightarrow> bool" where
  "truthful e rowsOf legal store \<longleftrightarrow>
     shows_role e rowsOf \<and> grants_add e rowsOf store \<and> revokes_remove e rowsOf \<and> writes_apart e rowsOf
     \<and> own_form legal store"

lemma truthful_show:
  assumes "truthful e rowsOf legal store" "eShow e s = (s1, Inr rows)"
  shows "rowsOf s1 = rowsOf s" "set (canonical_rows (map fst rows)) = rowsOf s"
  using assms by (auto simp: truthful_def shows_role_def)

lemma truthful_grant:
  assumes "truthful e rowsOf legal store" "eGrant e stmt s = (s1, Inr (rows0, rows1))"
  shows "set (canonical_rows rows0) = rowsOf s" "set (canonical_rows rows1) = rowsOf s1"
    "rowsOf s1 = rowsOf s \<union> store stmt"
  using assms unfolding truthful_def grants_add_def by blast+

lemma truthful_revoke:
  assumes "truthful e rowsOf legal store" "CanonicalisePrivilegeStatement row \<in> rowsOf s"
    "DerivePrivilegeRevoke row = Inr revoke" "eExecute e revoke s = (s1, None)"
  shows "rowsOf s1 = rowsOf s - {CanonicalisePrivilegeStatement row}"
  using assms unfolding truthful_def revokes_remove_def by blast

lemma truthful_update:
  assumes "truthful e rowsOf legal store" "eUpdate e st s = (s1, res)"
  shows "rowsOf s1 = rowsOf s"
  using assms unfolding truthful_def writes_apart_def by blast

lemma truthful_legal: "truthful e rowsOf legal store \<Longrightarrow> store stmt \<subseteq> legal"
  by (simp add: truthful_def own_form_def)

lemma truthful_own_form:
  assumes "truthful e rowsOf legal store" "rows \<subseteq> legal" "finite rows"
  shows "set (storedFormRows (CanonicalisePrivilegeStatement stmt) rows) \<subseteq> store stmt \<inter> rows"
proof -
  have "row \<in> store stmt" if "row \<in> rows"
    "FoldPrivilegeDatabaseNames row = FoldPrivilegeDatabaseNames (CanonicalisePrivilegeStatement stmt)" for row
    using assms(1,2) that by (auto simp: truthful_def own_form_def)
  with assms(3) show ?thesis by (auto simp: storedFormRows_def sortedKeys_def)
qed

section \<open>Canonical rows and how they were shown\<close>

lemma sortedKeys_set [simp]: "finite m \<Longrightarrow> set (sortedKeys m) = m"
  by (simp add: sortedKeys_def)

text \<open>Every recorded row is one Neo4j showed, under its canonical form.\<close>

definition raw_sound :: "learnState \<Rightarrow> bool" where
  "raw_sound st = (\<forall>c sh. lsRaw st c = Some sh \<longrightarrow> c \<noteq> [] \<and> CanonicalisePrivilegeStatement sh = c)"

lemma remember_sels [simp]:
  "lsScope (remember row st) = lsScope st" "lsRenderings (remember row st) = lsRenderings st"
  "lsBaseline (remember row st) = lsBaseline st"
  by (simp_all add: remember_def Let_def)

lemma remember_raw:
  "raw_sound st \<Longrightarrow> raw_sound (remember row st)"
  "dom (lsRaw (remember row st))
   = dom (lsRaw st) \<union> (if CanonicalisePrivilegeStatement row = [] then {} else {CanonicalisePrivilegeStatement row})"
  by (auto simp: raw_sound_def remember_def Let_def)

lemma fold_remember_sels [simp]:
  "lsScope (fold remember rows st) = lsScope st" "lsRenderings (fold remember rows st) = lsRenderings st"
  "lsBaseline (fold remember rows st) = lsBaseline st"
  by (induction rows arbitrary: st) simp_all

lemma fold_remember_raw:
  "raw_sound st \<Longrightarrow> raw_sound (fold remember rows st)"
  "dom (lsRaw (fold remember rows st)) = dom (lsRaw st) \<union> set (canonical_rows rows)"
proof (induction rows arbitrary: st)
  case (Cons row rows)
  { case 1 then show ?case using Cons.IH(1) remember_raw(1) by simp }
  { case 2 show ?case using Cons.IH(2) by (auto simp: remember_raw canonical_rows_def) }
qed (simp_all add: canonical_rows_def)

lemma canonical_rows_not_Nil: "row \<in> set (canonical_rows rows) \<Longrightarrow> row \<noteq> []"
  by (simp add: canonical_rows_def)

lemma shown_row_canonical:
  "raw_sound st \<Longrightarrow> row \<in> dom (lsRaw st) \<Longrightarrow> CanonicalisePrivilegeStatement (shown_row st row) = row \<and> row \<noteq> []"
  by (auto simp: raw_sound_def shown_row_def)

lemma canonical_rows_shown:
  "raw_sound st \<Longrightarrow> set rows \<subseteq> dom (lsRaw st) \<Longrightarrow> canonical_rows (map (shown_row st) rows) = rows"
proof (induction rows)
  case (Cons row rows)
  with shown_row_canonical [of st row] show ?case by (simp add: canonical_rows_def)
qed (simp add: canonical_rows_def)

definition canon_map :: "(string \<times> string) list \<Rightarrow> bool" where
  "canon_map m = (distinct (map fst m) \<and>
     (\<forall>(c, shown)\<in>set m. c \<noteq> [] \<and> CanonicalisePrivilegeStatement shown = c))"

definition canonical_step :: "string \<times> bool \<Rightarrow> (string \<times> string) list \<Rightarrow> (string \<times> string) list" where
  "canonical_step = (\<lambda>(command, imm) m. let canon = CanonicalisePrivilegeStatement command in
             if canon = [] then m else AList.update canon command m)"

lemma set_AList_update: "set (AList.update k v m) \<subseteq> insert (k, v) (set m)"
  by (induction m) auto

lemma canonical_step_map:
  assumes "canon_map m"
  shows "canon_map (canonical_step (command, imm) m)"
    "fst ` set (canonical_step (command, imm) m) = fst ` set m \<union> set (canonical_rows [command])"
proof -
  let ?c = "CanonicalisePrivilegeStatement command"
  show "canon_map (canonical_step (command, imm) m)"
    using assms set_AList_update [of ?c command m]
    by (fastforce simp: canon_map_def canonical_step_def Let_def AList.distinct_update)
  show "fst ` set (canonical_step (command, imm) m) = fst ` set m \<union> set (canonical_rows [command])"
    by (simp add: canonical_step_def Let_def AList.dom_update canonical_rows_def)
qed

lemma by_canonical_fold:
  "canon_map m \<Longrightarrow> canon_map (fold canonical_step rows m)
     \<and> fst ` set (fold canonical_step rows m) = fst ` set m \<union> set (canonical_rows (map fst rows))"
proof (induction rows arbitrary: m)
  case (Cons r rows)
  obtain command imm where r: "r = (command, imm)" by (cases r)
  note step = canonical_step_map [OF Cons.prems, of command imm]
  from Cons.IH [OF step(1)] show ?case
    unfolding r by (simp add: step(2) canonical_rows_def)
qed (simp add: canonical_rows_def)

lemma by_canonical_sound:
  "canon_map (by_canonical rows)" "fst ` set (by_canonical rows) = set (canonical_rows (map fst rows))"
proof -
  have "by_canonical rows = fold canonical_step rows []" by (simp add: by_canonical_def canonical_step_def)
  with by_canonical_fold [of "[]" rows] show "canon_map (by_canonical rows)"
    "fst ` set (by_canonical rows) = set (canonical_rows (map fst rows))" by (simp_all add: canon_map_def)
qed

lemma by_canonical_lookup:
  "c \<in> set (canonical_rows (map fst rows)) \<Longrightarrow>
   \<exists>shown. map_of (by_canonical rows) c = Some shown \<and> shown \<noteq> [] \<and> CanonicalisePrivilegeStatement shown = c"
proof -
  assume "c \<in> set (canonical_rows (map fst rows))"
  then obtain shown where shown: "map_of (by_canonical rows) c = Some shown"
    by (metis by_canonical_sound(2) map_of_eq_None_iff option.exhaust)
  then have "c \<noteq> []" "CanonicalisePrivilegeStatement shown = c"
    using by_canonical_sound(1) [of rows] map_of_SomeD [OF shown] by (auto simp: canon_map_def)
  moreover from this have "shown \<noteq> []"
    by (auto simp: CanonicalisePrivilegeStatement_def trim_space_def trim_suffix_char_def)
  ultimately show ?thesis using shown by blast
qed

lemma canonical_shownRows:
  "set (canonical_rows (shownRows (by_canonical rows))) = set (canonical_rows (map fst rows))"
proof -
  have blank: "CanonicalisePrivilegeStatement [] = []"
    by (simp add: CanonicalisePrivilegeStatement_def trim_space_def trim_suffix_char_def)
  have shown: "CanonicalisePrivilegeStatement (if sh = [] then c else sh) = c \<and> c \<noteq> []"
    if "(c, sh) \<in> set (by_canonical rows)" for c sh
    using that by_canonical_sound(1) [of rows] blank by (auto simp: canon_map_def)
  have "map CanonicalisePrivilegeStatement (map (\<lambda>(canon, shown). if shown = [] then canon else shown) (by_canonical rows))
    = map fst (by_canonical rows)"
    using shown by (auto intro: map_cong)
  then have "CanonicalisePrivilegeStatement ` set (shownRows (by_canonical rows)) = fst ` set (by_canonical rows)"
    unfolding shownRows_def set_sort by (metis list.set_map)
  moreover have "[] \<notin> fst ` set (by_canonical rows)"
    using by_canonical_sound(1) [of rows] by (auto simp: canon_map_def)
  moreover have "set (canonical_rows xs) = CanonicalisePrivilegeStatement ` set xs - {[]}" for xs
    by (auto simp: canonical_rows_def)
  ultimately have "set (canonical_rows (shownRows (by_canonical rows))) = fst ` set (by_canonical rows)"
    by simp
  then show ?thesis by (simp add: by_canonical_sound(2))
qed


section \<open>What a learning pass keeps\<close>

subsection \<open>Attribution\<close>

text \<open>The rows some statement of the state is known to be stored as.\<close>

definition claimed :: "learnState \<Rightarrow> string set" where
  "claimed st = {row. \<exists>stmt lr. map_of (lsRenderings st) stmt = Some lr \<and> row \<in> set (lrRows lr)}"

text \<open>
  A state is sound when what it says of a statement is true. It is covering when what it
  does not know of a statement is held by a row it does know: one kept as unattributed, or
  another statement's.
\<close>

definition sound_rendering :: "(string \<Rightarrow> string set) \<Rightarrow> string \<Rightarrow> learnedRendering \<Rightarrow> bool" where
  "sound_rendering store stmt lr = (set (lrRows lr) \<subseteq> store stmt \<and> (lrAmbiguous lr \<longrightarrow> lrRows lr = []))"

definition sound_state :: "(string \<Rightarrow> string set) \<Rightarrow> learnState \<Rightarrow> bool" where
  "sound_state store st =
     (distinct (map fst (lsRenderings st)) \<and> finite (lsBaseline st) \<and> raw_sound st
      \<and> lsBaseline st \<union> claimed st \<subseteq> dom (lsRaw st)
      \<and> (\<forall>stmt lr. map_of (lsRenderings st) stmt = Some lr \<longrightarrow>
           CanonicalisePrivilegeStatement stmt \<noteq> [] \<and> sound_rendering store stmt lr))"

definition covering :: "(string \<Rightarrow> string set) \<Rightarrow> learnState \<Rightarrow> bool" where
  "covering store st =
     (\<forall>stmt lr. map_of (lsRenderings st) stmt = Some lr \<longrightarrow> store stmt \<subseteq> lsBaseline st \<union> claimed st)"

lemma claimed_update:
  assumes "map_of (lsRenderings st) stmt = None"
  shows "claimed (st\<lparr>lsRenderings := AList.update stmt lr (lsRenderings st)\<rparr>) = set (lrRows lr) \<union> claimed st"
proof -
  have other: "k \<noteq> stmt" if "map_of (lsRenderings st) k = Some p" for k p using that assms by auto
  show ?thesis
    unfolding claimed_def by (auto simp: AList.update_conv' split: if_splits dest: other)
qed

lemma want_dom [simp]: "dom (want stmt rows d) = set rows \<union> dom d"
proof -
  have "dom (fold (\<lambda>row d. if d row = None then d(row \<mapsto> stmt) else d) rows d) = set rows \<union> dom d"
    by (induction rows arbitrary: d) (auto simp: domIff)
  then show ?thesis by (simp add: want_def)
qed

subsection \<open>The loop\<close>

text \<open>
  What holds before each statement of the loop. \<open>C\<close> is what the role had when the pass
  began, \<open>rows\<close> what it has now, \<open>seen\<close> the statements done.
\<close>

definition learning_stmt ::
  "(string \<Rightarrow> string set) \<Rightarrow> learnState \<Rightarrow> bool \<Rightarrow> string set \<Rightarrow> string set \<Rightarrow> string \<Rightarrow> learnedRendering \<Rightarrow> bool" where
  "learning_stmt store prior relearn C rows stmt lr =
     (sound_rendering store stmt lr
      \<and> (\<forall>p. map_of (lsRenderings prior) stmt = Some p \<longrightarrow> set (lrRows p) \<inter> C \<subseteq> set (lrRows lr))
      \<and> (store stmt \<subseteq> rows \<or> (\<not> relearn \<and> (\<exists>p. map_of (lsRenderings prior) stmt = Some p \<and> set (lrRows p) \<subseteq> rows))))"

definition learning ::
  "(string \<Rightarrow> string set) \<Rightarrow> learnState \<Rightarrow> bool \<Rightarrow> string set \<Rightarrow> string set \<Rightarrow> string set \<Rightarrow> learnOutcome \<Rightarrow> bool" where
  "learning store prior relearn C seen rows out =
     (loCurrent out = rows \<and> finite rows \<and> C \<subseteq> rows \<and> rows \<subseteq> C \<union> claimed (loState out)
      \<and> distinct (map fst (lsRenderings (loState out)))
      \<and> dom (map_of (lsRenderings (loState out))) = seen
      \<and> dom (loDesired out) = claimed (loState out)
      \<and> raw_sound (loState out) \<and> rows \<union> claimed (loState out) \<union> dom (lsRaw prior) \<subseteq> dom (lsRaw (loState out))
      \<and> (\<forall>stmt lr. map_of (lsRenderings (loState out)) stmt = Some lr \<longrightarrow> learning_stmt store prior relearn C rows stmt lr))"

lemma learning_stmt_mono: "learning_stmt store prior relearn C rows stmt lr \<Longrightarrow> rows \<subseteq> rows' \<Longrightarrow>
  learning_stmt store prior relearn C rows' stmt lr"
  unfolding learning_stmt_def by blast

text \<open>A statement settled, or left ambiguous, with the rows \<open>lr\<close>.\<close>

lemma learning_record:
  assumes inv: "learning store prior relearn C seen rows out" and new: "stmt \<notin> seen"
    and st1: "lsRenderings st1 = lsRenderings (loState out)" "raw_sound st1" "dom (lsRaw (loState out)) \<subseteq> dom (lsRaw st1)"
    and rows: "rows \<subseteq> rows'" "finite rows'" "rows' \<subseteq> rows \<union> set (lrRows lr)" "rows' \<union> set (lrRows lr) \<subseteq> dom (lsRaw st1)"
    and lr: "learning_stmt store prior relearn C rows' stmt lr"
    and out': "loState out' = st1\<lparr>lsRenderings := AList.update stmt lr (lsRenderings st1)\<rparr>"
      "loCurrent out' = rows'" "dom (loDesired out') = set (lrRows lr) \<union> dom (loDesired out)"
  shows "learning store prior relearn C (insert stmt seen) rows' out'"
proof -
  have none: "map_of (lsRenderings st1) stmt = None"
    using inv new st1(1) by (auto simp: learning_def domIff)
  have same: "claimed st1 = claimed (loState out)" by (simp add: claimed_def st1(1))
  have claimed: "claimed (loState out') = set (lrRows lr) \<union> claimed (loState out)"
    using claimed_update [OF none, of lr] by (simp add: out'(1) same)
  have stmts: "learning_stmt store prior relearn C rows' st lr'"
    if "map_of (lsRenderings (loState out')) st = Some lr'" for st lr'
    using that inv lr learning_stmt_mono [OF _ rows(1)]
    by (auto simp: learning_def out'(1) st1(1) AList.update_conv' split: if_splits)
  have raw: "lsRaw (loState out') = lsRaw st1" "raw_sound (loState out')"
    using st1(2) by (simp_all add: out'(1) raw_sound_def)
  have known: "claimed (loState out) \<subseteq> dom (lsRaw st1)" "dom (lsRaw prior) \<subseteq> dom (lsRaw st1)"
    using inv by (auto simp only: learning_def Un_subset_iff intro!: subset_trans [OF _ st1(3)])
  show ?thesis
    unfolding learning_def claimed out'(2,3) raw(1)
    using inv rows known stmts raw(2)
    by (auto simp: learning_def out'(1) st1(1) AList.distinct_update AList.update_conv')
qed

lemma learn_grant_learning:
  assumes inv: "learning store prior relearn C seen (rowsOf s) out" and new: "stmt \<notin> seen"
    and e: "truthful e rowsOf legal store" and legal: "rowsOf s \<subseteq> legal"
    and prior: "\<And>p. map_of (lsRenderings prior) stmt = Some p \<Longrightarrow> sound_rendering store stmt p"
    and run: "learn_grant e prior stmt s out = (s1, out1, None)"
  shows "learning store prior relearn C (insert stmt seen) (rowsOf s1) out1 \<and> rowsOf s1 \<subseteq> legal
    \<and> lsBaseline (loState out1) = lsBaseline (loState out) \<and> lsScope (loState out1) = lsScope (loState out)"
proof -
  obtain rows0 rows1 where g: "eGrant e stmt s = (s1, Inr (rows0, rows1))"
    using run by (auto simp: learn_grant_def Let_def split: prod.splits sum.splits)
  note t = truthful_grant [OF e g]
  have fin: "finite (rowsOf s1)" by (metis List.finite_set t(2))
  define st2 where "st2 = fold remember rows1 (fold remember rows0 (loState out))"
  define had where "had = map_of (lsRenderings prior) stmt"
  define rows where "rows = learned_rows (CanonicalisePrivilegeStatement stmt) had (rowsOf s) (rowsOf s1)"
  define lr where "lr = (if rows = {} then \<lparr>lrRows = [], lrAmbiguous = True\<rparr>
    else \<lparr>lrRows = sortedKeys rows, lrAmbiguous = False\<rparr>)"
  have legal1: "rowsOf s1 \<subseteq> legal" using legal truthful_legal [OF e, of stmt] t(3) by simp
  have own: "set (storedFormRows (CanonicalisePrivilegeStatement stmt) (rowsOf s1)) \<subseteq> store stmt \<inter> rowsOf s1"
    by (rule truthful_own_form [OF e legal1 fin])
  have kept: "set (lrRows p) \<subseteq> store stmt" if "had = Some p" for p
    using prior that by (auto simp: had_def sound_rendering_def)
  have rows: "rows \<subseteq> store stmt" "rows \<subseteq> rowsOf s1" "rowsOf s1 - rowsOf s \<subseteq> rows" "finite rows"
    "\<forall>p. had = Some p \<longrightarrow> set (lrRows p) \<inter> rowsOf s1 \<subseteq> rows"
  proof -
    show r1: "rows \<subseteq> store stmt" "rows \<subseteq> rowsOf s1"
      using own kept t(3) by (auto simp: rows_def learned_rows_def Let_def split: option.splits if_splits)
    show "rowsOf s1 - rowsOf s \<subseteq> rows" by (auto simp: rows_def learned_rows_def Let_def)
    show "finite rows" using r1(2) fin finite_subset by blast
    show "\<forall>p. had = Some p \<longrightarrow> set (lrRows p) \<inter> rowsOf s1 \<subseteq> rows"
      using prior by (auto simp: rows_def learned_rows_def Let_def had_def sound_rendering_def)
  qed
  have lrrows: "set (lrRows lr) = rows" using rows(4) by (simp add: lr_def)
  have C: "C \<subseteq> rowsOf s1" using inv t(3) by (auto simp: learning_def)
  have amb: "lrAmbiguous lr \<longrightarrow> lrRows lr = []" by (simp add: lr_def)
  have "learning_stmt store prior relearn C (rowsOf s1) stmt lr"
    using rows(1,5) C t(3) amb unfolding learning_stmt_def sound_rendering_def lrrows had_def by blast
  moreover have "raw_sound st2" "dom (lsRaw st2) = dom (lsRaw (loState out)) \<union> rowsOf s \<union> rowsOf s1"
    "lsRenderings st2 = lsRenderings (loState out)" "lsBaseline st2 = lsBaseline (loState out)" "lsScope st2 = lsScope (loState out)"
    using inv by (simp_all add: st2_def fold_remember_raw t(1,2) learning_def)
  moreover have "loState out1 = st2\<lparr>lsRenderings := AList.update stmt lr (lsRenderings st2)\<rparr>"
    "loCurrent out1 = rowsOf s1" "dom (loDesired out1) = set (lrRows lr) \<union> dom (loDesired out)"
  proof -
    define out0 where "out0 = out\<lparr>loState := st2, loCurrent := rowsOf s1,
      loAdded := (if rowsOf s1 - rowsOf s \<noteq> {} then loAdded out + 1 else loAdded out)\<rparr>"
    have "out1 = (if rows = {} then leave_ambiguous stmt lr out0 else settle stmt lr out0)"
      using run by (simp add: learn_grant_def g rememberAll_def t(1,2) st2_def rows_def had_def lr_def out0_def Let_def
          cong: if_cong)
    then show "loState out1 = st2\<lparr>lsRenderings := AList.update stmt lr (lsRenderings st2)\<rparr>"
      "loCurrent out1 = rowsOf s1" "dom (loDesired out1) = set (lrRows lr) \<union> dom (loDesired out)"
      using lrrows by (simp_all add: settle_def leave_ambiguous_def out0_def)
  qed
  moreover have "rowsOf s1 \<subseteq> rowsOf s \<union> set (lrRows lr)" "set (lrRows lr) \<subseteq> rowsOf s1"
    using rows(2,3) lrrows by blast+
  moreover have "rowsOf s \<subseteq> rowsOf s1" using t(3) by blast
  ultimately show ?thesis
    using learning_record [OF inv new, of st2 "rowsOf s1" lr out1] fin legal1 by (simp add: le_supI1 le_supI2)
qed

lemma learn_stmt_learning:
  assumes inv: "learning store prior relearn C seen (rowsOf s) out" and new: "stmt \<notin> seen"
    and e: "truthful e rowsOf legal store" and legal: "rowsOf s \<subseteq> legal" and prior: "sound_state store prior"
    and run: "learn_stmt e (\<lambda>_. True) prior relearn stmt s out = (s1, out1, None)"
  shows "learning store prior relearn C (insert stmt seen) (rowsOf s1) out1 \<and> rowsOf s1 \<subseteq> legal
    \<and> lsBaseline (loState out1) = lsBaseline (loState out) \<and> lsScope (loState out1) = lsScope (loState out)"
proof -
  have sound: "sound_rendering store stmt p" if "map_of (lsRenderings prior) stmt = Some p" for p
    using prior that by (simp add: sound_state_def)
  consider (grant) "learn_stmt e (\<lambda>_. True) prior relearn stmt s out = learn_grant e prior stmt s out"
    | (kept) p lr where "map_of (lsRenderings prior) stmt = Some p" "\<not> relearn" "s1 = s"
        "loState out1 = (loState out)\<lparr>lsRenderings := AList.update stmt lr (lsRenderings (loState out))\<rparr>"
        "loCurrent out1 = loCurrent out" "dom (loDesired out1) = set (lrRows lr) \<union> dom (loDesired out)"
        "set (lrRows p) \<subseteq> rowsOf s"
        "lr = p \<or> (lrRows p = [] \<and> \<not> lrAmbiguous lr \<and> lrRows lr = storedFormRows (CanonicalisePrivilegeStatement stmt) (rowsOf s))"
  proof (cases "map_of (lsRenderings prior) stmt")
    case None
    then show thesis using grant by (simp add: learn_stmt_def)
  next
    case (Some p)
    have cur: "loCurrent out = rowsOf s" using inv by (simp add: learning_def)
    from sound [OF Some] have amb: "lrAmbiguous p \<Longrightarrow> lrRows p = []" by (simp add: sound_rendering_def)
    show thesis
    proof (cases "relearn \<or> (\<not> lrAmbiguous p \<and> \<not> set (lrRows p) \<subseteq> rowsOf s)")
      case True
      then have "learn_stmt e (\<lambda>_. True) prior relearn stmt s out = learn_grant e prior stmt s out"
        using Some cur by (simp add: learn_stmt_def) blast
      then show thesis by (rule grant)
    next
      case False
      then show thesis
        using kept [OF Some] run Some amb
        by (auto simp: learn_stmt_def cur settle_def leave_ambiguous_def Let_def split: if_splits)
    qed
  qed
  then show ?thesis
  proof cases
    case grant
    with run show ?thesis using learn_grant_learning [OF inv new e legal sound] by simp
  next
    case (kept p lr)
    have fin: "finite (rowsOf s)" using inv by (simp add: learning_def)
    have own: "set (storedFormRows (CanonicalisePrivilegeStatement stmt) (rowsOf s)) \<subseteq> store stmt \<inter> rowsOf s"
      by (rule truthful_own_form [OF e legal fin])
    have rows: "set (lrRows lr) \<subseteq> rowsOf s" using kept(7,8) own by auto
    have "learning_stmt store prior relearn C (rowsOf s) stmt lr"
      using kept(1,2,7,8) own sound [OF kept(1)] by (auto simp: learning_stmt_def sound_rendering_def)
    moreover have "raw_sound (loState out)" "rowsOf s \<union> set (lrRows lr) \<subseteq> dom (lsRaw (loState out))"
      using inv rows by (auto simp: learning_def)
    ultimately show ?thesis
      using learning_record [OF inv new refl, of "rowsOf s" lr out1] fin legal kept(3,4,5,6) inv
      by (auto simp: learning_def)
  qed
qed

lemma learn_loop_learning:
  assumes "learning store prior relearn C seen (rowsOf s) out"
    and "truthful e rowsOf legal store" "rowsOf s \<subseteq> legal" "sound_state store prior"
    and "learn_loop e (\<lambda>_. True) prior relearn seen stmts s out = (s1, out1, None)"
  shows "learning store prior relearn C (seen \<union> {stmt \<in> set stmts. CanonicalisePrivilegeStatement stmt \<noteq> []}) (rowsOf s1) out1
    \<and> rowsOf s1 \<subseteq> legal
    \<and> lsBaseline (loState out1) = lsBaseline (loState out) \<and> lsScope (loState out1) = lsScope (loState out)"
  using assms
proof (induction stmts arbitrary: seen s out)
  case (Cons stmt stmts)
  show ?case
  proof (cases "CanonicalisePrivilegeStatement stmt = [] \<or> stmt \<in> seen")
    case True
    then have "seen \<union> {st \<in> set (stmt # stmts). CanonicalisePrivilegeStatement st \<noteq> []}
      = seen \<union> {st \<in> set stmts. CanonicalisePrivilegeStatement st \<noteq> []}" by auto
    with Cons.IH [OF Cons.prems(1-4)] Cons.prems(5) True show ?thesis by simp
  next
    case False
    then obtain s2 out2 where step: "learn_stmt e (\<lambda>_. True) prior relearn stmt s out = (s2, out2, None)"
      and rest: "learn_loop e (\<lambda>_. True) prior relearn (insert stmt seen) stmts s2 out2 = (s1, out1, None)"
      using Cons.prems(5) by (auto split: prod.splits option.splits)
    have "seen \<union> {st \<in> set (stmt # stmts). CanonicalisePrivilegeStatement st \<noteq> []}
      = insert stmt seen \<union> {st \<in> set stmts. CanonicalisePrivilegeStatement st \<noteq> []}" using False by auto
    with Cons.IH [OF _ Cons.prems(2) _ Cons.prems(4) rest]
      learn_stmt_learning [OF Cons.prems(1) _ Cons.prems(2-4) step] False show ?thesis by simp
  qed
qed (use assms in simp)

subsection \<open>The pass\<close>

text \<open>What a pass starts from: every row of the role is accounted for.\<close>

definition accounted :: "learnState \<Rightarrow> string list \<Rightarrow> string set \<Rightarrow> bool" where
  "accounted prior stmts rows = (rows \<subseteq> lsBaseline prior \<union> claimed prior \<and> orphanedRows prior stmts \<subseteq> rows)"

lemma learn_start_learning:
  assumes "set (canonical_rows current) = C" "raw_sound prior"
  shows "learning store prior relearn C {} C (learn_start dig prior scope current)"
    "lsBaseline (loState (learn_start dig prior scope current)) = (if lsScope prior = [] then C else lsBaseline prior \<inter> C)"
    "lsScope (loState (learn_start dig prior scope current)) = learn_digest dig prior scope"
proof -
  define st where "st = (newLearnState (learn_digest dig prior scope))\<lparr>lsRaw := lsRaw prior\<rparr>"
  have "raw_sound st" using assms(2) by (simp add: raw_sound_def st_def)
  then have raw: "raw_sound (fold remember current st)" "dom (lsRaw (fold remember current st)) = dom (lsRaw prior) \<union> C"
    using fold_remember_raw [where st = st and rows = current] assms(1) by (simp_all add: st_def)
  have empty: "lsRenderings st = []" "lsScope st = learn_digest dig prior scope"
    by (simp_all add: st_def newLearnState_def)
  have start: "learn_start dig prior scope current
    = \<lparr>loState = (fold remember current st)\<lparr>lsBaseline := (if lsScope prior = [] then C else lsBaseline prior \<inter> C)\<rparr>,
       loDesired = Map.empty, loCurrent = C, loAdded = 0, loAmbiguous = [], loUnresolved = [], loGrantErr = []\<rparr>"
    by (simp add: learn_start_def rememberAll_def assms(1) st_def [symmetric] Let_def)
  have "finite C" using assms(1) by blast
  moreover have "claimed (loState (learn_start dig prior scope current)) = {}"
    by (simp add: start claimed_def empty)
  ultimately show "learning store prior relearn C {} C (learn_start dig prior scope current)"
    using raw unfolding learning_def start by (simp add: empty raw_sound_def)
  show "lsBaseline (loState (learn_start dig prior scope current)) = (if lsScope prior = [] then C else lsBaseline prior \<inter> C)"
    "lsScope (loState (learn_start dig prior scope current)) = learn_digest dig prior scope"
    by (simp_all add: start empty)
qed

text \<open>What a pass that was answered leaves; \<open>orphans\<close> are rows of statements no longer asked for.\<close>

definition learned :: "(string \<Rightarrow> string set) \<Rightarrow> string list \<Rightarrow> string set \<Rightarrow> string set \<Rightarrow> learnOutcome \<Rightarrow> bool" where
  "learned store stmts orphans rows lo =
     ((\<forall>stmt\<in>set stmts. CanonicalisePrivilegeStatement stmt \<noteq> [] \<longrightarrow> store stmt \<subseteq> rows)
      \<and> rows \<subseteq> lsBaseline (loState lo) \<union> claimed (loState lo) \<union> orphans
      \<and> lsBaseline (loState lo) \<union> claimed (loState lo) \<subseteq> rows
      \<and> dom (loDesired lo) = claimed (loState lo) \<and> finite rows
      \<and> distinct (map fst (lsRenderings (loState lo))) \<and> raw_sound (loState lo) \<and> rows \<subseteq> dom (lsRaw (loState lo))
      \<and> (\<forall>stmt lr. map_of (lsRenderings (loState lo)) stmt = Some lr \<longrightarrow>
           stmt \<in> set stmts \<and> CanonicalisePrivilegeStatement stmt \<noteq> [] \<and> sound_rendering store stmt lr))"

lemma baseline_update [simp]:
  "claimed (st\<lparr>lsBaseline := b\<rparr>) = claimed st" "raw_sound (st\<lparr>lsBaseline := b\<rparr>) = raw_sound st"
  by (simp_all add: claimed_def raw_sound_def)

lemma keep_unclaimed_learned:
  "learned store stmts orphans rows lo \<Longrightarrow> loCurrent lo = rows \<Longrightarrow>
   learned store stmts orphans rows (keep_unclaimed prior stmts lo)"
  by (auto simp: learned_def keep_unclaimed_def)

lemma orphanedRows_map:
  "distinct (map fst (lsRenderings prior)) \<Longrightarrow>
   orphanedRows prior stmts = {row. \<exists>stmt lr. map_of (lsRenderings prior) stmt = Some lr \<and> stmt \<notin> set stmts \<and> row \<in> set (lrRows lr)}"
  by (fastforce simp: orphanedRows_def split: if_splits)

lemma learning_learned:
  assumes inv: "learning store prior relearn C {stmt \<in> set stmts. CanonicalisePrivilegeStatement stmt \<noteq> []} rows out"
    and prior: "sound_state store prior" and base: "lsBaseline (loState out) = lsBaseline prior \<inter> C"
    and acc: "C \<subseteq> lsBaseline prior \<union> claimed prior" "orphanedRows prior stmts \<subseteq> C"
    and quiet: "\<not> relearn \<Longrightarrow> lsBaseline prior \<subseteq> C \<and> covering store prior"
  shows "learned store stmts (orphanedRows prior stmts) rows out"
proof -
  note inv' = inv [unfolded learning_def]
  have dom: "dom (map_of (lsRenderings (loState out))) = {stmt \<in> set stmts. CanonicalisePrivilegeStatement stmt \<noteq> []}"
    using inv' by blast
  have C: "C \<subseteq> rows" using inv' by blast
  have each: "\<exists>lr. map_of (lsRenderings (loState out)) stmt = Some lr \<and> learning_stmt store prior relearn C rows stmt lr"
    if "stmt \<in> set stmts" "CanonicalisePrivilegeStatement stmt \<noteq> []" for stmt
    using inv' dom that by (metis (mono_tags, lifting) domD mem_Collect_eq)
  have orphan: "row \<in> orphanedRows prior stmts" if "map_of (lsRenderings prior) t = Some q" "t \<notin> set stmts" "row \<in> set (lrRows q)" for t q row
    using that prior by (subst orphanedRows_map) (auto simp: sound_state_def)
  have nonblank: "CanonicalisePrivilegeStatement t \<noteq> []" "sound_rendering store t q" if "map_of (lsRenderings prior) t = Some q" for t q
    using prior that by (auto simp: sound_state_def)
  have old: "row \<in> rows" if row: "row \<in> claimed prior" for row
  proof -
    obtain t q where q: "map_of (lsRenderings prior) t = Some q" "row \<in> set (lrRows q)" using row by (auto simp: claimed_def)
    show ?thesis
    proof (cases "t \<in> set stmts")
      case True
      with each nonblank(1) [OF q(1)] obtain lr where "learning_stmt store prior relearn C rows t lr" by blast
      then have "store t \<subseteq> rows \<or> set (lrRows q) \<subseteq> rows" using q(1) by (auto simp: learning_stmt_def)
      then show ?thesis using q(2) nonblank(2) [OF q(1)] by (auto simp: sound_rendering_def)
    next
      case False
      with orphan q acc(2) C show ?thesis by blast
    qed
  qed
  have granted: "store stmt \<subseteq> rows" if st: "stmt \<in> set stmts" "CanonicalisePrivilegeStatement stmt \<noteq> []" for stmt
  proof -
    obtain lr where "learning_stmt store prior relearn C rows stmt lr" using each [OF st] by blast
    then consider "store stmt \<subseteq> rows" | p where "\<not> relearn" "map_of (lsRenderings prior) stmt = Some p"
      by (auto simp: learning_stmt_def)
    then show ?thesis
    proof cases
      case 2
      with quiet old C show ?thesis unfolding covering_def by blast
    qed
  qed
  have sound: "stmt \<in> set stmts \<and> CanonicalisePrivilegeStatement stmt \<noteq> [] \<and> sound_rendering store stmt lr"
    if "map_of (lsRenderings (loState out)) stmt = Some lr" for stmt lr
    using that inv' dom by (auto simp: learning_stmt_def)
  have "claimed (loState out) \<subseteq> rows"
    using sound granted by (fastforce simp: claimed_def sound_rendering_def)
  moreover have "C \<subseteq> lsBaseline (loState out) \<union> claimed (loState out) \<union> orphanedRows prior stmts"
  proof
    fix row assume row: "row \<in> C"
    show "row \<in> lsBaseline (loState out) \<union> claimed (loState out) \<union> orphanedRows prior stmts"
    proof (cases "row \<in> lsBaseline prior")
      case True
      with row base show ?thesis by simp
    next
      case False
      then obtain t q where q: "map_of (lsRenderings prior) t = Some q" "row \<in> set (lrRows q)"
        using acc(1) row by (auto simp: claimed_def)
      show ?thesis
      proof (cases "t \<in> set stmts")
        case True
        with each nonblank(1) [OF q(1)] obtain lr where lr: "map_of (lsRenderings (loState out)) t = Some lr"
          "learning_stmt store prior relearn C rows t lr" by blast
        then have "row \<in> set (lrRows lr)" using q row by (auto simp: learning_stmt_def)
        with lr(1) show ?thesis by (auto simp: claimed_def)
      qed (use orphan q in blast)
    qed
  qed
  moreover have "rows \<subseteq> C \<union> claimed (loState out)" "dom (loDesired out) = claimed (loState out)" "finite rows"
    "distinct (map fst (lsRenderings (loState out)))" "raw_sound (loState out)" "rows \<subseteq> dom (lsRaw (loState out))"
    using inv' by blast+
  moreover have "lsBaseline (loState out) \<subseteq> rows" using base C by blast
  ultimately show ?thesis unfolding learned_def using granted sound by blast
qed

lemma learnDesired_learned:
  assumes e: "truthful e rowsOf legal store" and legal: "rowsOf s \<subseteq> legal"
    and prior: "sound_state store prior" "lsScope prior \<noteq> []"
    and current: "set (canonical_rows current) = rowsOf s"
    and acc: "rowsOf s \<subseteq> lsBaseline prior \<union> claimed prior" "orphanedRows prior stmts \<subseteq> rowsOf s"
    and cover: "force \<or> covering store prior"
    and run: "learnDesired e dig stmts (\<lambda>_. True) prior scope current force s = (s1, lo, None)"
  shows "learned store stmts (orphanedRows prior stmts) (rowsOf s1) lo \<and> rowsOf s1 \<subseteq> legal
    \<and> lsScope (loState lo) = learn_digest dig prior scope"
proof -
  define relearn where "relearn = relearn_all dig prior scope current force"
  have raw: "raw_sound prior" using prior(1) by (simp add: sound_state_def)
  note start = learn_start_learning [OF current raw]
  obtain out where loop: "learn_loop e (\<lambda>_. True) prior relearn {} stmts s (learn_start dig prior scope current) = (s1, out, None)"
    and lo: "lo = keep_unclaimed prior stmts out"
    using run by (auto simp: learnDesired_def relearn_def split: prod.splits option.splits)
  note inv = learn_loop_learning [OF start(1) e legal prior(1) loop]
  have "learned store stmts (orphanedRows prior stmts) (rowsOf s1) out"
  proof (rule learning_learned [OF _ prior(1) _ acc])
    show "learning store prior relearn (rowsOf s) {stmt \<in> set stmts. CanonicalisePrivilegeStatement stmt \<noteq> []} (rowsOf s1) out"
      using inv by simp
    show "lsBaseline (loState out) = lsBaseline prior \<inter> rowsOf s" using inv start(2) prior(2) by simp
    show "\<not> relearn \<Longrightarrow> lsBaseline prior \<subseteq> rowsOf s \<and> covering store prior"
      using cover current prior(2) by (auto simp: relearn_def relearn_all_def)
  qed
  moreover have "loCurrent out = rowsOf s1" using inv by (simp add: learning_def)
  ultimately show ?thesis
    using keep_unclaimed_learned [of store stmts _ "rowsOf s1" out prior] inv start(3)
    by (simp add: lo) (simp add: keep_unclaimed_def)
qed

subsection \<open>Status writes and revocations\<close>

lemma setLearnState_done:
  assumes "truthful e rowsOf legal store" "setLearnState e st stmts status s = (s1, status1, None)"
  shows "rowsOf s1 = rowsOf s" "status1 = toStatus st stmts"
  using assms truthful_update [OF assms(1)]
  by (auto simp: setLearnState_def Let_def split: sum.splits if_splits prod.splits)

lemma revokeUnwanted_done:
  assumes e: "truthful e rowsOf legal store" and known: "set cs \<subseteq> set (canonical_rows (map fst rows))"
    and "distinct cs" "set cs \<subseteq> rowsOf s"
    and "revokeUnwanted e imm (by_canonical rows) cs s = (False, rv, s1, None)"
  shows "rowsOf s1 = rowsOf s - set cs \<and> rv = cs"
  using assms(2-)
proof (induction cs arbitrary: s rv)
  case (Cons c cs)
  obtain shown where shown: "map_of (by_canonical rows) c = Some shown" "shown \<noteq> []" "CanonicalisePrivilegeStatement shown = c"
    using by_canonical_lookup [of c rows] Cons.prems(1) by auto
  obtain revoke s2 rv' where step: "DerivePrivilegeRevoke shown = Inr revoke" "eExecute e revoke s = (s2, None)"
    and rest: "revokeUnwanted e imm (by_canonical rows) cs s2 = (False, rv', s1, None)" and rv: "rv = c # rv'"
    using Cons.prems(4) shown
    by (auto simp: Let_def split: if_splits prod.splits sum.splits option.splits)
  have s2: "rowsOf s2 = rowsOf s - {c}"
    using truthful_revoke [OF e _ step] shown(3) Cons.prems(3) by simp
  have "rowsOf s1 = rowsOf s2 - set cs \<and> rv' = cs"
    using Cons.prems(1-3) s2 by (intro Cons.IH [OF _ _ _ rest]) auto
  with s2 rv show ?case by auto
qed simp


section \<open>The status holds the state\<close>

lemma load_rendering_sels:
  "lsScope (load_rendering r s) = lsScope s" "lsBaseline (load_rendering r s) = lsBaseline s"
  "map_of (lsRenderings (load_rendering r s))
   = (map_of (lsRenderings s))(prStatement r \<mapsto> \<lparr>lrRows = sort (canonical_rows (prRows r)), lrAmbiguous = prAmbiguous r\<rparr>)"
  "distinct (map fst (lsRenderings s)) \<Longrightarrow> distinct (map fst (lsRenderings (load_rendering r s)))"
  "raw_sound s \<Longrightarrow> raw_sound (load_rendering r s)"
  "dom (lsRaw (load_rendering r s)) = dom (lsRaw s) \<union> set (canonical_rows (prRows r))"
  using fold_remember_raw [where st = s and rows = "prRows r"]
  by (simp_all add: load_rendering_def Let_def AList.update_conv' AList.distinct_update raw_sound_def)

lemma load_rendering_claimed:
  assumes "claimed s \<subseteq> dom (lsRaw s)"
  shows "claimed (load_rendering r s) \<subseteq> dom (lsRaw (load_rendering r s))"
proof -
  have "claimed (load_rendering r s) \<subseteq> claimed s \<union> set (canonical_rows (prRows r))"
    by (auto simp: claimed_def load_rendering_sels(3) split: if_splits)
  with assms show ?thesis by (auto simp only: load_rendering_sels(6))
qed

text \<open>The rendering of one statement after it went through the status.\<close>

definition stored_rendering :: "learnedRendering \<Rightarrow> learnedRendering" where
  "stored_rendering lr = lr\<lparr>lrRows := sort (lrRows lr)\<rparr>"

lemma load_status_renderings:
  assumes "raw_sound st" "claimed st \<subseteq> dom (lsRaw st)"
    and "distinct (map fst (lsRenderings s))" "raw_sound s" "claimed s \<subseteq> dom (lsRaw s)"
    and s1: "s1 = fold load_rendering (status_renderings st seen stmts) s"
  shows "lsScope s1 = lsScope s \<and> lsBaseline s1 = lsBaseline s \<and> distinct (map fst (lsRenderings s1)) \<and> raw_sound s1
    \<and> claimed s1 \<subseteq> dom (lsRaw s1)
    \<and> (\<forall>stmt. map_of (lsRenderings s1) stmt
         = (if stmt \<in> set stmts \<and> stmt \<notin> seen \<and> map_of (lsRenderings st) stmt \<noteq> None
            then map_option stored_rendering (map_of (lsRenderings st) stmt) else map_of (lsRenderings s) stmt))"
  using assms(3-5) unfolding s1
proof (induction stmts arbitrary: seen s)
  case (Cons stmt stmts)
  show ?case
  proof (cases "map_of (lsRenderings st) stmt")
    case None
    then have "status_renderings st seen (stmt # stmts) = status_renderings st seen stmts" by simp
    with Cons.IH [OF Cons.prems, of seen] None show ?thesis by auto
  next
    case (Some lr)
    show ?thesis
    proof (cases "stmt \<in> seen")
      case True
      with Some have "status_renderings st seen (stmt # stmts) = status_renderings st seen stmts" by simp
      with Cons.IH [OF Cons.prems, of seen] True show ?thesis by auto
    next
      case False
      define r where "r = \<lparr>prStatement = stmt, prRows = map (shown_row st) (lrRows lr), prAmbiguous = lrAmbiguous lr\<rparr>"
      have step: "status_renderings st seen (stmt # stmts) = r # status_renderings st (insert stmt seen) stmts"
        using Some False by (simp add: r_def)
      have "set (lrRows lr) \<subseteq> dom (lsRaw st)" using Some assms(2) by (auto simp: claimed_def)
      then have rows: "canonical_rows (prRows r) = lrRows lr" using canonical_rows_shown [OF assms(1)] by (simp add: r_def)
      note load = load_rendering_sels [where r = r and s = s]
      have lr: "\<lparr>lrRows = sort (lrRows lr), lrAmbiguous = prAmbiguous r\<rparr> = stored_rendering lr"
        by (simp add: stored_rendering_def r_def)
      note IH = Cons.IH [OF load(4) [OF Cons.prems(1)] load(5) [OF Cons.prems(2)]
        load_rendering_claimed [OF Cons.prems(3)], of "insert stmt seen"]
      have "prStatement r = stmt" by (simp add: r_def)
      with IH show ?thesis
        unfolding step using Some False load(1-3) rows lr by auto
    qed
  qed
qed simp

lemma status_roundtrip_state:
  assumes raw: "raw_sound st" "lsBaseline st \<union> claimed st \<subseteq> dom (lsRaw st)" and fin: "finite (lsBaseline st)"
    and st1: "st1 = learnStateFromStatus (toStatus st stmts)"
  shows "lsScope st1 = lsScope st" "lsBaseline st1 = lsBaseline st" "distinct (map fst (lsRenderings st1))"
    "raw_sound st1" "lsBaseline st1 \<union> claimed st1 \<subseteq> dom (lsRaw st1)"
    "map_of (lsRenderings st1) stmt
     = (if stmt \<in> set stmts then map_option stored_rendering (map_of (lsRenderings st) stmt) else None)"
proof -
  define s0 where "s0 = newLearnState (lsScope st)"
  define s1 where "s1 = fold load_rendering (status_renderings st {} stmts) s0"
  define us where "us = map (shown_row st) (sortedKeys (lsBaseline st))"
  have s0: "distinct (map fst (lsRenderings s0))" "raw_sound s0" "claimed s0 \<subseteq> dom (lsRaw s0)" "lsScope s0 = lsScope st"
    "map_of (lsRenderings s0) = Map.empty"
    by (simp_all add: s0_def newLearnState_def raw_sound_def claimed_def)
  have claimed: "claimed st \<subseteq> dom (lsRaw st)" using raw(2) by simp
  note s1 = load_status_renderings [OF raw(1) claimed s0(1-3) s1_def]
  have us: "canonical_rows us = sortedKeys (lsBaseline st)"
    unfolding us_def using raw fin by (intro canonical_rows_shown) auto
  have st1': "st1 = (fold remember us s1)\<lparr>lsBaseline := set (canonical_rows us)\<rparr>"
    by (simp add: st1 learnStateFromStatus_def toStatus_def s1_def s0_def us_def Let_def)
  have more: "raw_sound (fold remember us s1)" "dom (lsRaw (fold remember us s1)) = dom (lsRaw s1) \<union> lsBaseline st"
    using fold_remember_raw [where st = s1 and rows = us] s1 us fin by simp_all
  have same: "claimed st1 = claimed s1" by (simp add: st1' claimed_def)
  show "lsScope st1 = lsScope st" "lsBaseline st1 = lsBaseline st" "distinct (map fst (lsRenderings st1))" "raw_sound st1"
    using s1 s0(4) more(1) us fin by (simp_all add: st1')
  show "lsBaseline st1 \<union> claimed st1 \<subseteq> dom (lsRaw st1)"
    unfolding same using s1 more(2) us fin by (auto simp: st1')
  show "map_of (lsRenderings st1) stmt
     = (if stmt \<in> set stmts then map_option stored_rendering (map_of (lsRenderings st) stmt) else None)"
    using s1 s0(5) by (auto simp: st1')
qed


section \<open>A role through its passes\<close>

text \<open>What an enforced pass over the statements \<open>stmts\<close> leaves when nothing failed.\<close>

definition role_kept :: "(string \<Rightarrow> string set) \<Rightarrow> string list \<Rightarrow> learnState \<Rightarrow> string set \<Rightarrow> bool" where
  "role_kept store stmts st rows =
     (sound_state store st \<and> covering store st \<and> lsScope st \<noteq> []
      \<and> rows = lsBaseline st \<union> claimed st
      \<and> (\<forall>stmt lr. map_of (lsRenderings st) stmt = Some lr \<longrightarrow> stmt \<in> set stmts)
      \<and> (\<forall>stmt\<in>set stmts. CanonicalisePrivilegeStatement stmt \<noteq> [] \<longrightarrow> store stmt \<subseteq> rows))"

lemma learned_kept:
  assumes "learned store stmts {} rows lo" "lsScope (loState lo) \<noteq> []"
  shows "role_kept store stmts (loState lo) rows"
proof -
  have rows: "rows = lsBaseline (loState lo) \<union> claimed (loState lo)" using assms(1) by (auto simp: learned_def)
  then have "finite (lsBaseline (loState lo))" using assms(1) by (auto simp: learned_def)
  with assms rows show ?thesis by (auto simp: role_kept_def sound_state_def covering_def learned_def)
qed

lemma learned_sound:
  "learned store stmts orphans rows lo \<Longrightarrow> sound_state store (loState lo)"
  by (auto simp: learned_def sound_state_def intro: finite_subset)

lemma role_kept_status:
  assumes "role_kept store stmts st rows"
  shows "role_kept store stmts (learnStateFromStatus (toStatus st stmts)) rows"
proof -
  define st1 where "st1 = learnStateFromStatus (toStatus st stmts)"
  have st: "raw_sound st" "lsBaseline st \<union> claimed st \<subseteq> dom (lsRaw st)" "finite (lsBaseline st)"
    using assms by (auto simp: role_kept_def sound_state_def)
  note rt = status_roundtrip_state [OF st st1_def]
  have look: "map_of (lsRenderings st1) stmt = map_option stored_rendering (map_of (lsRenderings st) stmt)" for stmt
    using rt(6) [of stmt] assms by (cases "map_of (lsRenderings st) stmt") (auto simp: role_kept_def)
  have rows: "set (lrRows (stored_rendering lr)) = set (lrRows lr)" for lr by (simp add: stored_rendering_def)
  have claimed: "claimed st1 = claimed st"
  proof (intro set_eqI iffI)
    fix row assume "row \<in> claimed st1"
    then obtain stmt lr where "map_of (lsRenderings st) stmt = Some lr" "row \<in> set (lrRows (stored_rendering lr))"
      by (auto simp: claimed_def look)
    then show "row \<in> claimed st" unfolding rows claimed_def by blast
  next
    fix row assume "row \<in> claimed st"
    then obtain stmt lr where "map_of (lsRenderings st) stmt = Some lr" "row \<in> set (lrRows lr)"
      by (auto simp: claimed_def)
    then have "map_of (lsRenderings st1) stmt = Some (stored_rendering lr)" "row \<in> set (lrRows (stored_rendering lr))"
      unfolding look rows by simp_all
    then show "row \<in> claimed st1" unfolding claimed_def by blast
  qed
  have sound: "sound_rendering store stmt (stored_rendering lr)" if "sound_rendering store stmt lr" for stmt lr
    using that by (auto simp: sound_rendering_def stored_rendering_def)
  show ?thesis
    unfolding st1_def [symmetric] using assms rt(1-5) sound
    by (auto simp: role_kept_def sound_state_def covering_def claimed look)
qed

lemma digest_not_Nil: "[] \<notin> range dig \<Longrightarrow> dig x \<noteq> []"
  by (metis rangeI)

lemma digest_kept:
  "[] \<notin> range dig \<Longrightarrow> learn_digest dig prior scope \<noteq> []"
  by (simp add: learn_digest_def digest_not_Nil)

lemma learn_and_enforce_kept:
  assumes e: "truthful e rowsOf legal store" and dig: "[] \<notin> range dig" and legal: "rowsOf s \<subseteq> legal"
    and prior: "sound_state store prior" "covering store prior" "lsScope prior \<noteq> []"
    and current: "set (canonical_rows current) = rowsOf s"
    and acc: "rowsOf s \<subseteq> lsBaseline prior \<union> claimed prior" "orphanedRows prior stmts \<subseteq> rowsOf s"
    and run: "learn_and_enforce e dig True stmts (\<lambda>_. True) scope prior current status s
      = (s', status', LearnDone applied revoked unresolved False sy)"
  shows "\<exists>st. status' = toStatus st stmts \<and> role_kept store stmts st (rowsOf s') \<and> rowsOf s' \<subseteq> legal"
proof -
  obtain s1 lo where learn: "learnDesired e dig stmts (\<lambda>_. True) prior scope current False s = (s1, lo, None)"
    using run by (auto simp: learn_and_enforce_def Let_def split: prod.splits option.splits)
  then obtain s2 status1 where wrote: "setLearnState e (loState lo) stmts status s1 = (s2, status1, None)"
    using run by (auto simp: learn_and_enforce_def split: prod.splits option.splits)
  then obtain s3 rows where show_rows: "eShow e s2 = (s3, Inr rows)"
    using run learn by (auto simp: learn_and_enforce_def split: prod.splits sum.splits)
  define cs where "cs = rows_to_remove True lo (fetched_rows rows)"
  obtain drift rv s4 where revoke: "revokeUnwanted e (immutable_rows rows) (by_canonical rows) cs s3 = (drift, rv, s4, None)"
    and rest: "relearn_after_revoke e dig stmts (\<lambda>_. True) scope prior lo drift rv status1 s4
      = (s', status', LearnDone applied revoked unresolved False sy)"
    using run learn wrote show_rows by (auto simp: learn_and_enforce_def cs_def split: prod.splits option.splits)
  have L: "learned store stmts (orphanedRows prior stmts) (rowsOf s1) lo" "rowsOf s1 \<subseteq> legal"
    "lsScope (loState lo) \<noteq> []"
    using learnDesired_learned [OF e legal prior(1,3) current acc disjI2 [OF prior(2)] learn] digest_kept [OF dig] by auto
  note w = setLearnState_done [OF e wrote] and sh = truthful_show [OF e show_rows]
  have s3: "rowsOf s3 = rowsOf s1" "set (canonical_rows (map fst rows)) = rowsOf s1" using w(1) sh by simp_all
  have fin: "finite (rowsOf s1)" using L(1) by (simp add: learned_def)
  have "dom (loDesired lo) = claimed (loState lo)" using L(1) by (simp add: learned_def)
  then have desired: "loDesired lo row = None \<longleftrightarrow> row \<notin> claimed (loState lo)" for row by (metis domIff)
  have cs: "set cs = rowsOf s1 - lsBaseline (loState lo) - claimed (loState lo)" "distinct cs"
    using fin by (auto simp: cs_def rows_to_remove_def fetched_rows_def s3(2) sortedKeys_def desired)
  have "drift = False"
    using rest by (auto simp: relearn_after_revoke_def Let_def split: if_splits prod.splits sum.splits option.splits)
  with revoke have "revokeUnwanted e (immutable_rows rows) (by_canonical rows) cs s3 = (False, rv, s4, None)" by simp
  from revokeUnwanted_done [OF e _ cs(2) _ this] have s4: "rowsOf s4 = rowsOf s1 - set cs" "rv = cs"
    using cs(1) s3 by auto
  have gone: "set cs \<subseteq> orphanedRows prior stmts" using cs(1) L(1) by (auto simp: learned_def)
  show ?thesis
  proof (cases "cs = []")
    case True
    with rest s4 w(2) have "s' = s4" "status' = toStatus (loState lo) stmts" by (auto simp: relearn_after_revoke_def)
    moreover have "learned store stmts {} (rowsOf s1) lo" using L(1) cs(1) True by (auto simp: learned_def)
    ultimately show ?thesis using learned_kept L(2,3) s4(1) True by auto
  next
    case False
    then have "\<exists>row\<in>set rv. row \<in> orphanedRows prior stmts"
      using gone s4(2) by (metis hd_in_set subsetD)
    then obtain s5 rows5 s6 relearned s7 where show5: "eShow e s4 = (s5, Inr rows5)"
      and again: "learnDesired e dig stmts (\<lambda>_. True) (loState lo) scope (shownRows (by_canonical rows5)) True s5 = (s6, relearned, None)"
      and write5: "setLearnState e (loState relearned) stmts status1 s6 = (s', status', None)"
      using rest by (auto simp: relearn_after_revoke_def Let_def split: prod.splits sum.splits option.splits)
    note sh5 = truthful_show [OF e show5] and w5 = setLearnState_done [OF e write5]
    have none: "orphanedRows (loState lo) stmts = {}"
      using L(1) orphanedRows_map [of "loState lo" stmts] by (auto simp: learned_def)
    have L5: "learned store stmts {} (rowsOf s6) relearned \<and> rowsOf s6 \<subseteq> legal
      \<and> lsScope (loState relearned) = learn_digest dig (loState lo) scope"
    proof (rule learnDesired_learned [OF e _ learned_sound [OF L(1)] L(3) _ _ _ _ again, unfolded none])
      show "rowsOf s5 \<subseteq> legal" using L(2) s4(1) sh5(1) by auto
      show "set (canonical_rows (shownRows (by_canonical rows5))) = rowsOf s5" using canonical_shownRows sh5 by simp
      show "rowsOf s5 \<subseteq> lsBaseline (loState lo) \<union> claimed (loState lo)" using s4(1) cs(1) sh5(1) by auto
    qed simp_all
    then show ?thesis using learned_kept digest_kept [OF dig] w5 by metis
  qed
qed

lemma learnStateFromStatus_scope: "lsScope (learnStateFromStatus status) = PrivilegeRenderingScope status"
proof -
  have "lsScope (fold load_rendering rs s) = lsScope s" for rs s
    by (induction rs arbitrary: s) (simp_all add: load_rendering_sels)
  then show ?thesis by (simp add: learnStateFromStatus_def Let_def newLearnState_def)
qed

lemma first_meeting_kept:
  assumes "set (canonical_rows current) = C" "[] \<notin> range dig"
  shows "sound_state store (first_meeting dig scope current)" "covering store (first_meeting dig scope current)"
    "lsScope (first_meeting dig scope current) \<noteq> []" "lsBaseline (first_meeting dig scope current) = C"
    "orphanedRows (first_meeting dig scope current) stmts = {}"
proof -
  define st where "st = newLearnState (dig scope)"
  have st: "raw_sound st" "lsRenderings st = []" "lsScope st = dig scope" "lsRaw st = Map.empty"
    by (simp_all add: st_def newLearnState_def raw_sound_def)
  have first: "first_meeting dig scope current = (fold remember current st)\<lparr>lsBaseline := C\<rparr>"
    using assms(1) by (simp add: first_meeting_def rememberAll_def st_def)
  note raw = fold_remember_raw [where st = st and rows = current]
  have "claimed (first_meeting dig scope current) = {}" by (simp add: first claimed_def st(2))
  moreover have "finite C" using assms(1) by blast
  ultimately show "sound_state store (first_meeting dig scope current)" "covering store (first_meeting dig scope current)"
    "lsScope (first_meeting dig scope current) \<noteq> []" "lsBaseline (first_meeting dig scope current) = C"
    "orphanedRows (first_meeting dig scope current) stmts = {}"
    using raw st assms(1) digest_not_Nil [OF assms(2)] by (auto simp: sound_state_def covering_def first orphanedRows_def raw_sound_def)
qed

text \<open>
  A pass on a role the operator meets for the first time, or meets again after some of its
  rows were taken away.
\<close>

lemma reconcileLearned_kept:
  assumes e: "truthful e rowsOf legal store" and dig: "[] \<notin> range dig" and legal: "rowsOf s \<subseteq> legal"
    and before': "PrivilegeRenderingScope status = [] \<or>
      (role_kept store stmts0 (learnStateFromStatus status) rows0 \<and> rowsOf s \<subseteq> rows0
       \<and> orphanedRows (learnStateFromStatus status) stmts \<subseteq> rowsOf s)"
    and run: "reconcileLearned e dig True stmts (\<lambda>_. True) scope status s
      = (s', status', LearnDone applied revoked unresolved False sy)"
  shows "\<exists>st. status' = toStatus st stmts \<and> role_kept store stmts st (rowsOf s') \<and> rowsOf s' \<subseteq> legal"
proof -
  obtain s1 rows where sh: "eShow e s = (s1, Inr rows)"
    using run by (auto simp: reconcileLearned_def split: prod.splits sum.splits)
  define current where "current = shownRows (by_canonical rows)"
  have s1: "rowsOf s1 = rowsOf s" "set (canonical_rows current) = rowsOf s"
    using truthful_show [OF e sh] canonical_shownRows by (simp_all add: current_def)
  show ?thesis
  proof (cases "PrivilegeRenderingScope status = []")
    case True
    then have "lsScope (learnStateFromStatus status) = []" by (simp add: learnStateFromStatus_scope)
    then obtain s2 status1 where wrote: "setLearnState e (first_meeting dig scope current) stmts status s1 = (s2, status1, None)"
      and rest: "learn_and_enforce e dig True stmts (\<lambda>_. True) scope (first_meeting dig scope current) current status1 s2
        = (s', status', LearnDone applied revoked unresolved False sy)"
      using run sh by (auto simp: reconcileLearned_def current_def Let_def split: prod.splits option.splits)
    have s2: "rowsOf s2 = rowsOf s" using setLearnState_done [OF e wrote] s1 by simp
    note first = first_meeting_kept [OF s1(2) dig]
    show ?thesis
      using s1(2) s2 legal first(4,5)
      by (intro learn_and_enforce_kept [OF e dig _ first(1-3) _ _ _ rest]) auto
  next
    case False
    then have kept: "role_kept store stmts0 (learnStateFromStatus status) rows0" "rowsOf s \<subseteq> rows0"
      "orphanedRows (learnStateFromStatus status) stmts \<subseteq> rowsOf s" using before' by auto
    have rest: "learn_and_enforce e dig True stmts (\<lambda>_. True) scope (learnStateFromStatus status) current status s1
        = (s', status', LearnDone applied revoked unresolved False sy)"
      using run sh False by (simp add: reconcileLearned_def current_def Let_def learnStateFromStatus_scope)
    show ?thesis
      using s1 legal kept
      by (intro learn_and_enforce_kept [OF e dig _ _ _ _ _ _ _ rest]) (auto simp: role_kept_def)
  qed
qed

text \<open>
  The history of a role: a first pass, then passes over whatever the spec has become. Between
  passes anyone may take rows away from the role, but for the rows of statements that have
  just left the spec; \<open>stmts\<close> is what the last pass was asked for.
\<close>

inductive reconciled :: "'s role_env \<Rightarrow> (string \<Rightarrow> string) \<Rightarrow> ('s \<Rightarrow> string set) \<Rightarrow> string set \<Rightarrow>
    string list \<Rightarrow> role_status \<Rightarrow> 's \<Rightarrow> bool"
  for e :: "'s role_env" and dig :: "string \<Rightarrow> string" and rowsOf :: "'s \<Rightarrow> string set" and legal :: "string set" where
  first_pass: "reconciled e dig rowsOf legal stmts status' s'"
    if "PrivilegeRenderingScope status = []" "rowsOf s \<subseteq> legal"
       "reconcileLearned e dig True stmts (\<lambda>_. True) scope status s
        = (s', status', LearnDone applied revoked unresolved False sy)"
| next_pass: "reconciled e dig rowsOf legal stmts' status' s'"
    if "reconciled e dig rowsOf legal stmts status s" "rowsOf s1 \<subseteq> rowsOf s"
       "orphanedRows (learnStateFromStatus status) stmts' \<subseteq> rowsOf s1"
       "reconcileLearned e dig True stmts' (\<lambda>_. True) scope status s1
        = (s', status', LearnDone applied revoked unresolved False sy)"

lemma reconciled_kept:
  assumes "reconciled e dig rowsOf legal stmts status s"
    and e: "truthful e rowsOf legal store" and dig: "[] \<notin> range dig"
  shows "\<exists>st. status = toStatus st stmts \<and> role_kept store stmts st (rowsOf s) \<and> rowsOf s \<subseteq> legal"
  using assms(1)
proof (induction rule: reconciled.induct)
  case (first_pass status s stmts scope s' status' applied revoked unresolved sy)
  then show ?case by (intro reconcileLearned_kept [OF e dig _ _ first_pass(3)]) auto
next
  case (next_pass stmts status s s1 stmts' scope s' status' applied revoked unresolved sy)
  then obtain st where st: "status = toStatus st stmts" "role_kept store stmts st (rowsOf s)" "rowsOf s \<subseteq> legal" by blast
  with role_kept_status have "role_kept store stmts (learnStateFromStatus status) (rowsOf s)" by simp
  with next_pass.hyps st(3) show ?case
    by (intro reconcileLearned_kept [OF e dig _ _ next_pass.hyps(4)]) auto
qed


section \<open>A role with two rows\<close>

text \<open>
  An environment in which the passes above can be evaluated: a role on which two rows can be
  granted, one by one or by a statement naming both databases.
\<close>

definition rowA :: string where "rowA = ''GRANT ACCESS ON DATABASE a TO r''"
definition rowB :: string where "rowB = ''GRANT ACCESS ON DATABASE b TO r''"
definition both :: string where "both = ''GRANT ACCESS ON DATABASES a, b TO r''"
definition revokeA :: string where "revokeA = ''REVOKE GRANT ACCESS ON DATABASE a FROM r''"
definition revokeB :: string where "revokeB = ''REVOKE GRANT ACCESS ON DATABASE b FROM r''"

record duo =
  hasA :: bool
  hasB :: bool
  duoStatus :: role_status

definition duo_rows :: "duo \<Rightarrow> string list" where
  "duo_rows s = (if hasA s then [rowA] else []) @ (if hasB s then [rowB] else [])"

definition duo_store :: "string \<Rightarrow> string set" where
  "duo_store stmt = {row \<in> {rowA, rowB}. stmt = both \<or>
     FoldPrivilegeDatabaseNames row = FoldPrivilegeDatabaseNames (CanonicalisePrivilegeStatement stmt)}"

definition duo_env :: "duo role_env" where
  "duo_env =
     \<lparr>eShow = (\<lambda>s. (s, Inr (map (\<lambda>row. (row, False)) (duo_rows s)))),
      eGrant = (\<lambda>stmt s. let s1 = s\<lparr>hasA := hasA s \<or> rowA \<in> duo_store stmt, hasB := hasB s \<or> rowB \<in> duo_store stmt\<rparr>
                         in (s1, Inr (duo_rows s, duo_rows s1))),
      eExecute = (\<lambda>revoke s. (s\<lparr>hasA := hasA s \<and> revoke \<noteq> revokeA, hasB := hasB s \<and> revoke \<noteq> revokeB\<rparr>, None)),
      eGet = (\<lambda>s. Inr (duoStatus s)),
      eUpdate = (\<lambda>next s. (s\<lparr>duoStatus := next\<rparr>, Inr next))\<rparr>"

lemma duo_canonical [simp]: "CanonicalisePrivilegeStatement rowA = rowA" "CanonicalisePrivilegeStatement rowB = rowB"
  "CanonicalisePrivilegeStatement both = both"
  by code_simp+

lemma duo_revokes [simp]: "DerivePrivilegeRevoke rowA = Inr revokeA" "DerivePrivilegeRevoke rowB = Inr revokeB"
  by code_simp+

lemma duo_neq [simp]:
  "rowA \<noteq> []" "rowB \<noteq> []" "both \<noteq> []" "rowA \<noteq> rowB" "rowB \<noteq> rowA" "both \<noteq> rowA" "both \<noteq> rowB"
  "revokeA \<noteq> revokeB" "revokeB \<noteq> revokeA"
  by code_simp+

lemma duo_order [simp]: "rowA \<le> rowB" "\<not> rowB \<le> rowA"
  by code_simp+

lemma duo_canonical_rows [simp]:
  "canonical_rows [] = []" "canonical_rows [rowA] = [rowA]" "canonical_rows [rowB] = [rowB]" "canonical_rows [rowA, rowB] = [rowA, rowB]"
  by (simp_all add: canonical_rows_def)

lemma duo_store_both [simp]: "duo_store both = {rowA, rowB}"
  by (auto simp: duo_store_def)

lemma revoke_by_canonical:
  "CanonicalisePrivilegeStatement a = CanonicalisePrivilegeStatement b \<Longrightarrow>
   DerivePrivilegeRevoke a = Inr x \<Longrightarrow> DerivePrivilegeRevoke b = Inr x"
  by (auto simp: DerivePrivilegeRevoke_def Let_def split: if_splits option.splits)

lemma duo_canonical_duo_rows: "canonical_rows (duo_rows s) = duo_rows s"
  by (simp add: duo_rows_def)

lemma duo_truthful: "truthful duo_env (\<lambda>s. set (duo_rows s)) {rowA, rowB} duo_store"
proof -
  have "shows_role duo_env (\<lambda>s. set (duo_rows s))"
    by (auto simp: shows_role_def duo_env_def comp_def duo_canonical_duo_rows)
  moreover have "grants_add duo_env (\<lambda>s. set (duo_rows s)) duo_store"
    by (auto simp: grants_add_def duo_env_def Let_def duo_canonical_duo_rows) (auto simp: duo_rows_def duo_store_def split: if_splits)
  moreover have "revokes_remove duo_env (\<lambda>s. set (duo_rows s))"
  proof -
    have "set (duo_rows s1) = set (duo_rows s) - {CanonicalisePrivilegeStatement row}"
      if row: "CanonicalisePrivilegeStatement row \<in> set (duo_rows s)" and rv: "DerivePrivilegeRevoke row = Inr revoke"
        and run: "eExecute duo_env revoke s = (s1, None)" for row revoke s s1
    proof -
      from row consider "CanonicalisePrivilegeStatement row = rowA" | "CanonicalisePrivilegeStatement row = rowB"
        by (auto simp: duo_rows_def split: if_splits)
      then show ?thesis
      proof cases
        case 1
        with revoke_by_canonical [OF _ rv, of rowA] have "revoke = revokeA" by simp
        with run 1 show ?thesis by (auto simp: duo_env_def duo_rows_def)
      next
        case 2
        with revoke_by_canonical [OF _ rv, of rowB] have "revoke = revokeB" by simp
        with run 2 show ?thesis by (auto simp: duo_env_def duo_rows_def)
      qed
    qed
    then show ?thesis by (auto simp: revokes_remove_def)
  qed
  moreover have "writes_apart duo_env (\<lambda>s. set (duo_rows s))"
    by (auto simp: writes_apart_def duo_env_def duo_rows_def)
  moreover have "own_form {rowA, rowB} duo_store"
    by (auto simp: own_form_def duo_store_def)
  ultimately show ?thesis by (simp add: truthful_def)
qed

subsection \<open>One pass over the statement naming both\<close>

definition duo_met :: role_status where
  "duo_met = \<lparr>PrivilegeRenderingScope = ''d'', PrivilegeRenderings = [], UnattributedPrivileges = []\<rparr>"

definition duo_out :: "string set \<Rightarrow> (string \<rightharpoonup> string) \<Rightarrow> learnOutcome" where
  "duo_out rows raw = \<lparr>loState = \<lparr>lsScope = ''d'', lsRenderings = [], lsBaseline = {}, lsRaw = raw\<rparr>,
     loDesired = Map.empty, loCurrent = rows, loAdded = 0, loAmbiguous = [], loUnresolved = [], loGrantErr = []\<rparr>"

definition duo_learned :: "string list \<Rightarrow> (string \<rightharpoonup> string) \<Rightarrow> learnOutcome" where
  "duo_learned rows raw = \<lparr>loState = \<lparr>lsScope = ''d'',
       lsRenderings = [(both, \<lparr>lrRows = rows, lrAmbiguous = False\<rparr>)], lsBaseline = {}, lsRaw = raw\<rparr>,
     loDesired = want both rows Map.empty, loCurrent = {rowA, rowB}, loAdded = 1, loAmbiguous = [],
     loUnresolved = [], loGrantErr = []\<rparr>"

lemma duo_prior: "learnStateFromStatus duo_met = newLearnState ''d''"
  by (simp add: learnStateFromStatus_def duo_met_def newLearnState_def Let_def)

lemma duo_learnDesired:
  "learnDesired duo_env (\<lambda>_. ''d'') [both] (\<lambda>_. True) (newLearnState ''d'') scope [rowA] False
     \<lparr>hasA = True, hasB = False, duoStatus = t\<rparr>
   = (\<lparr>hasA = True, hasB = True, duoStatus = t\<rparr>, duo_learned [rowB] [rowA \<mapsto> rowA, rowB \<mapsto> rowB], None)"
proof -
  have start: "learn_start (\<lambda>_. ''d'') (newLearnState ''d'') scope [rowA] = duo_out {rowA} [rowA \<mapsto> rowA]"
    by (simp add: learn_start_def newLearnState_def learn_digest_def rememberAll_def remember_def duo_out_def Let_def)
  have "learn_grant duo_env (newLearnState ''d'') both \<lparr>hasA = True, hasB = False, duoStatus = t\<rparr> (duo_out {rowA} [rowA \<mapsto> rowA])
    = (\<lparr>hasA = True, hasB = True, duoStatus = t\<rparr>, duo_learned [rowB] [rowA \<mapsto> rowA, rowB \<mapsto> rowB], None)"
    by (simp add: learn_grant_def duo_env_def duo_rows_def rememberAll_def remember_def duo_out_def duo_learned_def
        learned_rows_def newLearnState_def sortedKeys_def settle_def Let_def insert_Diff_if fun_upd_twist)
  then show ?thesis
    unfolding learnDesired_def start
    by (simp add: learn_stmt_def newLearnState_def keep_unclaimed_def duo_learned_def)
qed

lemma duo_learnDesired_empty:
  "learnDesired duo_env (\<lambda>_. ''d'') [both] (\<lambda>_. True) (newLearnState ''d'') scope [] False
     \<lparr>hasA = False, hasB = False, duoStatus = t\<rparr>
   = (\<lparr>hasA = True, hasB = True, duoStatus = t\<rparr>, duo_learned [rowA, rowB] [rowA \<mapsto> rowA, rowB \<mapsto> rowB], None)"
proof -
  have start: "learn_start (\<lambda>_. ''d'') (newLearnState ''d'') scope [] = duo_out {} Map.empty"
    by (simp add: learn_start_def newLearnState_def learn_digest_def rememberAll_def duo_out_def Let_def)
  have "learn_grant duo_env (newLearnState ''d'') both \<lparr>hasA = False, hasB = False, duoStatus = t\<rparr> (duo_out {} Map.empty)
    = (\<lparr>hasA = True, hasB = True, duoStatus = t\<rparr>, duo_learned [rowA, rowB] [rowA \<mapsto> rowA, rowB \<mapsto> rowB], None)"
    by (simp add: learn_grant_def duo_env_def duo_rows_def rememberAll_def remember_def duo_out_def duo_learned_def
        learned_rows_def newLearnState_def sortedKeys_def settle_def Let_def insert_Diff_if fun_upd_twist)
  then show ?thesis
    unfolding learnDesired_def start
    by (simp add: learn_stmt_def newLearnState_def keep_unclaimed_def duo_learned_def)
qed

definition duo_status :: "string list \<Rightarrow> role_status" where
  "duo_status rows = \<lparr>PrivilegeRenderingScope = ''d'',
     PrivilegeRenderings = [\<lparr>prStatement = both, prRows = rows, prAmbiguous = False\<rparr>], UnattributedPrivileges = []\<rparr>"

lemma duo_toStatus:
  "toStatus (loState (duo_learned [rowB] [rowA \<mapsto> rowA, rowB \<mapsto> rowB])) [both] = duo_status [rowB]"
  "toStatus (loState (duo_learned [rowA, rowB] [rowA \<mapsto> rowA, rowB \<mapsto> rowB])) [both] = duo_status [rowA, rowB]"
  by (simp_all add: toStatus_def duo_learned_def duo_status_def shown_row_def sortedKeys_def)

lemma duo_write:
  "t \<noteq> toStatus st stmts \<Longrightarrow> lsScope st = ''d'' \<Longrightarrow>
   setLearnState duo_env st stmts u \<lparr>hasA = a, hasB = b, duoStatus = t\<rparr>
   = (\<lparr>hasA = a, hasB = b, duoStatus = toStatus st stmts\<rparr>, toStatus st stmts, None)"
  "t = toStatus st stmts \<Longrightarrow>
   setLearnState duo_env st stmts u \<lparr>hasA = a, hasB = b, duoStatus = t\<rparr>
   = (\<lparr>hasA = a, hasB = b, duoStatus = t\<rparr>, t, None)"
  by (simp_all add: setLearnState_def duo_env_def Let_def toStatus_def)

lemma duo_show:
  "eShow duo_env \<lparr>hasA = a, hasB = b, duoStatus = t\<rparr>
   = (\<lparr>hasA = a, hasB = b, duoStatus = t\<rparr>,
      Inr ((if a then [(rowA, False)] else []) @ (if b then [(rowB, False)] else [])))"
  by (simp add: duo_env_def duo_rows_def)

lemma duo_fetch:
  "by_canonical [(rowA, False)] = [(rowA, rowA)]" "by_canonical [(rowB, False)] = [(rowB, rowB)]"
  "by_canonical [(rowA, False), (rowB, False)] = [(rowA, rowA), (rowB, rowB)]" "by_canonical [] = []"
  "fetched_rows [(rowA, False), (rowB, False)] = [rowA, rowB]" "fetched_rows [(rowB, False)] = [rowB]"
  "immutable_rows [(rowA, False), (rowB, False)] = {}" "immutable_rows [(rowB, False)] = {}"
  by (simp_all add: by_canonical_def fetched_rows_def immutable_rows_def sortedKeys_def Let_def)

lemma duo_learned_sels [simp]:
  "lsScope (loState (duo_learned rows raw)) = ''d''" "lsBaseline (loState (duo_learned rows raw)) = {}"
  "loDesired (duo_learned rows raw) = want both rows Map.empty" "loAdded (duo_learned rows raw) = 1"
  "loAmbiguous (duo_learned rows raw) = []" "loUnresolved (duo_learned rows raw) = []"
  by (simp_all add: duo_learned_def)

lemma duo_status_neq [simp]: "duo_met \<noteq> duo_status rows"
  by (simp add: duo_met_def duo_status_def)

text \<open>
  C28: the learning reconcile keeps what the spec asks for. Take any history of enforced passes
  that were answered, resolved every database and left no drift, over specs that change from pass to
  pass, between which nobody grants on the role; rows may be taken away, but not those of statements
  that have just left the spec. With Neo4j storing a statement as the same rows throughout, the role
  holds every row every statement of the spec is stored as, although two statements may share rows
  and the operator learns each row for one of them only; and every other row it holds is
  listed as unattributed.
\<close>

theorem role_keeps_its_privileges:
  assumes "reconciled e dig rowsOf legal stmts status s"
    and "truthful e rowsOf legal store" "[] \<notin> range dig"
  shows "(\<forall>stmt\<in>set stmts. CanonicalisePrivilegeStatement stmt \<noteq> [] \<longrightarrow> store stmt \<subseteq> rowsOf s)
    \<and> rowsOf s \<subseteq> set (canonical_rows (UnattributedPrivileges status)) \<union> (\<Union>stmt\<in>set stmts. store stmt)"
proof -
  obtain st where st: "status = toStatus st stmts" "role_kept store stmts st (rowsOf s)"
    using reconciled_kept [OF assms] by blast
  have raw: "raw_sound st" "lsBaseline st \<subseteq> dom (lsRaw st)" "finite (lsBaseline st)"
    using st(2) by (auto simp: role_kept_def sound_state_def)
  have "canonical_rows (UnattributedPrivileges status) = sortedKeys (lsBaseline st)"
    using raw by (simp add: st(1) toStatus_def canonical_rows_shown)
  then have "set (canonical_rows (UnattributedPrivileges status)) = lsBaseline st" using raw(3) by simp
  moreover have "claimed st \<subseteq> (\<Union>stmt\<in>set stmts. store stmt)"
    using st(2) by (fastforce simp: claimed_def role_kept_def sound_state_def sound_rendering_def)
  ultimately show ?thesis using st(2) unfolding role_kept_def by blast
qed

lemma role_keeps_its_privileges_witness:
  "\<exists>s status. {rowA, rowB} \<subseteq> set (duo_rows s)
     \<and> reconciled duo_env (\<lambda>_. ''d'') (\<lambda>s. set (duo_rows s)) {rowA, rowB} [both] status s"
proof -
  define t0 where "t0 = \<lparr>PrivilegeRenderingScope = [], PrivilegeRenderings = [], UnattributedPrivileges = []\<rparr>"
  define s0 where "s0 = \<lparr>hasA = False, hasB = False, duoStatus = t0\<rparr>"
  have first: "first_meeting (\<lambda>_. ''d'') scope [] = newLearnState ''d''" for scope
    by (simp add: first_meeting_def rememberAll_def newLearnState_def)
  have met: "toStatus (newLearnState ''d'') [both] = duo_met"
    by (simp add: toStatus_def newLearnState_def duo_met_def sortedKeys_def)
  have unmet: "PrivilegeRenderingScope t0 = []" "t0 \<noteq> duo_met" "lsScope (newLearnState ''d'') = ''d''"
    by (simp_all add: t0_def duo_met_def newLearnState_def)
  have pass: "reconcileLearned duo_env (\<lambda>_. ''d'') True [both] (\<lambda>_. True) scope t0 s0
    = (\<lparr>hasA = True, hasB = True, duoStatus = duo_status [rowA, rowB]\<rparr>, duo_status [rowA, rowB], LearnDone 1 0 0 False PrivilegesSynced)" for scope
    by (simp add: reconcileLearned_def s0_def duo_show duo_fetch shownRows_def learnStateFromStatus_scope unmet first
        duo_write met learn_and_enforce_def duo_learnDesired_empty duo_toStatus
        rows_to_remove_def want_def relearn_after_revoke_def synced_reason_def Let_def)
  have run: "reconciled duo_env (\<lambda>_. ''d'') (\<lambda>s. set (duo_rows s)) {rowA, rowB} [both] (duo_status [rowA, rowB])
      \<lparr>hasA = True, hasB = True, duoStatus = duo_status [rowA, rowB]\<rparr>"
    by (rule reconciled.first_pass [OF unmet(1) _ pass [of "[]"]]) (simp add: s0_def duo_rows_def)
  from role_keeps_its_privileges [OF run duo_truthful] run show ?thesis by auto
qed

text \<open>
  What learn mode keeps in the status of a role is read back as it was written: the
  scope, the rows kept as unattributed, and for each statement of the spec the rows learned
  for it in sorted order and whether they are unknown. Only what it knew of statements that
  left the spec is gone.
\<close>

theorem learn_state_survives_status:
  assumes "raw_sound st" "lsBaseline st \<union> claimed st \<subseteq> dom (lsRaw st)" "finite (lsBaseline st)"
  shows "lsScope (learnStateFromStatus (toStatus st stmts)) = lsScope st
    \<and> lsBaseline (learnStateFromStatus (toStatus st stmts)) = lsBaseline st
    \<and> map_of (lsRenderings (learnStateFromStatus (toStatus st stmts))) stmt
        = (if stmt \<in> set stmts then map_option stored_rendering (map_of (lsRenderings st) stmt) else None)"
  using status_roundtrip_state [OF assms refl] by simp

lemma learn_state_survives_status_witness:
  "map_of (lsRenderings (learnStateFromStatus (toStatus
       (loState (duo_learned [rowA, rowB] [rowA \<mapsto> rowA, rowB \<mapsto> rowB])) [both]))) both
   = Some \<lparr>lrRows = [rowA, rowB], lrAmbiguous = False\<rparr>"
proof -
  let ?st = "loState (duo_learned [rowA, rowB] [rowA \<mapsto> rowA, rowB \<mapsto> rowB])"
  have look: "lsRenderings ?st = [(both, \<lparr>lrRows = [rowA, rowB], lrAmbiguous = False\<rparr>)]"
    "lsRaw ?st = [rowA \<mapsto> rowA, rowB \<mapsto> rowB]" by (simp_all add: duo_learned_def)
  have st: "raw_sound ?st" "lsBaseline ?st \<union> claimed ?st \<subseteq> dom (lsRaw ?st)" "finite (lsBaseline ?st)"
    unfolding raw_sound_def claimed_def look by (auto split: if_splits)
  from learn_state_survives_status [OF st, of "[both]" both] show ?thesis
    by (simp add: look stored_rendering_def)
qed

text \<open>
  A row someone else granted costs the spec a privilege. The role has one of the two
  rows a new statement is stored as, granted by hand; the pass grants the statement, learns
  only the other row, revokes the first as foreign, and reports the privileges as in sync.
  The next pass changes nothing: the access the spec asks for stays withheld.
\<close>

theorem foreign_row_costs_a_privilege:
  "\<exists>s1. reconcileLearned duo_env (\<lambda>_. ''d'') True [both] (\<lambda>_. True) scope duo_met
          \<lparr>hasA = True, hasB = False, duoStatus = duo_met\<rparr>
        = (s1, duo_status [rowB], LearnDone 1 1 0 False PrivilegesSynced)
    \<and> reconcileLearned duo_env (\<lambda>_. ''d'') True [both] (\<lambda>_. True) scope (duo_status [rowB]) s1
        = (s1, duo_status [rowB], LearnDone 0 0 0 False PrivilegesSynced)
    \<and> rowA \<in> duo_store both \<and> rowA \<notin> set (duo_rows s1)"
proof -
  let ?s1 = "\<lparr>hasA = False, hasB = True, duoStatus = duo_status [rowB]\<rparr>"
  have scope: "PrivilegeRenderingScope duo_met = ''d''" "PrivilegeRenderingScope (duo_status rows) = ''d''"
    "lsScope (newLearnState ''d'') = ''d''" for rows
    by (simp_all add: duo_met_def duo_status_def newLearnState_def)
  have none: "orphanedRows (newLearnState ''d'') [both] = {}" by (simp add: orphanedRows_def newLearnState_def)
  have revoke: "revokeUnwanted duo_env {} [(rowA, rowA), (rowB, rowB)] [rowA] \<lparr>hasA = True, hasB = True, duoStatus = t\<rparr>
    = (False, [rowA], \<lparr>hasA = False, hasB = True, duoStatus = t\<rparr>, None)" for t
    by (simp add: duo_env_def)
  have first: "reconcileLearned duo_env (\<lambda>_. ''d'') True [both] (\<lambda>_. True) scope duo_met
      \<lparr>hasA = True, hasB = False, duoStatus = duo_met\<rparr> = (?s1, duo_status [rowB], LearnDone 1 1 0 False PrivilegesSynced)"
    by (simp add: reconcileLearned_def duo_show duo_fetch shownRows_def learnStateFromStatus_scope scope duo_prior
        duo_write learn_and_enforce_def duo_learnDesired duo_toStatus rows_to_remove_def want_def revoke
        relearn_after_revoke_def none synced_reason_def Let_def del: revokeUnwanted.simps)
  define prior where "prior = learnStateFromStatus (duo_status [rowB])"
  have prior: "prior = \<lparr>lsScope = ''d'', lsRenderings = [(both, \<lparr>lrRows = [rowB], lrAmbiguous = False\<rparr>)],
      lsBaseline = {}, lsRaw = [rowB \<mapsto> rowB]\<rparr>"
    by (simp add: prior_def learnStateFromStatus_def duo_status_def load_rendering_def remember_def newLearnState_def Let_def)
  define out where "out = \<lparr>loState = prior, loDesired = [rowB \<mapsto> both], loCurrent = {rowB}, loAdded = 0,
      loAmbiguous = [], loUnresolved = [], loGrantErr = []\<rparr>"
  have start: "learn_start (\<lambda>_. ''d'') prior scope [rowB]
      = \<lparr>loState = prior\<lparr>lsRenderings := []\<rparr>, loDesired = Map.empty, loCurrent = {rowB}, loAdded = 0, loAmbiguous = [],
         loUnresolved = [], loGrantErr = []\<rparr>"
    by (simp add: learn_start_def learn_digest_def rememberAll_def remember_def newLearnState_def prior Let_def)
  have again: "learnDesired duo_env (\<lambda>_. ''d'') [both] (\<lambda>_. True) prior scope [rowB] False ?s1 = (?s1, out, None)"
    unfolding learnDesired_def start
    by (simp add: learn_stmt_def relearn_all_def learn_digest_def settle_def want_def keep_unclaimed_def out_def prior)
  have scope': "lsScope prior = ''d''" by (simp add: prior)
  have same: "toStatus (loState out) [both] = duo_status [rowB]"
    by (simp add: toStatus_def out_def prior duo_status_def shown_row_def sortedKeys_def)
  have rest: "rows_to_remove True out [rowB] = []" "synced_reason False out = PrivilegesSynced" "loAdded out = 0" "loUnresolved out = []"
    by (simp_all add: rows_to_remove_def synced_reason_def out_def prior)
  have second: "reconcileLearned duo_env (\<lambda>_. ''d'') True [both] (\<lambda>_. True) scope (duo_status [rowB]) ?s1
      = (?s1, duo_status [rowB], LearnDone 0 0 0 False PrivilegesSynced)"
    by (simp add: reconcileLearned_def duo_show duo_fetch shownRows_def scope' prior_def [symmetric]
        learn_and_enforce_def again same duo_write rest relearn_after_revoke_def Let_def)
  show ?thesis using first second by (intro exI [of _ ?s1]) (simp add: duo_rows_def)
qed

end
