(* ===== verification/Float64.thy ===== *)
theory Float64
  imports Prelude "HOL-Library.Log_Nat"
begin

text \<open>
  The part of Go's \<^verbatim>\<open>float64\<close> the operator computes sizes with: non-negative numbers, far from
  underflow. A number is the fraction that is its value. \<open>fl n d\<close> is \<open>n / d\<close> rounded to 53
  significant bits, to nearest and ties to even; every operation is the exact one followed by
  \<open>fl\<close>, as IEEE 754 has it. \<^verbatim>\<open>int64(x)\<close> cuts off the fraction and \<^verbatim>\<open>%.0f\<close> rounds to the nearest
  whole number, ties to even.
\<close>

section \<open>The model\<close>

type_synonym float64 = "nat \<times> nat"

definition round_div :: "nat \<Rightarrow> nat \<Rightarrow> nat" where
  "round_div n d =
     (let q = n div d; r = n mod d in
      if 2 * r < d \<or> 2 * r = d \<and> even q then q else q + 1)"

text \<open>\<open>scaled n d e\<close> is the fraction \<open>n / d / 2\<^sup>e\<close>.\<close>

definition scaled :: "nat \<Rightarrow> nat \<Rightarrow> int \<Rightarrow> nat \<times> nat" where
  "scaled n d e = (if e \<ge> 0 then (n, d * 2 ^ nat e) else (n * 2 ^ nat (- e), d))"

definition fl_exp :: "nat \<Rightarrow> nat \<Rightarrow> int" where
  "fl_exp n d =
     (let b = int (floorlog 2 n) - int (floorlog 2 d); (p, q) = scaled n d b
      in (if q \<le> p then b else b - 1) - 52)"

definition fl :: "nat \<Rightarrow> nat \<Rightarrow> float64" where
  "fl n d =
     (if n = 0 then (0, 1)
      else let e = fl_exp n d; (p, q) = scaled n d e
           in scaled (round_div p q) 1 (- e))"

definition float_of :: "nat \<Rightarrow> float64" where
  "float_of n = fl n 1"

definition fmul :: "float64 \<Rightarrow> float64 \<Rightarrow> float64" where
  "fmul x y = fl (fst x * fst y) (snd x * snd y)"

definition fdiv :: "float64 \<Rightarrow> float64 \<Rightarrow> float64" where
  "fdiv x y = fl (fst x * snd y) (snd x * fst y)"

definition ftrunc :: "float64 \<Rightarrow> nat" where
  "ftrunc x = fst x div snd x"

definition fround :: "float64 \<Rightarrow> nat" where
  "fround x = round_div (fst x) (snd x)"


section \<open>Rounding\<close>

named_theorems float_eval "the equations that evaluate the model on numerals"

lemmas [float_eval] = round_div_def scaled_def fl_exp_def fl_def float_of_def fmul_def fdiv_def ftrunc_def
  fround_def compute_floorlog Let_def

definition fval :: "float64 \<Rightarrow> real" where
  "fval x = real (fst x) / real (snd x)"

lemma round_div_near:
  assumes "0 < d"
  shows "\<bar>real (round_div n d) - real n / real d\<bar> \<le> 1 / 2"
proof -
  have n: "real n = real d * real (n div d) + real (n mod d)" by (metis mult_div_mod_eq of_nat_add of_nat_mult)
  have q: "real n / real d = real (n div d) + real (n mod d) / real d" using assms by (simp add: n field_simps)
  have r: "n mod d < d" using assms by simp
  show ?thesis
  proof (cases "2 * (n mod d) < d \<or> 2 * (n mod d) = d \<and> even (n div d)")
    case True
    then have "real (n mod d) / real d \<le> 1 / 2" using assms by (simp add: field_simps) linarith
    moreover have "0 \<le> real (n mod d) / real d" by simp
    ultimately show ?thesis using True by (simp add: round_div_def Let_def q)
  next
    case False
    then have "d \<le> 2 * (n mod d)" by auto
    then have "1 / 2 \<le> real (n mod d) / real d" using assms by (simp add: field_simps)
    moreover have "real (n mod d) / real d \<le> 1" using assms r by (simp add: field_simps)
    moreover have "round_div n d = n div d + 1" using False by (simp add: round_div_def Let_def)
    ultimately show ?thesis by (simp add: q)
  qed
qed

lemma round_div_exact: "0 < d \<Longrightarrow> round_div (k * d) d = k"
  by (simp add: round_div_def)

lemma scaled_val:
  assumes "0 < d"
  shows "0 < snd (scaled n d e)" "fval (scaled n d e) = real n / real d / 2 powi e"
  using assms by (auto simp: scaled_def fval_def power_int_def field_simps)

lemma floorlog_bounds:
  assumes "0 < n"
  shows "2 ^ (floorlog 2 n - 1) \<le> real n" "real n < 2 ^ floorlog 2 n" "0 < floorlog 2 n"
proof -
  show p: "0 < floorlog 2 n" using assms by (simp add: floorlog_def)
  from floorlog_bounds [of n 2] assms have "2 ^ (floorlog 2 n - 1) \<le> n" "n < 2 ^ floorlog 2 n" by auto
  then show "2 ^ (floorlog 2 n - 1) \<le> real n" "real n < 2 ^ floorlog 2 n"
    by (metis of_nat_le_iff of_nat_power of_nat_numeral, metis of_nat_less_iff of_nat_power of_nat_numeral)
qed

text \<open>The exponent leaves a significand of 53 bits.\<close>

lemma fl_exp_bounds:
  assumes "0 < n" "0 < d"
  shows "2 ^ 52 \<le> real n / real d / 2 powi (fl_exp n d)" "real n / real d / 2 powi (fl_exp n d) < 2 ^ 53"
proof -
  define x where "x = real n / real d"
  define b where "b = int (floorlog 2 n) - int (floorlog 2 d)"
  define y where "y = x / 2 powi b"
  note ln = floorlog_bounds [OF assms(1)] and ld = floorlog_bounds [OF assms(2)]
  have half: "2 * 2 ^ (k - 1) = (2::real) ^ k" if "0 < k" for k :: nat
    using that by (cases k) auto
  have b2: "2 powi b = (2::real) ^ floorlog 2 n / 2 ^ floorlog 2 d"
    by (simp add: b_def power_int_diff)
  have "x < 2 * 2 powi b"
  proof -
    have "x < 2 ^ floorlog 2 n / real d" unfolding x_def using ln(2) assms(2) by (simp add: divide_strict_right_mono)
    also have "\<dots> \<le> 2 ^ floorlog 2 n / 2 ^ (floorlog 2 d - 1)" using ld(1) assms(2) by (intro divide_left_mono) auto
    also have "\<dots> = 2 * 2 powi b" unfolding b2 using half [OF ld(3)] by (simp add: field_simps)
    finally show ?thesis .
  qed
  then have y2: "y < 2" by (simp add: y_def field_simps)
  have "2 powi b < 2 * x"
  proof -
    have "(2::real) powi b = 2 * (2 ^ (floorlog 2 n - 1) / 2 ^ floorlog 2 d)" unfolding b2 using half [OF ln(3)] by simp
    also have "\<dots> \<le> 2 * (real n / 2 ^ floorlog 2 d)" using ln(1) by (simp add: divide_right_mono)
    also have "\<dots> < 2 * x" unfolding x_def using ld(2) assms by (simp add: divide_strict_left_mono)
    finally show ?thesis .
  qed
  then have y1: "1 / 2 < y" by (simp add: y_def field_simps)
  have "fval (scaled n d b) = y" using scaled_val(2) [OF assms(2)] by (simp add: y_def x_def)
  then have "snd (scaled n d b) \<le> fst (scaled n d b) \<longleftrightarrow> 1 \<le> y"
    using scaled_val(1) [OF assms(2), of n b] by (auto simp: fval_def le_divide_eq)
  then have e: "fl_exp n d = (if 1 \<le> y then b else b - 1) - 52"
    by (simp add: fl_exp_def Let_def b_def case_prod_beta)
  have "x / 2 powi (fl_exp n d) = (if 1 \<le> y then y else 2 * y) * 2 ^ 52"
    by (simp add: e y_def power_int_diff)
  then show "2 ^ 52 \<le> real n / real d / 2 powi (fl_exp n d)" "real n / real d / 2 powi (fl_exp n d) < 2 ^ 53"
    unfolding x_def [symmetric] using y1 y2 by (auto split: if_splits)
qed

lemma fl_pos: "0 < snd (fl n d)"
  by (simp add: fl_def Let_def scaled_val case_prod_beta)

text \<open>The relative error of one rounding.\<close>

lemma fl_error:
  assumes "0 < d"
  shows "\<bar>fval (fl n d) - real n / real d\<bar> \<le> real n / real d / 2 ^ 53"
proof (cases "n = 0")
  case False
  define e where "e = fl_exp n d"
  define x where "x = real n / real d"
  obtain p q where pq: "scaled n d e = (p, q)" by fastforce
  note s = scaled_val [OF assms, of n e, unfolded pq x_def [symmetric], simplified]
  have v: "fval (fl n d) = real (round_div p q) * 2 powi e"
    using False scaled_val(2) [of 1 "round_div p q" "- e"]
    by (simp add: fl_def Let_def e_def [symmetric] pq power_int_minus field_simps)
  have "\<bar>real (round_div p q) - x / 2 powi e\<bar> \<le> 1 / 2"
    using round_div_near [of q p] s by (simp add: fval_def)
  then have "\<bar>real (round_div p q) - x / 2 powi e\<bar> * 2 powi e \<le> 1 / 2 * 2 powi e"
    by (intro mult_right_mono) auto
  moreover have "\<bar>real (round_div p q) - x / 2 powi e\<bar> * 2 powi e = \<bar>fval (fl n d) - x\<bar>"
    unfolding v by (subst abs_mult_pos) (simp_all add: left_diff_distrib)
  moreover have "1 / 2 * 2 powi e \<le> x / 2 ^ 53"
    using fl_exp_bounds(1) [of n d] False assms unfolding e_def [symmetric] x_def [symmetric]
    by (simp add: field_simps)
  ultimately show ?thesis unfolding x_def [symmetric] by linarith
qed (simp add: fl_def fval_def)

text \<open>A whole number below \<open>2\<^sup>5\<^sup>3\<close> over a power of two is kept as it is.\<close>

lemma fl_exact:
  assumes "0 < d" "real n / real d = real k * 2 powi j" "k < 2 ^ 53"
  shows "fval (fl n d) = real n / real d"
proof (cases "n = 0")
  case False
  define e where "e = fl_exp n d"
  define x where "x = real n / real d"
  obtain p q where pq: "scaled n d e = (p, q)" by fastforce
  note s = scaled_val [OF assms(1), of n e, unfolded pq x_def [symmetric], simplified]
  have v: "fval (fl n d) = real (round_div p q) * 2 powi e"
    using False scaled_val(2) [of 1 "round_div p q" "- e"]
    by (simp add: fl_def Let_def e_def [symmetric] pq power_int_minus field_simps)
  have x: "x = real k * 2 powi j" using assms(2) by (simp add: x_def)
  have k: "real k < 2 ^ 53" using assms(3) by (metis of_nat_less_iff of_nat_numeral of_nat_power)
  have "2 ^ 52 \<le> real k * 2 powi (j - e)"
    using fl_exp_bounds(1) [of n d] False assms(1) x unfolding e_def [symmetric] x_def [symmetric]
    by (simp add: power_int_diff field_simps)
  also have "\<dots> < 2 ^ 53 * 2 powi (j - e)"
    using k by (intro mult_strict_right_mono) auto
  finally have "(2::real) powi (-1) < 2 powi (j - e)" by (simp add: power_int_minus)
  then have "-1 < j - e"
    using power_int_increasing [of "j - e" "-1" "2::real"] by (meson leD leI one_le_numeral)
  then have whole: "x / 2 powi e = real (k * 2 ^ nat (j - e))"
    unfolding x using power_int_diff [of "2::real" j e] by (simp add: power_int_def)
  then have "real p = real ((k * 2 ^ nat (j - e)) * q)"
    using s by (simp only: fval_def fst_conv snd_conv of_nat_mult) (simp add: divide_eq_eq)
  then have "p = (k * 2 ^ nat (j - e)) * q" by (simp only: of_nat_eq_iff)
  then have "real (round_div p q) = x / 2 powi e"
    unfolding whole using round_div_exact [OF s(1)] by simp
  then show ?thesis by (simp add: v x_def)
qed (simp add: fl_def fval_def)


text \<open>The operations, each with the error of one rounding.\<close>

lemma ops_pos [simp]: "0 < snd (float_of n)" "0 < snd (fmul x y)" "0 < snd (fdiv x y)"
  by (simp_all add: float_of_def fmul_def fdiv_def fl_pos)

lemma fval_nonneg [simp]: "0 \<le> fval x"
  by (simp add: fval_def)

lemma float_of_exact: "n < 2 ^ 53 \<Longrightarrow> fval (float_of n) = real n"
  using fl_exact [of 1 n n 0] by (simp add: float_of_def)

lemma near_upper: "\<bar>y - x\<bar> \<le> x / 2 ^ 53 \<Longrightarrow> y \<le> x * (1 + 1 / 2 ^ 53)" for x y :: real
  by (drule abs_le_D1) (simp add: algebra_simps)

lemma near_lower: "\<bar>y - x\<bar> \<le> x / 2 ^ 53 \<Longrightarrow> x * (1 - 1 / 2 ^ 53) \<le> y" for x y :: real
  by (drule abs_le_D2) (simp add: algebra_simps)

lemma float_of_near: "\<bar>fval (float_of n) - real n\<bar> \<le> real n / 2 ^ 53"
  using fl_error [of 1 n] by (simp add: float_of_def)

lemma fmul_near:
  assumes "0 < snd x" "0 < snd y"
  shows "\<bar>fval (fmul x y) - fval x * fval y\<bar> \<le> fval x * fval y / 2 ^ 53"
  using fl_error [of "snd x * snd y" "fst x * fst y"] assms by (simp add: fmul_def fval_def)

lemma fdiv_near:
  assumes "0 < snd x" "0 < fst y"
  shows "\<bar>fval (fdiv x y) - fval x / fval y\<bar> \<le> fval x / fval y / 2 ^ 53"
  using fl_error [of "snd x * fst y" "fst x * snd y"] assms by (simp add: fdiv_def fval_def)

lemma ftrunc_bounds:
  assumes "0 < snd x"
  shows "real (ftrunc x) \<le> fval x" "fval x - 1 < real (ftrunc x)"
proof -
  have "real (fst x div snd x) \<le> real (fst x) / real (snd x)" by (rule of_nat_div_le_of_nat)
  then show "real (ftrunc x) \<le> fval x" by (simp add: ftrunc_def fval_def)
  have "fst x < (fst x div snd x + 1) * snd x"
    using assms by (metis Suc_eq_plus1 dividend_less_div_times mult.commute mult_Suc_right add.commute)
  then have "real (fst x) < real ((fst x div snd x + 1) * snd x)" by (simp only: of_nat_less_iff)
  then have "real (fst x) / real (snd x) < real (fst x div snd x) + 1"
    using assms by (simp add: divide_less_eq algebra_simps)
  then show "fval x - 1 < real (ftrunc x)" by (simp add: ftrunc_def fval_def)
qed


lemma ftrunc_whole: "0 < snd x \<Longrightarrow> fval x = real k \<Longrightarrow> ftrunc x = k"
proof -
  assume "0 < snd x" "fval x = real k"
  then have "real (fst x) = real (k * snd x)" by (simp add: fval_def divide_eq_eq)
  then have "fst x = k * snd x" by (simp only: of_nat_eq_iff)
  then show "ftrunc x = k" using \<open>0 < snd x\<close> by (simp add: ftrunc_def)
qed

lemma le_fval: "0 < snd x \<Longrightarrow> k * snd x \<le> fst x \<longleftrightarrow> real k \<le> fval x"
  by (simp add: fval_def le_divide_eq flip: of_nat_mult)

lemma less_fval: "0 < snd x \<Longrightarrow> k * snd x < fst x \<longleftrightarrow> real k < fval x"
  by (simp add: fval_def less_divide_eq flip: of_nat_mult)

text \<open>Multiplying and dividing by a power of two is exact.\<close>

lemma fmul_power2:
  assumes "0 < snd x" "fval x = real k" "k < 2 ^ 53"
  shows "fval (fmul x (float_of (2 ^ j))) = real k * 2 ^ j"
proof -
  have f: "fval (float_of (2 ^ j)) = 2 ^ j"
    using fl_exact [of 1 "2 ^ j" 1 j] by (simp add: float_of_def)
  have "real (fst x * fst (float_of (2 ^ j))) / real (snd x * snd (float_of (2 ^ j))) = fval x * fval (float_of (2 ^ j))"
    by (simp add: fval_def)
  then show ?thesis
    using fl_exact [of "snd x * snd (float_of (2 ^ j))" "fst x * fst (float_of (2 ^ j))" k j] assms f
    by (simp add: fmul_def)
qed

lemma fdiv_power2:
  assumes "k < 2 ^ 53"
  shows "fval (fdiv (float_of k) (float_of (2 ^ j))) = real k / 2 ^ j"
proof -
  let ?x = "float_of k" and ?y = "float_of (2 ^ j)"
  have f: "fval ?y = 2 ^ j" using fl_exact [of 1 "2 ^ j" 1 j] by (simp add: float_of_def)
  then have y: "0 < fst ?y" by (metis fval_def div_0 gr0I of_nat_0 power_not_zero zero_neq_numeral)
  have "real (fst ?x * snd ?y) / real (snd ?x * fst ?y) = fval ?x / fval ?y" by (simp add: fval_def)
  also have "\<dots> = real k * 2 powi (- int j)"
    using float_of_exact [OF assms] f by (simp add: power_int_minus divide_inverse)
  finally show ?thesis
    using fl_exact [of "snd ?x * fst ?y" "fst ?x * snd ?y" k "- int j"] assms y
    by (simp add: fdiv_def power_int_minus divide_inverse)
qed

lemma fround_near: "0 < snd x \<Longrightarrow> \<bar>real (fround x) - fval x\<bar> \<le> 1 / 2"
  using round_div_near [of "snd x" "fst x"] by (simp add: fround_def fval_def)

end
