(* ===== verification/Memory_Config.thy ===== *)
theory Memory_Config
  imports Float64
begin

text \<open>
  How the operator sizes the heap and the page cache of a server from the memory limit of its
  container (src/internal/resources/memory\_config.go). The sizes are \<^verbatim>\<open>int64\<close> values, and the sums
  wrap around as Go's do; the shares of the limit are computed in \<^verbatim>\<open>float64\<close>.
\<close>

section \<open>64-bit integers and shares\<close>

definition int64 :: "int \<Rightarrow> int" where
  "int64 x = signed_take_bit 63 x"

lemma int64_id: "- (2 ^ 63) \<le> x \<Longrightarrow> x < 2 ^ 63 \<Longrightarrow> int64 x = x"
  by (simp add: int64_def signed_take_bit_int_eq_self)

text \<open>\<open>share m c\<close> is \<^verbatim>\<open>int64(float64(m) * c)\<close>; rounding and truncation are symmetric about 0.\<close>

definition share :: "int \<Rightarrow> float64 \<Rightarrow> int" where
  "share m c = sgn m * int (ftrunc (fmul (float_of (nat \<bar>m\<bar>)) c))"

text \<open>The constants of the source as \<^verbatim>\<open>float64\<close> values.\<close>

definition DefaultHeapPercentage :: float64 where
  "DefaultHeapPercentage = fl 5 10"

definition DefaultPageCachePercentage :: float64 where
  "DefaultPageCachePercentage = fl 25 100"

definition heap_share_526 :: float64 where
  "heap_share_526 = fl 6 10"

definition page_cache_share_526 :: float64 where
  "page_cache_share_526 = fl 3 10"

definition MinHeapSize :: int where
  "MinHeapSize = 256 * 1024 * 1024"

definition MaxHeapSize :: int where
  "MaxHeapSize = 31 * 1024 * 1024 * 1024"

definition MinPageCacheSize :: int where
  "MinPageCacheSize = 128 * 1024 * 1024"

definition SystemMemoryReserved :: int where
  "SystemMemoryReserved = 512 * 1024 * 1024"

definition MinSystemMemoryReserved :: int where
  "MinSystemMemoryReserved = 256 * 1024 * 1024"

definition DefaultMemoryLimit :: int where
  "DefaultMemoryLimit = 2 * 1024 * 1024 * 1024"


section \<open>The sizes\<close>

record MemoryConfig =
  HeapInitialSize :: string
  HeapMaxSize :: string
  PageCacheSize :: string

definition calculateSystemMemoryReserved :: "int \<Rightarrow> int" where
  "calculateSystemMemoryReserved memoryBytes =
     (if memoryBytes \<le> 2 * 1024 * 1024 * 1024 then MinSystemMemoryReserved else SystemMemoryReserved)"

text \<open>The limit of the container in bytes, as both calculations read it.\<close>

definition memory_limit :: "int option \<Rightarrow> int" where
  "memory_limit limit =
     (case limit of Some m \<Rightarrow> if m = 0 then DefaultMemoryLimit else m | None \<Rightarrow> DefaultMemoryLimit)"

text \<open>What is left when the shares do not fit: the sizes are cut to what the reservation leaves.\<close>

definition constrained_bytes :: "int \<Rightarrow> int \<Rightarrow> int \<times> int" where
  "constrained_bytes availableMemory heapBytes =
     (if availableMemory \<le> MinHeapSize + MinPageCacheSize then
        (if MinHeapSize + MinPageCacheSize > availableMemory then
           (let pageCacheBytes = int64 (availableMemory - MinHeapSize) in
            if pageCacheBytes \<le> 0 then
              (let heap = int64 (availableMemory - 64 * 1024 * 1024) in
               if heap < 0 then (MinHeapSize, 64 * 1024 * 1024) else (heap, 64 * 1024 * 1024))
            else (MinHeapSize, pageCacheBytes))
         else (MinHeapSize, MinPageCacheSize))
      else
        (let pageCacheBytes = int64 (availableMemory - heapBytes) in
         if pageCacheBytes < MinPageCacheSize then (int64 (availableMemory - MinPageCacheSize), MinPageCacheSize)
         else (heapBytes, pageCacheBytes)))"

definition optimal_bytes :: "int \<Rightarrow> int \<times> int" where
  "optimal_bytes memoryBytes =
     (let heapBytes = min MaxHeapSize (max MinHeapSize (share memoryBytes DefaultHeapPercentage));
          pageCacheBytes = max MinPageCacheSize (share memoryBytes DefaultPageCachePercentage);
          systemReserved = calculateSystemMemoryReserved memoryBytes;
          totalAllocated = int64 (int64 (heapBytes + pageCacheBytes) + systemReserved);
          (heap, page) =
            (if totalAllocated > memoryBytes
             then constrained_bytes (int64 (memoryBytes - systemReserved)) heapBytes
             else (heapBytes, pageCacheBytes))
      in (if heap < 0 then MinHeapSize else heap, if page < 0 then 64 * 1024 * 1024 else page))"

text \<open>\<^verbatim>\<open>%.0f\<close> of \<^verbatim>\<open>float64(bytes)/unit\<close>, and the decimal digits of a number.\<close>

definition whole_units :: "int \<Rightarrow> nat \<Rightarrow> nat" where
  "whole_units bytes unit = fround (fdiv (float_of (nat bytes)) (float_of unit))"

definition formatMemorySize :: "int \<Rightarrow> string" where
  "formatMemorySize b =
     (let bytes = max 0 b; KB = 1024; MB = KB * 1024; GB = MB * 1024 in
      if bytes \<ge> int GB then nat_str (whole_units bytes GB) @ ''G''
      else if bytes \<ge> int MB then nat_str (whole_units bytes MB) @ ''M''
      else if bytes \<ge> int KB then nat_str (whole_units bytes KB) @ ''K''
      else nat_str (nat bytes))"

definition config_of :: "int \<times> int \<Rightarrow> MemoryConfig" where
  "config_of hp =
     \<lparr>HeapInitialSize = formatMemorySize (fst hp), HeapMaxSize = formatMemorySize (fst hp),
      PageCacheSize = formatMemorySize (snd hp)\<rparr>"

definition CalculateOptimalMemorySettings :: "int option \<Rightarrow> MemoryConfig" where
  "CalculateOptimalMemorySettings limit = config_of (optimal_bytes (memory_limit limit))"

definition high_memory_bytes :: "int \<Rightarrow> int \<times> int" where
  "high_memory_bytes memoryBytes =
     (let heapBytes = max MinHeapSize (min MaxHeapSize (share memoryBytes heap_share_526));
          pageCacheBytes = max MinPageCacheSize (share memoryBytes page_cache_share_526);
          systemReserved = calculateSystemMemoryReserved memoryBytes;
          totalAllocated = int64 (int64 (heapBytes + pageCacheBytes) + systemReserved)
      in if totalAllocated > memoryBytes then
           (let ratio = fdiv (float_of (nat (int64 (memoryBytes - systemReserved))))
                             (float_of (nat (int64 (heapBytes + pageCacheBytes))))
            in (share heapBytes ratio, share pageCacheBytes ratio))
         else (heapBytes, pageCacheBytes))"

definition memory_bytes :: "int \<Rightarrow> int \<times> int" where
  "memory_bytes memoryBytes =
     (if memoryBytes \<ge> 4 * 1024 * 1024 * 1024 then high_memory_bytes memoryBytes
      else optimal_bytes memoryBytes)"

definition CalculateOptimalMemoryForNeo4j526Plus :: "int option \<Rightarrow> MemoryConfig" where
  "CalculateOptimalMemoryForNeo4j526Plus limit =
     (let baseConfig = CalculateOptimalMemorySettings limit; memoryBytes = memory_limit limit in
      if memoryBytes \<ge> 4 * 1024 * 1024 * 1024
      then (let hp = high_memory_bytes memoryBytes in
            baseConfig\<lparr>HeapInitialSize := formatMemorySize (fst hp), HeapMaxSize := formatMemorySize (fst hp),
                       PageCacheSize := formatMemorySize (snd hp)\<rparr>)
      else baseConfig)"


section \<open>What a share is worth\<close>

lemma share_bounds:
  assumes "0 \<le> m" "0 < snd c"
  shows "real_of_int (share m c) \<le> m * fval c * (1 + 1 / 2 ^ 53) ^ 2"
    "m * fval c * (1 - 1 / 2 ^ 53) ^ 2 - 1 < real_of_int (share m c)" "0 \<le> share m c"
proof -
  define x where "x = float_of (nat m)"
  define t where "t = fmul x c"
  have x: "\<bar>fval x - m\<bar> \<le> m / 2 ^ 53" using float_of_near [of "nat m"] assms(1) by (simp add: x_def)
  have px: "0 < snd x" by (simp add: x_def)
  note t = fmul_near [OF px assms(2), folded t_def]
  have pt: "0 < snd t" by (simp add: t_def)
  have sh: "real_of_int (share m c) = real (ftrunc t)"
  proof (cases "m = 0")
    case True
    then show ?thesis by (simp add: share_def t_def x_def float_of_def fmul_def fl_def ftrunc_def)
  qed (use assms(1) in \<open>simp add: share_def t_def x_def\<close>)
  have "fval t \<le> fval x * fval c * (1 + 1 / 2 ^ 53)" by (rule near_upper [OF t])
  also have "\<dots> \<le> m * (1 + 1 / 2 ^ 53) * fval c * (1 + 1 / 2 ^ 53)"
    by (intro mult_right_mono near_upper [OF x]) simp_all
  finally show "real_of_int (share m c) \<le> m * fval c * (1 + 1 / 2 ^ 53) ^ 2"
    using ftrunc_bounds(1) [OF pt] sh by (simp add: power2_eq_square mult_ac)
  have "m * (1 - 1 / 2 ^ 53) * fval c * (1 - 1 / 2 ^ 53) \<le> fval x * fval c * (1 - 1 / 2 ^ 53)"
    by (intro mult_right_mono near_lower [OF x]) simp_all
  also have "\<dots> \<le> fval t" by (rule near_lower [OF t])
  finally show "m * fval c * (1 - 1 / 2 ^ 53) ^ 2 - 1 < real_of_int (share m c)"
    using ftrunc_bounds(2) [OF pt] sh by (simp add: power2_eq_square mult_ac)
  show "0 \<le> share m c" using assms(1) by (simp add: share_def sgn_if)
qed


lemma constants_pos [simp]:
  "0 < snd DefaultHeapPercentage" "0 < snd DefaultPageCachePercentage"
  "0 < snd heap_share_526" "0 < snd page_cache_share_526"
  by (simp_all add: DefaultHeapPercentage_def DefaultPageCachePercentage_def heap_share_526_def
        page_cache_share_526_def fl_pos)

lemma constants_near:
  "\<bar>fval DefaultHeapPercentage - 1 / 2\<bar> \<le> 1 / 2 / 2 ^ 53"
  "\<bar>fval DefaultPageCachePercentage - 1 / 4\<bar> \<le> 1 / 4 / 2 ^ 53"
  "\<bar>fval heap_share_526 - 6 / 10\<bar> \<le> 6 / 10 / 2 ^ 53"
  "\<bar>fval page_cache_share_526 - 3 / 10\<bar> \<le> 3 / 10 / 2 ^ 53"
  using fl_error [of 10 5] fl_error [of 100 25] fl_error [of 10 6] fl_error [of 10 3]
  by (simp_all add: DefaultHeapPercentage_def DefaultPageCachePercentage_def heap_share_526_def
        page_cache_share_526_def)

text \<open>A share of a constant \<open>q\<close> is within \<open>2\<^sup>-\<^sup>5\<^sup>1\<close> of \<open>q m\<close>, up to the cut-off fraction.\<close>

lemma share_of:
  assumes "0 \<le> m" "0 < snd c" "\<bar>fval c - q\<bar> \<le> q / 2 ^ 53" "0 \<le> q"
  shows "real_of_int (share m c) \<le> m * q * (1 + 1 / 2 ^ 51)"
    "m * q * (1 - 1 / 2 ^ 51) - 1 < real_of_int (share m c)"
proof -
  have mq: "0 \<le> m * q" using assms(1,4) by simp
  have "real_of_int (share m c) \<le> m * fval c * (1 + 1 / 2 ^ 53) ^ 2" by (rule share_bounds(1) [OF assms(1,2)])
  also have "\<dots> \<le> m * (q * (1 + 1 / 2 ^ 53)) * (1 + 1 / 2 ^ 53) ^ 2"
    using near_upper [OF assms(3)] assms(1) by (intro mult_right_mono mult_left_mono) simp_all
  also have "\<dots> = m * q * (1 + 1 / 2 ^ 53) ^ 3" by (simp add: power2_eq_square power3_eq_cube mult_ac)
  also have "\<dots> \<le> m * q * (1 + 1 / 2 ^ 51)" by (intro mult_left_mono mq) (simp add: power3_eq_cube)
  finally show "real_of_int (share m c) \<le> m * q * (1 + 1 / 2 ^ 51)" .
  have "m * q * (1 - 1 / 2 ^ 51) \<le> m * q * (1 - 1 / 2 ^ 53) ^ 3"
    by (intro mult_left_mono mq) (simp add: power3_eq_cube)
  also have "\<dots> = m * (q * (1 - 1 / 2 ^ 53)) * (1 - 1 / 2 ^ 53) ^ 2"
    by (simp add: power2_eq_square power3_eq_cube mult_ac)
  also have "\<dots> \<le> m * fval c * (1 - 1 / 2 ^ 53) ^ 2"
    using near_lower [OF assms(3)] assms(1) by (intro mult_right_mono mult_left_mono) simp_all
  finally show "m * q * (1 - 1 / 2 ^ 51) - 1 < real_of_int (share m c)"
    using share_bounds(2) [OF assms(1,2)] by linarith
qed

lemmas share_facts =
  share_of [OF _ constants_pos(1) constants_near(1), simplified]
  share_of [OF _ constants_pos(2) constants_near(2), simplified]
  share_of [OF _ constants_pos(3) constants_near(3), simplified]
  share_of [OF _ constants_pos(4) constants_near(4), simplified]


section \<open>The sizes fit\<close>

lemmas memory_sizes = MinHeapSize_def MaxHeapSize_def MinPageCacheSize_def SystemMemoryReserved_def
  MinSystemMemoryReserved_def

text \<open>Sizes that meet the minimums and leave the reservation free.\<close>

definition fits :: "int \<Rightarrow> int \<times> int \<Rightarrow> bool" where
  "fits m hp \<longleftrightarrow>
     MinHeapSize \<le> fst hp \<and> fst hp \<le> MaxHeapSize \<and> MinPageCacheSize \<le> snd hp \<and>
     fst hp + snd hp + calculateSystemMemoryReserved m \<le> m"

lemma optimal_bytes_fits:
  assumes "2 ^ 30 \<le> m" "m < 2 ^ 63"
  shows "fits m (optimal_bytes m)"
proof -
  define h where "h = min MaxHeapSize (max MinHeapSize (share m DefaultHeapPercentage))"
  define p where "p = max MinPageCacheSize (share m DefaultPageCachePercentage)"
  define r where "r = calculateSystemMemoryReserved m"
  have "real_of_int (share m DefaultPageCachePercentage) \<le> m / 4 * (1 + 1 / 2 ^ 51)"
    using share_facts(3) [of m] assms(1) by simp
  also have "\<dots> < real_of_int (2 ^ 62)" using assms(2) by simp
  finally have "share m DefaultPageCachePercentage < 2 ^ 62" by linarith
  then have p: "MinPageCacheSize \<le> p" "p < 2 ^ 62" by (auto simp: p_def memory_sizes)
  have h: "MinHeapSize \<le> h" "h \<le> MaxHeapSize" by (auto simp: h_def memory_sizes)
  have r: "MinSystemMemoryReserved \<le> r" "r \<le> SystemMemoryReserved"
    "m \<le> 2 ^ 31 \<Longrightarrow> r = MinSystemMemoryReserved"
    by (auto simp: r_def calculateSystemMemoryReserved_def memory_sizes)
  have sum: "int64 (h + p) = h + p" "int64 (h + p + r) = h + p + r" "int64 (m - r) = m - r"
    using h p r assms by (auto intro!: int64_id simp: memory_sizes)
  have pos: "0 \<le> h" "0 \<le> p" "0 < MinHeapSize" "0 < MinPageCacheSize" using h p by (auto simp: memory_sizes)
  show ?thesis
  proof (cases "m < h + p + r")
    case False
    then have "optimal_bytes m = (h, p)"
      using pos by (simp add: optimal_bytes_def Let_def h_def [symmetric] p_def [symmetric] r_def [symmetric] sum)
    then show ?thesis using False h p by (simp add: fits_def r_def)
  next
    case True
    have avail: "MinHeapSize + MinPageCacheSize < m - r"
      using r assms(1) by (cases "m \<le> 2 ^ 31") (auto simp: memory_sizes)
    have "int64 (m - r - h) = m - r - h" "int64 (m - r - MinPageCacheSize) = m - r - MinPageCacheSize"
      using h r avail assms by (auto intro!: int64_id simp: memory_sizes)
    then have "constrained_bytes (m - r) h =
        (if m - r - h < MinPageCacheSize then (m - r - MinPageCacheSize, MinPageCacheSize) else (h, m - r - h))"
      using avail by (simp add: constrained_bytes_def Let_def)
    then have "optimal_bytes m =
        (if m - r - h < MinPageCacheSize then (m - r - MinPageCacheSize, MinPageCacheSize) else (h, m - r - h))"
      using True pos avail
      by (simp add: optimal_bytes_def Let_def h_def [symmetric] p_def [symmetric] r_def [symmetric] sum)
    then show ?thesis using h avail by (simp add: fits_def r_def [symmetric])
  qed
qed


text \<open>Scaling two sizes down by one ratio: their sum fits what is available, and neither loses more than an eighth.\<close>

lemma scaled_down:
  assumes "0 < a" "a < 2 ^ 40" "0 < h" "0 < p" "h + p < 2 ^ 40" "8 * a \<ge> 7 * (h + p)" "a < h + p"
    and ratio: "ratio = fdiv (float_of (nat a)) (float_of (nat (h + p)))"
  shows "share h ratio + share p ratio \<le> a" "share h ratio \<le> h"
    "3 * h - 4 \<le> 4 * share h ratio" "3 * p - 4 \<le> 4 * share p ratio"
proof -
  define q where "q = real_of_int a / (h + p)"
  have a: "fval (float_of (nat a)) = a" using assms by (subst float_of_exact) (auto simp: nat_less_iff)
  have s: "fval (float_of (nat (h + p))) = h + p" using assms by (subst float_of_exact) (auto simp: nat_less_iff)
  then have "0 < fst (float_of (nat (h + p)))" using assms(3,4)
    by (metis fval_def add_pos_pos div_by_0 divide_eq_0_iff gr0I of_int_0_less_iff of_nat_0 order_less_irrefl)
  then have near: "\<bar>fval ratio - q\<bar> \<le> q / 2 ^ 53"
    using fdiv_near [of "float_of (nat a)" "float_of (nat (h + p))"] a s by (simp add: ratio q_def)
  have pos: "0 < snd ratio" by (simp add: ratio)
  have q: "7 / 8 \<le> q" "q < 1" "0 \<le> q"
    using assms by (simp_all add: q_def le_divide_eq divide_less_eq)
  note sh = share_of [OF _ pos near q(3), of h] and sp = share_of [OF _ pos near q(3), of p]
  have "real_of_int (share h ratio + share p ratio) \<le> (h * q + p * q) * (1 + 1 / 2 ^ 51)"
    using sh(1) sp(1) assms(3,4) by (simp add: distrib_right)
  also have "h * q + p * q = a" using assms(3,4) unfolding q_def distrib_right [symmetric] by simp
  also have "real_of_int a * (1 + 1 / 2 ^ 51) < a + 1" using assms(2) by (simp add: algebra_simps)
  finally show "share h ratio + share p ratio \<le> a" by linarith
  have "real_of_int (share h ratio) \<le> h * q * (1 + 1 / 2 ^ 51)" using sh(1) assms(3) by simp
  also have "\<dots> \<le> h * 1 * (1 + 1 / 2 ^ 51)" using q(2) assms(3) by (intro mult_right_mono mult_left_mono) auto
  also have "\<dots> < h + 1" using assms(4,5) by (simp add: algebra_simps)
  finally show "share h ratio \<le> h" by linarith
  have low: "3 * x - 4 \<le> 4 * share x ratio" if "0 < x" for x
  proof -
    have "x * (3 / 4) \<le> x * q * (1 - 1 / 2 ^ 51)"
      using q(1) that by (simp add: mult.assoc)
    then have "x * (3 / 4) - 1 < real_of_int (share x ratio)"
      using share_of(2) [OF _ pos near q(3), of x] that by linarith
    then show ?thesis by linarith
  qed
  show "3 * h - 4 \<le> 4 * share h ratio" "3 * p - 4 \<le> 4 * share p ratio" by (simp_all add: low assms(3,4))
qed

lemma high_memory_bytes_fits:
  assumes "2 ^ 32 \<le> m" "m < 2 ^ 63"
  shows "fits m (high_memory_bytes m)"
proof -
  define h0 p0 where "h0 = share m heap_share_526" and "p0 = share m page_cache_share_526"
  have h0: "real_of_int h0 \<le> m * (6 / 10) * (1 + 1 / 2 ^ 51)" "m * (6 / 10) * (1 - 1 / 2 ^ 51) - 1 < real_of_int h0"
    using share_facts(5,6) [of m] assms(1) by (simp_all add: h0_def)
  have p0: "real_of_int p0 \<le> m * (3 / 10) * (1 + 1 / 2 ^ 51)" "m * (3 / 10) * (1 - 1 / 2 ^ 51) - 1 < real_of_int p0"
    using share_facts(7,8) [of m] assms(1) by (simp_all add: p0_def)
  have m: "real_of_int m < 2 ^ 63" "2 ^ 32 \<le> real_of_int m" using assms by simp_all
  have low: "2 ^ 31 \<le> h0" "2 ^ 30 \<le> p0" using h0(2) p0(2) m(2) by (simp_all add: algebra_simps)
  have high: "p0 < 2 ^ 62" using p0(1) m(1) by (simp add: algebra_simps)
  define h where "h = min MaxHeapSize h0"
  have h: "max MinHeapSize h = h" "2 ^ 31 \<le> h" "h \<le> MaxHeapSize" "h \<le> h0"
    using low(1) by (auto simp: h_def memory_sizes)
  have p: "max MinPageCacheSize p0 = p0" using low(2) by (auto simp: memory_sizes)
  have r: "calculateSystemMemoryReserved m = 2 ^ 29"
    using assms(1) by (simp add: calculateSystemMemoryReserved_def memory_sizes)
  have sum: "int64 (h + p0) = h + p0" "int64 (h + p0 + 2 ^ 29) = h + p0 + 2 ^ 29" "int64 (m - 2 ^ 29) = m - 2 ^ 29"
    using h low(2) high assms by (auto intro!: int64_id simp: memory_sizes)
  define ratio where "ratio = fdiv (float_of (nat (m - 2 ^ 29))) (float_of (nat (h + p0)))"
  have bytes: "high_memory_bytes m =
      (if h + p0 + 2 ^ 29 > m then (share h ratio, share p0 ratio) else (h, p0))"
    unfolding high_memory_bytes_def Let_def h0_def [symmetric] p0_def [symmetric] h_def [symmetric] h(1) p r sum
      ratio_def by simp
  show ?thesis
  proof (cases "h + p0 + 2 ^ 29 > m")
    case False
    then show ?thesis using h low(2) by (simp add: bytes fits_def r memory_sizes)
  next
    case True
    then have "real_of_int m < real_of_int h0 + real_of_int p0 + 2 ^ 29" using h(4) by simp
    then have small: "real_of_int m < 2 ^ 33" using h0(1) p0(1) by (simp add: algebra_simps)
    have "real_of_int (h0 + p0) \<le> m" using h0(1) p0(1) m(2) by (simp add: algebra_simps)
    then have s: "h + p0 \<le> m" using h(4) by linarith
    have "8 * (m - 2 ^ 29) \<ge> 7 * (h + p0)" using s assms(1) by simp
    note down = scaled_down [OF _ _ _ _ _ this, folded ratio_def, OF _ _ _ _ _ _ refl]
    show ?thesis using down low(2) h True small s assms by (simp add: bytes fits_def r memory_sizes)
  qed
qed

end
