(* ===== verification/Setting_Values.thy ===== *)
theory Setting_Values
  imports Float64
begin

text \<open>
  The values Neo4j reads from its configuration file, as the operator reads them before it applies
  a manifest (src/internal/validation/setting\_values.go): the table of typed settings, one reader
  per kind of value, the verdict, and the message that says what was expected. A string is the
  list of its bytes, so the Greek letter mu is the two bytes of its UTF-8 form.
\<close>

section \<open>Types of settings\<close>

datatype valueKind = booleanValue | integerValue | longValue | durationValue | byteSizeValue | enumValue

record settingType =
  kind :: valueKind
  minimum :: int
  hasMin :: bool
  zeroAllowed :: bool
  enum_values :: "string list"
  unit_name :: string
  example :: string

type_synonym bound = "settingType \<Rightarrow> settingType"

definition atLeast_n :: "int \<Rightarrow> bound" where
  "atLeast_n n t = t\<lparr>minimum := n, hasMin := True\<rparr>"

definition zeroOrAtLeast :: "int \<Rightarrow> bound" where
  "zeroOrAtLeast n t = t\<lparr>minimum := n, hasMin := True, zeroAllowed := True\<rparr>"

definition plain_type :: "valueKind \<Rightarrow> string \<Rightarrow> settingType" where
  "plain_type k e = \<lparr>kind = k, minimum = 0, hasMin = False, zeroAllowed = False, enum_values = [],
                     unit_name = [], example = e\<rparr>"

definition newType :: "valueKind \<Rightarrow> string \<Rightarrow> bound list \<Rightarrow> settingType" where
  "newType k e bounds = fold (\<lambda>b t. b t) bounds (plain_type k e)"

definition boolean :: settingType where
  "boolean = plain_type booleanValue ''true''"

definition integer :: "string \<Rightarrow> bound list \<Rightarrow> settingType" where
  "integer e bounds = newType integerValue e bounds"

definition long :: "string \<Rightarrow> string \<Rightarrow> bound list \<Rightarrow> settingType" where
  "long unit e bounds = (newType longValue e bounds)\<lparr>unit_name := unit\<rparr>"

definition duration :: "string \<Rightarrow> bound list \<Rightarrow> settingType" where
  "duration e bounds = newType durationValue e bounds"

definition byteSize :: "string \<Rightarrow> bound list \<Rightarrow> settingType" where
  "byteSize e bounds = newType byteSizeValue e bounds"

definition enum_of :: "string \<Rightarrow> string list \<Rightarrow> settingType" where
  "enum_of e vs = (plain_type enumValue e)\<lparr>enum_values := vs\<rparr>"

definition kibibyte :: int where
  "kibibyte = 2 ^ 10"

definition mebibyte :: int where
  "mebibyte = 2 ^ 20"

text \<open>\<^verbatim>\<open>time.Duration\<close> counts nanoseconds.\<close>

definition Microsecond :: int where "Microsecond = 1000"
definition Millisecond :: int where "Millisecond = 1000 * Microsecond"
definition Second :: int where "Second = 1000 * Millisecond"
definition Minute :: int where "Minute = 60 * Second"
definition Hour :: int where "Hour = 60 * Minute"

definition typedSettings :: "(string \<times> settingType) list" where
  "typedSettings = [
     (''server.memory.heap.initial_size'', byteSize ''4G'' []),
     (''server.memory.heap.max_size'', byteSize ''4G'' []),
     (''server.memory.pagecache.size'', byteSize ''2G'' []),
     (''dbms.memory.transaction.total.max'', byteSize ''2G'' [zeroOrAtLeast (10 * mebibyte)]),
     (''db.memory.transaction.total.max'', byteSize ''1G'' [zeroOrAtLeast (10 * mebibyte)]),
     (''db.memory.transaction.max'', byteSize ''256M'' [zeroOrAtLeast mebibyte]),
     (''db.tx_log.buffer.size'', long ''bytes'' ''1048576'' [atLeast_n (128 * kibibyte)]),
     (''db.tx_log.rotation.size'', byteSize ''256M'' [atLeast_n (128 * kibibyte)]),
     (''db.tx_log.preallocate'', boolean),
     (''db.checkpoint'', enum_of ''PERIODIC'' [''PERIODIC'', ''CONTINUOUS'', ''VOLUME'', ''VOLUMETRIC'']),
     (''db.checkpoint.interval.time'', duration ''15m'' []),
     (''db.checkpoint.interval.tx'', integer ''100000'' [atLeast_n 1]),
     (''db.checkpoint.interval.volume'', byteSize ''250M'' [atLeast_n kibibyte]),
     (''db.checkpoint.iops.limit'', integer ''600'' []),
     (''db.transaction.timeout'', duration ''60s'' []),
     (''db.transaction.concurrent.maximum'', integer ''1000'' []),
     (''db.transaction.bookmark_ready_timeout'', duration ''30s'' [atLeast_n Second]),
     (''db.lock.acquisition.timeout'', duration ''2m'' []),
     (''db.shutdown_transaction_end_timeout'', duration ''10s'' []),
     (''db.logs.query.enabled'', enum_of ''INFO'' [''OFF'', ''INFO'', ''VERBOSE'']),
     (''db.logs.query.threshold'', duration ''1s'' []),
     (''db.logs.query.transaction.enabled'', enum_of ''INFO'' [''OFF'', ''INFO'', ''VERBOSE'']),
     (''db.logs.query.transaction.threshold'', duration ''1s'' []),
     (''db.logs.query.parameter_logging_enabled'', boolean),
     (''db.logs.query.obfuscate_literals'', boolean),
     (''db.logs.query.plan_description_enabled'', boolean),
     (''db.logs.query.early_raw_logging_enabled'', boolean),
     (''db.logs.query.max_parameter_length'', integer ''1000'' []),
     (''server.bolt.thread_pool_min_size'', integer ''5'' []),
     (''server.bolt.thread_pool_max_size'', integer ''400'' []),
     (''server.bolt.thread_pool_keep_alive'', duration ''5m'' []),
     (''server.bolt.connection_keep_alive'', duration ''1m'' [atLeast_n Millisecond]),
     (''dbms.routing.enabled'', boolean),
     (''dbms.routing.default_router'', enum_of ''SERVER'' [''SERVER'', ''CLIENT'']),
     (''dbms.routing_ttl'', duration ''300s'' [atLeast_n Second]),
     (''dbms.security.auth_enabled'', boolean),
     (''dbms.security.auth_minimum_password_length'', integer ''12'' [atLeast_n 1]),
     (''dbms.security.auth_max_failed_attempts'', integer ''3'' [atLeast_n 0]),
     (''dbms.security.auth_lock_time'', duration ''5s'' []),
     (''dbms.security.allow_csv_import_from_file_urls'', boolean),
     (''db.store.files.preallocate'', boolean),
     (''db.memory.pagecache.warmup.enable'', boolean),
     (''dbms.usage_report.enabled'', boolean),
     (''server.logs.debug.enabled'', boolean),
     (''server.threads.worker_count'', integer ''8'' [atLeast_n 1]),
     (''server.memory.query_cache.per_db_cache_num_entries'', integer ''1000'' [atLeast_n 0])]"


section \<open>Reading a value\<close>

datatype verdict = valueAccepted | valueRefused | valueUnknown

record reading =
  verdict_of :: verdict
  amount_read :: int
  exact :: bool

definition refused :: reading where
  "refused = \<lparr>verdict_of = valueRefused, amount_read = 0, exact = False\<rparr>"

definition unknown :: reading where
  "unknown = \<lparr>verdict_of = valueUnknown, amount_read = 0, exact = False\<rparr>"

definition exactly :: "int \<Rightarrow> reading" where
  "exactly n = \<lparr>verdict_of = valueAccepted, amount_read = n, exact = True\<rparr>"

definition accepted :: reading where
  "accepted = \<lparr>verdict_of = valueAccepted, amount_read = 0, exact = False\<rparr>"

definition javaTrim :: "string \<Rightarrow> string" where
  "javaTrim s = trim_right (\<lambda>c. (of_char c :: nat) \<le> 32) (dropWhile (\<lambda>c. (of_char c :: nat) \<le> 32) s)"

definition isASCII :: "string \<Rightarrow> bool" where
  "isASCII s = list_all (\<lambda>c. (of_char c :: nat) \<le> 127) s"

definition readOneOf :: "string \<Rightarrow> string list \<Rightarrow> reading" where
  "readOneOf s vs =
     (if \<not> isASCII s then unknown
      else if list_ex (equal_fold s) vs then accepted else refused)"

definition readJavaInteger :: "string \<Rightarrow> nat \<Rightarrow> reading" where
  "readJavaInteger s bitSize =
     (if \<not> isASCII s then unknown
      else case parse_int bitSize s of None \<Rightarrow> refused | Some n \<Rightarrow> exactly n)"


subsection \<open>Durations\<close>

text \<open>The two letters mu that Java's lower-casing maps to one: U+03BC and U+039C.\<close>

definition small_mu :: string where
  "small_mu = map char_of [206 :: nat, 188]"

definition capital_mu :: string where
  "capital_mu = map char_of [206 :: nat, 156]"

text \<open>Every rune of the string is ASCII or a mu.\<close>

fun only_mu :: "string \<Rightarrow> bool" where
  "only_mu [] = True"
| "only_mu (c # cs) =
     (if (of_char c :: nat) \<le> 127 then only_mu cs
      else case cs of [] \<Rightarrow> False
           | c2 # rest \<Rightarrow> ([c, c2] = small_mu \<or> [c, c2] = capital_mu) \<and> only_mu rest)"

text \<open>\<^verbatim>\<open>strings.ToLower\<close> on such a string.\<close>

fun lower_mu :: "string \<Rightarrow> string" where
  "lower_mu [] = []"
| "lower_mu (c # cs) =
     (case cs of [] \<Rightarrow> [char_lower c]
      | c2 # rest \<Rightarrow> if [c, c2] = capital_mu then small_mu @ lower_mu rest else char_lower c # lower_mu cs)"

definition durationUnits :: "(string \<times> int) list" where
  "durationUnits =
     [(''ns'', 1), (''us'', Microsecond), (small_mu @ ''s'', Microsecond), (''ms'', Millisecond),
      (''s'', Second), (''m'', Minute), (''h'', Hour), (''d'', 24 * Hour)]"

definition MaxInt64 :: int where
  "MaxInt64 = 2 ^ 63 - 1"

definition duration_result :: "int \<Rightarrow> bool \<Rightarrow> reading" where
  "duration_result ns ex = (if ex then exactly (ns div Millisecond * Millisecond) else accepted)"

lemma parse_int_Nil [simp]: "parse_int w [] = None"
  by (simp add: parse_int_def parse_digits_def)

lemma pair_shortens:
  assumes "parse_int w (takeWhile P s) = Some n"
  shows "length (dropWhile Q (dropWhile P s)) < length s"
proof -
  have "takeWhile P s \<noteq> []" using assms by (metis option.distinct(1) parse_int_Nil)
  then have "length (dropWhile P s) < length s" by (rule length_dropWhile_less)
  then show ?thesis using length_dropWhile_le [of Q "dropWhile P s"] by simp
qed

text \<open>The loop: \<open>first\<close> is true in the first round only.\<close>

function (sequential) read_pairs :: "bool \<Rightarrow> int \<Rightarrow> bool \<Rightarrow> string \<Rightarrow> reading" where
  "read_pairs first ns ex [] = duration_result ns ex"
| "read_pairs first ns ex (c # s) =
     (let ds = takeWhile is_digit (c # s); rest = dropWhile is_digit (c # s) in
      case parse_int 32 ds of
        None \<Rightarrow> refused
      | Some amount \<Rightarrow>
          if rest = [] then (if first then exactly (amount * Second) else refused)
          else
            (let unit = takeWhile (\<lambda>c. \<not> is_digit c) rest; next_s = dropWhile (\<lambda>c. \<not> is_digit c) rest in
             case map_of durationUnits (lower_mu unit) of
               None \<Rightarrow> refused
             | Some factor \<Rightarrow>
                 if amount > (MaxInt64 - ns) div factor then read_pairs False ns False next_s
                 else read_pairs False (ns + amount * factor) ex next_s))"
  by pat_completeness auto
termination
proof (relation "measure (\<lambda>(_, _, _, s). length s)", goal_cases)
  case 1
  then show ?case by simp
next
  case (2 first ns ex c s ds rest amount unit next_s factor)
  then show ?case using pair_shortens [of 32 is_digit "c # s" amount "\<lambda>c. \<not> is_digit c"]
    by (simp only: in_measure case_prod_conv)
next
  case (3 first ns ex c s ds rest amount unit next_s factor)
  then show ?case using pair_shortens [of 32 is_digit "c # s" amount "\<lambda>c. \<not> is_digit c"]
    by (simp only: in_measure case_prod_conv)
qed

declare read_pairs.simps [simp del]

definition readNeo4jDuration :: "string \<Rightarrow> reading" where
  "readNeo4jDuration s =
     (if \<not> only_mu s then unknown
      else if s = [] \<or> \<not> is_digit (hd s) then refused
      else read_pairs True 0 True s)"


subsection \<open>Byte sizes\<close>

definition byteUnits :: "(string \<times> nat) list" where
  "byteUnits =
     [(''B'', 1),
      (''KiB'', 2 ^ 10), (''KB'', 2 ^ 10), (''K'', 2 ^ 10), (''kB'', 2 ^ 10), (''kb'', 2 ^ 10), (''k'', 2 ^ 10),
      (''MiB'', 2 ^ 20), (''MB'', 2 ^ 20), (''M'', 2 ^ 20), (''mB'', 2 ^ 20), (''mb'', 2 ^ 20), (''m'', 2 ^ 20),
      (''GiB'', 2 ^ 30), (''GB'', 2 ^ 30), (''G'', 2 ^ 30), (''gB'', 2 ^ 30), (''gb'', 2 ^ 30), (''g'', 2 ^ 30),
      (''TiB'', 2 ^ 40), (''TB'', 2 ^ 40),
      (''PiB'', 2 ^ 50), (''PB'', 2 ^ 50),
      (''EiB'', 2 ^ 60), (''EB'', 2 ^ 60)]"

definition javaWhitespace :: "char \<Rightarrow> bool" where
  "javaWhitespace c =
     (let n = (of_char c :: nat) in n = 32 \<or> 9 \<le> n \<and> n \<le> 13 \<or> 28 \<le> n \<and> n \<le> 31)"

text \<open>
  \<^verbatim>\<open>strconv.ParseFloat\<close> on digits with at most one decimal point: the decimal fraction,
  rounded; a value that rounds to \<open>2\<^sup>1\<^sup>0\<^sup>2\<^sup>4\<close> or more is out of range, and one below half of
  \<open>2\<^sup>-\<^sup>1\<^sup>0\<^sup>7\<^sup>4\<close> is 0.
\<close>

definition decimal_fraction :: "string \<Rightarrow> nat \<times> nat" where
  "decimal_fraction s =
     (let whole = takeWhile (\<lambda>c. c \<noteq> CHR ''.'') s; frac = drop (length whole + 1) s
      in (digits_val (whole @ frac), 10 ^ length frac))"

definition parse_float :: "string \<Rightarrow> float64 option" where
  "parse_float s =
     (let (n, d) = decimal_fraction s; x = fl n d in
      if n * 2 ^ 1075 \<le> d then Some (0, 1)
      else if fst x \<ge> 2 ^ 1024 * snd x then None else Some x)"

definition size_of_number :: "bool \<Rightarrow> string \<Rightarrow> nat \<Rightarrow> reading" where
  "size_of_number negative number factor =
     (if CHR '','' \<in> set number \<or> count_list number (CHR ''.'') > 1 then unknown
      else case parse_float number of
        None \<Rightarrow> unknown
      | Some x \<Rightarrow>
          if negative then (if fst x \<noteq> 0 then refused else exactly 0)
          else
            (let bytes = fmul x (float_of factor) in
             if fst bytes > 2 ^ 63 * snd bytes then refused
             else if fst bytes \<ge> 2 ^ 63 * snd bytes then exactly MaxInt64
             else exactly (int (ftrunc bytes))))"

definition number_char :: "char \<Rightarrow> bool" where
  "number_char c = (is_digit c \<or> c = CHR ''.'' \<or> c = CHR '','')"

definition may_be_exponent :: "string \<Rightarrow> bool" where
  "may_be_exponent unit =
     (case unit of e # c # _ \<Rightarrow> e = CHR ''E'' \<and> (is_digit c \<or> c = CHR ''-'') | _ \<Rightarrow> False)"

definition readNeo4jByteSize :: "string \<Rightarrow> reading" where
  "readNeo4jByteSize s =
     (if \<not> isASCII s \<or> has_prefix s ''NaN'' then unknown
      else
        (let negative = (s \<noteq> [] \<and> hd s = CHR ''-'');
             s1 = (if negative then tl s else s);
             number = takeWhile number_char s1
         in if \<not> list_ex is_digit number then refused
            else
              (let unit = takeWhile (\<lambda>c. \<not> javaWhitespace c) (dropWhile javaWhitespace (dropWhile number_char s1))
               in if unit = [] then size_of_number negative number 1
                  else if may_be_exponent unit then unknown
                  else case map_of byteUnits unit of
                         None \<Rightarrow> refused
                       | Some f \<Rightarrow> size_of_number negative number f)))"


section \<open>The verdict\<close>

definition neo4jTransformsValue :: "string \<Rightarrow> bool" where
  "neo4jTransformsValue value =
     (if list_ex (\<lambda>c. c = CHR 0x5C \<or> c = CHR 0x0A \<or> c = CHR 0x0D) value then True
      else let s = javaTrim value in length s > 3 \<and> has_prefix s ''$('' \<and> s \<noteq> [] \<and> last s = CHR '')'')"

definition read_value :: "settingType \<Rightarrow> string \<Rightarrow> reading" where
  "read_value t s =
     (case kind t of
        booleanValue \<Rightarrow> readOneOf s [''true'', ''false'']
      | enumValue \<Rightarrow> readOneOf s (enum_values t)
      | integerValue \<Rightarrow> readJavaInteger s 32
      | longValue \<Rightarrow> readJavaInteger s 64
      | durationValue \<Rightarrow> readNeo4jDuration s
      | byteSizeValue \<Rightarrow> readNeo4jByteSize s)"

definition accepts :: "settingType \<Rightarrow> string \<Rightarrow> bool" where
  "accepts t value =
     (if neo4jTransformsValue value then True
      else
        (let r = read_value t (javaTrim value) in
         if verdict_of r = valueUnknown then True
         else if verdict_of r = valueRefused then False
         else if \<not> exact r then True
         else if zeroAllowed t \<and> amount_read r = 0 then True
         else if hasMin t \<and> amount_read r < minimum t then False
         else True))"


section \<open>What the message says\<close>

fun first_unit :: "(string \<times> int) list \<Rightarrow> string \<Rightarrow> int \<Rightarrow> string" where
  "first_unit [] smallest n = itoa n @ smallest"
| "first_unit ((name, sz) # us) smallest n =
     (if n \<ge> sz \<and> n mod sz = 0 then itoa (n div sz) @ name else first_unit us smallest n)"

definition formatNeo4jBytes :: "int \<Rightarrow> string" where
  "formatNeo4jBytes n = first_unit [(''GiB'', 2 ^ 30), (''MiB'', 2 ^ 20), (''KiB'', 2 ^ 10)] ''B'' n"

definition formatNeo4jDuration :: "int \<Rightarrow> string" where
  "formatNeo4jDuration nanos =
     first_unit [(''h'', Hour), (''m'', Minute), (''s'', Second), (''ms'', Millisecond)] ''ns'' nanos"

definition long_dash :: string where
  "long_dash = map char_of [226 :: nat, 128, 148]"

definition whole_number_text :: "settingType \<Rightarrow> string" where
  "whole_number_text t =
     ''must be a whole number'' @ (if unit_name t \<noteq> [] then '' of '' @ unit_name t else [])
     @ (if hasMin t then '', at least '' @ itoa (minimum t) else [])"

definition expectation :: "settingType \<Rightarrow> string" where
  "expectation t =
     (case kind t of
        booleanValue \<Rightarrow> ''must be true or false (Neo4j reads it as a boolean)''
      | enumValue \<Rightarrow> ''must be one of '' @ join '', '' (enum_values t) @ '', in any case''
      | integerValue \<Rightarrow> whole_number_text t @ '' (Neo4j reads it as an integer)''
      | longValue \<Rightarrow> whole_number_text t @ '' (Neo4j reads it as a long, so a unit such as MiB is refused)''
      | durationValue \<Rightarrow>
          ''must be a duration'' @ (if hasMin t then '' of at least '' @ formatNeo4jDuration (minimum t) else [])
          @ '': a whole number with a unit '' @ long_dash @ '' ns, us, '' @ small_mu @ ''s, ms, s, m, h or d ''
          @ long_dash @ '' or several such as 1h30m, and a number without a unit is seconds (no decimals, spaces or ISO-8601)''
      | byteSizeValue \<Rightarrow>
          ''must be a byte size''
          @ (if hasMin t then '' of at least '' @ formatNeo4jBytes (minimum t) @ (if zeroAllowed t then '', or 0'' else [])
             else [])
          @ '': a number with an optional unit '' @ long_dash
          @ '' B, K, KB, KiB, kB, kb, k, M, MB, MiB, mB, mb, m, G, GB, GiB, gB, gb, g, TB, TiB, PB, PiB, EB or EiB, ''
          @ ''each a power of 1024 (Kubernetes suffixes such as Gi or Mi are not Neo4j units)'')
     @ '', for example '' @ example t"

text \<open>The errors: the key, the value and the detail, in the order of the keys.\<close>

definition ValidateSettingValues :: "(string \<times> string) list \<Rightarrow> (string \<times> string \<times> string) list" where
  "ValidateSettingValues config =
     concat (map (\<lambda>key. case (map_of typedSettings key, map_of config key) of
                          (Some t, Some v) \<Rightarrow> if accepts t v then [] else [(key, v, expectation t)]
                        | _ \<Rightarrow> [])
       (sorted_set (filter (\<lambda>key. map_of typedSettings key \<noteq> None) (map fst config))))"


section \<open>Whole sizes\<close>

lemma byte_unit:
  assumes "map_of byteUnits u = Some f"
  shows "isASCII u \<and> u \<noteq> [] \<and> \<not> number_char (hd u) \<and> list_all (\<lambda>c. \<not> javaWhitespace c) u \<and>
    \<not> may_be_exponent u \<and> hd u \<noteq> CHR ''-'' \<and> f = 2 ^ (floorlog 2 f - 1)"
proof -
  have "(u, f) \<in> set byteUnits" using assms by (rule map_of_SomeD)
  moreover have "list_all (\<lambda>(u, f). isASCII u \<and> u \<noteq> [] \<and> \<not> number_char (hd u) \<and>
      list_all (\<lambda>c. \<not> javaWhitespace c) u \<and> \<not> may_be_exponent u \<and> hd u \<noteq> CHR ''-'' \<and>
      f = 2 ^ (floorlog 2 f - 1)) byteUnits"
    by (simp add: byteUnits_def isASCII_def number_char_def is_digit_def javaWhitespace_def may_be_exponent_def
        compute_floorlog)
  ultimately show ?thesis by (auto simp: list_all_iff)
qed

lemma byte_unit_visible: "map_of byteUnits u = Some f \<Longrightarrow> list_all (\<lambda>c. 32 < (of_char c :: nat)) u"
proof -
  assume "map_of byteUnits u = Some f"
  then have "(u, f) \<in> set byteUnits" by (rule map_of_SomeD)
  moreover have "list_all (\<lambda>(u, f). list_all (\<lambda>c. 32 < (of_char c :: nat)) u) byteUnits"
    by (simp add: byteUnits_def)
  ultimately show ?thesis by (auto simp: list_all_iff)
qed

lemma digit_facts:
  assumes "is_digit c"
  shows "(of_char c :: nat) \<le> 127" "number_char c" "\<not> javaWhitespace c" "c \<noteq> CHR ''-''" "c \<noteq> CHR ''.''"
    "c \<noteq> CHR '',''" "c \<noteq> CHR ''N''" "32 < (of_char c :: nat)"
  using assms by (auto simp: is_digit_def number_char_def javaWhitespace_def Let_def)

lemma parse_float_nat_str:
  assumes "k < 2 ^ 53"
  obtains x where "parse_float (nat_str k) = Some x" "0 < snd x" "fval x = real k"
proof (cases "k = 0")
  case True
  have "decimal_fraction (nat_str 0) = (0, 1)"
    by (simp add: decimal_fraction_def nat_str.simps digits_val_def digit_char_def digit_val_def char_of_def)
  then show ?thesis using that [of "(0, 1)"] True by (simp add: parse_float_def fval_def)
next
  case False
  have w: "takeWhile (\<lambda>c. c \<noteq> CHR ''.'') (nat_str k) = nat_str k"
    using set_nat_str digit_facts(5) by (intro takeWhile_eq_all_conv [THEN iffD2]) blast
  have d: "decimal_fraction (nat_str k) = (k, 1)"
    by (simp add: decimal_fraction_def w Let_def nat_str_digits)
  have v: "fval (fl k 1) = real k" using fl_exact [of 1 k k 0] assms by simp
  have "real k < real (2 ^ 1024)" using assms by (intro of_nat_mono order_less_trans [of k "2 ^ 53" "2 ^ 1024"] of_nat_less_iff [THEN iffD2]) simp_all
  then have "\<not> 2 ^ 1024 * snd (fl k 1) \<le> fst (fl k 1)"
    using le_fval [OF fl_pos, of "2 ^ 1024" k 1] v by linarith
  then show ?thesis using that [of "fl k 1"] False v fl_pos by (simp add: parse_float_def d)
qed

text \<open>A whole number below \<open>2\<^sup>5\<^sup>3\<close> with a unit is read as the product; beyond \<open>2\<^sup>6\<^sup>3\<close> it is refused.\<close>

definition whole_size :: "nat \<Rightarrow> nat \<Rightarrow> reading" where
  "whole_size k f = (if 2 ^ 63 < k * f then refused else exactly (min MaxInt64 (int (k * f))))"

lemma whole_size_fits:
  assumes "k * f < 2 ^ 63"
  shows "whole_size k f = exactly (int (k * f))"
proof -
  have "int (k * f) < 2 ^ 63" using assms by (metis of_nat_less_iff of_nat_numeral of_nat_power)
  then have "min MaxInt64 (int (k * f)) = int (k * f)" by (simp add: MaxInt64_def del: of_nat_mult)
  then show ?thesis using assms by (simp only: whole_size_def) simp
qed

lemma size_of_whole_number:
  assumes "k < 2 ^ 53"
  shows "size_of_number False (nat_str k) (2 ^ j) = whole_size k (2 ^ j)"
proof -
  obtain x where x: "parse_float (nat_str k) = Some x" "0 < snd x" "fval x = real k"
    by (rule parse_float_nat_str [OF assms])
  define y where "y = fmul x (float_of (2 ^ j))"
  have y: "0 < snd y" "fval y = real (k * 2 ^ j)"
    using fmul_power2 [OF x(2,3) assms, of j] by (simp_all add: y_def)
  have cmp: "N * snd y < fst y \<longleftrightarrow> N < k * 2 ^ j" "N * snd y \<le> fst y \<longleftrightarrow> N \<le> k * 2 ^ j" for N
    using less_fval [OF y(1), of N] le_fval [OF y(1), of N] unfolding y(2) of_nat_less_iff of_nat_le_iff
    by simp_all
  have "CHR '','' \<notin> set (nat_str k)" "count_list (nat_str k) CHR ''.'' = 0"
    using set_nat_str [of _ k] digit_facts(5,6) by (auto simp: count_list_0_iff)
  then have "size_of_number False (nat_str k) (2 ^ j) =
      (if 2 ^ 63 < k * 2 ^ j then refused else if 2 ^ 63 \<le> k * 2 ^ j then exactly MaxInt64
       else exactly (int (k * 2 ^ j)))"
    using ftrunc_whole [OF y] by (simp add: size_of_number_def x(1) y_def [symmetric] Let_def cmp)
  moreover have "min MaxInt64 (int n) = (if 2 ^ 63 \<le> n then MaxInt64 else int n)" for n :: nat
    by (auto simp: MaxInt64_def min_def)
  ultimately show ?thesis by (simp only: whole_size_def split: if_split) simp
qed

lemma nat_str_chars:
  "isASCII (nat_str k)" "list_all number_char (nat_str k)" "list_ex is_digit (nat_str k)" "hd (nat_str k) \<noteq> CHR ''-''"
  "\<not> has_prefix (nat_str k @ u) ''NaN''"
proof -
  obtain c cs where c: "nat_str k = c # cs" "is_digit c" by (metis list.exhaust nat_str_hd nat_str_not_Nil)
  show "list_ex is_digit (nat_str k)" "hd (nat_str k) \<noteq> CHR ''-''" "\<not> has_prefix (nat_str k @ u) ''NaN''"
    using c digit_facts(4,7) by (auto simp: has_prefix_iff)
  show "isASCII (nat_str k)" "list_all number_char (nat_str k)"
    using set_nat_str digit_facts(1,2) unfolding isASCII_def list_all_iff by blast+
qed

lemma readNeo4jByteSize_number:
  assumes "isASCII u" "u = [] \<or> \<not> number_char (hd u)" "list_all (\<lambda>c. \<not> javaWhitespace c) u"
  shows "readNeo4jByteSize (nat_str k @ u) =
    (if u = [] then size_of_number False (nat_str k) 1
     else if may_be_exponent u then unknown
     else case map_of byteUnits u of None \<Rightarrow> refused | Some f \<Rightarrow> size_of_number False (nat_str k) f)"
proof -
  have all: "\<forall>c\<in>set (nat_str k). number_char c" using nat_str_chars(2) by (simp add: list_all_iff)
  have tk: "takeWhile number_char (nat_str k @ u) = nat_str k" "dropWhile number_char (nat_str k @ u) = u"
    using all assms(2) by (cases u; simp add: takeWhile_append2 dropWhile_append2)+
  have un: "takeWhile (\<lambda>c. \<not> javaWhitespace c) (dropWhile javaWhitespace u) = u"
    using assms(3) by (cases u) (auto simp: list_all_iff takeWhile_eq_all_conv)
  have ascii: "isASCII (nat_str k @ u)" using nat_str_chars(1) assms(1) by (simp add: isASCII_def)
  have pos: "(nat_str k @ u \<noteq> [] \<and> hd (nat_str k @ u) = CHR ''-'') = False" using nat_str_chars(4) [of k] by simp
  show ?thesis
    unfolding readNeo4jByteSize_def Let_def pos if_False tk un
    using ascii nat_str_chars(3,5) by simp
qed

lemma readNeo4jByteSize_whole:
  assumes "map_of byteUnits u = Some f \<or> u = [] \<and> f = 1" "k < 2 ^ 53"
  shows "readNeo4jByteSize (nat_str k @ u) = whole_size k f"
  using assms(1)
proof
  assume u: "map_of byteUnits u = Some f"
  note facts = byte_unit [OF u]
  show ?thesis
    using readNeo4jByteSize_number [of u k] facts u size_of_whole_number [OF assms(2), of "floorlog 2 f - 1"] by simp
next
  assume "u = [] \<and> f = 1"
  then show ?thesis
    using readNeo4jByteSize_number [of "[]" k] size_of_whole_number [OF assms(2), of 0] by (simp add: isASCII_def)
qed

text \<open>What the operator prints is a number and one of the units it tried, and the product is the amount.\<close>

lemma first_unit_cases:
  assumes "0 \<le> n" "\<forall>(name, sz)\<in>set us. 0 < sz"
  obtains name sz k where "(name, sz) \<in> set us" "first_unit us smallest n = nat_str k @ name" "int k * sz = n"
  | "first_unit us smallest n = nat_str (nat n) @ smallest" "\<forall>(name, sz)\<in>set us. \<not> (n \<ge> sz \<and> n mod sz = 0)"
  using assms(2)
proof (induction us arbitrary: thesis)
  case Nil
  show ?case using Nil.prems(2) assms(1) by simp
next
  case (Cons u us)
  obtain name sz where u: "u = (name, sz)" by fastforce
  show ?case
  proof (cases "n \<ge> sz \<and> n mod sz = 0")
    case True
    then have "0 \<le> n div sz" "n div sz * sz = n" using Cons.prems(3) u assms(1)
      by (auto simp: pos_imp_zdiv_nonneg_iff)
    then show ?thesis using True u by (intro Cons.prems(1) [of name sz "nat (n div sz)"]) auto
  next
    case False
    then have eq: "first_unit (u # us) smallest n = first_unit us smallest n" by (auto simp: u)
    show ?thesis
    proof (rule Cons.IH)
      show "thesis" if "(name, sz) \<in> set us" "first_unit us smallest n = nat_str k @ name" "int k * sz = n"
        for name sz k using Cons.prems(1) [of name sz k] that eq by simp
      show "thesis" if "first_unit us smallest n = nat_str (nat n) @ smallest"
        "\<forall>(name, sz)\<in>set us. \<not> (n \<ge> sz \<and> n mod sz = 0)"
        using Cons.prems(2) that eq False u by simp
    qed (use Cons.prems(3) in simp)
  qed
qed

lemma formatNeo4jBytes_shape:
  assumes "0 \<le> n"
  obtains k u f where "formatNeo4jBytes n = nat_str k @ u" "map_of byteUnits u = Some f" "int (k * f) = n"
proof -
  define us :: "(string \<times> int) list" where "us = [(''GiB'', 2 ^ 30), (''MiB'', 2 ^ 20), (''KiB'', 2 ^ 10)]"
  have fmt: "formatNeo4jBytes n = first_unit us ''B'' n" by (simp add: formatNeo4jBytes_def us_def)
  show ?thesis
  proof (rule first_unit_cases [of n us "''B''"])
    fix name sz k
    assume "(name, sz) \<in> set us" "first_unit us ''B'' n = nat_str k @ name" "int k * sz = n"
    then show ?thesis using that [of k name "nat sz"] fmt by (auto simp: byteUnits_def us_def)
  next
    assume "first_unit us ''B'' n = nat_str (nat n) @ ''B''"
    then show ?thesis using that [of "nat n" "''B''" 1] fmt assms by (simp add: byteUnits_def)
  qed (use assms in \<open>auto simp: us_def\<close>)
qed

text \<open>
  A byte size printed in a message is read back as itself, so the bound a message names is a value
  the check accepts.
\<close>

lemma formatNeo4jBytes_read_back:
  assumes "0 \<le> n" "n < 2 ^ 53"
  shows "readNeo4jByteSize (formatNeo4jBytes n) = exactly n"
proof -
  obtain k u f where k: "formatNeo4jBytes n = nat_str k @ u" "map_of byteUnits u = Some f" "int (k * f) = n"
    by (rule formatNeo4jBytes_shape [OF assms(1)])
  have "0 < f" using byte_unit [OF k(2)] by (metis zero_less_numeral zero_less_power)
  then have "k \<le> k * f" by simp
  also have kf: "k * f < 2 ^ 53" using k(3) assms(2) by (metis of_nat_less_iff of_nat_numeral of_nat_power)
  finally have "k < 2 ^ 53" .
  then show ?thesis
    using k kf readNeo4jByteSize_whole [of u f k] whole_size_fits [of k f] by (simp del: of_nat_mult)
qed


section \<open>Durations\<close>

lemmas time_units = Microsecond_def Millisecond_def Second_def Minute_def Hour_def

lemma duration_unit:
  assumes "map_of durationUnits u = Some f"
  shows "u \<noteq> [] \<and> list_all (\<lambda>c. \<not> is_digit c) u \<and> lower_mu u = u \<and> (\<forall>s. only_mu (u @ s) \<longleftrightarrow> only_mu s) \<and> 0 < f"
proof -
  have "(u, f) \<in> set durationUnits" using assms by (rule map_of_SomeD)
  moreover have "list_all (\<lambda>(u, f). u \<noteq> [] \<and> list_all (\<lambda>c. \<not> is_digit c) u \<and> lower_mu u = u \<and> 0 < f) durationUnits"
    by (simp add: durationUnits_def is_digit_def char_lower_def small_mu_def capital_mu_def time_units
        char_of_def bit_Suc_0_iff)
  moreover have "list_all (\<lambda>(u, f). \<forall>s. only_mu (u @ s) \<longleftrightarrow> only_mu s) durationUnits"
    by (simp add: durationUnits_def small_mu_def time_units)
  ultimately show ?thesis by (auto simp: list_all_iff)
qed

text \<open>The text of a list of amounts with their units, and what it is worth in nanoseconds.\<close>

definition duration_text :: "(nat \<times> string) list \<Rightarrow> string" where
  "duration_text ps = concat (map (\<lambda>(a, u). nat_str a @ u) ps)"

definition duration_sum :: "(nat \<times> string) list \<Rightarrow> int" where
  "duration_sum ps = (\<Sum>(a, u)\<leftarrow>ps. int a * the (map_of durationUnits u))"

definition duration_pairs :: "(nat \<times> string) list \<Rightarrow> bool" where
  "duration_pairs ps = list_all (\<lambda>(a, u). a < 2 ^ 31 \<and> map_of durationUnits u \<noteq> None) ps"

lemma duration_text_hd: "duration_text ps = [] \<or> is_digit (hd (duration_text ps))"
proof (cases ps)
  case (Cons p ps')
  obtain c cs where "nat_str (fst p) = c # cs" "is_digit c" by (metis list.exhaust nat_str_hd nat_str_not_Nil)
  then show ?thesis using Cons by (simp add: duration_text_def case_prod_beta)
qed (simp add: duration_text_def)

lemma duration_sum_nonneg: "duration_pairs ps \<Longrightarrow> 0 \<le> duration_sum ps"
  by (induction ps) (fastforce simp: duration_pairs_def duration_sum_def dest: duration_unit)+

lemma only_mu_text: "duration_pairs ps \<Longrightarrow> only_mu (duration_text ps)"
proof (induction ps)
  case (Cons p ps)
  obtain a u f where p: "p = (a, u)" "map_of durationUnits u = Some f"
    using Cons.prems by (auto simp: duration_pairs_def)
  have digits: "only_mu (ds @ s) \<longleftrightarrow> only_mu s" if "\<forall>c\<in>set ds. is_digit c" for ds s
    using that by (induction ds) (auto dest: digit_facts(1))
  show ?case using Cons p duration_unit [OF p(2)] digits [of "nat_str a"] set_nat_str
    by (auto simp: duration_text_def duration_pairs_def)
qed (simp add: duration_text_def)

lemma read_pair:
  assumes "a < 2 ^ 31" "map_of durationUnits u = Some f" "s = [] \<or> is_digit (hd s)" "0 \<le> ns" "ns + int a * f \<le> MaxInt64"
  shows "read_pairs first ns ex (nat_str a @ u @ s) = read_pairs False (ns + int a * f) ex s"
proof -
  obtain c cs where c: "nat_str a = c # cs" by (cases "nat_str a") auto
  note u = duration_unit [OF assms(2)]
  have nd: "\<not> is_digit (hd u)" "u \<noteq> []" using u by (cases u; auto)+
  have ds: "takeWhile is_digit (nat_str a @ u @ s) = nat_str a" "dropWhile is_digit (nat_str a @ u @ s) = u @ s"
    using nd set_nat_str by (cases u; simp add: takeWhile_append2 dropWhile_append2)+
  have un: "takeWhile (\<lambda>c. \<not> is_digit c) (u @ s) = u" "dropWhile (\<lambda>c. \<not> is_digit c) (u @ s) = s"
    using u assms(3) by (cases s; simp add: list_all_iff takeWhile_append2 dropWhile_append2)+
  have pi: "parse_int 32 (nat_str a) = Some (int a)" using assms(1) by (simp add: parse_int_nat_str)
  have "int a * f \<le> MaxInt64 - ns" using assms(5) by simp
  then have "int a \<le> (MaxInt64 - ns) div f"
    using u zdiv_mono1 [of "int a * f" "MaxInt64 - ns" f] by simp
  then show ?thesis
    using read_pairs.simps(2) [of first ns ex c "cs @ u @ s", folded append_Cons c] nd u
    by (simp add: ds un assms(2) pi Let_def)
qed

lemma read_pairs_text:
  assumes "duration_pairs ps" "0 \<le> ns" "ns + duration_sum ps \<le> MaxInt64"
  shows "read_pairs first ns ex (duration_text ps) = duration_result (ns + duration_sum ps) ex"
  using assms
proof (induction ps arbitrary: first ns)
  case Nil
  then show ?case by (simp add: duration_text_def duration_sum_def read_pairs.simps)
next
  case (Cons p ps)
  obtain a u f where p: "p = (a, u)" "map_of durationUnits u = Some f" "a < 2 ^ 31"
    using Cons.prems(1) by (auto simp: duration_pairs_def)
  have ps: "duration_pairs ps" using Cons.prems(1) by (simp add: duration_pairs_def)
  have sum: "duration_sum (p # ps) = int a * f + duration_sum ps" by (simp add: duration_sum_def p)
  have "read_pairs first ns ex (duration_text (p # ps)) = read_pairs False (ns + int a * f) ex (duration_text ps)"
    using read_pair [OF p(3,2) duration_text_hd Cons.prems(2), where ex = ex and first = first and ps1 = ps] Cons.prems(3)
      duration_sum_nonneg [OF ps] sum by (simp add: duration_text_def p(1))
  also have "\<dots> = duration_result (ns + int a * f + duration_sum ps) ex"
    using Cons.IH [OF ps, of "ns + int a * f"] Cons.prems(2,3) sum duration_unit [OF p(2)] by simp
  finally show ?case by (simp add: sum add.assoc)
qed

lemma read_duration_text:
  assumes "duration_pairs ps" "ps \<noteq> []" "duration_sum ps \<le> MaxInt64"
  shows "readNeo4jDuration (duration_text ps) = exactly (duration_sum ps div Millisecond * Millisecond)"
proof -
  have "duration_text ps \<noteq> []" using assms(2) by (cases ps) (auto simp: duration_text_def)
  then show ?thesis
    using duration_text_hd [of ps] only_mu_text [OF assms(1)] read_pairs_text [OF assms(1), of 0 True True] assms(3)
    by (auto simp: readNeo4jDuration_def duration_result_def)
qed

text \<open>
  A duration written as amounts with units is read as their sum, cut to milliseconds, whenever
  every amount is a 32-bit integer and the sum fits 64 bits.
\<close>

theorem readNeo4jDuration_of_text:
  assumes "duration_pairs ps" "ps \<noteq> []" "duration_sum ps \<le> MaxInt64"
  shows "readNeo4jDuration (duration_text ps) = exactly (duration_sum ps div Millisecond * Millisecond)"
  by (rule read_duration_text [OF assms])

theorem readNeo4jDuration_of_text_witness:
  "readNeo4jDuration (duration_text [(1, ''h''), (30, ''m''), (1500, ''us'')]) = exactly (5400001 * Millisecond)"
  using readNeo4jDuration_of_text [of "[(1, ''h''), (30, ''m''), (1500, ''us'')]"]
  by (simp add: duration_pairs_def duration_sum_def durationUnits_def small_mu_def time_units MaxInt64_def)

text \<open>A printed duration of whole milliseconds is read back as itself.\<close>

lemma formatNeo4jDuration_read_back:
  assumes "0 \<le> n" "n < 2 ^ 31 * Millisecond" "n mod Millisecond = 0"
  shows "readNeo4jDuration (formatNeo4jDuration n) = exactly n"
proof -
  define us where "us = [(''h'', Hour), (''m'', Minute), (''s'', Second), (''ms'', Millisecond)]"
  have fmt: "formatNeo4jDuration n = first_unit us ''ns'' n" by (simp add: formatNeo4jDuration_def us_def)
  obtain k u f where k: "formatNeo4jDuration n = nat_str k @ u" "map_of durationUnits u = Some f" "int k * f = n"
    "k < 2 ^ 31"
  proof (rule first_unit_cases [of n us "''ns''"])
    fix name sz k
    assume k: "(name, sz) \<in> set us" "first_unit us ''ns'' n = nat_str k @ name" "int k * sz = n"
    then have "map_of durationUnits name = Some sz" "Millisecond \<le> sz"
      by (auto simp: us_def durationUnits_def small_mu_def time_units)
    moreover from this have "int k * Millisecond \<le> n" using k(3) by (metis mult_left_mono of_nat_0_le_iff)
    then have "int k < 2 ^ 31" using assms(2) by (simp add: time_units)
    ultimately show ?thesis using that [of k name sz] k fmt by simp
  next
    assume n: "first_unit us ''ns'' n = nat_str (nat n) @ ''ns''" "\<forall>(name, sz)\<in>set us. \<not> (n \<ge> sz \<and> n mod sz = 0)"
    then have "n < Millisecond" using assms(3) by (auto simp: us_def)
    then have "n = 0" using assms(1,3) by simp
    then show ?thesis using that [of 0 "''ns''" 1] n(1) fmt by (simp add: durationUnits_def)
  qed (use assms in \<open>auto simp: us_def time_units\<close>)
  have "n \<le> MaxInt64" using assms(2) by (simp add: time_units MaxInt64_def)
  then show ?thesis
    using read_duration_text [of "[(k, u)]"] k assms(3)
    by (simp add: duration_text_def duration_sum_def duration_pairs_def mod_0_imp_dvd)
qed


text \<open>
  The bounds an error message names are read back as themselves: byte sizes below \<open>2\<^sup>5\<^sup>3\<close>, and
  durations of whole milliseconds that fit the amounts Neo4j reads.
\<close>

theorem printed_bounds_read_back:
  assumes "0 \<le> b" "b < 2 ^ 53" "0 \<le> n" "n < 2 ^ 31 * Millisecond" "n mod Millisecond = 0"
  shows "readNeo4jByteSize (formatNeo4jBytes b) = exactly b \<and> readNeo4jDuration (formatNeo4jDuration n) = exactly n"
  using formatNeo4jBytes_read_back [OF assms(1,2)] formatNeo4jDuration_read_back [OF assms(3,4,5)] by simp

theorem printed_bounds_read_back_witness:
  "readNeo4jByteSize (formatNeo4jBytes (10 * mebibyte)) = exactly (10 * mebibyte) \<and>
   readNeo4jDuration (formatNeo4jDuration (90 * Second)) = exactly (90 * Second)"
  using printed_bounds_read_back [of "10 * mebibyte" "90 * Second"] by (simp add: mebibyte_def time_units)

end
