(* ===== verification/Memory_Validator.thy ===== *)
theory Memory_Validator
  imports Memory_Config Setting_Values
begin

text \<open>
  The check that Neo4j's memory settings fit the container
  (src/internal/validation/memory\_validator.go), and how the sizes the operator derives itself
  (theory Memory\_Config) look to the reader of byte sizes (theory Setting\_Values). Amounts are
  \<^verbatim>\<open>int64\<close> values and their sums wrap around.
\<close>

section \<open>The check\<close>

type_synonym config = "string \<rightharpoonup> string"

text \<open>An entry that is not in the map reads as the empty string.\<close>

definition setting :: "config \<Rightarrow> string \<Rightarrow> string" where
  "setting c key = (case c key of None \<Rightarrow> [] | Some v \<Rightarrow> v)"

text \<open>The memory entries of a container's resources; an absent one reads as 0.\<close>

record ResourceRequirements =
  limits_memory :: int
  requests_memory :: int

datatype field_error =
    Required string string
  | Invalid string string string
  | InvalidConfig string config string

text \<open>\<^verbatim>\<open>%.1f\<close> of \<^verbatim>\<open>float64(bytes)/unit\<close>.\<close>

definition one_decimal :: "int \<Rightarrow> nat \<Rightarrow> string" where
  "one_decimal bytes unit =
     (let x = fdiv (float_of (nat bytes)) (float_of unit); tenths = round_div (10 * fst x) (snd x)
      in nat_str (tenths div 10) @ ''.'' @ nat_str (tenths mod 10))"

definition format_memory :: "int \<Rightarrow> string" where
  "format_memory bytes =
     (if bytes \<ge> 2 ^ 30 then one_decimal bytes (2 ^ 30) @ ''Gi''
      else if bytes \<ge> 2 ^ 20 then one_decimal bytes (2 ^ 20) @ ''Mi''
      else if bytes \<ge> 2 ^ 10 then one_decimal bytes (2 ^ 10) @ ''Ki''
      else itoa bytes @ ''b'')"

definition parseMemoryToBytes :: "string \<Rightarrow> int option" where
  "parseMemoryToBytes memoryStr =
     (if memoryStr = [] then Some 0
      else let r = readNeo4jByteSize (javaTrim memoryStr) in
           if verdict_of r \<noteq> valueAccepted \<or> \<not> exact r then None else Some (amount_read r))"

definition minEnterpriseMemoryBytes :: int where
  "minEnterpriseMemoryBytes = 1024 * 1024 * 1024"

definition heap_key :: string where "heap_key = ''server.memory.heap.max_size''"
definition page_cache_key :: string where "page_cache_key = ''server.memory.pagecache.size''"
definition transaction_key :: string where "transaction_key = ''dbms.memory.transaction.total.max''"

definition hasAnyMemorySetting :: "ResourceRequirements \<Rightarrow> config \<Rightarrow> bool" where
  "hasAnyMemorySetting resources c =
     (requests_memory resources > 0
      \<or> list_ex (\<lambda>k. setting c k \<noteq> []) [heap_key, page_cache_key, transaction_key])"

definition overhead :: "int \<Rightarrow> int" where
  "overhead containerMemoryBytes =
     (let systemOverhead = containerMemoryBytes div 4
      in if systemOverhead < 512 * 1024 * 1024 then 512 * 1024 * 1024 else systemOverhead)"

definition transaction_errors :: "string \<Rightarrow> int \<Rightarrow> int \<Rightarrow> field_error list" where
  "transaction_errors transactionMem heapBytes transactionBytes =
     (if transactionMem \<noteq> [] \<and> heapBytes > 0 \<and> transactionBytes > heapBytes
      then [Invalid (''spec.config.'' @ transaction_key) transactionMem
              (''transaction memory ('' @ format_memory transactionBytes @ '') cannot exceed heap size (''
               @ format_memory heapBytes @ '')'')]
      else [])"

definition fit_errors :: "config \<Rightarrow> int \<Rightarrow> int \<Rightarrow> int \<Rightarrow> field_error list" where
  "fit_errors c containerMemoryBytes heapBytes pageCacheBytes =
     (if int64 (int64 (heapBytes + pageCacheBytes) + overhead containerMemoryBytes) > containerMemoryBytes
      then [InvalidConfig ''spec.config'' c
              (''Neo4j memory configuration (heap: '' @ format_memory heapBytes @ '', pagecache: ''
               @ format_memory pageCacheBytes @ '') plus system overhead exceeds container memory limit (''
               @ format_memory containerMemoryBytes
               @ ''). Consider reducing memory settings or increasing container limits.'')]
      else [])"

definition floor_errors :: "string \<Rightarrow> string \<Rightarrow> string \<Rightarrow> int \<Rightarrow> int \<Rightarrow> field_error list" where
  "floor_errors key what value amount smallest =
     (if amount > 0 \<and> amount < smallest
      then [Invalid (''spec.config.'' @ key) value (what @ '' size must be at least '' @ format_memory smallest)]
      else [])"

definition validateNeo4jMemorySettings :: "config \<Rightarrow> int \<Rightarrow> string \<Rightarrow> string \<Rightarrow> string \<Rightarrow> field_error list" where
  "validateNeo4jMemorySettings c containerMemoryBytes neo4jHeap neo4jPageCache transactionMem =
     (case parseMemoryToBytes neo4jHeap of
        None \<Rightarrow> []
      | Some heapBytes \<Rightarrow>
          (case parseMemoryToBytes neo4jPageCache of
             None \<Rightarrow> []
           | Some pageCacheBytes \<Rightarrow>
               (case parseMemoryToBytes transactionMem of
                  None \<Rightarrow> []
                | Some transactionBytes \<Rightarrow>
                    transaction_errors transactionMem heapBytes transactionBytes
                    @ fit_errors c containerMemoryBytes heapBytes pageCacheBytes
                    @ floor_errors heap_key ''heap'' neo4jHeap heapBytes (256 * 1024 * 1024)
                    @ floor_errors page_cache_key ''page cache'' neo4jPageCache pageCacheBytes (128 * 1024 * 1024))))"

definition limit_path :: string where "limit_path = ''spec.resources.limits.memory''"

definition ValidateResourcesAndConfig :: "ResourceRequirements option \<Rightarrow> config \<Rightarrow> field_error list" where
  "ValidateResourcesAndConfig resources c =
     (case resources of
        None \<Rightarrow> []
      | Some r \<Rightarrow>
          (let containerMemoryBytes = limits_memory r in
           if containerMemoryBytes = 0 then
             (if hasAnyMemorySetting r c
              then [Required limit_path
                      (''set a memory limit: Neo4j Enterprise needs at least '' @ format_memory minEnterpriseMemoryBytes
                       @ '', and the operator sizes the JVM from this value'')]
              else [])
           else
             (let neo4jHeap = setting c heap_key; neo4jPageCache = setting c page_cache_key;
                  transactionMemory = setting c transaction_key;
                  errs = (if neo4jHeap \<noteq> [] \<or> neo4jPageCache \<noteq> [] \<or> transactionMemory \<noteq> []
                          then validateNeo4jMemorySettings c containerMemoryBytes neo4jHeap neo4jPageCache transactionMemory
                          else [])
              in if errs = [] \<and> containerMemoryBytes < minEnterpriseMemoryBytes
                 then errs @ [Invalid limit_path (format_memory containerMemoryBytes)
                                (''Neo4j Enterprise requires at least '' @ format_memory minEnterpriseMemoryBytes
                                 @ '' of memory'')]
                 else errs)))"

definition validateMemoryAllocation :: "int \<Rightarrow> int \<Rightarrow> field_error list" where
  "validateMemoryAllocation totalServers containerMemoryBytes =
     (let minMemoryForClusterSize = 2 * 1024 * 1024 * 1024 in
      if totalServers > 3 \<and> containerMemoryBytes < minMemoryForClusterSize
      then [Invalid limit_path (format_memory containerMemoryBytes)
              (''insufficient memory for cluster size ('' @ itoa totalServers @ '' servers). Current: ''
               @ format_memory containerMemoryBytes @ '', Required minimum: '' @ format_memory minMemoryForClusterSize)]
      else [])"

definition Validate_memory :: "ResourceRequirements option \<Rightarrow> config \<Rightarrow> int \<Rightarrow> field_error list" where
  "Validate_memory resources c totalServers =
     (let allErrs = ValidateResourcesAndConfig resources c in
      case resources of
        None \<Rightarrow> allErrs
      | Some r \<Rightarrow> if allErrs = [] \<and> limits_memory r > 0
                   then allErrs @ validateMemoryAllocation totalServers (limits_memory r) else allErrs)"


section \<open>What passes the check\<close>

text \<open>The amounts a configuration asks for: heap, page cache and transaction memory.\<close>

definition asks_for :: "config \<Rightarrow> int \<Rightarrow> int \<Rightarrow> int \<Rightarrow> bool" where
  "asks_for c h p t \<longleftrightarrow> parseMemoryToBytes (setting c heap_key) = Some h \<and>
     parseMemoryToBytes (setting c page_cache_key) = Some p \<and> parseMemoryToBytes (setting c transaction_key) = Some t"

definition in_int64 :: "reading \<Rightarrow> bool" where
  "in_int64 r \<longleftrightarrow> 0 \<le> amount_read r \<and> amount_read r \<le> MaxInt64"

lemma in_int64_basic [simp]: "in_int64 refused" "in_int64 unknown" "in_int64 (exactly n) \<longleftrightarrow> 0 \<le> n \<and> n \<le> MaxInt64"
  by (simp_all add: in_int64_def refused_def unknown_def exactly_def MaxInt64_def)

lemma ftrunc_int64: "\<not> 2 ^ 63 * snd x \<le> fst x \<Longrightarrow> int (ftrunc x) \<le> MaxInt64"
proof -
  assume "\<not> 2 ^ 63 * snd x \<le> fst x"
  then have "fst x < 2 ^ 63 * snd x" by (rule not_le_imp_less)
  then have "ftrunc x < 2 ^ 63" by (simp add: ftrunc_def less_mult_imp_div_less)
  then have "int (ftrunc x) < 2 ^ 63" by (metis of_nat_less_iff of_nat_numeral of_nat_power)
  then show ?thesis by (simp add: MaxInt64_def)
qed

lemma size_of_number_range: "in_int64 (size_of_number neg number f)"
  unfolding size_of_number_def Let_def
  using ftrunc_int64 by (simp split: option.split) (simp add: MaxInt64_def)

lemma read_size_range: "in_int64 (readNeo4jByteSize s)"
  by (simp add: readNeo4jByteSize_def Let_def size_of_number_range split: option.split)

lemma parseMemoryToBytes_range: "parseMemoryToBytes s = Some n \<Longrightarrow> 0 \<le> n \<and> n \<le> MaxInt64"
  using read_size_range [of "javaTrim s"]
  by (auto simp: parseMemoryToBytes_def Let_def MaxInt64_def in_int64_def split: if_splits)

lemma settings_accepted_iff:
  assumes "asks_for c h p t" "0 < m" "m < 2 ^ 63" "h + p < 2 ^ 62"
  shows "validateNeo4jMemorySettings c m (setting c heap_key) (setting c page_cache_key) (setting c transaction_key) = []
    \<longleftrightarrow> h + p + overhead m \<le> m \<and> (h = 0 \<or> 2 ^ 28 \<le> h) \<and> (p = 0 \<or> 2 ^ 27 \<le> p) \<and> (h = 0 \<or> t \<le> h)"
proof -
  have parse: "parseMemoryToBytes (setting c heap_key) = Some h" "parseMemoryToBytes (setting c page_cache_key) = Some p"
    "parseMemoryToBytes (setting c transaction_key) = Some t" using assms(1) by (auto simp: asks_for_def)
  note range = parse [THEN parseMemoryToBytes_range]
  have "overhead m < 2 ^ 62" "0 \<le> overhead m" using assms(2,3) by (auto simp: overhead_def Let_def)
  then have sum: "int64 (int64 (h + p) + overhead m) = h + p + overhead m"
    using range assms(4) by (simp add: int64_id)
  have empty: "setting c transaction_key = [] \<Longrightarrow> t = 0" using parse(3) by (simp add: parseMemoryToBytes_def)
  have "transaction_errors (setting c transaction_key) h t = [] \<longleftrightarrow> h = 0 \<or> t \<le> h"
    using range empty by (auto simp: transaction_errors_def)
  moreover have "floor_errors key what v n k = [] \<longleftrightarrow> n \<le> 0 \<or> k \<le> n" for key what v n k
    by (auto simp: floor_errors_def)
  ultimately show ?thesis
    using range by (auto simp: validateNeo4jMemorySettings_def parse fit_errors_def sum)
qed

text \<open>
  C32: On a limit that is set and settings that are absent or readable as byte sizes, with heap and
  page cache together below 2 ^ 62 bytes, the check passes exactly the configurations that fit: the
  limit is at least 1 GiB and, where any of the settings is given, heap and page cache leave a quarter
  of the limit free and at least 512 MiB, each is zero or not below its minimum of 256 and 128 MiB,
  and the transactions get no more than the heap.
\<close>

theorem memory_check_exact:
  assumes "asks_for c h p t" "0 < limits_memory r" "limits_memory r < 2 ^ 63" "h + p < 2 ^ 62"
  shows "ValidateResourcesAndConfig (Some r) c = [] \<longleftrightarrow>
    2 ^ 30 \<le> limits_memory r \<and>
    (setting c heap_key = [] \<and> setting c page_cache_key = [] \<and> setting c transaction_key = [] \<or>
     h + p + limits_memory r div 4 \<le> limits_memory r \<and> h + p + 512 * 2 ^ 20 \<le> limits_memory r \<and>
     (h = 0 \<or> 256 * 2 ^ 20 \<le> h) \<and> (p = 0 \<or> 128 * 2 ^ 20 \<le> p) \<and> (h = 0 \<or> t \<le> h))"
proof -
  have "h + p + overhead m \<le> m \<longleftrightarrow> h + p + m div 4 \<le> m \<and> h + p + 512 * 2 ^ 20 \<le> m" for m
    by (auto simp: overhead_def Let_def)
  then show ?thesis
    using settings_accepted_iff [OF assms] assms(2)
    by (auto simp: ValidateResourcesAndConfig_def Let_def minEnterpriseMemoryBytes_def)
qed


definition memory_config_example :: config where
  "memory_config_example = [heap_key \<mapsto> ''2G'', page_cache_key \<mapsto> ''1G'']"

lemma parse_whole_size:
  assumes "map_of byteUnits u = Some f" "k < 2 ^ 53" "k * f < 2 ^ 63"
  shows "parseMemoryToBytes (nat_str k @ u) = Some (int (k * f))"
proof -
  have "32 < (of_char c :: nat)" if "c \<in> set (nat_str k) \<or> c \<in> set u" for c
    using that
  proof
    assume "c \<in> set (nat_str k)"
    then show ?thesis by (rule digit_facts(8) [OF set_nat_str])
  next
    assume "c \<in> set u"
    then show ?thesis using byte_unit_visible [OF assms(1)] by (simp add: list_all_iff)
  qed
  then have "\<forall>c\<in>set (nat_str k @ u). \<not> (of_char c :: nat) \<le> 32" by (simp add: linorder_not_le)
  then have "dropWhile (\<lambda>c. (of_char c :: nat) \<le> 32) (nat_str k @ u) = nat_str k @ u"
    "dropWhile (\<lambda>c. (of_char c :: nat) \<le> 32) (rev (nat_str k @ u)) = rev (nat_str k @ u)"
    by (simp_all only: dropWhile_none set_rev)
  then have trim: "javaTrim (nat_str k @ u) = nat_str k @ u"
    by (simp only: javaTrim_def trim_right_def rev_rev_ident)
  then show ?thesis
    using readNeo4jByteSize_whole [OF disjI1 [OF assms(1)] assms(2)] whole_size_fits [OF assms(3)]
    by (simp add: parseMemoryToBytes_def exactly_def Let_def del: of_nat_mult)
qed

theorem memory_check_exact_witness:
  "asks_for memory_config_example (2 ^ 31) (2 ^ 30) 0 \<and>
   ValidateResourcesAndConfig (Some \<lparr>limits_memory = 2 ^ 32, requests_memory = 0\<rparr>) memory_config_example = []"
proof -
  let ?r = "\<lparr>limits_memory = 2 ^ 32, requests_memory = 0\<rparr>"
  have "setting memory_config_example heap_key = nat_str 2 @ ''G''"
    "setting memory_config_example page_cache_key = nat_str 1 @ ''G''"
    "setting memory_config_example transaction_key = []"
    by (simp_all add: setting_def memory_config_example_def heap_key_def page_cache_key_def transaction_key_def
        nat_str.simps digit_char_def char_of_def bit_Suc_0_iff)
  then have "asks_for memory_config_example (2 ^ 31) (2 ^ 30) 0"
    using parse_whole_size [of "''G''" "2 ^ 30" 2] parse_whole_size [of "''G''" "2 ^ 30" 1]
    by (simp add: asks_for_def byteUnits_def) (simp add: parseMemoryToBytes_def)
  then show ?thesis
    using memory_check_exact [of memory_config_example "2 ^ 31" "2 ^ 30" 0 ?r] by simp
qed


section \<open>The sizes the operator derives\<close>

text \<open>The unit a size is printed in.\<close>

definition size_unit :: "int \<Rightarrow> int" where
  "size_unit b = (if b \<ge> 2 ^ 30 then 2 ^ 30 else if b \<ge> 2 ^ 20 then 2 ^ 20 else if b \<ge> 2 ^ 10 then 2 ^ 10 else 1)"

lemma whole_units_near:
  assumes "0 \<le> b" "b < 2 ^ 53"
  shows "2 * \<bar>int (whole_units b (2 ^ j)) * 2 ^ j - b\<bar> \<le> 2 ^ j"
proof -
  define k where "k = whole_units b (2 ^ j)"
  have n: "nat b < 2 ^ 53" using assms by (simp add: nat_less_iff)
  have "\<bar>real k - real (nat b) / 2 ^ j\<bar> \<le> 1 / 2"
    using fround_near [of "fdiv (float_of (nat b)) (float_of (2 ^ j))"] fdiv_power2 [OF n, of j]
    by (simp add: k_def whole_units_def)
  then have "\<bar>real k - real (nat b) / 2 ^ j\<bar> * 2 ^ j \<le> 1 / 2 * 2 ^ j" by (intro mult_right_mono) auto
  moreover have "\<bar>real k - real (nat b) / 2 ^ j\<bar> * 2 ^ j = \<bar>real k * 2 ^ j - real (nat b)\<bar>"
    by (subst abs_mult_pos) (simp_all add: left_diff_distrib)
  ultimately have "\<bar>real k * 2 ^ j - real (nat b)\<bar> \<le> 1 / 2 * 2 ^ j" by (simp only:)
  then have "real_of_int (2 * \<bar>int k * 2 ^ j - b\<bar>) \<le> real_of_int (2 ^ j)" using assms(1) by simp
  then show ?thesis unfolding k_def of_int_le_iff .
qed


lemma formatMemorySize_shape:
  assumes "0 \<le> b" "b < 2 ^ 53"
  obtains k u f where "formatMemorySize b = nat_str k @ u" "map_of byteUnits u = Some f \<or> u = [] \<and> f = 1"
    "int f = size_unit b" "2 * \<bar>int k * int f - b\<bar> \<le> int f"
proof -
  have b: "max 0 b = b" using assms by simp
  consider "b \<ge> 2 ^ 30" | "b < 2 ^ 30" "b \<ge> 2 ^ 20" | "b < 2 ^ 20" "b \<ge> 2 ^ 10" | "b < 2 ^ 10" by linarith
  then show ?thesis
  proof cases
    case 1
    then show ?thesis using that [of "whole_units b (2 ^ 30)" "''G''" "2 ^ 30"] whole_units_near [OF assms, of 30]
      by (simp add: formatMemorySize_def b byteUnits_def size_unit_def)
  next
    case 2
    then show ?thesis using that [of "whole_units b (2 ^ 20)" "''M''" "2 ^ 20"] whole_units_near [OF assms, of 20]
      by (simp add: formatMemorySize_def b byteUnits_def size_unit_def)
  next
    case 3
    then show ?thesis using that [of "whole_units b (2 ^ 10)" "''K''" "2 ^ 10"] whole_units_near [OF assms, of 10]
      by (simp add: formatMemorySize_def b byteUnits_def size_unit_def)
  next
    case 4
    then show ?thesis using that [of "nat b" "[]" 1] assms(1)
      by (simp add: formatMemorySize_def b size_unit_def)
  qed
qed

text \<open>
  Neo4j reads a derived size as within half a printing unit of the bytes it was derived from.
\<close>

theorem derived_size_read_back:
  assumes "0 \<le> b" "b < 2 ^ 53"
  shows "\<exists>n. readNeo4jByteSize (formatMemorySize b) = exactly n \<and> 2 * \<bar>n - b\<bar> \<le> size_unit b"
proof -
  obtain k u f where k: "formatMemorySize b = nat_str k @ u" "map_of byteUnits u = Some f \<or> u = [] \<and> f = 1"
    "int f = size_unit b" "2 * \<bar>int k * int f - b\<bar> \<le> int f" by (rule formatMemorySize_shape [OF assms])
  have f: "int f \<le> 2 ^ 30" "0 < int f" using k(3) by (auto simp: size_unit_def)
  define n where "n = int k * int f"
  have n: "n < 2 ^ 53 + 2 ^ 30" using k(4) f(1) assms(2) abs_ge_self [of "n - b"] unfolding n_def [symmetric] by simp
  then have "int (k * f) < int (2 ^ 63)" by (simp add: n_def)
  then have kf: "k * f < 2 ^ 63" by (simp only: of_nat_less_iff)
  have "int k < 2 ^ 53"
  proof (cases "f = 1")
    case True
    then have "int k = b" using k(4) by (simp, presburger)
    then show ?thesis using assms(2) by simp
  next
    case False
    then have "2 \<le> int f" using f(2) by simp
    then have "int k * 2 \<le> n" unfolding n_def by (intro mult_left_mono) auto
    then show ?thesis using n by simp
  qed
  then have "k < 2 ^ 53" by simp
  then have "readNeo4jByteSize (formatMemorySize b) = exactly n"
    using readNeo4jByteSize_whole [OF k(2)] whole_size_fits [OF kf] by (simp add: k(1) n_def)
  then show ?thesis using k(3,4) by (auto simp: n_def)
qed


theorem derived_size_read_back_witness:
  "\<exists>n. readNeo4jByteSize (formatMemorySize (3 * 2 ^ 29)) = exactly n \<and> 2 * \<bar>n - 3 * 2 ^ 29\<bar> \<le> 2 ^ 30"
  using derived_size_read_back [of "3 * 2 ^ 29"] by (simp add: size_unit_def)



text \<open>
  Printed, they may exceed it: at 6 GiB the heap of 3.6 GiB is printed \<open>4G\<close> and the page cache of
  1.8 GiB \<open>2G\<close>, which is the whole limit. The check of the same repository refuses that pair.
\<close>

lemma printed_sizes_take_the_whole_limit:
  "CalculateOptimalMemoryForNeo4j526Plus (Some (6 * 2 ^ 30)) =
     \<lparr>HeapInitialSize = ''4G'', HeapMaxSize = ''4G'', PageCacheSize = ''2G''\<rparr>"
  by (simp add: CalculateOptimalMemoryForNeo4j526Plus_def CalculateOptimalMemorySettings_def memory_limit_def
      high_memory_bytes_def calculateSystemMemoryReserved_def memory_sizes share_def page_cache_share_526_def
      heap_share_526_def float_eval int64_def formatMemorySize_def whole_units_def nat_str.simps digit_char_def
      char_of_def config_of_def bit_Suc_0_iff)

lemma printed_sizes_are_refused:
  assumes "c heap_key = Some ''4G''" "c page_cache_key = Some ''2G''" "c transaction_key = None"
  shows "ValidateResourcesAndConfig (Some \<lparr>limits_memory = 6 * 2 ^ 30, requests_memory = 0\<rparr>) c \<noteq> []"
proof -
  have n: "nat_str 4 = ''4''" "nat_str 2 = ''2''"
    by (simp_all add: nat_str.simps digit_char_def char_of_def bit_Suc_0_iff)
  have "parseMemoryToBytes ''4G'' = Some (2 ^ 32)" "parseMemoryToBytes ''2G'' = Some (2 ^ 31)" "parseMemoryToBytes [] = Some 0"
    using parse_whole_size [of "''G''" "2 ^ 30" 4] parse_whole_size [of "''G''" "2 ^ 30" 2]
    by (simp_all add: n byteUnits_def) (simp add: parseMemoryToBytes_def)
  then have "asks_for c (2 ^ 32) (2 ^ 31) 0" using assms by (simp add: asks_for_def setting_def)
  then show ?thesis
    using settings_accepted_iff [of c "2 ^ 32" "2 ^ 31" 0 "6 * 2 ^ 30"] assms
    by (auto simp: ValidateResourcesAndConfig_def Let_def setting_def overhead_def)
qed

text \<open>
  The sum the check compares wraps around: a heap and a page cache of \<open>8EB\<close> each pass beside a
  limit of 4 GiB, because their sum is \<open>- 2\<close> in 64 bits.
\<close>

lemma oversized_settings_pass:
  assumes "c heap_key = Some ''8EB''" "c page_cache_key = Some ''8EB''" "c transaction_key = None"
  shows "ValidateResourcesAndConfig (Some \<lparr>limits_memory = 2 ^ 32, requests_memory = 0\<rparr>) c = []"
proof -
  have s: "''8EB'' = nat_str 8 @ ''EB''" by (simp add: nat_str.simps digit_char_def char_of_def bit_Suc_0_iff)
  have "readNeo4jByteSize ''8EB'' = exactly MaxInt64"
    unfolding s using readNeo4jByteSize_whole [of "''EB''" "2 ^ 60" 8]
    by (simp add: byteUnits_def whole_size_def MaxInt64_def)
  moreover have "javaTrim ''8EB'' = ''8EB''" by (simp add: javaTrim_def trim_right_def)
  ultimately have p: "parseMemoryToBytes ''8EB'' = Some MaxInt64" "parseMemoryToBytes [] = Some 0"
    by (simp_all add: parseMemoryToBytes_def exactly_def)
  have "int64 (int64 (MaxInt64 + MaxInt64) + overhead (2 ^ 32)) = 2 ^ 30 - 2"
    by (simp add: int64_def MaxInt64_def overhead_def)
  then have "validateNeo4jMemorySettings c (2 ^ 32) ''8EB'' ''8EB'' [] = []"
    by (simp add: validateNeo4jMemorySettings_def p fit_errors_def transaction_errors_def floor_errors_def) (simp add: MaxInt64_def)
  then show ?thesis using assms
    by (simp add: ValidateResourcesAndConfig_def Let_def setting_def minEnterpriseMemoryBytes_def)
qed

end
