(* ===== verification/Recreate.thy ===== *)
theory Recreate
  imports Status_Writes
begin

text \<open>
  A StatefulSet that a storage expansion deleted is created again as it was
  (src/internal/controller/statefulset\_recreate.go, and the create branch and the second step of
  \<^verbatim>\<open>createOrUpdateResourceInternal\<close> in neo4jenterprisecluster\_controller.go).

  The pod template is a type variable: this code only moves templates around. What the API server
  answers for a ControllerRevision (\<open>read_revision\<close>), and the merge of the Fleet Management plugin
  into a template (\<open>fleet\<close>), are arguments. The records of owned template items and the template
  hash, annotations of other names, are not modelled.
\<close>

section \<open>The StatefulSet and what is kept of a deleted one\<close>

record 't server_set =
  ssNamespace :: string
  ssName :: string
  ssUID :: string                      \<comment> \<open>empty until the API server has created it\<close>
  ssOwners :: "string list"
  ssAnnotations :: "string \<rightharpoonup> string"
  ssReplicas :: "int option"
  ssRolling :: "int option option"     \<comment> \<open>updateStrategy.rollingUpdate and its partition\<close>
  ssTemplate :: 't
  ssClaimSize :: int                   \<comment> \<open>the size its claim template asks for\<close>
  ssGeneration :: int
  ssObservedGeneration :: int
  ssCurrentRevision :: string
  ssUpdateRevision :: string


record 't recreateSource =
  srcTemplate :: 't
  srcReplicas :: "int option"
  srcStrategy :: "int option option option"
  srcAnnotations :: "string \<rightharpoonup> string"
  srcUpdateRevision :: string
  srcCurrentRevision :: string

type_synonym 't deletedStatefulSets = "string \<rightharpoonup> 't server_set"

definition statefulSetKey :: "string \<Rightarrow> string \<Rightarrow> string" where
  "statefulSetKey namespace name = namespace @ ''/'' @ name"

definition remember_set :: "'t server_set \<Rightarrow> 't deletedStatefulSets \<Rightarrow> 't deletedStatefulSets" where
  "remember_set sts d = d(statefulSetKey (ssNamespace sts) (ssName sts) \<mapsto> sts)"

definition forget_set :: "string \<Rightarrow> string \<Rightarrow> 't deletedStatefulSets \<Rightarrow> 't deletedStatefulSets" where
  "forget_set namespace name d = d(statefulSetKey namespace name := None)"

definition ownedBy :: "'t server_set \<Rightarrow> string \<Rightarrow> bool" where
  "ownedBy sts uid = list_ex (\<lambda>ref. ref = uid) (ssOwners sts)"

definition remembered :: "'t deletedStatefulSets \<Rightarrow> string \<Rightarrow> string \<Rightarrow> string \<Rightarrow> 't server_set option" where
  "remembered d namespace name ownerUID =
     (case d (statefulSetKey namespace name) of
        None \<Rightarrow> None
      | Some prev \<Rightarrow> if ownerUID \<noteq> [] \<and> \<not> ownedBy prev ownerUID then None else Some prev)"


section \<open>Where the new one comes from\<close>

text \<open>The lowest and the highest ordinal of the pods that carry a revision, \<open>- 1\<close> for none.\<close>

type_synonym orphanRevision = "int \<times> string"

definition orphan_step :: "string \<Rightarrow> pod \<Rightarrow> orphanRevision \<times> orphanRevision \<Rightarrow> orphanRevision \<times> orphanRevision" where
  "orphan_step name p found =
     (let (lowest, highest) = found in
      case statefulSetOrdinal name (podName p) of
        None \<Rightarrow> found
      | Some ordinal \<Rightarrow>
          if podDeleting p \<or> podRevision p = [] then found
          else (if fst lowest < 0 \<or> ordinal < fst lowest then (ordinal, podRevision p) else lowest,
                if ordinal > fst highest then (ordinal, podRevision p) else highest))"

definition orphanedRevisions :: "string \<Rightarrow> pod list option \<Rightarrow> orphanRevision \<times> orphanRevision" where
  "orphanedRevisions name pods =
     (case pods of None \<Rightarrow> ((-1, []), (-1, [])) | Some ps \<Rightarrow> fold (orphan_step name) ps ((-1, []), (-1, [])))"

record 't recreate_env =
  rePods :: "pod list option"              \<comment> \<open>the list of the cluster's server pods, if it is read\<close>
  reRevision :: "string \<Rightarrow> 't option"      \<comment> \<open>the template a ControllerRevision holds\<close>
  reFleet :: "'t \<Rightarrow> 't"                   \<comment> \<open>the fleet merge; the identity without Fleet Management\<close>
  reLands :: bool                          \<comment> \<open>the create or update succeeds\<close>
  reUID :: string                          \<comment> \<open>the UID a create gets\<close>

definition source :: "'t recreate_env \<Rightarrow> 't deletedStatefulSets \<Rightarrow> string \<Rightarrow> string \<Rightarrow> string \<Rightarrow> 't recreateSource option" where
  "source e d namespace name ownerUID =
     (let (lowest, highest) = orphanedRevisions name (rePods e) in
      case remembered d namespace name ownerUID of
        Some prev \<Rightarrow>
          Some \<lparr>srcTemplate = ssTemplate prev, srcReplicas = ssReplicas prev, srcStrategy = Some (ssRolling prev),
                srcAnnotations = ssAnnotations prev,
                srcUpdateRevision = (if ssUpdateRevision prev = [] then snd highest else ssUpdateRevision prev),
                srcCurrentRevision = (if ssCurrentRevision prev = [] then snd lowest else ssCurrentRevision prev)\<rparr>
      | None \<Rightarrow>
          if snd highest = [] then None
          else (case reRevision e (snd highest) of
                  None \<Rightarrow> None
                | Some t \<Rightarrow> Some \<lparr>srcTemplate = t, srcReplicas = Some (fst highest + 1), srcStrategy = None,
                                  srcAnnotations = Map.empty, srcUpdateRevision = snd highest,
                                  srcCurrentRevision = snd lowest\<rparr>))"

definition applyTo :: "'t recreateSource \<Rightarrow> 't server_set \<Rightarrow> 't server_set" where
  "applyTo s sts =
     sts\<lparr>ssTemplate := srcTemplate s,
         ssReplicas := (case srcReplicas s of None \<Rightarrow> ssReplicas sts | Some r \<Rightarrow> Some r),
         ssRolling := (case srcStrategy s of None \<Rightarrow> ssRolling sts | Some u \<Rightarrow> u),
         ssAnnotations := ssAnnotations sts ++ srcAnnotations s\<rparr>"

definition set_partition :: "'t server_set \<Rightarrow> int option" where
  "set_partition sts = (case ssRolling sts of None \<Rightarrow> None | Some p \<Rightarrow> p)"

text \<open>The first of two steps: created on the template of the pods below the partition, frozen.\<close>

definition holdBelowPartition ::
    "'t recreate_env \<Rightarrow> 't recreateSource \<Rightarrow> 't server_set \<Rightarrow> 't server_set \<times> bool" where
  "holdBelowPartition e s sts =
     (case (set_partition sts, ssReplicas sts) of
        (Some restore, Some frozen) \<Rightarrow>
          if restore \<le> 0 \<or> srcCurrentRevision s = [] \<or> srcCurrentRevision s = srcUpdateRevision s then (sts, False)
          else (case reRevision e (srcCurrentRevision s) of
                  None \<Rightarrow> (sts, False)
                | Some below \<Rightarrow>
                    (sts\<lparr>ssTemplate := below, ssRolling := Some (Some frozen),
                         ssAnnotations := (ssAnnotations sts)
                           (recreateRestorePartitionAnnotation \<mapsto> itoa restore,
                            recreateRestoreRevisionAnnotation \<mapsto> srcUpdateRevision s)\<rparr>, True))
      | _ \<Rightarrow> (sts, False))"

definition pending_restore :: "'t server_set \<Rightarrow> int option \<times> bool" where
  "pending_restore sts =
     (case ssAnnotations sts recreateRestorePartitionAnnotation of
        None \<Rightarrow> (None, False)
      | Some raw \<Rightarrow>
          (case parse_int 32 raw of None \<Rightarrow> (None, True) | Some p \<Rightarrow> if p < 0 then (None, True) else (Some p, True)))"

text \<open>The second step: \<open>None\<close> while the revision is not recorded yet, else the StatefulSet to write.\<close>

definition restoreHeldTemplate ::
    "'t recreate_env \<Rightarrow> 't deletedStatefulSets \<Rightarrow> string \<Rightarrow> 't server_set \<Rightarrow> 't server_set option" where
  "restoreHeldTemplate e d ownerUID sts =
     (let partition' = fst (pending_restore sts) in
      if ssObservedGeneration sts < ssGeneration sts \<or> ssCurrentRevision sts = [] then None
      else
        (let revision = (case ssAnnotations sts recreateRestoreRevisionAnnotation of None \<Rightarrow> [] | Some r \<Rightarrow> r);
             annotations = (ssAnnotations sts)(recreateRestorePartitionAnnotation := None,
                                               recreateRestoreRevisionAnnotation := None);
             dropped = sts\<lparr>ssAnnotations := annotations\<rparr>
         in case partition' of
              None \<Rightarrow> Some dropped
            | Some p \<Rightarrow>
                (case remembered d (ssNamespace sts) (ssName sts) ownerUID of
                   Some prev \<Rightarrow>
                     Some (sts\<lparr>ssAnnotations := ssAnnotations prev ++ annotations, ssTemplate := ssTemplate prev,
                               ssRolling := Some (Some p)\<rparr>)
                 | None \<Rightarrow>
                     if revision = [] then Some dropped
                     else (case reRevision e revision of
                             None \<Rightarrow> Some dropped
                           | Some t \<Rightarrow> Some (dropped\<lparr>ssTemplate := t, ssRolling := Some (Some p)\<rparr>)))))"


section \<open>The pass\<close>

text \<open>The StatefulSet the create branch sends.\<close>

definition new_server_set ::
    "'t recreate_env \<Rightarrow> cluster \<Rightarrow> string \<Rightarrow> 't deletedStatefulSets \<Rightarrow> 't server_set \<Rightarrow> 't server_set" where
  "new_server_set e cl ownerUID d desired =
     (let recreate = source e d (ssNamespace desired) (ssName desired) ownerUID;
          sts1 = (case recreate of None \<Rightarrow> desired | Some s \<Rightarrow> applyTo s desired);
          sts2 = (case ssRolling sts1 of
                    Some None \<Rightarrow> sts1\<lparr>ssRolling := Some (partitionForNewServerStatefulSet cl (ssReplicas sts1))\<rparr>
                  | _ \<Rightarrow> sts1);
          (sts3, twoStep) = (case recreate of None \<Rightarrow> (sts2, False) | Some s \<Rightarrow> holdBelowPartition e s sts2)
      in if \<not> twoStep \<and> ssName desired = clName cl @ ''-server''
         then sts3\<lparr>ssTemplate := reFleet e (ssTemplate sts3)\<rparr> else sts3)"

text \<open>What the API server stores of a create.\<close>

definition stored_new :: "string \<Rightarrow> 't server_set \<Rightarrow> 't server_set" where
  "stored_new uid sts = sts\<lparr>ssUID := uid, ssGeneration := 1, ssObservedGeneration := 0,
                            ssCurrentRevision := [], ssUpdateRevision := []\<rparr>"

text \<open>
  The apply of the server StatefulSet while it is missing or waits for its second step. The
  ordinary update of a StatefulSet that exists is \<open>applyServerStatefulSet\<close> of theory Upgrade\_Hold;
  here it leaves the StatefulSet as it is.
\<close>

definition recreate_pass ::
    "'t recreate_env \<Rightarrow> cluster \<Rightarrow> string \<Rightarrow> 't server_set \<Rightarrow>
     't server_set option \<times> 't deletedStatefulSets \<Rightarrow> 't server_set option \<times> 't deletedStatefulSets" where
  "recreate_pass e cl ownerUID desired st =
     (let (live, d) = st in
      case live of
        None \<Rightarrow>
          (let sts = new_server_set e cl ownerUID d desired in
           if \<not> reLands e then (None, d)
           else (Some (stored_new (reUID e) sts),
                 if snd (pending_restore sts) then d else forget_set (ssNamespace sts) (ssName sts) d))
      | Some sts \<Rightarrow>
          if \<not> snd (pending_restore sts) then (live, d)
          else (case restoreHeldTemplate e d ownerUID sts of
                  None \<Rightarrow> (live, d)
                | Some sts' \<Rightarrow>
                    if \<not> reLands e then (live, d)
                    else (Some (sts'\<lparr>ssGeneration :=
                            (if ssTemplate sts' = ssTemplate sts \<and> ssRolling sts' = ssRolling sts
                             then ssGeneration sts else ssGeneration sts + 1)\<rparr>),
                          forget_set (ssNamespace sts) (ssName sts) d)))"



section \<open>What Kubernetes makes of it\<close>

text \<open>
  The StatefulSet controller names the revision of a template (\<open>revname\<close>), records it as the update
  revision, and as the current revision of a StatefulSet that has none. It creates a pod below the
  partition from the current revision and every other pod from the update revision, and replaces
  a running pod at or above the partition that runs another revision than the update revision.
\<close>

definition kube_records :: "('t \<Rightarrow> string) \<Rightarrow> 't server_set \<Rightarrow> 't server_set" where
  "kube_records revname sts =
     sts\<lparr>ssObservedGeneration := ssGeneration sts, ssUpdateRevision := revname (ssTemplate sts),
         ssCurrentRevision := (if ssCurrentRevision sts = [] then revname (ssTemplate sts) else ssCurrentRevision sts)\<rparr>"

definition pod_revision :: "'t server_set \<Rightarrow> int \<Rightarrow> string" where
  "pod_revision sts i =
     (case set_partition sts of
        Some p \<Rightarrow> if i < p then ssCurrentRevision sts else ssUpdateRevision sts
      | None \<Rightarrow> ssUpdateRevision sts)"

definition replaces :: "'t server_set \<Rightarrow> (int \<Rightarrow> string) \<Rightarrow> int \<Rightarrow> bool" where
  "replaces sts running i \<longleftrightarrow>
     running i \<noteq> ssUpdateRevision sts \<and> (case set_partition sts of Some p \<Rightarrow> p \<le> i | None \<Rightarrow> True)"

text \<open>
  The pass that creates the StatefulSet again and the one after Kubernetes has recorded it. When
  the operator restarts in between, what it remembered is gone.
\<close>

definition recreated ::
    "('t \<Rightarrow> string) \<Rightarrow> 't recreate_env \<Rightarrow> 't recreate_env \<Rightarrow> bool \<Rightarrow> cluster \<Rightarrow> string \<Rightarrow> 't server_set \<Rightarrow>
     't deletedStatefulSets \<Rightarrow> 't server_set option \<times> 't server_set option \<times> 't deletedStatefulSets" where
  "recreated revname e1 e2 restarts cl ownerUID desired d =
     (let (live1, d1) = recreate_pass e1 cl ownerUID desired (None, d);
          first = map_option (kube_records revname) live1;
          (live2, d2) = recreate_pass e2 cl ownerUID desired (first, if restarts then Map.empty else d1)
      in (first, map_option (kube_records revname) live2, d2))"

text \<open>A StatefulSet in the middle of an upgrade's partition, not of a recreate.\<close>

definition deleted_ok :: "('t \<Rightarrow> string) \<Rightarrow> string \<Rightarrow> 't server_set \<Rightarrow> 't server_set \<Rightarrow> int \<Rightarrow> int \<Rightarrow> bool" where
  "deleted_ok revname uid prev desired n p \<longleftrightarrow>
     ownedBy prev uid \<and> ssNamespace prev = ssNamespace desired \<and> ssName prev = ssName desired \<and>
     ssReplicas prev = Some n \<and> ssRolling prev = Some (Some p) \<and> p < 2 ^ 31 \<and>
     ssAnnotations prev recreateRestorePartitionAnnotation = None \<and>
     ssUpdateRevision prev = revname (ssTemplate prev) \<and> ssUpdateRevision prev \<noteq> [] \<and> ssCurrentRevision prev \<noteq> []"

lemma restore_annotations_differ [simp]:
  "recreateRestoreRevisionAnnotation \<noteq> recreateRestorePartitionAnnotation"
  "recreateRestorePartitionAnnotation \<noteq> recreateRestoreRevisionAnnotation"
  by (simp_all add: recreateRestoreRevisionAnnotation_def recreateRestorePartitionAnnotation_def)

lemma not_pending: "snd (pending_restore sts) \<longleftrightarrow> ssAnnotations sts recreateRestorePartitionAnnotation \<noteq> None"
  by (auto simp: pending_restore_def split: option.splits if_splits)

lemma source_remembered:
  assumes "deleted_ok revname uid prev desired n p" "d (statefulSetKey (ssNamespace desired) (ssName desired)) = Some prev"
  shows "source e d (ssNamespace desired) (ssName desired) uid =
    Some \<lparr>srcTemplate = ssTemplate prev, srcReplicas = Some n, srcStrategy = Some (Some (Some p)),
          srcAnnotations = ssAnnotations prev, srcUpdateRevision = ssUpdateRevision prev,
          srcCurrentRevision = ssCurrentRevision prev\<rparr>"
proof -
  have "remembered d (ssNamespace desired) (ssName desired) uid = Some prev"
    using assms by (simp add: remembered_def deleted_ok_def)
  moreover have "ssUpdateRevision prev \<noteq> []" "ssCurrentRevision prev \<noteq> []" "ssReplicas prev = Some n"
    "ssRolling prev = Some (Some p)" using assms(1) unfolding deleted_ok_def by auto
  ultimately show ?thesis by (simp add: source_def case_prod_beta)
qed


lemma first_step:
  assumes "deleted_ok revname uid prev desired n p" "d (statefulSetKey (ssNamespace desired) (ssName desired)) = Some prev"
    and "reFleet e (ssTemplate prev) = ssTemplate prev"
    and "reRevision e (ssCurrentRevision prev) = Some below" "uid \<noteq> []"
  shows "new_server_set e cl uid d desired =
    (if 0 < p \<and> ssCurrentRevision prev \<noteq> ssUpdateRevision prev
     then desired\<lparr>ssTemplate := below, ssReplicas := Some n, ssRolling := Some (Some n),
            ssAnnotations := (ssAnnotations desired ++ ssAnnotations prev)
              (recreateRestorePartitionAnnotation \<mapsto> itoa p,
               recreateRestoreRevisionAnnotation \<mapsto> ssUpdateRevision prev)\<rparr>
     else desired\<lparr>ssTemplate := ssTemplate prev, ssReplicas := Some n, ssRolling := Some (Some p),
            ssAnnotations := ssAnnotations desired ++ ssAnnotations prev\<rparr>)"
proof -
  have n: "ssCurrentRevision prev \<noteq> []" "ssReplicas prev = Some n" using assms(1) by (auto simp: deleted_ok_def)
  show ?thesis
    unfolding new_server_set_def source_remembered [of revname uid prev desired n p d, OF assms(1,2)] Let_def
    using assms(3,4) n
    by (auto simp: applyTo_def holdBelowPartition_def set_partition_def)
qed

text \<open>The second step, from memory or, after a restart of the operator, from the revision.\<close>

lemma second_step:
  assumes "pending_restore sts = (Some p, True)" "ssAnnotations sts recreateRestoreRevisionAnnotation = Some r" "r \<noteq> []"
    and "ssObservedGeneration sts = ssGeneration sts" "ssCurrentRevision sts \<noteq> []" "reLands e" "reRevision e r = Some t"
  shows "\<exists>s. recreate_pass e cl uid desired (Some sts, d) = (Some s, forget_set (ssNamespace sts) (ssName sts) d) \<and>
    ssRolling s = Some (Some p) \<and> ssReplicas s = ssReplicas sts \<and> ssClaimSize s = ssClaimSize sts \<and>
    ssCurrentRevision s = ssCurrentRevision sts \<and>
    (case remembered d (ssNamespace sts) (ssName sts) uid of
       None \<Rightarrow> ssTemplate s = t \<and> ssAnnotations s recreateRestorePartitionAnnotation = None
     | Some prev \<Rightarrow> ssTemplate s = ssTemplate prev \<and>
         ssAnnotations s recreateRestorePartitionAnnotation = ssAnnotations prev recreateRestorePartitionAnnotation)"
  using assms
  by (cases "remembered d (ssNamespace sts) (ssName sts) uid")
    (auto simp: recreate_pass_def restoreHeldTemplate_def Let_def map_add_def)

definition keeps_revisions :: "'t server_set \<Rightarrow> 't server_set \<Rightarrow> 't server_set \<Rightarrow> int \<Rightarrow> bool" where
  "keeps_revisions prev s1 s2 n \<longleftrightarrow>
     ssReplicas s1 = Some n \<and> ssReplicas s2 = Some n \<and>
     (\<forall>i. 0 \<le> i \<and> i < n \<longrightarrow> pod_revision s2 i = pod_revision prev i) \<and>
     (\<forall>i running. 0 \<le> i \<and> i < n \<and> (replaces s1 running i \<or> replaces s2 running i) \<longrightarrow> replaces prev running i)"

lemma recreated_in_two_steps:
  assumes ok: "deleted_ok revname uid prev desired n p"
    and kept: "d (statefulSetKey (ssNamespace desired) (ssName desired)) = Some prev" "uid \<noteq> []"
    and fleet: "reFleet e1 (ssTemplate prev) = ssTemplate prev"
    and below: "reRevision e1 (ssCurrentRevision prev) = Some below" "revname below = ssCurrentRevision prev"
    and held: "reRevision e2 (ssUpdateRevision prev) = Some t" "revname t = ssUpdateRevision prev"
    and lands: "reLands e1" "reLands e2"
    and two: "0 < p \<and> ssCurrentRevision prev \<noteq> ssUpdateRevision prev"
  shows "\<exists>s1 s2 d2. recreated revname e1 e2 restarts cl uid desired d = (Some s1, Some s2, d2) \<and>
    remembered d2 (ssNamespace desired) (ssName desired) uid = None \<and> \<not> snd (pending_restore s2) \<and>
    ssClaimSize s2 = ssClaimSize desired \<and> keeps_revisions prev s1 s2 n"
proof -
  note ok' = ok [unfolded deleted_ok_def]
  define s0 where "s0 = new_server_set e1 cl uid d desired"
  note s0 = first_step [of revname uid prev desired n p d e1 below cl, OF ok kept(1) fleet below(1) kept(2),
      unfolded if_P [OF two], folded s0_def]
  define s1 where "s1 = kube_records revname (stored_new (reUID e1) s0)"
  have pend: "pending_restore s0 = (Some p, True)"
    using ok' two parse_int_nat_str [of "nat p" 32] by (simp add: s0 pending_restore_def)
  then have first: "recreate_pass e1 cl uid desired (None, d) = (Some (stored_new (reUID e1) s0), d)"
    using lands(1) by (simp add: recreate_pass_def s0_def [symmetric])
  define d1 where "d1 = (if restarts then Map.empty else d)"
  have same: "ssNamespace s1 = ssNamespace desired" "ssName s1 = ssName desired" "ssReplicas s1 = Some n"
    "ssClaimSize s1 = ssClaimSize desired" "ssRolling s1 = Some (Some n)" "ssCurrentRevision s1 = ssCurrentRevision prev"
    using below(2) by (simp_all add: s1_def s0 kube_records_def stored_new_def)
  have pend1: "pending_restore s1 = (Some p, True)"
    using pend by (simp add: s1_def pending_restore_def kube_records_def stored_new_def)
  have "ssAnnotations s1 recreateRestoreRevisionAnnotation = Some (ssUpdateRevision prev)"
    by (simp add: s1_def s0 kube_records_def stored_new_def)
  moreover have "ssObservedGeneration s1 = ssGeneration s1" by (simp add: s1_def kube_records_def)
  ultimately obtain s where s: "recreate_pass e2 cl uid desired (Some s1, d1) =
      (Some s, forget_set (ssNamespace s1) (ssName s1) d1)"
    "ssRolling s = Some (Some p)" "ssReplicas s = ssReplicas s1" "ssClaimSize s = ssClaimSize s1"
    "ssCurrentRevision s = ssCurrentRevision s1"
    "case remembered d1 (ssNamespace s1) (ssName s1) uid of
       None \<Rightarrow> ssTemplate s = t \<and> ssAnnotations s recreateRestorePartitionAnnotation = None
     | Some prev \<Rightarrow> ssTemplate s = ssTemplate prev \<and>
         ssAnnotations s recreateRestorePartitionAnnotation = ssAnnotations prev recreateRestorePartitionAnnotation"
    using second_step [OF pend1 _ _ _ _ lands(2), of "ssUpdateRevision prev" t cl uid desired d1] held(1) ok' same(6) by auto
  have "remembered d1 (ssNamespace s1) (ssName s1) uid = (if restarts then None else Some prev)"
    using kept ok' by (simp add: remembered_def d1_def same)
  then have tmpl: "revname (ssTemplate s) = ssUpdateRevision prev" "ssAnnotations s recreateRestorePartitionAnnotation = None"
    using s(6) held(2) ok' by (auto split: if_splits)
  define s2 where "s2 = kube_records revname s"
  have "recreated revname e1 e2 restarts cl uid desired d = (Some s1, Some s2, forget_set (ssNamespace s1) (ssName s1) d1)"
    by (simp add: recreated_def first s1_def [symmetric] d1_def [symmetric] s(1) s2_def)
  moreover have "remembered (forget_set (ssNamespace s1) (ssName s1) d1) (ssNamespace desired) (ssName desired) uid = None"
    by (simp add: remembered_def forget_set_def same)
  moreover have "\<not> snd (pending_restore s2)" using tmpl(2) by (simp add: not_pending s2_def kube_records_def)
  moreover have "ssClaimSize s2 = ssClaimSize desired" using s(4) same(4) by (simp add: s2_def kube_records_def)
  moreover have "keeps_revisions prev s1 s2 n"
    using ok' s(2,3,5) same tmpl(1)
    by (auto simp: keeps_revisions_def s2_def kube_records_def pod_revision_def set_partition_def replaces_def)
  ultimately show ?thesis by blast
qed

lemma recreated_in_one_step:
  assumes ok: "deleted_ok revname uid prev desired n p"
    and kept: "d (statefulSetKey (ssNamespace desired) (ssName desired)) = Some prev" "uid \<noteq> []"
    and plain: "ssAnnotations desired recreateRestorePartitionAnnotation = None"
    and fleet: "reFleet e1 (ssTemplate prev) = ssTemplate prev"
    and below: "reRevision e1 (ssCurrentRevision prev) = Some below"
    and lands: "reLands e1"
    and one: "\<not> (0 < p \<and> ssCurrentRevision prev \<noteq> ssUpdateRevision prev)"
  shows "\<exists>s1 s2 d2. recreated revname e1 e2 restarts cl uid desired d = (Some s1, Some s2, d2) \<and>
    remembered d2 (ssNamespace desired) (ssName desired) uid = None \<and> \<not> snd (pending_restore s2) \<and>
    ssClaimSize s2 = ssClaimSize desired \<and> keeps_revisions prev s1 s2 n"
proof -
  note ok' = ok [unfolded deleted_ok_def]
  define s0 where "s0 = new_server_set e1 cl uid d desired"
  note s0 = first_step [of revname uid prev desired n p d e1 below cl, OF ok kept(1) fleet below kept(2),
      unfolded if_not_P [OF one], folded s0_def]
  define s1 where "s1 = kube_records revname (stored_new (reUID e1) s0)"
  have pend: "\<not> snd (pending_restore s0)" using ok' plain by (simp add: not_pending s0 map_add_def)
  then have first: "recreate_pass e1 cl uid desired (None, d) =
      (Some (stored_new (reUID e1) s0), forget_set (ssNamespace s0) (ssName s0) d)"
    using lands by (simp add: recreate_pass_def s0_def [symmetric])
  have pend1: "\<not> snd (pending_restore s1)"
    using pend by (simp add: s1_def not_pending kube_records_def stored_new_def)
  define d1 where "d1 = (if restarts then Map.empty else forget_set (ssNamespace s0) (ssName s0) d)"
  have "recreate_pass e2 cl uid desired (Some s1, d1) = (Some s1, d1)" using pend1 by (simp add: recreate_pass_def)
  then have "recreated revname e1 e2 restarts cl uid desired d = (Some s1, Some (kube_records revname s1), d1)"
    by (simp add: recreated_def first s1_def [symmetric] d1_def [symmetric])
  moreover have "remembered d1 (ssNamespace desired) (ssName desired) uid = None"
    by (simp add: remembered_def d1_def forget_set_def s0)
  moreover have "\<not> snd (pending_restore (kube_records revname s1))"
    using pend1 by (simp add: not_pending kube_records_def)
  moreover have "ssClaimSize (kube_records revname s1) = ssClaimSize desired"
    by (simp add: s1_def s0 kube_records_def stored_new_def)
  moreover have "keeps_revisions prev s1 (kube_records revname s1) n"
    using ok' one
    by (auto simp: keeps_revisions_def s1_def s0 stored_new_def kube_records_def pod_revision_def set_partition_def
        replaces_def)
  ultimately show ?thesis by blast
qed

text \<open>
  The specification: resizing is one step that changes the claim size of the StatefulSet and
  nothing else one can see of it, its server count and the revision of every server.
\<close>

record set_view =
  viServers :: int
  viClaim :: int
  viRevisions :: "string list"

definition view :: "'t server_set \<Rightarrow> set_view" where
  "view sts =
     (let n = (case ssReplicas sts of None \<Rightarrow> 1 | Some n \<Rightarrow> n)
      in \<lparr>viServers = n, viClaim = ssClaimSize sts, viRevisions = map (\<lambda>i. pod_revision sts (int i)) [0..<nat n]\<rparr>)"

definition resized :: "int \<Rightarrow> set_view \<Rightarrow> set_view" where
  "resized size' v = v\<lparr>viClaim := size'\<rparr>"

lemma keeps_view:
  assumes "keeps_revisions prev s1 s2 n" "ssReplicas prev = Some n"
  shows "view s2 = resized (ssClaimSize s2) (view prev)"
  using assms by (auto simp: keeps_revisions_def view_def resized_def zless_nat_eq_int_zless)

text \<open>
  A server StatefulSet deleted for a storage expansion and created again, with the new claim
  size, in one step or two, also when the operator restarts between the steps: every server comes
  back on the revision it would have come back on before, at no time is a server replaced that
  the deleted StatefulSet would not have replaced, and nothing is left pending or remembered.
\<close>

lemma recreate_keeps_every_revision:
  assumes "deleted_ok revname uid prev desired n p"
    and "d (statefulSetKey (ssNamespace desired) (ssName desired)) = Some prev" "uid \<noteq> []"
    and "ssAnnotations desired recreateRestorePartitionAnnotation = None"
    and "reFleet e1 (ssTemplate prev) = ssTemplate prev"
    and "reRevision e1 (ssCurrentRevision prev) = Some below" "revname below = ssCurrentRevision prev"
    and "reRevision e2 (ssUpdateRevision prev) = Some t" "revname t = ssUpdateRevision prev"
    and "reLands e1" "reLands e2"
  shows "\<exists>s1 s2 d2. recreated revname e1 e2 restarts cl uid desired d = (Some s1, Some s2, d2) \<and>
    remembered d2 (ssNamespace desired) (ssName desired) uid = None \<and> \<not> snd (pending_restore s2) \<and>
    ssClaimSize s2 = ssClaimSize desired \<and> keeps_revisions prev s1 s2 n"
proof (cases "0 < p \<and> ssCurrentRevision prev \<noteq> ssUpdateRevision prev")
  case True
  show ?thesis
    by (rule recreated_in_two_steps [where prev = prev and below = below and t = t and p = p]) (use assms True in auto)
next
  case False
  show ?thesis
    by (rule recreated_in_one_step [where prev = prev and below = below and p = p]) (use assms False in auto)
qed


definition held_example :: "string server_set" where
  "held_example =
     \<lparr>ssNamespace = ''ns'', ssName = ''c-server'', ssUID = ''u1'', ssOwners = [''c''], ssAnnotations = Map.empty,
      ssReplicas = Some 3, ssRolling = Some (Some 2), ssTemplate = ''new'', ssClaimSize = 10, ssGeneration = 4,
      ssObservedGeneration = 4, ssCurrentRevision = ''old'', ssUpdateRevision = ''new''\<rparr>"

definition wanted_example :: "string server_set" where
  "wanted_example = held_example\<lparr>ssUID := [], ssTemplate := ''spec'', ssClaimSize := 20\<rparr>"

definition recreate_env_example :: "string recreate_env" where
  "recreate_env_example =
     \<lparr>rePods = Some [], reRevision = Some, reFleet = (\<lambda>t. t), reLands = True, reUID = ''u2''\<rparr>"

text \<open>
  A second expansion between the two steps deletes the StatefulSet that waits: it is remembered
  with the template of the servers below the partition, and the second step writes that template
  back with the partition, so that the servers already upgraded are rolled back without a gate.
\<close>

definition waiting_example :: "string server_set" where
  "waiting_example = kube_records (\<lambda>t. t)
     (held_example\<lparr>ssTemplate := ''old'', ssRolling := Some (Some 3), ssGeneration := 1, ssCurrentRevision := [],
        ssAnnotations := [recreateRestorePartitionAnnotation \<mapsto> ''2'', recreateRestoreRevisionAnnotation \<mapsto> ''new'']\<rparr>)"

lemma second_expansion_rolls_servers_back:
  "(case recreated (\<lambda>t. t) recreate_env_example recreate_env_example False staging_cluster ''c'' wanted_example
      (remember_set waiting_example Map.empty) of
      (_, Some s2, _) \<Rightarrow> replaces s2 (\<lambda>i. ''new'') 2 | _ \<Rightarrow> False) \<and> \<not> replaces held_example (\<lambda>i. ''new'') 2"
  by code_simp

end
