(* ===== verification/Storage_Expansion.thy ===== *)
theory Storage_Expansion
  imports Recreate
begin

text \<open>
  Growing the data volumes of a cluster (src/internal/controller/storage\_expansion.go): the check
  of the claims against the size the spec asks for, the patches, and the deletion of the StatefulSet
  that leaves its pods running. Theory Recreate creates it again. Sizes are the integers
  Kubernetes quantities stand for; \<open>ParseQuantity\<close> is an argument, and so are the answers of the API
  server and the texts of its errors. The advisory warning about a changed StorageClass is not
  modelled.
\<close>

section \<open>State and answers\<close>

record pvc =
  pvcName :: string
  pvcLabels :: "string \<rightharpoonup> string"
  pvcClass :: "string option"
  pvcSize :: int

record 't storage_world =
  swWorld :: world
  swClaims :: "pvc list"                  \<comment> \<open>the claims of the namespace, as a list returns them\<close>
  swSet :: "'t server_set option"
  swKept :: "'t deletedStatefulSets"

record storage_env =
  seNow :: int
  seQuantity :: "string \<Rightarrow> int option"                 \<comment> \<open>resource.ParseQuantity\<close>
  seSize :: string                                       \<comment> \<open>spec.storage.size\<close>
  seNamespace :: string
  seCheckLists :: "bool \<times> bool"                        \<comment> \<open>the lists of the check succeed: by label, of all\<close>
  seExpandLists :: "bool \<times> bool"                       \<comment> \<open>those of the expansion\<close>
  seClass :: "string \<Rightarrow> bool option api_read"         \<comment> \<open>allowVolumeExpansion of a StorageClass\<close>
  sePatch :: "string \<Rightarrow> bool"                          \<comment> \<open>the patch of a claim lands\<close>
  seGet :: bool                                          \<comment> \<open>the read of the StatefulSet is answered\<close>
  seDelete :: bool                                       \<comment> \<open>its deletion is accepted\<close>
  seGone :: bool                                         \<comment> \<open>and has gone through within the wait\<close>
  seExpanding :: write_outcome
  seFailed :: write_outcome
  seError :: string                                      \<comment> \<open>the text of an API error\<close>

definition dq :: string where "dq = [CHR 0x22]"


section \<open>The check\<close>

datatype pvcSizeState = pvcSizeMatch | pvcSizeExpand | pvcSizeShrink

record storageExpansionResult =
  needed :: bool
  dataExpansion :: bool
  shrinkDetected :: bool
  shrinkMessage :: string

text \<open>The size, or the message of what is wrong with it. A value holds no character \<^verbatim>\<open>%q\<close> escapes.\<close>

definition parseUserQuantity :: "(string \<Rightarrow> int option) \<Rightarrow> string \<Rightarrow> string \<Rightarrow> string + int" where
  "parseUserQuantity quantity path value =
     (let failed = (\<lambda>reason. Inl (path @ '' '' @ dq @ value @ dq @ '' '' @ reason)) in
      case quantity value of
        None \<Rightarrow> failed (''is not a valid Kubernetes quantity (e.g. '' @ dq @ ''50Gi'' @ dq @ '')'')
      | Some q \<Rightarrow> if q \<le> 0 then failed ''must be greater than zero'' else Inr q)"

definition volumeNameToRole :: "string \<Rightarrow> string" where
  "volumeNameToRole volumeName = (if volumeName = ''backup-storage'' then ''backup'' else ''server'')"

text \<open>A claim's name is the volume, the StatefulSet and a number.\<close>

definition named_for :: "string \<Rightarrow> string \<Rightarrow> pvc \<Rightarrow> bool" where
  "named_for stsName' volumeName p =
     (case cut_prefix (volumeName @ ''-'' @ stsName' @ ''-'') (pvcName p) of
        None \<Rightarrow> False | Some suffix \<Rightarrow> atoi suffix \<noteq> None)"

definition findPVCsForStatefulSet ::
    "bool \<times> bool \<Rightarrow> string \<Rightarrow> string \<Rightarrow> string \<Rightarrow> string \<Rightarrow> pvc list \<Rightarrow> string + pvc list" where
  "findPVCsForStatefulSet oks err clusterName stsName' volumeName claims =
     (if \<not> fst oks then Inl (''failed to list PVCs by label: '' @ err)
      else
        (let labelled = filter (\<lambda>p. pvcLabels p ''neo4j.com/cluster'' = Some clusterName \<and>
                                    pvcLabels p ''neo4j.com/role'' = Some (volumeNameToRole volumeName)) claims;
             matched = filter (named_for stsName' volumeName) labelled
         in if matched \<noteq> [] then Inr matched
            else if \<not> snd oks then Inl (''failed to list all PVCs in namespace: '' @ err)
            else Inr (filter (named_for stsName' volumeName) claims)))"

fun size_state :: "int \<Rightarrow> pvc list \<Rightarrow> pvcSizeState" where
  "size_state desiredSize [] = pvcSizeMatch"
| "size_state desiredSize (p # ps) =
     (if desiredSize < pvcSize p then pvcSizeShrink
      else if desiredSize > pvcSize p then pvcSizeExpand else size_state desiredSize ps)"

definition comparePVCSizes ::
    "bool \<times> bool \<Rightarrow> string \<Rightarrow> string \<Rightarrow> string \<Rightarrow> string \<Rightarrow> int \<Rightarrow> pvc list \<Rightarrow> string + pvcSizeState" where
  "comparePVCSizes oks err clusterName stsName' volumeName desiredSize claims =
     (case findPVCsForStatefulSet oks err clusterName stsName' volumeName claims of
        Inl e \<Rightarrow> Inl e | Inr pvcs \<Rightarrow> Inr (size_state desiredSize pvcs))"

definition checkStorageExpansionNeeded :: "storage_env \<Rightarrow> cluster \<Rightarrow> pvc list \<Rightarrow> string + storageExpansionResult" where
  "checkStorageExpansionNeeded e cl claims =
     (case parseUserQuantity (seQuantity e) ''spec.storage.size'' (seSize e) of
        Inl err \<Rightarrow> Inl err
      | Inr desiredDataSize \<Rightarrow>
          (case comparePVCSizes (seCheckLists e) (seError e) (clName cl) (serverStsName cl) ''data'' desiredDataSize claims of
             Inl err \<Rightarrow> Inl err
           | Inr state \<Rightarrow>
               if state = pvcSizeShrink
               then Inr \<lparr>needed = False, dataExpansion = False, shrinkDetected = True,
                         shrinkMessage = ''spec.storage.size ('' @ seSize e
                           @ '') is smaller than existing data PVCs; PVC shrink is not supported by Kubernetes''\<rparr>
               else Inr \<lparr>needed = (state = pvcSizeExpand), dataExpansion = (state = pvcSizeExpand),
                         shrinkDetected = False, shrinkMessage = []\<rparr>))"


section \<open>The expansion\<close>

definition validateStorageClassExpandable :: "storage_env \<Rightarrow> pvc \<Rightarrow> string option" where
  "validateStorageClassExpandable e p =
     (case pvcClass p of
        None \<Rightarrow> Some (''PVC '' @ pvcName p @ '' has no StorageClass set; cannot determine if expansion is supported'')
      | Some c \<Rightarrow>
          if c = []
          then Some (''PVC '' @ pvcName p @ '' has no StorageClass set; cannot determine if expansion is supported'')
          else (case seClass e c of
                  NotFound \<Rightarrow> Some (''StorageClass '' @ dq @ c @ dq
                                @ '' not found; cannot validate volume expansion support'')
                | ReadFailed \<Rightarrow> Some (''failed to get StorageClass '' @ dq @ c @ dq @ '': '' @ seError e)
                | Found allow \<Rightarrow>
                    if allow = Some True then None
                    else Some (''StorageClass '' @ dq @ c @ dq
                           @ '' does not allow volume expansion (allowVolumeExpansion is not true); update the StorageClass or use a different one'')))"

text \<open>The patch of one claim, by name, and the loop over the claims; \<open>Some\<close> is the error that stops it.\<close>

definition claim_patched :: "string \<Rightarrow> int \<Rightarrow> pvc list \<Rightarrow> pvc list" where
  "claim_patched name desiredSize claims =
     map (\<lambda>p. if pvcName p = name then p\<lparr>pvcSize := desiredSize\<rparr> else p) claims"

fun patch_claims :: "storage_env \<Rightarrow> int \<Rightarrow> pvc list \<Rightarrow> pvc list \<Rightarrow> pvc list \<times> string option" where
  "patch_claims e desiredSize [] claims = (claims, None)"
| "patch_claims e desiredSize (p # ps) claims =
     (if pvcSize p \<ge> desiredSize then patch_claims e desiredSize ps claims
      else if sePatch e (pvcName p) then patch_claims e desiredSize ps (claim_patched (pvcName p) desiredSize claims)
      else (claims, Some (''failed to patch PVC '' @ pvcName p @ '': '' @ seError e)))"

definition orphanDeleteStatefulSet :: "storage_env \<Rightarrow> 't storage_world \<Rightarrow> 't storage_world \<times> string option" where
  "orphanDeleteStatefulSet e w =
     (if \<not> seGet e then (w, Some (seError e))
      else case swSet w of
             None \<Rightarrow> (w, None)
           | Some sts \<Rightarrow>
               (let w1 = w\<lparr>swKept := remember_set sts (swKept w)\<rparr> in
                if seDelete e then (w1\<lparr>swSet := None\<rparr>, None) else (w1, Some (seError e))))"

definition expandVolumes ::
    "storage_env \<Rightarrow> cluster \<Rightarrow> string \<Rightarrow> string \<Rightarrow> int \<Rightarrow> 't storage_world \<Rightarrow> 't storage_world \<times> string option" where
  "expandVolumes e cl stsName' volumeName desiredSize w =
     (case findPVCsForStatefulSet (seExpandLists e) (seError e) (clName cl) stsName' volumeName (swClaims w) of
        Inl err \<Rightarrow> (w, Some (''failed to find PVCs for '' @ stsName' @ ''/'' @ volumeName @ '': '' @ err))
      | Inr [] \<Rightarrow> (w, None)
      | Inr (p # ps) \<Rightarrow>
          (case validateStorageClassExpandable e p of
             Some err \<Rightarrow> (w, Some err)
           | None \<Rightarrow>
               (let (claims, err) = patch_claims e desiredSize (p # ps) (swClaims w);
                    w1 = w\<lparr>swClaims := claims\<rparr>
                in case err of
                     Some m \<Rightarrow> (w1, Some m)
                   | None \<Rightarrow>
                       (let (w2, err2) = orphanDeleteStatefulSet e w1 in
                        case err2 of
                          None \<Rightarrow> (w2, None)
                        | Some m \<Rightarrow> (w2, Some (''failed to orphan-delete StatefulSet '' @ stsName' @ '': '' @ m))))))"

definition storageExpansionFailedPrefix :: string where
  "storageExpansionFailedPrefix = ''Storage expansion failed: ''"

definition storageExpansionRetry :: "cluster \<Rightarrow> bool" where
  "storageExpansionRetry cl =
     (stPhase cl = ''Failed'' \<and> stObservedGeneration cl = clGeneration cl \<and>
      has_prefix (stMessage cl) storageExpansionFailedPrefix)"

text \<open>A status write, with an event when it changed the status.\<close>

definition announced :: "(world \<Rightarrow> world \<times> bool) \<Rightarrow> effect list \<Rightarrow> 't storage_world \<Rightarrow> 't storage_world" where
  "announced wr es w =
     (let (w1, changed) = wr (swWorld w) in w\<lparr>swWorld := (if changed then logged es w1 else w1)\<rparr>)"

definition started :: "storage_env \<Rightarrow> 't storage_world \<Rightarrow> 't storage_world" where
  "started e w =
     (if storageExpansionRetry (wMem (swWorld w)) then w
      else w\<lparr>swWorld := logged [Event False ''StorageExpansionStarted'' ''Storage expansion started'']
               (fst (updateClusterStatus (seNow e) (seExpanding e) ''Expanding'' ''Expanding storage volumes'' (swWorld w)))\<rparr>)"

text \<open>The pass: whether to run again at once, or the error it ends with.\<close>

definition reconcileStorageExpansion ::
    "storage_env \<Rightarrow> 't storage_world \<Rightarrow> 't storage_world \<times> (string + bool)" where
  "reconcileStorageExpansion e w =
     (let cl = wMem (swWorld w) in
      case checkStorageExpansionNeeded e cl (swClaims w) of
        Inl err \<Rightarrow> (w, Inl err)
      | Inr result \<Rightarrow>
          if shrinkDetected result then
            (announced (updateClusterStatus (seNow e) (seFailed e) ''Failed''
                 (''Storage shrink not supported: '' @ shrinkMessage result))
               [Event True ''StorageExpansionFailed'' (''Storage shrink rejected: '' @ shrinkMessage result)] w,
             Inl (''storage shrink not supported: '' @ shrinkMessage result))
          else if \<not> needed result then (w, Inr False)
          else
            (let w1 = started e w in
             case parseUserQuantity (seQuantity e) ''spec.storage.size'' (seSize e) of
               Inl err \<Rightarrow>
                 (announced (updateClusterStatus (seNow e) (seFailed e) ''Failed'' (storageExpansionFailedPrefix @ err)) [] w1,
                  Inl err)
             | Inr desiredSize \<Rightarrow>
                 (let (w2, failure) = expandVolumes e cl (serverStsName cl) ''data'' desiredSize w1 in
                  case failure of
                    Some err \<Rightarrow>
                      (announced (updateClusterStatus (seNow e) (seFailed e) ''Failed'' (storageExpansionFailedPrefix @ err))
                         [Event True ''StorageExpansionFailed'' (''Failed to expand data storage: '' @ err)] w2, Inl err)
                  | None \<Rightarrow>
                      (w2\<lparr>swWorld := logged [Event False ''StorageExpansionCompleted''
                              ''Storage expansion completed successfully''] (swWorld w2)\<rparr>,
                       Inr (\<not> (\<not> Option.is_none (remembered (swKept w2) (seNamespace e) (serverStsName cl) []) \<and>
                                Option.is_none (swSet w2) \<and> seGone e))))))"



section \<open>What a pass does to the claims and the StatefulSet\<close>

text \<open>A claim after the pass: the same claim, not smaller.\<close>

definition grown :: "pvc \<Rightarrow> pvc \<Rightarrow> bool" where
  "grown p p' \<longleftrightarrow> p' = p\<lparr>pvcSize := pvcSize p'\<rparr> \<and> pvcSize p \<le> pvcSize p'"

lemma grown_refl [simp]: "grown p p"
  by (simp add: grown_def)

lemma grown_trans: "grown p q \<Longrightarrow> grown q r \<Longrightarrow> grown p r"
  by (auto simp: grown_def) (metis pvc.update_convs(4) pvc.surjective)

lemma all_grown_refl [simp]: "list_all2 grown ps ps"
  by (simp add: list_all2_same)

text \<open>The claims still to patch are as listed, or at the size asked for already.\<close>

definition listed :: "int \<Rightarrow> pvc list \<Rightarrow> pvc list \<Rightarrow> bool" where
  "listed size' ps claims \<longleftrightarrow>
     (\<forall>c\<in>set claims. \<forall>p\<in>set ps. pvcName c = pvcName p \<longrightarrow> pvcSize c = pvcSize p \<or> pvcSize c = size')"

lemma listed_patched: "listed size' (p # ps) claims \<Longrightarrow> listed size' ps (claim_patched (pvcName p) size' claims)"
  by (auto simp: listed_def claim_patched_def)

lemma patched_grown:
  "listed size' (p # ps) claims \<Longrightarrow> pvcSize p < size' \<Longrightarrow> list_all2 grown claims (claim_patched (pvcName p) size' claims)"
  by (auto simp: listed_def claim_patched_def list_all2_conv_all_nth grown_def)

lemma patch_claims_grown:
  "listed size' ps claims \<Longrightarrow> list_all2 grown claims (fst (patch_claims e size' ps claims))"
proof (induction ps arbitrary: claims)
  case (Cons p ps)
  have rest: "listed size' ps claims" using Cons.prems by (simp add: listed_def)
  show ?case
  proof (cases "size' \<le> pvcSize p \<or> \<not> sePatch e (pvcName p)")
    case True
    then show ?thesis using Cons.IH [OF rest] by auto
  next
    case False
    have "list_all2 grown claims (claim_patched (pvcName p) size' claims)"
      using patched_grown [OF Cons.prems] False by simp
    then show ?thesis
      using False Cons.IH [OF listed_patched [OF Cons.prems]] by (auto intro: list_all2_trans [OF grown_trans])
  qed
qed simp

lemma grown_name: "grown p q \<Longrightarrow> pvcName q = pvcName p"
  by (cases p; cases q) (simp add: grown_def)

lemma grown_from: "list_all2 grown ps qs \<Longrightarrow> q \<in> set qs \<Longrightarrow> \<exists>p\<in>set ps. grown p q"
  by (metis in_set_conv_nth list_all2_conv_all_nth)

lemma patch_claims_reach:
  assumes "listed size' ps claims" "snd (patch_claims e size' ps claims) = None"
    "c \<in> set (fst (patch_claims e size' ps claims))" "p \<in> set ps" "pvcName c = pvcName p"
  shows "size' \<le> pvcSize c"
  using assms
proof (induction ps arbitrary: claims)
  case (Cons q qs)
  have rest: "listed size' qs claims" using Cons.prems(1) by (simp add: listed_def)
  obtain mid where mid: "listed size' qs mid" "patch_claims e size' (q # qs) claims = patch_claims e size' qs mid"
    "\<forall>c\<in>set mid. pvcName c = pvcName q \<longrightarrow> size' \<le> pvcSize c"
  proof (cases "size' \<le> pvcSize q")
    case True
    then have "\<forall>c\<in>set claims. pvcName c = pvcName q \<longrightarrow> size' \<le> pvcSize c"
      using Cons.prems(1) by (auto simp: listed_def)
    then show ?thesis using that [of claims] rest True by simp
  next
    case False
    have "\<forall>c\<in>set (claim_patched (pvcName q) size' claims). pvcName c = pvcName q \<longrightarrow> size' \<le> pvcSize c"
      by (auto simp: claim_patched_def)
    then show ?thesis
      using that [of "claim_patched (pvcName q) size' claims"] False Cons.prems(2) listed_patched [OF Cons.prems(1)]
      by (simp split: if_splits)
  qed
  show ?case
  proof (cases "p = q")
    case True
    obtain c0 where "c0 \<in> set mid" "grown c0 c"
      using grown_from [OF patch_claims_grown [OF mid(1)], of c e] Cons.prems(3) mid(2) by auto
    then show ?thesis using mid(3) True Cons.prems(5) 
      by (metis grown_def grown_name order_trans)
  next
    case False
    then show ?thesis using Cons.IH [OF mid(1)] Cons.prems mid(2) by auto
  qed
qed simp


lemma found_claims:
  "findPVCsForStatefulSet oks err cn sn vn claims = Inr ps \<Longrightarrow> set ps \<subseteq> set claims"
  by (auto simp: findPVCsForStatefulSet_def Let_def split: if_splits)

lemma found_listed:
  assumes "distinct (map pvcName claims)" "findPVCsForStatefulSet oks err cn sn vn claims = Inr ps"
  shows "listed size' ps claims"
proof -
  have "c = p" if "c \<in> set claims" "p \<in> set ps" "pvcName c = pvcName p" for c p
    using that found_claims [OF assms(2)] assms(1) by (auto simp: distinct_map dest: inj_onD)
  then show ?thesis by (auto simp: listed_def)
qed

text \<open>The StatefulSet is deleted only when every claim found is at least as large as asked for.\<close>

definition set_goes :: "storage_env \<Rightarrow> cluster \<Rightarrow> int \<Rightarrow> 't storage_world \<Rightarrow> 't storage_world \<Rightarrow> bool" where
  "set_goes e cl size' w w' \<longleftrightarrow>
     (\<exists>sts ps. swSet w = Some sts \<and> swSet w' = None \<and> swKept w' = remember_set sts (swKept w) \<and>
        findPVCsForStatefulSet (seExpandLists e) (seError e) (clName cl) (serverStsName cl) ''data'' (swClaims w) = Inr ps \<and>
        (\<forall>c\<in>set (swClaims w'). pvcName c \<in> pvcName ` set ps \<longrightarrow> size' \<le> pvcSize c))"

lemma expandVolumes_effect:
  assumes "distinct (map pvcName (swClaims w))"
    and "expandVolumes e cl (serverStsName cl) ''data'' size' w = (w', failure)"
  shows "swWorld w' = swWorld w \<and> list_all2 grown (swClaims w) (swClaims w') \<and>
    (swSet w' = swSet w \<or> set_goes e cl size' w w')"
proof (cases "findPVCsForStatefulSet (seExpandLists e) (seError e) (clName cl) (serverStsName cl) ''data'' (swClaims w)")
  case (Inl err)
  then show ?thesis using assms(2) by (auto simp: expandVolumes_def)
next
  case (Inr ps)
  obtain claims err where pc: "patch_claims e size' ps (swClaims w) = (claims, err)" by fastforce
  note listed = found_listed [OF assms(1) Inr, of size']
  have grown: "list_all2 grown (swClaims w) claims" using patch_claims_grown [OF listed, of e] pc by simp
  have reach: "size' \<le> pvcSize c" if "err = None" "c \<in> set claims" "pvcName c \<in> pvcName ` set ps" for c
    using patch_claims_reach [OF listed, of e c] that pc by auto
  show ?thesis
  proof (cases "ps = [] \<or> validateStorageClassExpandable e (hd ps) \<noteq> None \<or> err \<noteq> None \<or> \<not> seGet e \<or> \<not> seDelete e \<or> swSet w = None")
    case True
    then show ?thesis using assms(2) Inr pc grown
      by (cases ps; cases "swSet w"; cases err)
        (auto simp: expandVolumes_def orphanDeleteStatefulSet_def Let_def split: option.splits if_splits)
  next
    case False
    then obtain sts where sts: "swSet w = Some sts" by auto
    then have "w' = w\<lparr>swClaims := claims, swKept := remember_set sts (swKept w), swSet := None\<rparr>"
      using assms(2) Inr pc False
      by (cases ps) (auto simp: expandVolumes_def orphanDeleteStatefulSet_def Let_def)
    then show ?thesis using Inr grown reach False sts by (auto simp: set_goes_def)
  qed
qed

lemma announced_keeps [simp]:
  "swClaims (announced wr es w) = swClaims w" "swSet (announced wr es w) = swSet w" "swKept (announced wr es w) = swKept w"
  by (simp_all add: announced_def case_prod_beta Let_def)

lemma started_keeps [simp]:
  "swClaims (started e w) = swClaims w" "swSet (started e w) = swSet w" "swKept (started e w) = swKept w"
  by (simp_all add: started_def)

lemma pass_effect:
  assumes "distinct (map pvcName (swClaims w))" "reconcileStorageExpansion e w = (w', r)"
  shows "list_all2 grown (swClaims w) (swClaims w') \<and>
    (swSet w' = swSet w \<or> (\<exists>size'. seQuantity e (seSize e) = Some size' \<and> set_goes e (wMem (swWorld w)) size' w w'))"
proof -
  let ?cl = "wMem (swWorld w)"
  consider "swClaims w' = swClaims w" "swSet w' = swSet w"
    | size' w2 where "seQuantity e (seSize e) = Some size'"
        "w2 = fst (expandVolumes e ?cl (serverStsName ?cl) ''data'' size' (started e w))"
        "swClaims w' = swClaims w2" "swSet w' = swSet w2" "swKept w' = swKept w2"
    using assms(2) unfolding reconcileStorageExpansion_def Let_def
    by (auto simp: case_prod_beta parseUserQuantity_def Let_def split: sum.splits option.splits if_splits)
  then show ?thesis
  proof cases
    case 2
    have "distinct (map pvcName (swClaims (started e w)))" using assms(1) by simp
    from expandVolumes_effect [OF this, of e ?cl size' w2] show ?thesis
      using 2 by (auto simp: set_goes_def prod_eq_iff)
  qed simp
qed


text \<open>
  C17: A storage pass never shrinks a claim, and deletes the StatefulSet, keeping a copy of it, only
  when every claim it found is at least as large as the spec asks for.
\<close>

theorem claims_grow_before_the_set_goes:
  assumes "distinct (map pvcName (swClaims w))" "reconcileStorageExpansion e w = (w', r)"
  shows "list_all2 grown (swClaims w) (swClaims w') \<and>
    (swSet w' = swSet w \<or> (\<exists>size'. seQuantity e (seSize e) = Some size' \<and> set_goes e (wMem (swWorld w)) size' w w'))"
  by (rule pass_effect [OF assms])

text \<open>
  C16: Deleting the StatefulSet in a storage pass and creating it again from what the pass kept, in the
  middle of an upgrade or not, in one step or two, also when the operator restarts between them,
  refines the one abstract step that changes the claim size and nothing else: the server count and
  the revision every server comes back on are those of the deleted StatefulSet, and at no time
  is a server replaced that the deleted one would not have replaced. The deleted StatefulSet sets
  its partition and is not itself waiting for its second step, both its revisions are
  recorded and can be read, the writes land, and the fleet edit changes nothing in its template.
\<close>

theorem expansion_restarts_no_server:
  assumes "distinct (map pvcName (swClaims w))" "reconcileStorageExpansion e w = (w', r)"
    and "swSet w = Some prev" "swSet w' = None"
    and "deleted_ok revname uid prev desired n p" "uid \<noteq> []"
    and "ssAnnotations desired recreateRestorePartitionAnnotation = None"
    and "reFleet e1 (ssTemplate prev) = ssTemplate prev"
    and "reRevision e1 (ssCurrentRevision prev) = Some below" "revname below = ssCurrentRevision prev"
    and "reRevision e2 (ssUpdateRevision prev) = Some t" "revname t = ssUpdateRevision prev"
    and "reLands e1" "reLands e2"
  shows "\<exists>s1 s2 d2. recreated revname e1 e2 restarts cl uid desired (swKept w') = (Some s1, Some s2, d2) \<and>
    remembered d2 (ssNamespace desired) (ssName desired) uid = None \<and> \<not> snd (pending_restore s2) \<and>
    view s2 = resized (ssClaimSize desired) (view prev) \<and> keeps_revisions prev s1 s2 n"
proof -
  have "swKept w' = remember_set prev (swKept w)"
    using pass_effect [OF assms(1,2)] assms(3,4) by (auto simp: set_goes_def)
  then have "swKept w' (statefulSetKey (ssNamespace desired) (ssName desired)) = Some prev"
    using assms(5) by (simp add: remember_set_def deleted_ok_def)
  then obtain s1 s2 d2 where r: "recreated revname e1 e2 restarts cl uid desired (swKept w') = (Some s1, Some s2, d2)"
    "remembered d2 (ssNamespace desired) (ssName desired) uid = None" "\<not> snd (pending_restore s2)"
    "ssClaimSize s2 = ssClaimSize desired" "keeps_revisions prev s1 s2 n"
    using recreate_keeps_every_revision [where p = p and below = below and t = t and d = "swKept w'" and restarts = restarts
        and cl = cl and prev = prev and uid = uid and desired = desired and n = n and revname = revname and ?e1.0 = e1 and ?e2.0 = e2]
      assms by metis
  moreover have "ssReplicas prev = Some n" using assms(5) by (simp add: deleted_ok_def)
  ultimately show ?thesis using keeps_view [OF r(5)] by auto
qed



section \<open>Examples\<close>

definition claim_example :: "string \<Rightarrow> int \<Rightarrow> pvc" where
  "claim_example ord n =
     \<lparr>pvcName = ''data-c-server-'' @ ord, pvcLabels = [''neo4j.com/cluster'' \<mapsto> ''c'', ''neo4j.com/role'' \<mapsto> ''server''],
      pvcClass = Some ''fast'', pvcSize = n\<rparr>"

definition storage_env_example :: "bool \<Rightarrow> storage_env" where
  "storage_env_example deletes =
     \<lparr>seNow = 100, seQuantity = (\<lambda>s. if s = ''20Gi'' then Some 20 else None), seSize = ''20Gi'', seNamespace = ''ns'',
      seCheckLists = (True, True), seExpandLists = (True, True), seClass = (\<lambda>c. Found (Some True)),
      sePatch = (\<lambda>n. True), seGet = True, seDelete = deletes, seGone = True, seExpanding = Written,
      seFailed = Written, seError = ''timeout''\<rparr>"

definition storage_cluster :: cluster where
  "storage_cluster = staging_cluster\<lparr>clName := ''c''\<rparr>"

definition storage_example :: "pvc list \<Rightarrow> string storage_world" where
  "storage_example claims =
     \<lparr>swWorld = \<lparr>wMem = storage_cluster, wStored = storage_cluster, wSts = None, wDeferred = None, wDrainDeferred = None,
                 wAddresses = Map.empty, wWake = None, wLog = []\<rparr>,
      swClaims = claims, swSet = Some held_example, swKept = Map.empty\<rparr>"

definition two_claims :: "pvc list" where
  "two_claims = [claim_example ''0'' 10, claim_example ''1'' 10]"

definition sizes :: "'t storage_world \<Rightarrow> int list" where
  "sizes w = map pvcSize (swClaims w)"

lemma storage_example_pass:
  "sizes (fst (reconcileStorageExpansion (storage_env_example True) (storage_example two_claims))) = [20, 20] \<and>
   snd (reconcileStorageExpansion (storage_env_example True) (storage_example two_claims)) = Inr False \<and>
   Option.is_none (swSet (fst (reconcileStorageExpansion (storage_env_example True) (storage_example two_claims))))"
  by code_simp

lemma two_claims_distinct: "distinct (map pvcName (swClaims (storage_example two_claims)))"
  by code_simp

theorem claims_grow_before_the_set_goes_witness:
  "list_all2 grown two_claims
     (swClaims (fst (reconcileStorageExpansion (storage_env_example True) (storage_example two_claims))))"
  using claims_grow_before_the_set_goes [OF two_claims_distinct, OF prod.collapse [symmetric], of "storage_env_example True"]
  by (simp add: storage_example_def)

theorem expansion_restarts_no_server_witness:
  "\<forall>cl. \<exists>s1 s2 d2. recreated (\<lambda>t. t) recreate_env_example recreate_env_example True cl ''c'' wanted_example
      (swKept (fst (reconcileStorageExpansion (storage_env_example True) (storage_example two_claims)))) =
        (Some s1, Some s2, d2) \<and>
    remembered d2 (ssNamespace wanted_example) (ssName wanted_example) ''c'' = None \<and> \<not> snd (pending_restore s2) \<and>
    view s2 = resized (ssClaimSize wanted_example) (view held_example) \<and> keeps_revisions held_example s1 s2 3"
  (is "\<forall>cl. ?P cl")
proof
  fix cl
  have ok: "deleted_ok (\<lambda>t. t) ''c'' held_example wanted_example 3 2"
    by (simp add: deleted_ok_def held_example_def wanted_example_def ownedBy_def)
  have gone: "swSet (fst (reconcileStorageExpansion (storage_env_example True) (storage_example two_claims))) = None"
    using storage_example_pass by (simp add: Option.is_none_def)
  have held: "swSet (storage_example two_claims) = Some held_example" by (simp add: storage_example_def)
  have rest: "ssAnnotations wanted_example recreateRestorePartitionAnnotation = None"
    "reFleet recreate_env_example (ssTemplate held_example) = ssTemplate held_example"
    "reRevision recreate_env_example (ssCurrentRevision held_example) = Some ''old''"
    "''old'' = ssCurrentRevision held_example"
    "reRevision recreate_env_example (ssUpdateRevision held_example) = Some ''new''"
    "''new'' = ssUpdateRevision held_example" "reLands recreate_env_example"
    by (simp_all add: held_example_def wanted_example_def recreate_env_example_def)
  show "?P cl"
    by (rule expansion_restarts_no_server [OF two_claims_distinct prod.collapse [symmetric] held gone ok,
          where below = "''old''" and t = "''new''"])
      (simp_all only: rest list.distinct not_False_eq_True)
qed

text \<open>
  A deletion that fails after the claims are patched is not tried again: the next pass finds the
  claims at the size asked for and does nothing, and the StatefulSet keeps the old claim size.
\<close>

definition failed_then_retried :: "string storage_world \<times> (string + bool)" where
  "failed_then_retried =
     reconcileStorageExpansion (storage_env_example True)
       (fst (reconcileStorageExpansion (storage_env_example False) (storage_example two_claims)))"

lemma failed_delete_is_not_retried:
  "Option.is_none (swSet (fst failed_then_retried)) = False \<and> snd failed_then_retried = Inr False \<and>
   sizes (fst failed_then_retried) = [20, 20] \<and> map_option ssClaimSize (swSet (fst failed_then_retried)) = Some 10"
  by code_simp

text \<open>
  The check stops at the first claim that differs: with claims of 10 and 30 and a size of 20, the
  order of the list decides between an expansion and a refusal.
\<close>

lemma size_check_depends_on_order:
  "size_state 20 [claim_example ''0'' 10, claim_example ''1'' 30] = pvcSizeExpand"
  "size_state 20 [claim_example ''1'' 30, claim_example ''0'' 10] = pvcSizeShrink"
  by (simp_all add: claim_example_def)

end
