(* ===== verification/Neo4j_Conf.thy ===== *)
theory Neo4j_Conf
  imports Prelude "HOL-Library.AList"
begin

text \<open>
  The text of \<^verbatim>\<open>neo4j.conf\<close> (\<^verbatim>\<open>internal/resources/cluster.go\<close>): the settings a rendered
  file declares (\<open>Neo4jConfSettings\<close>), the pass that leaves one declaration of each
  (\<open>DedupeNeo4jConf\<close>), the one that joins settings from elsewhere
  (\<open>UpsertNeo4jConfSettings\<close>), the comma-separated lists whose values are joined rather than
  replaced, and the names the settings have as environment variables.

  A file is a string; its lines are what \<^verbatim>\<open>strings.Split(conf, "\n")\<close> gives. A Go map that is
  only looked up is a HOL map; one that is iterated over is an association list with distinct
  keys, which \<open>AList.update\<close> keeps.

  What a file declares is stated by \<open>values_of\<close>, the values of one key in the order of
  the lines, and \<open>resolved\<close>, the one value those stand for: the last one, or for a list the union.
\<close>

section \<open>Lines and lists\<close>

abbreviation eol :: char where "eol \<equiv> CHR 0x0A"

definition additiveConfKeys :: "string list" where
  "additiveConfKeys =
     [''dbms.security.procedures.unrestricted'', ''dbms.security.procedures.allowlist'',
      ''dbms.security.procedures.denylist'', ''dbms.security.http_auth_allowlist'',
      ''server.unmanaged_extension_classes'']"

definition IsAdditiveConfKey :: "string \<Rightarrow> bool" where
  "IsAdditiveConfKey key = (key \<in> set additiveConfKeys)"

definition repeatableConfKey :: "string \<Rightarrow> bool" where
  "repeatableConfKey key = (key = ''server.jvm.additional'' \<or> key = ''dbms.jvm.additional'')"

text \<open>
  The key and the value a line sets. \<open>DedupeNeo4jConf\<close> has this as a closure;
  \<open>UpsertNeo4jConfSettings\<close> and \<open>Neo4jConfSettings\<close> repeat its body.
\<close>

definition settingKV :: "string \<Rightarrow> (string \<times> string) option" where
  "settingKV line =
     (let t = trim_space line in
      if t = [] \<or> has_prefix t ''#'' then None
      else case str_index t ''='' of
             None \<Rightarrow> None
           | Some eq \<Rightarrow>
               if eq = 0 then None
               else let k = trim_space (take eq t) in
                    if repeatableConfKey k then None
                    else Some (k, trim_space (drop (Suc eq) t)))"

text \<open>
  The tokens of a comma-separated list, added to those there are: trimmed, without empty ones,
  each once, in the order they are first seen. The \<open>seen\<close> maps of the source hold the tokens
  appended so far.
\<close>

definition add_token :: "string list \<Rightarrow> string \<Rightarrow> string list" where
  "add_token acc tok = (if tok = [] \<or> tok \<in> set acc then acc else acc @ [tok])"

definition add_tokens :: "string list \<Rightarrow> string \<Rightarrow> string list" where
  "add_tokens acc s = foldl add_token acc (map trim_space (split_on CHR '','' s))"

definition unionCSV :: "string \<Rightarrow> string \<Rightarrow> string" where
  "unionCSV a b = join '','' (foldl add_tokens [] [a, b])"

definition MergeConfListValues :: "string \<Rightarrow> string \<Rightarrow> string" where
  "MergeConfListValues a b = unionCSV a b"

definition sanitizeConfValue :: "string \<Rightarrow> string" where
  "sanitizeConfValue v =
     (if eol \<notin> set v \<and> CHR 0x0D \<notin> set v then v
      else filter (\<lambda>c. c \<noteq> eol \<and> c \<noteq> CHR 0x0D) v)"


section \<open>The passes over a file\<close>

text \<open>A setting's line, \<^verbatim>\<open>fmt.Sprintf("%s=%s", k, v)\<close>.\<close>

definition set_line :: "string \<Rightarrow> string \<Rightarrow> string" where
  "set_line k v = k @ ''='' @ v"

definition Neo4jConfSettings :: "string \<Rightarrow> (string \<times> string) list" where
  "Neo4jConfSettings conf =
     foldl (\<lambda>out line. case settingKV line of None \<Rightarrow> out | Some (k, v) \<Rightarrow> AList.update k v out)
       [] (split_on eol conf)"

subsection \<open>One declaration of each setting\<close>

record conf_scan =
  lastIdx :: "string \<rightharpoonup> nat"
  mergedTokens :: "string \<Rightarrow> string list"

definition scan_line :: "nat \<Rightarrow> string \<Rightarrow> conf_scan \<Rightarrow> conf_scan" where
  "scan_line i line st =
     (case settingKV line of
        None \<Rightarrow> st
      | Some (k, v) \<Rightarrow>
          let st1 = st\<lparr>lastIdx := (lastIdx st)(k \<mapsto> i)\<rparr> in
          if IsAdditiveConfKey k
          then st1\<lparr>mergedTokens := (mergedTokens st1)(k := add_tokens (mergedTokens st1 k) v)\<rparr>
          else st1)"

primrec scan_lines :: "nat \<Rightarrow> string list \<Rightarrow> conf_scan \<Rightarrow> conf_scan" where
  "scan_lines i [] st = st"
| "scan_lines i (line # lines) st = scan_lines (Suc i) lines (scan_line i line st)"

definition keep_line :: "conf_scan \<Rightarrow> nat \<Rightarrow> string \<Rightarrow> string list" where
  "keep_line st i line =
     (case settingKV line of
        None \<Rightarrow> [line]
      | Some (k, _) \<Rightarrow>
          if lastIdx st k \<noteq> Some i then []
          else if IsAdditiveConfKey k then [set_line k (join '','' (mergedTokens st k))]
          else [line])"

primrec keep_lines :: "conf_scan \<Rightarrow> nat \<Rightarrow> string list \<Rightarrow> string list" where
  "keep_lines st i [] = []"
| "keep_lines st i (line # lines) = keep_line st i line @ keep_lines st (Suc i) lines"

definition dedupe_lines :: "string list \<Rightarrow> string list" where
  "dedupe_lines lines =
     keep_lines (scan_lines 0 lines \<lparr>lastIdx = Map.empty, mergedTokens = \<lambda>_. []\<rparr>) 0 lines"

definition DedupeNeo4jConf :: "string \<Rightarrow> string" where
  "DedupeNeo4jConf conf = join [eol] (dedupe_lines (split_on eol conf))"

subsection \<open>Settings from elsewhere\<close>

record conf_upsert =
  up_lines :: "string list"
  keyIdx :: "string \<rightharpoonup> nat"
  keyVal :: "string \<rightharpoonup> string"

primrec index_lines :: "nat \<Rightarrow> string list \<Rightarrow> conf_upsert \<Rightarrow> conf_upsert" where
  "index_lines i [] st = st"
| "index_lines i (line # lines) st =
     index_lines (Suc i) lines
       (case settingKV line of
          None \<Rightarrow> st
        | Some (k, v) \<Rightarrow> st\<lparr>keyIdx := (keyIdx st)(k \<mapsto> i), keyVal := (keyVal st)(k \<mapsto> v)\<rparr>)"

definition upsert_key :: "(string \<rightharpoonup> string) \<Rightarrow> conf_upsert \<Rightarrow> string \<Rightarrow> conf_upsert" where
  "upsert_key settings st k =
     (let v = sanitizeConfValue (case settings k of Some v \<Rightarrow> v | None \<Rightarrow> []) in
      case keyIdx st k of
        Some idx \<Rightarrow>
          if IsAdditiveConfKey k
          then let merged = unionCSV (case keyVal st k of Some w \<Rightarrow> w | None \<Rightarrow> []) v in
               st\<lparr>up_lines := (up_lines st)[idx := set_line k merged],
                  keyVal := (keyVal st)(k \<mapsto> merged)\<rparr>
          else st
      | None \<Rightarrow>
          st\<lparr>up_lines := up_lines st @ [set_line k v],
             keyIdx := (keyIdx st)(k \<mapsto> length (up_lines st)),
             keyVal := (keyVal st)(k \<mapsto> v)\<rparr>)"

definition upsert_lines :: "(string \<times> string) list \<Rightarrow> string list \<Rightarrow> string list" where
  "upsert_lines settings lines =
     up_lines (foldl (upsert_key (map_of settings))
       (index_lines 0 lines \<lparr>up_lines = lines, keyIdx = Map.empty, keyVal = Map.empty\<rparr>)
       (sorted_set (map fst settings)))"

definition UpsertNeo4jConfSettings :: "string \<Rightarrow> (string \<times> string) list \<Rightarrow> string" where
  "UpsertNeo4jConfSettings conf settings =
     (if settings = [] then conf
      else join [eol] (upsert_lines settings (split_on eol conf)))"

subsection \<open>Settings as environment variables\<close>

text \<open>\<^verbatim>\<open>strings.ReplaceAll\<close> of one character.\<close>

definition replace_char :: "char \<Rightarrow> string \<Rightarrow> string \<Rightarrow> string" where
  "replace_char c w s = concat (map (\<lambda>x. if x = c then w else [x]) s)"

definition Neo4jSettingEnvVarName :: "string \<Rightarrow> string" where
  "Neo4jSettingEnvVarName key =
     ''NEO4J_'' @ replace_char CHR ''.'' ''_'' (replace_char CHR ''_'' ''__'' key)"

definition IsAdditiveConfEnvName :: "string \<Rightarrow> bool" where
  "IsAdditiveConfEnvName name = list_ex (\<lambda>key. Neo4jSettingEnvVarName key = name) additiveConfKeys"

definition AdditiveConfKeyForEnvName :: "string \<Rightarrow> string option" where
  "AdditiveConfKeyForEnvName name = find (\<lambda>key. Neo4jSettingEnvVarName key = name) additiveConfKeys"

text \<open>
  A variable of \<open>spec.env\<close>: its name, its value, and whether the value comes from a Secret or a
  ConfigMap (\<open>ValueFrom\<close>).
\<close>

record spec_env =
  env_name :: string
  env_value :: string
  env_from :: bool

definition SpecEnvListKey :: "spec_env \<Rightarrow> string option" where
  "SpecEnvListKey e = (if env_from e then None else AdditiveConfKeyForEnvName (env_name e))"

definition add_env_list :: "(string \<times> string) list \<Rightarrow> spec_env \<Rightarrow> (string \<times> string) list" where
  "add_env_list acc e =
     (case SpecEnvListKey e of
        None \<Rightarrow> acc
      | Some key \<Rightarrow>
          if trim_space (env_value e) = [] then acc
          else AList.update key
                 (MergeConfListValues (case map_of acc key of Some v \<Rightarrow> v | None \<Rightarrow> []) (env_value e))
                 acc)"

definition SpecEnvLists :: "spec_env list \<Rightarrow> (string \<times> string) list" where
  "SpecEnvLists env = foldl add_env_list [] env"


section \<open>Trimmed text\<close>

named_theorems conf_text \<open>trimmed tokens and the lines built from them\<close>

definition trimmed :: "string \<Rightarrow> bool" where
  "trimmed s = (s = [] \<or> \<not> is_space (hd s) \<and> \<not> is_space (last s))"

lemma trim_space_trimmed [simp, conf_text]: "trimmed s \<Longrightarrow> trim_space s = s"
  by (cases "s = []") (auto simp: trimmed_def intro: trim_space_ends, simp add: trim_space_def)

lemma last_dropWhile: "dropWhile P xs \<noteq> [] \<Longrightarrow> last (dropWhile P xs) = last xs"
  by (induction xs) (auto split: if_splits)

lemma dropWhile_empty_iff: "dropWhile P xs = [] \<longleftrightarrow> (\<forall>x\<in>set xs. P x)"
  by (induction xs) auto

lemma set_trim_space: "set (trim_space s) \<subseteq> set s"
  unfolding trim_space_def by (metis set_dropWhileD set_rev subsetI)

lemma trimmed_trim_space [simp, conf_text]: "trimmed (trim_space s)"
proof (cases "trim_space s = []")
  case False
  let ?u = "dropWhile is_space s"
  have ne: "dropWhile is_space (rev ?u) \<noteq> []"
    using False by (simp add: trim_space_def)
  then have "?u \<noteq> []" by force
  then have "\<not> is_space (hd ?u)" by (simp add: hd_dropWhile)
  moreover have "hd (trim_space s) = hd ?u"
    using ne last_dropWhile[OF ne] by (simp add: trim_space_def hd_rev last_rev)
  moreover have "\<not> is_space (last (trim_space s))"
    using ne by (simp add: trim_space_def last_rev hd_dropWhile)
  ultimately show ?thesis by (simp add: trimmed_def)
qed (simp add: trimmed_def)

lemma trim_space_Cons_mid:
  assumes "k \<noteq> []" "\<not> is_space (hd k)" "\<not> is_space c"
  shows "trim_space (k @ c # v) = k @ c # rev (dropWhile is_space (rev v))"
proof -
  have "dropWhile is_space (k @ c # v) = k @ c # v"
    using assms(1,2) by (cases k) auto
  moreover have "dropWhile is_space (rev v @ c # rev k) = dropWhile is_space (rev v) @ c # rev k"
    using assms(3) by (simp add: dropWhile_append)
  ultimately show ?thesis by (simp add: trim_space_def)
qed

lemma trim_space_rtrim: "trim_space (rev (dropWhile is_space (rev v))) = trim_space v"
proof (cases "\<forall>x\<in>set v. is_space x")
  case True
  then have "dropWhile is_space (rev v) = []" "dropWhile is_space v = []"
    by (simp_all add: dropWhile_empty_iff)
  then show ?thesis unfolding trim_space_def by (simp del: dropWhile_eq_Nil_conv)
next
  case False
  then obtain x y w where v: "v = x @ y # w" "\<not> is_space y" "\<forall>c\<in>set x. is_space c"
    using split_list_first_prop[of v "\<lambda>c. \<not> is_space c"] by auto
  have d: "dropWhile is_space (u @ [y] @ z) = dropWhile is_space u @ [y] @ z" for u z
    using v(2) by (simp add: dropWhile_append)
  have e: "dropWhile is_space (x @ y # z) = y # z" for z
    using v(2,3) by (simp add: dropWhile_append2)
  show ?thesis
    using d[of "rev w" "rev x"] d[of "rev w" "[]"] d[of "dropWhile is_space (rev w)" "[]"]
    by (simp add: v(1) trim_space_def e)
qed

lemma trimmed_join [conf_text]:
  assumes "\<forall>t\<in>set ts. trimmed t \<and> t \<noteq> []"
  shows "trimmed (join '','' ts)"
  using assms
proof (induction ts)
  case (Cons t ts)
  show ?case
  proof (cases "ts = []")
    case False
    then have "trimmed (join '','' ts)" "join '','' ts \<noteq> []"
      using Cons by (auto simp: join_eq_Nil)
    then show ?thesis
      using Cons.prems False by (auto simp: trimmed_def join_Cons)
  qed (use Cons in simp)
qed (simp add: trimmed_def)


section \<open>What a line and a list say\<close>

text \<open>A key a line can set: what \<open>settingKV\<close> reads back from the line written for it.\<close>

definition conf_key :: "string \<Rightarrow> bool" where
  "conf_key k = (k \<noteq> [] \<and> trimmed k \<and> CHR ''='' \<notin> set k \<and> hd k \<noteq> CHR ''#'' \<and>
                 eol \<notin> set k \<and> \<not> repeatableConfKey k)"

lemma additive_conf_key [simp]: "IsAdditiveConfKey k \<Longrightarrow> conf_key k"
  unfolding IsAdditiveConfKey_def additiveConfKeys_def
  by (auto simp: conf_key_def trimmed_def is_space_def repeatableConfKey_def)

lemma str_index_eq: "CHR ''='' \<notin> set k \<Longrightarrow> str_index (k @ CHR ''='' # v) ''='' = Some (length k)"
  by (induction k) (auto simp: has_prefix_iff)

lemma settingKV_set_line [simp]:
  assumes "conf_key k"
  shows "settingKV (set_line k v) = Some (k, trim_space v)"
proof -
  note k = assms[unfolded conf_key_def]
  have t: "trim_space (set_line k v) = k @ CHR ''='' # rev (dropWhile is_space (rev v))"
    unfolding set_line_def using k trim_space_Cons_mid[of k "CHR ''=''" v]
    by (auto simp: trimmed_def is_space_def)
  show ?thesis
    unfolding settingKV_def Let_def t
    using k by (simp add: str_index_eq trim_space_rtrim has_prefix_iff) (cases k; auto)
qed

lemma settingKV_SomeD:
  assumes "settingKV line = Some (k, v)" "eol \<notin> set line"
  shows "conf_key k" "trimmed v" "eol \<notin> set v"
proof -
  let ?t = "trim_space line"
  from assms obtain eq where eq: "str_index ?t ''='' = Some eq" "eq \<noteq> 0" "?t \<noteq> []"
      "\<not> has_prefix ?t ''#''" "k = trim_space (take eq ?t)" "v = trim_space (drop (Suc eq) ?t)"
      "\<not> repeatableConfKey k"
    by (auto simp: settingKV_def Let_def split: if_splits option.splits)
  from str_index_char_Some[OF eq(1)] have ix: "CHR ''='' \<notin> set (take eq ?t)" "eq < length ?t" by auto
  have hd_t: "\<not> is_space (hd ?t)" using trimmed_trim_space[of line] eq(3) by (simp add: trimmed_def)
  obtain c w where cw: "take eq ?t = c # w" "hd ?t = c"
    using eq(2,3) by (cases ?t; cases eq) auto
  have "dropWhile is_space (take eq ?t) = take eq ?t"
    using cw hd_t by simp
  then have k: "k = rev (dropWhile is_space (rev w @ [c]))"
    unfolding eq(5) cw(1) using cw by (simp add: trim_space_def[of "c # w"])
  have k': "k = c # rev (dropWhile is_space (rev w))"
  proof -
    have "dropWhile is_space (rev w @ [c]) = dropWhile is_space (rev w) @ [c]"
      using hd_t cw(2) by (simp add: dropWhile_append)
    then show ?thesis using k by simp
  qed
  have sub: "set k \<subseteq> set line"
    using set_trim_space[of "take eq ?t"] set_trim_space[of line] set_take_subset[of eq ?t] eq(5) by blast
  have "c \<noteq> CHR ''#''" using eq(4) cw by (cases ?t) (auto simp: has_prefix_iff)
  moreover have "CHR ''='' \<notin> set k" using ix(1) set_trim_space[of "take eq ?t"] eq(5) by blast
  moreover have "trimmed k" by (simp add: eq(5))
  ultimately show "conf_key k"
    using k' sub assms(2) eq(7) by (auto simp: conf_key_def simp del: trimmed_trim_space)
  show "trimmed v" by (simp add: eq(6))
  show "eol \<notin> set v"
    using set_trim_space[of "drop (Suc eq) ?t"] set_trim_space[of line] set_drop_subset[of "Suc eq" ?t]
      eq(6) assms(2) by blast
qed


subsection \<open>Tokens\<close>

text \<open>Tokens as a list holds them: no blanks around them, no commas in them, each once.\<close>

definition token :: "string \<Rightarrow> bool" where
  "token t = (t \<noteq> [] \<and> trimmed t \<and> CHR '','' \<notin> set t)"

definition tokens :: "string list \<Rightarrow> bool" where
  "tokens ts = (distinct ts \<and> (\<forall>t\<in>set ts. token t))"

lemma add_token_tokens: "tokens acc \<Longrightarrow> trimmed t \<Longrightarrow> CHR '','' \<notin> set t \<Longrightarrow> tokens (add_token acc t)"
  by (auto simp: tokens_def token_def add_token_def)

lemma foldl_add_token_tokens:
  "tokens acc \<Longrightarrow> \<forall>t\<in>set ts. trimmed t \<and> CHR '','' \<notin> set t \<Longrightarrow> tokens (foldl add_token acc ts)"
  by (induction ts arbitrary: acc) (auto simp: add_token_tokens)

lemma trimmed_parts:
  assumes "t \<in> set (map trim_space (split_on c s))"
  shows "trimmed t \<and> c \<notin> set t"
proof -
  from assms obtain p where p: "p \<in> set (split_on c s)" "t = trim_space p" by auto
  from split_on_parts[OF p(1)] set_trim_space[of p] p(2) show ?thesis by auto
qed

lemma add_tokens_tokens [simp]: "tokens acc \<Longrightarrow> tokens (add_tokens acc s)"
  unfolding add_tokens_def by (intro foldl_add_token_tokens ballI trimmed_parts)

lemma tokens_Nil [simp]: "tokens []"
  by (simp add: tokens_def)

lemma foldl_add_tokens_tokens [simp]: "tokens acc \<Longrightarrow> tokens (foldl add_tokens acc vs)"
  by (induction vs arbitrary: acc) auto

lemma trimmed_join_tokens [simp]: "tokens ts \<Longrightarrow> trimmed (join '','' ts)"
  by (rule trimmed_join) (auto simp: tokens_def token_def)

lemma set_foldl_add_token:
  "set (foldl add_token acc ts) = set acc \<union> (set ts - {[]})"
  by (induction ts arbitrary: acc) (auto simp: add_token_def)

lemma set_add_tokens: "set (add_tokens acc s) = set acc \<union> (set (map trim_space (split_on CHR '','' s)) - {[]})"
  by (simp add: add_tokens_def set_foldl_add_token)

text \<open>The tokens of a list written from tokens are those tokens.\<close>

lemma split_join_tokens:
  assumes "tokens ts" "ts \<noteq> []"
  shows "map trim_space (split_on CHR '','' (join '','' ts)) = ts"
proof -
  have "split_on CHR '','' (join '','' ts) = ts"
    using assms by (intro split_on_join) (auto simp: tokens_def token_def)
  then show ?thesis
    using assms(1) by (auto simp: tokens_def token_def intro!: map_idI)
qed

lemma add_tokens_join: "tokens ts \<Longrightarrow> add_tokens acc (join '','' ts) = foldl add_token acc ts"
proof (cases "ts = []")
  case True
  then show ?thesis by (simp add: add_tokens_def add_token_def trim_space_def)
qed (simp add: add_tokens_def split_join_tokens)

lemma foldl_add_token_distinct:
  "distinct ts \<Longrightarrow> set acc \<inter> set ts = {} \<Longrightarrow> [] \<notin> set ts \<Longrightarrow> foldl add_token acc ts = acc @ ts"
  by (induction ts arbitrary: acc) (auto simp: add_token_def)

lemma foldl_add_token_known: "set ts \<subseteq> set acc \<union> {[]} \<Longrightarrow> foldl add_token acc ts = acc"
  by (induction ts arbitrary: acc) (auto simp: add_token_def)

lemma add_tokens_join_Nil [simp]: "tokens ts \<Longrightarrow> add_tokens [] (join '','' ts) = ts"
  using foldl_add_token_distinct[of ts "[]"] by (auto simp: add_tokens_join tokens_def token_def)

text \<open>Adding a union adds the tokens of its members, one after the other.\<close>

lemma foldl_add_token_acc:
  "foldl add_token acc (foldl add_token [] ts) = foldl add_token acc ts"
proof (induction ts rule: rev_induct)
  case (snoc t ts)
  have "set (foldl add_token acc ts) \<supseteq> set ts - {[]}" by (auto simp: set_foldl_add_token)
  with snoc show ?case
    by (auto simp: add_token_def[of "foldl add_token [] ts"] set_foldl_add_token)
       (auto simp: add_token_def set_foldl_add_token)
qed simp

lemma add_tokens_foldl: "foldl add_tokens acc vs = foldl add_token acc (concat (map (\<lambda>s. map trim_space (split_on CHR '','' s)) vs))"
  by (induction vs arbitrary: acc) (auto simp: add_tokens_def)

lemma add_tokens_union: "add_tokens acc (join '','' (foldl add_tokens [] vs)) = foldl add_tokens acc vs"
  by (subst add_tokens_join, simp) (simp add: add_tokens_foldl foldl_add_token_acc)

lemma unionCSV_tokens [simp]: "add_tokens [] (unionCSV a b) = foldl add_tokens [] [a, b]"
  unfolding unionCSV_def by (rule add_tokens_union)


section \<open>What a file declares\<close>

definition values_of :: "string \<Rightarrow> string list \<Rightarrow> string list" where
  "values_of k lines = map snd (filter (\<lambda>p. fst p = k) (List.map_filter settingKV lines))"

definition resolved :: "string \<Rightarrow> string list \<Rightarrow> string option" where
  "resolved k vs =
     (if vs = [] then None
      else if IsAdditiveConfKey k then Some (join '','' (foldl add_tokens [] vs))
      else Some (last vs))"

definition plain_line :: "string \<Rightarrow> bool" where
  "plain_line line = Option.is_none (settingKV line)"

lemma values_of_Nil [simp]: "values_of k [] = []"
  by (simp add: values_of_def List.map_filter_simps)

lemma values_of_Cons [simp]:
  "values_of k (l # ls) =
     (case settingKV l of Some (k', v) \<Rightarrow> if k' = k then [v] else [] | None \<Rightarrow> []) @ values_of k ls"
  by (auto simp: values_of_def List.map_filter_simps split: option.splits)

lemma values_of_append [simp]: "values_of k (xs @ ys) = values_of k xs @ values_of k ys"
  by (induction xs) auto

lemma map_of_Neo4jConfSettings_lines:
  "map_of (foldl (\<lambda>out line. case settingKV line of None \<Rightarrow> out | Some (k, v) \<Rightarrow> AList.update k v out) m ls) k =
     (if values_of k ls = [] then map_of m k else Some (last (values_of k ls)))"
  by (induction ls arbitrary: m) (auto simp: update_conv' split: option.splits prod.splits)

lemma distinct_Neo4jConfSettings_lines:
  "distinct (map fst m) \<Longrightarrow>
   distinct (map fst (foldl (\<lambda>out line. case settingKV line of None \<Rightarrow> out | Some (k, v) \<Rightarrow> AList.update k v out) m ls))"
  by (induction ls arbitrary: m) (auto simp: distinct_update split: option.splits prod.splits)

lemma map_of_Neo4jConfSettings:
  "map_of (Neo4jConfSettings conf) k =
     (let vs = values_of k (split_on eol conf) in if vs = [] then None else Some (last vs))"
  by (simp add: Neo4jConfSettings_def map_of_Neo4jConfSettings_lines)

lemma distinct_Neo4jConfSettings [simp]: "distinct (map fst (Neo4jConfSettings conf))"
  unfolding Neo4jConfSettings_def by (rule distinct_Neo4jConfSettings_lines) simp

lemma values_of_key:
  assumes "values_of k ls \<noteq> []" "\<forall>l\<in>set ls. eol \<notin> set l"
  shows "conf_key k"
  using assms by (induction ls) (auto split: option.splits prod.splits if_splits dest: settingKV_SomeD)

lemma values_of_value:
  assumes "v \<in> set (values_of k ls)" "\<forall>l\<in>set ls. eol \<notin> set l"
  shows "trimmed v" "eol \<notin> set v"
  using assms
  by (induction ls)
     (auto split: option.splits prod.splits if_splits dest: settingKV_SomeD(2,3)[OF sym])

lemma lines_no_eol: "l \<in> set (split_on eol conf) \<Longrightarrow> eol \<notin> set l"
  using split_on_parts by blast



section \<open>\<open>DedupeNeo4jConf\<close>\<close>

text \<open>
  The two loops together: a line is kept unless a later line sets its key, and a list's line
  holds the tokens of every line of its key.
\<close>

primrec drop_earlier :: "(string \<Rightarrow> string list) \<Rightarrow> string list \<Rightarrow> string list" where
  "drop_earlier toks [] = []"
| "drop_earlier toks (l # ls) =
     (case settingKV l of
        None \<Rightarrow> [l]
      | Some (k, _) \<Rightarrow>
          if values_of k ls \<noteq> [] then []
          else if IsAdditiveConfKey k then [set_line k (join '','' (toks k))] else [l])
     @ drop_earlier toks ls"

lemma lastIdx_scan_lines:
  "values_of k ls = [] \<Longrightarrow> lastIdx (scan_lines i ls st) k = lastIdx st k"
  "values_of k ls \<noteq> [] \<Longrightarrow> \<exists>j\<ge>i. lastIdx (scan_lines i ls st) k = Some j"
proof (induction ls arbitrary: i st)
  case (Cons l ls)
  {
    case 1
    then show ?case
      using Cons.IH(1) by (auto simp: scan_line_def Let_def split: option.splits prod.splits)
  next
    case 2
    show ?case
    proof (cases "values_of k ls = []")
      case True
      with 2 obtain v where "settingKV l = Some (k, v)"
        by (auto split: option.splits prod.splits if_splits)
      then show ?thesis using Cons.IH(1)[OF True] by (auto simp: scan_line_def Let_def)
    next
      case False
      then show ?thesis using Cons.IH(2)[of "Suc i"] Suc_leD by fastforce
    qed
  }
qed simp_all

lemma mergedTokens_scan_lines:
  "mergedTokens (scan_lines i ls st) k =
     (if IsAdditiveConfKey k then foldl add_tokens (mergedTokens st k) (values_of k ls)
      else mergedTokens st k)"
  by (induction ls arbitrary: i st) (auto simp: scan_line_def Let_def split: option.splits prod.splits)

lemma keep_lines_eq:
  assumes "\<And>k. values_of k ls \<noteq> [] \<Longrightarrow> lastIdx fin k = lastIdx (scan_lines i ls st) k"
  shows "keep_lines fin i ls = drop_earlier (mergedTokens fin) ls"
  using assms
proof (induction ls arbitrary: i st)
  case (Cons l ls)
  have IH: "keep_lines fin (Suc i) ls = drop_earlier (mergedTokens fin) ls"
    by (rule Cons.IH[of _ "scan_line i l st"]) (use Cons.prems in auto)
  show ?case
  proof (cases "settingKV l")
    case (Some p)
    obtain k v where kv: "settingKV l = Some (k, v)" using Some by (cases p) auto
    have fin: "lastIdx fin k = lastIdx (scan_lines (Suc i) ls (scan_line i l st)) k"
      using Cons.prems[of k] kv by simp
    show ?thesis
    proof (cases "values_of k ls = []")
      case True
      then have "lastIdx fin k = Some i"
        using fin kv by (simp add: lastIdx_scan_lines scan_line_def Let_def)
      with True kv IH show ?thesis by (simp add: keep_line_def)
    next
      case False
      then have "lastIdx fin k \<noteq> Some i"
        using fin lastIdx_scan_lines(2)[OF False, of "Suc i" "scan_line i l st"] by auto
      with False kv IH show ?thesis by (simp add: keep_line_def)
    qed
  qed (simp add: keep_line_def IH)
qed simp

abbreviation merged :: "string list \<Rightarrow> string \<Rightarrow> string list" where
  "merged ls k \<equiv> if IsAdditiveConfKey k then foldl add_tokens [] (values_of k ls) else []"

lemma dedupe_lines_eq: "dedupe_lines ls = drop_earlier (merged ls) ls"
proof -
  let ?fin = "scan_lines 0 ls \<lparr>lastIdx = Map.empty, mergedTokens = \<lambda>_. []\<rparr>"
  have "mergedTokens ?fin = merged ls" by (simp add: fun_eq_iff mergedTokens_scan_lines)
  then show ?thesis
    unfolding dedupe_lines_def by (metis keep_lines_eq)
qed

lemma values_of_drop_earlier:
  assumes "\<And>k. tokens (toks k)"
  shows "values_of k (drop_earlier toks ls) =
     (if values_of k ls = [] then []
      else [if IsAdditiveConfKey k then join '','' (toks k) else last (values_of k ls)])"
  using assms by (induction ls) (auto split: option.splits prod.splits)

lemma plain_drop_earlier: "filter plain_line (drop_earlier toks ls) = filter plain_line ls"
  by (induction ls) (auto simp: plain_line_def split: option.splits prod.splits)

lemma tokens_merged [simp]: "tokens (merged ls k)"
  by simp

lemma values_of_dedupe:
  "values_of k (dedupe_lines ls) = (case resolved k (values_of k ls) of None \<Rightarrow> [] | Some v \<Rightarrow> [v])"
  unfolding dedupe_lines_eq by (subst values_of_drop_earlier) (auto simp: resolved_def)

lemma plain_dedupe: "filter plain_line (dedupe_lines ls) = filter plain_line ls"
  by (simp add: dedupe_lines_eq plain_drop_earlier)


text \<open>Every line of the result is a line of the file or a list's line; neither breaks a line.\<close>

lemma eol_join: "eol \<notin> set (join '','' ts) \<longleftrightarrow> (\<forall>t\<in>set ts. eol \<notin> set t)"
proof (induction ts)
  case (Cons t ts)
  then show ?case by (cases "ts = []") (auto simp: join_Cons)
qed simp

lemma eol_foldl_add_token:
  "\<forall>t\<in>set acc \<union> set ts. eol \<notin> set t \<Longrightarrow> \<forall>t\<in>set (foldl add_token acc ts). eol \<notin> set t"
  by (auto simp: set_foldl_add_token)

lemma eol_foldl_add_tokens:
  assumes "\<forall>v\<in>set vs. eol \<notin> set v"
  shows "\<forall>t\<in>set (foldl add_tokens [] vs). eol \<notin> set t"
  unfolding add_tokens_foldl
proof (intro eol_foldl_add_token ballI)
  fix t assume "t \<in> set [] \<union> set (concat (map (\<lambda>s. map trim_space (split_on CHR '','' s)) vs))"
  then obtain v p where "v \<in> set vs" "p \<in> set (split_on CHR '','' v)" "t = trim_space p" by auto
  then show "eol \<notin> set t"
    using split_on_parts[of p "CHR '',''" v] set_trim_space[of p] assms by auto
qed

lemma eol_drop_earlier:
  assumes "\<forall>l\<in>set ls. eol \<notin> set l" "\<And>k. \<forall>t\<in>set (toks k). eol \<notin> set t"
  shows "\<forall>l\<in>set (drop_earlier toks ls). eol \<notin> set l"
  using assms
proof (induction ls)
  case (Cons l ls)
  have "conf_key k \<Longrightarrow> eol \<notin> set (set_line k (join '','' (toks k)))" for k
    using Cons.prems(2) by (simp add: set_line_def conf_key_def eol_join)
  with Cons show ?case by (auto split: option.splits prod.splits)
qed simp

lemma drop_earlier_Nil [simp]: "drop_earlier toks ls = [] \<longleftrightarrow> ls = []"
  by (induction ls) (auto split: option.splits prod.splits)

lemma dedupe_lines_split:
  assumes "\<forall>l\<in>set ls. eol \<notin> set l" "ls \<noteq> []"
  shows "split_on eol (join [eol] (dedupe_lines ls)) = dedupe_lines ls"
proof (rule split_on_join)
  show "dedupe_lines ls \<noteq> []" using assms(2) by (simp add: dedupe_lines_eq)
  have "\<forall>t\<in>set (merged ls k). eol \<notin> set t" for k
    using eol_foldl_add_tokens values_of_value(2)[OF _ assms(1)] by auto
  then show "\<forall>l\<in>set (dedupe_lines ls). eol \<notin> set l"
    unfolding dedupe_lines_eq by (intro eol_drop_earlier assms(1))
qed

lemma split_Dedupe [simp]: "split_on eol (DedupeNeo4jConf conf) = dedupe_lines (split_on eol conf)"
  unfolding DedupeNeo4jConf_def by (rule dedupe_lines_split) (auto dest: lines_no_eol)

text \<open>A file that declares each setting once, its lists without blanks and repetitions, stays.\<close>

definition deduped :: "string list \<Rightarrow> bool" where
  "deduped ls \<longleftrightarrow> (\<forall>k. length (values_of k ls) \<le> 1) \<and>
     (\<forall>l\<in>set ls. \<forall>k v. settingKV l = Some (k, v) \<and> IsAdditiveConfKey k \<longrightarrow>
        l = set_line k (join '','' (add_tokens [] v)))"

lemma drop_earlier_id:
  assumes "deduped ls" "\<And>k v. values_of k ls = [v] \<Longrightarrow> IsAdditiveConfKey k \<Longrightarrow> toks k = add_tokens [] v"
  shows "drop_earlier toks ls = ls"
  using assms
proof (induction ls)
  case (Cons l ls)
  have len: "length (values_of k (l # ls)) \<le> 1" for k
    using Cons.prems(1) by (simp only: deduped_def)
  have "deduped ls"
    unfolding deduped_def
  proof (intro conjI allI)
    show "length (values_of k ls) \<le> 1" for k using len[of k] by simp
  qed (use Cons.prems(1) in \<open>auto simp: deduped_def\<close>)
  moreover have "toks k = add_tokens [] v" if "values_of k ls = [v]" "IsAdditiveConfKey k" for k v
    using that len[of k] Cons.prems(2)[of k v] by (auto split: option.splits prod.splits if_splits)
  ultimately have IH: "drop_earlier toks ls = ls" by (rule Cons.IH)
  show ?case
  proof (cases "settingKV l")
    case (Some p)
    obtain k v where kv: "settingKV l = Some (k, v)" using Some by (cases p) auto
    have none: "values_of k ls = []" using len[of k] kv by simp
    have "l = set_line k (join '','' (toks k))" if "IsAdditiveConfKey k"
      using Cons.prems kv none that by (simp add: deduped_def)
    with kv none IH show ?thesis by auto
  qed (simp add: IH)
qed simp

lemma deduped_drop_earlier:
  assumes "\<And>k. tokens (toks k)"
  shows "\<forall>l\<in>set (drop_earlier toks ls). \<forall>k v. settingKV l = Some (k, v) \<and> IsAdditiveConfKey k \<longrightarrow>
        l = set_line k (join '','' (add_tokens [] v))"
  using assms by (induction ls) (auto split: option.splits prod.splits if_splits)

lemma deduped_dedupe: "deduped (dedupe_lines ls)"
  unfolding deduped_def
  by (rule conjI, simp add: values_of_dedupe split: option.splits)
     (unfold dedupe_lines_eq, rule deduped_drop_earlier, simp)

lemma dedupe_lines_id: "deduped ls \<Longrightarrow> dedupe_lines ls = ls"
  unfolding dedupe_lines_eq by (rule drop_earlier_id) auto

lemma join_split [simp]: "join [c] (split_on c s) = s"
proof (induction s)
  case (Cons x s)
  obtain y ys where y: "split_on c s = y # ys" by (cases "split_on c s") auto
  with Cons show ?case by (cases ys) auto
qed simp

text \<open>
  C26: A rendered \<^verbatim>\<open>neo4j.conf\<close> after \<open>DedupeNeo4jConf\<close> declares no setting twice, and each
  setting of the file once: with the last value the file gives it, or for one of the procedure
  and extension lists with the union of all of them. Comments, blank lines and the repeatable JVM
  lines stay as they are, in their order. Running it again changes nothing.
\<close>

theorem DedupeNeo4jConf_declares_once:
  "values_of k (split_on eol (DedupeNeo4jConf conf)) =
     (case resolved k (values_of k (split_on eol conf)) of None \<Rightarrow> [] | Some v \<Rightarrow> [v]) \<and>
   map_of (Neo4jConfSettings (DedupeNeo4jConf conf)) k = resolved k (values_of k (split_on eol conf)) \<and>
   filter plain_line (split_on eol (DedupeNeo4jConf conf)) = filter plain_line (split_on eol conf) \<and>
   DedupeNeo4jConf (DedupeNeo4jConf conf) = DedupeNeo4jConf conf"
proof (intro conjI)
  show "map_of (Neo4jConfSettings (DedupeNeo4jConf conf)) k = resolved k (values_of k (split_on eol conf))"
    by (simp add: map_of_Neo4jConfSettings values_of_dedupe split: option.splits)
  show "DedupeNeo4jConf (DedupeNeo4jConf conf) = DedupeNeo4jConf conf"
    unfolding DedupeNeo4jConf_def[of "DedupeNeo4jConf conf"] split_Dedupe
      dedupe_lines_id[OF deduped_dedupe] by (simp add: DedupeNeo4jConf_def)
qed (simp_all add: values_of_dedupe plain_dedupe)


section \<open>\<open>UpsertNeo4jConfSettings\<close>\<close>

text \<open>
  What the index of the lines says of a key: where its last line is, and the value there.
\<close>

definition idx_ok :: "string list \<Rightarrow> (string \<rightharpoonup> nat) \<Rightarrow> (string \<rightharpoonup> string) \<Rightarrow> string \<Rightarrow> bool" where
  "idx_ok ls ix vl k =
     (case ix k of
        None \<Rightarrow> values_of k ls = []
      | Some i \<Rightarrow> i < length ls \<and> values_of k (drop (Suc i) ls) = [] \<and>
                  (\<exists>w. vl k = Some w \<and> settingKV (ls ! i) = Some (k, w)))"

abbreviation up_ok :: "conf_upsert \<Rightarrow> string \<Rightarrow> bool" where
  "up_ok st k \<equiv> idx_ok (up_lines st) (keyIdx st) (keyVal st) k"

lemma idx_ok_snoc:
  assumes "idx_ok pre ix vl k"
  shows "settingKV l = None \<Longrightarrow> idx_ok (pre @ [l]) ix vl k"
    and "settingKV l = Some (k', v) \<Longrightarrow>
      idx_ok (pre @ [l]) (ix(k' \<mapsto> length pre)) (vl(k' \<mapsto> v)) k"
  using assms by (auto simp: idx_ok_def nth_append split: option.splits)

lemma index_lines_ok:
  assumes "\<And>k. idx_ok pre (keyIdx st) (keyVal st) k" "up_lines st = pre @ ls"
  shows "idx_ok (pre @ ls) (keyIdx (index_lines (length pre) ls st)) (keyVal (index_lines (length pre) ls st)) k
       \<and> up_lines (index_lines (length pre) ls st) = pre @ ls"
  using assms
proof (induction ls arbitrary: pre st)
  case (Cons l ls)
  let ?st = "case settingKV l of None \<Rightarrow> st
    | Some (k, v) \<Rightarrow> st\<lparr>keyIdx := (keyIdx st)(k \<mapsto> length pre), keyVal := (keyVal st)(k \<mapsto> v)\<rparr>"
  have "idx_ok (pre @ [l]) (keyIdx ?st) (keyVal ?st) k" for k
    using idx_ok_snoc[OF Cons.prems(1)[of k], of l] by (auto split: option.splits prod.splits)
  moreover have "up_lines ?st = (pre @ [l]) @ ls"
    using Cons.prems(2) by (auto split: option.splits prod.splits)
  ultimately show ?case using Cons.IH[of "pre @ [l]" ?st] by simp
qed simp

lemma indexed_ok:
  fixes ls :: "string list"
  defines "st \<equiv> index_lines 0 ls \<lparr>up_lines = ls, keyIdx = Map.empty, keyVal = Map.empty\<rparr>"
  shows "up_ok st k" "up_lines st = ls"
  using index_lines_ok[of "[]" "\<lparr>up_lines = ls, keyIdx = Map.empty, keyVal = Map.empty\<rparr>" ls k]
  by (simp_all add: st_def idx_ok_def)

subsection \<open>One setting\<close>

lemma values_of_at:
  assumes "i < length ls" "settingKV (ls ! i) = Some (k, w)" "settingKV l = Some (k, w')"
  shows "values_of k ls = values_of k (take i ls) @ w # values_of k (drop (Suc i) ls)"
    and "values_of k (ls[i := l]) = values_of k (take i ls) @ w' # values_of k (drop (Suc i) ls)"
    and "k' \<noteq> k \<Longrightarrow> values_of k' (ls[i := l]) = values_of k' ls"
    and "filter plain_line (ls[i := l]) = filter plain_line ls"
proof -
  have a: "ls = take i ls @ ls ! i # drop (Suc i) ls" using assms(1) by (rule id_take_nth_drop)
  have b: "ls[i := l] = take i ls @ l # drop (Suc i) ls" using assms(1) by (rule upd_conv_take_nth_drop)
  show "values_of k ls = values_of k (take i ls) @ w # values_of k (drop (Suc i) ls)"
    by (subst a) (simp add: assms(2))
  show "values_of k (ls[i := l]) = values_of k (take i ls) @ w' # values_of k (drop (Suc i) ls)"
    by (subst b) (simp add: assms(3))
  show "values_of k' (ls[i := l]) = values_of k' ls" if "k' \<noteq> k"
    by (subst b, subst (3) a) (use that assms(2,3) in simp)
  show "filter plain_line (ls[i := l]) = filter plain_line ls"
    by (subst b, subst (3) a) (simp add: assms(2,3) plain_line_def)
qed

text \<open>What the values of a key become when it is set to \<open>v\<close>.\<close>

definition upserted :: "string \<Rightarrow> string \<Rightarrow> string list \<Rightarrow> string list" where
  "upserted k v vs =
     (if vs = [] then [trim_space v]
      else if IsAdditiveConfKey k then butlast vs @ [unionCSV (last vs) v]
      else vs)"

definition given :: "(string \<rightharpoonup> string) \<Rightarrow> string \<Rightarrow> string" where
  "given settings k = sanitizeConfValue (case settings k of Some v \<Rightarrow> v | None \<Rightarrow> [])"

lemma trimmed_unionCSV [simp]: "trimmed (unionCSV a b)"
  by (simp add: unionCSV_def)

lemma upsert_key_self:
  assumes "up_ok st k" "conf_key k"
  shows "values_of k (up_lines (upsert_key settings st k)) =
           upserted k (given settings k) (values_of k (up_lines st))"
    and "filter plain_line (up_lines (upsert_key settings st k)) = filter plain_line (up_lines st)"
    and "k' \<noteq> k \<Longrightarrow> values_of k' (up_lines (upsert_key settings st k)) = values_of k' (up_lines st)"
proof -
  let ?g = "given settings k"
  have "values_of k (up_lines (upsert_key settings st k)) = upserted k ?g (values_of k (up_lines st)) \<and>
      filter plain_line (up_lines (upsert_key settings st k)) = filter plain_line (up_lines st) \<and>
      (k' \<noteq> k \<longrightarrow> values_of k' (up_lines (upsert_key settings st k)) = values_of k' (up_lines st))"
  proof (cases "keyIdx st k")
    case None
    then have "values_of k (up_lines st) = []" using assms(1) by (simp add: idx_ok_def)
    with None assms(2) show ?thesis
      by (auto simp: upsert_key_def given_def Let_def upserted_def plain_line_def)
  next
    case (Some i)
    then obtain w where w: "i < length (up_lines st)" "keyVal st k = Some w"
        "settingKV (up_lines st ! i) = Some (k, w)" "values_of k (drop (Suc i) (up_lines st)) = []"
      using assms(1) by (auto simp: idx_ok_def)
    have l: "settingKV (set_line k (unionCSV w ?g)) = Some (k, unionCSV w ?g)"
      using assms(2) by simp
    note at = values_of_at[OF w(1,3) l]
    show ?thesis
      using at(2-4) Some w(2,4)
      by (auto simp: upsert_key_def given_def[symmetric] Let_def upserted_def at(1))
  qed
  then show "values_of k (up_lines (upsert_key settings st k)) =
           upserted k (given settings k) (values_of k (up_lines st))"
    and "filter plain_line (up_lines (upsert_key settings st k)) = filter plain_line (up_lines st)"
    and "k' \<noteq> k \<Longrightarrow> values_of k' (up_lines (upsert_key settings st k)) = values_of k' (up_lines st)"
    by blast+
qed

lemma upsert_key_other:
  assumes "up_ok st k" "up_ok st k'" "k \<noteq> k'" "conf_key k"
  shows "up_ok (upsert_key settings st k) k'"
proof (cases "keyIdx st k")
  case None
  with assms show ?thesis
    by (auto simp: upsert_key_def Let_def idx_ok_def nth_append split: option.splits)
next
  case (Some i)
  then obtain w where w: "i < length (up_lines st)" "keyVal st k = Some w"
      "settingKV (up_lines st ! i) = Some (k, w)"
    using assms(1) by (auto simp: idx_ok_def)
  let ?l = "set_line k (unionCSV w (given settings k))"
  have l: "settingKV ?l = Some (k, unionCSV w (given settings k))"
    using assms(4) by simp
  have tail: "values_of k' (drop (Suc j) ((up_lines st)[i := ?l])) = values_of k' (drop (Suc j) (up_lines st))" for j
  proof (cases "i < Suc j")
    case False
    then have "drop (Suc j) (up_lines st) ! (i - Suc j) = up_lines st ! i" using w(1) by simp
    then show ?thesis
      using values_of_at(3)[of "i - Suc j" "drop (Suc j) (up_lines st)" k w ?l _ k'] l w assms(3) False
      by (simp add: drop_update_swap)
  qed simp
  have "i \<noteq> j" if "settingKV (up_lines st ! j) = Some (k', w')" for j w'
    using that w(3) assms(3) by auto
  then show ?thesis
    using assms(2,3) Some w(2) tail values_of_at(3)[OF w(1,3) l, of k']
    by (fastforce simp: upsert_key_def given_def[symmetric] Let_def idx_ok_def split: option.splits)
qed


subsection \<open>All settings\<close>

lemma foldl_upsert_key:
  assumes "distinct ks" "\<forall>k\<in>set ks. conf_key k \<and> up_ok st k"
  shows "values_of k (up_lines (foldl (upsert_key settings) st ks)) =
           (if k \<in> set ks then upserted k (given settings k) (values_of k (up_lines st))
            else values_of k (up_lines st))
       \<and> filter plain_line (up_lines (foldl (upsert_key settings) st ks)) = filter plain_line (up_lines st)"
  using assms
proof (induction ks arbitrary: st)
  case (Cons a ks)
  let ?st = "upsert_key settings st a"
  have a: "up_ok st a" "conf_key a" using Cons.prems(2) by auto
  have "\<forall>k\<in>set ks. conf_key k \<and> up_ok ?st k"
    using Cons.prems a by (auto intro: upsert_key_other)
  note IH = Cons.IH[OF _ this]
  show ?case
    using IH Cons.prems(1) upsert_key_self[OF a, where settings = settings] by (cases "k = a") auto
qed simp

lemma values_of_upsert:
  assumes "\<forall>k\<in>fst ` set settings. conf_key k"
  shows "values_of k (upsert_lines settings ls) =
     (case map_of settings k of
        None \<Rightarrow> values_of k ls
      | Some v \<Rightarrow> upserted k (sanitizeConfValue v) (values_of k ls))"
    and "filter plain_line (upsert_lines settings ls) = filter plain_line ls"
  using foldl_upsert_key[OF distinct_sorted_set[of "map fst settings"], where settings = "map_of settings" and k = k] assms
    indexed_ok[of ls] map_of_eq_None_iff[of settings k]
  by (auto simp: upsert_lines_def given_def split: option.splits)

text \<open>A list read with blanks around it has the same tokens.\<close>

lemma split_on_snoc:
  "x \<noteq> c \<Longrightarrow> split_on c (s @ [x]) = butlast (split_on c s) @ [last (split_on c s) @ [x]]"
proof (induction s)
  case (Cons y s)
  obtain p ps where "split_on c s = p # ps" by (cases "split_on c s") auto
  with Cons show ?case by (cases ps) auto
qed simp

lemma trim_space_snoc: "is_space x \<Longrightarrow> trim_space (p @ [x]) = trim_space p"
  using trim_space_rtrim[of "p @ [x]"] trim_space_rtrim[of p] by simp

lemma trim_space_Cons: "is_space x \<Longrightarrow> trim_space (x # p) = trim_space p"
  by (simp add: trim_space_def)

lemma comma_not_space: "is_space x \<Longrightarrow> x \<noteq> CHR '',''"
  by (auto simp: is_space_def)

lemma parts_snoc:
  assumes "is_space x"
  shows "map trim_space (split_on CHR '','' (s @ [x])) = map trim_space (split_on CHR '','' s)"
proof -
  have "split_on CHR '','' s = butlast (split_on CHR '','' s) @ [last (split_on CHR '','' s)]" by simp
  then have "map trim_space (split_on CHR '','' s) =
      map trim_space (butlast (split_on CHR '','' s)) @ [trim_space (last (split_on CHR '','' s))]"
    by (metis map_append list.map)
  then show ?thesis
    using assms comma_not_space[OF assms] by (simp add: split_on_snoc trim_space_snoc)
qed

lemma parts_Cons:
  assumes "is_space x"
  shows "map trim_space (split_on CHR '','' (x # s)) = map trim_space (split_on CHR '','' s)"
  using assms comma_not_space[OF assms]
  by (cases "split_on CHR '','' s") (auto simp: trim_space_Cons)

lemma parts_trim_space: "map trim_space (split_on CHR '','' (trim_space s)) = map trim_space (split_on CHR '','' s)"
proof -
  have l: "map trim_space (split_on CHR '','' (dropWhile is_space s)) = map trim_space (split_on CHR '','' s)" for s
    by (induction s) (auto simp: parts_Cons simp del: split_on.simps)
  have "map trim_space (split_on CHR '','' (rev (dropWhile is_space u))) = map trim_space (split_on CHR '','' (rev u))" for u
    by (induction u) (auto simp: parts_snoc)
  from this[of "rev (dropWhile is_space s)"] show ?thesis
    by (simp add: trim_space_def l)
qed

lemma add_tokens_trim [simp]: "add_tokens acc (trim_space s) = add_tokens acc s"
  by (simp add: add_tokens_def parts_trim_space)

lemma foldl_add_tokens_union:
  "vs \<noteq> [] \<Longrightarrow> foldl add_tokens [] (butlast vs @ [unionCSV (last vs) v]) = foldl add_tokens [] (vs @ [v])"
proof -
  assume ne: "vs \<noteq> []"
  have "foldl add_tokens [] (butlast vs @ [unionCSV (last vs) v]) =
      foldl add_tokens (foldl add_tokens [] (butlast vs)) [last vs, v]"
    using add_tokens_union[of "foldl add_tokens [] (butlast vs)" "[last vs, v]"] by (simp add: unionCSV_def)
  also have "\<dots> = foldl add_tokens [] ((butlast vs @ [last vs]) @ [v])" by simp
  finally show ?thesis using ne by simp
qed

definition joined :: "string \<Rightarrow> string \<Rightarrow> string list \<Rightarrow> string option" where
  "joined k v vs =
     (if IsAdditiveConfKey k then resolved k (vs @ [v])
      else if vs = [] then Some (trim_space v) else Some (last vs))"

lemma resolved_upserted: "resolved k (upserted k v vs) = joined k v vs"
  using foldl_add_tokens_union[of vs v] by (auto simp: joined_def resolved_def upserted_def)

lemma eol_sanitizeConfValue: "eol \<notin> set (sanitizeConfValue v)"
  by (auto simp: sanitizeConfValue_def)

lemma eol_unionCSV: "eol \<notin> set a \<Longrightarrow> eol \<notin> set b \<Longrightarrow> eol \<notin> set (unionCSV a b)"
  unfolding unionCSV_def eol_join by (rule eol_foldl_add_tokens) simp

lemma eol_upsert_key:
  assumes "up_ok st k" "conf_key k" "\<forall>l\<in>set (up_lines st). eol \<notin> set l"
  shows "\<forall>l\<in>set (up_lines (upsert_key settings st k)). eol \<notin> set l"
proof -
  have v: "conf_key k \<Longrightarrow> eol \<notin> set v \<Longrightarrow> eol \<notin> set (set_line k v)" for v
    by (simp add: set_line_def conf_key_def)
  have w: "eol \<notin> set w" if "keyIdx st k = Some i" "keyVal st k = Some w" for i w
    using assms that by (auto simp: idx_ok_def dest: settingKV_SomeD(3))
  show ?thesis
    using assms v w eol_sanitizeConfValue
    by (auto simp: upsert_key_def Let_def idx_ok_def eol_unionCSV dest!: set_update_subset_insert[THEN subsetD]
        split: option.splits)
qed

lemma eol_foldl_upsert_key:
  assumes "distinct ks" "\<forall>k\<in>set ks. conf_key k \<and> up_ok st k" "\<forall>l\<in>set (up_lines st). eol \<notin> set l"
  shows "\<forall>l\<in>set (up_lines (foldl (upsert_key settings) st ks)). eol \<notin> set l"
  using assms
proof (induction ks arbitrary: st)
  case (Cons a ks)
  have "\<forall>k\<in>set ks. conf_key k \<and> up_ok (upsert_key settings st a) k"
    using Cons.prems by (auto intro: upsert_key_other)
  then show ?case
    using Cons.prems Cons.IH[of "upsert_key settings st a"] eol_upsert_key[of st a settings] by simp
qed simp

lemma length_upsert_key: "length (up_lines (upsert_key settings st k)) \<ge> length (up_lines st)"
  by (auto simp: upsert_key_def Let_def split: option.splits)

lemma length_foldl_upsert_key:
  "length (up_lines (foldl (upsert_key settings) st ks)) \<ge> length (up_lines st)"
  by (induction ks arbitrary: st) (auto intro: order_trans[OF length_upsert_key])

lemma split_Upsert:
  assumes "\<forall>k\<in>fst ` set settings. conf_key k"
  shows "split_on eol (UpsertNeo4jConfSettings conf settings) = upsert_lines settings (split_on eol conf)"
proof (cases "settings = []")
  case True
  then show ?thesis
    by (simp add: UpsertNeo4jConfSettings_def upsert_lines_def indexed_ok sorted_set_def)
next
  case False
  let ?ls = "split_on eol conf"
  let ?st = "index_lines 0 ?ls \<lparr>up_lines = ?ls, keyIdx = Map.empty, keyVal = Map.empty\<rparr>"
  have "\<forall>l\<in>set (upsert_lines settings ?ls). eol \<notin> set l"
    unfolding upsert_lines_def
    by (rule eol_foldl_upsert_key) (use assms indexed_ok lines_no_eol in auto)
  moreover have "length (upsert_lines settings ?ls) \<ge> length ?ls"
    unfolding upsert_lines_def using length_foldl_upsert_key[of ?st] by (simp add: indexed_ok)
  then have "upsert_lines settings ?ls \<noteq> []" by (metis length_0_conv le_zero_eq split_on_not_Nil)
  ultimately show ?thesis
    using False by (simp add: UpsertNeo4jConfSettings_def split_on_join)
qed


lemma Dedupe_Upsert_settings:
  assumes "\<forall>k\<in>fst ` set settings. conf_key k"
  shows "map_of (Neo4jConfSettings (DedupeNeo4jConf (UpsertNeo4jConfSettings conf settings))) k =
     (let vs = values_of k (split_on eol conf) in
      case map_of settings k of None \<Rightarrow> resolved k vs | Some v \<Rightarrow> joined k (sanitizeConfValue v) vs)"
  using values_of_upsert(1)[OF assms]
  by (simp add: map_of_Neo4jConfSettings values_of_dedupe split_Upsert[OF assms] resolved_upserted
      Let_def split: option.splits)

text \<open>Settings a file already has change no line of it.\<close>

lemma upsert_key_id:
  assumes "up_ok st k" "deduped (up_lines st)" "values_of k (up_lines st) = [w]"
    "IsAdditiveConfKey k \<Longrightarrow> set (add_tokens [] (given settings k)) \<subseteq> set (add_tokens [] w)"
  shows "upsert_key settings st k = st"
proof -
  obtain i where i: "keyIdx st k = Some i"
    using assms(1,3) by (auto simp: idx_ok_def split: option.splits)
  then obtain u where u: "i < length (up_lines st)" "keyVal st k = Some u"
      "settingKV (up_lines st ! i) = Some (k, u)"
    using assms(1) by (auto simp: idx_ok_def)
  show ?thesis
  proof (cases "IsAdditiveConfKey k")
    case True
    have l: "up_lines st ! i = set_line k (join '','' (add_tokens [] u))"
      using assms(2) u(1,3) True unfolding deduped_def by (meson nth_mem)
    then have norm: "u = join '','' (add_tokens [] u)"
      using u(3) True by (metis additive_conf_key option.inject prod.inject settingKV_set_line
          trim_space_trimmed trimmed_join_tokens add_tokens_tokens tokens_Nil)
    have "w = u" using values_of_at(1)[OF u(1,3) u(3)] assms(3) by (auto simp: Cons_eq_append_conv)
    then have "set (map trim_space (split_on CHR '','' (given settings k))) \<subseteq> set (add_tokens [] u) \<union> {[]}"
      using assms(4)[OF True] by (auto simp: set_add_tokens)
    then have "add_tokens (add_tokens [] u) (given settings k) = add_tokens [] u"
      unfolding add_tokens_def[of "add_tokens [] u"] by (rule foldl_add_token_known)
    then have "unionCSV u (given settings k) = u" using norm by (simp add: unionCSV_def)
    then show ?thesis
      using i u(2) l norm list_update_id[of "up_lines st" i]
      by (simp add: upsert_key_def given_def[symmetric] Let_def map_upd_triv)
  qed (simp add: upsert_key_def i Let_def)
qed

lemma upsert_lines_id:
  assumes "deduped ls"
    "\<And>k v. map_of settings k = Some v \<Longrightarrow> \<exists>w. values_of k ls = [w] \<and>
       (IsAdditiveConfKey k \<longrightarrow> set (add_tokens [] (sanitizeConfValue v)) \<subseteq> set (add_tokens [] w))"
  shows "upsert_lines settings ls = ls"
proof -
  let ?st = "index_lines 0 ls \<lparr>up_lines = ls, keyIdx = Map.empty, keyVal = Map.empty\<rparr>"
  have "foldl (upsert_key (map_of settings)) ?st ks = ?st" if "set ks \<subseteq> fst ` set settings" for ks
    using that
  proof (induction ks)
    case (Cons k ks)
    then obtain v where v: "map_of settings k = Some v"
      by (metis image_eqI list.set_intros(1) map_of_eq_None_iff not_None_eq subsetD)
    from assms(2)[OF v] have "upsert_key (map_of settings) ?st k = ?st"
      using indexed_ok[of ls] assms(1) by (auto simp: given_def v intro!: upsert_key_id)
    with Cons show ?case by simp
  qed simp
  from this[of "sorted_set (map fst settings)"] show ?thesis
    unfolding upsert_lines_def by (simp add: indexed_ok)
qed

lemma tokens_joined:
  assumes "joined k v vs = Some w" "IsAdditiveConfKey k"
  shows "set (add_tokens [] v) \<subseteq> set (add_tokens [] w)"
proof -
  have "w = join '','' (add_tokens (foldl add_tokens [] vs) v)"
    using assms by (simp add: joined_def resolved_def)
  then have "add_tokens [] w = add_tokens (foldl add_tokens [] vs) v"
    by (simp add: add_tokens_join_Nil)
  then show ?thesis by (auto simp: set_add_tokens)
qed

lemma Upsert_again:
  fixes conf :: string and settings :: "(string \<times> string) list"
  assumes "\<forall>k\<in>fst ` set settings. conf_key k"
  defines "out \<equiv> DedupeNeo4jConf (UpsertNeo4jConfSettings conf settings)"
  shows "DedupeNeo4jConf (UpsertNeo4jConfSettings out settings) = out"
proof -
  let ?ls = "dedupe_lines (upsert_lines settings (split_on eol conf))"
  have ls: "split_on eol out = ?ls" by (simp add: out_def split_Upsert[OF assms(1)])
  have "upsert_lines settings ?ls = ?ls"
  proof (rule upsert_lines_id[OF deduped_dedupe])
    fix k v assume v: "map_of settings k = Some v"
    let ?j = "joined k (sanitizeConfValue v) (values_of k (split_on eol conf))"
    have "?j \<noteq> None" by (auto simp: joined_def resolved_def)
    then obtain w where w: "?j = Some w" by blast
    have "values_of k ?ls = [w]"
      using w v by (simp add: values_of_dedupe values_of_upsert(1)[OF assms(1)] resolved_upserted)
    with w tokens_joined[OF w] show "\<exists>w. values_of k ?ls = [w] \<and>
        (IsAdditiveConfKey k \<longrightarrow> set (add_tokens [] (sanitizeConfValue v)) \<subseteq> set (add_tokens [] w))" by blast
  qed
  then have "split_on eol (UpsertNeo4jConfSettings out settings) = ?ls"
    by (simp add: split_Upsert[OF assms(1)] ls)
  then have "DedupeNeo4jConf (UpsertNeo4jConfSettings out settings) = join [eol] ?ls"
    by (simp add: DedupeNeo4jConf_def dedupe_lines_id[OF deduped_dedupe])
  also have "\<dots> = out" using ls join_split[of eol out] by simp
  finally show ?thesis .
qed

text \<open>
  C27: Joining settings to a rendered file (\<open>UpsertNeo4jConfSettings\<close>, then \<open>DedupeNeo4jConf\<close>, as
  every caller does) never takes a value the file declares: a scalar setting keeps it and takes
  the given one only where the file has none, a list becomes the union, and every other setting
  is as it was. Joining the same settings again gives the same file.
\<close>

theorem joining_settings_keeps_the_file:
  assumes "\<forall>k\<in>fst ` set settings. conf_key k"
  shows "map_of (Neo4jConfSettings (DedupeNeo4jConf (UpsertNeo4jConfSettings conf settings))) k =
           (case map_of settings k of
              None \<Rightarrow> map_of (Neo4jConfSettings (DedupeNeo4jConf conf)) k
            | Some v \<Rightarrow> joined k (sanitizeConfValue v) (values_of k (split_on eol conf))) \<and>
         DedupeNeo4jConf (UpsertNeo4jConfSettings
             (DedupeNeo4jConf (UpsertNeo4jConfSettings conf settings)) settings) =
           DedupeNeo4jConf (UpsertNeo4jConfSettings conf settings)"
  using Upsert_again[OF assms, of conf] Dedupe_Upsert_settings[OF assms, of conf k]
  by (auto simp: Let_def map_of_Neo4jConfSettings values_of_dedupe split: option.splits)


theorem joining_settings_keeps_the_file_witness:
  "(let conf = ''a=1'' @ [eol] @ ''dbms.security.procedures.allowlist=gds.*'';
        settings = [(''a'', ''2''), (''b'', ''3''), (''dbms.security.procedures.allowlist'', ''apoc.*, gds.*'')];
        out = DedupeNeo4jConf (UpsertNeo4jConfSettings conf settings) in
    map_of (Neo4jConfSettings out) ''a'' = Some ''1'' \<and>
    map_of (Neo4jConfSettings out) ''b'' = Some ''3'' \<and>
    map_of (Neo4jConfSettings out) ''dbms.security.procedures.allowlist'' = Some ''gds.*,apoc.*'' \<and>
    DedupeNeo4jConf (UpsertNeo4jConfSettings out settings) = out)"
proof -
  let ?s = "[(''a'', ''2''), (''b'', ''3''), (''dbms.security.procedures.allowlist'', ''apoc.*, gds.*'')]"
  let ?c = "''a=1'' @ [eol] @ ''dbms.security.procedures.allowlist=gds.*''"
  have ok: "\<forall>k\<in>fst ` set ?s. conf_key k" by code_simp
  have v: "values_of ''a'' (split_on eol ?c) = [''1'']" "values_of ''b'' (split_on eol ?c) = []"
    "values_of ''dbms.security.procedures.allowlist'' (split_on eol ?c) = [''gds.*'']" by code_simp+
  have j: "joined ''a'' (sanitizeConfValue ''2'') [''1''] = Some ''1''"
    "joined ''b'' (sanitizeConfValue ''3'') [] = Some ''3''"
    "joined ''dbms.security.procedures.allowlist'' (sanitizeConfValue ''apoc.*, gds.*'') [''gds.*''] = Some ''gds.*,apoc.*''"
    by code_simp+
  show ?thesis
    using joining_settings_keeps_the_file[OF ok, of ?c "''a''"] joining_settings_keeps_the_file[OF ok, of ?c "''b''"]
      joining_settings_keeps_the_file[OF ok, of ?c "''dbms.security.procedures.allowlist''"]
    unfolding Let_def v j by (simp add: v j del: append.simps)
qed

text \<open>
  On its own \<open>UpsertNeo4jConfSettings\<close> is not idempotent, as its comment says it is: a list it
  appends is written as given, and written again without its blanks and repetitions; and a
  repeatable key is never found, so each application adds a line.
\<close>

lemma upsert_alone_changes_its_own_line:
  "(let s = [(''dbms.security.procedures.allowlist'', ''gds.*, apoc.*'')] in
    UpsertNeo4jConfSettings [] s = [eol] @ ''dbms.security.procedures.allowlist=gds.*, apoc.*'' \<and>
    UpsertNeo4jConfSettings (UpsertNeo4jConfSettings [] s) s =
      [eol] @ ''dbms.security.procedures.allowlist=gds.*,apoc.*'')"
  by code_simp

lemma upsert_repeats_jvm_lines:
  "(let s = [(''server.jvm.additional'', ''-Dx=1'')] in
    UpsertNeo4jConfSettings [] s = [eol] @ ''server.jvm.additional=-Dx=1'' \<and>
    DedupeNeo4jConf (UpsertNeo4jConfSettings (UpsertNeo4jConfSettings [] s) s) =
      [eol] @ ''server.jvm.additional=-Dx=1'' @ [eol] @ ''server.jvm.additional=-Dx=1'')"
  by code_simp


section \<open>Names as environment variables\<close>

text \<open>The lists' names differ, so it does not matter in which order Go goes over them.\<close>

lemma additive_env_names_distinct: "distinct (map Neo4jSettingEnvVarName additiveConfKeys)"
  by code_simp

lemma AdditiveConfKeyForEnvName_iff:
  "AdditiveConfKeyForEnvName name = Some k \<longleftrightarrow> IsAdditiveConfKey k \<and> name = Neo4jSettingEnvVarName k"
proof
  assume "IsAdditiveConfKey k \<and> name = Neo4jSettingEnvVarName k"
  then obtain i where i: "i < length additiveConfKeys" "k = additiveConfKeys ! i" "name = Neo4jSettingEnvVarName k"
    by (auto simp: IsAdditiveConfKey_def in_set_conv_nth)
  moreover have "j = i" if "j < length additiveConfKeys" "Neo4jSettingEnvVarName (additiveConfKeys ! j) = name" for j
    using that i additive_env_names_distinct by (simp add: distinct_conv_nth) (metis nth_map)
  ultimately show "AdditiveConfKeyForEnvName name = Some k"
    unfolding AdditiveConfKeyForEnvName_def find_Some_iff by (metis nat_neq_iff order_less_trans)
qed (auto simp: AdditiveConfKeyForEnvName_def IsAdditiveConfKey_def find_Some_iff)

lemma IsAdditiveConfEnvName_iff: "IsAdditiveConfEnvName name \<longleftrightarrow> AdditiveConfKeyForEnvName name \<noteq> None"
  by (auto simp: IsAdditiveConfEnvName_def AdditiveConfKeyForEnvName_def list_ex_iff find_None_iff)

text \<open>The lists of \<open>spec.env\<close> can be joined to a file: their keys are the lists' own.\<close>

lemma add_env_list_keys:
  assumes "\<forall>k\<in>fst ` set acc. IsAdditiveConfKey k"
  shows "\<forall>k\<in>fst ` set (add_env_list acc e). IsAdditiveConfKey k"
proof (cases "SpecEnvListKey e")
  case (Some key)
  then have "IsAdditiveConfKey key"
    by (auto simp: SpecEnvListKey_def AdditiveConfKeyForEnvName_iff split: if_splits)
  moreover have "fst ` set (add_env_list acc e) \<subseteq> {key} \<union> fst ` set acc"
    using dom_update[of key _ acc] by (simp add: add_env_list_def Some) blast
  ultimately show ?thesis using assms by blast
qed (use assms in \<open>simp add: add_env_list_def\<close>)

lemma SpecEnvLists_conf_keys: "\<forall>k\<in>fst ` set (SpecEnvLists env). conf_key k"
proof -
  have "\<forall>k\<in>fst ` set (foldl add_env_list acc env). IsAdditiveConfKey k"
    if "\<forall>k\<in>fst ` set acc. IsAdditiveConfKey k" for acc
    using that
  proof (induction env arbitrary: acc)
    case (Cons e env)
    from Cons.IH[OF add_env_list_keys[OF Cons.prems]] show ?case by simp
  qed simp
  from this[of "[]"] show ?thesis by (simp add: SpecEnvLists_def)
qed

end
