(* ===== verification/Conf_Restart.thy ===== *)
theory Conf_Restart
  imports Neo4j_Conf
begin

text \<open>
  When a change of a cluster's ConfigMap restarts its servers
  (\<^verbatim>\<open>internal/controller/configmap_manager.go\<close>, \<^verbatim>\<open>internal/controller/live_config.go\<close>): the rendering of
  \<^verbatim>\<open>neo4j.conf\<close> and \<^verbatim>\<open>startup.sh\<close> the decision compares, the changes that are set on the running
  servers instead, the scale that needs no restart, and \<open>ReconcileConfigMap\<close>, which writes the ConfigMap
  and stamps the server StatefulSet.

  The rendered ConfigMap (\<^verbatim>\<open>resources.BuildConfigMapForEnterprise\<close>), the records of deferred settings
  it carries as annotations and the edit of \<^verbatim>\<open>NEO4J_PLUGINS\<close> that rides the stamp are inputs of a
  pass (\<open>conf_env\<close>), as are the answers of the API server and of the servers
  (\<open>live_env\<close>). The digest is a parameter: \<open>digest s\<close> is the first sixteen
  hexadecimal digits of SHA-256.
\<close>

section \<open>What a restart decision compares\<close>

definition isCommentOrBlankLine :: "string \<Rightarrow> bool" where
  "isCommentOrBlankLine line = (let t = trim_space line in t = [] \<or> has_prefix t ''#'')"

text \<open>The key of a line with an equals sign, which may be empty: \<^verbatim>\<open>SplitN(line, "=", 2)\<close>.\<close>

definition line_key :: "string \<Rightarrow> string option" where
  "line_key line = map_option (\<lambda>i. trim_space (take i line)) (str_index line ''='')"

fun normalize_lines :: "string list \<Rightarrow> string list \<Rightarrow> string list" where
  "normalize_lines seen [] = []"
| "normalize_lines seen (l # ls) =
     (let line = trim_space l in
      if isCommentOrBlankLine line then normalize_lines seen ls
      else case line_key line of
             None \<Rightarrow> line # normalize_lines seen ls
           | Some key \<Rightarrow>
               if key \<in> set seen then normalize_lines seen ls
               else line # normalize_lines (key # seen) ls)"

definition normalizeNeo4jConfForRestart :: "string \<Rightarrow> string" where
  "normalizeNeo4jConfForRestart content = join [eol] (normalize_lines [] (split_on eol content))"

definition RestartNeutralBegin :: string where
  "RestartNeutralBegin = ''# operator:restart-neutral begin''"

definition RestartNeutralEnd :: string where
  "RestartNeutralEnd = ''# operator:restart-neutral end''"

definition runtimeVariablePlaceholder :: string where
  "runtimeVariablePlaceholder = ''<runtime variable excluded from hash>''"

fun normalize_script_lines :: "bool \<Rightarrow> string list \<Rightarrow> string list" where
  "normalize_script_lines inRestartNeutral [] = []"
| "normalize_script_lines inRestartNeutral (line # ls) =
     (if trim_space line = RestartNeutralBegin then normalize_script_lines True ls
      else if trim_space line = RestartNeutralEnd then normalize_script_lines False ls
      else if inRestartNeutral \<or> isCommentOrBlankLine line then normalize_script_lines inRestartNeutral ls
      else if str_contains line ''POD_ORDINAL'' \<or> str_contains line ''HOSTNAME'' \<or>
              str_contains line ''$(date'' \<or> str_contains line ''timestamp''
      then runtimeVariablePlaceholder # normalize_script_lines inRestartNeutral ls
      else line # normalize_script_lines inRestartNeutral ls)"

definition normalizeStartupScript :: "string \<Rightarrow> string" where
  "normalizeStartupScript content = join [eol] (normalize_script_lines False (split_on eol content))"

text \<open>
  A ConfigMap: the three files the decision knows, the other ones by name, and the
  annotations, both in the order of their names.
\<close>

record config_map =
  cmConf :: "string option"
  cmStartup :: "string option"
  cmHealth :: "string option"
  cmOther :: "(string \<times> string) list"
  cmNotes :: "(string \<times> string) list"

definition or_empty :: "string option \<Rightarrow> string" where
  "or_empty f = (case f of Some s \<Rightarrow> s | None \<Rightarrow> [])"

definition same_data :: "config_map \<Rightarrow> config_map \<Rightarrow> bool" where
  "same_data a b = (cmConf a = cmConf b \<and> cmStartup a = cmStartup b \<and> cmHealth a = cmHealth b \<and>
                    cmOther a = cmOther b)"

definition config_files :: "string list" where
  "config_files = [''neo4j.conf'', ''startup.sh'', ''health.sh'']"

definition cm_file :: "config_map \<Rightarrow> string \<Rightarrow> string option" where
  "cm_file cm key =
     (if key = ''neo4j.conf'' then cmConf cm
      else if key = ''startup.sh'' then cmStartup cm
      else if key = ''health.sh'' then cmHealth cm
      else map_of (cmOther cm) key)"

definition normalizeConfigContent :: "string \<Rightarrow> string \<Rightarrow> string" where
  "normalizeConfigContent key value =
     (if key = ''neo4j.conf'' then normalizeNeo4jConfForRestart value
      else if key = ''startup.sh'' then normalizeStartupScript value
      else if key = ''health.sh'' then []
      else value)"

text \<open>What is written to the hash, file after file.\<close>

definition restart_text :: "config_map \<Rightarrow> string" where
  "restart_text cm =
     concat (map (\<lambda>key. case cm_file cm key of
                          None \<Rightarrow> []
                        | Some value \<Rightarrow> key @ normalizeConfigContent key value) config_files)"

definition calculateConfigMapHash :: "(string \<Rightarrow> string) \<Rightarrow> config_map \<Rightarrow> string" where
  "calculateConfigMapHash digest cm = digest (restart_text cm)"

text \<open>\<^verbatim>\<open>strings.Cut\<close> of the trimmed line at its first equals sign, compared with the setting's name.\<close>

definition isJVMLine :: "string \<Rightarrow> bool" where
  "isJVMLine line = (line_key (trim_space line) = Some ''server.jvm.additional'')"

definition withoutMovedJVMLines :: "config_map \<Rightarrow> config_map \<Rightarrow> config_map" where
  "withoutMovedJVMLines existing desired =
     (if list_ex isJVMLine (split_on eol (or_empty (cmConf desired))) then existing
      else let ls = split_on eol (or_empty (cmConf existing));
               kept = filter (\<lambda>l. \<not> isJVMLine l) ls in
           if length kept = length ls then existing
           else existing\<lparr>cmConf := Some (join [eol] kept)\<rparr>)"


section \<open>A scale that needs no restart\<close>

definition isMembershipLine :: "string \<Rightarrow> bool" where
  "isMembershipLine line =
     (let t = trim_space line in
      has_prefix t ''TOTAL_SERVERS='' \<or> has_prefix t ''dbms.cluster.endpoints='' \<or>
      has_prefix t ''dbms.cluster.discovery.v2.endpoints='')"

definition same_file :: "string \<Rightarrow> config_map \<Rightarrow> config_map \<Rightarrow> bool" where
  "same_file key a b =
     (normalizeConfigContent key (or_empty (cm_file a key)) = normalizeConfigContent key (or_empty (cm_file b key)))"

definition withoutMembership :: "string \<Rightarrow> string" where
  "withoutMembership script =
     join [eol] (filter (\<lambda>l. \<not> isMembershipLine l) (split_on eol (normalizeStartupScript script)))"

definition membershipOnlyStartupChange :: "config_map \<Rightarrow> config_map \<Rightarrow> bool" where
  "membershipOnlyStartupChange old new =
     (same_file ''neo4j.conf'' old new \<and> same_file ''health.sh'' old new \<and>
      withoutMembership (or_empty (cmStartup old)) = withoutMembership (or_empty (cmStartup new)))"

text \<open>
  \<^verbatim>\<open>fmt.Sscanf(v, "%d", &n)\<close> into an \<open>int32\<close>: blanks, a sign, the digits that follow; what comes
  after them is not read.
\<close>

definition scan_int32 :: "string \<Rightarrow> int option" where
  "scan_int32 v =
     (let t = dropWhile (\<lambda>c. c = CHR '' '' \<or> c = CHR 0x09) v;
          (neg, u) = (case t of c # r \<Rightarrow> if c = CHR ''-'' then (True, r) else if c = CHR ''+'' then (False, r) else (False, t)
                      | [] \<Rightarrow> (False, []));
          ds = takeWhile is_digit u in
      parse_int 32 ((if neg then ''-'' else []) @ ds))"

fun rendered_count :: "string list \<Rightarrow> int" where
  "rendered_count [] = 0"
| "rendered_count (line # ls) =
     (case cut_prefix ''TOTAL_SERVERS='' (trim_space line) of
        None \<Rightarrow> rendered_count ls
      | Some v \<Rightarrow> (case scan_int32 v of Some n \<Rightarrow> n | None \<Rightarrow> rendered_count ls))"

definition renderedServerCount :: "string \<Rightarrow> int" where
  "renderedServerCount script = rendered_count (split_on eol script)"

record topology =
  tpServers :: int
  tpMinSystemPrimaries :: "int option"

definition EffectiveMinSystemPrimaries :: "topology \<Rightarrow> int" where
  "EffectiveMinSystemPrimaries tp =
     (let servers = max (tpServers tp) 2 in
      case tpMinSystemPrimaries tp of
        Some m \<Rightarrow> min (max m 2) servers
      | None \<Rightarrow> min servers 3)"

definition addedSystemPrimaries :: "int \<Rightarrow> topology \<Rightarrow> int list" where
  "addedSystemPrimaries oldServers tp =
     filter (\<lambda>i. i < EffectiveMinSystemPrimaries tp) [oldServers..tpServers tp - 1]"

definition scaleNeedsNoRestart :: "config_map \<Rightarrow> config_map \<Rightarrow> topology \<Rightarrow> bool" where
  "scaleNeedsNoRestart old new tp =
     (membershipOnlyStartupChange old new \<and>
      (let oldServers = renderedServerCount (or_empty (cmStartup old)) in
       oldServers \<noteq> 0 \<and> addedSystemPrimaries oldServers tp = []))"

definition onlyNeo4jConfChanged :: "config_map \<Rightarrow> config_map \<Rightarrow> bool" where
  "onlyNeo4jConfChanged old new =
     (same_file ''startup.sh'' old new \<and> same_file ''health.sh'' old new \<and> \<not> same_file ''neo4j.conf'' old new)"


section \<open>The change list\<close>

definition parseNeo4jProperties :: "string \<Rightarrow> (string \<times> string) list" where
  "parseNeo4jProperties content =
     foldl (\<lambda>props l.
       let line = trim_space l in
       if line = [] \<or> has_prefix line ''#'' then props
       else case str_index line ''='' of
              None \<Rightarrow> props
            | Some i \<Rightarrow> AList.update (trim_space (take i line)) (trim_space (drop (Suc i) line)) props)
       [] (split_on eol content)"

definition analyzeNeo4jConfChanges :: "string \<Rightarrow> string \<Rightarrow> string list" where
  "analyzeNeo4jConfChanges oldConf newConf =
     (let oldProps = parseNeo4jProperties oldConf; newProps = parseNeo4jProperties newConf in
      concat (map (\<lambda>(key, val).
          case map_of oldProps key of
            None \<Rightarrow> [''added property '' @ key @ ''='' @ val]
          | Some oldValue \<Rightarrow>
              if oldValue \<noteq> val then [''changed property '' @ key @ '': '' @ oldValue @ '' -> '' @ val]
              else []) newProps) @
      concat (map (\<lambda>(key, _).
          if Option.is_none (map_of newProps key) then [''removed property '' @ key] else []) oldProps))"

definition file_changes :: "config_map \<Rightarrow> config_map \<Rightarrow> string \<Rightarrow> string list" where
  "file_changes old new key =
     (case (cm_file old key, cm_file new key) of
        (None, Some _) \<Rightarrow> [''added '' @ key]
      | (Some _, None) \<Rightarrow> [''removed '' @ key]
      | (Some oldValue, Some newValue) \<Rightarrow>
          let oldNormalized = normalizeConfigContent key oldValue;
              newNormalized = normalizeConfigContent key newValue in
          if oldNormalized \<noteq> newNormalized
          then (''modified '' @ key) #
               (if key = ''neo4j.conf'' then analyzeNeo4jConfChanges oldNormalized newNormalized else [])
          else []
      | (None, None) \<Rightarrow> [])"

definition noDifferences :: string where
  "noDifferences = ''hash changed but no semantic differences detected''"

definition analyzeConfigChanges :: "config_map \<Rightarrow> config_map \<Rightarrow> string list" where
  "analyzeConfigChanges old new =
     (let changes = concat (map (file_changes old new) config_files) in
      if changes = [] then [noDifferences] else changes)"

definition requiresRestart :: "string list \<Rightarrow> bool" where
  "requiresRestart changes =
     list_ex (\<lambda>change. \<not> list_ex (str_contains change)
       [noDifferences, ''Runtime variable excluded from hash'']) changes"


section \<open>Changes set on the running servers\<close>

definition add_conf_value :: "(string \<times> string list) list \<Rightarrow> string \<Rightarrow> string \<Rightarrow> (string \<times> string list) list" where
  "add_conf_value out k v =
     AList.update k ((case map_of out k of Some vs \<Rightarrow> vs | None \<Rightarrow> []) @ [v]) out"

definition conf_value_line :: "string \<Rightarrow> (string \<times> string) option" where
  "conf_value_line line =
     (if isCommentOrBlankLine line then None
      else let t = trim_space line in
           case str_index t ''='' of
             None \<Rightarrow> Some (t, [])
           | Some eq \<Rightarrow>
               if eq = 0 then Some (t, [])
               else Some (trim_space (take eq t), trim_space (drop (Suc eq) t)))"

definition confValues :: "string \<Rightarrow> (string \<times> string list) list" where
  "confValues conf =
     foldl (\<lambda>out line. case conf_value_line line of None \<Rightarrow> out | Some (k, v) \<Rightarrow> add_conf_value out k v)
       [] (split_on eol conf)"

definition neo4jConfChanges :: "string \<Rightarrow> string \<Rightarrow> (string \<times> string) list" where
  "neo4jConfChanges oldConf newConf =
     (let oldValues = confValues oldConf; newValues = confValues newConf in
      concat (map (\<lambda>(k, nv).
          if map_of oldValues k \<noteq> Some nv then [(k, join '','' nv)] else []) newValues) @
      concat (map (\<lambda>(k, _).
          if Option.is_none (map_of newValues k) then [(k, [])] else []) oldValues))"

definition sortedSettingNames :: "(string \<times> string) list \<Rightarrow> string list" where
  "sortedSettingNames m = sorted_set (map fst m)"

text \<open>\<open>dynamic\<close> holds the settings the server knows, each with whether it is dynamic.\<close>

definition liveConfigBlocker :: "(string \<times> string) list \<Rightarrow> (string \<rightharpoonup> bool) \<Rightarrow> string list \<Rightarrow> string" where
  "liveConfigBlocker changes dynamic envNames =
     (let ks = sortedSettingNames changes;
          shadowed = (\<lambda>k. Neo4jSettingEnvVarName k \<in> set envNames);
          fromEnv = filter shadowed ks;
          unknown = filter (\<lambda>k. \<not> shadowed k \<and> dynamic k = None) ks;
          static = filter (\<lambda>k. \<not> shadowed k \<and> dynamic k = Some False) ks;
          reasons =
            (if static \<noteq> [] then [''Neo4j reads '' @ join '', '' static @ '' only at startup''] else []) @
            (if unknown \<noteq> [] then [join '', '' unknown @ '' is not a setting the server reports''] else []) @
            (if fromEnv \<noteq> [] then [join '', '' fromEnv @ '' is also set by an environment variable''] else [])
      in join ''; '' reasons)"

text \<open>
  A server StatefulSet as the applier reads it, and what the servers answer:
  \<open>leSet i k v\<close> is the error of \<^verbatim>\<open>dbms.setConfigValue\<close> on server \<open>i\<close>. The calls that
  succeeded are recorded in their order.
\<close>

record live_sts =
  lsReplicas :: "int option"
  lsGeneration :: int
  lsObservedGeneration :: int
  lsReadyReplicas :: int
  lsUpdatedReplicas :: int
  lsCurrentRevision :: string
  lsUpdateRevision :: string
  lsEnvNames :: "string list"

record live_env =
  leName :: string
  leReady :: bool
  leDegraded :: bool
  leSts :: "string + live_sts"
  leDial :: "nat \<Rightarrow> string option"
  leDynamic :: "string + (string \<rightharpoonup> bool)"
  leSet :: "nat \<Rightarrow> string \<Rightarrow> string \<Rightarrow> string option"

type_synonym set_call = "nat \<times> string \<times> string"

definition statefulSetSettled :: "live_sts \<Rightarrow> int \<Rightarrow> bool" where
  "statefulSetSettled sts want =
     (let replicas = (case lsReplicas sts of Some r \<Rightarrow> r | None \<Rightarrow> 1) in
      replicas = want \<and> lsGeneration sts \<le> lsObservedGeneration sts \<and>
      lsReadyReplicas sts = replicas \<and> lsUpdatedReplicas sts = replicas \<and>
      lsCurrentRevision sts = lsUpdateRevision sts)"

text \<open>The settings of one server: the error that stopped it, and the calls made.\<close>

fun set_all :: "live_env \<Rightarrow> (string \<rightharpoonup> string) \<Rightarrow> nat \<Rightarrow> string list \<Rightarrow> set_call list \<Rightarrow> string option \<times> set_call list" where
  "set_all le changes i [] calls = (None, calls)"
| "set_all le changes i (k # ks) calls =
     (let v = or_empty (changes k) in
      case leSet le i k v of
        Some err \<Rightarrow> (Some err, calls)
      | None \<Rightarrow> set_all le changes i ks (calls @ [(i, k, v)]))"

definition applyConfChanges :: "live_env \<Rightarrow> (string \<times> string) list \<Rightarrow> nat \<Rightarrow> set_call list \<Rightarrow> string option \<times> set_call list" where
  "applyConfChanges le changes i calls = set_all le (map_of changes) i (sortedSettingNames changes) calls"

fun apply_servers :: "live_env \<Rightarrow> (string \<times> string) list \<Rightarrow> nat list \<Rightarrow> set_call list \<Rightarrow> bool \<times> string \<times> set_call list" where
  "apply_servers le changes [] calls = (True, [], calls)"
| "apply_servers le changes (i # is) calls =
     (case applyConfChanges le changes i calls of
        (Some err, calls1) \<Rightarrow> (False, leName le @ ''-server-'' @ nat_str i @ '' refused the change: '' @ err, calls1)
      | (None, calls1) \<Rightarrow> apply_servers le changes is calls1)"

definition first_dial_error :: "live_env \<Rightarrow> nat list \<Rightarrow> string option" where
  "first_dial_error le is =
     (case find (\<lambda>i. \<not> Option.is_none (leDial le i)) is of
        None \<Rightarrow> None
      | Some i \<Rightarrow> map_option (\<lambda>err. ''could not connect to '' @ leName le @ ''-server-'' @ nat_str i @ '': '' @ err) (leDial le i))"

definition ApplyLive :: "live_env \<Rightarrow> int \<Rightarrow> (string \<times> string) list \<Rightarrow> bool \<times> string \<times> set_call list" where
  "ApplyLive le servers changes =
     (if changes = [] then (False, [], [])
      else if \<not> leReady le \<or> leDegraded le
      then (False, ''the cluster is not Ready with every server up'', [])
      else case leSts le of
             Inl err \<Rightarrow> (False, ''could not read the server StatefulSet: '' @ err, [])
           | Inr sts \<Rightarrow>
               if \<not> statefulSetSettled sts servers
               then (False, ''the servers are not all ready on the current revision'', [])
               else case first_dial_error le [0..<nat servers] of
                      Some err \<Rightarrow> (False, err, [])
                    | None \<Rightarrow>
                        (case leDynamic le of
                           Inl err \<Rightarrow> (False, ''could not read the settings from '' @ leName le @ ''-server-0: '' @ err, [])
                         | Inr dynamic \<Rightarrow>
                             let reason = liveConfigBlocker changes dynamic (lsEnvNames sts) in
                             if reason \<noteq> [] then (False, reason, [])
                             else apply_servers le changes [0..<nat servers] []))"

text \<open>
  A standalone has one server; its applier asks the same of it, and has no Degraded condition
  to look at.
\<close>

definition standalone_ApplyLive :: "live_env \<Rightarrow> (string \<times> string) list \<Rightarrow> bool \<times> string \<times> set_call list" where
  "standalone_ApplyLive le changes =
     (if changes = [] then (False, [], [])
      else if \<not> leReady le then (False, ''the standalone is not Ready'', [])
      else case leSts le of
             Inl err \<Rightarrow> (False, ''could not read the StatefulSet: '' @ err, [])
           | Inr sts \<Rightarrow>
               if \<not> statefulSetSettled sts 1 then (False, ''the pod is not ready on the current revision'', [])
               else case leDial le 0 of
                      Some err \<Rightarrow> (False, ''could not connect: '' @ err, [])
                    | None \<Rightarrow>
                        (case leDynamic le of
                           Inl err \<Rightarrow> (False, ''could not read the settings: '' @ err, [])
                         | Inr dynamic \<Rightarrow>
                             let reason = liveConfigBlocker changes dynamic (lsEnvNames sts) in
                             if reason \<noteq> [] then (False, reason, [])
                             else (case applyConfChanges le changes 0 [] of
                                     (Some err, calls) \<Rightarrow> (False, ''the server refused the change: '' @ err, calls)
                                   | (None, calls) \<Rightarrow> (True, [], calls))))"


section \<open>\<open>ReconcileConfigMap\<close>\<close>

text \<open>
  The server StatefulSet's pod template, as far as a stamp changes it.
\<close>

record server_template =
  stConfigHash :: "string option"
  stConfigRestart :: "int option"
  stNeo4jPlugins :: "string option"

record conf_world =
  cwMap :: "config_map option"
  cwTemplate :: "server_template option"
  cwLastUpdate :: "int option"
  cwCalls :: "set_call list"

text \<open>
  One pass: the rendered ConfigMap with its annotations, whether the records in them differ from
  the stored ones (\<^verbatim>\<open>stampDeferredSettings\<close>, \<^verbatim>\<open>stampRestartEffectiveSettings\<close>), the time in
  nanoseconds, the topology, the live applier if there is one, and the errors of the first read of the
  ConfigMap, of its second read, of its write, of the StatefulSet's read and of its write;
  \<open>ceFleet\<close> is the edit of \<^verbatim>\<open>NEO4J_PLUGINS\<close> the stamp carries.
\<close>

record conf_env =
  ceDesired :: config_map
  ceNotesDiffer :: bool
  ceNow :: int
  ceTopology :: topology
  ceLive :: "live_env option"
  ceReadErr :: "string option"
  ceReadAgainErr :: "string option"
  ceWriteErr :: "string option"
  ceStsReadErr :: "string option"
  ceStsWriteErr :: "string option"
  ceFleet :: "string option \<Rightarrow> string option"

definition updateConfigMapImmediate :: "conf_env \<Rightarrow> conf_world \<Rightarrow> string option \<times> conf_world" where
  "updateConfigMapImmediate e w =
     (case ceReadAgainErr e of
        Some err \<Rightarrow> (Some (''failed to get ConfigMap: '' @ err), w)
      | None \<Rightarrow>
          (case ceWriteErr e of
             Some err \<Rightarrow>
               (Some ((if Option.is_none (cwMap w) then ''failed to create ConfigMap: ''
                       else ''failed to update ConfigMap: '') @ err), w)
           | None \<Rightarrow> (None, w\<lparr>cwMap := Some (ceDesired e)\<rparr>)))"

definition updateStatefulSetWithConfigHash :: "conf_env \<Rightarrow> string \<Rightarrow> server_template \<Rightarrow> server_template" where
  "updateStatefulSetWithConfigHash e configHash t =
     t\<lparr>stConfigHash := Some configHash, stConfigRestart := Some (ceNow e)\<rparr>"

definition triggerRollingRestartForConfigChange :: "conf_env \<Rightarrow> string \<Rightarrow> conf_world \<Rightarrow> string option \<times> conf_world" where
  "triggerRollingRestartForConfigChange e configHash w =
     (case ceStsReadErr e of
        Some err \<Rightarrow> (Some (''failed to get server StatefulSet: '' @ err), w)
      | None \<Rightarrow>
          (case cwTemplate w of
             None \<Rightarrow> (None, w)
           | Some t \<Rightarrow>
               (case ceStsWriteErr e of
                  Some err \<Rightarrow> (Some (''failed to update server StatefulSet: '' @ err), w)
                | None \<Rightarrow>
                    (None, w\<lparr>cwTemplate := Some (updateStatefulSetWithConfigHash e configHash
                       (t\<lparr>stNeo4jPlugins := ceFleet e (stNeo4jPlugins t)\<rparr>))\<rparr>))))"

definition applyLive :: "conf_env \<Rightarrow> (string \<times> string) list \<Rightarrow> bool \<times> string \<times> set_call list" where
  "applyLive e changes =
     (case ceLive e of None \<Rightarrow> (False, [], []) | Some le \<Rightarrow> ApplyLive le (tpServers (ceTopology e)) changes)"

text \<open>The first read: what it found, if it succeeded and there is a ConfigMap.\<close>

definition existingConfigMap :: "conf_env \<Rightarrow> conf_world \<Rightarrow> config_map option" where
  "existingConfigMap e w = (case ceReadErr e of Some _ \<Rightarrow> None | None \<Rightarrow> cwMap w)"

definition debounced :: "conf_env \<Rightarrow> conf_world \<Rightarrow> bool" where
  "debounced e w = (case cwLastUpdate w of None \<Rightarrow> False | Some t \<Rightarrow> ceNow e - t < 1000000000)"

text \<open>
  From the write on: \<open>restart\<close> says whether the servers must restart for it. An error of the
  restart is logged and not returned.
\<close>

definition write_and_restart ::
  "conf_env \<Rightarrow> string \<Rightarrow> bool \<Rightarrow> conf_world \<Rightarrow> string option \<times> conf_world" where
  "write_and_restart e newHash restart w =
     (case updateConfigMapImmediate e w of
        (Some err, w1) \<Rightarrow> (Some (''failed to update ConfigMap: '' @ err), w1)
      | (None, w1) \<Rightarrow>
          let w2 = w1\<lparr>cwLastUpdate := Some (ceNow e)\<rparr> in
          if restart then (None, snd (triggerRollingRestartForConfigChange e newHash w2))
          else (None, w2))"

definition ReconcileConfigMap :: "(string \<Rightarrow> string) \<Rightarrow> conf_env \<Rightarrow> conf_world \<Rightarrow> string option \<times> conf_world" where
  "ReconcileConfigMap digest e w =
     (let desired = ceDesired e; newHash = calculateConfigMapHash digest desired in
      case existingConfigMap e w of
        None \<Rightarrow>
          if debounced e w then (None, w) else write_and_restart e newHash True w
      | Some existing \<Rightarrow>
          let base = withoutMovedJVMLines existing desired;
              restartRelevant = (calculateConfigMapHash digest base \<noteq> newHash);
              configChanged = (\<not> same_data existing desired \<or> ceNotesDiffer e) in
          if \<not> configChanged \<or> debounced e w then (None, w)
          else if \<not> restartRelevant \<or> scaleNeedsNoRestart base desired (ceTopology e)
          then write_and_restart e newHash False w
          else
            let (applied, _, calls) =
                  (if onlyNeo4jConfChanged base desired
                   then applyLive e (neo4jConfChanges (or_empty (cmConf base)) (or_empty (cmConf desired)))
                   else (False, [], []));
                w1 = w\<lparr>cwCalls := cwCalls w @ calls\<rparr> in
            write_and_restart e newHash
              (\<not> applied \<and> requiresRestart (analyzeConfigChanges base desired)) w1)"

definition confRollPending :: "(string \<Rightarrow> string) \<Rightarrow> conf_env \<Rightarrow> conf_world \<Rightarrow> bool" where
  "confRollPending digest e w =
     (case existingConfigMap e w of
        None \<Rightarrow> True
      | Some existing \<Rightarrow>
          calculateConfigMapHash digest (withoutMovedJVMLines existing (ceDesired e)) \<noteq>
          calculateConfigMapHash digest (ceDesired e))"


section \<open>What the comparison sees\<close>

lemma settingKV_trim [simp]: "settingKV (trim_space l) = settingKV l"
  by (simp add: settingKV_def)

lemma settingKV_line_key: "settingKV l = Some (k, v) \<Longrightarrow> line_key (trim_space l) = Some k"
  by (auto simp: settingKV_def line_key_def Let_def split: if_splits option.splits)

lemma settingKV_not_comment: "settingKV l = Some p \<Longrightarrow> \<not> isCommentOrBlankLine l"
  by (auto simp: settingKV_def isCommentOrBlankLine_def Let_def split: if_splits)

lemma isCommentOrBlankLine_trim [simp]: "isCommentOrBlankLine (trim_space l) = isCommentOrBlankLine l"
  by (simp add: isCommentOrBlankLine_def)

lemma plain_line_key:
  assumes "settingKV l = None" "\<not> isCommentOrBlankLine l" "line_key (trim_space l) = Some key"
  shows "\<not> conf_key key"
  using assms
  by (auto simp: settingKV_def line_key_def isCommentOrBlankLine_def conf_key_def Let_def
      split: if_splits option.splits) (simp add: trim_space_def)

text \<open>Of each setting the comparison keeps the first line, and nothing else.\<close>

lemma values_of_normalize:
  assumes "conf_key k"
  shows "values_of k (normalize_lines seen ls) = (if k \<in> set seen then [] else take 1 (values_of k ls))"
proof (induction ls arbitrary: seen)
  case (Cons l ls)
  show ?case
  proof (cases "settingKV l")
    case None
    then show ?thesis
      using Cons.IH plain_line_key[OF None] assms by (auto simp: Let_def split: option.splits)
  next
    case (Some p)
    obtain a v where "settingKV l = Some (a, v)" using Some by (cases p) auto
    then show ?thesis
      using Cons settingKV_line_key[of l a v] settingKV_not_comment[of l "(a, v)"]
      by (auto simp: Let_def)
  qed
qed simp

lemma values_of_not_key: "\<not> conf_key k \<Longrightarrow> values_of k (split_on eol conf) = []"
  using values_of_key lines_no_eol by blast

lemma eol_normalize: "\<forall>l\<in>set ls. eol \<notin> set l \<Longrightarrow> \<forall>l\<in>set (normalize_lines seen ls). eol \<notin> set l"
proof (induction ls arbitrary: seen)
  case (Cons l ls)
  then have "eol \<notin> set (trim_space l)" using set_trim_space[of l] by auto
  with Cons show ?case by (auto simp: Let_def split: option.splits)
qed simp

lemma values_of_split_join:
  "\<forall>l\<in>set ls. eol \<notin> set l \<Longrightarrow> values_of k (split_on eol (join [eol] ls)) = values_of k ls"
  by (cases "ls = []") (simp_all add: split_on_join settingKV_def trim_space_def)

lemma normalized_values:
  "values_of k (split_on eol (normalizeNeo4jConfForRestart conf)) = take 1 (values_of k (split_on eol conf))"
proof (cases "conf_key k")
  case True
  have "\<forall>l\<in>set (normalize_lines [] (split_on eol conf)). eol \<notin> set l"
    by (rule eol_normalize) (blast dest: lines_no_eol)
  then show ?thesis
    by (simp add: normalizeNeo4jConfForRestart_def values_of_split_join values_of_normalize[OF True])
qed (simp add: values_of_not_key)

text \<open>
  No change of a setting escapes the restart decision: when two rendered files compare equal
  (\<open>normalizeNeo4jConfForRestart\<close> keeps the first line of each key, trimmed, and no comment),
  they declare the same value of every setting, repeatable JVM lines apart.
\<close>

theorem equal_for_restart_means_equal_settings:
  assumes "normalizeNeo4jConfForRestart (DedupeNeo4jConf c1) = normalizeNeo4jConfForRestart (DedupeNeo4jConf c2)"
  shows "map_of (Neo4jConfSettings (DedupeNeo4jConf c1)) k = map_of (Neo4jConfSettings (DedupeNeo4jConf c2)) k"
proof -
  have one: "take 1 (values_of k (dedupe_lines ls)) = values_of k (dedupe_lines ls)" for ls
    by (simp add: values_of_dedupe split: option.splits)
  from assms normalized_values[of k "DedupeNeo4jConf c1"] normalized_values[of k "DedupeNeo4jConf c2"]
  have "values_of k (split_on eol (DedupeNeo4jConf c1)) = values_of k (split_on eol (DedupeNeo4jConf c2))"
    by (simp add: one del: One_nat_def)
  then show ?thesis by (simp only: map_of_Neo4jConfSettings)
qed

theorem equal_for_restart_means_equal_settings_witness:
  "map_of (Neo4jConfSettings (DedupeNeo4jConf (''# old'' @ [eol] @ ''a=1''))) ''a'' =
   map_of (Neo4jConfSettings (DedupeNeo4jConf (''a = 1'' @ [eol] @ ''# new'' @ [eol] @ ''a=1''))) ''a''"
  by (rule equal_for_restart_means_equal_settings) code_simp

text \<open>
  A repeated JVM line after the first is not compared: such a change alone restarts nothing.
\<close>

lemma later_jvm_lines_are_not_compared:
  "normalizeNeo4jConfForRestart (''server.jvm.additional=-Da=1'' @ [eol] @ ''server.jvm.additional=-Db=1'') =
   normalizeNeo4jConfForRestart (''server.jvm.additional=-Da=1'' @ [eol] @ ''server.jvm.additional=-Db=2'') \<and>
   map_of (neo4jConfChanges (''server.jvm.additional=-Da=1'' @ [eol] @ ''server.jvm.additional=-Db=1'')
      (''server.jvm.additional=-Da=1'' @ [eol] @ ''server.jvm.additional=-Db=2'')) ''server.jvm.additional'' =
     Some ''-Da=1,-Db=2''"
  by code_simp


section \<open>A change set on the servers is the change a restart makes\<close>

text \<open>
  What a server runs with after it read a file at its start: of each setting the value, or
  Neo4j's own when the file has none or an empty one (\<open>dflt\<close>).
\<close>

definition running :: "(string \<Rightarrow> string) \<Rightarrow> string \<Rightarrow> string \<Rightarrow> string" where
  "running dflt conf k =
     (case map_of (confValues conf) k of
        None \<Rightarrow> dflt k
      | Some vs \<Rightarrow> let v = join '','' vs in if v = [] then dflt k else v)"

text \<open>\<^verbatim>\<open>dbms.setConfigValue\<close>: an empty value puts the setting back to Neo4j's own.\<close>

definition set_value :: "(string \<Rightarrow> string) \<Rightarrow> (string \<Rightarrow> string) \<Rightarrow> set_call \<Rightarrow> string \<Rightarrow> string" where
  "set_value dflt settings = (\<lambda>(i, k, v). settings(k := (if v = [] then dflt k else v)))"

lemma distinct_confValues_lines:
  "distinct (map fst m) \<Longrightarrow>
   distinct (map fst (foldl (\<lambda>out line. case conf_value_line line of None \<Rightarrow> out
      | Some (k, v) \<Rightarrow> add_conf_value out k v) m ls))"
  by (induction ls arbitrary: m) (auto simp: add_conf_value_def distinct_update split: option.splits prod.splits)

lemma distinct_confValues [simp]: "distinct (map fst (confValues conf))"
  unfolding confValues_def by (rule distinct_confValues_lines) simp

lemma map_of_concat_distinct:
  assumes "distinct (map fst m)"
  shows "map_of (concat (map (\<lambda>(k, v). if P k v then [(k, f k v)] else []) m)) k =
     (case map_of m k of None \<Rightarrow> None | Some v \<Rightarrow> if P k v then Some (f k v) else None)"
  using assms
proof (induction m)
  case (Cons p m)
  obtain a v where p: "p = (a, v)" by (cases p)
  have "map_of m a = None" using Cons.prems by (simp add: p map_of_eq_None_iff)
  with Cons show ?case by (auto simp: p)
qed simp

lemma map_of_neo4jConfChanges:
  "map_of (neo4jConfChanges old new) k =
     (case map_of (confValues new) k of
        Some nv \<Rightarrow> if map_of (confValues old) k \<noteq> Some nv then Some (join '','' nv) else None
      | None \<Rightarrow> if map_of (confValues old) k \<noteq> None then Some [] else None)"
proof -
  let ?o = "confValues old" and ?n = "confValues new"
  have a: "map_of (concat (map (\<lambda>(k, nv). if map_of ?o k \<noteq> Some nv then [(k, join '','' nv)] else []) ?n)) k =
      (case map_of ?n k of None \<Rightarrow> None | Some v \<Rightarrow> if map_of ?o k \<noteq> Some v then Some (join '','' v) else None)"
    by (rule map_of_concat_distinct) simp
  have b: "map_of (concat (map (\<lambda>(k, uu). if Option.is_none (map_of ?n k) then [(k, [])] else []) ?o)) k =
      (case map_of ?o k of None \<Rightarrow> None | Some v \<Rightarrow> if Option.is_none (map_of ?n k) then Some [] else None)"
    by (rule map_of_concat_distinct) simp
  show ?thesis
    unfolding neo4jConfChanges_def Let_def map_of_append map_add_def a b
    by (auto simp: Option.is_none_def split: option.splits)
qed


abbreviation calls_of :: "(string \<times> string) list \<Rightarrow> nat \<Rightarrow> set_call list" where
  "calls_of changes i \<equiv> map (\<lambda>k. (i, k, or_empty (map_of changes k))) (sortedSettingNames changes)"

lemma set_all_ok:
  "set_all le changes i ks calls = (None, calls') \<Longrightarrow>
   calls' = calls @ map (\<lambda>k. (i, k, or_empty (changes k))) ks"
proof (induction ks arbitrary: calls)
  case (Cons k ks)
  then show ?case using Cons.IH[of "calls @ [(i, k, or_empty (changes k))]"]
    by (auto simp: Let_def split: option.splits)
qed simp

lemma apply_servers_ok:
  "apply_servers le changes is calls = (True, r, calls') \<Longrightarrow>
   calls' = calls @ concat (map (calls_of changes) is)"
proof (induction "is" arbitrary: calls)
  case (Cons i "is")
  obtain err calls1 where a: "applyConfChanges le changes i calls = (err, calls1)" by force
  then have "err = None" using Cons.prems by (cases err) auto
  moreover from this have "calls1 = calls @ calls_of changes i"
    using a set_all_ok by (auto simp: applyConfChanges_def)
  ultimately show ?case using Cons.prems Cons.IH[of calls1] a by simp
qed simp

lemma ApplyLive_True:
  assumes "ApplyLive le servers changes = (True, r, calls)"
  obtains sts dynamic where "leSts le = Inr sts" "leDynamic le = Inr dynamic"
    "statefulSetSettled sts servers" "liveConfigBlocker changes dynamic (lsEnvNames sts) = []"
    "calls = concat (map (calls_of changes) [0..<nat servers])"
proof -
  from assms obtain sts dynamic where "leSts le = Inr sts" "leDynamic le = Inr dynamic"
      "statefulSetSettled sts servers" "liveConfigBlocker changes dynamic (lsEnvNames sts) = []"
      "apply_servers le changes [0..<nat servers] [] = (True, r, calls)"
    by (auto simp: ApplyLive_def Let_def split: if_splits sum.splits option.splits)
  with apply_servers_ok[of le changes "[0..<nat servers]" "[]"] that show ?thesis by auto
qed

lemma filter_calls_of:
  "i < n \<Longrightarrow> filter (\<lambda>c. fst c = i) (concat (map (calls_of changes) [0..<n])) = calls_of changes i"
proof (induction n)
  case (Suc n)
  have "filter (\<lambda>c. fst c = i) (concat (map (calls_of changes) [0..<n])) = []" if "i = n"
    using that by (auto simp: filter_empty_conv)
  with Suc show ?case by (cases "i = n") (auto simp: filter_empty_conv)
qed simp

lemma foldl_set_value:
  "foldl (set_value dflt) s (map (\<lambda>k. (i, k, f k)) ks) =
     (\<lambda>k. if k \<in> set ks then (if f k = [] then dflt k else f k) else s k)"
  by (induction ks arbitrary: s) (auto simp: set_value_def fun_eq_iff)

lemma blocker_empty:
  assumes "liveConfigBlocker changes dynamic env = []" "map_of changes k = Some v"
  shows "dynamic k = Some True \<and> Neo4jSettingEnvVarName k \<notin> set env"
proof -
  have k: "k \<in> set (sortedSettingNames changes)"
    using assms(2) by (force simp: sortedSettingNames_def dest: map_of_SomeD)
  have "join ''; '' rs = [] \<Longrightarrow> \<forall>r\<in>set rs. r \<noteq> [] \<Longrightarrow> rs = []" for rs
    by (simp add: join_eq_Nil)
  then have e: "filter (\<lambda>k. Neo4jSettingEnvVarName k \<in> set env) (sortedSettingNames changes) = []"
      "filter (\<lambda>k. Neo4jSettingEnvVarName k \<notin> set env \<and> dynamic k = None) (sortedSettingNames changes) = []"
      "filter (\<lambda>k. Neo4jSettingEnvVarName k \<notin> set env \<and> dynamic k = Some False) (sortedSettingNames changes) = []"
    using assms(1) by (auto simp: liveConfigBlocker_def Let_def join_eq_Nil split: if_splits)
  show ?thesis
    using k e by (cases "dynamic k") (auto simp: filter_empty_conv)
qed

lemma live_apply_runs:
  assumes "ApplyLive le servers (neo4jConfChanges oldConf newConf) = (True, reason, calls)" "i < nat servers"
  shows "foldl (set_value dflt) (running dflt oldConf) (filter (\<lambda>c. fst c = i) calls) = running dflt newConf"
proof -
  let ?ch = "neo4jConfChanges oldConf newConf"
  from ApplyLive_True[OF assms(1)] have calls: "calls = concat (map (calls_of ?ch) [0..<nat servers])" by blast
  have "k \<in> set (sortedSettingNames ?ch) \<longleftrightarrow> map_of ?ch k \<noteq> None" for k
    by (simp add: sortedSettingNames_def map_of_eq_None_iff)
  then have "foldl (set_value dflt) (running dflt oldConf) (calls_of ?ch i) = running dflt newConf"
    unfolding foldl_set_value fun_eq_iff
    by (auto simp: running_def or_empty_def Let_def map_of_neo4jConfChanges split: option.splits)
  then show ?thesis by (simp add: calls filter_calls_of[OF assms(2)])
qed

text \<open>
  C22: A change of \<^verbatim>\<open>neo4j.conf\<close> reported as applied live has reached every server of the
  cluster, each of its settings is one the servers report as dynamic and no environment variable
  sets, and what each server then runs with is what it would run with after a restart on the
  new file.
\<close>

theorem live_apply_is_the_restart:
  assumes "ApplyLive le servers (neo4jConfChanges oldConf newConf) = (True, reason, calls)"
    and "i < nat servers"
  shows "foldl (set_value dflt) (running dflt oldConf) (filter (\<lambda>c. fst c = i) calls) = running dflt newConf \<and>
    (\<exists>sts dynamic. leSts le = Inr sts \<and> leDynamic le = Inr dynamic \<and> statefulSetSettled sts servers \<and>
       (\<forall>k v. map_of (neo4jConfChanges oldConf newConf) k = Some v \<longrightarrow>
          dynamic k = Some True \<and> Neo4jSettingEnvVarName k \<notin> set (lsEnvNames sts)))"
proof -
  from ApplyLive_True[OF assms(1)] obtain sts dynamic where a: "leSts le = Inr sts" "leDynamic le = Inr dynamic"
      "statefulSetSettled sts servers"
      "liveConfigBlocker (neo4jConfChanges oldConf newConf) dynamic (lsEnvNames sts) = []" by blast
  with blocker_empty[OF a(4)] live_apply_runs[OF assms] show ?thesis by blast
qed

definition quiet_servers :: live_env where
  "quiet_servers =
     \<lparr>leName = ''graph'', leReady = True, leDegraded = False,
      leSts = Inr \<lparr>lsReplicas = Some 2, lsGeneration = 4, lsObservedGeneration = 4, lsReadyReplicas = 2,
                  lsUpdatedReplicas = 2, lsCurrentRevision = ''r1'', lsUpdateRevision = ''r1'',
                  lsEnvNames = [''NEO4J_PLUGINS'']\<rparr>,
      leDial = (\<lambda>_. None), leDynamic = Inr (\<lambda>_. Some True), leSet = (\<lambda>_ _ _. None)\<rparr>"

theorem live_apply_is_the_restart_witness:
  "\<exists>calls.
    ApplyLive quiet_servers 2
      (neo4jConfChanges (''db.logs.query.enabled=INFO'' @ [eol] @ ''a=1'') ''db.logs.query.enabled=OFF'') =
        (True, [], calls) \<and>
    foldl (set_value (\<lambda>_. ''-'')) (running (\<lambda>_. ''-'') (''db.logs.query.enabled=INFO'' @ [eol] @ ''a=1''))
      (filter (\<lambda>c. fst c = 1) calls) = running (\<lambda>_. ''-'') ''db.logs.query.enabled=OFF''"
proof -
  let ?old = "''db.logs.query.enabled=INFO'' @ [eol] @ ''a=1''" and ?new = "''db.logs.query.enabled=OFF''"
  let ?calls = "[(0, ''a'', []), (0, ''db.logs.query.enabled'', ''OFF''), (1, ''a'', []),
                 (1::nat, ''db.logs.query.enabled'', ''OFF'')] :: set_call list"
  have "ApplyLive quiet_servers 2 (neo4jConfChanges ?old ?new) = (True, [], ?calls)" by code_simp
  from this live_apply_is_the_restart[OF this, of 1 "\<lambda>_. ''-''"] show ?thesis by auto
qed



section \<open>A pass over the ConfigMap\<close>

text \<open>The files of two ConfigMaps that differ for a restart.\<close>

definition differ :: "config_map \<Rightarrow> config_map \<Rightarrow> bool" where
  "differ a b =
     list_ex (\<lambda>key. map_option (normalizeConfigContent key) (cm_file a key) \<noteq>
                    map_option (normalizeConfigContent key) (cm_file b key)) config_files"

lemma str_contains_plain:
  "\<not> str_contains (''added '' @ key) noDifferences" "\<not> str_contains (''removed '' @ key) noDifferences"
  "\<not> str_contains (''modified '' @ key) noDifferences"
  "\<not> str_contains (''added '' @ key) ''Runtime variable excluded from hash''"
  "\<not> str_contains (''removed '' @ key) ''Runtime variable excluded from hash''"
  "\<not> str_contains (''modified '' @ key) ''Runtime variable excluded from hash''"
  if "key \<in> set config_files"
  using that by (auto simp: config_files_def; code_simp)+

lemma file_changes_differ:
  assumes "key \<in> set config_files"
  shows "requiresRestart (file_changes a b key) \<longleftrightarrow>
      map_option (normalizeConfigContent key) (cm_file a key) \<noteq> map_option (normalizeConfigContent key) (cm_file b key)"
    and "file_changes a b key = [] \<longleftrightarrow>
      map_option (normalizeConfigContent key) (cm_file a key) = map_option (normalizeConfigContent key) (cm_file b key)"
  using str_contains_plain[OF assms]
  by (auto simp: file_changes_def requiresRestart_def Let_def split: option.splits)

lemma requiresRestart_Nil: "\<not> requiresRestart []"
  by (simp add: requiresRestart_def)

lemma requiresRestart_concat: "requiresRestart (concat xss) \<longleftrightarrow> list_ex requiresRestart xss"
  by (induction xss) (auto simp: requiresRestart_def)

lemma requiresRestart_analyze: "requiresRestart (analyzeConfigChanges a b) \<longleftrightarrow> differ a b"
proof (cases "differ a b")
  case True
  then have "requiresRestart (concat (map (file_changes a b) config_files))"
    by (auto simp: differ_def requiresRestart_concat list_ex_iff file_changes_differ(1))
  moreover from this have "concat (map (file_changes a b) config_files) \<noteq> []"
    using requiresRestart_Nil by metis
  ultimately show ?thesis using True by (auto simp: analyzeConfigChanges_def)
next
  case False
  then have "concat (map (file_changes a b) config_files) = []"
    by (auto simp: differ_def list_ex_iff file_changes_differ(2))
  moreover have "\<not> requiresRestart [noDifferences]" by code_simp
  ultimately show ?thesis using False by (simp add: analyzeConfigChanges_def)
qed

lemma same_restart_text: "\<not> differ a b \<Longrightarrow> restart_text a = restart_text b"
proof -
  assume s: "\<not> differ a b"
  have "(case cm_file a key of None \<Rightarrow> [] | Some v \<Rightarrow> key @ normalizeConfigContent key v) =
        (case cm_file b key of None \<Rightarrow> [] | Some v \<Rightarrow> key @ normalizeConfigContent key v)"
    if "key \<in> set config_files" for key
  proof -
    have "map_option (normalizeConfigContent key) (cm_file a key) = map_option (normalizeConfigContent key) (cm_file b key)"
      using s that by (auto simp: differ_def list_ex_iff)
    then show ?thesis by (cases "cm_file a key"; cases "cm_file b key") auto
  qed
  then show ?thesis by (auto simp: restart_text_def intro!: arg_cong[where f = concat] map_cong)
qed

lemma withoutMovedJVMLines_same: "same_data a b \<Longrightarrow> \<not> differ (withoutMovedJVMLines a b) b"
proof -
  assume s: "same_data a b"
  then have "withoutMovedJVMLines a b = a"
    by (auto simp: same_data_def withoutMovedJVMLines_def Let_def list_ex_iff)
  with s show ?thesis by (auto simp: same_data_def differ_def config_files_def cm_file_def)
qed

text \<open>A pass all of whose reads and writes succeed.\<close>

definition answers :: "conf_env \<Rightarrow> bool" where
  "answers e = (Option.is_none (ceReadErr e) \<and> Option.is_none (ceReadAgainErr e) \<and> Option.is_none (ceWriteErr e) \<and>
                Option.is_none (ceStsReadErr e) \<and> Option.is_none (ceStsWriteErr e))"

definition stamped :: "(string \<Rightarrow> string) \<Rightarrow> conf_env \<Rightarrow> server_template \<Rightarrow> server_template" where
  "stamped digest e t =
     \<lparr>stConfigHash = Some (calculateConfigMapHash digest (ceDesired e)), stConfigRestart = Some (ceNow e),
      stNeo4jPlugins = ceFleet e (stNeo4jPlugins t)\<rparr>"

lemma write_and_restart_ok:
  assumes "answers e" "cwTemplate w = Some t"
  shows "write_and_restart e (calculateConfigMapHash digest (ceDesired e)) restart w =
     (None, w\<lparr>cwMap := Some (ceDesired e), cwLastUpdate := Some (ceNow e),
              cwTemplate := Some (if restart then stamped digest e t else t)\<rparr>)"
  using assms
  by (auto simp: write_and_restart_def updateConfigMapImmediate_def triggerRollingRestartForConfigChange_def
      updateStatefulSetWithConfigHash_def stamped_def answers_def Option.is_none_def)

lemma applyLive_True:
  assumes "applyLive e changes = (True, r, calls)"
  obtains le where "ceLive e = Some le" "ApplyLive le (tpServers (ceTopology e)) changes = (True, r, calls)"
  using assms by (auto simp: applyLive_def split: option.splits)

text \<open>Where the digests of what restarts the servers differ, the pass takes one of three ways.\<close>

lemma restart_ways:
  assumes "cwMap w = Some old" "cwTemplate w = Some t" "answers e" "\<not> debounced e w"
    and "base = withoutMovedJVMLines old (ceDesired e)"
    and "digest (restart_text base) \<noteq> digest (restart_text (ceDesired e))"
  shows "\<exists>w'. ReconcileConfigMap digest e w = (None, w') \<and> cwMap w' = Some (ceDesired e) \<and>
     (cwTemplate w' = Some (stamped digest e t) \<and> (\<exists>calls. cwCalls w' = cwCalls w @ calls) \<or>
      (\<exists>le reason calls.
         ceLive e = Some le \<and> onlyNeo4jConfChanged base (ceDesired e) \<and>
         ApplyLive le (tpServers (ceTopology e))
           (neo4jConfChanges (or_empty (cmConf base)) (or_empty (cmConf (ceDesired e)))) = (True, reason, calls) \<and>
         cwCalls w' = cwCalls w @ calls \<and> cwTemplate w' = Some t) \<or>
      (membershipOnlyStartupChange base (ceDesired e) \<and>
       addedSystemPrimaries (renderedServerCount (or_empty (cmStartup base))) (ceTopology e) = [] \<and>
       cwTemplate w' = Some t))"
proof -
  let ?d = "ceDesired e" and ?h = "calculateConfigMapHash digest (ceDesired e)"
  have diff: "differ base ?d" using assms(6) same_restart_text[of base ?d] by metis
  then have chg: "\<not> same_data old ?d" using withoutMovedJVMLines_same assms(5) by blast
  have read: "existingConfigMap e w = Some old"
    using assms(1,3) by (auto simp: existingConfigMap_def answers_def Option.is_none_def)
  have rel: "calculateConfigMapHash digest base \<noteq> ?h"
    using assms(6) by (simp add: calculateConfigMapHash_def)
  show ?thesis
  proof (cases "scaleNeedsNoRestart base ?d (ceTopology e)")
    case True
    then have "ReconcileConfigMap digest e w = write_and_restart e ?h False w"
      using read chg assms(4) rel by (simp add: ReconcileConfigMap_def Let_def assms(5)[symmetric])
    with True show ?thesis
      by (auto simp: write_and_restart_ok[OF assms(3,2)] scaleNeedsNoRestart_def Let_def)
  next
    case False
    let ?ch = "neo4jConfChanges (or_empty (cmConf base)) (or_empty (cmConf ?d))"
    obtain applied r calls where l:
      "(if onlyNeo4jConfChanged base ?d then applyLive e ?ch else (False, [], [])) = (applied, r, calls)"
      by (metis prod_cases3)
    let ?w = "w\<lparr>cwCalls := cwCalls w @ calls\<rparr>"
    have R: "ReconcileConfigMap digest e w = write_and_restart e ?h (\<not> applied) ?w"
      using read chg assms(4) rel False diff l unfolding assms(5)
      by (simp add: ReconcileConfigMap_def Let_def requiresRestart_analyze split del: if_split)
    have t: "cwTemplate ?w = Some t" using assms(2) by simp
    show ?thesis
    proof (cases applied)
      case True
      then have "onlyNeo4jConfChanged base ?d" "applyLive e ?ch = (True, r, calls)"
        using l by (auto split: if_splits)
      then show ?thesis
        using True R write_and_restart_ok[OF assms(3) t] by (elim applyLive_True) auto
    qed (use R write_and_restart_ok[OF assms(3) t] in auto)
  qed
qed

text \<open>The value of a setting that is not repeatable is read off lines that are no JVM lines.\<close>

lemma jvm_no_setting: "isJVMLine l \<Longrightarrow> settingKV l = None"
proof -
  assume j: "isJVMLine l"
  have r: "repeatableConfKey ''server.jvm.additional''" by code_simp
  show ?thesis
  proof (rule ccontr)
    assume "settingKV l \<noteq> None"
    then obtain k v where kv: "settingKV l = Some (k, v)" by fast
    then have "k = ''server.jvm.additional''" using j settingKV_line_key[of l k v] by (simp add: isJVMLine_def)
    moreover have "\<not> repeatableConfKey k"
      using kv by (auto simp: settingKV_def Let_def split: if_splits option.splits)
    ultimately show False using r by simp
  qed
qed

lemma values_of_no_jvm: "values_of k (filter (\<lambda>l. \<not> isJVMLine l) ls) = values_of k ls"
  by (induction ls) (auto simp: values_of_def map_filter_simps jvm_no_setting split: option.splits)

lemma moved_jvm_values:
  "values_of k (split_on eol (or_empty (cmConf (withoutMovedJVMLines old new)))) =
   values_of k (split_on eol (or_empty (cmConf old)))"
proof -
  let ?ls = "split_on eol (or_empty (cmConf old))"
  have "\<forall>l\<in>set (filter (\<lambda>l. \<not> isJVMLine l) ?ls). eol \<notin> set l" by (auto dest: lines_no_eol)
  then have "values_of k (split_on eol (join [eol] (filter (\<lambda>l. \<not> isJVMLine l) ?ls))) = values_of k ?ls"
    by (simp add: values_of_split_join values_of_no_jvm)
  then show ?thesis by (simp add: withoutMovedJVMLines_def Let_def or_empty_def)
qed

lemma changed_setting_differs:
  assumes "cmConf old = Some (DedupeNeo4jConf c1)" "cmConf new = Some (DedupeNeo4jConf c2)"
    and "map_of (Neo4jConfSettings (DedupeNeo4jConf c1)) k \<noteq> map_of (Neo4jConfSettings (DedupeNeo4jConf c2)) k"
  shows "\<not> same_file ''neo4j.conf'' (withoutMovedJVMLines old new) new"
proof
  let ?base = "withoutMovedJVMLines old new"
  assume "same_file ''neo4j.conf'' ?base new"
  then have "normalizeNeo4jConfForRestart (or_empty (cmConf ?base)) = normalizeNeo4jConfForRestart (DedupeNeo4jConf c2)"
    using assms(2) by (simp add: same_file_def normalizeConfigContent_def cm_file_def or_empty_def)
  then have "take 1 (values_of k (split_on eol (or_empty (cmConf ?base)))) = take 1 (values_of k (split_on eol (DedupeNeo4jConf c2)))"
    by (simp only: normalized_values[symmetric])
  then have "take 1 (values_of k (split_on eol (DedupeNeo4jConf c1))) = take 1 (values_of k (split_on eol (DedupeNeo4jConf c2)))"
    using assms(1) unfolding moved_jvm_values by (simp add: or_empty_def)
  moreover have "take 1 (values_of k (dedupe_lines ls)) = values_of k (dedupe_lines ls)" for ls
    by (simp add: values_of_dedupe split: option.splits)
  ultimately show False using assms(3) by (simp add: map_of_Neo4jConfSettings del: One_nat_def)
qed

text \<open>
  C20: When the rendered \<^verbatim>\<open>neo4j.conf\<close> gives some setting another value than the stored one, or adds
  or removes one (repeatable JVM lines apart), a pass that gets its answers, at least a second after
  the last write of the ConfigMap, stores the new ConfigMap, and the change reaches the servers:
  either the StatefulSet is stamped with the digest of the new files and the time, which restarts
  them, or the startup script is the same and, by the calls the pass made on it, every server runs
  with exactly the values it would have after a restart on the new file. The digest is taken not to
  collide on the two ConfigMaps.
\<close>

theorem config_change_reaches_the_servers:
  assumes "cwMap w = Some old" "cwTemplate w = Some t" "answers e" "\<forall>last. cwLastUpdate w = Some last \<longrightarrow> 10 ^ 9 \<le> ceNow e - last"
    and "cmConf old = Some (DedupeNeo4jConf c1)" "cmConf (ceDesired e) = Some (DedupeNeo4jConf c2)"
    and "map_of (Neo4jConfSettings (DedupeNeo4jConf c1)) k \<noteq> map_of (Neo4jConfSettings (DedupeNeo4jConf c2)) k"
    and "base = withoutMovedJVMLines old (ceDesired e)"
    and "digest (restart_text base) = digest (restart_text (ceDesired e)) \<longrightarrow> \<not> differ base (ceDesired e)"
  shows "\<exists>w' calls. ReconcileConfigMap digest e w = (None, w') \<and> cwMap w' = Some (ceDesired e) \<and>
     cwCalls w' = cwCalls w @ calls \<and>
     (cwTemplate w' = Some \<lparr>stConfigHash = Some (digest (restart_text (ceDesired e))), stConfigRestart = Some (ceNow e),
        stNeo4jPlugins = ceFleet e (stNeo4jPlugins t)\<rparr> \<or>
      cwTemplate w' = Some t \<and>
      normalizeStartupScript (or_empty (cmStartup old)) = normalizeStartupScript (or_empty (cmStartup (ceDesired e))) \<and>
      (\<forall>i dflt. i < nat (tpServers (ceTopology e)) \<longrightarrow>
         foldl (set_value dflt) (running dflt (or_empty (cmConf base))) (filter (\<lambda>c. fst c = i) calls) =
         running dflt (DedupeNeo4jConf c2)))"
proof -
  let ?d = "ceDesired e"
  have conf: "\<not> same_file ''neo4j.conf'' base ?d"
    using changed_setting_differs[OF assms(5-7)] assms(8) by simp
  have "differ base ?d"
  proof (rule ccontr)
    assume "\<not> differ base ?d"
    then have "map_option (normalizeConfigContent ''neo4j.conf'') (cm_file base ''neo4j.conf'') =
        map_option (normalizeConfigContent ''neo4j.conf'') (cm_file ?d ''neo4j.conf'')"
      by (simp add: differ_def config_files_def)
    then show False
      using conf assms(6) by (auto simp: same_file_def cm_file_def or_empty_def split: option.splits)
  qed
  then have dig: "digest (restart_text base) \<noteq> digest (restart_text ?d)" using assms(9) by blast
  have deb: "\<not> debounced e w" using assms(4) by (auto simp: debounced_def split: option.splits)
  have startup: "cmStartup base = cmStartup old" by (simp add: assms(8) withoutMovedJVMLines_def Let_def)
  from restart_ways[OF assms(1-3) deb assms(8) dig] obtain w' where w':
    "ReconcileConfigMap digest e w = (None, w')" "cwMap w' = Some ?d"
    and ways: "cwTemplate w' = Some (stamped digest e t) \<and> (\<exists>calls. cwCalls w' = cwCalls w @ calls) \<or>
      (\<exists>le reason calls. onlyNeo4jConfChanged base ?d \<and>
         ApplyLive le (tpServers (ceTopology e)) (neo4jConfChanges (or_empty (cmConf base)) (or_empty (cmConf ?d))) =
           (True, reason, calls) \<and> cwCalls w' = cwCalls w @ calls \<and> cwTemplate w' = Some t)"
    using conf by (auto simp: membershipOnlyStartupChange_def)
  from ways show ?thesis
  proof (elim disjE exE conjE)
    fix calls assume "cwTemplate w' = Some (stamped digest e t)" "cwCalls w' = cwCalls w @ calls"
    then show ?thesis using w' by (auto simp: stamped_def calculateConfigMapHash_def)
  next
    fix le reason calls
    assume l: "onlyNeo4jConfChanged base ?d" "cwCalls w' = cwCalls w @ calls" "cwTemplate w' = Some t"
      "ApplyLive le (tpServers (ceTopology e)) (neo4jConfChanges (or_empty (cmConf base)) (or_empty (cmConf ?d))) =
        (True, reason, calls)"
    have "normalizeStartupScript (or_empty (cmStartup old)) = normalizeStartupScript (or_empty (cmStartup ?d))"
      using l(1) startup by (simp add: onlyNeo4jConfChanged_def same_file_def normalizeConfigContent_def cm_file_def)
    then show ?thesis using w' l(2,3) live_apply_runs[OF l(4)] assms(6) by (auto simp: or_empty_def)
  qed
qed

text \<open>Two renderings that say the same to a server.\<close>

definition conf_lines :: "string \<Rightarrow> string list" where
  "conf_lines conf = filter (\<lambda>l. l \<noteq> [] \<and> hd l \<noteq> CHR ''#'') (map trim_space (split_on eol conf))"

definition same_conf :: "string \<Rightarrow> string \<Rightarrow> bool" where
  "same_conf old new \<longleftrightarrow> conf_lines new = conf_lines old \<or>
     conf_lines new = filter (\<lambda>l. line_key l \<noteq> Some ''server.jvm.additional'') (conf_lines old)"

definition same_script :: "string \<Rightarrow> string \<Rightarrow> bool" where
  "same_script old new \<longleftrightarrow> old = new \<or>
     (\<exists>before1 part1 part2 after1 b1 b2.
        split_on eol old = before1 @ [b1] @ part1 @ [b2] @ after1 \<and>
        split_on eol new = before1 @ [b1] @ part2 @ [b2] @ after1 \<and>
        trim_space b1 = ''# operator:restart-neutral begin'' \<and> trim_space b2 = ''# operator:restart-neutral end'' \<and>
        (\<forall>l\<in>set part1 \<union> set part2. trim_space l \<noteq> ''# operator:restart-neutral end''))"

lemma comment_line: "isCommentOrBlankLine l \<longleftrightarrow> trim_space l = [] \<or> hd (trim_space l) = CHR ''#''"
  by (cases "trim_space l") (auto simp: isCommentOrBlankLine_def Let_def has_prefix_def)

lemma normalize_told_lines:
  "normalize_lines seen (filter (\<lambda>l. l \<noteq> [] \<and> hd l \<noteq> CHR ''#'') (map trim_space ls)) = normalize_lines seen ls"
  by (induction ls arbitrary: seen) (simp_all add: comment_line Let_def split: option.splits)

lemma normalize_conf_lines:
  "normalizeNeo4jConfForRestart conf = join [eol] (normalize_lines [] (conf_lines conf))"
  by (simp add: normalizeNeo4jConfForRestart_def conf_lines_def normalize_told_lines)

lemma trim_space_starts: "\<not> is_space c \<Longrightarrow> \<exists>r. trim_space (c # s) = c # r"
proof -
  assume "\<not> is_space c"
  then have "trim_space (c # s) = c # rev (if \<forall>x\<in>set s. is_space x then [] else dropWhile is_space (rev s))"
    by (simp add: trim_space_def dropWhile_append)
  then show ?thesis by blast
qed

lemma jvm_line_told: "isJVMLine l \<Longrightarrow> trim_space l \<noteq> [] \<and> hd (trim_space l) \<noteq> CHR ''#''"
proof -
  assume j: "isJVMLine l"
  then obtain i where i: "str_index (trim_space l) ''='' = Some i"
    "trim_space (take i (trim_space l)) = ''server.jvm.additional''" by (auto simp: isJVMLine_def line_key_def)
  obtain c t where t: "trim_space l = c # t" using i(1) by (cases "trim_space l") auto
  have "trim_space [] = []" by (simp add: trim_space_def)
  then have "take i (trim_space l) \<noteq> []" using i(2) by (metis list.distinct(1))
  then obtain r where "take i (trim_space l) = c # r" using t by (cases i) auto
  moreover have "\<not> is_space CHR ''#''" by code_simp
  ultimately have "c \<noteq> CHR ''#''" using i(2) trim_space_starts[of "CHR ''#''" r] by auto
  then show ?thesis using t by simp
qed

lemma conf_lines_no_jvm:
  "conf_lines (join [eol] (filter (\<lambda>l. \<not> isJVMLine l) (split_on eol conf))) =
   filter (\<lambda>l. line_key l \<noteq> Some ''server.jvm.additional'') (conf_lines conf)"
proof -
  let ?kept = "filter (\<lambda>l. \<not> isJVMLine l) (split_on eol conf)"
  have "\<forall>l\<in>set ?kept. eol \<notin> set l" by (auto dest: lines_no_eol)
  then have "conf_lines (join [eol] ?kept) = filter (\<lambda>l. l \<noteq> [] \<and> hd l \<noteq> CHR ''#'') (map trim_space ?kept)"
    by (cases "?kept = []") (simp_all add: conf_lines_def split_on_join, simp add: trim_space_def)
  also have "\<dots> = filter (\<lambda>l. line_key l \<noteq> Some ''server.jvm.additional'') (conf_lines conf)"
    unfolding conf_lines_def by (simp add: filter_map isJVMLine_def comp_def conj_commute conj_left_commute conj_assoc)
  finally show ?thesis .
qed

lemma jvm_in_conf_lines:
  "list_ex isJVMLine (split_on eol conf) \<longleftrightarrow> (\<exists>l\<in>set (conf_lines conf). line_key l = Some ''server.jvm.additional'')"
proof -
  have "isJVMLine l \<longleftrightarrow> line_key (trim_space l) = Some ''server.jvm.additional''" for l by (simp add: isJVMLine_def)
  then show ?thesis using jvm_line_told by (auto simp: conf_lines_def list_ex_iff)
qed

lemma same_conf_normalized:
  assumes "cmConf old = Some c1" "cmConf new = Some c2" "same_conf c1 c2"
  shows "\<exists>c. cmConf (withoutMovedJVMLines old new) = Some c \<and>
    normalizeNeo4jConfForRestart c = normalizeNeo4jConfForRestart c2"
proof -
  let ?no_jvm = "filter (\<lambda>l. line_key l \<noteq> Some ''server.jvm.additional'')"
  let ?kept = "filter (\<lambda>l. \<not> isJVMLine l) (split_on eol c1)"
  show ?thesis
  proof (cases "list_ex isJVMLine (split_on eol c2)")
    case True
    then obtain l where l: "l \<in> set (conf_lines c2)" "line_key l = Some ''server.jvm.additional''"
      unfolding jvm_in_conf_lines by blast
    have "conf_lines c2 \<noteq> ?no_jvm (conf_lines c1)"
    proof
      assume "conf_lines c2 = ?no_jvm (conf_lines c1)"
      with l(1) have "l \<in> set (?no_jvm (conf_lines c1))" by simp
      then show False using l(2) by simp
    qed
    then have "conf_lines c2 = conf_lines c1" using assms(3) unfolding same_conf_def by blast
    then show ?thesis
      using True assms(1,2) by (simp add: withoutMovedJVMLines_def or_empty_def normalize_conf_lines)
  next
    case False
    then have id: "?no_jvm (conf_lines c2) = conf_lines c2"
      unfolding jvm_in_conf_lines by (simp add: filter_id_conv)
    have lines: "conf_lines c2 = ?no_jvm (conf_lines c1)"
      using assms(3) unfolding same_conf_def
    proof
      assume "conf_lines c2 = conf_lines c1"
      then show ?thesis using id by simp
    qed
    show ?thesis
    proof (cases "length ?kept = length (split_on eol c1)")
      case True
      have "\<not> list_ex isJVMLine (split_on eol c1)"
      proof
        assume "list_ex isJVMLine (split_on eol c1)"
        then obtain l where "l \<in> set (split_on eol c1)" "\<not> \<not> isJVMLine l" by (auto simp: list_ex_iff)
        from length_filter_less[where P = "\<lambda>l. \<not> isJVMLine l", OF this] show False using True by simp
      qed
      then have "?no_jvm (conf_lines c1) = conf_lines c1"
        unfolding jvm_in_conf_lines by (simp add: filter_id_conv)
      then show ?thesis
        using True False lines assms(1,2)
        by (simp add: withoutMovedJVMLines_def or_empty_def Let_def normalize_conf_lines)
    next
      case moved: False
      then have "cmConf (withoutMovedJVMLines old new) = Some (join [eol] ?kept)"
        using False assms(1,2) by (simp add: withoutMovedJVMLines_def or_empty_def Let_def)
      then show ?thesis using lines conf_lines_no_jvm[of c1] by (simp add: normalize_conf_lines)
    qed
  qed
qed

lemma script_neutral_part:
  assumes "\<forall>l\<in>set part. trim_space l \<noteq> RestartNeutralEnd" "trim_space b2 = RestartNeutralEnd"
  shows "normalize_script_lines True (part @ [b2] @ rest) = normalize_script_lines False rest"
proof -
  have "RestartNeutralEnd \<noteq> RestartNeutralBegin" by code_simp
  then show ?thesis using assms by (induction part) auto
qed

lemma script_neutral_edit:
  assumes "trim_space b1 = RestartNeutralBegin" "trim_space b2 = RestartNeutralEnd"
    and "\<forall>l\<in>set part1 \<union> set part2. trim_space l \<noteq> RestartNeutralEnd"
  shows "normalize_script_lines n (ls @ [b1] @ part1 @ [b2] @ rest) =
    normalize_script_lines n (ls @ [b1] @ part2 @ [b2] @ rest)"
proof (induction ls arbitrary: n)
  case Nil
  have "normalize_script_lines True (part1 @ [b2] @ rest) = normalize_script_lines True (part2 @ [b2] @ rest)"
    using script_neutral_part[of part1 b2 rest] script_neutral_part[of part2 b2 rest] assms(2,3) by simp
  then show ?case using assms(1) by simp
qed simp

lemma same_script_normalized: "same_script a b \<Longrightarrow> normalizeStartupScript a = normalizeStartupScript b"
  unfolding same_script_def RestartNeutralBegin_def[symmetric] RestartNeutralEnd_def[symmetric]
  using script_neutral_edit unfolding normalizeStartupScript_def by metis

text \<open>
  C21: A ConfigMap that is read and differs from the rendered one only in comments, blank lines and
  surrounding blanks of \<^verbatim>\<open>neo4j.conf\<close>, in \<^verbatim>\<open>server.jvm.additional\<close> lines that leave it, in one part of
  \<^verbatim>\<open>startup.sh\<close> between the lines that mark it as restart-neutral, in the content of \<^verbatim>\<open>health.sh\<close> and
  in the other files, restarts nothing and sets nothing on a server, whatever else the pass meets.
\<close>

theorem nothing_to_restart_for:
  assumes "existingConfigMap e w = Some old"
    and "cmConf old = Some c1" "cmConf (ceDesired e) = Some c2" "same_conf c1 c2"
    and "cmStartup old = Some s1" "cmStartup (ceDesired e) = Some s2" "same_script s1 s2"
    and "cmHealth old = Some h1" "cmHealth (ceDesired e) = Some h2"
  shows "cwTemplate (snd (ReconcileConfigMap digest e w)) = cwTemplate w \<and>
         cwCalls (snd (ReconcileConfigMap digest e w)) = cwCalls w"
proof -
  let ?base = "withoutMovedJVMLines old (ceDesired e)"
  obtain c where c: "cmConf ?base = Some c" "normalizeNeo4jConfForRestart c = normalizeNeo4jConfForRestart c2"
    using same_conf_normalized[OF assms(2-4)] by blast
  have "cmStartup ?base = Some s1" "cmHealth ?base = Some h1"
    using assms(5,8) by (simp_all add: withoutMovedJVMLines_def Let_def)
  then have same: "\<not> differ ?base (ceDesired e)"
    using c assms(3,6,9) same_script_normalized[OF assms(7)]
    by (simp add: differ_def config_files_def cm_file_def normalizeConfigContent_def)
  have "cwTemplate (snd (write_and_restart e h False w)) = cwTemplate w \<and>
      cwCalls (snd (write_and_restart e h False w)) = cwCalls w" for h
    by (auto simp: write_and_restart_def updateConfigMapImmediate_def Let_def split: option.splits)
  moreover have "calculateConfigMapHash digest ?base = calculateConfigMapHash digest (ceDesired e)"
    using same_restart_text[OF same] by (simp add: calculateConfigMapHash_def)
  ultimately show ?thesis
    using assms(1) by (simp add: ReconcileConfigMap_def Let_def)
qed


definition rendered :: "string \<Rightarrow> config_map" where
  "rendered conf =
     \<lparr>cmConf = Some conf, cmStartup = Some (''TOTAL_SERVERS=2'' @ [eol] @ ''exec neo4j''),
      cmHealth = Some ''exit 0'', cmOther = [], cmNotes = []\<rparr>"

definition conf_pass :: "string \<Rightarrow> int \<Rightarrow> conf_env" where
  "conf_pass conf now =
     \<lparr>ceDesired = rendered conf, ceNotesDiffer = False, ceNow = now,
      ceTopology = \<lparr>tpServers = 2, tpMinSystemPrimaries = None\<rparr>, ceLive = None,
      ceReadErr = None, ceReadAgainErr = None, ceWriteErr = None, ceStsReadErr = None, ceStsWriteErr = None,
      ceFleet = (\<lambda>p. p)\<rparr>"

definition conf_start :: "string \<Rightarrow> conf_world" where
  "conf_start conf =
     \<lparr>cwMap = Some (rendered conf),
      cwTemplate = Some \<lparr>stConfigHash = None, stConfigRestart = None, stNeo4jPlugins = None\<rparr>,
      cwLastUpdate = None, cwCalls = []\<rparr>"

theorem config_change_reaches_the_servers_witness:
  "\<exists>w'. ReconcileConfigMap (\<lambda>s. s) (conf_pass ''a=2'' 7) (conf_start ''a=1'') = (None, w') \<and>
     cwMap w' = Some (rendered ''a=2'') \<and> map_option stConfigRestart (cwTemplate w') = Some (Some 7)"
proof -
  let ?e = "conf_pass ''a=2'' 7" and ?w = "conf_start ''a=1''"
  let ?base = "withoutMovedJVMLines (rendered ''a=1'') (ceDesired ?e)"
  have w: "cwMap ?w = Some (rendered ''a=1'')" "answers ?e" "ceDesired ?e = rendered ''a=2''" "cwLastUpdate ?w = None"
      "cwTemplate ?w = Some \<lparr>stConfigHash = None, stConfigRestart = None, stNeo4jPlugins = None\<rparr>" "cwCalls ?w = []"
    by (simp_all add: conf_start_def conf_pass_def answers_def)
  have c: "cmConf (rendered ''a=1'') = Some (DedupeNeo4jConf ''a=1'')"
      "cmConf (ceDesired ?e) = Some (DedupeNeo4jConf ''a=2'')"
      "map_of (Neo4jConfSettings (DedupeNeo4jConf ''a=1'')) ''a'' \<noteq> map_of (Neo4jConfSettings (DedupeNeo4jConf ''a=2'')) ''a''"
      "restart_text ?base \<noteq> restart_text (ceDesired ?e)"
    by code_simp+
  have "cwTemplate (snd (ReconcileConfigMap (\<lambda>s. s) ?e ?w)) \<noteq> cwTemplate ?w" by code_simp
  then show ?thesis
    using config_change_reaches_the_servers[of ?w, OF w(1,5,2) _ c(1-3) refl, of "\<lambda>s. s"] c(4) w(3-6)
    by (auto simp: conf_pass_def)
qed

text \<open>A comment, a JVM line that moved, a restart-neutral part and the health check changed.\<close>

definition neutral_start :: conf_world where
  "neutral_start =
     \<lparr>cwMap = Some \<lparr>cmConf = Some (''# old'' @ [eol] @ ''a=1'' @ [eol] @ ''server.jvm.additional=-Xss2m''),
        cmStartup = Some (''exec a'' @ [eol] @ RestartNeutralBegin @ [eol] @ ''x'' @ [eol] @ RestartNeutralEnd),
        cmHealth = Some ''exit 1'', cmOther = [], cmNotes = []\<rparr>,
      cwTemplate = Some \<lparr>stConfigHash = None, stConfigRestart = None, stNeo4jPlugins = None\<rparr>,
      cwLastUpdate = None, cwCalls = []\<rparr>"

definition neutral_pass :: conf_env where
  "neutral_pass = (conf_pass [] 7)\<lparr>ceDesired :=
     \<lparr>cmConf = Some ('' a=1 '' @ [eol]),
      cmStartup = Some (''exec a'' @ [eol] @ RestartNeutralBegin @ [eol] @ ''y'' @ [eol] @ RestartNeutralEnd),
      cmHealth = Some ''exit 0'', cmOther = [], cmNotes = []\<rparr>\<rparr>"

theorem nothing_to_restart_for_witness:
  "cwTemplate (snd (ReconcileConfigMap (\<lambda>s. s) neutral_pass neutral_start)) = cwTemplate neutral_start \<and>
   cwMap (snd (ReconcileConfigMap (\<lambda>s. s) neutral_pass neutral_start)) \<noteq> cwMap neutral_start"
proof -
  let ?s = "\<lambda>x. ''exec a'' @ [eol] @ RestartNeutralBegin @ [eol] @ x @ [eol] @ RestartNeutralEnd"
  have l: "split_on eol (?s ''x'') = [''exec a''] @ [RestartNeutralBegin] @ [''x''] @ [RestartNeutralEnd] @ []"
      "split_on eol (?s ''y'') = [''exec a''] @ [RestartNeutralBegin] @ [''y''] @ [RestartNeutralEnd] @ []"
    by code_simp+
  have t: "trim_space RestartNeutralBegin = ''# operator:restart-neutral begin''"
      "trim_space RestartNeutralEnd = ''# operator:restart-neutral end''"
      "\<forall>l\<in>set [''x''] \<union> set [''y'']. trim_space l \<noteq> ''# operator:restart-neutral end''"
    by code_simp+
  have "same_script (?s ''x'') (?s ''y'')" unfolding same_script_def using l t by blast
  moreover have "same_conf (''# old'' @ [eol] @ ''a=1'' @ [eol] @ ''server.jvm.additional=-Xss2m'') ('' a=1 '' @ [eol])"
    by code_simp
  ultimately have "cwTemplate (snd (ReconcileConfigMap (\<lambda>s. s) neutral_pass neutral_start)) = cwTemplate neutral_start"
    using nothing_to_restart_for[of neutral_pass neutral_start]
    by (simp add: existingConfigMap_def neutral_pass_def neutral_start_def conf_pass_def)
  moreover have "cwMap (snd (ReconcileConfigMap (\<lambda>s. s) neutral_pass neutral_start)) \<noteq> cwMap neutral_start" by code_simp
  ultimately show ?thesis by blast
qed

subsection \<open>What is not retried, and what a failed read does\<close>

text \<open>
  The write of the ConfigMap comes before the stamp, and an error of the stamp is logged
  only: the next pass finds the ConfigMap as rendered and does nothing, so the servers keep running on
  the old file until something else restarts them.
\<close>

lemma failed_stamp_is_not_retried:
  assumes "cwMap w = Some old" "cwTemplate w = Some t" "\<not> debounced e w" "ceReadErr e = None" "ceReadAgainErr e = None"
    "ceWriteErr e = None" "ceStsWriteErr e = Some err" "ceLive e = None"
    "digest (restart_text (withoutMovedJVMLines old (ceDesired e))) \<noteq> digest (restart_text (ceDesired e))"
    and later: "ceDesired e' = ceDesired e" "\<not> ceNotesDiffer e'" "ceReadErr e' = None"
  shows "\<exists>w'. ReconcileConfigMap digest e w = (None, w') \<and> cwMap w' = Some (ceDesired e) \<and> cwTemplate w' = Some t \<and>
     ReconcileConfigMap digest e' w' = (None, w')"
proof -
  let ?d = "ceDesired e" and ?h = "calculateConfigMapHash digest (ceDesired e)"
  have "differ (withoutMovedJVMLines old ?d) ?d" using assms(9) same_restart_text by metis
  then have chg: "\<not> same_data old ?d" using withoutMovedJVMLines_same by blast
  have *: "\<exists>w'. write_and_restart e ?h b w = (None, w') \<and> cwMap w' = Some ?d \<and> cwTemplate w' = Some t" for b
    using assms(2,5-7)
    by (auto simp: write_and_restart_def updateConfigMapImmediate_def triggerRollingRestartForConfigChange_def
        Let_def split: option.splits)
  have "\<exists>b. ReconcileConfigMap digest e w = write_and_restart e ?h b w"
    using assms(1,3,4,8,9) chg
    by (auto simp: ReconcileConfigMap_def existingConfigMap_def calculateConfigMapHash_def applyLive_def Let_def)
  with * obtain w' where w': "ReconcileConfigMap digest e w = (None, w')" "cwMap w' = Some ?d" "cwTemplate w' = Some t"
    by metis
  moreover have "ReconcileConfigMap digest e' w' = (None, w')"
    using w'(2) later by (simp add: ReconcileConfigMap_def existingConfigMap_def same_data_def Let_def)
  ultimately show ?thesis by blast
qed

text \<open>
  Any error of the first read counts as "there is no ConfigMap": a pass whose first read fails
  restarts every server, though the stored ConfigMap is the rendered one.
\<close>

lemma failed_read_restarts_every_server:
  "map_option stConfigRestart (cwTemplate (snd (ReconcileConfigMap digest
      ((conf_pass conf 7)\<lparr>ceReadErr := Some ''the server is currently unable to handle the request''\<rparr>) (conf_start conf)))) =
   Some (Some 7)"
  by (simp add: ReconcileConfigMap_def conf_pass_def conf_start_def existingConfigMap_def debounced_def
      write_and_restart_def updateConfigMapImmediate_def triggerRollingRestartForConfigChange_def
      updateStatefulSetWithConfigHash_def Let_def)

end
