(* ===== verification/Owned_Items.thy ===== *)
theory Owned_Items
  imports Neo4j_Conf
begin

text \<open>
  What the operator owns on objects other writers share (\<^verbatim>\<open>internal/controller/owned_keys.go\<close>, the
  ownership helpers of \<^verbatim>\<open>neo4jenterprisecluster_controller.go\<close> and
  \<^verbatim>\<open>neo4jenterprisestandalone_controller.go\<close>): labels and annotations, the environment variables
  of the server container, its init containers and its volumes. A write records the names it
  renders in an annotation; the next one applies what it renders now, removes what it recorded and
  no longer renders, and leaves everything else.

  That contract is the locale \<open>owned_merge\<close>; the three merges of the code are its
  interpretations. The apply of the server pod template and the test that decides whether one is
  needed follow (\<open>applyTemplate\<close>, \<open>isTemplateChangeSignificant\<close>).

  A Go map that is iterated over is an association list with distinct keys.
\<close>

section \<open>The contract\<close>

locale owned_merge =
  fixes merge :: "'m \<Rightarrow> 'm \<Rightarrow> string list \<Rightarrow> 'm"
    and look :: "'m \<Rightarrow> string \<Rightarrow> 'v"
    and absent :: 'v
    and names :: "'m \<Rightarrow> string list"
  assumes look_merge: "look (merge live desired owned) k =
      (if look desired k \<noteq> absent then look desired k
       else if k \<in> set owned then absent else look live k)"
    and names: "k \<in> set (names m) \<longleftrightarrow> look m k \<noteq> absent"
begin

lemma desired_wins: "k \<in> set (names desired) \<Longrightarrow> look (merge live desired owned) k = look desired k"
  by (simp add: look_merge names)

lemma dropped: "k \<in> set owned \<Longrightarrow> k \<notin> set (names desired) \<Longrightarrow> look (merge live desired owned) k = absent"
  by (simp add: look_merge names)

lemma foreign_kept:
  "k \<notin> set owned \<Longrightarrow> k \<notin> set (names desired) \<Longrightarrow> look (merge live desired owned) k = look live k"
  by (simp add: look_merge names)

text \<open>The next pass of the same writer, with its record of this one, changes nothing.\<close>

lemma merge_again:
  "look (merge (merge live desired owned) desired (names desired)) = look (merge live desired owned)"
  by (auto simp: look_merge names fun_eq_iff)

text \<open>
  Two writers whose items have different names do not undo each other: once both have written, a
  further pass of either changes nothing, and the order they wrote in does not matter.
\<close>

lemma writers_commute:
  assumes "(set (names d1) \<union> set o1) \<inter> (set (names d2) \<union> set o2) = {}"
  shows "look (merge (merge live d1 o1) d2 o2) = look (merge (merge live d2 o2) d1 o1)"
proof
  fix k
  show "look (merge (merge live d1 o1) d2 o2) k = look (merge (merge live d2 o2) d1 o1) k"
    using assms names[of k d1] names[of k d2] by (auto simp: look_merge)
qed

lemma writers_settle:
  assumes "(set (names d1) \<union> set o1) \<inter> (set (names d2) \<union> set o2) = {}"
  shows "look (merge (merge (merge live d1 o1) d2 o2) d1 (names d1)) = look (merge (merge live d1 o1) d2 o2)"
proof
  fix k
  show "look (merge (merge (merge live d1 o1) d2 o2) d1 (names d1)) k = look (merge (merge live d1 o1) d2 o2) k"
    using assms names[of k d1] names[of k d2] by (auto simp: look_merge)
qed

end


section \<open>The records\<close>

definition splitOwnedKeys :: "string \<Rightarrow> string list" where
  "splitOwnedKeys csv =
     (if csv = [] then [] else filter (\<lambda>p. p \<noteq> []) (map trim_space (split_on CHR '','' csv)))"

definition ownedKeysCSV :: "string list \<Rightarrow> string" where
  "ownedKeysCSV keys = join '','' (sort keys)"

definition splitCSVSet :: "string \<Rightarrow> string list" where
  "splitCSVSet s = filter (\<lambda>k. k \<noteq> []) (map trim_space (split_on CHR '','' s))"

definition sortedNamesCSV :: "('a \<Rightarrow> string) \<Rightarrow> 'a list \<Rightarrow> string" where
  "sortedNamesCSV nameOf xs = join '','' (sort (map nameOf xs))"

definition joinSortedKeys :: "(string \<times> string) list \<Rightarrow> string" where
  "joinSortedKeys m = join '','' (sort (map fst m))"

text \<open>A name a record can hold: no commas, and no blanks around it.\<close>

lemma splitCSVSet_join:
  assumes "\<forall>n\<in>set ns. token n"
  shows "splitCSVSet (join '','' ns) = ns"
proof (cases "ns = []")
  case True
  then show ?thesis by (simp add: splitCSVSet_def trim_space_def)
next
  case False
  have "split_on CHR '','' (join '','' ns) = ns"
    using False assms by (intro split_on_join) (auto simp: token_def)
  moreover have "map trim_space ns = ns" using assms by (auto simp: token_def intro!: map_idI)
  ultimately show ?thesis
    using assms by (simp add: splitCSVSet_def token_def filter_id_conv)
qed

lemma splitOwnedKeys_eq: "splitOwnedKeys csv = splitCSVSet csv"
  by (auto simp: splitOwnedKeys_def splitCSVSet_def trim_space_def)

lemma splitCSVSet_sorted: "\<forall>n\<in>set ns. token n \<Longrightarrow> splitCSVSet (join '','' (sort ns)) = sort ns"
  by (rule splitCSVSet_join) simp

lemma set_splitOwnedKeys_CSV: "\<forall>n\<in>set ns. token n \<Longrightarrow> set (splitOwnedKeys (ownedKeysCSV ns)) = set ns"
  by (simp add: splitOwnedKeys_eq ownedKeysCSV_def splitCSVSet_sorted)

lemma set_splitCSVSet_names:
  "\<forall>x\<in>set xs. token (nameOf x) \<Longrightarrow> set (splitCSVSet (sortedNamesCSV nameOf xs)) = nameOf ` set xs"
  by (simp add: sortedNamesCSV_def splitCSVSet_sorted)


section \<open>Labels and annotations\<close>

definition mergeOwnedStringMap ::
  "(string \<times> string) list \<Rightarrow> (string \<times> string) list \<Rightarrow> string list \<Rightarrow> (string \<times> string) list" where
  "mergeOwnedStringMap live desired previousOwned =
     foldl (\<lambda>out (k, v). AList.update k v out)
       (filter (\<lambda>(k, _). \<not> (k \<in> set previousOwned \<and> k \<notin> fst ` set desired)) live) desired"

definition ownedAnnotationKeysAnnotation :: string where
  "ownedAnnotationKeysAnnotation = ''neo4j.com/owned-annotation-keys''"

definition ownedLabelKeysAnnotation :: string where
  "ownedLabelKeysAnnotation = ''neo4j.com/owned-label-keys''"

definition stringMapsEqual :: "(string \<times> string) list \<Rightarrow> (string \<times> string) list \<Rightarrow> bool" where
  "stringMapsEqual a b = (length a = length b \<and> list_all (\<lambda>(k, v). map_of b k = Some v) a)"

definition keep_record :: "string \<Rightarrow> string list \<Rightarrow> (string \<times> string) list \<Rightarrow> (string \<times> string) list" where
  "keep_record key owned annos =
     (if owned \<noteq> [] then AList.update key (ownedKeysCSV owned) annos else AList.delete key annos)"

text \<open>
  The object's annotations and labels after the call, and whether either changed. An equal map
  is not set: the object keeps the one it has.
\<close>

definition applyOwnedMetadata ::
  "(string \<times> string) list \<Rightarrow> (string \<times> string) list \<Rightarrow> (string \<times> string) list \<Rightarrow> (string \<times> string) list \<Rightarrow>
   bool \<times> (string \<times> string) list \<times> (string \<times> string) list" where
  "applyOwnedMetadata annos labels desiredAnnotations desiredLabels =
     (let prevOwnedAnnos = splitOwnedKeys (case map_of annos ownedAnnotationKeysAnnotation of Some s \<Rightarrow> s | None \<Rightarrow> []);
          prevOwnedLabels = splitOwnedKeys (case map_of annos ownedLabelKeysAnnotation of Some s \<Rightarrow> s | None \<Rightarrow> []);
          newAnnos = keep_record ownedLabelKeysAnnotation (map fst desiredLabels)
                       (keep_record ownedAnnotationKeysAnnotation (map fst desiredAnnotations)
                          (mergeOwnedStringMap annos desiredAnnotations prevOwnedAnnos));
          newLabels = mergeOwnedStringMap labels desiredLabels prevOwnedLabels;
          sameAnnos = stringMapsEqual annos newAnnos;
          sameLabels = stringMapsEqual labels newLabels in
      (\<not> sameAnnos \<or> \<not> sameLabels,
       if sameAnnos then annos else newAnnos, if sameLabels then labels else newLabels))"

definition operatorManagedPodAnnotations :: "string list" where
  "operatorManagedPodAnnotations =
     [''prometheus.io/scrape'', ''prometheus.io/port'', ''prometheus.io/path'', ''neo4j.com/pod-identity-hash'']"

definition mergePodTemplateAnnotations ::
  "(string \<times> string) list \<Rightarrow> (string \<times> string) list \<Rightarrow> (string \<times> string) list" where
  "mergePodTemplateAnnotations live desired =
     foldl (\<lambda>out (k, v). AList.update k v out)
       (filter (\<lambda>(k, _). k \<notin> set operatorManagedPodAnnotations) live) desired"

lemma map_of_foldl_update:
  assumes "distinct (map fst d)"
  shows "map_of (foldl (\<lambda>out (k, v). AList.update k v out) m d) k =
     (case map_of d k of Some v \<Rightarrow> Some v | None \<Rightarrow> map_of m k)"
  using assms
proof (induction d arbitrary: m)
  case (Cons p d)
  obtain a v where p: "p = (a, v)" by (cases p)
  have "map_of d a = None" using Cons.prems by (simp add: p map_of_eq_None_iff)
  with Cons show ?case by (auto simp: p update_conv' split: option.splits)
qed simp

lemma map_of_filter_key: "map_of (filter (\<lambda>(k, _). P k) m) k = (if P k then map_of m k else None)"
  by (induction m) auto

lemma map_of_mergeOwnedStringMap:
  assumes "distinct (map fst desired)"
  shows "map_of (mergeOwnedStringMap live desired owned) k =
     (case map_of desired k of Some v \<Rightarrow> Some v | None \<Rightarrow> if k \<in> set owned then None else map_of live k)"
  using map_of_eq_None_iff[of desired k]
  by (auto simp: mergeOwnedStringMap_def map_of_foldl_update[OF assms] map_of_filter_key split: option.splits)

text \<open>
  The locale's maps are those of distinct keys; a map as Go has it is the list with its later
  duplicates removed.
\<close>

abbreviation go_map :: "(string \<times> string) list \<Rightarrow> (string \<times> string) list" where
  "go_map \<equiv> AList.clearjunk"

interpretation string_maps: owned_merge
  "\<lambda>live desired owned. mergeOwnedStringMap live (go_map desired) owned" map_of None "map fst"
proof
  fix live desired :: "(string \<times> string) list" and owned k
  show "map_of (mergeOwnedStringMap live (go_map desired) owned) k =
      (if map_of desired k \<noteq> None then map_of desired k else if k \<in> set owned then None else map_of live k)"
    by (auto simp: map_of_mergeOwnedStringMap distinct_clearjunk map_of_clearjunk split: option.splits)
qed (auto simp: map_of_eq_None_iff)


section \<open>Environment variables, init containers, volumes\<close>

text \<open>
  The parts of a pod template the ownership of its items is about. Where the code compares a
  part as a whole (limits, security contexts, the source of a variable) it is a string, the
  part's canonical form; \<open>ctRest\<close>, \<open>vSource\<close> and \<open>ptRest\<close> stand for what it does not
  compare.
\<close>

record env_var =
  evName :: string
  evValue :: string
  evFrom :: "string option"

record container =
  ctName :: string
  ctImage :: string
  ctEnv :: "env_var list"
  ctMounts :: "string list"
  ctLimits :: string
  ctSecurity :: string
  ctRest :: string

record volume =
  vName :: string
  vSource :: string

record pod_template =
  ptContainers :: "container list"
  ptInit :: "container list"
  ptVolumes :: "volume list"
  ptAnnotations :: "(string \<times> string) list"
  ptSecurity :: string
  ptServiceAccount :: string
  ptRest :: string

record server_sts =
  ssTemplate :: pod_template
  ssAnnotations :: "(string \<times> string) list"
  ssReplicas :: int
  ssReadyReplicas :: int

definition mergeEnvVars :: "env_var list \<Rightarrow> env_var list \<Rightarrow> string list \<Rightarrow> env_var list" where
  "mergeEnvVars current desired previousOwned =
     filter (\<lambda>e. evName e \<notin> set previousOwned \<and> evName e \<notin> evName ` set desired) current @ desired"

definition mergeOwnedByName :: "('a \<Rightarrow> string) \<Rightarrow> 'a list \<Rightarrow> 'a list \<Rightarrow> string list \<Rightarrow> 'a list" where
  "mergeOwnedByName nameOf current desired previousOwned =
     desired @ filter (\<lambda>c. nameOf c \<notin> nameOf ` set desired \<and> nameOf c \<notin> set previousOwned) current"

definition withoutForeign :: "('a \<Rightarrow> string) \<Rightarrow> 'a list \<Rightarrow> 'a list \<Rightarrow> string list \<Rightarrow> 'a list" where
  "withoutForeign nameOf current desired previousOwned =
     filter (\<lambda>c. nameOf c \<in> nameOf ` set desired \<or> nameOf c \<in> set previousOwned) current"

text \<open>The items of one name.\<close>

definition named :: "('a \<Rightarrow> string) \<Rightarrow> 'a list \<Rightarrow> string \<Rightarrow> 'a list" where
  "named nameOf xs k = filter (\<lambda>x. nameOf x = k) xs"

lemma named_absent: "named nameOf xs k \<noteq> [] \<longleftrightarrow> k \<in> nameOf ` set xs"
  by (auto simp: named_def filter_empty_conv)

lemma named_append [simp]: "named nameOf (xs @ ys) k = named nameOf xs k @ named nameOf ys k"
  by (simp add: named_def)

lemma named_filter: "named nameOf (filter (\<lambda>x. P (nameOf x)) xs) k = (if P k then named nameOf xs k else [])"
  by (induction xs) (auto simp: named_def)

interpretation env_vars: owned_merge mergeEnvVars "named evName" "[]" "map evName"
proof
  fix live desired owned k
  show "named evName (mergeEnvVars live desired owned) k =
      (if named evName desired k \<noteq> [] then named evName desired k
       else if k \<in> set owned then [] else named evName live k)"
    unfolding mergeEnvVars_def named_append
      named_filter[where P = "\<lambda>n. n \<notin> set owned \<and> n \<notin> evName ` set desired"]
    using named_absent[of evName desired k] by auto
qed (simp add: named_absent)

lemma named_mergeOwnedByName:
  "named nameOf (mergeOwnedByName nameOf live desired owned) k =
      (if named nameOf desired k \<noteq> [] then named nameOf desired k
       else if k \<in> set owned then [] else named nameOf live k)"
  unfolding mergeOwnedByName_def named_append
    named_filter[where P = "\<lambda>n. n \<notin> nameOf ` set desired \<and> n \<notin> set owned"]
  using named_absent[of nameOf desired k] by auto

interpretation init_containers: owned_merge "mergeOwnedByName ctName" "named ctName" "[]" "map ctName"
  by unfold_locales (simp_all add: named_mergeOwnedByName named_absent)

interpretation volumes: owned_merge "mergeOwnedByName vName" "named vName" "[]" "map vName"
  by unfold_locales (simp_all add: named_mergeOwnedByName named_absent)

subsection \<open>The records on the StatefulSet\<close>

definition ownedEnvVarsAnnotation :: string where
  "ownedEnvVarsAnnotation = ''neo4j.com/cluster-controller-env-vars''"

definition ownedInitContainersAnnotation :: string where
  "ownedInitContainersAnnotation = ''neo4j.com/cluster-controller-init-containers''"

definition ownedVolumesAnnotation :: string where
  "ownedVolumesAnnotation = ''neo4j.com/cluster-controller-volumes''"

definition PluginInitContainersAnnotation :: string where
  "PluginInitContainersAnnotation = ''neo4j.com/plugin-init-containers''"

definition clusterTemplateHashAnnotation :: string where
  "clusterTemplateHashAnnotation = ''neo4j.com/cluster-template-hash''"

definition annotation_value :: "(string \<times> string) list \<Rightarrow> string \<Rightarrow> string" where
  "annotation_value m k = (case map_of m k of Some v \<Rightarrow> v | None \<Rightarrow> [])"

definition readOwnedEnvVarNames :: "server_sts \<Rightarrow> string list" where
  "readOwnedEnvVarNames sts =
     (let raw = annotation_value (ssAnnotations sts) ownedEnvVarsAnnotation in
      if raw = [] then [] else filter (\<lambda>n. n \<noteq> []) (map trim_space (split_on CHR '','' raw)))"

definition writeOwnedEnvVarNames :: "env_var list \<Rightarrow> (string \<times> string) list \<Rightarrow> (string \<times> string) list" where
  "writeOwnedEnvVarNames desired annos =
     AList.update ownedEnvVarsAnnotation (join '','' (sort (map evName desired))) annos"

definition parsePluginInitOwned :: "string \<Rightarrow> string list" where
  "parsePluginInitOwned raw = filter (\<lambda>n. n \<noteq> []) (map trim_space (split_on CHR '','' raw))"

record owned_items =
  oiEnv :: "string list"
  oiInit :: "string list"
  oiVolumes :: "string list"

definition readOwnedTemplateItems :: "server_sts \<Rightarrow> pod_template \<Rightarrow> owned_items" where
  "readOwnedTemplateItems sts live =
     (let ownInit =
            (case map_of (ssAnnotations sts) ownedInitContainersAnnotation of
               Some raw \<Rightarrow> splitCSVSet raw
             | None \<Rightarrow>
                 let plugins = parsePluginInitOwned (annotation_value (ptAnnotations live) PluginInitContainersAnnotation) in
                 filter (\<lambda>n. n \<notin> set plugins) (map ctName (ptInit live)));
          ownVolumes =
            (case map_of (ssAnnotations sts) ownedVolumesAnnotation of
               Some raw \<Rightarrow> splitCSVSet raw
             | None \<Rightarrow>
                 let usedByOwn = concat (map ctMounts (ptContainers live)) @
                       concat (map ctMounts (filter (\<lambda>c. ctName c \<in> set ownInit) (ptInit live)));
                     usedByPlugin = concat (map ctMounts (filter (\<lambda>c. ctName c \<notin> set ownInit) (ptInit live))) in
                 filter (\<lambda>v. v \<in> set usedByOwn \<or> v \<notin> set usedByPlugin) (map vName (ptVolumes live))) in
      \<lparr>oiEnv = readOwnedEnvVarNames sts, oiInit = ownInit, oiVolumes = ownVolumes\<rparr>)"

definition first_env :: "pod_template \<Rightarrow> env_var list" where
  "first_env t = (case ptContainers t of [] \<Rightarrow> [] | c # _ \<Rightarrow> ctEnv c)"

definition writeOwnedTemplateItems :: "pod_template \<Rightarrow> (string \<times> string) list \<Rightarrow> (string \<times> string) list" where
  "writeOwnedTemplateItems desired annos =
     AList.update ownedVolumesAnnotation (sortedNamesCSV vName (ptVolumes desired))
       (AList.update ownedInitContainersAnnotation (sortedNamesCSV ctName (ptInit desired))
         (writeOwnedEnvVarNames (first_env desired) annos))"

subsection \<open>Whether the template is to be applied\<close>

definition envVarsEqual :: "env_var list \<Rightarrow> env_var list \<Rightarrow> string list \<Rightarrow> bool" where
  "envVarsEqual current desired previousOwned =
     (let currentMap = map_of (rev (map (\<lambda>e. (evName e, e)) current)) in
      list_all (\<lambda>env. case currentMap (evName env) of
                        None \<Rightarrow> False
                      | Some e \<Rightarrow> evValue e = evValue env \<and> evFrom e = evFrom env) desired \<and>
      list_all (\<lambda>name. name \<in> evName ` set desired \<or> Option.is_none (currentMap name)) previousOwned)"

definition volumesEqual :: "volume list \<Rightarrow> volume list \<Rightarrow> string list \<Rightarrow> bool" where
  "volumesEqual current desired previousOwned =
     (let own = withoutForeign vName current desired previousOwned in
      length own = length desired \<and> list_all (\<lambda>v. vName v \<in> vName ` set own) desired)"

definition initContainersEqual :: "container list \<Rightarrow> container list \<Rightarrow> string list \<Rightarrow> bool" where
  "initContainersEqual current desired previousOwned =
     (let own = withoutForeign ctName current desired previousOwned in
      length own = length desired \<and>
      list_all (\<lambda>(c, d). ctName c = ctName d \<and> ctImage c = ctImage d) (zip own desired))"

definition hasCriticalTemplateChanges :: "pod_template \<Rightarrow> pod_template \<Rightarrow> bool" where
  "hasCriticalTemplateChanges current desired =
     (length (ptContainers current) \<noteq> length (ptContainers desired) \<or>
      list_ex (\<lambda>(c, d). ctImage c \<noteq> ctImage d \<or> ctLimits c \<noteq> ctLimits d \<or> ctSecurity c \<noteq> ctSecurity d)
        (zip (ptContainers current) (ptContainers desired)) \<or>
      ptSecurity current \<noteq> ptSecurity desired \<or>
      ptServiceAccount current \<noteq> ptServiceAccount desired)"

definition hasSignificantTemplateChanges :: "pod_template \<Rightarrow> pod_template \<Rightarrow> owned_items \<Rightarrow> bool" where
  "hasSignificantTemplateChanges current desired previousOwned =
     (hasCriticalTemplateChanges current desired \<or>
      (ptContainers current \<noteq> [] \<and> ptContainers desired \<noteq> [] \<and>
       \<not> envVarsEqual (first_env current) (first_env desired) (oiEnv previousOwned)) \<or>
      \<not> volumesEqual (ptVolumes current) (ptVolumes desired) (oiVolumes previousOwned) \<or>
      \<not> initContainersEqual (ptInit current) (ptInit desired) (oiInit previousOwned))"

text \<open>\<open>digest t\<close> is the hash of the template's JSON, \<^verbatim>\<open>podTemplateSpecHash\<close>.\<close>

definition isTemplateChangeSignificant :: "(pod_template \<Rightarrow> string) \<Rightarrow> server_sts \<Rightarrow> pod_template \<Rightarrow> bool" where
  "isTemplateChangeSignificant digest sts desired =
     (let current = ssTemplate sts in
      if ssReadyReplicas sts < ssReplicas sts
      then hasCriticalTemplateChanges current desired \<or>
           (case map_of (ssAnnotations sts) clusterTemplateHashAnnotation of
              None \<Rightarrow> False
            | Some stamp \<Rightarrow> digest desired \<noteq> stamp)
      else hasSignificantTemplateChanges current desired (readOwnedTemplateItems sts current) \<or>
           digest desired \<noteq> annotation_value (ssAnnotations sts) clusterTemplateHashAnnotation)"

subsection \<open>The apply\<close>

text \<open>
  The write of a significant change. \<open>edit\<close> is what the same write does to variables other writers
  share (\<^verbatim>\<open>handOverSharedLists\<close>, \<^verbatim>\<open>handOverNeo4jPlugins\<close>, \<^verbatim>\<open>addFleetEntryInWrite\<close>).
\<close>

definition set_first_env :: "env_var list \<Rightarrow> container list \<Rightarrow> container list" where
  "set_first_env env cs = (case cs of [] \<Rightarrow> [] | c # r \<Rightarrow> c\<lparr>ctEnv := env\<rparr> # r)"

definition applyTemplate ::
  "(pod_template \<Rightarrow> string) \<Rightarrow> (env_var list \<Rightarrow> env_var list) \<Rightarrow> pod_template \<Rightarrow> server_sts \<Rightarrow> server_sts" where
  "applyTemplate digest edit desired sts =
     (let current = ssTemplate sts;
          owned = readOwnedTemplateItems sts current;
          env = edit (mergeEnvVars (first_env current) (first_env desired) (oiEnv owned)) in
      sts\<lparr>ssTemplate := desired\<lparr>
            ptContainers := set_first_env env (ptContainers desired),
            ptInit := mergeOwnedByName ctName (ptInit current) (ptInit desired) (oiInit owned),
            ptVolumes := mergeOwnedByName vName (ptVolumes current) (ptVolumes desired) (oiVolumes owned),
            ptAnnotations := mergePodTemplateAnnotations (ptAnnotations current) (ptAnnotations desired)\<rparr>,
          ssAnnotations := AList.update clusterTemplateHashAnnotation (digest desired)
            (writeOwnedTemplateItems desired (ssAnnotations sts))\<rparr>)"


section \<open>Metadata settles\<close>

lemma stringMapsEqual_iff:
  assumes "distinct (map fst a)" "distinct (map fst b)"
  shows "stringMapsEqual a b \<longleftrightarrow> map_of a = map_of b"
proof
  assume eq: "map_of a = map_of b"
  then have "fst ` set a = fst ` set b" by (metis dom_map_of_conv_image_fst)
  then have "length a = length b"
    using assms by (metis distinct_card length_map list.set_map)
  moreover have "map_of b k = Some v" if "(k, v) \<in> set a" for k v
    using that eq assms(1) by (metis map_of_is_SomeI)
  ultimately show "stringMapsEqual a b"
    by (auto simp: stringMapsEqual_def list_all_iff)
next
  assume e: "stringMapsEqual a b"
  then have sub: "map_of a k = Some v \<Longrightarrow> map_of b k = Some v" for k v
    by (auto simp: stringMapsEqual_def list_all_iff dest!: map_of_SomeD)
  have d: "dom (map_of a) \<subseteq> dom (map_of b)" using sub by auto
  moreover have "card (dom (map_of a)) = card (dom (map_of b))"
    using e assms by (metis stringMapsEqual_def dom_map_of_conv_image_fst distinct_card length_map list.set_map)
  ultimately have "dom (map_of a) = dom (map_of b)"
    by (simp add: card_subset_eq finite_dom_map_of)
  then show "map_of a = map_of b"
    using sub by (metis domD domIff ext not_None_eq)
qed

lemma distinct_foldl_update:
  "distinct (map fst m) \<Longrightarrow> distinct (map fst (foldl (\<lambda>out (k, v). AList.update k v out) m d))"
  by (induction d arbitrary: m) (auto simp: distinct_update split: prod.splits)

lemma distinct_mergeOwnedStringMap:
  "distinct (map fst live) \<Longrightarrow> distinct (map fst (mergeOwnedStringMap live desired owned))"
  unfolding mergeOwnedStringMap_def by (rule distinct_foldl_update) (rule distinct_map_filter)

lemma distinct_keep_record: "distinct (map fst m) \<Longrightarrow> distinct (map fst (keep_record key owned m))"
  by (simp add: keep_record_def distinct_update distinct_delete)

lemma map_of_keep_record:
  "map_of (keep_record key owned m) k =
     (if k = key then (if owned \<noteq> [] then Some (ownedKeysCSV owned) else None) else map_of m k)"
  by (auto simp: keep_record_def update_conv' delete_conv')

lemma record_keys: "ownedAnnotationKeysAnnotation \<noteq> ownedLabelKeysAnnotation"
  by (simp add: ownedAnnotationKeysAnnotation_def ownedLabelKeysAnnotation_def)

text \<open>A map another write may replace: its own when nothing changed.\<close>

lemma kept_or_new:
  assumes "distinct (map fst a)" "distinct (map fst b)"
  shows "map_of (if stringMapsEqual a b then a else b) = map_of b"
  using stringMapsEqual_iff[OF assms] by auto

definition owned_by :: "(string \<times> string) list \<Rightarrow> string \<Rightarrow> string list" where
  "owned_by annos key = splitOwnedKeys (case map_of annos key of Some s \<Rightarrow> s | None \<Rightarrow> [])"

lemma applyOwnedMetadata_result:
  fixes annos :: "(string \<times> string) list"
  assumes "applyOwnedMetadata annos labels dA dL = (c, annos', labels')"
    and d: "distinct (map fst annos)" "distinct (map fst labels)" "distinct (map fst dA)" "distinct (map fst dL)"
  shows "distinct (map fst annos')" "distinct (map fst labels')"
    and "map_of labels' k = (case map_of dL k of Some v \<Rightarrow> Some v
           | None \<Rightarrow> if k \<in> set (owned_by annos ownedLabelKeysAnnotation) then None else map_of labels k)"
    and "map_of annos' k =
       (if k = ownedLabelKeysAnnotation then (if dL \<noteq> [] then Some (ownedKeysCSV (map fst dL)) else None)
        else if k = ownedAnnotationKeysAnnotation then (if dA \<noteq> [] then Some (ownedKeysCSV (map fst dA)) else None)
        else case map_of dA k of Some v \<Rightarrow> Some v
           | None \<Rightarrow> if k \<in> set (owned_by annos ownedAnnotationKeysAnnotation) then None else map_of annos k)"
    and "c \<longleftrightarrow> map_of annos' \<noteq> map_of annos \<or> map_of labels' \<noteq> map_of labels"
    and "map_of annos' = map_of annos \<Longrightarrow> annos' = annos" "map_of labels' = map_of labels \<Longrightarrow> labels' = labels"
proof -
  let ?na = "keep_record ownedLabelKeysAnnotation (map fst dL)
       (keep_record ownedAnnotationKeysAnnotation (map fst dA)
         (mergeOwnedStringMap annos dA (owned_by annos ownedAnnotationKeysAnnotation)))"
  let ?nl = "mergeOwnedStringMap labels dL (owned_by annos ownedLabelKeysAnnotation)"
  have r: "annos' = (if stringMapsEqual annos ?na then annos else ?na)"
      "labels' = (if stringMapsEqual labels ?nl then labels else ?nl)"
      "c = (\<not> stringMapsEqual annos ?na \<or> \<not> stringMapsEqual labels ?nl)"
    using assms(1) by (auto simp only: applyOwnedMetadata_def Let_def owned_by_def prod.inject)
  have da: "distinct (map fst ?na)" "distinct (map fst ?nl)"
    by (intro distinct_keep_record distinct_mergeOwnedStringMap d)+
  note eqa = stringMapsEqual_iff[OF d(1) da(1)] and eql = stringMapsEqual_iff[OF d(2) da(2)]
  have ma: "map_of annos' = map_of ?na" and ml: "map_of labels' = map_of ?nl"
    using eqa eql unfolding r(1,2) by auto
  show "distinct (map fst annos')" "distinct (map fst labels')" using d(1,2) da r(1,2) by auto
  show "map_of labels' k = (case map_of dL k of Some v \<Rightarrow> Some v
           | None \<Rightarrow> if k \<in> set (owned_by annos ownedLabelKeysAnnotation) then None else map_of labels k)"
    unfolding ml by (rule map_of_mergeOwnedStringMap[OF d(4)])
  show "map_of annos' k =
       (if k = ownedLabelKeysAnnotation then (if dL \<noteq> [] then Some (ownedKeysCSV (map fst dL)) else None)
        else if k = ownedAnnotationKeysAnnotation then (if dA \<noteq> [] then Some (ownedKeysCSV (map fst dA)) else None)
        else case map_of dA k of Some v \<Rightarrow> Some v
           | None \<Rightarrow> if k \<in> set (owned_by annos ownedAnnotationKeysAnnotation) then None else map_of annos k)"
    unfolding ma map_of_keep_record map_of_mergeOwnedStringMap[OF d(3)] by auto
  show "c \<longleftrightarrow> map_of annos' \<noteq> map_of annos \<or> map_of labels' \<noteq> map_of labels"
    unfolding ma ml r(3) eqa eql by auto
  show "map_of annos' = map_of annos \<Longrightarrow> annos' = annos" "map_of labels' = map_of labels \<Longrightarrow> labels' = labels"
    unfolding ma ml using r(1,2) eqa eql by auto
qed

lemma owned_by_recorded:
  assumes "map_of annos key = (if ks \<noteq> [] then Some (ownedKeysCSV ks) else None)" "\<forall>k\<in>set ks. token k"
  shows "set (owned_by annos key) = set ks"
  using assms set_splitOwnedKeys_CSV[OF assms(2)]
  by (auto simp: owned_by_def splitOwnedKeys_def split: if_splits)

text \<open>
  Labels and annotations the operator keeps on a Service, an Ingress or a Certificate: after a
  write every key it asks for has its value, every key it recorded and no longer asks for is
  gone, and every other key is as another writer left it. The next pass with the same wishes
  reports no change and leaves the object as it is.
\<close>

theorem owned_metadata_settles:
  assumes "distinct (map fst annos)" "distinct (map fst labels)" "distinct (map fst dA)" "distinct (map fst dL)"
    and tok: "\<forall>k\<in>fst ` set dA \<union> fst ` set dL. token k"
    and res: "ownedAnnotationKeysAnnotation \<notin> fst ` set dA" "ownedLabelKeysAnnotation \<notin> fst ` set dA"
    and run: "applyOwnedMetadata annos labels dA dL = (changed, annos', labels')"
    and k: "k \<notin> {ownedAnnotationKeysAnnotation, ownedLabelKeysAnnotation}"
  shows "map_of annos' k = (case map_of dA k of Some v \<Rightarrow> Some v
           | None \<Rightarrow> if k \<in> set (owned_by annos ownedAnnotationKeysAnnotation) then None else map_of annos k) \<and>
         map_of labels' k = (case map_of dL k of Some v \<Rightarrow> Some v
           | None \<Rightarrow> if k \<in> set (owned_by annos ownedLabelKeysAnnotation) then None else map_of labels k) \<and>
         applyOwnedMetadata annos' labels' dA dL = (False, annos', labels')"
proof (intro conjI)
  note one = applyOwnedMetadata_result[OF run assms(1-4)]
  show "map_of annos' k = (case map_of dA k of Some v \<Rightarrow> Some v
           | None \<Rightarrow> if k \<in> set (owned_by annos ownedAnnotationKeysAnnotation) then None else map_of annos k)"
    using one(4)[of k] k by simp
  show "map_of labels' k = (case map_of dL k of Some v \<Rightarrow> Some v
           | None \<Rightarrow> if k \<in> set (owned_by annos ownedLabelKeysAnnotation) then None else map_of labels k)"
    by (rule one(3))
  obtain c a l where again: "applyOwnedMetadata annos' labels' dA dL = (c, a, l)" by (metis prod_cases3)
  note two = applyOwnedMetadata_result[OF again one(1,2) assms(3,4)]
  have oa: "set (owned_by annos' ownedAnnotationKeysAnnotation) = fst ` set dA"
    using owned_by_recorded[of annos' ownedAnnotationKeysAnnotation "map fst dA"] one(4) record_keys tok by auto
  have ol: "set (owned_by annos' ownedLabelKeysAnnotation) = fst ` set dL"
    using owned_by_recorded[of annos' ownedLabelKeysAnnotation "map fst dL"] one(4) tok by auto
  have "map_of l j = map_of labels' j" for j
    using two(3)[of j] one(3)[of j] map_of_eq_None_iff[of dL j] by (auto simp: ol split: option.splits)
  moreover have "map_of a j = map_of annos' j" for j
    using two(4)[of j] one(4)[of j] map_of_eq_None_iff[of dA j] by (auto simp: oa split: option.splits if_splits)
  ultimately have "map_of a = map_of annos'" "map_of l = map_of labels'" by auto
  with two(5-7) again show "applyOwnedMetadata annos' labels' dA dL = (False, annos', labels')" by auto
qed


theorem owned_metadata_settles_witness:
  "applyOwnedMetadata [(''neo4j.com/owned-label-keys'', ''team''), (''cert-manager.io/issuer'', ''ca'')]
      [(''team'', ''db''), (''pod'', ''x'')] [(''note'', ''1'')] [(''app'', ''neo4j'')] =
     (True,
      [(''neo4j.com/owned-label-keys'', ''app''), (''cert-manager.io/issuer'', ''ca''), (''note'', ''1''),
       (''neo4j.com/owned-annotation-keys'', ''note'')],
      [(''pod'', ''x''), (''app'', ''neo4j'')]) \<and>
   applyOwnedMetadata
      [(''neo4j.com/owned-label-keys'', ''app''), (''cert-manager.io/issuer'', ''ca''), (''note'', ''1''),
       (''neo4j.com/owned-annotation-keys'', ''note'')]
      [(''pod'', ''x''), (''app'', ''neo4j'')] [(''note'', ''1'')] [(''app'', ''neo4j'')] =
     (False,
      [(''neo4j.com/owned-label-keys'', ''app''), (''cert-manager.io/issuer'', ''ca''), (''note'', ''1''),
       (''neo4j.com/owned-annotation-keys'', ''note'')],
      [(''pod'', ''x''), (''app'', ''neo4j'')])"
proof -
  let ?a = "[(''neo4j.com/owned-label-keys'', ''team''), (''cert-manager.io/issuer'', ''ca'')]"
  let ?l = "[(''team'', ''db''), (''pod'', ''x'')]"
  let ?a' = "[(''neo4j.com/owned-label-keys'', ''app''), (''cert-manager.io/issuer'', ''ca''), (''note'', ''1''),
       (''neo4j.com/owned-annotation-keys'', ''note'')]"
  let ?l' = "[(''pod'', ''x''), (''app'', ''neo4j'')]"
  have run: "applyOwnedMetadata ?a ?l [(''note'', ''1'')] [(''app'', ''neo4j'')] = (True, ?a', ?l')" by code_simp
  have "distinct (map fst ?a)" "distinct (map fst ?l)" "distinct (map fst [(''note'', ''1'')])"
      "distinct (map fst [(''app'', ''neo4j'')])"
      "\<forall>k\<in>fst ` set [(''note'', ''1'')] \<union> fst ` set [(''app'', ''neo4j'')]. token k"
      "ownedAnnotationKeysAnnotation \<notin> fst ` set [(''note'', ''1'')]"
      "ownedLabelKeysAnnotation \<notin> fst ` set [(''note'', ''1'')]"
      "''x'' \<notin> {ownedAnnotationKeysAnnotation, ownedLabelKeysAnnotation}" by code_simp+
  from run owned_metadata_settles[OF this(1-7) run this(8)] show ?thesis by blast
qed


section \<open>An applied template settles\<close>

named_theorems template_apply \<open>what an applied template and its records hold\<close>

lemma record_names_distinct [simp]:
  "ownedVolumesAnnotation \<noteq> ownedInitContainersAnnotation" "ownedVolumesAnnotation \<noteq> ownedEnvVarsAnnotation"
  "ownedInitContainersAnnotation \<noteq> ownedEnvVarsAnnotation" "ownedInitContainersAnnotation \<noteq> ownedVolumesAnnotation"
  "ownedEnvVarsAnnotation \<noteq> ownedVolumesAnnotation" "ownedEnvVarsAnnotation \<noteq> ownedInitContainersAnnotation"
  "clusterTemplateHashAnnotation \<noteq> ownedVolumesAnnotation" "clusterTemplateHashAnnotation \<noteq> ownedInitContainersAnnotation"
  "clusterTemplateHashAnnotation \<noteq> ownedEnvVarsAnnotation" "ownedVolumesAnnotation \<noteq> clusterTemplateHashAnnotation"
  "ownedInitContainersAnnotation \<noteq> clusterTemplateHashAnnotation" "ownedEnvVarsAnnotation \<noteq> clusterTemplateHashAnnotation"
  by (simp_all add: ownedVolumesAnnotation_def ownedInitContainersAnnotation_def ownedEnvVarsAnnotation_def
      clusterTemplateHashAnnotation_def)

text \<open>Names Kubernetes accepts: no commas and no blanks; the variables each once.\<close>

definition well_named :: "pod_template \<Rightarrow> bool" where
  "well_named t =
     (ptContainers t \<noteq> [] \<and> distinct (map evName (first_env t)) \<and>
      list_all (\<lambda>e. token (evName e)) (first_env t) \<and> list_all (\<lambda>c. token (ctName c)) (ptInit t) \<and>
      list_all (\<lambda>v. token (vName v)) (ptVolumes t))"

text \<open>The record a StatefulSet carries of the template it was last given.\<close>

definition recorded :: "(pod_template \<Rightarrow> string) \<Rightarrow> pod_template \<Rightarrow> server_sts \<Rightarrow> bool" where
  "recorded digest desired sts \<longleftrightarrow>
     annotation_value (ssAnnotations sts) ownedEnvVarsAnnotation = join '','' (sort (map evName (first_env desired))) \<and>
     map_of (ssAnnotations sts) ownedInitContainersAnnotation = Some (sortedNamesCSV ctName (ptInit desired)) \<and>
     map_of (ssAnnotations sts) ownedVolumesAnnotation = Some (sortedNamesCSV vName (ptVolumes desired)) \<and>
     map_of (ssAnnotations sts) clusterTemplateHashAnnotation = Some (digest desired)"

text \<open>
  A template that holds what was rendered, besides items of other names: what the apply leaves, and
  what it still is after other writers have added and removed their own.
\<close>

definition holds :: "pod_template \<Rightarrow> pod_template \<Rightarrow> bool" where
  "holds desired t \<longleftrightarrow>
     \<not> hasCriticalTemplateChanges t desired \<and>
     (\<forall>k\<in>evName ` set (first_env desired). named evName (first_env t) k = named evName (first_env desired) k) \<and>
     filter (\<lambda>c. ctName c \<in> ctName ` set (ptInit desired)) (ptInit t) = ptInit desired \<and>
     filter (\<lambda>v. vName v \<in> vName ` set (ptVolumes desired)) (ptVolumes t) = ptVolumes desired"

lemma readOwned_recorded:
  assumes "recorded digest desired sts" "well_named desired"
  shows "set (oiEnv (readOwnedTemplateItems sts t)) = evName ` set (first_env desired)"
    and "set (oiInit (readOwnedTemplateItems sts t)) = ctName ` set (ptInit desired)"
    and "set (oiVolumes (readOwnedTemplateItems sts t)) = vName ` set (ptVolumes desired)"
proof -
  have "readOwnedEnvVarNames sts = splitCSVSet (join '','' (sort (map evName (first_env desired))))"
    using assms(1) by (auto simp: recorded_def readOwnedEnvVarNames_def splitCSVSet_def trim_space_def Let_def)
  then show "set (oiEnv (readOwnedTemplateItems sts t)) = evName ` set (first_env desired)"
    using assms(2) splitCSVSet_sorted[of "map evName (first_env desired)"]
    by (simp add: readOwnedTemplateItems_def Let_def well_named_def list_all_iff)
  show "set (oiInit (readOwnedTemplateItems sts t)) = ctName ` set (ptInit desired)"
    using assms set_splitCSVSet_names[of "ptInit desired" ctName]
    by (simp add: readOwnedTemplateItems_def Let_def well_named_def list_all_iff recorded_def)
  show "set (oiVolumes (readOwnedTemplateItems sts t)) = vName ` set (ptVolumes desired)"
    using assms set_splitCSVSet_names[of "ptVolumes desired" vName]
    by (simp add: readOwnedTemplateItems_def Let_def well_named_def list_all_iff recorded_def)
qed

lemma map_of_by_name:
  assumes "named evName env k = [e]"
  shows "map_of (rev (map (\<lambda>e. (evName e, e)) env)) k = Some e"
proof -
  have "map_of (rev (map (\<lambda>e. (evName e, e)) env)) k = (if named evName env k = [] then None else Some (last (named evName env k)))"
    by (induction env rule: rev_induct) (auto simp: named_def)
  with assms show ?thesis by simp
qed

lemma named_distinct: "distinct (map evName env) \<Longrightarrow> e \<in> set env \<Longrightarrow> named evName env (evName e) = [e]"
  by (induction env) (auto simp: named_def filter_empty_conv image_iff)

lemma held_not_significant:
  assumes "recorded digest desired sts" "holds desired (ssTemplate sts)" "well_named desired"
  shows "\<not> isTemplateChangeSignificant digest sts desired"
proof -
  let ?t = "ssTemplate sts" and ?o = "readOwnedTemplateItems sts (ssTemplate sts)"
  note own = readOwned_recorded[OF assms(1,3), of ?t]
  have env: "map_of (rev (map (\<lambda>e. (evName e, e)) (first_env ?t))) (evName d) = Some d"
    if "d \<in> set (first_env desired)" for d
    using that assms(2,3) named_distinct[of "first_env desired" d]
    by (auto simp: holds_def well_named_def intro!: map_of_by_name)
  then have "envVarsEqual (first_env ?t) (first_env desired) (oiEnv ?o)"
    by (auto simp: envVarsEqual_def Let_def list_all_iff own(1))
  moreover have "volumesEqual (ptVolumes ?t) (ptVolumes desired) (oiVolumes ?o)"
    using assms(2) by (simp add: volumesEqual_def withoutForeign_def own(3) holds_def list_all_iff Let_def)
  moreover have "initContainersEqual (ptInit ?t) (ptInit desired) (oiInit ?o)"
    using assms(2) by (auto simp: initContainersEqual_def withoutForeign_def own(2) holds_def list_all_iff Let_def
        in_set_zip)
  ultimately show ?thesis
    using assms(1,2)
    by (simp add: isTemplateChangeSignificant_def hasSignificantTemplateChanges_def Let_def recorded_def
        annotation_value_def holds_def)
qed

lemma first_env_set [simp]: "cs \<noteq> [] \<Longrightarrow> first_env (t\<lparr>ptContainers := set_first_env env cs\<rparr>) = env"
  by (cases cs) (simp_all add: first_env_def set_first_env_def)

lemma critical_set_first_env:
  assumes "ptSecurity t = ptSecurity desired" "ptServiceAccount t = ptServiceAccount desired"
    "ptContainers t = set_first_env env (ptContainers desired)"
  shows "\<not> hasCriticalTemplateChanges t desired"
  using assms
  by (cases "ptContainers desired") (auto simp: hasCriticalTemplateChanges_def set_first_env_def list_ex_iff in_set_zip)

lemma filter_mergeOwnedByName:
  "filter (\<lambda>c. nameOf c \<in> nameOf ` set desired) (mergeOwnedByName nameOf current desired owned) = desired"
  by (auto simp: mergeOwnedByName_def filter_empty_conv)

lemma recorded_apply: "recorded digest desired (applyTemplate digest edit desired sts)"
  by (simp add: recorded_def applyTemplate_def Let_def writeOwnedTemplateItems_def writeOwnedEnvVarNames_def
      annotation_value_def update_conv')

lemma holds_apply:
  assumes "ptContainers desired \<noteq> []"
    and "\<And>env k. k \<in> evName ` set (first_env desired) \<Longrightarrow> named evName (edit env) k = named evName env k"
  shows "holds desired (ssTemplate (applyTemplate digest edit desired sts))"
proof -
  let ?t = "ssTemplate (applyTemplate digest edit desired sts)"
  let ?m = "mergeEnvVars (first_env (ssTemplate sts)) (first_env desired)
      (oiEnv (readOwnedTemplateItems sts (ssTemplate sts)))"
  have e: "first_env ?t = edit ?m"
    using assms(1) by (cases "ptContainers desired") (simp_all add: applyTemplate_def Let_def first_env_def set_first_env_def)
  have "\<not> hasCriticalTemplateChanges ?t desired"
    by (rule critical_set_first_env[where env = "edit ?m"]) (simp_all add: applyTemplate_def Let_def)
  moreover have "named evName (first_env ?t) k = named evName (first_env desired) k"
    if "k \<in> evName ` set (first_env desired)" for k
    using assms(2)[OF that] env_vars.desired_wins[of k "first_env desired"] that unfolding e by simp
  ultimately show ?thesis
    by (auto simp: holds_def applyTemplate_def Let_def filter_mergeOwnedByName)
qed

text \<open>
  C24: The server pod template does not oscillate. Once the cluster controller has applied a
  template, that template is not applied again, as long as the StatefulSet's records are left and
  the template holds what it rendered: whatever variables, init containers and volumes of other
  names the plugin and fleet controllers add or take away. And the apply itself keeps theirs:
  an init container or a volume it neither renders nor recorded is as it was.
\<close>

theorem applied_template_settles:
  assumes "well_named desired"
    and "\<And>env k. k \<in> evName ` set (first_env desired) \<Longrightarrow> named evName (edit env) k = named evName env k"
    and "ssAnnotations later = ssAnnotations (applyTemplate digest edit desired sts)"
    and "ssTemplate later = ssTemplate (applyTemplate digest edit desired sts) \<or> holds desired (ssTemplate later)"
    and "owned = readOwnedTemplateItems sts (ssTemplate sts)"
    and "k \<notin> set (oiInit owned) \<union> ctName ` set (ptInit desired)"
    and "v \<notin> set (oiVolumes owned) \<union> vName ` set (ptVolumes desired)"
  shows "\<not> isTemplateChangeSignificant digest later desired \<and>
    named ctName (ptInit (ssTemplate (applyTemplate digest edit desired sts))) k = named ctName (ptInit (ssTemplate sts)) k \<and>
    named vName (ptVolumes (ssTemplate (applyTemplate digest edit desired sts))) v = named vName (ptVolumes (ssTemplate sts)) v"
proof (intro conjI)
  have "recorded digest desired later"
    using recorded_apply[of digest desired edit sts] assms(3) by (simp add: recorded_def)
  moreover have "holds desired (ssTemplate later)"
    using assms(1,2,4) holds_apply[of desired edit digest sts] by (auto simp: well_named_def)
  ultimately show "\<not> isTemplateChangeSignificant digest later desired"
    using assms(1) by (intro held_not_significant)
  show "named ctName (ptInit (ssTemplate (applyTemplate digest edit desired sts))) k = named ctName (ptInit (ssTemplate sts)) k"
    using assms(5,6) by (auto simp: applyTemplate_def Let_def intro!: init_containers.foreign_kept)
  show "named vName (ptVolumes (ssTemplate (applyTemplate digest edit desired sts))) v = named vName (ptVolumes (ssTemplate sts)) v"
    using assms(5,7) by (auto simp: applyTemplate_def Let_def intro!: volumes.foreign_kept)
qed

definition server_template_of :: "string \<Rightarrow> pod_template" where
  "server_template_of tag =
     \<lparr>ptContainers = [\<lparr>ctName = ''neo4j'', ctImage = ''neo4j:'' @ tag,
         ctEnv = [\<lparr>evName = ''NEO4J_AUTH'', evValue = [], evFrom = Some ''secret/auth''\<rparr>],
         ctMounts = [''data''], ctLimits = ''2Gi'', ctSecurity = [], ctRest = []\<rparr>],
      ptInit = [\<lparr>ctName = ''truststore'', ctImage = ''neo4j'', ctEnv = [], ctMounts = [''cas''], ctLimits = [],
         ctSecurity = [], ctRest = []\<rparr>],
      ptVolumes = [\<lparr>vName = ''cas'', vSource = ''secret/cas''\<rparr>],
      ptAnnotations = [], ptSecurity = [], ptServiceAccount = ''neo4j'', ptRest = []\<rparr>"

text \<open>The servers of an earlier release, with a plugin's init container and no record yet.\<close>

definition plugin_server :: server_sts where
  "plugin_server =
     \<lparr>ssTemplate = (server_template_of ''5.26.0'')\<lparr>
        ptInit := ptInit (server_template_of ''5.26.0'') @
          [\<lparr>ctName = ''plugin-init-apoc'', ctImage = ''curl'', ctEnv = [], ctMounts = [''plugin-auth-apoc''],
            ctLimits = [], ctSecurity = [], ctRest = []\<rparr>],
        ptVolumes := ptVolumes (server_template_of ''5.26.0'') @ [\<lparr>vName = ''plugin-auth-apoc'', vSource = ''secret/t''\<rparr>],
        ptAnnotations := [(''neo4j.com/plugin-init-containers'', ''plugin-init-apoc'')]\<rparr>,
      ssAnnotations = [], ssReplicas = 3, ssReadyReplicas = 3\<rparr>"

theorem applied_template_settles_witness:
  "isTemplateChangeSignificant ptServiceAccount plugin_server (server_template_of ''5.26.1'') \<and>
   \<not> isTemplateChangeSignificant ptServiceAccount
       (applyTemplate ptServiceAccount (\<lambda>env. env) (server_template_of ''5.26.1'') plugin_server) (server_template_of ''5.26.1'') \<and>
   map ctName (named ctName (ptInit (ssTemplate (applyTemplate ptServiceAccount (\<lambda>env. env)
       (server_template_of ''5.26.1'') plugin_server))) ''plugin-init-apoc'') = [''plugin-init-apoc'']"
proof -
  let ?d = "server_template_of ''5.26.1''" and ?o = "readOwnedTemplateItems plugin_server (ssTemplate plugin_server)"
  have w: "well_named ?d" by code_simp
  have i: "''plugin-init-apoc'' \<notin> set (oiInit ?o) \<union> ctName ` set (ptInit ?d)" by code_simp
  have v: "''plugin-auth-apoc'' \<notin> set (oiVolumes ?o) \<union> vName ` set (ptVolumes ?d)" by code_simp
  have n: "map ctName (named ctName (ptInit (ssTemplate plugin_server)) ''plugin-init-apoc'') = [''plugin-init-apoc'']"
    by code_simp
  have "isTemplateChangeSignificant ptServiceAccount plugin_server ?d" by code_simp
  moreover have "\<not> isTemplateChangeSignificant ptServiceAccount
       (applyTemplate ptServiceAccount (\<lambda>env. env) ?d plugin_server) ?d \<and>
     named ctName (ptInit (ssTemplate (applyTemplate ptServiceAccount (\<lambda>env. env) ?d plugin_server))) ''plugin-init-apoc'' =
       named ctName (ptInit (ssTemplate plugin_server)) ''plugin-init-apoc''"
    using applied_template_settles[where desired = ?d and edit = "\<lambda>env. env" and digest = ptServiceAccount
        and sts = plugin_server and later = "applyTemplate ptServiceAccount (\<lambda>env. env) ?d plugin_server"
        and owned = ?o and k = "''plugin-init-apoc''" and v = "''plugin-auth-apoc''"] w i v by blast
  ultimately show ?thesis using n by simp
qed

end
