(* ===== verification/Standalone_Conf.thy ===== *)
theory Standalone_Conf
  imports Conf_Restart Owned_Items
begin

text \<open>
  The \<^verbatim>\<open>neo4j.conf\<close> of a standalone (\<^verbatim>\<open>internal/controller/standalone_conf.go\<close>,
  \<^verbatim>\<open>neo4jenterprisestandalone_controller.go\<close>): the file its controller writes over the live one,
  keeping the settings someone else put there, and the hash on the pod template that restarts the
  pod when the file changes in what a restart depends on.

  A pass writes the ConfigMap and then the StatefulSet. The rendered file, the rest of the
  rendered pod template and the answers of the API server and of the server are its inputs
  (\<open>standalone_env\<close>). \<open>swRunning\<close> is not a field of the code: it is the file whose settings the pod
  runs with, the one it read when it last started or the one whose changes were set on it
  since. \<open>sha\<close> is SHA-256 in hexadecimal, \<open>tsha\<close> the hash of a pod template with the stamp and the
  rest it is given.
\<close>

section \<open>The operations\<close>

definition TLSReloadSetting :: string where
  "TLSReloadSetting = ''dbms.security.tls_reload_enabled''"

definition standaloneDeferredConfKeys :: "string list" where
  "standaloneDeferredConfKeys = [TLSReloadSetting]"

text \<open>\<^verbatim>\<open>strings.SplitAfter(conf, "\n")\<close>: every line keeps its newline.\<close>

definition split_after :: "string \<Rightarrow> string list" where
  "split_after conf = (let ls = split_on eol conf in map (\<lambda>l. l @ [eol]) (butlast ls) @ [last ls])"

fun kept_lines :: "bool \<Rightarrow> string list \<Rightarrow> string list" where
  "kept_lines inBlock [] = []"
| "kept_lines inBlock (line # ls) =
     (if trim_space line = RestartNeutralBegin then kept_lines True ls
      else if trim_space line = RestartNeutralEnd then kept_lines False ls
      else if inBlock then kept_lines inBlock ls
      else if list_ex (\<lambda>k. has_prefix (trim_space line) (k @ ''='')) standaloneDeferredConfKeys
      then kept_lines inBlock ls
      else line # kept_lines inBlock ls)"

definition withoutDeferredConf :: "string \<Rightarrow> string" where
  "withoutDeferredConf conf = concat (kept_lines False (split_after conf))"

definition standaloneConfHash :: "(string \<Rightarrow> string) \<Rightarrow> string \<Rightarrow> string" where
  "standaloneConfHash sha conf = sha conf"

definition standaloneConfSemanticHash :: "(string \<Rightarrow> string) \<Rightarrow> string \<Rightarrow> string" where
  "standaloneConfSemanticHash sha conf = sha (normalizeNeo4jConfForRestart (withoutDeferredConf conf))"

text \<open>\<open>live\<close> and \<open>ownedRecord\<close> are the live file and the live ConfigMap's record of the owned keys.\<close>

definition mergeStandaloneConf :: "string \<Rightarrow> string \<Rightarrow> string \<Rightarrow> string" where
  "mergeStandaloneConf desiredConf live ownedRecord =
     (let desiredKeys = Neo4jConfSettings desiredConf;
          prevOwned = splitCSVSet ownedRecord;
          mergeBack = filter (\<lambda>(k, _). Option.is_none (map_of desiredKeys k) \<and> k \<notin> set prevOwned)
                        (Neo4jConfSettings live) in
      DedupeNeo4jConf (UpsertNeo4jConfSettings desiredConf mergeBack))"

record standalone_sts =
  saStamp :: string
  saRecord :: "string option"
  saTemplateHash :: string
  saRest :: string

record standalone_world =
  swConf :: string
  swOwned :: string
  swSts :: "standalone_sts option"
  swRunning :: string

text \<open>
  \<open>seConfRead\<close> and \<open>seStsRead\<close> are the cached reads of the file and of the StatefulSet before the stamp,
  as functions of what is stored: \<open>None\<close> for a read that fails or finds nothing. Between the ConfigMap
  and the StatefulSet the pass can fail, or end without an error: an upgrade its pre-upgrade check
  blocks, a storage expansion (\<open>Inr True\<close>) that has the next pass create the StatefulSet again.
\<close>

record standalone_env =
  seDesired :: string
  seLive :: live_env
  seRecordErr :: bool
  seMapErr :: "string option"
  seServiceErr :: "string option"
  seMCPErr :: "string option"
  seUpgradeRequired :: bool
  seUpgradeBlocked :: bool
  seExpansion :: "string + bool"
  seAccountErr :: "string option"
  seConfRead :: "string \<Rightarrow> string option"
  seStsRead :: "standalone_sts option \<Rightarrow> standalone_sts option"
  seStsErr :: "string option"
  seRest :: string

definition applyStandaloneConfLive ::
  "(string \<Rightarrow> string) \<Rightarrow> standalone_env \<Rightarrow> string \<Rightarrow> string \<Rightarrow> standalone_world \<Rightarrow> standalone_world" where
  "applyStandaloneConfLive sha e oldConf newConf w =
     (let (applied, _, _) = standalone_ApplyLive (seLive e) (neo4jConfChanges oldConf newConf) in
      if \<not> applied then w
      else let w1 = w\<lparr>swRunning := newConf\<rparr> in
           if seRecordErr e then w1
           else w1\<lparr>swSts := map_option (\<lambda>s. s\<lparr>saRecord := Some (standaloneConfSemanticHash sha newConf)\<rparr>) (swSts w)\<rparr>)"

definition reconcileConfigMap ::
  "(string \<Rightarrow> string) \<Rightarrow> standalone_env \<Rightarrow> standalone_world \<Rightarrow> string option \<times> standalone_world" where
  "reconcileConfigMap sha e w =
     (let merged = mergeStandaloneConf (seDesired e) (swConf w) (swOwned w);
          oldConf = withoutDeferredConf (swConf w);
          w1 = (if oldConf \<noteq> [] \<and>
                   normalizeNeo4jConfForRestart oldConf \<noteq> normalizeNeo4jConfForRestart (withoutDeferredConf merged)
                then applyStandaloneConfLive sha e oldConf (withoutDeferredConf merged) w else w) in
      case seMapErr e of
        Some err \<Rightarrow> (Some (''failed to create or update ConfigMap: '' @ err), w1)
      | None \<Rightarrow> (None, w1\<lparr>swConf := merged, swOwned := joinSortedKeys (Neo4jConfSettings (seDesired e))\<rparr>))"

definition renderedConfStamp ::
  "(string \<Rightarrow> string) \<Rightarrow> standalone_env \<Rightarrow> standalone_world \<Rightarrow> string \<times> string" where
  "renderedConfStamp sha e w =
     (case seConfRead e (swConf w) of
        None \<Rightarrow> ([], [])
      | Some conf \<Rightarrow>
          if conf = [] then ([], [])
          else let stamp = standaloneConfHash sha conf; semantic = standaloneConfSemanticHash sha conf in
               case seStsRead e (swSts w) of
                 None \<Rightarrow> (stamp, semantic)
               | Some live \<Rightarrow>
                   if saStamp live = [] \<or> saStamp live = stamp then (stamp, semantic)
                   else case saRecord live of
                          Some recd \<Rightarrow> (if recd = semantic then saStamp live else stamp, semantic)
                        | None \<Rightarrow>
                            (if saStamp live = standaloneConfHash sha (withoutDeferredConf conf)
                             then saStamp live else stamp, semantic))"

text \<open>
  The StatefulSet's write. A template without a stamp keeps the stamp the pod template has
  (\<open>mergePodTemplateAnnotations\<close>); a template that is written with another stamp or another rest
  restarts the pod, which then reads the file.
\<close>

definition stamp_statefulset ::
  "(string \<Rightarrow> string) \<Rightarrow> (string \<Rightarrow> string \<Rightarrow> string) \<Rightarrow> standalone_env \<Rightarrow> standalone_world \<Rightarrow> string option \<times> standalone_world" where
  "stamp_statefulset sha tsha e w =
     (let (stamp, semantic) = renderedConfStamp sha e w;
          desiredHash = tsha stamp (seRest e) in
      case seStsErr e of
        Some err \<Rightarrow> (Some (''failed to create or update StatefulSet: '' @ err), w)
      | None \<Rightarrow>
          (case swSts w of
             None \<Rightarrow>
               (None, w\<lparr>swSts := Some \<lparr>saStamp = stamp, saRecord = (if semantic = [] then None else Some semantic),
                                      saTemplateHash = desiredHash, saRest = seRest e\<rparr>,
                        swRunning := swConf w\<rparr>)
           | Some live \<Rightarrow>
               let live1 = (if semantic = [] then live else live\<lparr>saRecord := Some semantic\<rparr>) in
               if saTemplateHash live1 = desiredHash then (None, w\<lparr>swSts := Some live1\<rparr>)
               else let stamp1 = (if stamp = [] then saStamp live1 else stamp);
                        restarts = (stamp1 \<noteq> saStamp live1 \<or> seRest e \<noteq> saRest live1) in
                    (None, w\<lparr>swSts := Some (live1\<lparr>saStamp := stamp1, saTemplateHash := desiredHash, saRest := seRest e\<rparr>),
                             swRunning := (if restarts then swConf w else swRunning w)\<rparr>)))"

definition conf_then_pod ::
  "(string \<Rightarrow> string) \<Rightarrow> (string \<Rightarrow> string \<Rightarrow> string) \<Rightarrow> standalone_env \<Rightarrow> standalone_world \<Rightarrow> string option \<times> standalone_world" where
  "conf_then_pod sha tsha e w =
     (case reconcileConfigMap sha e w of
        (Some err, w1) \<Rightarrow> (Some (''failed to reconcile ConfigMap: '' @ err), w1)
      | (None, w1) \<Rightarrow>
          (case seServiceErr e of Some err \<Rightarrow> (Some (''failed to reconcile Service: '' @ err), w1)
           | None \<Rightarrow>
          (case seMCPErr e of Some err \<Rightarrow> (Some (''failed to reconcile MCP resources: '' @ err), w1)
           | None \<Rightarrow>
          (if seUpgradeRequired e \<and> seUpgradeBlocked e then (None, w1)
           else (case seExpansion e of Inl err \<Rightarrow> (Some err, w1)
           | Inr requeue \<Rightarrow>
          (if requeue then (None, w1)
           else (case seAccountErr e of Some err \<Rightarrow> (Some err, w1)
           | None \<Rightarrow>
          (case stamp_statefulset sha tsha e w1 of
             (Some err, w2) \<Rightarrow> (Some (''failed to reconcile StatefulSet: '' @ err), w2)
           | (None, w2) \<Rightarrow> (None, w2)))))))))"


section \<open>Settings a file does not have are appended\<close>

lemma foldl_upsert_absent:
  assumes "distinct ks" "\<forall>k\<in>set ks. keyIdx st k = None"
  shows "up_lines (foldl (upsert_key settings) st ks) = up_lines st @ map (\<lambda>k. set_line k (given settings k)) ks"
  using assms
proof (induction ks arbitrary: st)
  case (Cons k ks)
  let ?st = "upsert_key settings st k"
  have "up_lines ?st = up_lines st @ [set_line k (given settings k)]" "\<forall>a\<in>set ks. keyIdx ?st a = None"
    using Cons.prems by (auto simp: upsert_key_def given_def Let_def)
  with Cons show ?case by simp
qed simp

lemma upsert_lines_absent:
  assumes "\<forall>k\<in>fst ` set settings. values_of k ls = []"
  shows "upsert_lines settings ls =
     ls @ map (\<lambda>k. set_line k (given (map_of settings) k)) (sorted_set (map fst settings))"
proof -
  let ?st = "index_lines 0 ls \<lparr>up_lines = ls, keyIdx = Map.empty, keyVal = Map.empty\<rparr>"
  have "keyIdx ?st k = None" if "k \<in> fst ` set settings" for k
  proof (rule ccontr)
    assume "keyIdx ?st k \<noteq> None"
    then obtain i w where i: "i < length ls" "settingKV (ls ! i) = Some (k, w)"
      using indexed_ok(1)[of ls k] unfolding indexed_ok(2) by (auto simp: idx_ok_def)
    from values_of_at(1)[OF i i(2)] assms that show False by auto
  qed
  then show ?thesis
    unfolding upsert_lines_def
    by (subst foldl_upsert_absent) (auto simp: indexed_ok)
qed

lemma drop_earlier_append:
  assumes "\<And>k. values_of k ls \<noteq> [] \<Longrightarrow> values_of k ms = []"
  shows "drop_earlier toks (ls @ ms) = drop_earlier toks ls @ drop_earlier toks ms"
  using assms
proof (induction ls)
  case (Cons l ls)
  have "drop_earlier toks (ls @ ms) = drop_earlier toks ls @ drop_earlier toks ms"
    by (rule Cons.IH) (use Cons.prems in auto)
  moreover have "values_of k ms = []" if "settingKV l = Some (k, v)" for k v
    using Cons.prems[of k] that by simp
  ultimately show ?case by (auto split: option.splits prod.splits)
qed simp

lemma drop_earlier_cong:
  "(\<And>k. values_of k ls \<noteq> [] \<Longrightarrow> toks k = toks' k) \<Longrightarrow> drop_earlier toks ls = drop_earlier toks' ls"
proof (induction ls)
  case (Cons l ls)
  have "drop_earlier toks ls = drop_earlier toks' ls" by (rule Cons.IH) (use Cons.prems in auto)
  moreover have "toks k = toks' k" if "settingKV l = Some (k, v)" for k v
    using Cons.prems[of k] that by simp
  ultimately show ?case by (auto split: option.splits prod.splits)
qed simp

lemma values_of_set_lines:
  assumes "distinct ks" "\<forall>k\<in>set ks. conf_key k"
  shows "values_of k (map (\<lambda>k. set_line k (f k)) ks) = (if k \<in> set ks then [trim_space (f k)] else [])"
  using assms by (induction ks) auto

lemma drop_earlier_set_lines:
  assumes "distinct ks" "\<forall>k\<in>set ks. conf_key k"
  shows "drop_earlier toks (map (\<lambda>k. set_line k (f k)) ks) =
     map (\<lambda>k. set_line k (if IsAdditiveConfKey k then join '','' (toks k) else f k)) ks"
  using assms by (induction ks) (auto simp: values_of_set_lines)

lemma dedupe_lines_append:
  assumes "distinct ks" "\<forall>k\<in>set ks. conf_key k \<and> values_of k ls = []"
  shows "dedupe_lines (ls @ map (\<lambda>k. set_line k (f k)) ks) =
     dedupe_lines ls @ map (\<lambda>k. set_line k (if IsAdditiveConfKey k then join '','' (add_tokens [] (f k)) else f k)) ks"
proof -
  let ?L = "map (\<lambda>k. set_line k (f k)) ks"
  have vL: "values_of k ?L = (if k \<in> set ks then [trim_space (f k)] else [])" for k
    by (rule values_of_set_lines) (use assms in auto)
  have "drop_earlier (merged (ls @ ?L)) ls = drop_earlier (merged ls) ls"
    by (rule drop_earlier_cong) (use vL assms(2) in \<open>auto split: if_splits\<close>)
  moreover have "drop_earlier (merged (ls @ ?L)) ?L =
      map (\<lambda>k. set_line k (if IsAdditiveConfKey k then join '','' (add_tokens [] (f k)) else f k)) ks"
    by (subst drop_earlier_set_lines) (use assms vL in auto)
  ultimately show ?thesis
    unfolding dedupe_lines_eq by (subst drop_earlier_append) (use vL assms(2) in \<open>auto split: if_splits\<close>)
qed



section \<open>The owner of a setting\<close>

text \<open>The settings of the live file no one owns, as they are put back.\<close>

definition merge_back :: "string \<Rightarrow> string \<Rightarrow> string \<Rightarrow> (string \<times> string) list" where
  "merge_back desiredConf live ownedRecord =
     filter (\<lambda>(k, _). Option.is_none (map_of (Neo4jConfSettings desiredConf) k) \<and> k \<notin> set (splitCSVSet ownedRecord))
       (Neo4jConfSettings live)"

lemma map_of_merge_back:
  "map_of (merge_back d live rec) k =
     (if map_of (Neo4jConfSettings d) k = None \<and> k \<notin> set (splitCSVSet rec)
      then map_of (Neo4jConfSettings live) k else None)"
  unfolding merge_back_def
    map_of_filter_key[of "\<lambda>k. Option.is_none (map_of (Neo4jConfSettings d) k) \<and> k \<notin> set (splitCSVSet rec)"]
  by (simp add: Option.is_none_def)

lemma Neo4jConfSettings_keys: "map_of (Neo4jConfSettings conf) k = Some v \<Longrightarrow> conf_key k \<and> trimmed v"
proof -
  assume "map_of (Neo4jConfSettings conf) k = Some v"
  then have "values_of k (split_on eol conf) \<noteq> []" "v = last (values_of k (split_on eol conf))"
    by (auto simp: map_of_Neo4jConfSettings Let_def split: if_splits)
  then show ?thesis
    using values_of_key values_of_value(1) lines_no_eol by (metis last_in_set)
qed

lemma merge_back_keys:
  assumes "k \<in> fst ` set (merge_back d live rec)"
  shows "conf_key k" "values_of k (split_on eol d) = []"
proof -
  from assms obtain v where v: "map_of (merge_back d live rec) k = Some v"
    by (metis map_of_eq_None_iff not_None_eq)
  then show "conf_key k" using Neo4jConfSettings_keys by (auto simp: map_of_merge_back split: if_splits)
  from v show "values_of k (split_on eol d) = []"
    by (auto simp: map_of_merge_back map_of_Neo4jConfSettings Let_def split: if_splits)
qed

lemma mergeStandaloneConf_eq:
  "mergeStandaloneConf d live rec = DedupeNeo4jConf (UpsertNeo4jConfSettings d (merge_back d live rec))"
  by (simp add: mergeStandaloneConf_def merge_back_def Let_def)

lemma settings_mergeStandaloneConf:
  "map_of (Neo4jConfSettings (mergeStandaloneConf d live rec)) k =
     (case map_of (Neo4jConfSettings (DedupeNeo4jConf d)) k of
        Some v \<Rightarrow> Some v
      | None \<Rightarrow>
          if k \<in> set (splitCSVSet rec) then None
          else case map_of (Neo4jConfSettings live) k of
                 None \<Rightarrow> None
               | Some v \<Rightarrow> joined k (sanitizeConfValue v) [])"
proof -
  have ok: "\<forall>k\<in>fst ` set (merge_back d live rec). conf_key k" using merge_back_keys(1) by blast
  have "map_of (Neo4jConfSettings (DedupeNeo4jConf d)) k = resolved k (values_of k (split_on eol d))"
    by (simp add: map_of_Neo4jConfSettings values_of_dedupe split: option.splits)
  then show ?thesis
    unfolding mergeStandaloneConf_eq Dedupe_Upsert_settings[OF ok] map_of_merge_back
    by (auto simp: map_of_Neo4jConfSettings[of d] Let_def resolved_def split: option.splits)
qed

text \<open>The text of the merged file: the rendered one, then what is put back, in the order of the keys.\<close>

abbreviation put_back :: "string \<Rightarrow> string \<Rightarrow> string" where
  "put_back k v \<equiv> if IsAdditiveConfKey k then join '','' (add_tokens [] (sanitizeConfValue v)) else sanitizeConfValue v"

lemma lines_mergeStandaloneConf:
  "split_on eol (mergeStandaloneConf d live rec) =
     dedupe_lines (split_on eol d) @
     map (\<lambda>k. set_line k (put_back k (or_empty (map_of (merge_back d live rec) k))))
       (sorted_set (map fst (merge_back d live rec)))"
proof -
  let ?b = "merge_back d live rec"
  have ok: "\<forall>k\<in>fst ` set ?b. conf_key k" "\<forall>k\<in>fst ` set ?b. values_of k (split_on eol d) = []"
    using merge_back_keys by blast+
  have "given (map_of ?b) k = sanitizeConfValue (or_empty (map_of ?b k))" for k
    by (simp add: given_def or_empty_def)
  then show ?thesis
    unfolding mergeStandaloneConf_eq split_Dedupe split_Upsert[OF ok(1)] upsert_lines_absent[OF ok(2)]
    by (subst dedupe_lines_append) (use ok in auto)
qed

lemma sanitized_CR: "CHR 0x0D \<notin> set (sanitizeConfValue v)"
  by (auto simp: sanitizeConfValue_def)

lemma sanitize_id: "eol \<notin> set v \<Longrightarrow> CHR 0x0D \<notin> set v \<Longrightarrow> sanitizeConfValue v = v"
  by (simp add: sanitizeConfValue_def)

lemma trimmed_sanitize:
  assumes "trimmed v"
  shows "trimmed (sanitizeConfValue v)"
proof (cases "v = []")
  case False
  let ?P = "\<lambda>c. c \<noteq> eol \<and> c \<noteq> CHR 0x0D"
  have "\<not> is_space (hd v)" "\<not> is_space (last v)" using assms False by (auto simp: trimmed_def)
  then have hd: "?P (hd v)" and la: "?P (last v)" by (auto simp: is_space_def)
  have "filter ?P v \<noteq> []" "hd (filter ?P v) = hd v" using hd False by (cases v; auto)+
  moreover have "last (filter ?P v) = last v" using la False by (cases v rule: rev_cases) auto
  ultimately show ?thesis using assms False by (auto simp: sanitizeConfValue_def trimmed_def)
qed (simp add: sanitizeConfValue_def trimmed_def)

lemma CR_tokens:
  assumes "c \<notin> set v"
  shows "\<forall>t\<in>set (add_tokens [] v). c \<notin> set t"
proof
  fix t assume "t \<in> set (add_tokens [] v)"
  then obtain p where "p \<in> set (split_on CHR '','' v)" "t = trim_space p" by (auto simp: set_add_tokens)
  then show "c \<notin> set t" using split_on_parts[of p "CHR '',''" v] set_trim_space[of p] assms by auto
qed

lemma CR_join: "c \<noteq> CHR '','' \<Longrightarrow> \<forall>t\<in>set ts. c \<notin> set t \<Longrightarrow> c \<notin> set (join '','' ts)"
proof (induction ts)
  case (Cons t ts)
  then show ?case by (cases "ts = []") (auto simp: join_Cons)
qed simp

lemma put_back_again:
  assumes "trimmed v"
  shows "put_back k (put_back k v) = put_back k v" "trimmed (put_back k v)"
proof -
  let ?s = "sanitizeConfValue v" and ?j = "join '','' (add_tokens [] (sanitizeConfValue v))"
  have "sanitizeConfValue ?s = ?s" by (rule sanitize_id) (simp_all add: eol_sanitizeConfValue sanitized_CR)
  moreover have "sanitizeConfValue ?j = ?j"
    by (rule sanitize_id; rule CR_join)
       (use CR_tokens[OF eol_sanitizeConfValue] CR_tokens[OF sanitized_CR] in simp_all)
  ultimately show "put_back k (put_back k v) = put_back k v" by simp
  show "trimmed (put_back k v)" using trimmed_sanitize[OF assms] by simp
qed

lemma joined_put_back: "trimmed v \<Longrightarrow> joined k (sanitizeConfValue v) [] = Some (put_back k v)"
  by (simp add: joined_def resolved_def trimmed_sanitize)

lemma splitCSVSet_owned:
  assumes "\<forall>k\<in>fst ` set (Neo4jConfSettings d). token k"
  shows "set (splitCSVSet (joinSortedKeys (Neo4jConfSettings d))) = fst ` set (Neo4jConfSettings d)"
  using assms splitCSVSet_sorted[of "map fst (Neo4jConfSettings d)"] by (simp add: joinSortedKeys_def)

lemma mergeStandaloneConf_again:
  assumes "\<forall>k\<in>fst ` set (Neo4jConfSettings d). token k"
  shows "mergeStandaloneConf d (mergeStandaloneConf d live rec) (joinSortedKeys (Neo4jConfSettings d)) =
    mergeStandaloneConf d live rec"
proof -
  let ?m = "mergeStandaloneConf d live rec" and ?rec = "joinSortedKeys (Neo4jConfSettings d)"
  let ?b = "merge_back d live rec" and ?b' = "merge_back d ?m ?rec"
  have none: "map_of (Neo4jConfSettings (DedupeNeo4jConf d)) k = None \<longleftrightarrow> map_of (Neo4jConfSettings d) k = None" for k
    by (auto simp: map_of_Neo4jConfSettings values_of_dedupe resolved_def Let_def)
  have b': "map_of ?b' k = map_option (put_back k) (map_of ?b k)" for k
  proof -
    have "map_of ?b' k = (if map_of (Neo4jConfSettings d) k = None then map_of (Neo4jConfSettings ?m) k else None)"
      using splitCSVSet_owned[OF assms] map_of_eq_None_iff[of "Neo4jConfSettings d" k]
      by (simp add: map_of_merge_back)
    then show ?thesis
      using none[of k] Neo4jConfSettings_keys[of live k]
      by (auto simp: settings_mergeStandaloneConf map_of_merge_back joined_put_back split: option.splits)
  qed
  have "k \<in> fst ` set ?b' \<longleftrightarrow> k \<in> fst ` set ?b" for k
    using b'[of k] map_of_eq_None_iff[of ?b' k] map_of_eq_None_iff[of ?b k] by auto
  then have dom: "sorted_set (map fst ?b') = sorted_set (map fst ?b)"
    by (intro sorted_set_cong) auto
  have "split_on eol (mergeStandaloneConf d ?m ?rec) = split_on eol ?m"
    unfolding lines_mergeStandaloneConf[of d ?m] lines_mergeStandaloneConf[of d live] dom
  proof (rule arg_cong[where f = "(@) _"], rule map_cong[OF refl])
    fix k assume "k \<in> set (sorted_set (map fst ?b))"
    then obtain v where v: "map_of ?b k = Some v" by (metis list.set_map map_of_eq_None_iff not_None_eq set_sorted_set)
    then have "trimmed v" using Neo4jConfSettings_keys by (auto simp: map_of_merge_back split: if_splits)
    from put_back_again(1)[OF this, of k] show "set_line k (put_back k (or_empty (map_of ?b' k))) = set_line k (put_back k (or_empty (map_of ?b k)))"
      unfolding b' v or_empty_def option.map option.case by simp
  qed
  then show ?thesis by (metis join_split)
qed


text \<open>
  C25: A standalone's \<^verbatim>\<open>neo4j.conf\<close> has one owner per setting. What the controller renders has its
  rendered value; what it rendered before (its record) and no longer does is gone; a setting
  someone else put in the live file is kept. A further pass with the same rendering writes
  the same file, byte for byte.
\<close>

theorem standalone_conf_has_one_owner:
  assumes "\<forall>k\<in>fst ` set (Neo4jConfSettings desired). token k"
  shows "map_of (Neo4jConfSettings (mergeStandaloneConf desired live ownedRecord)) k =
      (case map_of (Neo4jConfSettings (DedupeNeo4jConf desired)) k of
         Some v \<Rightarrow> Some v
       | None \<Rightarrow> if k \<in> set (splitCSVSet ownedRecord) then None
                 else map_option (put_back k) (map_of (Neo4jConfSettings live) k)) \<and>
    mergeStandaloneConf desired (mergeStandaloneConf desired live ownedRecord)
        (joinSortedKeys (Neo4jConfSettings desired)) = mergeStandaloneConf desired live ownedRecord"
  using mergeStandaloneConf_again[OF assms, of live ownedRecord] Neo4jConfSettings_keys[of live k]
  by (auto simp: settings_mergeStandaloneConf joined_put_back split: option.splits)

theorem standalone_conf_has_one_owner_witness:
  "(let desired = ''a=1''; live = ''a=0'' @ [eol] @ ''gone=1'' @ [eol] @ ''mine = 2''; out = mergeStandaloneConf desired live ''a,gone'' in
    map_of (Neo4jConfSettings out) ''a'' = Some ''1'' \<and> map_of (Neo4jConfSettings out) ''gone'' = None \<and>
    map_of (Neo4jConfSettings out) ''mine'' = Some ''2'' \<and> mergeStandaloneConf desired out ''a'' = out)"
proof -
  let ?live = "''a=0'' @ [eol] @ ''gone=1'' @ [eol] @ ''mine = 2''"
  have ok: "\<forall>k\<in>fst ` set (Neo4jConfSettings ''a=1''). token k" by code_simp
  have j: "joinSortedKeys (Neo4jConfSettings ''a=1'') = ''a''" by code_simp
  have d: "map_of (Neo4jConfSettings (DedupeNeo4jConf ''a=1'')) ''a'' = Some ''1''"
    "map_of (Neo4jConfSettings (DedupeNeo4jConf ''a=1'')) ''gone'' = None"
    "map_of (Neo4jConfSettings (DedupeNeo4jConf ''a=1'')) ''mine'' = None" by code_simp+
  have l: "''gone'' \<in> set (splitCSVSet ''a,gone'')" "''mine'' \<notin> set (splitCSVSet ''a,gone'')"
    "map_option (put_back ''mine'') (map_of (Neo4jConfSettings ?live) ''mine'') = Some ''2''" by code_simp+
  note t = standalone_conf_has_one_owner[OF ok, of ?live "''a,gone''", unfolded j]
  show ?thesis
    unfolding Let_def using t[of "''a''"] t[of "''gone''"] t[of "''mine''"]
    unfolding d l(3) option.case if_P[OF l(1)] if_not_P[OF l(2)] by blast
qed


section \<open>The pod runs what its file says\<close>

text \<open>What a restart depends on.\<close>

definition conf_sem :: "string \<Rightarrow> string" where
  "conf_sem conf = normalizeNeo4jConfForRestart (withoutDeferredConf conf)"

definition dropped_line :: "string \<Rightarrow> bool" where
  "dropped_line line =
     (trim_space line = RestartNeutralBegin \<or> trim_space line = RestartNeutralEnd \<or>
      list_ex (\<lambda>k. has_prefix (trim_space line) (k @ ''='')) standaloneDeferredConfKeys)"

lemma kept_lines_subset: "l \<in> set (kept_lines b ls) \<Longrightarrow> l \<in> set ls \<and> \<not> dropped_line l"
  by (induction b ls rule: kept_lines.induct) (auto simp: dropped_line_def split: if_splits)

lemma kept_lines_id: "\<forall>l\<in>set ls. \<not> dropped_line l \<Longrightarrow> kept_lines False ls = ls"
  by (induction ls) (auto simp: dropped_line_def)

text \<open>The lines of a file: every one but the last ends with its only newline.\<close>

definition whole_lines :: "string list \<Rightarrow> bool" where
  "whole_lines ls \<longleftrightarrow> (\<forall>l\<in>set (butlast ls). \<exists>u. l = u @ [eol] \<and> eol \<notin> set u) \<and>
     (ls \<noteq> [] \<longrightarrow> eol \<notin> set (last ls) \<or> (\<exists>u. last ls = u @ [eol] \<and> eol \<notin> set u))"

lemma whole_lines_Cons:
  "whole_lines (l # m # ls) \<longleftrightarrow> (\<exists>u. l = u @ [eol] \<and> eol \<notin> set u) \<and> whole_lines (m # ls)"
  by (auto simp: whole_lines_def)

lemma whole_lines_tail: "whole_lines (l # ls) \<Longrightarrow> whole_lines ls"
  by (cases ls) (auto simp: whole_lines_def)

lemma whole_lines_kept: "whole_lines ls \<Longrightarrow> whole_lines (kept_lines b ls)"
proof (induction b ls rule: kept_lines.induct)
  case (2 b l ls)
  have tail: "whole_lines ls" using "2.prems" by (rule whole_lines_tail)
  have "whole_lines (l # kept_lines c ls)" if "whole_lines (kept_lines c ls)" for c
  proof (cases ls)
    case (Cons m ms)
    then have "\<exists>u. l = u @ [eol] \<and> eol \<notin> set u" using "2.prems" by (simp add: whole_lines_Cons)
    with that show ?thesis by (cases "kept_lines c ls") (auto simp: whole_lines_def)
  qed (use "2.prems" in \<open>simp add: whole_lines_def\<close>)
  with 2 tail show ?case by auto
qed simp

lemma split_after_Cons: "eol \<notin> set u \<Longrightarrow> split_after (u @ eol # s) = (u @ [eol]) # split_after s"
  by (simp add: split_after_def split_on_append_sep Let_def)

lemma split_after_plain: "eol \<notin> set u \<Longrightarrow> split_after u = [u]"
  by (simp add: split_after_def Let_def)

lemma split_after_concat:
  "whole_lines ls \<Longrightarrow> split_after (concat ls) = ls \<or> split_after (concat ls) = ls @ [[]]"
proof (induction ls)
  case Nil
  then show ?case by (simp add: split_after_plain)
next
  case (Cons l ls)
  show ?case
  proof (cases "\<exists>u. l = u @ [eol] \<and> eol \<notin> set u")
    case True
    then obtain u where u: "l = u @ [eol]" "eol \<notin> set u" by blast
    from Cons.IH[OF whole_lines_tail[OF Cons.prems]] show ?thesis
      by (auto simp: u split_after_Cons)
  next
    case False
    then have "ls = []" using Cons.prems by (cases ls) (auto simp: whole_lines_Cons)
    with False Cons.prems show ?thesis by (auto simp: whole_lines_def split_after_plain)
  qed
qed

lemma whole_lines_split_after: "whole_lines (split_after conf)"
proof -
  have "eol \<notin> set l" if "l \<in> set (split_on eol conf)" for l using that by (rule lines_no_eol)
  then show ?thesis
    by (auto simp: whole_lines_def split_after_def Let_def butlast_append dest: in_set_butlastD)
qed

lemma withoutDeferredConf_idem [simp]: "withoutDeferredConf (withoutDeferredConf conf) = withoutDeferredConf conf"
proof -
  let ?ks = "kept_lines False (split_after conf)"
  have ok: "\<forall>l\<in>set ?ks. \<not> dropped_line l" using kept_lines_subset by blast
  have "\<not> dropped_line []" by code_simp
  with ok have "kept_lines False ?ks = ?ks" "kept_lines False (?ks @ [[]]) = ?ks @ [[]]"
    by (auto intro!: kept_lines_id)
  with split_after_concat[OF whole_lines_kept[OF whole_lines_split_after[of conf], of False]] show ?thesis
    unfolding withoutDeferredConf_def by fastforce
qed


subsection \<open>A pass\<close>



lemma conf_sem_deferred [simp]: "conf_sem (withoutDeferredConf conf) = conf_sem conf"
  by (simp add: conf_sem_def)







definition marked :: "string \<Rightarrow> string" where
  "marked s = CHR ''h'' # s"

definition marked_template :: "string \<Rightarrow> string \<Rightarrow> string" where
  "marked_template stamp rest = nat_str (length stamp) @ '':'' @ stamp @ rest"

text \<open>A standalone that runs \<open>conf\<close> and has since the pod started.\<close>

definition standalone_on :: "string \<Rightarrow> standalone_world" where
  "standalone_on conf =
     \<lparr>swConf = conf, swOwned = joinSortedKeys (Neo4jConfSettings conf),
      swSts = Some \<lparr>saStamp = marked conf, saRecord = Some (marked (conf_sem conf)),
                    saTemplateHash = marked_template (marked conf) ''pod'', saRest = ''pod''\<rparr>,
      swRunning = conf\<rparr>"

definition standalone_pass :: "string \<Rightarrow> bool \<Rightarrow> standalone_env" where
  "standalone_pass conf ready =
     \<lparr>seDesired = conf,
      seLive = quiet_servers\<lparr>leReady := ready,
        leSts := Inr \<lparr>lsReplicas = Some 1, lsGeneration = 1, lsObservedGeneration = 1, lsReadyReplicas = 1,
                      lsUpdatedReplicas = 1, lsCurrentRevision = ''r'', lsUpdateRevision = ''r'', lsEnvNames = []\<rparr>\<rparr>,
      seRecordErr = False, seMapErr = None, seServiceErr = None, seMCPErr = None, seUpgradeRequired = False,
      seUpgradeBlocked = False, seExpansion = Inr False, seAccountErr = None, seConfRead = Some,
      seStsRead = (\<lambda>sts. sts), seStsErr = None, seRest = ''pod''\<rparr>"





text \<open>
  Without that condition it fails: a change set on the pod leaves the template's hash that of the old
  file. When it is taken back and the server then refuses the change, the old file's hash
  is the template's, so nothing restarts the pod, and it goes on with the value that was
  set on it.
\<close>

lemma taken_back_change_keeps_running:
  "(let w1 = snd (conf_then_pod marked marked_template (standalone_pass ''a=2'' True) (standalone_on ''a=1''));
        w2 = snd (conf_then_pod marked marked_template (standalone_pass ''a=1'' False) w1);
        w3 = snd (conf_then_pod marked marked_template (standalone_pass ''a=1'' True) w2) in
    swConf w1 = ''a=2'' \<and> swRunning w1 = ''a=2'' \<and>
    swConf w2 = ''a=1'' \<and> swRunning w2 = ''a=2'' \<and> map_option saStamp (swSts w2) = map_option saStamp (swSts w1) \<and>
    swConf w3 = ''a=1'' \<and> swRunning w3 = ''a=2'')"
  by code_simp

end
