(* ===== verification/Restore_Source.thy ===== *)
theory Restore_Source
  imports Version Cluster_State
begin

text \<open>
  The Neo4jRestore object (\<^verbatim>\<open>src/api/v1beta1/neo4jrestore_types.go\<close>) as the online restore of all
  databases reads it, how its status and annotations are written, and what is decided before a
  database is touched: the backup run it restores from and whether it runs online
  (\<^verbatim>\<open>internal/controller/neo4jrestore_controller.go\<close>, \<^verbatim>\<open>restore_outcome.go\<close>,
  \<^verbatim>\<open>restore_target.go\<close>, \<^verbatim>\<open>restore_point_in_time.go\<close>). \<^verbatim>\<open>status.stats\<close> and \<^verbatim>\<open>status.backupInfo\<close> are left
  out: nothing reads them.

  A pass works on a copy of the object from the cache. Every write of the controller, a status
  update or a patch, carries the version of the copy it was made from, which comes from the same
  cache: it lands only on a copy of the stored object. When it has landed the cache is therefore
  at most one version behind, and \<open>rwPrevious\<close> is that version.
\<close>

section \<open>The restore and its world\<close>

record db_artifact =
  daDatabase :: string
  daFilename :: string
  daType :: string

record storage_location =
  slType :: string
  slBucket :: string
  slPath :: string
  slCredentials :: string    \<comment> \<open>\<^verbatim>\<open>cloud.credentialsSecretRef\<close>, empty without a cloud block\<close>
  slEndpoint :: string       \<comment> \<open>\<^verbatim>\<open>cloud.endpointURL\<close>, likewise\<close>
  slPVC :: string

record resolved_source =
  rvBackupRef :: string
  rvStorage :: "storage_location option"
  rvBackupPath :: string
  rvArtifactFilename :: string
  rvArtifactType :: string
  rvArtifacts :: "db_artifact list"
  rvSharded :: "string list"
  rvCreatedAt :: "int option"
  rvStartedAt :: "int option"

record backup_run =
  brStatus :: string
  brStart :: "int option"    \<comment> \<open>\<^verbatim>\<open>None\<close> for the zero time\<close>
  brCompletion :: "int option"
  brArtifact :: string
  brType :: string
  brArtifacts :: "db_artifact list"
  brSharded :: "string list"

record db_result =
  drDatabase :: string
  drPhase :: string
  drMessage :: string
  drCompletion :: "int option"

record restore_status =
  rsPhase :: string
  rsMessage :: string
  rsObserved :: int
  rsStart :: "int option"
  rsCompletion :: "int option"
  rsResolved :: "resolved_source option"
  rsResults :: "db_result list"
  rsConditions :: "condition list"

record restore =
  rtName :: string
  rtNamespace :: string
  rtGeneration :: int
  rtInstanceRef :: string
  rtAllDatabases :: bool
  rtDatabase :: string
  rtSourceType :: string
  rtBackupRef :: string
  rtSourceDatabase :: string
  rtPointInTime :: "int option"
  rtReplaceExisting :: bool    \<comment> \<open>\<^verbatim>\<open>options.replaceExisting\<close>, false without options\<close>
  rtPreRestore :: bool         \<comment> \<open>\<^verbatim>\<open>options.preRestore\<close> is set\<close>
  rtPostRestore :: bool
  rtTimeout :: string
  rtAnnotations :: "string \<rightharpoonup> string"
  rtStatus :: restore_status

definition StatusPending :: string where "StatusPending = ''Pending''"
definition StatusRunning :: string where "StatusRunning = ''Running''"
definition StatusCompleted :: string where "StatusCompleted = ''Completed''"
definition StatusFailed :: string where "StatusFailed = ''Failed''"

lemmas status_defs = StatusPending_def StatusRunning_def StatusCompleted_def StatusFailed_def

abbreviation terminal :: "string \<Rightarrow> bool" where
  "terminal phase \<equiv> phase = StatusCompleted \<or> phase = StatusFailed"

text \<open>What a pass does outside the object: statements sent to Neo4j, hooks, the proxy's teardown, events.\<close>

datatype restore_effect =
    Recreated string string    \<comment> \<open>\<^verbatim>\<open>dbms.recreateDatabase\<close> of a database from a seed\<close>
  | Created string string      \<comment> \<open>\<^verbatim>\<open>CREATE DATABASE ... OPTIONS {seedURI}\<close>\<close>
  | RanHooks string
  | ProxyGone
  | RestoreEvent string string

text \<open>The in-memory note of a seed's progress (\<^verbatim>\<open>seedProgressNote\<close>); \<^verbatim>\<open>None\<close> is the zero time.\<close>

record seed_note =
  snAnnounced :: "int option"
  snDatabase :: string
  snProgress :: string
  snSince :: int

record restore_world =
  rwStored :: restore
  rwPrevious :: restore
  rwMem :: restore
  rwLog :: "restore_effect list"
  rwNote :: "seed_note option"

text \<open>The writes of one pass, each made at most once.\<close>

datatype restore_write =
  WStatus | WResult | WAwait | WAnswered | WPin | WUnpin | WHooks | WClear | WAnchor | WUnanchor | WPath

datatype restore_result = Requeue | Stop | Failing string | Elsewhere

record restore_target =
  rgStandalone :: bool
  rgName :: string
  rgRepo :: string
  rgTag :: string
  rgHeldBy :: "string option"     \<comment> \<open>the standalone's restore-in-progress annotation\<close>
  rgIdentity :: bool              \<comment> \<open>the standalone has a pod identity\<close>
  rgServiceAccount :: string
  rgEnvEndpoint :: bool           \<comment> \<open>\<^verbatim>\<open>envHasSeedEndpoint\<close>\<close>

datatype projection =
    Projected | NothingMissing | MissingSeedConfig "string list" | ProjectionError string

text \<open>
  The answers of one pass. An error of Neo4j comes with the verdict of \<^verbatim>\<open>allDatabasesTargetAway\<close>
  on it; the image tag's check and the spec's validation are answers, \<^verbatim>\<open>None\<close> when they pass.
\<close>

record restore_env =
  raNow :: int
  raLands :: "restore_write \<Rightarrow> bool"
  raWriteError :: string
  raFormat :: "int \<Rightarrow> string"                        \<comment> \<open>RFC 3339, in UTC\<close>
  raParseTime :: "string \<Rightarrow> int option"
  raParseDuration :: "string \<Rightarrow> int option"
  raPathEscape :: "string \<Rightarrow> string"                 \<comment> \<open>\<^verbatim>\<open>url.PathEscape\<close>\<close>
  raRef :: "(bool \<times> string) option"                  \<comment> \<open>the error of \<^verbatim>\<open>getClusterRef\<close>; true for NotFound\<close>
  raVersionError :: "string option"
  raValidation :: "(bool \<times> string) option"           \<comment> \<open>true for a read that failed\<close>
  raLookup :: "string option"                        \<comment> \<open>the error of \<^verbatim>\<open>isRestoreTargetTrueCluster\<close>\<close>
  raTargetError :: "string option"                   \<comment> \<open>the error of \<^verbatim>\<open>getRestoreTarget\<close>\<close>
  raTarget :: restore_target
  raStandaloneRead :: bool
  raBackup :: "(bool \<times> string) + (storage_location \<times> string)"   \<comment> \<open>true: not ready yet\<close>
  raHistory :: "(backup_run list \<times> bool) option"     \<comment> \<open>the runs, and whether only full backups are taken\<close>
  raExists :: "string \<Rightarrow> (bool \<times> string) + bool"
  raHooks :: "string \<Rightarrow> string option"
  raProjection :: projection
  raCredsRolled :: "string + bool"
  raEndpointRolled :: "string + bool"
  raIdentityRolled :: "string + bool"
  raProxy :: "string + bool"
  raMergeFailure :: string
  raDiagnosis :: string
  raClient :: "(bool \<times> string) option"
  raAPIReader :: bool
  raUncached :: bool                                 \<comment> \<open>the uncached read is answered\<close>
  raRecreate :: "string \<Rightarrow> string option"
  raCreate :: "string \<Rightarrow> string option"
  raOnline :: "string \<Rightarrow> string + int \<times> int"
  raRecorder :: bool
  raSwept :: bool                                    \<comment> \<open>the note was dropped since the last poll\<close>

section \<open>Writes\<close>

definition store :: "restore_env \<Rightarrow> restore_write \<Rightarrow> (restore \<Rightarrow> restore) \<Rightarrow> restore_world \<Rightarrow> bool \<times> restore_world" where
  "store e k f w =
     (if raLands e k then (True, w\<lparr>rwStored := f (rwStored w), rwPrevious := rwStored w\<rparr>) else (False, w))"

definition log_effect :: "restore_effect \<Rightarrow> restore_world \<Rightarrow> restore_world" where
  "log_effect x w = w\<lparr>rwLog := rwLog w @ [x]\<rparr>"

definition on_status :: "(restore_status \<Rightarrow> restore_status) \<Rightarrow> restore \<Rightarrow> restore" where
  "on_status f r = r\<lparr>rtStatus := f (rtStatus r)\<rparr>"

definition on_mem :: "(restore \<Rightarrow> restore) \<Rightarrow> restore_world \<Rightarrow> restore_world" where
  "on_mem f w = w\<lparr>rwMem := f (rwMem w)\<rparr>"

definition go_quoted :: "string \<Rightarrow> string" where
  "go_quoted s = [dquote] @ s @ [dquote]"

definition restoreReadyCondition :: "string \<Rightarrow> condition_status \<times> string" where
  "restoreReadyCondition phase =
     (if phase = StatusCompleted then (CondTrue, ''RestoreCompleted'')
      else if phase = StatusFailed then (CondFalse, ''RestoreFailed'')
      else if phase = StatusRunning then (CondUnknown, ''RestoreRunning'')
      else PhaseToConditionStatus phase)"

definition restoreEndedAtGeneration :: "restore \<Rightarrow> bool" where
  "restoreEndedAtGeneration r =
     (terminal (rsPhase (rtStatus r)) \<and> rsObserved (rtStatus r) = rtGeneration r)"

definition earlier_wins :: "'a option \<Rightarrow> 'a option \<Rightarrow> 'a option" where
  "earlier_wins stored new = (case stored of None \<Rightarrow> new | Some t \<Rightarrow> Some t)"

text \<open>
  \<^verbatim>\<open>transitionRestoreStatus\<close>: whether the write changed the stored phase or message. The seed
  proxy goes with every terminal phase, whether or not the write lands.
\<close>

definition transitionRestoreStatus :: "restore_env \<Rightarrow> string \<Rightarrow> string \<Rightarrow> restore_world \<Rightarrow> bool \<times> restore_world" where
  "transitionRestoreStatus e phase message w =
     (let changed = (rsPhase (rtStatus (rwStored w)) \<noteq> phase \<or> rsMessage (rtStatus (rwStored w)) \<noteq> message);
          mem = rtStatus (rwMem w);
          (condStatus, condReason) = restoreReadyCondition phase;
          (ok, w1) = store e WStatus (\<lambda>latest. on_status (\<lambda>s. s\<lparr>
              rsPhase := phase, rsMessage := message, rsObserved := rtGeneration latest,
              rsStart := earlier_wins (rsStart s) (rsStart mem),
              rsCompletion := earlier_wins (rsCompletion s) (rsCompletion mem),
              rsConditions := fst (SetReadyCondition (rsConditions s) (rtGeneration latest)
                                     condStatus condReason message (raNow e))\<rparr>) latest) w
      in (ok \<and> changed, if terminal phase then log_effect ProxyGone w1 else w1))"

definition updateRestoreStatus :: "restore_env \<Rightarrow> string \<Rightarrow> string \<Rightarrow> restore_world \<Rightarrow> restore_world" where
  "updateRestoreStatus e phase message w = snd (transitionRestoreStatus e phase message w)"

definition AnnotationCypherRestoreIssued :: string where
  "AnnotationCypherRestoreIssued = ''neo4j.com/cypher-restore-issued''"
definition AnnotationCypherRestoreObservedOffline :: string where
  "AnnotationCypherRestoreObservedOffline = ''neo4j.com/cypher-restore-observed-offline''"
definition AnnotationRestorePreHooksRan :: string where
  "AnnotationRestorePreHooksRan = ''neo4j.com/restore-pre-hooks-ran''"
definition AnnotationPointInTimePath :: string where
  "AnnotationPointInTimePath = ''neo4j.com/point-in-time-path''"
definition AnnotationSeedProxyWaitStarted :: string where
  "AnnotationSeedProxyWaitStarted = ''neo4j.com/seed-proxy-wait-started''"

text \<open>
  The writers of annotations write where the stored object differs, and then change the copy;
  an error is returned and leaves the copy as it was.
\<close>

definition set_annotation ::
    "restore_env \<Rightarrow> restore_write \<Rightarrow> string \<Rightarrow> string \<Rightarrow> restore_world \<Rightarrow> string option \<times> restore_world" where
  "set_annotation e k key v w =
     (let f = (\<lambda>r. r\<lparr>rtAnnotations := (rtAnnotations r)(key := Some v)\<rparr>);
          (ok, w1) = (if rtAnnotations (rwStored w) key = Some v then (True, w) else store e k f w)
      in if ok then (None, on_mem f w1) else (Some (raWriteError e), w1))"

definition drop_annotations ::
    "restore_env \<Rightarrow> restore_write \<Rightarrow> string list \<Rightarrow> restore_world \<Rightarrow> string option \<times> restore_world" where
  "drop_annotations e k ks w =
     (let f = (\<lambda>r. r\<lparr>rtAnnotations := fold (\<lambda>key m. m(key := None)) ks (rtAnnotations r)\<rparr>);
          (ok, w1) = (if list_all (\<lambda>key. rtAnnotations (rwStored w) key = None) ks then (True, w)
                      else store e k f w)
      in if ok then (None, on_mem f w1) else (Some (raWriteError e), w1))"

definition markRestorePreHooksRan :: "restore_env \<Rightarrow> restore_world \<Rightarrow> string option \<times> restore_world" where
  "markRestorePreHooksRan e w = set_annotation e WHooks AnnotationRestorePreHooksRan ''true'' w"

definition clearCypherRestoreIssued :: "restore_env \<Rightarrow> restore_world \<Rightarrow> string option \<times> restore_world" where
  "clearCypherRestoreIssued e w =
     drop_annotations e WClear [AnnotationCypherRestoreIssued, AnnotationCypherRestoreObservedOffline,
       AnnotationRestorePreHooksRan, AnnotationPointInTimePath] w"

definition clearSeedProxyWaitStarted :: "restore_env \<Rightarrow> restore_world \<Rightarrow> string option \<times> restore_world" where
  "clearSeedProxyWaitStarted e w = drop_annotations e WUnanchor [AnnotationSeedProxyWaitStarted] w"

text \<open>
  The anchor of a wait: that of the copy, that of the stored object, or a new one; an anchor that
  does not parse is an error.
\<close>

definition markSeedProxyWaitStarted :: "restore_env \<Rightarrow> restore_world \<Rightarrow> int option \<times> restore_world" where
  "markSeedProxyWaitStarted e w =
     (case Option.bind (rtAnnotations (rwMem w) AnnotationSeedProxyWaitStarted) (raParseTime e) of
        Some t \<Rightarrow> (Some t, w)
      | None \<Rightarrow>
          let stamp = (case rtAnnotations (rwStored w) AnnotationSeedProxyWaitStarted of
                         Some raw \<Rightarrow> raw | None \<Rightarrow> raFormat e (raNow e));
              (err, w1) = set_annotation e WAnchor AnnotationSeedProxyWaitStarted stamp w
          in (if err = None then raParseTime e stamp else None, w1))"

definition seedProxyWaitStart :: "restore_env \<Rightarrow> restore_world \<Rightarrow> int option \<times> restore_world" where
  "seedProxyWaitStart e w =
     (case markSeedProxyWaitStarted e w of
        (Some t, w1) \<Rightarrow> (Some t, w1)
      | (None, w1) \<Rightarrow> (rsStart (rtStatus (rwStored w1)), w1))"

definition clearResolvedSource :: "restore_env \<Rightarrow> restore_world \<Rightarrow> string option \<times> restore_world" where
  "clearResolvedSource e w =
     (let f = on_status (\<lambda>s. s\<lparr>rsResolved := None\<rparr>);
          (ok, w1) = (if rsResolved (rtStatus (rwStored w)) = None then (True, w) else store e WUnpin f w)
      in if ok then (None, on_mem f w1) else (Some (raWriteError e), w1))"

text \<open>A snapshot already pinned wins over the one just resolved.\<close>

definition persistResolvedSource ::
    "restore_env \<Rightarrow> resolved_source \<Rightarrow> restore_world \<Rightarrow> string option \<times> restore_world" where
  "persistResolvedSource e snapshot w =
     (let pin = (\<lambda>r. on_status (\<lambda>s. s\<lparr>rsResolved := Some r\<rparr>)) in
      case rsResolved (rtStatus (rwStored w)) of
        Some r \<Rightarrow>
          if rvStorage r \<noteq> None then (None, on_mem (pin r) w)
          else (let (ok, w1) = store e WPin (pin snapshot) w
                in if ok then (None, on_mem (pin snapshot) w1) else (Some (raWriteError e), w1))
      | None \<Rightarrow>
          (let (ok, w1) = store e WPin (pin snapshot) w
           in if ok then (None, on_mem (pin snapshot) w1) else (Some (raWriteError e), w1)))"


section \<open>The backup a restore reads\<close>

definition runStartedAfter :: "backup_run \<Rightarrow> backup_run \<Rightarrow> bool" where
  "runStartedAfter a b = (case (brStart a, brStart b) of (Some x, Some y) \<Rightarrow> x > y | _ \<Rightarrow> False)"

text \<open>One round of the loop of \<^verbatim>\<open>restoreRunIndex\<close>; the two indices are \<^verbatim>\<open>latest\<close> and \<^verbatim>\<open>covering\<close>.\<close>

definition scan_run :: "int option \<Rightarrow> backup_run list \<Rightarrow> nat option \<times> nat option \<Rightarrow> nat \<Rightarrow> nat option \<times> nat option" where
  "scan_run pointInTime history found i =
     (let run = history ! i; (latest, covering) = found in
      if brStatus run \<noteq> ''Succeeded'' then found
      else
        let latest1 = (case latest of
                         None \<Rightarrow> Some i
                       | Some j \<Rightarrow> if runStartedAfter run (history ! j) then Some i else latest)
        in case (pointInTime, brStart run) of
             (Some p, Some s) \<Rightarrow>
               if s < p then (latest1, covering)
               else (latest1, (case covering of
                                 None \<Rightarrow> Some i
                               | Some j \<Rightarrow> if runStartedAfter (history ! j) run then Some i else covering))
           | _ \<Rightarrow> (latest1, covering))"

definition restoreRunIndex :: "backup_run list \<Rightarrow> int option \<Rightarrow> nat option" where
  "restoreRunIndex history pointInTime =
     (case foldl (scan_run pointInTime history) (None, None) [0..<length history] of
        (_, Some i) \<Rightarrow> Some i
      | (latest, None) \<Rightarrow> latest)"

text \<open>The runs that hold every transaction before a point in time.\<close>

definition covers :: "int \<Rightarrow> backup_run \<Rightarrow> bool" where
  "covers p run = (brStatus run = ''Succeeded'' \<and> (case brStart run of Some s \<Rightarrow> p \<le> s | None \<Rightarrow> False))"

lemma scan_covering:
  "case snd (foldl (scan_run (Some p) history) (None, None) [0..<n]) of
     None \<Rightarrow> \<forall>j<n. \<not> covers p (history ! j)
   | Some i \<Rightarrow> i < n \<and> covers p (history ! i) \<and>
       (\<forall>j<n. covers p (history ! j) \<longrightarrow> \<not> runStartedAfter (history ! i) (history ! j))"
proof (induction n)
  case (Suc n)
  obtain l c where f: "foldl (scan_run (Some p) history) (None, None) [0..<n] = (l, c)" by fastforce
  show ?case
  proof (cases "covers p (history ! n)")
    case False
    then have "snd (scan_run (Some p) history (l, c) n) = c"
      by (auto simp: scan_run_def Let_def covers_def split: option.splits)
    then show ?thesis using Suc f False by (auto simp: less_Suc_eq split: option.splits)
  next
    case True
    then obtain s where s: "brStart (history ! n) = Some s" "brStatus (history ! n) = ''Succeeded''" "p \<le> s"
      by (auto simp: covers_def split: option.splits)
    have "snd (scan_run (Some p) history (l, c) n) =
        (case c of None \<Rightarrow> Some n | Some j \<Rightarrow> if runStartedAfter (history ! j) (history ! n) then Some n else c)"
      using s by (simp add: scan_run_def Let_def)
    then show ?thesis
      using Suc f True s
      by (auto simp: less_Suc_eq runStartedAfter_def covers_def split: option.splits if_splits) fastforce+
  qed
qed simp

text \<open>
  With a point in time a restore reads the earliest run that holds every transaction before it, when
  there is one.
\<close>

lemma restoreRunIndex_covers:
  assumes "j < length history" "covers p (history ! j)"
  obtains i where "restoreRunIndex history (Some p) = Some i" "i < length history" "covers p (history ! i)"
    "\<And>j. j < length history \<Longrightarrow> covers p (history ! j) \<Longrightarrow> \<not> runStartedAfter (history ! i) (history ! j)"
proof -
  obtain l c where f: "foldl (scan_run (Some p) history) (None, None) [0..<length history] = (l, c)" by fastforce
  then obtain i where i: "c = Some i"
    using scan_covering[where n = "length history" and p = p and history = history] assms
    by (auto split: option.splits)
  have "restoreRunIndex history (Some p) = Some i" by (simp add: restoreRunIndex_def f i)
  then show thesis
    using scan_covering[where n = "length history" and p = p and history = history] f i that by auto
qed

definition resolvedBackupSnapshot :: "restore \<Rightarrow> resolved_source option" where
  "resolvedBackupSnapshot r =
     (case rsResolved (rtStatus r) of
        Some rs \<Rightarrow> if rvStorage rs \<noteq> None then Some rs else None
      | None \<Rightarrow> None)"

text \<open>What is pinned: the location, and of the chosen run the artifacts and times.\<close>

definition snapshot_of ::
    "restore \<Rightarrow> storage_location \<Rightarrow> string \<Rightarrow> (backup_run list \<times> bool) option \<Rightarrow> resolved_source" where
  "snapshot_of r storage backupPath history =
     (let bare = \<lparr>rvBackupRef = rtBackupRef r, rvStorage = Some storage, rvBackupPath = backupPath,
                  rvArtifactFilename = [], rvArtifactType = [], rvArtifacts = [], rvSharded = [],
                  rvCreatedAt = None, rvStartedAt = None\<rparr>
      in case history of
           None \<Rightarrow> bare
         | Some (runs, onlyFull) \<Rightarrow>
             (case restoreRunIndex runs (rtPointInTime r) of
                None \<Rightarrow> bare
              | Some i \<Rightarrow>
                  let run = runs ! i in
                  bare\<lparr>rvArtifactFilename := brArtifact run,
                       rvArtifactType := (if brType run = [] \<and> onlyFull then ''FULL'' else brType run),
                       rvArtifacts := brArtifacts run, rvSharded := brSharded run,
                       rvCreatedAt := brCompletion run, rvStartedAt := brStart run\<rparr>))"

definition long_dash :: string where "long_dash = [CHR 0xE2, CHR 0x80, CHR 0x94]"

text \<open>The result to return, or \<^verbatim>\<open>None\<close> when the restore may go on.\<close>

definition ensureResolvedBackupSource :: "restore_env \<Rightarrow> restore_world \<Rightarrow> restore_result option \<times> restore_world" where
  "ensureResolvedBackupSource e w =
     (let r = rwMem w in
      if rtSourceType r \<noteq> ''backup'' \<or> resolvedBackupSnapshot r \<noteq> None then (None, w)
      else case raBackup e of
             Inl (True, err) \<Rightarrow>
               (Some Requeue, updateRestoreStatus e StatusPending (''Waiting for backup to complete: '' @ err) w)
           | Inl (False, err) \<Rightarrow>
               let msg = ''Failed to resolve backupRef '' @ go_quoted (rtBackupRef r) @ '': '' @ err @
                         ''. If the Neo4jBackup CR was deleted, restore directly from the artifacts with source.type=storage (set source.storage to the backup's location and source.backupPath to the .backup file path) '' @
                         long_dash @ '' do NOT recreate the Neo4jBackup CR, which would trigger a new backup into the same path.''
               in (Some (Failing msg), updateRestoreStatus e StatusFailed msg w)
           | Inr (storage, backupPath) \<Rightarrow>
               (case persistResolvedSource e (snapshot_of r storage backupPath (raHistory e)) w of
                  (Some err, w1) \<Rightarrow> (Some (Failing err), w1)
                | (None, w1) \<Rightarrow> (None, w1)))"

section \<open>Online or offline\<close>

definition pointInTimeCovered :: "restore \<Rightarrow> resolved_source option \<Rightarrow> bool" where
  "pointInTimeCovered r snap =
     (case (rtPointInTime r, snap) of
        (Some p, Some s) \<Rightarrow> (case rvStartedAt s of Some t \<Rightarrow> \<not> t < p | None \<Rightarrow> False)
      | _ \<Rightarrow> False)"

text \<open>
  Why a point in time cannot be restored online, in the order of the code's cases; empty when it
  can. The time is formatted where a point in time is set, which the case before it ensures.
\<close>

definition pointInTimeOnlineBlocker ::
    "(int \<Rightarrow> string) \<Rightarrow> restore \<Rightarrow> resolved_source option \<Rightarrow> bool \<Rightarrow> bool \<Rightarrow> string" where
  "pointInTimeOnlineBlocker fmt r snap calver exists =
     (if rtSourceType r = ''pitr''
      then ''source.type pitr replays separately stored transaction logs, which only neo4j-admin does''
      else if rtAllDatabases r
      then ''an all-databases restore recreates the databases that exist, and Neo4j restores to a point in time only when creating a database''
      else if rtSourceType r \<noteq> ''backup''
      then ''source.type '' @ go_quoted (rtSourceType r) @ '' names a path, so the operator cannot tell which backup in it holds the point in time''
      else if \<not> calver
      then ''Neo4j 5.26 cannot seed a database to a point in time (seedRestoreUntil arrived with CalVer)''
      else case snap of
             None \<Rightarrow> ''the backup's location is not resolved yet''
           | Some s \<Rightarrow>
               (case rvStorage s of
                  None \<Rightarrow> ''the backup's location is not resolved yet''
                | Some storage \<Rightarrow>
                    if slType storage = ''pvc''
                    then ''the backup is on a PVC, which the seed proxy serves over HTTP, and Neo4j restores a seed to a point in time only from cloud storage''
                    else if \<not> pointInTimeCovered r snap
                    then ''no run of Neo4jBackup '' @ go_quoted (rvBackupRef s) @ '' started at or after '' @
                         (case rtPointInTime r of Some p \<Rightarrow> fmt p | None \<Rightarrow> []) @
                         '', so none is known to hold every transaction up to it''
                    else if rvArtifactFilename s = []
                    then ''Neo4jBackup '' @ go_quoted (rvBackupRef s) @ '' did not record the artifact of the run that holds the point in time''
                    else if exists
                    then ''database '' @ go_quoted (rtDatabase r) @ '' exists, and Neo4j restores to a point in time only when creating a database (seedRestoreUntil is a CREATE DATABASE option); restore under a new name''
                    else []))"

definition pointInTimeOfflineReason :: "restore \<Rightarrow> string" where
  "pointInTimeOfflineReason r =
     (case rtAnnotations r AnnotationPointInTimePath of
        None \<Rightarrow> ''a point-in-time restore runs online only once the operator has checked it can (CalVer, cloud storage, a new database)''
      | Some path \<Rightarrow> if path = ''online'' then [] else trim_prefix path ''offline: '')"

definition target_kind :: "restore_target \<Rightarrow> string" where
  "target_kind t = (if rgStandalone t then ''standalone'' else ''cluster'')"

definition is_calver_image :: "restore_target \<Rightarrow> bool" where
  "is_calver_image t =
     (case GetImageVersion (rgRepo t @ '':'' @ rgTag t) of Inr v \<Rightarrow> IsCalver v | Inl _ \<Rightarrow> False)"

text \<open>
  The decision, made once per attempt and recorded. The target's databases are asked only when
  nothing else stands in the way.
\<close>

definition decidePointInTimePath :: "restore_env \<Rightarrow> restore_world \<Rightarrow> restore_result option \<times> restore_world" where
  "decidePointInTimePath e w =
     (let r = rwMem w; t = raTarget e in
      if rtPointInTime r = None \<and> rtSourceType r \<noteq> ''pitr'' then (None, w)
      else if rtAnnotations r AnnotationPointInTimePath \<noteq> None then (None, w)
      else case raTargetError e of
             Some err \<Rightarrow> (Some (Failing err), w)
           | None \<Rightarrow>
               let snap = resolvedBackupSnapshot r; calver = is_calver_image t;
                   why0 = pointInTimeOnlineBlocker (raFormat e) r snap calver False;
                   why1 = (if why0 = [] \<and> rgStandalone t \<and> rgHeldBy t = Some (rtName r)
                           then ''this restore already holds the standalone stopped for an offline restore'' else why0);
                   asked = (if why1 \<noteq> [] then Inr why1
                            else case raExists e (rtDatabase r) of
                                   Inl (_, err) \<Rightarrow> Inl err
                                 | Inr exists \<Rightarrow> Inr (pointInTimeOnlineBlocker (raFormat e) r snap calver exists))
               in case asked of
                    Inl err \<Rightarrow>
                      (Some Requeue, updateRestoreStatus e StatusPending
                         (''Checking whether database '' @ go_quoted (rtDatabase r) @ '' exists on '' @ target_kind t @
                          '' '' @ go_quoted (rgName t) @ '' before a point-in-time restore: '' @ err) w)
                  | Inr why \<Rightarrow>
                      (case set_annotation e WPath AnnotationPointInTimePath
                              (if why = [] then ''online'' else ''offline: '' @ why) w of
                         (Some err, w1) \<Rightarrow> (Some (Failing err), w1)
                       | (None, w1) \<Rightarrow>
                           if why \<noteq> [] \<and> \<not> rgStandalone t
                           then let msg = ''point-in-time restore into cluster '' @ go_quoted (rgName t) @
                                          '' cannot run: '' @ why @ ''. A cluster restores only online''
                                in (Some Stop, log_effect (RestoreEvent ''RestoreFailed'' msg)
                                                 (updateRestoreStatus e StatusFailed msg w1))
                           else (None, w1)))"

definition restoreSourceDatabase :: "restore \<Rightarrow> string" where
  "restoreSourceDatabase r = (if rtSourceDatabase r \<noteq> [] then rtSourceDatabase r else rtDatabase r)"

definition restoreSeedArtifacts :: "restore \<Rightarrow> resolved_source \<Rightarrow> db_artifact list" where
  "restoreSeedArtifacts r snap =
     (if rtAllDatabases r then filter (\<lambda>a. \<not> equal_fold (daDatabase a) ''system'') (rvArtifacts snap)
      else if rvArtifactFilename snap \<noteq> []
      then [\<lparr>daDatabase = restoreSourceDatabase r, daFilename = rvArtifactFilename snap,
             daType = rvArtifactType snap\<rparr>]
      else filter (\<lambda>a. equal_fold (daDatabase a) (restoreSourceDatabase r)) (rvArtifacts snap))"

text \<open>\<open>identity\<close>: the standalone could be read and has a pod identity.\<close>

definition standaloneOfflineReason :: "restore \<Rightarrow> bool \<Rightarrow> string" where
  "standaloneOfflineReason r identity =
     (let pit = (if rtSourceType r = ''pitr'' \<or> rtPointInTime r \<noteq> None then pointInTimeOfflineReason r else []) in
      if pit \<noteq> [] then pit
      else if rtSourceType r \<noteq> ''backup''
      then ''source.type '' @ go_quoted (rtSourceType r) @ '' gives a path, which may be a directory or part of a backup chain; only neo4j-admin resolves those''
      else case resolvedBackupSnapshot r of
             None \<Rightarrow> ''the backup's location is not resolved yet''
           | Some snap \<Rightarrow>
               if slType (the (rvStorage snap)) \<noteq> ''pvc'' \<and> slCredentials (the (rvStorage snap)) = [] \<and> \<not> identity
               then ''the backup's cloud storage authenticates by pod identity (no credentialsSecretRef); online, the standalone's own pod fetches the seed, and it has no workload identity (set spec.podServiceAccountAnnotations on the standalone to give it one), while the restore Job's ServiceAccount can''
               else let artifacts = restoreSeedArtifacts r snap in
                    if artifacts = []
                    then ''Neo4jBackup '' @ go_quoted (rvBackupRef snap) @ '' did not record the artifact to seed from''
                    else (case find (\<lambda>a. daFilename a = []) artifacts of
                            Some a \<Rightarrow> ''Neo4jBackup '' @ go_quoted (rvBackupRef snap) @
                                      '' did not record the artifact for database '' @ go_quoted (daDatabase a)
                          | None \<Rightarrow> []))"

definition restoreRunsOffline :: "restore \<Rightarrow> bool \<Rightarrow> bool \<Rightarrow> bool" where
  "restoreRunsOffline r isTrueCluster identity = (\<not> isTrueCluster \<and> standaloneOfflineReason r identity \<noteq> [])"

text \<open>The path is pinned to the one the restore started on.\<close>

definition restoreOnJobPath :: "restore_env \<Rightarrow> restore \<Rightarrow> bool \<Rightarrow> bool" where
  "restoreOnJobPath e r isTrueCluster =
     (if isTrueCluster then False
      else if raStandaloneRead e \<and> rgHeldBy (raTarget e) = Some (rtName r) then True
      else if rtAnnotations r AnnotationCypherRestoreIssued \<noteq> None \<or> rsResults (rtStatus r) \<noteq> [] then False
      else restoreRunsOffline r False (raStandaloneRead e \<and> rgIdentity (raTarget e)))"

end
