(* ===== verification/Restore_All.thy ===== *)
theory Restore_All
  imports Restore_Source
begin

text \<open>
  The online restore of every database of a backup
  (\<^verbatim>\<open>src/internal/controller/neo4jrestore_alldatabases.go\<close>), with the routing of \<^verbatim>\<open>Reconcile\<close> and
  \<^verbatim>\<open>startRestore\<close> that leads to it. One database is acted on per pass: its seed is sent once, recorded
  as Running, and polled until every allocation is online. The restores of one database and the Job
  of an offline restore are not modelled; a pass that takes those ways is \<open>Elsewhere\<close>.
\<close>

section \<open>The seeds' location\<close>

definition userDatabasesFromArtifacts :: "db_artifact list \<Rightarrow> string list" where
  "userDatabasesFromArtifacts arts =
     map daDatabase (filter (\<lambda>a. \<not> equal_fold (daDatabase a) ''system'') arts)"

definition filenameForDB :: "db_artifact list \<Rightarrow> string \<Rightarrow> string" where
  "filenameForDB arts db = (case find (\<lambda>a. daDatabase a = db) arts of Some a \<Rightarrow> daFilename a | None \<Rightarrow> [])"

definition slash :: char where "slash = CHR ''/''"

definition buildSeedURIFromBackupStorage :: "storage_location \<Rightarrow> string \<Rightarrow> string + string" where
  "buildSeedURIFromBackupStorage storage backupPath =
     (let full = (if slPath storage \<noteq> [] \<and> backupPath \<noteq> []
                  then trim_right (\<lambda>c. c = slash) (slPath storage) @ [slash] @ backupPath
                  else if slPath storage \<noteq> [] then slPath storage else backupPath);
          fullPath = (if full \<noteq> [] \<and> last full = slash then full else full @ [slash]);
          uri = (\<lambda>scheme. scheme @ slBucket storage @ [slash] @ dropWhile (\<lambda>c. c = slash) fullPath)
      in if slType storage = ''s3'' then Inr (uri ''s3://'')
         else if slType storage = ''gcs'' then Inr (uri ''gs://'')
         else if slType storage = ''azure'' then Inr (uri ''azb://'')
         else if slType storage \<in> set [''pvc'', []]
         then Inl (''seedBackupRef requires cloud-backed backup storage (s3, gcs, azure); got '' @
                   go_quoted (slType storage) @ '' '' @ long_dash @
                   '' copy backup artifacts to a cloud bucket or set spec.seedURI manually'')
         else Inl (''seedBackupRef does not support storage type '' @ go_quoted (slType storage)))"

definition escapeURLPathSegments :: "(string \<Rightarrow> string) \<Rightarrow> string \<Rightarrow> string" where
  "escapeURLPathSegments esc p = join [slash] (map esc (split_on slash p))"

definition pvcSeedProxyURL :: "(string \<Rightarrow> string) \<Rightarrow> string \<Rightarrow> string \<Rightarrow> string \<Rightarrow> string \<Rightarrow> string" where
  "pvcSeedProxyURL esc ownerName namespace backupsPath filename =
     ''http://backup-seed-proxy-'' @ ownerName @ ''.'' @ namespace @ ''.svc.cluster.local:8080/'' @
     escapeURLPathSegments esc backupsPath @ [slash] @ esc filename"

text \<open>A plan to merge exists when an artifact is not known to be a full backup.\<close>

definition merges :: "db_artifact list \<Rightarrow> bool" where
  "merges arts = list_ex (\<lambda>a. \<not> equal_fold (daDatabase a) ''system'' \<and> daType a \<noteq> ''FULL'') arts"

definition nanos :: "int \<Rightarrow> int" where "nanos seconds = seconds * 1000000000"

definition seedProxyBudget :: "(string \<Rightarrow> int option) \<Rightarrow> restore \<Rightarrow> bool \<Rightarrow> int" where
  "seedProxyBudget parse r merging =
     (let fallback = (if merging then nanos (30 * 60) else nanos (3 * 60)) in
      if rtTimeout r = [] then fallback
      else case parse (rtTimeout r) of
             Some d \<Rightarrow> if d > 0 then d else fallback
           | None \<Rightarrow> fallback)"

section \<open>Waiting until the servers can fetch the seeds\<close>

definition seedConfigMissingMessage :: "restore_target \<Rightarrow> string list \<Rightarrow> string" where
  "seedConfigMissingMessage t missing =
     target_kind t @ '' '' @ go_quoted (rgName t) @ [quote] @ ''s server pods can't reach the seed source: missing '' @
     join ''; '' missing @ ''. The server JVM fetches the seed itself. Provide these on the '' @ target_kind t @
     '' CR, or set annotation neo4j.com/auto-inherit-seed-creds='' @ go_quoted ''true'' @
     '' on it to let the operator inject them (one rolling restart). This restore waits and carries on by itself once they are there.''"

definition awaitSeedConfig :: "restore_env \<Rightarrow> string list \<Rightarrow> restore_world \<Rightarrow> restore_world" where
  "awaitSeedConfig e missing w =
     (let msg = seedConfigMissingMessage (raTarget e) missing; s = rtStatus (rwMem w) in
      if rsPhase s \<noteq> StatusPending \<or> rsMessage s \<noteq> msg
      then (case transitionRestoreStatus e StatusPending msg w of
              (True, w1) \<Rightarrow> log_effect (RestoreEvent ''SeedEndpointNotProjected'' msg) w1
            | (False, w1) \<Rightarrow> w1)
      else w)"

definition rolled_or_message :: "string + bool \<Rightarrow> string \<Rightarrow> string option" where
  "rolled_or_message answer msg =
     (case answer of
        Inr True \<Rightarrow> None
      | Inr False \<Rightarrow> Some msg
      | Inl err \<Rightarrow> Some (msg @ '' (rollout check pending: '' @ err @ '')''))"

definition awaitSeedIdentity :: "restore_env \<Rightarrow> storage_location \<Rightarrow> string option" where
  "awaitSeedIdentity e storage =
     (let t = raTarget e in
      if \<not> rgStandalone t \<or> slType storage = ''pvc'' \<or> slCredentials storage \<noteq> [] then None
      else rolled_or_message (raIdentityRolled e)
             (''Waiting for standalone '' @ go_quoted (rgName t) @ [quote] @ ''s pod to run under ServiceAccount '' @
              go_quoted (rgServiceAccount t) @ '', which carries its workload identity''))"

text \<open>The first of the waits that is not over; its message.\<close>

definition seed_rollout_wait :: "restore_env \<Rightarrow> storage_location \<Rightarrow> string option" where
  "seed_rollout_wait e storage =
     (let t = raTarget e;
          creds = (if slCredentials storage = [] then None
                   else rolled_or_message (raCredsRolled e)
                          (''Waiting for '' @ target_kind t @ '' '' @ go_quoted (rgName t) @
                           '' pods to roll out seed credentials Secret '' @ go_quoted (slCredentials storage)));
          endpoint = (if slType storage = ''s3'' \<and> slEndpoint storage \<noteq> [] \<and> rgEnvEndpoint t
                      then rolled_or_message (raEndpointRolled e)
                             (''Waiting for '' @ target_kind t @ '' '' @ go_quoted (rgName t) @
                              '' pods to roll out the S3 endpoint'')
                      else None)
      in case creds of
           Some msg \<Rightarrow> Some msg
         | None \<Rightarrow> (case endpoint of Some msg \<Rightarrow> Some msg | None \<Rightarrow> awaitSeedIdentity e storage))"

definition ensureClusterSeedConfigReady ::
    "restore_env \<Rightarrow> storage_location \<Rightarrow> restore_world \<Rightarrow> restore_result option \<times> restore_world" where
  "ensureClusterSeedConfigReady e storage w =
     (let t = raTarget e; wait = (\<lambda>msg. (Some Requeue, updateRestoreStatus e StatusPending msg w)) in
      case raProjection e of
        MissingSeedConfig missing \<Rightarrow> (Some Requeue, awaitSeedConfig e missing w)
      | ProjectionError err \<Rightarrow>
          wait (''Retrying projection of seed configuration onto '' @ target_kind t @ '' '' @ go_quoted (rgName t) @ '': '' @ err)
      | Projected \<Rightarrow>
          wait (''Projected seed configuration onto '' @ target_kind t @ '' '' @ go_quoted (rgName t) @
                ''; waiting for the rolling restart'')
      | NothingMissing \<Rightarrow>
          (case seed_rollout_wait e storage of Some msg \<Rightarrow> wait msg | None \<Rightarrow> (None, w)))"

definition proxy_wait_over :: "restore_env \<Rightarrow> int option \<Rightarrow> int \<Rightarrow> bool" where
  "proxy_wait_over e start budget = (case start of Some t \<Rightarrow> raNow e - t > budget | None \<Rightarrow> False)"

definition ensurePVCSeedProxyReady ::
    "restore_env \<Rightarrow> (int \<Rightarrow> string) \<Rightarrow> storage_location \<Rightarrow> bool \<Rightarrow> restore_world \<Rightarrow> restore_result option \<times> restore_world" where
  "ensurePVCSeedProxyReady e showDuration storage merging w =
     (if slPVC storage = []
      then let msg = ''PVC-backed all-databases restore requires storage.pvc.name to be set''
           in (Some (Failing msg), updateRestoreStatus e StatusFailed msg w)
      else case raProxy e of
             Inl err \<Rightarrow> let msg = ''ensure PVC seed proxy: '' @ err
                        in (Some (Failing msg), updateRestoreStatus e StatusFailed msg w)
           | Inr True \<Rightarrow> (None, snd (clearSeedProxyWaitStarted e w))
           | Inr False \<Rightarrow>
               if raMergeFailure e \<noteq> []
               then let msg = ''the seed proxy could not merge the backup chain: '' @ raMergeFailure e
                    in (Some Stop, log_effect (RestoreEvent ''RestoreFailed'' msg) (updateRestoreStatus e StatusFailed msg w))
               else
                 let (start, w1) = seedProxyWaitStart e w;
                     budget = seedProxyBudget (raParseDuration e) (rwMem w) merging
                 in if proxy_wait_over e start budget
                    then let msg = ''backup-seed-proxy Deployment did not become Ready within '' @ showDuration budget @
                                   '': '' @ raDiagnosis e @ '' '' @ long_dash @ '' a common cause is the backup PVC ('' @ slPVC storage @
                                   '') being ReadWriteOnce and still attached elsewhere; fix the cause and re-trigger by bumping the spec''
                         in (Some Stop, log_effect (RestoreEvent ''RestoreFailed'' msg) (updateRestoreStatus e StatusFailed msg w1))
                    else (Some Requeue, updateRestoreStatus e StatusPending
                            (''Waiting for backup-seed-proxy Deployment to become Ready ('' @ raDiagnosis e @ '')'') w1))"

section \<open>The results of the databases\<close>

definition ensureDatabaseResults :: "string list \<Rightarrow> db_result list \<Rightarrow> db_result list" where
  "ensureDatabaseResults dbs results =
     results @ map (\<lambda>db. \<lparr>drDatabase = db, drPhase = StatusPending, drMessage = [], drCompletion = None\<rparr>)
                 (filter (\<lambda>db. db \<notin> drDatabase ` set results) dbs)"

fun mark_first :: "string \<Rightarrow> string \<Rightarrow> string \<Rightarrow> int \<Rightarrow> db_result list \<Rightarrow> db_result list" where
  "mark_first db phase message now [] = []"
| "mark_first db phase message now (r # rs) =
     (if drDatabase r = db
      then r\<lparr>drPhase := phase, drMessage := message,
             drCompletion := (if terminal phase then Some now else drCompletion r)\<rparr> # rs
      else r # mark_first db phase message now rs)"

definition allDatabasesRestoreStartedMessage :: "db_result list \<Rightarrow> string" where
  "allDatabasesRestoreStartedMessage results =
     ''All-databases restore started: '' @ nat_str (length results) @ '' database(s), '' @
     join '', '' (map (\<lambda>r. go_quoted (drDatabase r)) (take 10 results)) @
     (if length results > 10 then '' and '' @ nat_str (length results - 10) @ '' more'' else []) @
     ''; each one's progress is in status.databaseResults''"

definition set_results :: "db_result list \<Rightarrow> restore \<Rightarrow> restore" where
  "set_results results = on_status (\<lambda>s. s\<lparr>rsResults := results\<rparr>)"

text \<open>
  \<^verbatim>\<open>markDatabaseResult\<close> changes the copy and writes the copy's whole list of results over the
  stored one; an error of the write is logged and not returned.
\<close>

definition markDatabaseResult :: "restore_env \<Rightarrow> string \<Rightarrow> string \<Rightarrow> string \<Rightarrow> restore_world \<Rightarrow> restore_world" where
  "markDatabaseResult e db phase message w =
     (let results = mark_first db phase message (raNow e) (rsResults (rtStatus (rwMem w)));
          latest = rtStatus (rwStored w);
          old = (case find (\<lambda>r. drDatabase r = db) (List.rev (rsResults latest)) of Some r \<Rightarrow> drPhase r | None \<Rightarrow> []);
          started = list_ex (\<lambda>r. drPhase r \<noteq> [] \<and> drPhase r \<noteq> StatusPending) (rsResults latest);
          alreadyStarted = (rsPhase latest = StatusRunning \<or> started);
          newPhase = (if terminal (rsPhase latest) then rsPhase latest else StatusRunning);
          (ok, w1) = store e WResult (on_status (\<lambda>s. s\<lparr>rsResults := results, rsPhase := newPhase\<rparr>))
                       (on_mem (set_results results) w)
      in if \<not> ok then w1
         else let w2 = (if \<not> alreadyStarted \<and> newPhase = StatusRunning
                        then log_effect (RestoreEvent ''RestoreStarted'' (allDatabasesRestoreStartedMessage results)) w1 else w1)
              in if phase = StatusFailed \<and> old \<noteq> StatusFailed
                 then log_effect (RestoreEvent ''RestoreDatabaseFailed''
                        (''All-databases restore: database '' @ go_quoted db @ '' failed: '' @ message)) w2
                 else w2)"

definition seedingProgressMessage :: "string + int \<times> int \<Rightarrow> string" where
  "seedingProgressMessage answer =
     (case answer of
        Inl err \<Rightarrow> ''seeding from backup; last status poll FAILED: '' @ err
      | Inr (online, allocs) \<Rightarrow>
          if allocs = 0 then ''seeding from backup; database has no allocations yet (recreate in progress)''
          else ''seeding from backup; '' @ itoa online @ ''/'' @ itoa allocs @ '' allocations online'')"

definition noteDatabaseProgress :: "restore_env \<Rightarrow> string \<Rightarrow> string \<Rightarrow> restore_world \<Rightarrow> restore_world" where
  "noteDatabaseProgress e db message w =
     (case find (\<lambda>r. drDatabase r = db) (rsResults (rtStatus (rwMem w))) of
        Some r \<Rightarrow> if drMessage r = message then w else markDatabaseResult e db StatusRunning message w
      | None \<Rightarrow> markDatabaseResult e db StatusRunning message w)"

definition roughDuration :: "int \<Rightarrow> string" where
  "roughDuration d =
     (let minutes = (d + nanos 30) div nanos 60 in
      if minutes < 1 then ''under a minute''
      else if minutes < 60 then itoa minutes @ ''m''
      else itoa (minutes div 60) @ ''h'' @ (if minutes mod 60 < 10 then ''0'' else []) @ itoa (minutes mod 60) @ ''m'')"

definition seedProgressSummary :: "db_result list \<Rightarrow> string \<Rightarrow> string \<Rightarrow> int \<Rightarrow> string" where
  "seedProgressSummary results database progress unchanged =
     nat_str (length (filter (\<lambda>r. drPhase r = StatusCompleted) results)) @ '' of '' @ nat_str (length results) @
     '' database(s) restored, '' @ nat_str (length (filter (\<lambda>r. drPhase r = StatusFailed) results)) @
     '' failed; seeding '' @ go_quoted database @ '': '' @ trim_prefix progress ''seeding from backup; '' @
     '', unchanged for '' @ roughDuration unchanged"

definition announce :: "restore_env \<Rightarrow> string \<Rightarrow> string \<Rightarrow> restore_world \<Rightarrow> restore_world" where
  "announce e database progress w =
     (if \<not> raRecorder e then w
      else
        let now = raNow e;
            fresh = \<lparr>snAnnounced = None, snDatabase = database, snProgress = progress, snSince = now\<rparr>;
            n = (case rwNote w of
                   Some n \<Rightarrow> if raSwept e then fresh
                             else if snDatabase n \<noteq> database \<or> snProgress n \<noteq> progress
                             then n\<lparr>snDatabase := database, snProgress := progress, snSince := now\<rparr> else n
                 | None \<Rightarrow> fresh);
            due = (case snAnnounced n of None \<Rightarrow> True | Some t \<Rightarrow> now - t \<ge> nanos (10 * 60));
            summary = seedProgressSummary (rsResults (rtStatus (rwMem w))) database progress (now - snSince n)
        in if due
           then log_effect (RestoreEvent ''RestoreSeedProgress'' summary) (w\<lparr>rwNote := Some (n\<lparr>snAnnounced := Some now\<rparr>)\<rparr>)
           else w\<lparr>rwNote := Some n\<rparr>)"

text \<open>
  The uncached check before a seed is sent: the stored result of the database, the first of its
  name, is still pending or absent.
\<close>

definition issueGuardAllowsRecreate :: "restore_env \<Rightarrow> string \<Rightarrow> restore_world \<Rightarrow> bool" where
  "issueGuardAllowsRecreate e db w =
     (if \<not> raAPIReader e then True
      else if \<not> raUncached e then False
      else case find (\<lambda>r. drDatabase r = db) (rsResults (rtStatus (rwStored w))) of
             Some r \<Rightarrow> drPhase r = [] \<or> drPhase r = StatusPending
           | None \<Rightarrow> True)"


section \<open>A target that does not answer\<close>

definition ConditionTypeClusterNotReady :: string where
  "ConditionTypeClusterNotReady = ''ClusterNotReady''"

definition targetAnswered :: "condition list \<Rightarrow> int \<Rightarrow> int \<Rightarrow> condition list \<times> bool" where
  "targetAnswered conditions generation now =
     (let unchanged = (case findCondition conditions ConditionTypeClusterNotReady of
                         Some c \<Rightarrow> cStatus c = CondFalse \<and> cReason c = ''ClusterReady'' \<and> cMessage c = [] \<and>
                                   cObservedGeneration c = generation
                       | None \<Rightarrow> False)
      in if unchanged then (conditions, False)
         else (fst (SetNamedCondition conditions ConditionTypeClusterNotReady generation CondFalse ''ClusterReady'' [] now), True))"

definition allDatabasesTargetAnswered :: "restore_env \<Rightarrow> restore_world \<Rightarrow> restore_world" where
  "allDatabasesTargetAnswered e w =
     (case findCondition (rsConditions (rtStatus (rwStored w))) ConditionTypeClusterNotReady of
        Some c \<Rightarrow>
          if cStatus c = CondTrue
          then snd (store e WAnswered (\<lambda>latest. on_status (\<lambda>s. s\<lparr>rsConditions :=
                       fst (targetAnswered (rsConditions s) (rtGeneration latest) (raNow e))\<rparr>) latest) w)
          else w
      | None \<Rightarrow> w)"

text \<open>
  The wait is recorded in a condition; past five minutes its message says so, and the write that
  changes the message announces it. Nothing is written when the conditions stay as they are.
\<close>

definition awaited_conditions :: "restore_env \<Rightarrow> string \<Rightarrow> int \<Rightarrow> condition list \<Rightarrow> condition list \<times> bool" where
  "awaited_conditions e cause generation conditions =
     (let t = raTarget e;
          lastingMsg = target_kind t @ '' '' @ go_quoted (rgName t) @
                       '' has not answered for more than 5m0s; the restore waits for it and carries on where it was'';
          previous = (case findCondition conditions ConditionTypeClusterNotReady of Some c \<Rightarrow> cMessage c | None \<Rightarrow> []);
          cs = fst (SetNamedCondition conditions ConditionTypeClusterNotReady generation CondTrue ''ClusterUnreachable''
                      (target_kind t @ '' '' @ go_quoted (rgName t) @ '' does not answer: '' @ cause) (raNow e))
      in case findCondition cs ConditionTypeClusterNotReady of
           Some c \<Rightarrow> if raNow e - cLastTransitionTime c > nanos 300
                     then (upsertCondition cs (c\<lparr>cMessage := lastingMsg\<rparr>), previous \<noteq> lastingMsg)
                     else (cs, False)
         | None \<Rightarrow> (cs, False))"

definition awaitAllDatabasesTarget :: "restore_env \<Rightarrow> string \<Rightarrow> restore_world \<Rightarrow> restore_world" where
  "awaitAllDatabasesTarget e cause w =
     (let t = raTarget e; latest = rwStored w;
          (cs, lasting) = awaited_conditions e cause (rtGeneration latest) (rsConditions (rtStatus latest));
          (ok, w1) = (if cs = rsConditions (rtStatus latest) then (True, w)
                      else store e WAwait (on_status (\<lambda>s. s\<lparr>rsConditions := cs\<rparr>)) w)
      in if ok \<and> lasting
         then log_effect (RestoreEvent ''ConnectionFailed''
                (target_kind t @ '' '' @ go_quoted (rgName t) @
                 '' has not answered for more than 5m0s; the restore waits for it and carries on where it was: '' @ cause)) w1
         else w1)"

section \<open>The pass\<close>

definition restoreOverwriteConfirmed :: "restore \<Rightarrow> bool" where
  "restoreOverwriteConfirmed r = rtReplaceExisting r"

text \<open>The statements are logged as they are sent, whatever Neo4j answers.\<close>

definition send_seed :: "restore_env \<Rightarrow> version \<Rightarrow> string \<Rightarrow> string \<Rightarrow> bool \<Rightarrow> restore_world \<Rightarrow> restore_world" where
  "send_seed e v db seedURI exists w =
     (if exists then
        (if RecreateDatabaseProcedure v = []
         then markDatabaseResult e db StatusFailed
                (''Neo4j '' @ itoa (Major v) @ ''.'' @ itoa (Minor v) @
                 '' does not support dbms.recreateDatabase; DROP DATABASE '' @ go_quoted db @ '' and re-run'') w
         else let w1 = log_effect (Recreated db seedURI) w in
              case raRecreate e db of
                Some err \<Rightarrow> markDatabaseResult e db StatusFailed (''recreateDatabase failed: '' @ err) w1
              | None \<Rightarrow> markDatabaseResult e db StatusRunning ''seeding from backup'' w1)
      else let w1 = log_effect (Created db seedURI) w in
           case raCreate e db of
             Some err \<Rightarrow> markDatabaseResult e db StatusFailed (''CREATE DATABASE with seedURI failed: '' @ err) w1
           | None \<Rightarrow> markDatabaseResult e db StatusRunning ''seeding from backup'' w1)"

definition issue_seed :: "restore_env \<Rightarrow> version \<Rightarrow> string \<Rightarrow> string \<Rightarrow> restore_world \<Rightarrow> restore_world" where
  "issue_seed e v db seedURI w =
     (if \<not> issueGuardAllowsRecreate e db w then w
      else case raExists e db of
             Inl (away, err) \<Rightarrow>
               if away then awaitAllDatabasesTarget e err w
               else updateRestoreStatus e StatusPending (''Checking database '' @ go_quoted db @ '': '' @ err) w
           | Inr exists \<Rightarrow>
               if exists \<and> \<not> restoreOverwriteConfirmed (rwMem w)
               then markDatabaseResult e db StatusFailed
                      ''database already exists; set spec.options.replaceExisting=true to overwrite it during an all-databases restore'' w
               else send_seed e v db seedURI exists w)"

definition all_online :: "string + int \<times> int \<Rightarrow> bool" where
  "all_online answer = (case answer of Inr (online, allocs) \<Rightarrow> allocs > 0 \<and> online = allocs | Inl _ \<Rightarrow> False)"

definition poll_seed :: "restore_env \<Rightarrow> string \<Rightarrow> restore_world \<Rightarrow> restore_world" where
  "poll_seed e db w =
     (if all_online (raOnline e db) then markDatabaseResult e db StatusCompleted ''online'' w
      else let progress = seedingProgressMessage (raOnline e db)
           in announce e db progress (noteDatabaseProgress e db progress w))"

definition finishAllDatabasesRestore :: "restore_env \<Rightarrow> restore_world \<Rightarrow> restore_result \<times> restore_world" where
  "finishAllDatabasesRestore e w =
     (let w0 = on_mem (on_status (\<lambda>s. s\<lparr>rsCompletion := Some (raNow e)\<rparr>)) (w\<lparr>rwNote := None\<rparr>);
          results = rsResults (rtStatus (rwMem w));
          failed = length (filter (\<lambda>r. drPhase r = StatusFailed) results)
      in if failed > 0
         then let msg = nat_str failed @ '' of '' @ nat_str (length results) @
                        '' databases failed to restore; see status.databaseResults'';
                  (entered, w1) = transitionRestoreStatus e StatusFailed msg w0
              in (Stop, if entered then log_effect (RestoreEvent ''RestoreFailed'' (''All-databases restore failed: '' @ msg)) w1 else w1)
         else
           let w1 = (if rtPostRestore (rwMem w) then log_effect (RanHooks ''post-restore'') w0 else w0) in
           case (if rtPostRestore (rwMem w) then raHooks e ''post-restore'' else None) of
             Some err \<Rightarrow> (Failing err, updateRestoreStatus e StatusFailed (''Post-restore hooks failed: '' @ err) w1)
           | None \<Rightarrow>
               let msg = ''Restored '' @ nat_str (length results) @ '' databases'';
                   (entered, w2) = transitionRestoreStatus e StatusCompleted msg w1
               in (Stop, if entered then log_effect (RestoreEvent ''RestoreCompleted'' (''All-databases restore completed: '' @ msg)) w2 else w2))"

text \<open>The loop over the results: the first database that is not done is acted on.\<close>

fun drive_databases ::
    "restore_env \<Rightarrow> version \<Rightarrow> (string \<Rightarrow> string) \<Rightarrow> db_artifact list \<Rightarrow> db_result list \<Rightarrow> restore_world \<Rightarrow>
     restore_result \<times> restore_world" where
  "drive_databases e v seedURIFor arts [] w = finishAllDatabasesRestore e w"
| "drive_databases e v seedURIFor arts (r # rs) w =
     (if terminal (drPhase r) then drive_databases e v seedURIFor arts rs w
      else if filenameForDB arts (drDatabase r) = []
      then (Requeue, markDatabaseResult e (drDatabase r) StatusFailed
              ''no .backup artifact filename recorded for this database in the source backup'' w)
      else if drPhase r = [] \<or> drPhase r = StatusPending
      then (Requeue, issue_seed e v (drDatabase r) (seedURIFor (filenameForDB arts (drDatabase r))) w)
      else if drPhase r = StatusRunning then (Requeue, poll_seed e (drDatabase r) w)
      else drive_databases e v seedURIFor arts rs w)"

definition run_pre_hooks :: "restore_env \<Rightarrow> restore_world \<Rightarrow> restore_result option \<times> restore_world" where
  "run_pre_hooks e w =
     (if rtPreRestore (rwMem w) \<and> rtAnnotations (rwMem w) AnnotationRestorePreHooksRan \<noteq> Some ''true''
      then let w1 = log_effect (RanHooks ''pre-restore'') w in
           (case raHooks e ''pre-restore'' of
              Some err \<Rightarrow> (Some (Failing err), updateRestoreStatus e StatusFailed (''Pre-restore hooks failed: '' @ err) w1)
            | None \<Rightarrow> (case markRestorePreHooksRan e w1 of
                         (Some err, w2) \<Rightarrow> (Some (Failing err), w2)
                       | (None, w2) \<Rightarrow> (None, w2)))
      else (None, w))"

text \<open>What the storage needs before the first seed, and how a seed's address is built from its file name.\<close>

definition prepare_seeds ::
    "restore_env \<Rightarrow> (int \<Rightarrow> string) \<Rightarrow> resolved_source \<Rightarrow> storage_location \<Rightarrow> restore_world \<Rightarrow>
     (restore_result + (string \<Rightarrow> string)) \<times> restore_world" where
  "prepare_seeds e showDuration snap storage w =
     (if slType storage \<in> set [''s3'', ''gcs'', ''azure'']
      then (case ensureClusterSeedConfigReady e storage w of
              (Some res, w1) \<Rightarrow> (Inl res, w1)
            | (None, w1) \<Rightarrow>
                (case buildSeedURIFromBackupStorage storage (rvBackupPath snap) of
                   Inl err \<Rightarrow> (Inl (Failing err), updateRestoreStatus e StatusFailed err w1)
                 | Inr dirURI \<Rightarrow>
                     (Inr (\<lambda>filename. trim_right (\<lambda>c. c = slash) dirURI @ [slash] @ filename), w1)))
      else if slType storage = ''pvc''
      then (case ensurePVCSeedProxyReady e showDuration storage (merges (rvArtifacts snap)) w of
              (Some res, w1) \<Rightarrow> (Inl res, w1)
            | (None, w1) \<Rightarrow>
                (Inr (\<lambda>filename. pvcSeedProxyURL (raPathEscape e) (rtName (rwMem w)) (rtNamespace (rwMem w))
                                   (rvBackupPath snap) filename), w1))
      else let msg = ''all-databases restore does not support storage type '' @ go_quoted (slType storage) @
                     '' (expected s3, gcs, azure, or pvc)''
           in (Inl (Failing msg), updateRestoreStatus e StatusFailed msg w))"

definition image_version :: "restore_target \<Rightarrow> version" where
  "image_version t =
     (case GetImageVersion (rgRepo t @ '':'' @ rgTag t) of
        Inr v \<Rightarrow> v
      | Inl _ \<Rightarrow> \<lparr>Major = 5, Minor = 26, Patch = 0, IsCalver = False, Raw = []\<rparr>)"

definition connect_and_drive ::
    "restore_env \<Rightarrow> (string \<Rightarrow> string) \<Rightarrow> db_artifact list \<Rightarrow> restore_world \<Rightarrow> restore_result \<times> restore_world" where
  "connect_and_drive e seedURIFor arts w =
     (case raClient e of
        Some (True, err) \<Rightarrow> (Requeue, awaitAllDatabasesTarget e err w)
      | Some (False, err) \<Rightarrow>
          (Requeue, updateRestoreStatus e StatusPending
             (''Waiting to connect to '' @ target_kind (raTarget e) @ '' '' @ go_quoted (rgName (raTarget e)) @ '': '' @ err) w)
      | None \<Rightarrow>
          let w1 = allDatabasesTargetAnswered e w in
          drive_databases e (image_version (raTarget e)) seedURIFor arts (rsResults (rtStatus (rwMem w1))) w1)"

definition startAllDatabasesRestore ::
    "restore_env \<Rightarrow> (int \<Rightarrow> string) \<Rightarrow> restore_world \<Rightarrow> restore_result \<times> restore_world" where
  "startAllDatabasesRestore e showDuration w =
     (case raTargetError e of
        Some err \<Rightarrow> (Failing err, updateRestoreStatus e StatusFailed (''Target lookup failed: '' @ err) w)
      | None \<Rightarrow>
          (case resolvedBackupSnapshot (rwMem w) of
             None \<Rightarrow> (Requeue, updateRestoreStatus e StatusPending
                        ''Waiting for the backup source to resolve before all-databases restore'' w)
           | Some snap \<Rightarrow>
               let dbs = userDatabasesFromArtifacts (rvArtifacts snap) in
               if dbs = []
               then let msg = ''all-databases restore: the resolved backup recorded no per-database artifacts. The source must be an all-databases backup (spec.allDatabases / target.kind=Cluster) whose per-database map was captured in status.history[*].databaseArtifacts''
                    in (Failing msg, updateRestoreStatus e StatusFailed msg w)
               else case run_pre_hooks e w of
                      (Some res, w1) \<Rightarrow> (res, w1)
                    | (None, w1) \<Rightarrow>
                        let w2 = on_mem (\<lambda>r. set_results (ensureDatabaseResults dbs (rsResults (rtStatus r))) r) w1 in
                        (case prepare_seeds e showDuration snap (the (rvStorage snap)) w2 of
                           (Inl res, w3) \<Rightarrow> (res, w3)
                         | (Inr seedURIFor, w3) \<Rightarrow> connect_and_drive e seedURIFor (rvArtifacts snap) w3)))"

text \<open>
  \<^verbatim>\<open>startRestore\<close>: what a new generation resets, and a pinned source that is no longer the spec's.
  The first error of these writes ends the pass.
\<close>

definition new_attempt :: "restore_env \<Rightarrow> restore_world \<Rightarrow> string option \<times> restore_world" where
  "new_attempt e w =
     (let r = rwMem w in
      if rsObserved (rtStatus r) \<noteq> 0 \<and> rsObserved (rtStatus r) \<noteq> rtGeneration r
      then (case clearCypherRestoreIssued e w of
              (Some err, w1) \<Rightarrow> (Some err, w1)
            | (None, w1) \<Rightarrow> clearSeedProxyWaitStarted e w1)
      else (None, w))"

definition repin :: "restore_env \<Rightarrow> restore_world \<Rightarrow> string option \<times> restore_world" where
  "repin e w =
     (let r = rwMem w in
      case resolvedBackupSnapshot r of
        Some snap \<Rightarrow>
          if rtSourceType r = ''backup'' \<and> rvBackupRef snap \<noteq> rtBackupRef r then clearResolvedSource e w else (None, w)
      | None \<Rightarrow> (None, w))"

definition startRestore :: "restore_env \<Rightarrow> (int \<Rightarrow> string) \<Rightarrow> restore_world \<Rightarrow> restore_result \<times> restore_world" where
  "startRestore e showDuration w =
     (case new_attempt e w of
        (Some err, w1) \<Rightarrow> (Failing err, w1)
      | (None, w1) \<Rightarrow>
          (case repin e w1 of
             (Some err, w2) \<Rightarrow> (Failing err, w2)
           | (None, w2) \<Rightarrow>
               let w3 = on_mem (\<lambda>r. on_status (\<lambda>s. s\<lparr>rsStart := Some (raNow e), rsObserved := rtGeneration r\<rparr>) r) w2 in
               case raValidation e of
                 Some (reads, err) \<Rightarrow>
                   (if reads then Failing err else Stop,
                    updateRestoreStatus e StatusFailed (''Validation failed: '' @ err) w3)
               | None \<Rightarrow>
                   (case ensureResolvedBackupSource e w3 of
                      (Some res, w4) \<Rightarrow> (res, w4)
                    | (None, w4) \<Rightarrow>
                        (case decidePointInTimePath e w4 of
                           (Some res, w5) \<Rightarrow> (res, w5)
                         | (None, w5) \<Rightarrow>
                             (case raLookup e of
                                Some err \<Rightarrow> (Failing err, updateRestoreStatus e StatusFailed (''Target lookup failed: '' @ err) w5)
                              | None \<Rightarrow>
                                  if restoreOnJobPath e (rwMem w5) (\<not> rgStandalone (raTarget e)) \<or> \<not> rtAllDatabases (rwMem w5)
                                  then (Elsewhere, w5)
                                  else startAllDatabasesRestore e showDuration w5)))))"

text \<open>\<^verbatim>\<open>Reconcile\<close>, for a restore that has its finalizer and is not being deleted.\<close>

definition reconcile_restore :: "restore_env \<Rightarrow> (int \<Rightarrow> string) \<Rightarrow> restore_world \<Rightarrow> restore_result \<times> restore_world" where
  "reconcile_restore e showDuration w =
     (let r = rwMem w in
      if restoreEndedAtGeneration r then (Stop, w)
      else if rtInstanceRef r = [] then (Stop, updateRestoreStatus e StatusFailed ''spec.instanceRef is required'' w)
      else case raRef e of
             Some (True, err) \<Rightarrow>
               let msg = ''Waiting for target to appear: '' @ err;
                   (announced, w1) = transitionRestoreStatus e StatusPending msg w
               in (Requeue, if announced then log_effect (RestoreEvent ''ClusterNotFound'' msg) w1 else w1)
           | Some (False, err) \<Rightarrow>
               (Failing err, updateRestoreStatus e StatusFailed (''Failed to get target cluster: '' @ err) w)
           | None \<Rightarrow>
               (case raVersionError e of
                  Some err \<Rightarrow> (Stop, updateRestoreStatus e StatusFailed (''Neo4j version not supported: '' @ err) w)
                | None \<Rightarrow>
                    if rsPhase (rtStatus r) = StatusRunning \<and>
                       (\<not> rtAllDatabases r \<or> (raLookup e = None \<and> restoreOnJobPath e r (\<not> rgStandalone (raTarget e))))
                    then (Elsewhere, w)
                    else startRestore e showDuration w))"

text \<open>A pass on the stored object, or on the copy before its last write.\<close>

definition restore_pass :: "restore_env \<Rightarrow> (int \<Rightarrow> string) \<Rightarrow> bool \<Rightarrow> restore_world \<Rightarrow> restore_result \<times> restore_world" where
  "restore_pass e showDuration stale w =
     reconcile_restore e showDuration (w\<lparr>rwMem := (if stale then rwPrevious w else rwStored w)\<rparr>)"

end
