(* ===== verification/Restore_Safety.thy ===== *)
theory Restore_Safety
  imports Restore_All
begin

text \<open>
  What the restore of all databases achieves and where it goes wrong: every database is seeded at
  most once although passes act on stale copies, a restore completes in two passes per database and
  one more, and the runs in which a seed is sent twice or a retry does nothing.
\<close>

section \<open>Seeds in the log\<close>

fun seed_of :: "restore_effect \<Rightarrow> (string \<times> string) option" where
  "seed_of (Recreated db uri) = Some (db, uri)"
| "seed_of (Created db uri) = Some (db, uri)"
| "seed_of _ = None"

definition seeds :: "restore_world \<Rightarrow> (string \<times> string) list" where
  "seeds w = List.map_filter seed_of (rwLog w)"

definition recreated_dbs :: "restore_world \<Rightarrow> string list" where
  "recreated_dbs w = List.map_filter (\<lambda>x. case x of Recreated db _ \<Rightarrow> Some db | _ \<Rightarrow> None) (rwLog w)"

text \<open>
  The part of a restore that decides what is seeded. All of it but the results is the spec's and
  the pinned source.
\<close>

definition seed_core :: "restore \<Rightarrow> db_result list \<times> resolved_source option \<times> string \<times> string \<times> bool" where
  "seed_core r = (rsResults (rtStatus r), rsResolved (rtStatus r), rtSourceType r, rtBackupRef r, rtReplaceExisting r)"

text \<open>A part of a pass that sends nothing and leaves what is seeded as it is.\<close>

definition quiet :: "restore_world \<Rightarrow> restore_world \<Rightarrow> bool" where
  "quiet w w' \<longleftrightarrow>
     seed_core (rwStored w') = seed_core (rwStored w) \<and> seed_core (rwMem w') = seed_core (rwMem w) \<and>
     seed_core (rwPrevious w') \<in> {seed_core (rwPrevious w), seed_core (rwStored w)} \<and>
     seeds w' = seeds w \<and> recreated_dbs w' = recreated_dbs w"

lemma quiet_refl [simp]: "quiet w w"
  by (simp add: quiet_def)

lemma quiet_trans: "quiet w w1 \<Longrightarrow> quiet w1 w2 \<Longrightarrow> quiet w w2"
  by (auto simp: quiet_def)

lemma seeds_log [simp]:
  "seeds (log_effect x w) = seeds w @ (case seed_of x of Some s \<Rightarrow> [s] | None \<Rightarrow> [])"
  "recreated_dbs (log_effect x w) = recreated_dbs w @ (case x of Recreated db _ \<Rightarrow> [db] | _ \<Rightarrow> [])"
  by (auto simp: seeds_def recreated_dbs_def log_effect_def List.map_filter_def split: option.splits restore_effect.splits)

lemma log_effect_sel [simp]:
  "rwStored (log_effect x w) = rwStored w" "rwMem (log_effect x w) = rwMem w"
  "rwPrevious (log_effect x w) = rwPrevious w" "rwNote (log_effect x w) = rwNote w"
  by (simp_all add: log_effect_def)

lemma on_mem_sel [simp]:
  "rwStored (on_mem f w) = rwStored w" "rwMem (on_mem f w) = f (rwMem w)"
  "rwPrevious (on_mem f w) = rwPrevious w" "rwLog (on_mem f w) = rwLog w"
  "seeds (on_mem f w) = seeds w" "recreated_dbs (on_mem f w) = recreated_dbs w"
  by (simp_all add: on_mem_def seeds_def recreated_dbs_def)

lemma quiet_log [simp]: "seed_of x = None \<Longrightarrow> quiet w (log_effect x w)"
  by (cases x) (simp_all add: quiet_def)

lemma quiet_store: "(\<And>r. seed_core (f r) = seed_core r) \<Longrightarrow> quiet w (snd (store e k f w))"
  by (simp add: quiet_def store_def seeds_def recreated_dbs_def)

lemma quiet_on_mem: "(\<And>r. seed_core (f r) = seed_core r) \<Longrightarrow> quiet w (on_mem f w)"
  by (simp add: quiet_def)

lemma quiet_transition [simp]: "quiet w (snd (transitionRestoreStatus e phase message w))"
proof -
  let ?f = "\<lambda>latest. on_status (\<lambda>s. s\<lparr>
              rsPhase := phase, rsMessage := message, rsObserved := rtGeneration latest,
              rsStart := earlier_wins (rsStart s) (rsStart (rtStatus (rwMem w))),
              rsCompletion := earlier_wins (rsCompletion s) (rsCompletion (rtStatus (rwMem w))),
              rsConditions := fst (SetReadyCondition (rsConditions s) (rtGeneration latest)
                (fst (restoreReadyCondition phase)) (snd (restoreReadyCondition phase)) message (raNow e))\<rparr>) latest"
  have "quiet w (snd (store e WStatus ?f w))"
    by (rule quiet_store) (simp add: seed_core_def on_status_def)
  then show ?thesis
    by (auto simp: transitionRestoreStatus_def Let_def case_prod_unfold intro: quiet_trans)
qed

lemma quiet_update [simp]: "quiet w (updateRestoreStatus e phase message w)"
  by (simp add: updateRestoreStatus_def)

lemma quiet_step: "quiet w w1 \<Longrightarrow> seed_of x = None \<Longrightarrow> quiet w (log_effect x w1)"
  by (blast intro: quiet_trans quiet_log)

lemma quiet_store_mem:
  assumes "\<And>r. seed_core (f r) = seed_core r" "\<And>r. seed_core (g r) = seed_core r"
  shows "quiet w (on_mem g (snd (store e k f w)))"
  using quiet_trans[OF quiet_store quiet_on_mem] assms by blast

lemma quiet_set_annotation: "quiet w (snd (set_annotation e k key v w))"
  using quiet_store_mem quiet_store quiet_on_mem
  by (auto simp: set_annotation_def Let_def case_prod_unfold seed_core_def)

lemma quiet_drop_annotations: "quiet w (snd (drop_annotations e k ks w))"
  using quiet_store_mem quiet_store quiet_on_mem
  by (auto simp: drop_annotations_def Let_def case_prod_unfold seed_core_def)

lemma quiet_awaitAll [simp]: "quiet w (awaitAllDatabasesTarget e cause w)"
proof -
  have "quiet w (snd (store e WAwait (on_status (\<lambda>s. s\<lparr>rsConditions := cs\<rparr>)) w))" for cs
    by (rule quiet_store) (simp add: seed_core_def on_status_def)
  then show ?thesis
    by (auto simp: awaitAllDatabasesTarget_def Let_def case_prod_unfold intro: quiet_step)
qed

lemma quiet_answered [simp]: "quiet w (allDatabasesTargetAnswered e w)"
  by (auto simp: allDatabasesTargetAnswered_def seed_core_def on_status_def intro!: quiet_store split: option.splits)

lemma quiet_then_update: "quiet w w1 \<Longrightarrow> quiet w (updateRestoreStatus e phase message w1)"
  by (rule quiet_trans[OF _ quiet_update])

lemma quiet_then_transition: "quiet w w1 \<Longrightarrow> quiet w (snd (transitionRestoreStatus e phase message w1))"
  by (rule quiet_trans[OF _ quiet_transition])

lemmas quiet_intros = quiet_step quiet_then_update quiet_then_transition

lemma quiet_awaitSeedConfig [simp]: "quiet w (awaitSeedConfig e missing w)"
proof (cases "transitionRestoreStatus e StatusPending (seedConfigMissingMessage (raTarget e) missing) w")
  case (Pair ok w1)
  moreover have "quiet w w1"
    using quiet_transition[of w e StatusPending "seedConfigMissingMessage (raTarget e) missing"] Pair by simp
  ultimately show ?thesis
    by (auto simp: awaitSeedConfig_def Let_def intro: quiet_step split: bool.splits)
qed

lemma quiet_seed_config [simp]: "quiet w (snd (ensureClusterSeedConfigReady e storage w))"
  by (auto simp: ensureClusterSeedConfigReady_def Let_def split: projection.splits option.splits)

lemma quiet_wait_start: "quiet w (snd (seedProxyWaitStart e w))"
  using quiet_set_annotation
  by (auto simp: seedProxyWaitStart_def markSeedProxyWaitStarted_def Let_def case_prod_unfold split: option.splits)

lemma quiet_proxy [simp]: "quiet w (snd (ensurePVCSeedProxyReady e sd storage merging w))"
  using quiet_wait_start[of w e] quiet_drop_annotations[of w e WUnanchor]
  by (auto simp: ensurePVCSeedProxyReady_def clearSeedProxyWaitStarted_def Let_def case_prod_unfold
      intro!: quiet_intros split: sum.splits bool.splits)

lemma quiet_pre_hooks [simp]: "quiet w (snd (run_pre_hooks e w))"
proof -
  have "quiet w (snd (markRestorePreHooksRan e (log_effect (RanHooks h) w)))" for h
    unfolding markRestorePreHooksRan_def by (rule quiet_trans[OF quiet_log quiet_set_annotation]) simp
  then show ?thesis
    by (auto simp: run_pre_hooks_def Let_def case_prod_unfold intro!: quiet_intros split: option.splits)
qed

lemma quiet_prepare [simp]: "quiet w (snd (prepare_seeds e sd snap storage w))"
  using quiet_seed_config[of w e storage] quiet_proxy[of w e sd storage "merges (rvArtifacts snap)"]
  by (auto simp: prepare_seeds_def Let_def case_prod_unfold intro!: quiet_intros
      split: option.splits sum.splits)

lemma quiet_new_attempt [simp]: "quiet w (snd (new_attempt e w))"
  using quiet_drop_annotations[of w e WClear] quiet_trans[OF quiet_drop_annotations quiet_drop_annotations]
  by (simp add: new_attempt_def clearCypherRestoreIssued_def clearSeedProxyWaitStarted_def Let_def case_prod_unfold
      split: option.split)

lemma quiet_decide [simp]: "quiet w (snd (decidePointInTimePath e w))"
  using quiet_set_annotation[of w e WPath]
  by (auto simp: decidePointInTimePath_def Let_def case_prod_unfold intro!: quiet_intros
      split: option.splits sum.splits)

lemma quiet_announce [simp]: "quiet w (announce e db progress w)"
  by (auto simp: announce_def Let_def quiet_def seed_core_def seeds_def recreated_dbs_def log_effect_def List.map_filter_def)

lemma quiet_finish [simp]: "quiet w (snd (finishAllDatabasesRestore e w))"
proof -
  let ?w0 = "on_mem (on_status (\<lambda>s. s\<lparr>rsCompletion := Some (raNow e)\<rparr>)) (w\<lparr>rwNote := None\<rparr>)"
  have q0: "quiet w ?w0" by (simp add: quiet_def seed_core_def on_status_def seeds_def recreated_dbs_def)
  have q1: "quiet w (log_effect (RanHooks h) ?w0)" for h
    by (rule quiet_step[OF q0]) simp
  show ?thesis
    using quiet_trans[OF q0 quiet_transition] quiet_trans[OF q1 quiet_transition] quiet_trans[OF q1 quiet_update]
      quiet_trans[OF q0 quiet_update]
    by (auto simp: finishAllDatabasesRestore_def Let_def case_prod_unfold intro!: quiet_step split: option.splits)
qed

section \<open>The phases of the databases\<close>

definition result_phase :: "db_result list \<Rightarrow> string \<Rightarrow> string" where
  "result_phase results db =
     (case find (\<lambda>r. drDatabase r = db) results of Some r \<Rightarrow> drPhase r | None \<Rightarrow> StatusPending)"

lemma result_phase_simps [simp]:
  "result_phase [] db = StatusPending"
  "result_phase (r # rs) db = (if drDatabase r = db then drPhase r else result_phase rs db)"
  by (simp_all add: result_phase_def)

lemma result_phase_append:
  "result_phase (rs @ qs) db = (if db \<in> drDatabase ` set rs then result_phase rs db else result_phase qs db)"
  by (induction rs) auto

lemma result_phase_absent: "db \<notin> drDatabase ` set rs \<Longrightarrow> result_phase rs db = StatusPending"
  by (induction rs) auto

lemma result_phase_mark_first:
  "db \<in> drDatabase ` set rs \<Longrightarrow> result_phase (mark_first db phase m n rs) = (result_phase rs)(db := phase)"
  by (induction rs) auto

lemma names_mark_first [simp]: "map drDatabase (mark_first db phase m n rs) = map drDatabase rs"
  by (induction rs) auto

text \<open>The phases the schema of a result allows.\<close>

definition known_phases :: "db_result list \<Rightarrow> bool" where
  "known_phases = list_all (\<lambda>r. drPhase r \<in> set [StatusPending, StatusRunning, StatusCompleted, StatusFailed])"

lemma known_mark_first:
  "known_phases rs \<Longrightarrow> phase \<in> set [StatusPending, StatusRunning, StatusCompleted, StatusFailed] \<Longrightarrow>
   known_phases (mark_first db phase m n rs)"
  by (induction rs) (auto simp: known_phases_def)

abbreviation user_dbs :: "resolved_source \<Rightarrow> string list" where
  "user_dbs snap \<equiv> userDatabasesFromArtifacts (rvArtifacts snap)"

text \<open>The results a restore of this source has recorded: none yet, or one for each database.\<close>

definition results_ok :: "resolved_source \<Rightarrow> db_result list \<Rightarrow> bool" where
  "results_ok snap results \<longleftrightarrow>
     (results = [] \<or> map drDatabase results = user_dbs snap) \<and> known_phases results"

lemma result_phase_ensure [simp]: "result_phase (ensureDatabaseResults dbs rs) = result_phase rs"
proof
  fix d
  have "result_phase (map (\<lambda>db. \<lparr>drDatabase = db, drPhase = StatusPending, drMessage = [], drCompletion = None\<rparr>) ds) d
          = StatusPending" for ds
    by (induction ds) auto
  then show "result_phase (ensureDatabaseResults dbs rs) d = result_phase rs d"
    by (simp add: ensureDatabaseResults_def result_phase_append result_phase_absent)
qed

lemma ensure_ok:
  assumes "results_ok snap rs"
  shows "map drDatabase (ensureDatabaseResults (user_dbs snap) rs) = user_dbs snap"
    and "known_phases (ensureDatabaseResults (user_dbs snap) rs)"
proof -
  have "ensureDatabaseResults (user_dbs snap) rs = rs" if "map drDatabase rs = user_dbs snap"
  proof -
    have "set (user_dbs snap) = drDatabase ` set rs" using arg_cong[OF that, of set] by simp
    then show ?thesis by (simp add: ensureDatabaseResults_def filter_empty_conv)
  qed
  moreover have "map drDatabase (ensureDatabaseResults (user_dbs snap) []) = user_dbs snap"
      "known_phases (ensureDatabaseResults (user_dbs snap) [])"
    by (simp_all add: ensureDatabaseResults_def known_phases_def comp_def list_all_iff)
  ultimately show "map drDatabase (ensureDatabaseResults (user_dbs snap) rs) = user_dbs snap"
      "known_phases (ensureDatabaseResults (user_dbs snap) rs)"
    using assms unfolding results_ok_def by auto
qed

text \<open>
  The database a pass acts on, and the phases it may move it to. Without a file to seed it from
  that is Failed only.
\<close>

definition next_db :: "(string \<Rightarrow> string) \<Rightarrow> string list \<Rightarrow> string option" where
  "next_db f dbs = find (\<lambda>d. \<not> terminal (f d)) dbs"

definition may_move :: "resolved_source \<Rightarrow> string \<Rightarrow> string \<Rightarrow> string \<Rightarrow> bool" where
  "may_move snap d p q \<longleftrightarrow>
     (if filenameForDB (rvArtifacts snap) d = [] then q = StatusFailed
      else if p = StatusPending then q = StatusRunning \<or> q = StatusFailed
      else q = StatusRunning \<or> q = StatusCompleted)"

definition moved :: "resolved_source \<Rightarrow> (string \<Rightarrow> string) \<Rightarrow> (string \<Rightarrow> string) \<Rightarrow> bool" where
  "moved snap f g \<longleftrightarrow>
     g = f \<or> (\<exists>d q. next_db f (user_dbs snap) = Some d \<and> may_move snap d (f d) q \<and> g = f(d := q))"

lemma next_db_entry:
  "distinct (map drDatabase rs) \<Longrightarrow>
   next_db (result_phase rs) (map drDatabase rs) = map_option drDatabase (find (\<lambda>r. \<not> terminal (drPhase r)) rs)"
proof (induction rs)
  case (Cons r rs)
  have "find (\<lambda>d. \<not> terminal (result_phase (r # rs) d)) (map drDatabase rs) =
        find (\<lambda>d. \<not> terminal (result_phase rs d)) (map drDatabase rs)"
    using Cons.prems by (intro find_cong) auto
  then show ?case using Cons by (simp add: next_db_def)
qed (simp add: next_db_def)

lemma find_phase:
  "distinct (map drDatabase rs) \<Longrightarrow> find P rs = Some r \<Longrightarrow>
   r \<in> set rs \<and> P r \<and> result_phase rs (drDatabase r) = drPhase r"
proof (induction rs)
  case (Cons q rs)
  then show ?case by (auto split: if_splits)
qed simp

text \<open>The loop is its first open entry.\<close>

definition act ::
    "restore_env \<Rightarrow> version \<Rightarrow> (string \<Rightarrow> string) \<Rightarrow> db_artifact list \<Rightarrow> db_result \<Rightarrow> restore_world \<Rightarrow> restore_world" where
  "act e v seedURIFor arts r w =
     (if filenameForDB arts (drDatabase r) = []
      then markDatabaseResult e (drDatabase r) StatusFailed
              ''no .backup artifact filename recorded for this database in the source backup'' w
      else if drPhase r = StatusPending
      then issue_seed e v (drDatabase r) (seedURIFor (filenameForDB arts (drDatabase r))) w
      else poll_seed e (drDatabase r) w)"

lemma drive_databases_first:
  "known_phases rs \<Longrightarrow>
   drive_databases e v u arts rs w =
     (case find (\<lambda>r. \<not> terminal (drPhase r)) rs of
        None \<Rightarrow> finishAllDatabasesRestore e w
      | Some r \<Rightarrow> (Requeue, act e v u arts r w))"
  by (induction rs) (auto simp: known_phases_def act_def status_defs)

section \<open>Each database is seeded once\<close>

text \<open>
  One attempt: the source is pinned and the spec stays as it is. \<open>placed\<close> relates the stored
  restore to the version before it: the last write left the phases or moved the first open database.
\<close>

abbreviation phases :: "restore \<Rightarrow> string \<Rightarrow> string" where
  "phases r \<equiv> result_phase (rsResults (rtStatus r))"

definition attempt :: "resolved_source \<Rightarrow> bool \<Rightarrow> restore \<Rightarrow> bool" where
  "attempt snap over r \<longleftrightarrow>
     rsResolved (rtStatus r) = Some snap \<and> rvStorage snap \<noteq> None \<and> rtSourceType r = ''backup'' \<and>
     rtBackupRef r = rvBackupRef snap \<and> rtReplaceExisting r = over \<and> results_ok snap (rsResults (rtStatus r))"

definition placed :: "resolved_source \<Rightarrow> bool \<Rightarrow> restore_world \<Rightarrow> bool" where
  "placed snap over w \<longleftrightarrow>
     distinct (user_dbs snap) \<and> attempt snap over (rwStored w) \<and> attempt snap over (rwPrevious w) \<and>
     moved snap (phases (rwPrevious w)) (phases (rwStored w))"

definition seeds_recorded :: "resolved_source \<Rightarrow> bool \<Rightarrow> restore_world \<Rightarrow> bool" where
  "seeds_recorded snap over w \<longleftrightarrow>
     distinct (map fst (seeds w)) \<and>
     (\<forall>s\<in>set (seeds w). fst s \<in> set (user_dbs snap) \<and> phases (rwStored w) (fst s) \<noteq> StatusPending) \<and>
     (recreated_dbs w \<noteq> [] \<longrightarrow> over)"

text \<open>The copy the loop works on, with a result for every database.\<close>

definition copied :: "resolved_source \<Rightarrow> bool \<Rightarrow> restore_world \<Rightarrow> bool" where
  "copied snap over w \<longleftrightarrow>
     rtReplaceExisting (rwMem w) = over \<and>
     map drDatabase (rsResults (rtStatus (rwMem w))) = user_dbs snap \<and> known_phases (rsResults (rtStatus (rwMem w))) \<and>
     moved snap (phases (rwMem w)) (phases (rwStored w))"

lemma attempt_core:
  "seed_core r = seed_core r' \<Longrightarrow> attempt snap over r = attempt snap over r'"
  "seed_core r = seed_core r' \<Longrightarrow> phases r = phases r'"
  by (auto simp: seed_core_def attempt_def)

lemma moved_refl [simp]: "moved snap f f"
  by (simp add: moved_def)

lemma quiet_placed:
  assumes "quiet w w'" "placed snap over w"
  shows "placed snap over w'"
proof -
  have s: "seed_core (rwStored w') = seed_core (rwStored w)"
    and p: "seed_core (rwPrevious w') = seed_core (rwPrevious w) \<or> seed_core (rwPrevious w') = seed_core (rwStored w)"
    using assms(1) by (auto simp: quiet_def)
  have "attempt snap over (rwStored w')" "phases (rwStored w') = phases (rwStored w)"
    using attempt_core[OF s] assms(2) by (auto simp: placed_def)
  with p attempt_core show ?thesis using assms(2) unfolding placed_def by (metis moved_refl)
qed

lemma quiet_recorded:
  assumes "quiet w w'" "seeds_recorded snap over w"
  shows "seeds_recorded snap over w'"
proof -
  have "phases (rwStored w') = phases (rwStored w)"
    using assms(1) by (intro attempt_core(2)) (simp add: quiet_def)
  then show ?thesis using assms by (simp add: quiet_def seeds_recorded_def)
qed

lemma quiet_copied:
  assumes "quiet w w'" "copied snap over w"
  shows "copied snap over w'"
  using assms by (auto simp: quiet_def copied_def seed_core_def)

lemma may_move_known:
  "may_move snap d p q \<Longrightarrow> q \<in> set [StatusPending, StatusRunning, StatusCompleted, StatusFailed]"
  "may_move snap d p q \<Longrightarrow> q \<noteq> StatusPending"
  by (auto simp: may_move_def status_defs split: if_splits)

lemma mark_effect:
  fixes w :: restore_world and d q m :: string
  assumes "raLands e WResult"
  defines "w' \<equiv> markDatabaseResult e d q m w"
  shows "seed_core (rwStored w') = (case seed_core (rwStored w) of (_, c) \<Rightarrow> (mark_first d q m (raNow e) (rsResults (rtStatus (rwMem w))), c))"
    and "rwPrevious w' = rwStored w" and "seeds w' = seeds w" and "recreated_dbs w' = recreated_dbs w"
    and "rwMem w' = set_results (mark_first d q m (raNow e) (rsResults (rtStatus (rwMem w)))) (rwMem w)"
  using assms
  by (auto simp: markDatabaseResult_def Let_def store_def seed_core_def on_status_def log_effect_def
      seeds_def recreated_dbs_def List.map_filter_def set_results_def on_mem_def)

lemma next_db_member: "next_db f dbs = Some d \<Longrightarrow> d \<in> set dbs"
  by (auto simp: next_db_def find_Some_iff)

lemma mark_placed:
  fixes w :: restore_world and d q m :: string
  assumes p: "placed snap over w" and c: "copied snap over w" and l: "raLands e WResult"
    and d: "next_db (phases (rwMem w)) (user_dbs snap) = Some d"
    and q: "may_move snap d (phases (rwMem w) d) q"
    and s: "phases (rwStored w) = phases (rwMem w) \<or> phases (rwStored w) d = q"
  defines "w' \<equiv> markDatabaseResult e d q m w"
  shows "placed snap over w'" and "phases (rwStored w') = (phases (rwStored w))(d := q)"
proof -
  let ?L = "rsResults (rtStatus (rwMem w))"
  note eff = mark_effect[OF l, of d q m w, folded w'_def]
  have names: "map drDatabase ?L = user_dbs snap" and known: "known_phases ?L"
    and mv: "moved snap (phases (rwMem w)) (phases (rwStored w))"
    using c by (auto simp: copied_def)
  have din: "d \<in> drDatabase ` set ?L" using next_db_member[OF d] names by (metis list.set_map)
  have res: "rsResults (rtStatus (rwStored w')) = mark_first d q m (raNow e) ?L"
    using eff(1) by (auto simp: seed_core_def)
  have ph: "phases (rwStored w') = (phases (rwMem w))(d := q)"
    unfolding res by (rule result_phase_mark_first[OF din])
  have same: "(phases (rwMem w))(d := q) = (phases (rwStored w))(d := q)"
    using s mv d by (auto simp: moved_def fun_eq_iff)
  show ph': "phases (rwStored w') = (phases (rwStored w))(d := q)" by (simp only: ph same)
  have "moved snap (phases (rwStored w)) (phases (rwStored w'))"
    using s ph' q d by (auto simp: moved_def)
  moreover have "results_ok snap (rsResults (rtStatus (rwStored w')))"
    unfolding res results_ok_def using names known known_mark_first may_move_known(1)[OF q] by simp
  moreover have "attempt snap over (rwStored w)" using p by (simp add: placed_def)
  ultimately show "placed snap over w'"
    using p eff(1,2) by (auto simp: placed_def attempt_def seed_core_def)
qed

lemma mark_recorded:
  fixes w :: restore_world and d q m :: string
  assumes "placed snap over w" "copied snap over w" "raLands e WResult"
    and "next_db (phases (rwMem w)) (user_dbs snap) = Some d"
    and q: "may_move snap d (phases (rwMem w) d) q"
    and "phases (rwStored w) = phases (rwMem w) \<or> phases (rwStored w) d = q"
    and "distinct (map fst (seeds w))" "recreated_dbs w \<noteq> [] \<longrightarrow> over"
    and "\<forall>s\<in>set (seeds w). fst s \<in> set (user_dbs snap) \<and> (fst s = d \<or> phases (rwStored w) (fst s) \<noteq> StatusPending)"
  shows "seeds_recorded snap over (markDatabaseResult e d q m w)"
  using mark_placed(2)[OF assms(1-6), of m] mark_effect(3,4)[OF assms(3), of d q m w] assms(7-) may_move_known(2)[OF q]
  by (auto simp: seeds_recorded_def)

text \<open>The two together, and what keeps them.\<close>

definition safe :: "resolved_source \<Rightarrow> bool \<Rightarrow> restore_world \<Rightarrow> bool" where
  "safe snap over w \<longleftrightarrow> placed snap over w \<and> seeds_recorded snap over w"

lemma quiet_safe: "quiet w w' \<Longrightarrow> safe snap over w \<Longrightarrow> safe snap over w'"
  by (simp add: safe_def quiet_placed quiet_recorded)

lemma mark_safe:
  fixes w :: restore_world and d q m :: string
  assumes "safe snap over w" "copied snap over w" "raLands e WResult"
    and "next_db (phases (rwMem w)) (user_dbs snap) = Some d"
    and "may_move snap d (phases (rwMem w) d) q"
    and "phases (rwStored w) = phases (rwMem w) \<or> phases (rwStored w) d = q"
  shows "safe snap over (markDatabaseResult e d q m w)"
  using mark_placed(1)[of snap over w e d q m] mark_recorded[of snap over w e d q m] assms
  by (auto simp: safe_def seeds_recorded_def)

lemma send_safe:
  fixes w :: restore_world and d u :: string
  assumes s: "safe snap over w" and c: "copied snap over w" and l: "raLands e WResult"
    and d: "next_db (phases (rwMem w)) (user_dbs snap) = Some d"
    and f: "filenameForDB (rvArtifacts snap) d \<noteq> []"
    and eq: "phases (rwStored w) = phases (rwMem w)" and pend: "phases (rwMem w) d = StatusPending"
    and ok: "exists \<longrightarrow> over"
  shows "safe snap over (send_seed e v d u exists w)"
proof -
  have fresh: "d \<notin> fst ` set (seeds w)" using s eq pend by (auto simp: safe_def seeds_recorded_def)
  have moves: "may_move snap d (phases (rwMem w) d) StatusRunning" "may_move snap d (phases (rwMem w) d) StatusFailed"
    using f pend by (simp_all add: may_move_def)
  have sent: "safe snap over (markDatabaseResult e d q m (log_effect x w))"
    if x: "seed_of x = Some (d, u)" "(case x of Recreated db _ \<Rightarrow> over | _ \<Rightarrow> True)"
      and q: "may_move snap d (phases (rwMem w) d) q" for x q m
  proof -
    let ?w = "log_effect x w"
    have pl: "placed snap over ?w" and co: "copied snap over ?w"
      using s c by (simp_all add: safe_def placed_def copied_def)
    have "distinct (map fst (seeds ?w))" "recreated_dbs ?w \<noteq> [] \<longrightarrow> over"
        "\<forall>t\<in>set (seeds ?w). fst t \<in> set (user_dbs snap) \<and> (fst t = d \<or> phases (rwStored ?w) (fst t) \<noteq> StatusPending)"
      using s fresh x next_db_member[OF d] by (auto simp: safe_def seeds_recorded_def split: restore_effect.splits)
    then show ?thesis
      using mark_placed(1)[OF pl co l, of d q m] mark_recorded[OF pl co l, of d q m] q d eq by (simp add: safe_def)
  qed
  show ?thesis
    using sent moves ok mark_safe[OF s c l d moves(2)] eq
    by (auto simp: send_seed_def Let_def split: option.splits)
qed

text \<open>Neo4j does not take back what completed a database: the poll of one stays all online.\<close>

definition steady :: "restore_env \<Rightarrow> restore_world \<Rightarrow> bool" where
  "steady e w =
     list_all (\<lambda>r. drPhase r = StatusCompleted \<longrightarrow> all_online (raOnline e (drDatabase r)))
       (rsResults (rtStatus (rwStored w)))"

lemma steadyD: "steady e w \<Longrightarrow> phases (rwStored w) d = StatusCompleted \<Longrightarrow> all_online (raOnline e d)"
  by (auto simp: steady_def result_phase_def list_all_iff find_Some_iff status_defs split: option.splits)

lemma guard_phase:
  assumes "raAPIReader e" "issueGuardAllowsRecreate e d w" "known_phases (rsResults (rtStatus (rwStored w)))"
  shows "phases (rwStored w) d = StatusPending"
proof (cases "find (\<lambda>r. drDatabase r = d) (rsResults (rtStatus (rwStored w)))")
  case (Some r)
  then have "r \<in> set (rsResults (rtStatus (rwStored w)))" by (auto simp: find_Some_iff)
  then have "drPhase r \<noteq> []" using assms(3) by (auto simp: known_phases_def list_all_iff status_defs)
  then show ?thesis
    using assms(1,2) Some by (simp add: issueGuardAllowsRecreate_def result_phase_def split: if_splits)
qed (simp add: result_phase_def)

lemma issue_safe:
  assumes s: "safe snap over w" and c: "copied snap over w" and l: "raLands e WResult" "raAPIReader e"
    and d: "next_db (phases (rwMem w)) (user_dbs snap) = Some d"
    and f: "filenameForDB (rvArtifacts snap) d \<noteq> []" and pend: "phases (rwMem w) d = StatusPending"
  shows "safe snap over (issue_seed e v d u w)"
proof (cases "issueGuardAllowsRecreate e d w")
  case True
  have "known_phases (rsResults (rtStatus (rwStored w)))"
    using s by (simp add: safe_def placed_def attempt_def results_ok_def)
  then have "phases (rwStored w) d = StatusPending" by (rule guard_phase[OF l(2) True])
  then have eq: "phases (rwStored w) = phases (rwMem w)"
    using c d may_move_known(2) by (auto simp: copied_def moved_def)
  have m: "may_move snap d (phases (rwMem w) d) StatusFailed" using f pend by (simp add: may_move_def)
  have "rtReplaceExisting (rwMem w) = over" using c by (simp add: copied_def)
  then show ?thesis
    using send_safe[OF s c l(1) d f eq pend] mark_safe[OF s c l(1) d m] eq s
    by (auto simp: issue_seed_def True restoreOverwriteConfirmed_def quiet_safe[OF _ s] split: sum.splits)
qed (simp add: issue_seed_def s)

lemma poll_safe:
  assumes s: "safe snap over w" and c: "copied snap over w" and l: "raLands e WResult" and st: "steady e w"
    and d: "next_db (phases (rwMem w)) (user_dbs snap) = Some d"
    and f: "filenameForDB (rvArtifacts snap) d \<noteq> []" and run: "phases (rwMem w) d = StatusRunning"
  shows "safe snap over (poll_seed e d w)"
proof -
  have m: "may_move snap d (phases (rwMem w) d) StatusRunning" "may_move snap d (phases (rwMem w) d) StatusCompleted"
    using f run by (simp_all add: may_move_def status_defs)
  have "phases (rwStored w) = phases (rwMem w) \<or> phases (rwStored w) d = StatusCompleted"
    using c d f run by (auto simp: copied_def moved_def may_move_def status_defs fun_upd_idem)
  then have online: "phases (rwStored w) = phases (rwMem w)" if "\<not> all_online (raOnline e d)"
    using steadyD[OF st, of d] that by blast
  show ?thesis
  proof (cases "all_online (raOnline e d)")
    case True
    then show ?thesis
      using mark_safe[OF s c l d m(2)] \<open>_ \<or> phases (rwStored w) d = StatusCompleted\<close> by (simp add: poll_seed_def)
  next
    case False
    then have "safe snap over (noteDatabaseProgress e d msg w)" for msg
      using mark_safe[OF s c l d m(1)] online s by (auto simp: noteDatabaseProgress_def split: option.splits)
    then show ?thesis
      using False quiet_safe[OF quiet_announce] by (simp add: poll_seed_def Let_def)
  qed
qed

lemma drive_safe:
  assumes s: "safe snap over w" and c: "copied snap over w" and l: "raLands e WResult" "raAPIReader e" and st: "steady e w"
  shows "safe snap over (snd (drive_databases e v u (rvArtifacts snap) (rsResults (rtStatus (rwMem w))) w))"
proof -
  let ?L = "rsResults (rtStatus (rwMem w))"
  have names: "map drDatabase ?L = user_dbs snap" and known: "known_phases ?L" and dist: "distinct (map drDatabase ?L)"
    using s c by (simp_all add: copied_def safe_def placed_def)
  show ?thesis
  proof (cases "find (\<lambda>r. \<not> terminal (drPhase r)) ?L")
    case None
    show ?thesis unfolding drive_databases_first[OF known] None using quiet_safe[OF quiet_finish s] by simp
  next
    case (Some r)
    have r: "r \<in> set ?L" "\<not> terminal (drPhase r)" "phases (rwMem w) (drDatabase r) = drPhase r"
      using find_phase[OF dist Some] by auto
    have d: "next_db (phases (rwMem w)) (user_dbs snap) = Some (drDatabase r)"
      using next_db_entry[OF dist] Some names by simp
    have "safe snap over (act e v u (rvArtifacts snap) r w)"
    proof (cases "filenameForDB (rvArtifacts snap) (drDatabase r) = []")
      case True
      then have m: "may_move snap (drDatabase r) (phases (rwMem w) (drDatabase r)) StatusFailed"
        by (simp add: may_move_def)
      have "phases (rwStored w) = phases (rwMem w) \<or> phases (rwStored w) (drDatabase r) = StatusFailed"
        using c d True by (auto simp: copied_def moved_def may_move_def)
      then show ?thesis using mark_safe[OF s c l(1) d m] by (simp add: act_def True)
    next
      case False
      have "drPhase r = StatusPending \<or> drPhase r = StatusRunning"
        using known r by (auto simp: known_phases_def list_all_iff)
      then show ?thesis
        using issue_safe[OF s c l d False] poll_safe[OF s c l(1) st d False] r(3) False
        by (auto simp: act_def status_defs)
    qed
    then show ?thesis unfolding drive_databases_first[OF known] Some by simp
  qed
qed

subsection \<open>The way to the loop\<close>

definition held_copy :: "resolved_source \<Rightarrow> bool \<Rightarrow> restore_world \<Rightarrow> bool" where
  "held_copy snap over w \<longleftrightarrow>
     safe snap over w \<and> attempt snap over (rwMem w) \<and> moved snap (phases (rwMem w)) (phases (rwStored w))"

lemma quiet_phases:
  assumes "quiet w w'"
  shows "phases (rwStored w') = phases (rwStored w)" "phases (rwMem w') = phases (rwMem w)"
    "attempt snap over (rwMem w') = attempt snap over (rwMem w)"
  using assms attempt_core[of "rwStored w'" "rwStored w"] attempt_core[of "rwMem w'" "rwMem w"]
  by (auto simp: quiet_def)

lemma quiet_held: "quiet w w' \<Longrightarrow> held_copy snap over w \<Longrightarrow> held_copy snap over w'"
  by (simp add: held_copy_def quiet_safe quiet_phases)

lemma quiet_steady: "quiet w w' \<Longrightarrow> steady e w \<Longrightarrow> steady e w'"
  by (auto simp: quiet_def seed_core_def steady_def)

lemma held_safe: "held_copy snap over w \<Longrightarrow> safe snap over w"
  by (simp add: held_copy_def)

lemma held_snapshot: "held_copy snap over w \<Longrightarrow> resolvedBackupSnapshot (rwMem w) = Some snap"
  by (auto simp: held_copy_def attempt_def resolvedBackupSnapshot_def)

lemma ensure_copied:
  assumes "held_copy snap over w"
  defines "w' \<equiv> on_mem (\<lambda>r. set_results (ensureDatabaseResults (user_dbs snap) (rsResults (rtStatus r))) r) w"
  shows "safe snap over w'" "copied snap over w'"
proof -
  show "safe snap over w'"
    using assms by (simp add: held_copy_def safe_def placed_def seeds_recorded_def)
  have "results_ok snap (rsResults (rtStatus (rwMem w)))" using assms(1) by (simp add: held_copy_def attempt_def)
  note ensure_ok[OF this]
  then show "copied snap over w'"
    using assms by (simp add: copied_def held_copy_def attempt_def set_results_def on_status_def)
qed

lemma connect_safe:
  assumes "safe snap over w" "copied snap over w" "raLands e WResult" "raAPIReader e" "steady e w"
  shows "safe snap over (snd (connect_and_drive e u (rvArtifacts snap) w))"
proof -
  let ?w = "allDatabasesTargetAnswered e w"
  have "safe snap over ?w" "copied snap over ?w" "steady e ?w"
    using assms quiet_safe quiet_copied quiet_steady quiet_answered by blast+
  from drive_safe[OF this(1,2) assms(3,4) this(3)] show ?thesis
    by (auto simp: connect_and_drive_def Let_def quiet_safe[OF _ assms(1)] split: option.splits bool.splits)
qed

lemma start_all_safe:
  assumes h: "held_copy snap over w" and l: "raLands e WResult" "raAPIReader e" and st: "steady e w"
  shows "safe snap over (snd (startAllDatabasesRestore e sd w))"
proof -
  obtain o1 w1 where hooks: "run_pre_hooks e w = (o1, w1)" by fastforce
  have q1: "quiet w w1" using quiet_pre_hooks[of w e] hooks by simp
  define w2 where "w2 = on_mem (\<lambda>r. set_results (ensureDatabaseResults (user_dbs snap) (rsResults (rtStatus r))) r) w1"
  have s2: "safe snap over w2" "copied snap over w2"
    unfolding w2_def by (rule ensure_copied[OF quiet_held[OF q1 h]])+
  have st2: "steady e w2" using quiet_steady[OF q1 st] by (simp add: w2_def steady_def)
  obtain o3 w3 where prep: "prepare_seeds e sd snap (the (rvStorage snap)) w2 = (o3, w3)" by fastforce
  have q3: "quiet w2 w3" using quiet_prepare[of w2 e sd snap "the (rvStorage snap)"] prep by simp
  have s3: "safe snap over w3" "copied snap over w3" "steady e w3"
    using quiet_safe[OF q3 s2(1)] quiet_copied[OF q3 s2(2)] quiet_steady[OF q3 st2] by auto
  have up: "safe snap over (updateRestoreStatus e p m w)" for p m
    using quiet_safe[OF quiet_update held_safe[OF h]] .
  show ?thesis
    using up connect_safe[OF s3(1,2) l s3(3)] quiet_safe[OF q1 held_safe[OF h]] s3(1)
    by (auto simp: startAllDatabasesRestore_def held_snapshot[OF h] hooks w2_def[symmetric] prep Let_def
        split: option.splits sum.splits)
qed

lemma start_safe:
  assumes h: "held_copy snap over w" and l: "raLands e WResult" "raAPIReader e" and st: "steady e w"
  shows "safe snap over (snd (startRestore e sd w))"
proof -
  obtain o1 w1 where a: "new_attempt e w = (o1, w1)" by fastforce
  have q1: "quiet w w1" using quiet_new_attempt[of w e] a by simp
  have h1: "held_copy snap over w1" by (rule quiet_held[OF q1 h])
  have repin: "repin e w1 = (None, w1)"
    using held_snapshot[OF h1] h1 by (simp add: repin_def Let_def held_copy_def attempt_def)
  define w3 where "w3 = on_mem (\<lambda>r. on_status (\<lambda>s. s\<lparr>rsStart := Some (raNow e), rsObserved := rtGeneration r\<rparr>) r) w1"
  have q3: "quiet w1 w3" unfolding w3_def by (rule quiet_on_mem) (simp add: seed_core_def on_status_def)
  have h3: "held_copy snap over w3" by (rule quiet_held[OF q3 h1])
  have pinned: "ensureResolvedBackupSource e w3 = (None, w3)"
    by (simp add: ensureResolvedBackupSource_def Let_def held_snapshot[OF h3])
  obtain o5 w5 where d: "decidePointInTimePath e w3 = (o5, w5)" by fastforce
  have q5: "quiet w3 w5" using quiet_decide[of w3 e] d by simp
  have h5: "held_copy snap over w5" and st5: "steady e w5"
    using quiet_held[OF q5 h3] quiet_steady[OF quiet_trans[OF q1 quiet_trans[OF q3 q5]] st] by auto
  have up: "safe snap over (updateRestoreStatus e p m w3)" "safe snap over (updateRestoreStatus e p m w5)" for p m
    using quiet_safe[OF quiet_update held_safe] h3 h5 by auto
  show ?thesis
    using start_all_safe[OF h5 l st5] up held_safe[OF h1] held_safe[OF h5]
    by (auto simp: startRestore_def a repin w3_def[symmetric] pinned d Let_def split: option.splits)
qed

lemma reconcile_safe:
  assumes h: "held_copy snap over w" and l: "raLands e WResult" "raAPIReader e" and st: "steady e w"
  shows "safe snap over (snd (reconcile_restore e sd w))"
proof -
  have up: "safe snap over (updateRestoreStatus e p m w)" "safe snap over (snd (transitionRestoreStatus e p m w))"
      "safe snap over (log_effect (RestoreEvent x y) (snd (transitionRestoreStatus e p m w)))" for p m x y
    using quiet_safe[OF _ held_safe[OF h]] quiet_step[OF quiet_transition] by auto
  show ?thesis
    using start_safe[OF assms, of sd] up held_safe[OF h]
    by (auto simp: reconcile_restore_def Let_def case_prod_unfold split: option.splits bool.splits)
qed

lemma pass_safe:
  assumes s: "safe snap over w" and l: "raLands e WResult" "raAPIReader e" and st: "steady e w"
  shows "safe snap over (snd (restore_pass e sd stale w))"
  unfolding restore_pass_def
proof (rule reconcile_safe[OF _ l])
  let ?w = "w\<lparr>rwMem := (if stale then rwPrevious w else rwStored w)\<rparr>"
  have "seeds ?w = seeds w" "recreated_dbs ?w = recreated_dbs w" by (simp_all add: seeds_def recreated_dbs_def)
  then have "safe snap over ?w" using s by (simp add: safe_def placed_def seeds_recorded_def)
  moreover have "attempt snap over (rwMem ?w)" "moved snap (phases (rwMem ?w)) (phases (rwStored ?w))"
    using s by (auto simp: safe_def placed_def)
  ultimately show "held_copy snap over ?w" unfolding held_copy_def by blast
  show "steady e ?w" using st by (simp add: steady_def)
qed

text \<open>
  Any number of passes, on the stored object or on the version before its last write, with any
  answers, as long as the uncached reader is wired, the results are written, and a database that
  completed stays online. A pass that leaves the modelled path ends the run.
\<close>

inductive restored_by :: "(int \<Rightarrow> string) \<Rightarrow> restore_world \<Rightarrow> restore_world \<Rightarrow> bool" for sd w0 where
  nothing_yet: "restored_by sd w0 w0"
| one_pass: "restored_by sd w0 w \<Longrightarrow> raAPIReader e \<Longrightarrow> raLands e WResult \<Longrightarrow> steady e w \<Longrightarrow>
     restore_pass e sd stale w = (res, w') \<Longrightarrow> res \<noteq> Elsewhere \<Longrightarrow> restored_by sd w0 w'"

inductive_cases restored_byE: "restored_by sd w0 w"

lemma one_more:
  "restored_by sd w0 w \<Longrightarrow> raAPIReader e \<Longrightarrow> raLands e WResult \<Longrightarrow> steady e w \<Longrightarrow>
   fst (restore_pass e sd stale w) \<noteq> Elsewhere \<Longrightarrow> restored_by sd w0 (snd (restore_pass e sd stale w))"
  by (metis one_pass prod.collapse)

definition fresh_world :: "restore \<Rightarrow> restore_world" where
  "fresh_world r = \<lparr>rwStored = r, rwPrevious = r, rwMem = r, rwLog = [], rwNote = None\<rparr>"

lemma restored_by_safe:
  "restored_by sd w0 w \<Longrightarrow> safe snap over w0 \<Longrightarrow> safe snap over w"
  by (induction rule: restored_by.induct) (metis pass_safe snd_conv)+

lemma fresh_safe:
  "attempt snap over r \<Longrightarrow> rsResults (rtStatus r) = [] \<Longrightarrow> distinct (user_dbs snap) \<Longrightarrow> safe snap over (fresh_world r)"
  by (simp add: safe_def placed_def seeds_recorded_def fresh_world_def seeds_def recreated_dbs_def List.map_filter_def)

text \<open>
  C18: An online restore of all databases sends the seed of a database at most once, although a pass may
  act on a copy from before the last write: the uncached check refuses a second seed, which would
  run against the first one. Only user databases of the backup are seeded, each is recorded, and an
  existing database is recreated only when the spec says it may be replaced.
\<close>
theorem each_database_is_seeded_once:
  assumes "attempt snap (rtReplaceExisting r) r" and "rsResults (rtStatus r) = []" and "distinct (user_dbs snap)"
    and "restored_by sd (fresh_world r) w"
  shows "distinct (map fst (seeds w)) \<and> set (map fst (seeds w)) \<subseteq> set (user_dbs snap) \<and>
    (\<forall>d. d \<in> set (map fst (seeds w)) \<longrightarrow> result_phase (rsResults (rtStatus (rwStored w))) d \<noteq> StatusPending) \<and>
    (recreated_dbs w \<noteq> [] \<longrightarrow> rtReplaceExisting r)"
  using restored_by_safe[OF assms(4) fresh_safe[OF assms(1-3)]] by (auto simp: safe_def seeds_recorded_def)

section \<open>A restore completes\<close>

text \<open>Answers that let a restore into a cluster go on.\<close>

definition willing :: "restore_env \<Rightarrow> resolved_source \<Rightarrow> bool \<Rightarrow> bool" where
  "willing e snap over \<longleftrightarrow>
     raLands e = (\<lambda>_. True) \<and> raRef e = None \<and> raVersionError e = None \<and> raValidation e = None \<and>
     raLookup e = None \<and> raTargetError e = None \<and> \<not> rgStandalone (raTarget e) \<and> raHooks e = (\<lambda>_. None) \<and>
     raProjection e = NothingMissing \<and> raCredsRolled e = Inr True \<and> raEndpointRolled e = Inr True \<and>
     raProxy e = Inr True \<and> raClient e = None \<and> raAPIReader e \<and> raUncached e \<and>
     raRecreate e = (\<lambda>_. None) \<and> raCreate e = (\<lambda>_. None) \<and>
     RecreateDatabaseProcedure (image_version (raTarget e)) \<noteq> [] \<and>
     list_all (\<lambda>d. (case raExists e d of Inr exists \<Rightarrow> exists \<longrightarrow> over | Inl _ \<Rightarrow> False) \<and> all_online (raOnline e d))
       (user_dbs snap)"

text \<open>A restore that is ready to go on: the source holds a file for each database, in a supported storage.\<close>

definition startable :: "resolved_source \<Rightarrow> restore \<Rightarrow> bool" where
  "startable snap r \<longleftrightarrow>
     rtInstanceRef r \<noteq> [] \<and> rtAllDatabases r \<and> rtPointInTime r = None \<and> user_dbs snap \<noteq> [] \<and>
     list_all (\<lambda>d. filenameForDB (rvArtifacts snap) d \<noteq> []) (user_dbs snap) \<and>
     (case rvStorage snap of
        None \<Rightarrow> False
      | Some storage \<Rightarrow> slType storage \<in> set [''s3'', ''gcs'', ''azure''] \<or> slType storage = ''pvc'' \<and> slPVC storage \<noteq> [])"

text \<open>What the writes before the loop keep beside the results.\<close>

definition frame :: "restore \<Rightarrow> string \<times> bool \<times> int option" where
  "frame r = (rtInstanceRef r, rtAllDatabases r, rtPointInTime r)"

definition keeps :: "restore_world \<Rightarrow> restore_world \<Rightarrow> bool" where
  "keeps w w' \<longleftrightarrow>
     quiet w w' \<and> rsPhase (rtStatus (rwStored w')) = rsPhase (rtStatus (rwStored w)) \<and>
     frame (rwStored w') = frame (rwStored w) \<and> frame (rwMem w') = frame (rwMem w)"

lemma keeps_trans: "keeps w w1 \<Longrightarrow> keeps w1 w2 \<Longrightarrow> keeps w w2"
  by (auto simp: keeps_def intro: quiet_trans)

lemma keeps_annotations:
  "keeps w (snd (set_annotation e k key v w))" "keeps w (snd (drop_annotations e k ks w))"
  unfolding keeps_def using quiet_set_annotation quiet_drop_annotations
  by (auto simp: set_annotation_def drop_annotations_def Let_def case_prod_unfold store_def frame_def)

lemma annotations_land:
  assumes "raLands e = (\<lambda>_. True)"
  shows "fst (set_annotation e k key v w) = None" "fst (drop_annotations e k ks w) = None"
  using assms by (simp_all add: set_annotation_def drop_annotations_def Let_def case_prod_unfold store_def)

lemma keeps_answered: "keeps w (allDatabasesTargetAnswered e w)"
  unfolding keeps_def
  by (intro conjI quiet_answered)
     (auto simp: allDatabasesTargetAnswered_def store_def on_status_def frame_def split: option.splits)

lemma keeps_new_attempt:
  assumes "raLands e = (\<lambda>_. True)"
  shows "fst (new_attempt e w) = None \<and> keeps w (snd (new_attempt e w))"
proof -
  have "keeps w w" by (simp add: keeps_def)
  moreover have "keeps w (snd (clearSeedProxyWaitStarted e (snd (clearCypherRestoreIssued e w))))"
    unfolding clearSeedProxyWaitStarted_def clearCypherRestoreIssued_def
    by (rule keeps_trans[OF keeps_annotations(2) keeps_annotations(2)])
  ultimately show ?thesis
    using annotations_land(2)[OF assms]
    by (simp add: new_attempt_def Let_def case_prod_unfold clearSeedProxyWaitStarted_def clearCypherRestoreIssued_def)
qed

lemma keeps_pre_hooks:
  assumes "willing e snap over"
  shows "fst (run_pre_hooks e w) = None \<and> keeps w (snd (run_pre_hooks e w))"
proof -
  have e: "raLands e = (\<lambda>_. True)" "raHooks e = (\<lambda>_. None)" using assms by (auto simp: willing_def)
  have "keeps w (log_effect (RanHooks h) w)" for h by (simp add: keeps_def)
  note keeps_trans[OF this keeps_annotations(1)]
  moreover have "keeps w w" by (simp add: keeps_def)
  ultimately show ?thesis
    using annotations_land(1)[OF e(1)]
    by (simp add: run_pre_hooks_def markRestorePreHooksRan_def e(2) Let_def case_prod_unfold)
qed

lemma keeps_prepare:
  assumes "willing e snap over" "startable snap r"
  shows "\<exists>u w'. prepare_seeds e sd snap (the (rvStorage snap)) w = (Inr u, w') \<and> keeps w w'"
proof -
  obtain storage where st: "rvStorage snap = Some storage"
      "slType storage \<in> set [''s3'', ''gcs'', ''azure''] \<or> slType storage = ''pvc'' \<and> slPVC storage \<noteq> []"
    using assms(2) by (auto simp: startable_def split: option.splits)
  have wait: "seed_rollout_wait e storage = None"
    using assms(1) by (auto simp: willing_def seed_rollout_wait_def rolled_or_message_def awaitSeedIdentity_def Let_def)
  have e: "raProjection e = NothingMissing" "raProxy e = Inr True" using assms(1) by (auto simp: willing_def)
  have "keeps w w" by (simp add: keeps_def)
  then show ?thesis
    using st keeps_annotations(2)[of w e WUnanchor "[AnnotationSeedProxyWaitStarted]"]
    by (auto simp: prepare_seeds_def ensureClusterSeedConfigReady_def ensurePVCSeedProxyReady_def
        buildSeedURIFromBackupStorage_def clearSeedProxyWaitStarted_def e wait Let_def)
qed

text \<open>A restore under way: nothing has failed, and what has left Pending was seeded.\<close>

definition under_way :: "resolved_source \<Rightarrow> bool \<Rightarrow> restore_world \<Rightarrow> bool" where
  "under_way snap over w \<longleftrightarrow>
     safe snap over w \<and> startable snap (rwStored w) \<and> \<not> terminal (rsPhase (rtStatus (rwStored w))) \<and>
     (\<forall>d\<in>set (user_dbs snap). phases (rwStored w) d \<noteq> StatusFailed \<and>
        (phases (rwStored w) d \<noteq> StatusPending \<longrightarrow> d \<in> fst ` set (seeds w)))"

lemma startable_frame: "frame r = frame r' \<Longrightarrow> startable snap r = startable snap r'"
  by (simp add: frame_def startable_def)

lemma keeps_dest:
  assumes "keeps w w'"
  shows "quiet w w'" "rsPhase (rtStatus (rwStored w')) = rsPhase (rtStatus (rwStored w))"
    "frame (rwStored w') = frame (rwStored w)" "frame (rwMem w') = frame (rwMem w)" "seeds w' = seeds w"
  using assms by (auto simp: keeps_def quiet_def)

text \<open>The loop is reached with the stored phases in the copy.\<close>

definition at_loop :: "resolved_source \<Rightarrow> bool \<Rightarrow> restore_world \<Rightarrow> restore_world \<Rightarrow> bool" where
  "at_loop snap over w w' \<longleftrightarrow>
     safe snap over w' \<and> copied snap over w' \<and> phases (rwMem w') = phases (rwStored w) \<and>
     phases (rwStored w') = phases (rwStored w) \<and> frame (rwStored w') = frame (rwStored w) \<and>
     rsPhase (rtStatus (rwStored w')) = rsPhase (rtStatus (rwStored w)) \<and> seeds w' = seeds w"

lemma connect_at_loop:
  assumes wi: "willing e snap over" and h: "held_copy snap over w" and stb: "startable snap r"
    and eq: "phases (rwMem w) = phases (rwStored w)"
  shows "\<exists>u w'. startAllDatabasesRestore e sd w =
           drive_databases e (image_version (raTarget e)) u (rvArtifacts snap) (rsResults (rtStatus (rwMem w'))) w' \<and>
         at_loop snap over w w'"
proof -
  obtain w1 where hooks: "run_pre_hooks e w = (None, w1)" and k1: "keeps w w1"
    using keeps_pre_hooks[OF wi, of w] by (metis prod.collapse)
  note q1 = keeps_dest[OF k1]
  define w2 where "w2 = on_mem (\<lambda>r. set_results (ensureDatabaseResults (user_dbs snap) (rsResults (rtStatus r))) r) w1"
  have s2: "safe snap over w2" "copied snap over w2"
    unfolding w2_def by (rule ensure_copied[OF quiet_held[OF q1(1) h]])+
  have m2: "phases (rwMem w2) = phases (rwMem w1)" "rwStored w2 = rwStored w1" "seeds w2 = seeds w1"
    by (simp_all add: w2_def set_results_def on_status_def)
  obtain u w3 where prep: "prepare_seeds e sd snap (the (rvStorage snap)) w2 = (Inr u, w3)" and k3: "keeps w2 w3"
    using keeps_prepare[OF wi stb] by metis
  define w4 where "w4 = allDatabasesTargetAnswered e w3"
  have k4: "keeps w2 w4" unfolding w4_def by (rule keeps_trans[OF k3 keeps_answered])
  note q4 = keeps_dest[OF k4]
  have "at_loop snap over w w4"
    using quiet_safe[OF q4(1) s2(1)] quiet_copied[OF q4(1) s2(2)] quiet_phases[OF q4(1)] quiet_phases[OF q1(1)] m2 q4 q1 eq
    by (simp add: at_loop_def)
  moreover have "startAllDatabasesRestore e sd w =
      drive_databases e (image_version (raTarget e)) u (rvArtifacts snap) (rsResults (rtStatus (rwMem w4))) w4"
    using wi stb
    by (simp add: startAllDatabasesRestore_def willing_def startable_def held_snapshot[OF h] hooks w2_def[symmetric]
        prep connect_and_drive_def w4_def Let_def)
  ultimately show ?thesis by blast
qed

lemma pass_at_loop:
  assumes wi: "willing e snap over" and un: "under_way snap over w"
  shows "\<exists>u w'. restore_pass e sd False w =
           drive_databases e (image_version (raTarget e)) u (rvArtifacts snap) (rsResults (rtStatus (rwMem w'))) w' \<and>
         at_loop snap over w w'"
proof -
  let ?w = "w\<lparr>rwMem := rwStored w\<rparr>"
  have safe: "safe snap over ?w"
    using un by (auto simp: under_way_def safe_def placed_def seeds_recorded_def seeds_def recreated_dbs_def)
  have h: "held_copy snap over ?w"
    using un safe by (simp add: held_copy_def under_way_def safe_def placed_def)
  obtain w1 where a: "new_attempt e ?w = (None, w1)" and k1: "keeps ?w w1"
    using keeps_new_attempt[of e ?w] wi unfolding willing_def by (metis prod.collapse)
  have h1: "held_copy snap over w1" by (rule quiet_held[OF keeps_dest(1)[OF k1] h])
  have repin: "repin e w1 = (None, w1)"
    using held_snapshot[OF h1] h1 by (simp add: repin_def Let_def held_copy_def attempt_def)
  define w3 where "w3 = on_mem (\<lambda>r. on_status (\<lambda>s. s\<lparr>rsStart := Some (raNow e), rsObserved := rtGeneration r\<rparr>) r) w1"
  have "quiet w1 w3" unfolding w3_def by (rule quiet_on_mem) (simp add: seed_core_def on_status_def)
  then have "keeps w1 w3" by (simp add: keeps_def w3_def frame_def on_status_def)
  then have k3: "keeps ?w w3" by (rule keeps_trans[OF k1])
  note q3 = keeps_dest[OF k3]
  have h3: "held_copy snap over w3" by (rule quiet_held[OF q3(1) h])
  have fr: "frame (rwMem w3) = frame (rwStored w)" using q3(4) by simp
  have stb: "startable snap (rwMem w3)" using un startable_frame[OF fr] by (simp add: under_way_def)
  have src: "rtSourceType (rwMem w3) = ''backup''" using h3 by (simp add: held_copy_def attempt_def)
  have pinned: "ensureResolvedBackupSource e w3 = (None, w3)" "decidePointInTimePath e w3 = (None, w3)"
    using stb src
    by (simp_all add: ensureResolvedBackupSource_def decidePointInTimePath_def Let_def held_snapshot[OF h3] startable_def)
  have eq: "phases (rwMem w3) = phases (rwStored w3)" using quiet_phases[OF q3(1)] by simp
  obtain u w' where drive: "startAllDatabasesRestore e sd w3 =
           drive_databases e (image_version (raTarget e)) u (rvArtifacts snap) (rsResults (rtStatus (rwMem w'))) w'"
      and loop: "at_loop snap over w3 w'"
    using connect_at_loop[OF wi h3 stb eq] by blast
  have "restore_pass e sd False w = startAllDatabasesRestore e sd w3"
    using wi un stb
    by (simp add: restore_pass_def reconcile_restore_def startRestore_def willing_def under_way_def startable_def
        restoreEndedAtGeneration_def restoreOnJobPath_def a repin w3_def[symmetric] pinned Let_def)
  moreover have "at_loop snap over w w'"
    using loop q3 quiet_phases(1)[OF q3(1)] by (simp add: at_loop_def seeds_def)
  ultimately show ?thesis using drive by metis
qed

definition following :: "string \<Rightarrow> string" where
  "following p = (if p = StatusPending then StatusRunning else StatusCompleted)"

lemma mark_stored:
  fixes w :: restore_world and d q m :: string
  assumes "raLands e WResult"
  defines "w' \<equiv> markDatabaseResult e d q m w"
  shows "frame (rwStored w') = frame (rwStored w)"
    and "\<not> terminal (rsPhase (rtStatus (rwStored w))) \<Longrightarrow> rsPhase (rtStatus (rwStored w')) = StatusRunning"
  using assms by (auto simp: markDatabaseResult_def Let_def store_def on_status_def frame_def)

text \<open>In the loop the first open database is moved on, seeded when it was Pending.\<close>

lemma act_moves:
  assumes wi: "willing e snap over" and s: "safe snap over w" and c: "copied snap over w"
    and eq: "phases (rwMem w) = phases (rwStored w)"
    and d: "next_db (phases (rwMem w)) (user_dbs snap) = Some (drDatabase r)"
    and r: "phases (rwMem w) (drDatabase r) = drPhase r" "drPhase r = StatusPending \<or> drPhase r = StatusRunning"
    and f: "filenameForDB (rvArtifacts snap) (drDatabase r) \<noteq> []"
  shows "\<exists>w1 m. act e (image_version (raTarget e)) u (rvArtifacts snap) r w =
             markDatabaseResult e (drDatabase r) (following (drPhase r)) m w1 \<and>
           (drPhase r = StatusPending \<longrightarrow> drDatabase r \<in> fst ` set (seeds w1)) \<and> set (seeds w) \<subseteq> set (seeds w1) \<and>
           rwStored w1 = rwStored w \<and> rwPrevious w1 = rwPrevious w \<and> rwMem w1 = rwMem w"
proof -
  let ?d = "drDatabase r"
  have e: "raRecreate e = (\<lambda>_. None)" "raCreate e = (\<lambda>_. None)" "raAPIReader e" "raUncached e"
      "RecreateDatabaseProcedure (image_version (raTarget e)) \<noteq> []"
    using wi by (auto simp: willing_def)
  obtain b where b: "raExists e ?d = Inr b" "b \<longrightarrow> over" and online: "all_online (raOnline e ?d)"
  proof -
    have "(case raExists e ?d of Inr exists \<Rightarrow> exists \<longrightarrow> over | Inl _ \<Rightarrow> False) \<and> all_online (raOnline e ?d)"
      using wi next_db_member[OF d] unfolding willing_def list_all_iff by blast
    then show thesis using that by (cases "raExists e ?d") auto
  qed
  show ?thesis
  proof (cases "drPhase r = StatusPending")
    case True
    let ?sent = "log_effect ((if b then Recreated else Created) ?d (u (filenameForDB (rvArtifacts snap) ?d))) w"
    have "phases (rwStored w) ?d = StatusPending" using eq r True by simp
    then have "issueGuardAllowsRecreate e ?d w"
      by (auto simp: issueGuardAllowsRecreate_def result_phase_def e split: option.splits)
    moreover have "b \<and> \<not> rtReplaceExisting (rwMem w) \<longleftrightarrow> False" using b(2) c by (simp add: copied_def)
    ultimately have "act e (image_version (raTarget e)) u (rvArtifacts snap) r w =
        markDatabaseResult e ?d StatusRunning ''seeding from backup'' ?sent"
      using f True by (simp add: act_def issue_seed_def b(1) restoreOverwriteConfirmed_def send_seed_def e)
    then show ?thesis
      by (intro exI[of _ ?sent] exI[of _ "''seeding from backup''"]) (simp add: True following_def)
  next
    case False
    have "act e (image_version (raTarget e)) u (rvArtifacts snap) r w = markDatabaseResult e ?d StatusCompleted ''online'' w"
      using f False online by (simp add: act_def poll_seed_def)
    then show ?thesis using False by (auto simp: following_def)
  qed
qed

lemma next_in_results:
  assumes "map drDatabase L = user_dbs snap" "distinct (user_dbs snap)" "known_phases L"
  shows "next_db (result_phase L) (user_dbs snap) = Some d \<Longrightarrow>
      \<exists>r. find (\<lambda>r. \<not> terminal (drPhase r)) L = Some r \<and> drDatabase r = d \<and> result_phase L d = drPhase r \<and>
          (drPhase r = StatusPending \<or> drPhase r = StatusRunning)"
    and "next_db (result_phase L) (user_dbs snap) = None \<Longrightarrow> find (\<lambda>r. \<not> terminal (drPhase r)) L = None"
proof -
  have nx: "next_db (result_phase L) (user_dbs snap) = map_option drDatabase (find (\<lambda>r. \<not> terminal (drPhase r)) L)"
    using next_db_entry[of L] assms by simp
  then show "next_db (result_phase L) (user_dbs snap) = None \<Longrightarrow> find (\<lambda>r. \<not> terminal (drPhase r)) L = None"
    by simp
  assume "next_db (result_phase L) (user_dbs snap) = Some d"
  then obtain r where r: "find (\<lambda>r. \<not> terminal (drPhase r)) L = Some r" "drDatabase r = d" using nx by auto
  have "r \<in> set L \<and> \<not> terminal (drPhase r) \<and> result_phase L (drDatabase r) = drPhase r"
    using find_phase[OF _ r(1)] assms by simp
  with r assms(3) show "\<exists>r. find (\<lambda>r. \<not> terminal (drPhase r)) L = Some r \<and> drDatabase r = d \<and> result_phase L d = drPhase r \<and>
          (drPhase r = StatusPending \<or> drPhase r = StatusRunning)"
    by (auto simp: known_phases_def list_all_iff)
qed

definition finished :: "resolved_source \<Rightarrow> restore_world \<Rightarrow> bool" where
  "finished snap w \<longleftrightarrow>
     rsPhase (rtStatus (rwStored w)) = StatusCompleted \<and> restoreEndedAtGeneration (rwStored w) \<and>
     (\<forall>d\<in>set (user_dbs snap). phases (rwStored w) d = StatusCompleted) \<and>
     distinct (map fst (seeds w)) \<and> set (map fst (seeds w)) = set (user_dbs snap)"

lemma willing_steady:
  assumes "willing e snap over" "safe snap over w"
  shows "steady e w"
proof -
  have "results_ok snap (rsResults (rtStatus (rwStored w)))" using assms(2) by (simp add: safe_def placed_def attempt_def)
  then have "drDatabase r \<in> set (user_dbs snap)" if "r \<in> set (rsResults (rtStatus (rwStored w)))" for r
    using that unfolding results_ok_def by (metis imageI list.set_map list.set(1) empty_iff)
  then show ?thesis using assms(1) by (auto simp: steady_def willing_def list_all_iff)
qed

lemma willing_finish:
  assumes wi: "willing e snap over" and nf: "\<forall>r\<in>set (rsResults (rtStatus (rwMem w))). drPhase r \<noteq> StatusFailed"
  defines "w' \<equiv> snd (finishAllDatabasesRestore e w)"
  shows "rsPhase (rtStatus (rwStored w')) = StatusCompleted \<and> restoreEndedAtGeneration (rwStored w')"
proof -
  have e: "raLands e = (\<lambda>_. True)" "raHooks e = (\<lambda>_. None)" using wi by (auto simp: willing_def)
  have "filter (\<lambda>r. drPhase r = StatusFailed) (rsResults (rtStatus (rwMem w))) = []"
    using nf by (simp add: filter_empty_conv)
  then show ?thesis
    by (simp add: w'_def finishAllDatabasesRestore_def transitionRestoreStatus_def Let_def case_prod_unfold store_def e
        on_status_def restoreEndedAtGeneration_def status_defs)
qed

lemma willing_pass_moves:
  fixes sd :: "int \<Rightarrow> string"
  assumes wi: "willing e snap over" and un: "under_way snap over w"
    and d: "next_db (phases (rwStored w)) (user_dbs snap) = Some d"
  defines "w' \<equiv> snd (restore_pass e sd False w)"
  shows "under_way snap over w' \<and> phases (rwStored w') = (phases (rwStored w))(d := following (phases (rwStored w) d))"
proof -
  have safe: "safe snap over w" using un by (simp add: under_way_def)
  have l: "raLands e WResult" "raAPIReader e" using wi by (auto simp: willing_def)
  have s': "safe snap over w'" unfolding w'_def by (rule pass_safe[OF safe l willing_steady[OF wi safe]])
  obtain u w2 where pass: "restore_pass e sd False w =
      drive_databases e (image_version (raTarget e)) u (rvArtifacts snap) (rsResults (rtStatus (rwMem w2))) w2"
    and loop: "at_loop snap over w w2"
    using pass_at_loop[OF wi un] by blast
  have c: "copied snap over w2" and s2: "safe snap over w2" and ph: "phases (rwMem w2) = phases (rwStored w)"
      "phases (rwStored w2) = phases (rwStored w)" using loop by (auto simp: at_loop_def)
  let ?L = "rsResults (rtStatus (rwMem w2))"
  have L: "map drDatabase ?L = user_dbs snap" "known_phases ?L" and dist: "distinct (user_dbs snap)"
    using c safe by (auto simp: copied_def safe_def placed_def)
  obtain r where r: "find (\<lambda>r. \<not> terminal (drPhase r)) ?L = Some r" "drDatabase r = d" "phases (rwMem w2) d = drPhase r"
      "drPhase r = StatusPending \<or> drPhase r = StatusRunning"
    using next_in_results(1)[OF L(1) dist L(2), of d] d ph by auto
  have f: "filenameForDB (rvArtifacts snap) d \<noteq> []"
    using un next_db_member[OF d] by (auto simp: under_way_def startable_def list_all_iff)
  have w': "w' = act e (image_version (raTarget e)) u (rvArtifacts snap) r w2"
    unfolding w'_def pass drive_databases_first[OF L(2)] r(1) by simp
  obtain w1 m where act: "w' = markDatabaseResult e d (following (drPhase r)) m w1"
      and seeded: "drPhase r = StatusPending \<longrightarrow> d \<in> fst ` set (seeds w1)" "set (seeds w2) \<subseteq> set (seeds w1)"
      and same: "rwStored w1 = rwStored w2" "rwPrevious w1 = rwPrevious w2" "rwMem w1 = rwMem w2"
    using act_moves[OF wi s2 c, of r u] w' d r f ph by auto
  have "placed snap over w1" "copied snap over w1" using s2 c same by (simp_all add: safe_def placed_def copied_def)
  moreover have "may_move snap d (phases (rwMem w1) d) (following (drPhase r))"
    using f r same by (auto simp: may_move_def following_def)
  moreover have "next_db (phases (rwMem w1)) (user_dbs snap) = Some d" "phases (rwStored w1) = phases (rwMem w1)"
    using d ph same by auto
  ultimately have new: "phases (rwStored w') = (phases (rwStored w))(d := following (phases (rwStored w) d))"
    using mark_placed(2)[of snap over w1 e d "following (drPhase r)" m] l(1) act ph same r(3) by simp
  have seeds': "seeds w' = seeds w1" using mark_effect(3)[OF l(1)] act by simp
  have "frame (rwStored w') = frame (rwStored w)" "rsPhase (rtStatus (rwStored w')) = StatusRunning"
    using mark_stored[OF l(1), where d = d and q = "following (drPhase r)" and m = m and w = w1] act same loop un
    by (auto simp: at_loop_def under_way_def)
  moreover have "following p \<noteq> StatusFailed" for p by (simp add: following_def status_defs)
  moreover have grows: "x \<in> fst ` set (seeds w')" if "x \<in> fst ` set (seeds w)" for x
    using loop seeded seeds' that by (auto simp: at_loop_def)
  moreover have "d \<in> fst ` set (seeds w')"
  proof (cases "drPhase r = StatusPending")
    case False
    then have "phases (rwStored w) d \<noteq> StatusPending" using r(3) ph by simp
    then have "d \<in> fst ` set (seeds w)" using un next_db_member[OF d] by (auto simp: under_way_def)
    then show ?thesis by (rule grows)
  qed (use seeded seeds' in simp)
  ultimately show ?thesis
    using s' un new startable_frame[of "rwStored w'" "rwStored w"] by (auto simp: under_way_def status_defs)
qed

lemma result_phase_entry: "distinct (map drDatabase L) \<Longrightarrow> r \<in> set L \<Longrightarrow> result_phase L (drDatabase r) = drPhase r"
  by (induction L) auto

lemma willing_pass_finishes:
  fixes sd :: "int \<Rightarrow> string"
  assumes wi: "willing e snap over" and un: "under_way snap over w"
    and none: "next_db (phases (rwStored w)) (user_dbs snap) = None"
  shows "finished snap (snd (restore_pass e sd False w))"
proof -
  obtain u w2 where pass: "restore_pass e sd False w =
      drive_databases e (image_version (raTarget e)) u (rvArtifacts snap) (rsResults (rtStatus (rwMem w2))) w2"
    and loop: "at_loop snap over w w2"
    using pass_at_loop[OF wi un] by blast
  have c: "copied snap over w2" and s2: "safe snap over w2" and ph: "phases (rwMem w2) = phases (rwStored w)"
      "phases (rwStored w2) = phases (rwStored w)" "seeds w2 = seeds w" using loop by (auto simp: at_loop_def)
  let ?L = "rsResults (rtStatus (rwMem w2))"
  have L: "map drDatabase ?L = user_dbs snap" "known_phases ?L" and dist: "distinct (user_dbs snap)"
    using c s2 by (auto simp: copied_def safe_def placed_def)
  have closed: "find (\<lambda>r. \<not> terminal (drPhase r)) ?L = None"
    using next_in_results(2)[OF L(1) dist L(2)] none ph by simp
  have fin: "snd (restore_pass e sd False w) = snd (finishAllDatabasesRestore e w2)" (is "?w = _")
    unfolding pass drive_databases_first[OF L(2)] closed by simp
  have comp: "phases (rwStored w) d = StatusCompleted" if "d \<in> set (user_dbs snap)" for d
    using none un that by (auto simp: next_db_def find_None_iff under_way_def)
  have "drPhase r = StatusCompleted" if "r \<in> set ?L" for r
  proof -
    have "drDatabase r \<in> set (user_dbs snap)" using that L(1) by (metis list.set_map imageI)
    then show ?thesis using result_phase_entry[of ?L r] comp ph(1) L(1) dist that by simp
  qed
  then have "\<forall>r\<in>set ?L. drPhase r \<noteq> StatusFailed" by (simp add: status_defs)
  from willing_finish[OF wi this] have ended: "rsPhase (rtStatus (rwStored ?w)) = StatusCompleted \<and> restoreEndedAtGeneration (rwStored ?w)"
    unfolding fin .
  have q: "quiet w2 ?w" unfolding fin by simp
  have "safe snap over ?w" by (rule quiet_safe[OF q s2])
  then show ?thesis
    using ended q quiet_phases(1)[OF q] ph comp un
    by (auto simp: finished_def quiet_def safe_def seeds_recorded_def under_way_def status_defs)
qed

lemma finished_stays:
  assumes "finished snap w"
  shows "finished snap (snd (restore_pass e sd False w))"
  using assms by (simp add: finished_def restore_pass_def reconcile_restore_def Let_def seeds_def)

text \<open>The passes a restore still needs beside the last: two for a database that is Pending, one for one that is Running.\<close>

definition cost :: "string \<Rightarrow> nat" where
  "cost p = (if p = StatusPending then 2 else if p = StatusRunning then 1 else 0)"

primrec work :: "(string \<Rightarrow> string) \<Rightarrow> string list \<Rightarrow> nat" where
  "work f [] = 0"
| "work f (d # dbs) = cost (f d) + work f dbs"

lemma work_bound: "work f dbs \<le> 2 * length dbs"
  by (induction dbs) (auto simp: cost_def)

lemma work_other: "d \<notin> set dbs \<Longrightarrow> work (f(d := q)) dbs = work f dbs"
  by (induction dbs) auto

lemma cost_following: "p = StatusPending \<or> p = StatusRunning \<Longrightarrow> Suc (cost (following p)) = cost p"
  by (auto simp: cost_def following_def status_defs)

lemma work_moves:
  "d \<in> set dbs \<Longrightarrow> distinct dbs \<Longrightarrow> f d = StatusPending \<or> f d = StatusRunning \<Longrightarrow>
   Suc (work (f(d := following (f d))) dbs) = work f dbs"
  using cost_following[of "f d"] by (induction dbs) (auto simp: work_other)

definition fresh_passes :: "(int \<Rightarrow> string) \<Rightarrow> restore_env list \<Rightarrow> restore_world \<Rightarrow> restore_world" where
  "fresh_passes sd es w = foldl (\<lambda>w e. snd (restore_pass e sd False w)) w es"

lemma fresh_passes_simps [simp]:
  "fresh_passes sd [] w = w" "fresh_passes sd (e # es) w = fresh_passes sd es (snd (restore_pass e sd False w))"
  by (simp_all add: fresh_passes_def)

lemma passes_finished: "finished snap w \<Longrightarrow> finished snap (fresh_passes sd es w)"
  by (induction es arbitrary: w) (simp_all add: finished_stays)

lemma open_phase:
  assumes "safe snap over w" "next_db (phases (rwStored w)) (user_dbs snap) = Some d"
  shows "phases (rwStored w) d = StatusPending \<or> phases (rwStored w) d = StatusRunning"
proof -
  have "known_phases (rsResults (rtStatus (rwStored w)))"
    using assms(1) by (simp add: safe_def placed_def attempt_def results_ok_def)
  moreover have "\<not> terminal (phases (rwStored w) d)"
    using assms(2) by (auto simp: next_db_def find_Some_iff)
  moreover have "result_phase L d \<in> set [StatusPending, StatusRunning, StatusCompleted, StatusFailed]" if "known_phases L" for L
    using that by (induction L) (auto simp: known_phases_def)
  ultimately show ?thesis by auto
qed

lemma passes_finish:
  assumes "under_way snap over w" "list_all (\<lambda>e. willing e snap over) es"
    and "length es > work (phases (rwStored w)) (user_dbs snap)"
  shows "finished snap (fresh_passes sd es w)"
  using assms
proof (induction es arbitrary: w)
  case (Cons e es)
  have wi: "willing e snap over" and s: "safe snap over w"
    using Cons.prems by (auto simp: under_way_def)
  show ?case
  proof (cases "next_db (phases (rwStored w)) (user_dbs snap)")
    case None
    then show ?thesis using willing_pass_finishes[OF wi Cons.prems(1)] passes_finished by simp
  next
    case (Some d)
    have "distinct (user_dbs snap)" using s by (simp add: safe_def placed_def)
    from work_moves[OF next_db_member[OF Some] this, of "phases (rwStored w)"] open_phase[OF s Some]
    show ?thesis
      using willing_pass_moves[OF wi Cons.prems(1) Some, of sd] Cons.IH Cons.prems(2,3) by simp
  qed
qed simp

text \<open>
  C19: A restore of all databases into a cluster completes: when Neo4j, the API server and the storage
  answer, two passes per database and one more leave it Completed, every database Completed, and
  each seeded exactly once.
\<close>
theorem all_databases_restore_completes:
  assumes "attempt snap (rtReplaceExisting r) r" and "rsResults (rtStatus r) = []" and "distinct (user_dbs snap)"
    and "startable snap r" and "\<not> terminal (rsPhase (rtStatus r))"
    and "list_all (\<lambda>e. willing e snap (rtReplaceExisting r)) es" and "length es > 2 * length (user_dbs snap)"
  shows "finished snap (fresh_passes sd es (fresh_world r))"
proof (rule passes_finish[OF _ assms(6)])
  show "under_way snap (rtReplaceExisting r) (fresh_world r)"
    using fresh_safe[OF assms(1-3)] assms(2,4,5) by (simp add: under_way_def fresh_world_def status_defs)
  show "length es > work (phases (rwStored (fresh_world r))) (user_dbs snap)"
    using work_bound assms(7) le_less_trans by blast
qed

section \<open>Examples\<close>

text \<open>A backup of two databases in an S3 bucket, a restore pinned to it, and a cluster in which both exist.\<close>

definition two_databases :: resolved_source where
  "two_databases = \<lparr>rvBackupRef = ''nightly'',
     rvStorage = Some \<lparr>slType = ''s3'', slBucket = ''b'', slPath = ''p'', slCredentials = [], slEndpoint = [], slPVC = []\<rparr>,
     rvBackupPath = ''run'', rvArtifactFilename = [], rvArtifactType = [],
     rvArtifacts = [\<lparr>daDatabase = ''system'', daFilename = ''s'', daType = ''FULL''\<rparr>,
                    \<lparr>daDatabase = ''neo4j'', daFilename = ''n'', daType = ''FULL''\<rparr>,
                    \<lparr>daDatabase = ''shop'', daFilename = ''h'', daType = ''FULL''\<rparr>],
     rvSharded = [], rvCreatedAt = None, rvStartedAt = None\<rparr>"

definition replacing :: restore where
  "replacing = \<lparr>rtName = ''r'', rtNamespace = ''ns'', rtGeneration = 1, rtInstanceRef = ''c'', rtAllDatabases = True,
     rtDatabase = [], rtSourceType = ''backup'', rtBackupRef = ''nightly'', rtSourceDatabase = [], rtPointInTime = None,
     rtReplaceExisting = True, rtPreRestore = False, rtPostRestore = False, rtTimeout = [], rtAnnotations = (\<lambda>_. None),
     rtStatus = \<lparr>rsPhase = ''Pending'', rsMessage = [], rsObserved = 1, rsStart = None, rsCompletion = None,
                 rsResolved = Some two_databases, rsResults = [], rsConditions = []\<rparr>\<rparr>"

definition answering :: restore_env where
  "answering = \<lparr>raNow = 1, raLands = (\<lambda>_. True), raWriteError = [], raFormat = (\<lambda>_. []), raParseTime = (\<lambda>_. None),
     raParseDuration = (\<lambda>_. None), raPathEscape = (\<lambda>s. s), raRef = None, raVersionError = None, raValidation = None,
     raLookup = None, raTargetError = None,
     raTarget = \<lparr>rgStandalone = False, rgName = ''c'', rgRepo = ''neo4j'', rgTag = ''2025.06.0-enterprise'', rgHeldBy = None,
                 rgIdentity = False, rgServiceAccount = [], rgEnvEndpoint = False\<rparr>,
     raStandaloneRead = False, raBackup = Inl (True, []), raHistory = None, raExists = (\<lambda>_. Inr True),
     raHooks = (\<lambda>_. None), raProjection = NothingMissing, raCredsRolled = Inr True, raEndpointRolled = Inr True,
     raIdentityRolled = Inr True, raProxy = Inr True, raMergeFailure = [], raDiagnosis = [], raClient = None,
     raAPIReader = True, raUncached = True, raRecreate = (\<lambda>_. None), raCreate = (\<lambda>_. None),
     raOnline = (\<lambda>_. Inr (1, 1)), raRecorder = False, raSwept = False\<rparr>"

text \<open>Passes with the copy each acts on.\<close>

definition run_restore :: "(restore_env \<times> bool) list \<Rightarrow> restore_world \<Rightarrow> restore_world" where
  "run_restore ps w = foldl (\<lambda>w (e, stale). snd (restore_pass e (\<lambda>_. []) stale w)) w ps"

text \<open>The second pass acts on the copy from before the seed was recorded.\<close>

definition two_passes :: restore_world where
  "two_passes = run_restore [(answering, False), (answering, True)] (fresh_world replacing)"

theorem each_database_is_seeded_once_witness:
  "distinct (map fst (seeds two_passes)) \<and> map fst (seeds two_passes) = [''neo4j'']"
proof -
  let ?w1 = "snd (restore_pass answering (\<lambda>_. []) False (fresh_world replacing))"
  have "restored_by (\<lambda>_. []) (fresh_world replacing) ?w1"
    by (rule one_more[OF nothing_yet]) code_simp+
  then have "restored_by (\<lambda>_. []) (fresh_world replacing) (snd (restore_pass answering (\<lambda>_. []) True ?w1))"
    by (rule one_more) code_simp+
  then have run: "restored_by (\<lambda>_. []) (fresh_world replacing) two_passes"
    by (simp add: two_passes_def run_restore_def)
  have "attempt two_databases (rtReplaceExisting replacing) replacing" "rsResults (rtStatus replacing) = []"
      "distinct (user_dbs two_databases)"
    by code_simp+
  note each_database_is_seeded_once[OF this run]
  moreover have "map fst (seeds two_passes) = [''neo4j'']" by code_simp
  ultimately show ?thesis by simp
qed

lemma answering_willing: "willing answering two_databases True"
proof -
  have a: "RecreateDatabaseProcedure (image_version (raTarget answering)) \<noteq> []" by code_simp
  have b: "list_all (\<lambda>d. (case raExists answering d of Inr exists \<Rightarrow> exists \<longrightarrow> True | Inl _ \<Rightarrow> False) \<and>
             all_online (raOnline answering d)) (user_dbs two_databases)" by code_simp
  show ?thesis unfolding willing_def
    by (intro conjI a b) (simp_all add: answering_def)
qed

theorem all_databases_restore_completes_witness:
  "finished two_databases (fresh_passes (\<lambda>_. []) (replicate 5 answering) (fresh_world replacing))"
proof (rule all_databases_restore_completes)
  have "rtReplaceExisting replacing = True" by code_simp
  then show "list_all (\<lambda>e. willing e two_databases (rtReplaceExisting replacing)) (replicate 5 answering)"
    using answering_willing by (simp add: list_all_iff)
qed code_simp+

section \<open>Where it goes wrong\<close>

definition unrecorded :: restore_env where
  "unrecorded = answering\<lparr>raLands := (\<lambda>k. k \<noteq> WResult)\<rparr>"

text \<open>
  A seed whose record is not written is sent again by the next pass: the error of the write is
  logged and not returned, and what the uncached check reads is that record.
\<close>

lemma unrecorded_seed_is_sent_again:
  "map fst (seeds (run_restore [(unrecorded, False), (answering, False)] (fresh_world replacing))) = [''neo4j'', ''neo4j'']"
  by code_simp

definition flapping :: restore_env where
  "flapping = answering\<lparr>raOnline := (\<lambda>_. Inr (0, 1))\<rparr>"

text \<open>
  Every write lands here. The list of results is written whole from the copy a pass acts on; when
  the database before it goes offline once, a copy that knows nothing of the second database's seed
  writes it back to Pending, and the uncached check lets the second seed through.
\<close>

lemma stale_results_send_a_seed_twice:
  "map fst (seeds (run_restore [(answering, False), (answering, False), (flapping, True), (answering, True),
      (answering, True), (answering, False)] (fresh_world replacing))) = [''neo4j'', ''shop'', ''shop'']"
  by code_simp

text \<open>
  A new generation of a restore that has ended clears what a single database's restore keeps, and
  not the results of the databases: the retry finds them all done, ends as before and sends nothing.
\<close>

definition failed_once :: restore where
  "failed_once = rwStored (run_restore [(answering, False), (answering, False), (answering, False)]
     (fresh_world (replacing\<lparr>rtReplaceExisting := False\<rparr>)))"

definition retried :: restore_world where
  "retried = run_restore [(answering, False)]
     (fresh_world (failed_once\<lparr>rtGeneration := 2, rtReplaceExisting := True\<rparr>))"

lemma retry_restores_nothing:
  "rsPhase (rtStatus failed_once) = StatusFailed" "seeds retried = []"
  "rsPhase (rtStatus (rwStored retried)) = StatusFailed" "rsObserved (rtStatus (rwStored retried)) = 2"
  by code_simp+

end
