(* ===== verification/Spec2Isabelle.thy ===== *)
theory Spec2Isabelle
  imports Version Availability Role_Safety Memory_Validator Storage_Expansion Standalone_Conf Restore_Safety
begin

text \<open>
  A verification development of the Neo4j Kubernetes operator (\<^verbatim>\<open>src/\<close>, written in Go).

  The program. The operator watches custom resources and, in a \<open>pass\<close> (one run of a controller's
  \<^verbatim>\<open>Reconcile\<close>), moves a Kubernetes cluster and the Neo4j servers in it towards what each
  resource asks for. What a pass must remember it writes into the resource's status, conditions
  and annotations, and any read, any write and any statement it sends to Neo4j may fail. Two things
  are remembered in the operator's memory: the StatefulSet a storage expansion deleted and the time
  a ConfigMap was last written; both are state of the model. What is modelled is the part in which
  an error loses data or availability: the rolling upgrade of a cluster's servers, their removal,
  their addition and their formation, split-brain repair, the growth of their volumes, the
  configuration file and the restarts it causes, the fields shared with other writers, the restore of
  all databases of a backup, and the privileges of roles, with the validators and readers they rest on.

  The parts and their theories, in the order the code calls them.

  \<^item> Prelude: the operations of Go's \<^verbatim>\<open>strings\<close>, \<^verbatim>\<open>strconv\<close>, \<^verbatim>\<open>sort\<close> and \<^verbatim>\<open>time\<close> packages the code
    uses, on \<open>string\<close> (a Go string is its bytes), and what holds of them.
  \<^item> Version (\<^verbatim>\<open>internal/neo4j/version.go\<close>): versions read from tags and image references,
    the feature gates, and the shell commands of backups and restores with their quoting.
  \<^item> Upgrade\_Rule (\<^verbatim>\<open>internal/validation/upgrade_validator.go\<close>, \<^verbatim>\<open>image_validator.go\<close>): which
    tag may follow which. The checks written as the code has them are equal to a declarative
    rule; the locale \<open>version_floor\<close> is the interface of a version order with a floor.
  \<^item> Cluster\_State: the cluster object, its conditions (\<^verbatim>\<open>conditions.go\<close>), the StatefulSet, pods
    and the rows of \<open>SHOW SERVERS\<close>, each with the fields the modelled code reads. The locale
    \<open>condition_writer\<close> is the contract of a writer of conditions.
  \<^item> Reported\_Version (\<^verbatim>\<open>reported_version.go\<close>, \<^verbatim>\<open>running_version.go\<close>, the version checks of
    \<^verbatim>\<open>rolling_upgrade.go\<close>): what the servers run and whether an upgrade is verified. The locale
    \<open>later_choice\<close> carries the maximum over the reported versions.
  \<^item> Upgrade\_Gate (\<^verbatim>\<open>upgrade_database_gate.go\<close>, the plan of \<^verbatim>\<open>rolling_upgrade_statemachine.go\<close>):
    the conditions between two steps of the walk over the servers.
  \<^item> Upgrade\_Hold (\<^verbatim>\<open>upgrade_hold.go\<close>, \<^verbatim>\<open>upgrade_start.go\<close>, \<^verbatim>\<open>upgrade_started_target.go\<close>,
    \<^verbatim>\<open>upgrade_stalled.go\<close>, \<^verbatim>\<open>upgrade_topology.go\<close>, \<^verbatim>\<open>upgrade_uncached.go\<close>): what an upgrade in flight or stopped
    holds in place, and the apply of the server StatefulSet of the normal pass.
  \<^item> Upgrade\_Staging (\<^verbatim>\<open>upgrade_repair.go\<close>, \<^verbatim>\<open>upgrade_retarget.go\<close>, \<^verbatim>\<open>stuck_server_pods.go\<close>):
    which servers are down, and where the partition is frozen before the walk.
  \<^item> Status\_Writes: every write of the upgrade's record and the cluster's phase, with re-read,
    retry on conflict and the copy the pass goes on with. Its \<open>world\<close> record holds the stored
    cluster, the copy in memory, the StatefulSet and the log of effects; \<open>status_write\<close> is the
    step relation of the writes.
  \<^item> Upgrade\_Machine (\<^verbatim>\<open>rolling_upgrade_statemachine.go\<close>, \<^verbatim>\<open>handleRollingUpgrade\<close>): start,
    Staging, Rolling, Stabilizing, Verifying, completion, failure and retargeting. It advances a
    running drain, which it knows by the locale \<open>drain_step\<close> only. Upgrade\_Progress holds
    what it achieves over several passes.
  \<^item> Scale\_Down (\<^verbatim>\<open>scale_down.go\<close>, \<^verbatim>\<open>server_management.go\<close>): the drain of the servers a smaller
    spec removes, its records in annotations and the statements it sends. Scale\_Down\_Safety
    holds its properties and interprets \<open>drain_step\<close> on it.
  \<^item> Cluster\_Pass: the machine with the model's drain in it, and the normal pass, in which the
    drain runs before the apply.
  \<^item> Raise\_Hold (\<^verbatim>\<open>raise_hold.go\<close>, \<^verbatim>\<open>holdTopologyChange\<close>): a scale-up waits while something of a
    removed server is left under the name a new one would get; and the holds of image and topology
    a stopped upgrade puts before the drain and the apply (\<open>hold_and_scale\<close>).
  \<^item> Split\_Brain (\<^verbatim>\<open>splitbrain_detector.go\<close>, \<^verbatim>\<open>reconcile_cadence.go\<close>): the views the servers have
    of each other, their groups, and which pods a repair restarts.
  \<^item> Availability (\<^verbatim>\<open>cluster_availability.go\<close>, the formation check of
    \<^verbatim>\<open>neo4jenterprisecluster_controller.go\<close>): whether the cluster is Ready, Degraded or Forming,
    with the grace a short outage has.
  \<^item> Float64 and Memory\_Config (\<^verbatim>\<open>internal/resources/memory_config.go\<close>): the sizes of heap and
    page cache derived from a limit, with the rounding of \<^verbatim>\<open>float64\<close> and the wrap-around of
    \<^verbatim>\<open>int64\<close>. Setting\_Values (\<^verbatim>\<open>internal/validation/setting_values.go\<close>): the readers of typed
    configuration values. Memory\_Validator (\<^verbatim>\<open>memory_validator.go\<close>): the check of the sizes.
  \<^item> Storage\_Expansion (\<^verbatim>\<open>storage_expansion.go\<close>) and Recreate (\<^verbatim>\<open>statefulset_recreate.go\<close>, the
    create branch of \<^verbatim>\<open>createOrUpdateResourceInternal\<close>): the data claims grow, the StatefulSet is
    deleted without its pods and created again as it was, in two steps when the upgrade holds a
    partition.
  \<^item> Neo4j\_Conf (\<^verbatim>\<open>internal/resources/cluster.go\<close>): the text of \<^verbatim>\<open>neo4j.conf\<close>, its settings, and the
    passes that leave one declaration of each and join settings from elsewhere.
  \<^item> Conf\_Restart (\<^verbatim>\<open>configmap_manager.go\<close>, \<^verbatim>\<open>live_config.go\<close>): which change of the ConfigMap is
    set on the running servers, which restarts them and which does neither.
  \<^item> Owned\_Items (\<^verbatim>\<open>owned_keys.go\<close> and the merges of the pod template in the controllers): what
    the operator owns on objects other writers share. The locale \<open>owned_merge\<close> is the contract of
    a merge that takes back only what it wrote; it is interpreted on labels and annotations,
    environment variables, init containers and volumes.
  \<^item> Standalone\_Conf (\<^verbatim>\<open>standalone_conf.go\<close>, \<^verbatim>\<open>neo4jenterprisestandalone_controller.go\<close>): the
    configuration file of a standalone, its two writers, and the stamp that restarts its pod.
  \<^item> Restore\_Source (\<^verbatim>\<open>neo4jrestore_controller.go\<close>, \<^verbatim>\<open>restore_outcome.go\<close>, \<^verbatim>\<open>restore_target.go\<close>,
    \<^verbatim>\<open>restore_point_in_time.go\<close>): the restore object, its status and annotation writers, the backup
    run it reads and whether it runs online. Restore\_All (\<^verbatim>\<open>neo4jrestore_alldatabases.go\<close>): the online
    restore of every database, from \<^verbatim>\<open>Reconcile\<close> to the loop over the databases; its \<open>restore_world\<close> holds
    the stored restore, the version before its last write, the copy of the pass and the log of
    statements and events. Restore\_Safety holds its properties; \<open>restored_by\<close> is its step relation.
  \<^item> Privileges (\<^verbatim>\<open>internal/neo4j/privileges.go\<close>) and Privilege\_Rules (\<^verbatim>\<open>privilege_rules.go\<close>):
    \<open>GRANT\<close> and \<open>DENY\<close> statements as text, their canonical form, and the statements structured
    rules are rendered to.
  \<^item> Role\_Learning (\<^verbatim>\<open>neo4jrole_learn.go\<close>, with \<^verbatim>\<open>revokeUnwanted\<close> and \<^verbatim>\<open>fetchCurrentPrivileges\<close> of
    \<^verbatim>\<open>neo4jrole_controller.go\<close>): the pass over a role that learns from its own grants what Neo4j
    stores them as. Role\_Safety holds what a history of such passes (\<open>reconciled\<close>) keeps.

  How a pass is modelled. An operation takes what it reads from outside as an argument and
  returns the new state. For a pass over a cluster that argument is a record of answers, \<open>env\<close>
  for the machine, \<open>drain_env\<close> for the drain, and likewise \<open>raise_env\<close>, \<open>formation_env\<close>,
  \<open>recreate_env\<close>, \<open>storage_env\<close>, \<open>live_env\<close>, \<open>conf_env\<close>, \<open>standalone_env\<close> and \<open>restore_env\<close>: what each read
  returns or that it fails, which
  writes land, what Neo4j says, and the time in nanoseconds (the times of conditions are kept in
  whole seconds, as the API server keeps them; the times of the upgrade record are not rounded).
  A theorem over all environments
  therefore covers every failure and every answer, stale ones too. The pass over a role talks
  to Neo4j in a loop, so its \<open>role_env\<close> is a record of operations on a Neo4j state of any type;
  the theorems say in named hypotheses what they need of it (a grant adds the rows a statement
  is stored as, a revoke removes the row it names), and a concrete Neo4j satisfies them in the
  witnesses. SHA-256, Go's time formats and the parser of Kubernetes quantities are function
  arguments; where a property needs that two files of one hash are one file, it says so for the
  files it is about. Integers that only count are \<open>int\<close>; sizes of memory are \<open>int\<close> with the
  wrap-around of 64 bits written out. What the pods of a StatefulSet really run is a field of the
  state that no operation reads (\<open>swRunning\<close>), so that a theorem can compare it. Every function is
  total; no fuel is used. The completion of an upgrade is stated for the number of passes it needs,
  one per server left to roll and three more.

  What the theorems show.
  \<^item> Outside Staging an upgrade releases one server at a time, and the next only after the StatefulSet
    controller has caught up, all servers are Ready, and Neo4j and the databases agree that the last
    one released is back. It completes only when every Enabled server reports the target, it does
    complete when the servers come back one by one, each on the target only once it is released, and it
    stops at its deadline with nothing moved otherwise. A stopped upgrade moves no server in the
    normal pass, a drain already in progress apart, and the version its servers may have started
    on is a floor that a retry keeps.
  \<^item> A scale-down whose passes read the StatefulSet lowers the replica count only when each server
    was drained; on an error of that read it does not hold the count. It cordons,
    deallocates and drops only servers the spec does not keep, in that order, each on its
    grounds; what it cordoned is on record first; a set-back gives back what the drain took.
  \<^item> A scale-up that reads the StatefulSet adds no server over the leftovers of a removed one; the
    check at the end of the normal pass calls a cluster serving only with a majority of its servers
    enabled and healthy, and an outage Degraded after its grace; a split-brain repair spares the largest group of servers.
  \<^item> A storage expansion deletes the StatefulSet only when every claim was patched, and the pods keep
    running through the deletion and both steps of the new StatefulSet, unless a second expansion
    deletes one that waits for its second step (\<open>second_expansion_rolls_servers_back\<close>).
  \<^item> A rendered \<^verbatim>\<open>neo4j.conf\<close> declares each setting once. A change of a setting restarts the servers
    or is set on every one of them, with the settings a restart would give; comments, blank
    lines and restart-neutral parts restart none. A standalone's pod runs on the settings of
    its file after a pass that gets as far as its StatefulSet. Two files that count as equal for a
    restart have the same settings.
  \<^item> Applying a template or metadata twice changes nothing the second time and never touches
    what another writer put there.
  \<^item> A restore of all databases sends each database's seed at most once, with stale copies too, replaces
    a database only when told to, and completes in two passes per database and one more.
  \<^item> The sizes derived from a memory limit fit it before they are printed (printed they may take all of
    it, \<open>printed_sizes_take_the_whole_limit\<close>), and the memory check accepts exactly the readable
    settings that fit, where nothing overflows.
  \<^item> A role nobody else grants on keeps every privilege its spec states through any history of specs,
    although the operator learns only part of how each is stored; structured privileges are told apart by
    their canonical forms; the text rewriters are idempotent and inverse where the code needs it.
  \<^item> The status tells the truth: the Stalled condition, phase durations, the state learn mode
    keeps, the verified and highest versions.
  \<^item> Where the code differs from its comments or from what it means to do, a theorem states what
    it does (\<open>unread_statefulset_releases_servers\<close>, \<open>forgetAbandonedUpgrade_forgets_a_live_record\<close>,
    \<open>foreign_row_costs_a_privilege\<close>, \<open>DerivePrivilegeRevoke_loses_a_space\<close>,
    \<open>SupportsSourceDatabaseFilter_lost_in_January\<close>, \<open>RecreateDatabaseProcedure_missing_iff\<close>,
    \<open>oversized_settings_pass\<close>, \<open>size_check_depends_on_order\<close>, \<open>failed_stamp_is_not_retried\<close>,
    \<open>failed_read_restarts_every_server\<close>, \<open>later_jvm_lines_are_not_compared\<close>,
    \<open>upsert_alone_changes_its_own_line\<close>, \<open>upsert_repeats_jvm_lines\<close>,
    \<open>taken_back_change_keeps_running\<close>, \<open>retry_restores_nothing\<close>,
    \<open>unrecorded_seed_is_sent_again\<close>, \<open>stale_results_send_a_seed_twice\<close>).

  Not modelled. Of the role controller: the probe mode (\<^verbatim>\<open>neo4jrole_normalise.go\<close>), the status and
  events of a failed pass and the role's creation and deletion. Of the cluster controller: the
  rendering of the objects beside the server StatefulSet, certificates and plugins. Of the
  standalone controller: rendering, upgrade, status and storage. Of the restore controller: the
  restore of one database, the offline Job and the seed proxy's objects. The controllers of
  backups, databases, users, bindings and Aura instances. The builders of pod templates, the Neo4j
  driver's client, the kubectl plugin, metrics and process wiring: they render or transport what the
  modelled code decides. Generated code. Concurrent writers appear as reads that return other values
  and as writes that conflict; two passes over one resource do not overlap, which the work queue of
  the controller runtime ensures.
\<close>

end
